(* ===== verification/Prelude.thy ===== *)
theory Prelude
  imports Main "HOL-Library.Word" "HOL-Library.Char_ord" "HOL-Library.List_Lexorder" "HOL-Library.Sublist"
begin

text \<open>
  Shared vocabulary of the development: Rust's \<open>Result\<close> as a sum, the string operations of
  Rust's standard library that the sources use, and generic lemmas on lists and association
  lists.

  A Rust \<open>str\<close> is modelled as the list of its bytes (\<open>string\<close>, that is \<open>char list\<close>). \<open>len\<close>
  is the number of bytes, as in Rust. The character-class operations (\<open>trim\<close>, \<open>to_lowercase\<close>,
  \<open>is_whitespace\<close>, ...) are Rust's on ASCII; a byte of 128 or more belongs to no class and is
  left unchanged by \<open>to_lowercase\<close>.
\<close>

named_theorems str_simps \<open>characteristic equations of the string operations\<close>
named_theorems result_simps \<open>rules for results\<close>

section \<open>Results\<close>

type_synonym ('e, 'a) result = "'e + 'a"

abbreviation Ok :: "'a \<Rightarrow> ('e, 'a) result" where
  "Ok \<equiv> Inr"

abbreviation Err :: "'e \<Rightarrow> ('e, 'a) result" where
  "Err \<equiv> Inl"

definition is_ok :: "('e, 'a) result \<Rightarrow> bool" where
  "is_ok r \<longleftrightarrow> (case r of Inl _ \<Rightarrow> False | Inr _ \<Rightarrow> True)"

definition is_err :: "('e, 'a) result \<Rightarrow> bool" where
  "is_err r \<longleftrightarrow> \<not> is_ok r"

definition map_err :: "('e \<Rightarrow> 'f) \<Rightarrow> ('e, 'a) result \<Rightarrow> ('f, 'a) result" where
  "map_err f r = (case r of Inl e \<Rightarrow> Inl (f e) | Inr a \<Rightarrow> Inr a)"

definition map_ok :: "('a \<Rightarrow> 'b) \<Rightarrow> ('e, 'a) result \<Rightarrow> ('e, 'b) result" where
  "map_ok f r = (case r of Inl e \<Rightarrow> Inl e | Inr a \<Rightarrow> Inr (f a))"

lemma is_ok_simps [simp, result_simps]:
  "is_ok (Inr a)" "\<not> is_ok (Inl e)" "is_err (Inl e)" "\<not> is_err (Inr a)"
  by (simp_all add: is_ok_def is_err_def)

lemma map_err_simps [simp, result_simps]:
  "map_err f (Inl e) = Inl (f e)" "map_err f (Inr a) = Inr a"
  by (simp_all add: map_err_def)

lemma map_ok_simps [simp, result_simps]:
  "map_ok f (Inl e) = Inl e" "map_ok f (Inr a) = Inr (f a)"
  by (simp_all add: map_ok_def)

lemma is_ok_iff: "is_ok r \<longleftrightarrow> (\<exists>a. r = Inr a)"
  by (cases r) auto

lemma is_ok_fst_iff: "is_ok (fst x) \<longleftrightarrow> (\<exists>a s. x = (Inr a, s))"
  by (cases x) (auto simp: is_ok_iff)

lemma map_err_eq_Inr [simp]: "map_err f r = Inr a \<longleftrightarrow> r = Inr a"
  by (cases r) auto

section \<open>Characters\<close>

abbreviation code :: "char \<Rightarrow> nat" where
  "code c \<equiv> of_char c"

abbreviation apos :: char where
  "apos \<equiv> CHR 0x27"

abbreviation dquote :: char where
  "dquote \<equiv> CHR 0x22"

abbreviation newline :: char where
  "newline \<equiv> CHR 0x0A"

definition is_whitespace :: "char \<Rightarrow> bool" where
  "is_whitespace c \<longleftrightarrow> (9 \<le> code c \<and> code c \<le> 13) \<or> code c = 32"

definition is_ascii_digit :: "char \<Rightarrow> bool" where
  "is_ascii_digit c \<longleftrightarrow> 48 \<le> code c \<and> code c \<le> 57"

definition is_ascii_upper :: "char \<Rightarrow> bool" where
  "is_ascii_upper c \<longleftrightarrow> 65 \<le> code c \<and> code c \<le> 90"

definition is_ascii_lower :: "char \<Rightarrow> bool" where
  "is_ascii_lower c \<longleftrightarrow> 97 \<le> code c \<and> code c \<le> 122"

definition is_ascii_alphabetic :: "char \<Rightarrow> bool" where
  "is_ascii_alphabetic c \<longleftrightarrow> is_ascii_upper c \<or> is_ascii_lower c"

definition is_ascii_alphanumeric :: "char \<Rightarrow> bool" where
  "is_ascii_alphanumeric c \<longleftrightarrow> is_ascii_alphabetic c \<or> is_ascii_digit c"

definition lower_char :: "char \<Rightarrow> char" where
  "lower_char c = (if is_ascii_upper c then char_of (code c + 32) else c)"

lemmas char_class_defs = is_whitespace_def is_ascii_digit_def is_ascii_upper_def
  is_ascii_lower_def is_ascii_alphabetic_def is_ascii_alphanumeric_def

lemma code_char_of: "n < 256 \<Longrightarrow> code (char_of n) = (n::nat)"
  by simp

text \<open>On a literal the shift by 32 sets one bit; this form evaluates by rewriting.\<close>

lemma lower_char_lit [simp]:
  "lower_char (Char b0 b1 b2 b3 b4 b5 b6 b7) =
     (if is_ascii_upper (Char b0 b1 b2 b3 b4 b5 b6 b7) then Char b0 b1 b2 b3 b4 True b6 b7
      else Char b0 b1 b2 b3 b4 b5 b6 b7)"
  by (cases b0; cases b1; cases b2; cases b3; cases b4; cases b5; cases b6; cases b7;
      simp add: lower_char_def is_ascii_upper_def; code_simp)

lemma lower_char_idem [simp]: "lower_char (lower_char c) = lower_char c"
  by (simp add: lower_char_def is_ascii_upper_def)

lemma lower_char_not_upper [simp]: "\<not> is_ascii_upper (lower_char c)"
  by (simp add: lower_char_def is_ascii_upper_def)

lemma is_whitespace_lower_char [simp]: "is_whitespace (lower_char c) = is_whitespace c"
  by (auto simp: lower_char_def is_whitespace_def is_ascii_upper_def)

section \<open>Strings\<close>

text \<open>\<open>str::to_lowercase\<close>, \<open>trim_start\<close>, \<open>trim\<close>, \<open>starts_with\<close>, \<open>ends_with\<close>, \<open>contains\<close>.\<close>

definition to_lowercase :: "string \<Rightarrow> string" where
  "to_lowercase s = map lower_char s"

definition trim_start :: "string \<Rightarrow> string" where
  "trim_start s = dropWhile is_whitespace s"

definition trim_end :: "string \<Rightarrow> string" where
  "trim_end s = rev (dropWhile is_whitespace (rev s))"

definition trim :: "string \<Rightarrow> string" where
  "trim s = trim_end (trim_start s)"

definition starts_with :: "string \<Rightarrow> string \<Rightarrow> bool" where
  "starts_with s p \<longleftrightarrow> take (length p) s = p"

definition ends_with :: "string \<Rightarrow> string \<Rightarrow> bool" where
  "ends_with s p \<longleftrightarrow> starts_with (rev s) (rev p)"

fun contains_str :: "string \<Rightarrow> string \<Rightarrow> bool" where
  "contains_str [] p = (p = [])"
| "contains_str (c # cs) p = (starts_with (c # cs) p \<or> contains_str cs p)"

definition eq_ignore_ascii_case :: "string \<Rightarrow> string \<Rightarrow> bool" where
  "eq_ignore_ascii_case a b \<longleftrightarrow> to_lowercase a = to_lowercase b"

text \<open>
  \<open>str::split\<close> on a character predicate: one piece more than there are separators.
\<close>

fun split_on :: "(char \<Rightarrow> bool) \<Rightarrow> string \<Rightarrow> string list" where
  "split_on p [] = [[]]"
| "split_on p (c # cs) =
     (if p c then [] # split_on p cs
      else (case split_on p cs of [] \<Rightarrow> [[c]] | w # ws \<Rightarrow> (c # w) # ws))"

text \<open>\<open>slice::join\<close> and \<open>str::replace\<close> of one character by a string.\<close>

fun join :: "string \<Rightarrow> string list \<Rightarrow> string" where
  "join sep [] = []"
| "join sep [x] = x"
| "join sep (x # y # xs) = x @ sep @ join sep (y # xs)"

definition replace_char :: "char \<Rightarrow> string \<Rightarrow> string \<Rightarrow> string" where
  "replace_char a b s = concat (map (\<lambda>c. if c = a then b else [c]) s)"

lemma to_lowercase_simps [simp, str_simps]:
  "to_lowercase [] = []" "to_lowercase (c # s) = lower_char c # to_lowercase s"
  "length (to_lowercase s) = length s"
  "to_lowercase (s @ t) = to_lowercase s @ to_lowercase t"
  by (simp_all add: to_lowercase_def)

lemma to_lowercase_idem [simp]: "to_lowercase (to_lowercase s) = to_lowercase s"
  by (simp add: to_lowercase_def)

lemma split_on_nonempty [simp]: "split_on p s \<noteq> []"
  by (induction s) (auto split: list.splits)

lemma split_on_no_sep: "\<forall>c \<in> set s. \<not> p c \<Longrightarrow> split_on p s = [s]"
  by (induction s) auto

lemma split_on_append_sep:
  "\<forall>c \<in> set s. \<not> p c \<Longrightarrow> p d \<Longrightarrow> split_on p (s @ d # t) = s # split_on p t"
  by (induction s) auto

lemma split_on_pieces: "w \<in> set (split_on p s) \<Longrightarrow> c \<in> set w \<Longrightarrow> \<not> p c \<and> c \<in> set s"
  by (induction s arbitrary: w) (fastforce split: if_splits list.splits)+

lemma split_on_join:
  assumes "xs \<noteq> []" and "\<forall>x \<in> set xs. \<forall>c \<in> set x. \<not> p c" and "p d"
  shows "split_on p (join [d] xs) = xs"
  using assms
proof (induction "[d]" xs rule: join.induct)
  case (2 x)
  then show ?case by (simp add: split_on_no_sep)
next
  case (3 x y xs)
  then show ?case by (simp add: split_on_append_sep)
qed simp

lemma trim_start_id: "s = [] \<or> \<not> is_whitespace (hd s) \<Longrightarrow> trim_start s = s"
  by (cases s) (auto simp: trim_start_def)

lemma trim_end_id: "s = [] \<or> \<not> is_whitespace (last s) \<Longrightarrow> trim_end s = s"
  by (cases s rule: rev_cases) (auto simp: trim_end_def)

lemma trim_id: "\<forall>c \<in> set s. \<not> is_whitespace c \<Longrightarrow> trim s = s"
  by (cases "s = []") (auto simp: trim_def trim_start_id trim_end_id)

lemma trim_start_hd: "trim_start s = [] \<or> \<not> is_whitespace (hd (trim_start s))"
  unfolding trim_start_def by (metis hd_dropWhile)

lemma trim_end_last: "trim_end s = [] \<or> \<not> is_whitespace (last (trim_end s))"
  unfolding trim_end_def by (metis hd_dropWhile last_rev rev.simps(1))

lemma trim_end_prefix: "\<exists>t. s = trim_end s @ t"
  by (metis dropWhile_eq_drop append_take_drop_id rev_append rev_rev_ident trim_end_def)

lemma trim_end_hd:
  assumes "trim_end s \<noteq> []"
  shows "hd (trim_end s) = hd s"
  using assms trim_end_prefix [of s] by (metis hd_append2)

lemma trim_idem [simp]: "trim (trim s) = trim s"
proof (cases "trim s = []")
  case True
  then show ?thesis by (simp add: trim_id)
next
  case False
  then have ne: "trim_end (trim_start s) \<noteq> []" by (simp add: trim_def)
  then have "trim_start s \<noteq> []" by (auto simp: trim_end_def)
  then have hd: "\<not> is_whitespace (hd (trim s))"
    using trim_start_hd [of s] trim_end_hd [OF ne] by (simp add: trim_def)
  have lst: "\<not> is_whitespace (last (trim s))"
    using trim_end_last [of "trim_start s"] ne by (simp add: trim_def)
  have "trim_start (trim s) = trim s" using hd by (intro trim_start_id) simp
  moreover have "trim_end (trim s) = trim s" using lst by (intro trim_end_id) simp
  ultimately show ?thesis by (simp add: trim_def [of "trim s"])
qed

lemma set_dropWhile_subset: "set (dropWhile P xs) \<subseteq> set xs"
  by (meson set_dropWhileD subsetI)

lemma set_trim_subset: "set (trim s) \<subseteq> set s"
  unfolding trim_def trim_start_def trim_end_def
  by (metis set_dropWhile_subset set_rev subset_trans)

lemma contains_str_iff: "contains_str s p \<longleftrightarrow> (\<exists>a b. s = a @ p @ b)"
proof (induction s)
  case Nil
  then show ?case by auto
next
  case (Cons c cs)
  have sw: "starts_with (c # cs) p \<longleftrightarrow> (\<exists>b. c # cs = p @ b)"
    unfolding starts_with_def by (metis append_take_drop_id append_eq_conv_conj)
  show ?case
  proof
    assume "contains_str (c # cs) p"
    then consider "starts_with (c # cs) p" | "contains_str cs p" by auto
    then show "\<exists>a b. c # cs = a @ p @ b"
    proof cases
      case 1
      then show ?thesis using sw by (metis append_Nil)
    next
      case 2
      then obtain a b where "cs = a @ p @ b" using Cons.IH by blast
      then have "c # cs = (c # a) @ p @ b" by simp
      then show ?thesis by blast
    qed
  next
    assume "\<exists>a b. c # cs = a @ p @ b"
    then obtain a b where ab: "c # cs = a @ p @ b" by blast
    show "contains_str (c # cs) p"
    proof (cases a)
      case Nil
      then have "starts_with (c # cs) p" using ab sw by auto
      then show ?thesis by simp
    next
      case (Cons d a')
      then have "cs = a' @ p @ b" using ab by simp
      then show ?thesis using Cons.IH by auto
    qed
  qed
qed

lemma starts_with_iff: "starts_with s p \<longleftrightarrow> (\<exists>t. s = p @ t)"
  unfolding starts_with_def by (metis append_take_drop_id append_eq_conv_conj)

lemma replace_char_simps [simp, str_simps]:
  "replace_char a b [] = []"
  "replace_char a b (c # s) = (if c = a then b else [c]) @ replace_char a b s"
  "replace_char a b (s @ t) = replace_char a b s @ replace_char a b t"
  by (simp_all add: replace_char_def)

section \<open>Lists and association lists\<close>

text \<open>Order-preserving deduplication: the \<open>fold\<close> with a \<open>contains\<close> test the sources use.\<close>

definition push_new :: "'a list \<Rightarrow> 'a \<Rightarrow> 'a list" where
  "push_new acc x = (if x \<in> set acc then acc else acc @ [x])"

definition dedup :: "'a list \<Rightarrow> 'a list" where
  "dedup xs = foldl push_new [] xs"

lemma set_push_new [simp]: "set (push_new acc x) = insert x (set acc)"
  by (auto simp: push_new_def)

lemma distinct_push_new [simp]: "distinct acc \<Longrightarrow> distinct (push_new acc x)"
  by (auto simp: push_new_def)

lemma foldl_push_new:
  "set (foldl push_new acc xs) = set acc \<union> set xs"
  "distinct acc \<Longrightarrow> distinct (foldl push_new acc xs)"
  by (induction xs arbitrary: acc) auto

lemma dedup_simps [simp]: "set (dedup xs) = set xs" "distinct (dedup xs)"
  by (simp_all add: dedup_def foldl_push_new)

lemma find_Some_iff: "List.find P xs = Some x \<Longrightarrow> x \<in> set xs \<and> P x"
  by (induction xs) (auto split: if_splits)

lemma find_None_iff: "List.find P xs = None \<longleftrightarrow> (\<forall>x \<in> set xs. \<not> P x)"
  by (induction xs) auto

lemma find_cong_filter: "List.find P (filter P xs @ ys) = (if filter P xs = [] then List.find P ys else Some (hd (filter P xs)))"
  by (induction xs) auto

lemma distinct_map_filter: "distinct (map f xs) \<Longrightarrow> distinct (map f (filter P xs))"
  by (simp add: distinct_map_filter)

end
