(* ===== verification/Policy.thy ===== *)
theory Policy
  imports Prelude
begin

text \<open>
  The value types of \<open>latiq-common\<close> that carry deployment policy: resource tiers
  (\<open>tier.rs\<close>), pond names (\<open>pond_name.rs\<close>), pond ids (\<open>id.rs\<close>) and the query-timeout
  policy (\<open>timeout.rs\<close>). Messages are modelled by the reason they state and the values
  they quote.
\<close>

section \<open>Resource tiers (tier.rs)\<close>

record ResourceLimits =
  memory_bytes :: "64 word"
  cores :: "32 word"

definition MB :: "64 word" where
  "MB = 1024 * 1024"

definition GB :: "64 word" where
  "GB = 1024 * MB"

datatype PondTier = TierNone | XSmall | Small | Medium | Large | XLarge

definition tier_default :: PondTier where
  "tier_default = Medium"

definition tier_ALL :: "string list" where
  "tier_ALL = [''x-small'', ''small'', ''medium'', ''large'', ''x-large'', ''none'']"

definition tier_CREATABLE :: "string list" where
  "tier_CREATABLE = [''x-small'', ''small'', ''medium'', ''large'', ''x-large'']"

fun tier_as_str :: "PondTier \<Rightarrow> string" where
  "tier_as_str TierNone = ''none''"
| "tier_as_str XSmall = ''x-small''"
| "tier_as_str Small = ''small''"
| "tier_as_str Medium = ''medium''"
| "tier_as_str Large = ''large''"
| "tier_as_str XLarge = ''x-large''"

definition tier_parse :: "string \<Rightarrow> PondTier option" where
  "tier_parse s =
     (let t = to_lowercase (trim s) in
      if t = ''none'' \<or> t = ''uncapped'' then Some TierNone
      else if t = ''x-small'' \<or> t = ''xsmall'' then Some XSmall
      else if t = ''small'' then Some Small
      else if t = ''medium'' then Some Medium
      else if t = ''large'' then Some Large
      else if t = ''x-large'' \<or> t = ''xlarge'' then Some XLarge
      else None)"

text \<open>Why a caller's value is refused: the sentence's kind and what it quotes.\<close>

datatype invalid_reason =
    UnknownTierAtCreate string
  | TierNoneOperatorOnly
  | UnknownTier string
  | NameEmpty
  | NameTooLong nat
  | NameBadChar string char
  | DatasetNameRequired
  | DatasetNameNotIdent
  | DatasetNoTables
  | CatalogNameTypeRequired
  | CatalogNameNotIdent
  | ExtensionUnsupported string

definition tier_parse_for_create :: "string \<Rightarrow> (invalid_reason, PondTier) result" where
  "tier_parse_for_create s =
     (if trim s = [] then Ok tier_default
      else (case tier_parse s of
              Some t \<Rightarrow> Ok t
            | None \<Rightarrow> Err (UnknownTierAtCreate (trim s))))"

fun tier_limits_of :: "PondTier \<Rightarrow> ResourceLimits option" where
  "tier_limits_of TierNone = None"
| "tier_limits_of XSmall = Some \<lparr>memory_bytes = 512 * MB, cores = 1\<rparr>"
| "tier_limits_of Small = Some \<lparr>memory_bytes = GB, cores = 2\<rparr>"
| "tier_limits_of Medium = Some \<lparr>memory_bytes = 4 * GB, cores = 4\<rparr>"
| "tier_limits_of Large = Some \<lparr>memory_bytes = 16 * GB, cores = 8\<rparr>"
| "tier_limits_of XLarge = Some \<lparr>memory_bytes = 32 * GB, cores = 16\<rparr>"

section \<open>Pond ids (id.rs)\<close>

text \<open>
  A pond id is a UUID; the crate \<open>uuid\<close> generates and parses it. What the sources rely on
  is the shape of its printed form: 36 characters, lowercase hexadecimal digits with a
  dash at positions 8, 13, 18 and 23.
\<close>

definition is_lower_hex_char :: "char \<Rightarrow> bool" where
  "is_lower_hex_char c \<longleftrightarrow> is_ascii_digit c \<or> (97 \<le> code c \<and> code c \<le> 102)"

definition is_uuid_text :: "string \<Rightarrow> bool" where
  "is_uuid_text s \<longleftrightarrow> length s = 36 \<and>
     (\<forall>i \<in> set [0..<36]. if i \<in> {8, 13, 18, 23} then s ! i = CHR ''-''
                          else is_lower_hex_char (s ! i))"

section \<open>Pond names (pond\_name.rs)\<close>

definition MAX_LEN :: nat where
  "MAX_LEN = 64"

definition name_char_ok :: "char \<Rightarrow> bool" where
  "name_char_ok c \<longleftrightarrow> is_ascii_alphanumeric c \<or> c = CHR ''_'' \<or> c = CHR ''-''"

definition pond_name_validate :: "string \<Rightarrow> (invalid_reason, unit) result" where
  "pond_name_validate name =
     (if name = [] then Err NameEmpty
      else if length name > MAX_LEN then Err (NameTooLong (length name))
      else (case List.find (\<lambda>c. \<not> name_char_ok c) name of
              Some bad \<Rightarrow> Err (NameBadChar name bad)
            | None \<Rightarrow> Ok ()))"

section \<open>Query timeouts (timeout.rs)\<close>

definition DEFAULT_QUERY_TIMEOUT_MS :: "64 word" where
  "DEFAULT_QUERY_TIMEOUT_MS = 30000"

definition MAX_QUERY_TIMEOUT_MS :: "64 word" where
  "MAX_QUERY_TIMEOUT_MS = 300000"

record QueryTimeouts =
  default_ms :: "64 word"
  max_ms :: "64 word"

definition timeouts_default :: QueryTimeouts where
  "timeouts_default = \<lparr>default_ms = DEFAULT_QUERY_TIMEOUT_MS, max_ms = MAX_QUERY_TIMEOUT_MS\<rparr>"

datatype timeout_error = DefaultZero | MaxZero | DefaultExceedsMax "64 word" "64 word"

definition timeouts_new :: "64 word \<Rightarrow> 64 word \<Rightarrow> (timeout_error, QueryTimeouts) result" where
  "timeouts_new d m =
     (if d = 0 then Err DefaultZero
      else if m = 0 then Err MaxZero
      else if d > m then Err (DefaultExceedsMax d m)
      else Ok \<lparr>default_ms = d, max_ms = m\<rparr>)"

definition effective :: "QueryTimeouts \<Rightarrow> 64 word option \<Rightarrow> 64 word" where
  "effective t requested =
     (case requested of
        None \<Rightarrow> default_ms t
      | Some ms \<Rightarrow> if ms = 0 then default_ms t else min ms (max_ms t))"

definition timeouts_valid :: "QueryTimeouts \<Rightarrow> bool" where
  "timeouts_valid t \<longleftrightarrow> 0 < default_ms t \<and> default_ms t \<le> max_ms t"

section \<open>Lemmas\<close>

lemma tier_parse_as_str [simp]: "tier_parse (tier_as_str t) = Some t"
  by (cases t; simp only: tier_as_str.simps; code_simp)

lemma tier_parse_trim [simp]: "tier_parse (trim s) = tier_parse s"
  by (simp add: tier_parse_def)

lemma tier_as_str_inj: "tier_as_str a = tier_as_str b \<longleftrightarrow> a = b"
  by (metis option.inject tier_parse_as_str)

lemma tier_as_str_ALL: "tier_as_str t \<in> set tier_ALL"
  by (cases t) (simp_all add: tier_ALL_def)

lemma tier_as_str_CREATABLE: "tier_as_str t \<in> set tier_CREATABLE \<longleftrightarrow> t \<noteq> TierNone"
  by (cases t) (simp_all add: tier_CREATABLE_def)

lemma tier_ALL_parse: "s \<in> set tier_ALL \<Longrightarrow> \<exists>t. tier_parse s = Some t \<and> tier_as_str t = s"
proof -
  have "tier_ALL = map tier_as_str [XSmall, Small, Medium, Large, XLarge, TierNone]"
    by (simp add: tier_ALL_def)
  moreover assume "s \<in> set tier_ALL"
  ultimately obtain t where "s = tier_as_str t" by (metis in_set_conv_nth length_map nth_map)
  then show ?thesis by auto
qed

lemma tier_parse_for_create_Ok:
  "tier_parse_for_create s = Ok t \<longleftrightarrow>
     (if trim s = [] then t = Medium else tier_parse s = Some t)"
  by (auto simp: tier_parse_for_create_def tier_default_def split: option.splits)


lemma pond_name_validate_Ok_iff:
  "pond_name_validate n = Ok () \<longleftrightarrow>
     n \<noteq> [] \<and> length n \<le> 64 \<and> (\<forall>c \<in> set n. name_char_ok c)"
  by (auto simp: pond_name_validate_def MAX_LEN_def find_None_iff split: option.splits
      dest: find_Some_iff)

lemma is_lower_hex_name_ok: "is_lower_hex_char c \<Longrightarrow> name_char_ok c"
  by (auto simp: is_lower_hex_char_def name_char_ok_def char_class_defs)

lemma uuid_text_chars: "is_uuid_text s \<Longrightarrow> c \<in> set s \<Longrightarrow> c = CHR ''-'' \<or> is_lower_hex_char c"
  unfolding is_uuid_text_def in_set_conv_nth
  by (metis add_0 atLeastLessThan_iff atLeastLessThan_upt less_eq_nat.simps(1))

lemma uuid_text_valid_name:
  assumes "is_uuid_text s"
  shows "pond_name_validate s = Ok ()"
proof -
  have "length s = 36" using assms by (simp add: is_uuid_text_def)
  moreover have "\<forall>c \<in> set s. name_char_ok c"
    using uuid_text_chars [OF assms] is_lower_hex_name_ok by (auto simp: name_char_ok_def)
  ultimately show ?thesis by (auto simp: pond_name_validate_Ok_iff)
qed

lemma name_char_no_space: "name_char_ok c \<Longrightarrow> \<not> is_whitespace c \<and> c \<noteq> CHR '',''"
  by (auto simp: name_char_ok_def char_class_defs)

lemma timeouts_new_valid: "timeouts_new d m = Ok t \<Longrightarrow> timeouts_valid t"
  by (auto simp: timeouts_new_def timeouts_valid_def word_gt_0 split: if_splits)

lemma effective_bounds:
  assumes "timeouts_valid t"
  shows "0 < effective t r" and "effective t r \<le> max_ms t"
  using assms by (auto simp: timeouts_valid_def effective_def word_gt_0 min_def split: option.splits)

section \<open>Properties\<close>

text \<open>The tier ladder: every canonical name parses back to its tier, in any case
  and with surrounding blanks removed; the uncapped tier is the only one without limits, and
  each rung is strictly larger than the one below it in memory and in cores (no multiplication
  of the 64-bit byte counts wraps).\<close>

lemma tier_ladder:
  "tier_parse (tier_as_str t) = Some t
   \<and> (tier_limits_of t = None \<longleftrightarrow> t = TierNone)
   \<and> sorted_wrt (\<lambda>a b. memory_bytes a < memory_bytes b \<and> cores a < cores b)
        (map (the \<circ> tier_limits_of) [XSmall, Small, Medium, Large, XLarge])
   \<and> map (unat \<circ> memory_bytes \<circ> the \<circ> tier_limits_of) [XSmall, Small, Medium, Large, XLarge]
        = map (\<lambda>mb. mb * 2 ^ 20) [512, 1024, 4096, 16384, 32768]"
  by (cases t) (simp_all add: MB_def GB_def tier_parse_as_str [unfolded tier_as_str.simps] flip: tier_as_str.simps)

text \<open>A pair accepted at startup makes every request run under a positive timeout
  that never exceeds the operator's maximum; a request within the maximum is honoured
  exactly, a larger one runs at the maximum, and an absent or zero one at the default.\<close>

lemma timeout_clamped:
  assumes "timeouts_new d m = Ok t"
  shows "0 < effective t r \<and> effective t r \<le> m
    \<and> effective t None = d \<and> effective t (Some 0) = d
    \<and> (\<forall>ms. 0 < ms \<longrightarrow> effective t (Some ms) = (if ms \<le> m then ms else m))"
proof -
  have t: "t = \<lparr>default_ms = d, max_ms = m\<rparr>"
    using assms by (auto simp: timeouts_new_def split: if_splits)
  have v: "timeouts_valid t" using assms by (rule timeouts_new_valid)
  show ?thesis
    using effective_bounds [OF v, of r] by (auto simp: t effective_def min_def)
qed

lemma timeout_clamped_example:
  "timeouts_new 30000 300000 = Ok timeouts_default \<and>
   effective timeouts_default (Some 1800000) = 300000"
proof -
  have h: "timeouts_new 30000 300000 = Ok timeouts_default"
    by (simp add: timeouts_new_def timeouts_default_def DEFAULT_QUERY_TIMEOUT_MS_def
        MAX_QUERY_TIMEOUT_MS_def)
  have "effective timeouts_default (Some 1800000) = (if (1800000::64 word) \<le> 300000 then 1800000 else 300000)"
    using timeout_clamped [OF h, of None] by auto
  then show ?thesis using h by simp
qed

end
