(* ===== verification/Ordered_Map.thy ===== *)
theory Ordered_Map
  imports Prelude
begin

text \<open>
  Rust's \<open>BTreeMap\<close>, which the sources use for catalog parameters and for the facts of an
  error: an association list whose keys strictly increase, so that iteration is in key order.
  The locale \<open>kv_map\<close> states the map contract its clients rely on; the merge of pull-time
  over persisted parameters and the construction from a list of pairs are derived from the
  contract once, and the interpretation \<open>bt\<close> discharges it for the ordered list.
\<close>

section \<open>The contract\<close>

locale kv_map =
  fixes empty :: "'m"
    and insert_kv :: "'k \<Rightarrow> 'v \<Rightarrow> 'm \<Rightarrow> 'm"
    and lookup :: "'m \<Rightarrow> 'k \<Rightarrow> 'v option"
    and invar :: "'m \<Rightarrow> bool"
  assumes lookup_empty: "lookup empty k = None"
    and lookup_insert: "invar m \<Longrightarrow> lookup (insert_kv k v m) j = (if j = k then Some v else lookup m j)"
    and invar_empty: "invar empty"
    and invar_insert: "invar m \<Longrightarrow> invar (insert_kv k v m)"
begin

lemma invar_fold: "invar m \<Longrightarrow> invar (fold (\<lambda>(k, v). insert_kv k v) kvs m)"
  by (induction kvs arbitrary: m) (auto simp: invar_insert)

lemma lookup_fold:
  "invar m \<Longrightarrow> lookup (fold (\<lambda>(k, v). insert_kv k v) kvs m) j
     = (case map_of (rev kvs) j of Some v \<Rightarrow> Some v | None \<Rightarrow> lookup m j)"
proof (induction kvs arbitrary: m)
  case Nil
  then show ?case by simp
next
  case (Cons kv kvs)
  then show ?case
    by (cases kv)
       (auto simp: invar_insert lookup_insert map_add_def split: option.splits)
qed

lemma lookup_fold_distinct:
  assumes "invar m" and "distinct (map fst kvs)"
  shows "lookup (fold (\<lambda>(k, v). insert_kv k v) kvs m) j
     = (case map_of kvs j of Some v \<Rightarrow> Some v | None \<Rightarrow> lookup m j)"
proof -
  have "map_of (rev kvs) = map_of kvs"
    using assms(2) by (intro map_of_inject_set [THEN iffD2]) (auto simp: rev_map [symmetric])
  then show ?thesis using assms(1) by (simp add: lookup_fold)
qed

end

section \<open>The ordered list\<close>

type_synonym ('k, 'v) btree = "('k \<times> 'v) list"

fun bt_insert :: "'k::linorder \<Rightarrow> 'v \<Rightarrow> ('k, 'v) btree \<Rightarrow> ('k, 'v) btree" where
  "bt_insert k v [] = [(k, v)]"
| "bt_insert k v ((j, w) # m) =
     (if k < j then (k, v) # (j, w) # m
      else if k = j then (k, v) # m
      else (j, w) # bt_insert k v m)"

definition bt_wf :: "('k::linorder, 'v) btree \<Rightarrow> bool" where
  "bt_wf m \<longleftrightarrow> sorted_wrt (<) (map fst m)"

definition bt_extend :: "('k::linorder, 'v) btree \<Rightarrow> ('k, 'v) btree \<Rightarrow> ('k, 'v) btree" where
  "bt_extend m kvs = fold (\<lambda>(k, v). bt_insert k v) kvs m"

lemma bt_wf_simps [simp]:
  "bt_wf []" "bt_wf ((k, v) # m) \<longleftrightarrow> bt_wf m \<and> (\<forall>j \<in> fst ` set m. k < j)"
  by (auto simp: bt_wf_def)

lemma bt_wf_distinct: "bt_wf m \<Longrightarrow> distinct (map fst m)"
  by (simp add: bt_wf_def strict_sorted_iff)

lemma fst_set_bt_insert: "fst ` set (bt_insert k v m) = insert k (fst ` set m)"
  by (induction k v m rule: bt_insert.induct) auto

lemma bt_wf_insert: "bt_wf m \<Longrightarrow> bt_wf (bt_insert k v m)"
  by (induction k v m rule: bt_insert.induct) (auto simp: fst_set_bt_insert)

lemma map_of_bt_insert:
  "bt_wf m \<Longrightarrow> map_of (bt_insert k v m) j = (if j = k then Some v else map_of m j)"
  by (induction k v m rule: bt_insert.induct) auto

lemma bt_wf_filter: "bt_wf m \<Longrightarrow> bt_wf (filter P m)"
  unfolding bt_wf_def by (induction m) auto

interpretation bt: kv_map "[]" bt_insert map_of bt_wf
  by unfold_locales (auto simp: map_of_bt_insert bt_wf_insert)

lemmas bt_facts = bt_wf_insert map_of_bt_insert bt_wf_filter bt_wf_distinct

lemma bt_wf_extend: "bt_wf m \<Longrightarrow> bt_wf (bt_extend m kvs)"
  by (simp add: bt_extend_def bt.invar_fold)

lemma map_of_bt_extend:
  "bt_wf m \<Longrightarrow> bt_wf kvs \<Longrightarrow>
   map_of (bt_extend m kvs) j = (case map_of kvs j of Some v \<Rightarrow> Some v | None \<Rightarrow> map_of m j)"
  by (simp add: bt_extend_def bt.lookup_fold_distinct bt_wf_distinct)

lemma keys_bt_extend: "fst ` set (bt_extend [] kvs) = fst ` set kvs"
proof -
  have "fst ` set (bt_extend m kvs) = fst ` set m \<union> fst ` set kvs" for m
    unfolding bt_extend_def
    by (induction kvs arbitrary: m) (simp_all add: case_prod_unfold fst_set_bt_insert)
  from this [of "[]"] show ?thesis by simp
qed

text \<open>Two well-formed maps with the same lookups are equal: iteration order is canonical.\<close>

lemma bt_wf_lookup_gt: "bt_wf m \<Longrightarrow> \<forall>j \<in> fst ` set m. k < j \<Longrightarrow> map_of m k = None"
  by (metis less_irrefl map_of_eq_None_iff)

lemma bt_eqI:
  assumes "bt_wf m" and "bt_wf n" and "map_of m = map_of n"
  shows "m = n"
proof -
  have st: "set m = set n"
    using assms map_of_inject_set [of m n] bt_wf_distinct by blast
  moreover have "inj_on fst (set m)"
    using bt_wf_distinct [OF assms(1)] by (simp add: distinct_map)
  moreover have "sorted (map fst m)" "distinct (map fst m)" "sorted (map fst n)" "distinct (map fst n)"
    using assms(1,2) by (auto simp: bt_wf_def strict_sorted_iff)
  ultimately show ?thesis by (intro map_sorted_distinct_set_unique [of fst]) auto
qed

end
