(* ===== verification/Extensions.thy ===== *)
theory Extensions
  imports Policy Ordered_Map
begin

text \<open>
  The two static tables of \<open>latiq-common\<close>: external-catalog types with the parameters that
  may be stored (\<open>catalog.rs\<close>), and the shipped DuckDB extensions with the sets derived from
  them, the validation of a request and the comma-separated storage form (\<open>extensions.rs\<close>).
\<close>

section \<open>Catalog types (catalog.rs)\<close>

record CatalogTypeSpec =
  ct_name :: string
  allowed_params :: "string list"
  required_extensions :: "string list"

definition catalog_TYPES :: "CatalogTypeSpec list" where
  "catalog_TYPES =
     [\<lparr>ct_name = ''iceberg'',
       allowed_params = [''endpoint'', ''warehouse'', ''s3_endpoint'', ''s3_region''],
       required_extensions = [''iceberg'', ''httpfs'']\<rparr>,
      \<lparr>ct_name = ''ducklake'',
       allowed_params = [''metadata_path'', ''data_path'', ''s3_endpoint'', ''s3_region''],
       required_extensions = [''ducklake'', ''httpfs'']\<rparr>]"

definition catalog_lookup :: "string \<Rightarrow> CatalogTypeSpec option" where
  "catalog_lookup ty = List.find (\<lambda>t. ct_name t = ty) catalog_TYPES"

definition is_known_type :: "string \<Rightarrow> bool" where
  "is_known_type ty \<longleftrightarrow> catalog_lookup ty \<noteq> None"

text \<open>
  The loop of \<open>filter_params\<close>: it walks the parameters in key order, inserting an allowed one
  into \<open>kept\<close> and pushing any other key on \<open>dropped\<close>, which is sorted at the end.
\<close>

fun filter_loop :: "string list \<Rightarrow> (string, string) btree \<Rightarrow> (string, string) btree \<Rightarrow> string list
    \<Rightarrow> (string, string) btree \<times> string list" where
  "filter_loop allowed [] kept dropped = (kept, dropped)"
| "filter_loop allowed ((k, v) # ps) kept dropped =
     (if k \<in> set allowed then filter_loop allowed ps (bt_insert k v kept) dropped
      else filter_loop allowed ps kept (dropped @ [k]))"

definition filter_params :: "string \<Rightarrow> (string, string) btree \<Rightarrow> (string, string) btree \<times> string list" where
  "filter_params ty params =
     (case catalog_lookup ty of
        Some spec \<Rightarrow> (let (kept, dropped) = filter_loop (allowed_params spec) params [] []
                      in (kept, sort dropped))
      | None \<Rightarrow> (params, []))"

section \<open>Extensions (extensions.rs)\<close>

datatype Bucket = BCatalog | BTransport | BFormat | BEngine

definition Bucket_ALL :: "Bucket list" where
  "Bucket_ALL = [BCatalog, BTransport, BFormat, BEngine]"

record Ext =
  ext_name :: string
  bucket :: Bucket
  always_loaded :: bool

definition EXTENSIONS :: "Ext list" where
  "EXTENSIONS =
     [\<lparr>ext_name = ''ducklake'', bucket = BCatalog, always_loaded = True\<rparr>,
      \<lparr>ext_name = ''iceberg'', bucket = BCatalog, always_loaded = False\<rparr>,
      \<lparr>ext_name = ''httpfs'', bucket = BTransport, always_loaded = True\<rparr>,
      \<lparr>ext_name = ''parquet'', bucket = BFormat, always_loaded = True\<rparr>,
      \<lparr>ext_name = ''json'', bucket = BFormat, always_loaded = True\<rparr>,
      \<lparr>ext_name = ''spatial'', bucket = BFormat, always_loaded = False\<rparr>,
      \<lparr>ext_name = ''icu'', bucket = BEngine, always_loaded = True\<rparr>,
      \<lparr>ext_name = ''fts'', bucket = BEngine, always_loaded = False\<rparr>,
      \<lparr>ext_name = ''inet'', bucket = BEngine, always_loaded = False\<rparr>]"

definition is_catalog_driven :: "string \<Rightarrow> bool" where
  "is_catalog_driven name \<longleftrightarrow> list_ex (\<lambda>t. name \<in> set (required_extensions t)) catalog_TYPES"

definition names_where :: "(Ext \<Rightarrow> bool) \<Rightarrow> string list" where
  "names_where pred = map ext_name (filter pred EXTENSIONS)"

definition STANDARD :: "string list" where
  "STANDARD = names_where always_loaded"

definition OPTIONAL :: "string list" where
  "OPTIONAL = names_where (\<lambda>e. \<not> always_loaded e \<and> \<not> is_catalog_driven (ext_name e))"

definition transitive_deps :: "string \<Rightarrow> string list" where
  "transitive_deps name = (if name = ''iceberg'' then [''avro''] else [])"

definition CATALOG_DRIVEN :: "string list" where
  "CATALOG_DRIVEN =
     foldl (\<lambda>out name. if name \<notin> set STANDARD \<and> name \<notin> set out then out @ [name] else out) []
       (concat (map (\<lambda>t. concat (map (\<lambda>e. e # transitive_deps e) (required_extensions t)))
          catalog_TYPES))"

definition in_bucket :: "Bucket \<Rightarrow> Ext list" where
  "in_bucket b = filter (\<lambda>e. bucket e = b) EXTENSIONS"

definition ext_lookup :: "string \<Rightarrow> Ext option" where
  "ext_lookup name = List.find (\<lambda>e. ext_name e = name) EXTENSIONS"

fun ext_validate_loop :: "string list \<Rightarrow> string list \<Rightarrow> (invalid_reason, string list) result" where
  "ext_validate_loop out [] = Ok out"
| "ext_validate_loop out (raw # rest) =
     (let name = to_lowercase (trim raw) in
      if name = [] \<or> name \<in> set STANDARD then ext_validate_loop out rest
      else if name \<notin> set OPTIONAL then Err (ExtensionUnsupported name)
      else ext_validate_loop (push_new out name) rest)"

definition ext_validate :: "string list \<Rightarrow> (invalid_reason, string list) result" where
  "ext_validate requested = ext_validate_loop [] requested"

definition parse_csv :: "string \<Rightarrow> string list" where
  "parse_csv s = filter (\<lambda>x. x \<noteq> []) (map trim (split_on (\<lambda>c. c = CHR '','') s))"

section \<open>Lemmas\<close>

lemma STANDARD_eq: "STANDARD = [''ducklake'', ''httpfs'', ''parquet'', ''json'', ''icu'']"
  by code_simp

lemma OPTIONAL_eq: "OPTIONAL = [''spatial'', ''fts'', ''inet'']"
  by code_simp

lemma CATALOG_DRIVEN_eq: "CATALOG_DRIVEN = [''iceberg'', ''avro'']"
  by code_simp

definition norm_ext :: "string \<Rightarrow> string" where
  "norm_ext raw = to_lowercase (trim raw)"

lemma ext_validate_loop_spec:
  "ext_validate_loop out reqs =
     (case List.find (\<lambda>n. n \<noteq> [] \<and> n \<notin> set STANDARD \<and> n \<notin> set OPTIONAL) (map norm_ext reqs) of
        Some bad \<Rightarrow> Err (ExtensionUnsupported bad)
      | None \<Rightarrow> Ok (foldl push_new out (filter (\<lambda>n. n \<in> set OPTIONAL) (map norm_ext reqs))))"
proof (induction out reqs rule: ext_validate_loop.induct)
  case (2 out raw rest)
  have disj: "n \<in> set STANDARD \<Longrightarrow> n \<notin> set OPTIONAL" "[] \<notin> set OPTIONAL" for n
    by (auto simp: STANDARD_eq OPTIONAL_eq)
  consider "norm_ext raw = [] \<or> norm_ext raw \<in> set STANDARD"
    | "norm_ext raw \<noteq> []" "norm_ext raw \<notin> set STANDARD" "norm_ext raw \<notin> set OPTIONAL"
    | "norm_ext raw \<noteq> []" "norm_ext raw \<notin> set STANDARD" "norm_ext raw \<in> set OPTIONAL"
    by blast
  then show ?case
    using 2 [folded norm_ext_def] disj by cases (auto simp: norm_ext_def [symmetric] Let_def split: option.splits)
qed simp

lemma ext_validate_Ok:
  assumes "ext_validate req = Ok xs"
  shows "xs = dedup (filter (\<lambda>n. n \<in> set OPTIONAL) (map norm_ext req))"
  using assms unfolding ext_validate_def ext_validate_loop_spec
  by (auto simp: dedup_def split: option.splits)

lemma OPTIONAL_norm: "n \<in> set OPTIONAL \<Longrightarrow> norm_ext n = n"
proof -
  have "\<forall>n \<in> set OPTIONAL. norm_ext n = n" unfolding OPTIONAL_eq by code_simp
  then show "n \<in> set OPTIONAL \<Longrightarrow> ?thesis" by blast
qed

lemma OPTIONAL_csv_safe:
  "n \<in> set OPTIONAL \<Longrightarrow> n \<noteq> [] \<and> trim n = n \<and> (\<forall>c \<in> set n. c \<noteq> CHR '','')"
proof -
  have "\<forall>n \<in> set OPTIONAL. n \<noteq> [] \<and> trim n = n \<and> (\<forall>c \<in> set n. c \<noteq> CHR '','')"
    unfolding OPTIONAL_eq by code_simp
  then show "n \<in> set OPTIONAL \<Longrightarrow> ?thesis" by blast
qed

lemma foldl_push_new_distinct: "distinct (out @ xs) \<Longrightarrow> foldl push_new out xs = out @ xs"
  by (induction xs arbitrary: out) (auto simp: push_new_def)

text \<open>The comma-separated form gives back any list of clean names.\<close>

lemma parse_csv_join:
  assumes "\<forall>x \<in> set xs. x \<noteq> [] \<and> trim x = x \<and> (\<forall>c \<in> set x. c \<noteq> CHR '','')"
  shows "parse_csv (join '','' xs) = xs"
proof (cases "xs = []")
  case True
  then show ?thesis by (simp add: parse_csv_def trim_id)
next
  case False
  have "split_on (\<lambda>c. c = CHR '','') (join '','' xs) = xs"
    using False assms by (intro split_on_join) auto
  moreover have "map trim xs = xs" using assms by (simp add: map_idI)
  moreover have "filter (\<lambda>x. x \<noteq> []) xs = xs" using assms by simp
  ultimately show ?thesis by (simp add: parse_csv_def)
qed

lemma filter_loop_spec:
  assumes "bt_wf kept" and "bt_wf ps" and "\<forall>j \<in> fst ` set kept. \<forall>k \<in> fst ` set ps. j < k"
  shows "filter_loop allowed ps kept dropped =
     (kept @ filter (\<lambda>(k, v). k \<in> set allowed) ps,
      dropped @ map fst (filter (\<lambda>(k, v). k \<notin> set allowed) ps))"
  using assms
proof (induction allowed ps kept dropped rule: filter_loop.induct)
  case (2 allowed k v ps kept dropped)
  have snoc: "bt_insert k v m = m @ [(k, v)]" if "\<forall>j \<in> fst ` set m. j < k" for m :: "(string, string) btree"
    using that by (induction m) (auto simp: less_imp_neq)
  have ins: "bt_insert k v kept = kept @ [(k, v)]" using "2.prems"(3) by (intro snoc) auto
  have wf': "bt_wf (kept @ [(k, v)])" using "2.prems"(1) bt_wf_insert ins by metis
  show ?case
  proof (cases "k \<in> set allowed")
    case True
    with "2.IH"(1) "2.prems" ins wf' show ?thesis by fastforce
  next
    case False
    with "2.IH"(2) "2.prems" show ?thesis by fastforce
  qed
qed simp

lemma filter_params_known:
  assumes "catalog_lookup ty = Some spec" and "bt_wf params"
  shows "filter_params ty params =
    (filter (\<lambda>(k, v). k \<in> set (allowed_params spec)) params,
     map fst (filter (\<lambda>(k, v). k \<notin> set (allowed_params spec)) params))"
proof -
  have "sorted (map fst (filter (\<lambda>(k, v). k \<notin> set (allowed_params spec)) params))"
    using bt_wf_filter [OF assms(2)] unfolding bt_wf_def by (simp add: strict_sorted_iff)
  then show ?thesis
    using assms by (simp add: filter_params_def filter_loop_spec sorted_sort_id)
qed

lemma allowed_no_credentials:
  "catalog_lookup ty = Some spec \<Longrightarrow>
     set (allowed_params spec) \<inter> {''token'', ''s3_access_key'', ''s3_secret_key''} = {}"
  unfolding catalog_lookup_def using find_Some_iff by (fastforce simp: catalog_TYPES_def)

text \<open>An accepted extension list survives the comma-separated column of the registry.\<close>

lemma ext_validate_csv: "ext_validate req = Ok xs \<Longrightarrow> parse_csv (join '','' xs) = xs"
  using ext_validate_Ok [of req xs] OPTIONAL_csv_safe by (intro parse_csv_join) auto

section \<open>Properties\<close>

text \<open>Extension requests: an accepted list is duplicate-free, drawn from the
  requestable set (so disjoint from what every pond already loads), is itself accepted
  unchanged, and survives the registry's comma-separated storage; a request is refused
  exactly when one of its normalised names is neither blank, standard nor requestable.\<close>

lemma extension_request_clean:
  assumes "ext_validate req = Ok xs"
  shows "distinct xs \<and> set xs \<subseteq> set OPTIONAL \<and> set xs \<inter> set STANDARD = {}
    \<and> ext_validate xs = Ok xs \<and> parse_csv (join '','' xs) = xs
    \<and> set xs = set (map norm_ext req) \<inter> set OPTIONAL"
proof -
  have xs: "xs = dedup (filter (\<lambda>n. n \<in> set OPTIONAL) (map norm_ext req))"
    by (rule ext_validate_Ok [OF assms])
  have sub: "set xs \<subseteq> set OPTIONAL" and dis: "distinct xs" unfolding xs by auto
  have norm: "map norm_ext xs = xs" using sub OPTIONAL_norm by (intro map_idI) auto
  have fil: "filter (\<lambda>n. n \<in> set OPTIONAL) xs = xs" using sub by (auto intro: filter_True)
  have nof: "List.find (\<lambda>n. n \<noteq> [] \<and> n \<notin> set STANDARD \<and> n \<notin> set OPTIONAL) xs = None"
    using sub by (auto simp: find_None_iff)
  have "ext_validate xs = Ok xs"
    unfolding ext_validate_def ext_validate_loop_spec norm nof
    using foldl_push_new_distinct [of "[]" xs] dis by (simp add: fil)
  moreover have "parse_csv (join '','' xs) = xs" by (rule ext_validate_csv [OF assms])
  moreover have "set xs \<inter> set STANDARD = {}" using sub by (auto simp: STANDARD_eq OPTIONAL_eq)
  moreover have "set xs = set (map norm_ext req) \<inter> set OPTIONAL" unfolding xs by auto
  ultimately show ?thesis using sub dis by blast
qed

lemma extension_request_clean_example:
  "ext_validate ['' Spatial'', ''json'', ''spatial'', ''fts''] = Ok [''spatial'', ''fts'']
   \<and> parse_csv (join '','' [''spatial'', ''fts'']) = [''spatial'', ''fts'']"
proof -
  have h: "ext_validate ['' Spatial'', ''json'', ''spatial'', ''fts''] = Ok [''spatial'', ''fts'']"
    by code_simp
  show ?thesis using h extension_request_clean [OF h] by blast
qed

text \<open>What \<open>catalog add\<close> stores: for a known type, the kept parameters are exactly
  the allowed ones with their values, every other key is reported as dropped, and no
  credential-shaped key (\<open>token\<close>, \<open>s3_access_key\<close>, \<open>s3_secret_key\<close>) is kept.\<close>

lemma stored_params_are_locators:
  assumes "is_known_type ty" and "bt_wf params" and "filter_params ty params = (kept, dropped)"
  shows "bt_wf kept \<and> set (map fst kept) \<inter> {''token'', ''s3_access_key'', ''s3_secret_key''} = {}
    \<and> (\<exists>spec. catalog_lookup ty = Some spec
        \<and> map_of kept = map_of params |` set (allowed_params spec)
        \<and> set dropped = set (map fst params) - set (allowed_params spec) \<and> sorted dropped)"
proof -
  obtain spec where spec: "catalog_lookup ty = Some spec"
    using assms(1) by (auto simp: is_known_type_def)
  have cred: "set (allowed_params spec) \<inter> {''token'', ''s3_access_key'', ''s3_secret_key''} = {}"
    using spec by (rule allowed_no_credentials)
  have kd: "kept = filter (\<lambda>(k, v). k \<in> set (allowed_params spec)) params"
    "dropped = map fst (filter (\<lambda>(k, v). k \<notin> set (allowed_params spec)) params)"
    using filter_params_known [OF spec assms(2)] assms(3) by auto
  have mo: "map_of kept = map_of params |` set (allowed_params spec)"
    unfolding kd(1) by (induction params) (auto simp: restrict_map_def fun_eq_iff)
  have srt: "sorted dropped"
    unfolding kd(2) using bt_wf_filter [OF assms(2)] by (simp add: bt_wf_def strict_sorted_iff)
  have "set dropped = set (map fst params) - set (allowed_params spec)" unfolding kd(2) by force
  moreover have "set (map fst kept) \<subseteq> set (allowed_params spec)" unfolding kd(1) by auto
  ultimately show ?thesis
    using spec cred mo srt kd(1) bt_wf_filter [OF assms(2)] by blast
qed

lemma stored_params_are_locators_example:
  "filter_params ''iceberg'' [(''endpoint'', ''u''), (''token'', ''x'')] = ([(''endpoint'', ''u'')], [''token''])
   \<and> bt_wf [(''endpoint'', ''u'')]"
proof -
  have k: "is_known_type ''iceberg''" by code_simp
  have w: "bt_wf [(''endpoint'', ''u''), (''token'', ''x'')]" by code_simp
  have f: "filter_params ''iceberg'' [(''endpoint'', ''u''), (''token'', ''x'')] = ([(''endpoint'', ''u'')], [''token''])"
    by code_simp
  show ?thesis using f stored_params_are_locators [OF k w f] by blast
qed

text \<open>Offline loading: the node's warmed sets (\<open>STANDARD\<close>, \<open>OPTIONAL\<close>,
  \<open>CATALOG_DRIVEN\<close>) contain every shipped extension, every extension an attacher loads, and
  what those pull in themselves; the three sets are pairwise disjoint and each extension is
  advertised under exactly one bucket.\<close>

lemma warmed_sets_are_closed:
  "set (map ext_name EXTENSIONS) \<subseteq> set (STANDARD @ OPTIONAL @ CATALOG_DRIVEN)
   \<and> (\<forall>t \<in> set catalog_TYPES. \<forall>e \<in> set (required_extensions t).
        set (e # transitive_deps e) \<subseteq> set (STANDARD @ OPTIONAL @ CATALOG_DRIVEN))
   \<and> distinct (STANDARD @ OPTIONAL @ CATALOG_DRIVEN)
   \<and> (\<forall>e \<in> set EXTENSIONS. filter (\<lambda>b. e \<in> set (in_bucket b)) Bucket_ALL = [bucket e])"
proof -
  have "set (map ext_name EXTENSIONS) \<subseteq> set (STANDARD @ OPTIONAL @ CATALOG_DRIVEN)" by code_simp
  moreover have "\<forall>t \<in> set catalog_TYPES. \<forall>e \<in> set (required_extensions t).
        set (e # transitive_deps e) \<subseteq> set (STANDARD @ OPTIONAL @ CATALOG_DRIVEN)" by code_simp
  moreover have "distinct (STANDARD @ OPTIONAL @ CATALOG_DRIVEN)" by code_simp
  moreover have "\<forall>e \<in> set EXTENSIONS. filter (\<lambda>b. e \<in> set (in_bucket b)) Bucket_ALL = [bucket e]"
    by code_simp
  ultimately show ?thesis by blast
qed

lemma iceberg_dependency_is_warmed:
  "''avro'' \<in> set (STANDARD @ OPTIONAL @ CATALOG_DRIVEN)"
proof -
  have "set (''iceberg'' # transitive_deps ''iceberg'') \<subseteq> set (STANDARD @ OPTIONAL @ CATALOG_DRIVEN)"
    using warmed_sets_are_closed by (auto simp: catalog_TYPES_def)
  then show ?thesis by (simp add: transitive_deps_def)
qed

end
