(* ===== verification/Errors.thy ===== *)
theory Errors
  imports Policy Ordered_Map
begin

text \<open>
  The structured error envelope of \<open>latiq-common/src/error.rs\<close>: the closed taxonomy of
  kinds, who can fix a failure and whether the call may be sent again, the facts behind a
  message and the template renderer that generates the message from them.

  Message texts are the source's; an em dash of the source is written \<open>--\<close>.
\<close>

section \<open>Kinds\<close>

datatype ErrorKind =
    PondNotFound | DatasetNotFound | NameConflict | CatalogError | ParseError | InvalidValue
  | MissingArgument | WriteToReservedSchema | ResultCapExceeded | ReadOnlyViolation
  | UnsupportedFeature | CapabilityUnavailable | QueryTimeout | QueryCancelled
  | Unauthenticated | PondUnavailable | SourceUnavailable | Storage | Internal

definition ErrorKind_ALL :: "ErrorKind list" where
  "ErrorKind_ALL =
     [PondNotFound, DatasetNotFound, NameConflict, CatalogError, ParseError, InvalidValue,
      MissingArgument, WriteToReservedSchema, ResultCapExceeded, ReadOnlyViolation,
      UnsupportedFeature, CapabilityUnavailable, QueryTimeout, QueryCancelled,
      Unauthenticated, PondUnavailable, SourceUnavailable, Storage, Internal]"

datatype Audience = Agent | Operator

definition Audience_ALL :: "Audience list" where
  "Audience_ALL = [Agent, Operator]"

fun audience_as_str :: "Audience \<Rightarrow> string" where
  "audience_as_str Agent = ''agent''"
| "audience_as_str Operator = ''operator''"

datatype Retryable = Never | AsIs | AfterChange | AfterProvisioning

definition Retryable_ALL :: "Retryable list" where
  "Retryable_ALL = [Never, AsIs, AfterChange, AfterProvisioning]"

fun retryable_as_str :: "Retryable \<Rightarrow> string" where
  "retryable_as_str Never = ''never''"
| "retryable_as_str AsIs = ''as_is''"
| "retryable_as_str AfterChange = ''after_change''"
| "retryable_as_str AfterProvisioning = ''after_provisioning''"

fun kind_as_str :: "ErrorKind \<Rightarrow> string" where
  "kind_as_str PondNotFound = ''pond_not_found''"
| "kind_as_str DatasetNotFound = ''dataset_not_found''"
| "kind_as_str NameConflict = ''name_conflict''"
| "kind_as_str CatalogError = ''catalog_error''"
| "kind_as_str ParseError = ''parse_error''"
| "kind_as_str InvalidValue = ''invalid_value''"
| "kind_as_str MissingArgument = ''missing_argument''"
| "kind_as_str WriteToReservedSchema = ''write_to_reserved_schema''"
| "kind_as_str ResultCapExceeded = ''result_cap_exceeded''"
| "kind_as_str ReadOnlyViolation = ''read_only_violation''"
| "kind_as_str UnsupportedFeature = ''unsupported_feature''"
| "kind_as_str CapabilityUnavailable = ''capability_unavailable''"
| "kind_as_str QueryTimeout = ''query_timeout''"
| "kind_as_str QueryCancelled = ''query_cancelled''"
| "kind_as_str Unauthenticated = ''unauthenticated''"
| "kind_as_str PondUnavailable = ''pond_unavailable''"
| "kind_as_str SourceUnavailable = ''source_unavailable''"
| "kind_as_str Storage = ''storage''"
| "kind_as_str Internal = ''internal''"

fun default_suggest :: "ErrorKind \<Rightarrow> string" where
  \<open>default_suggest PondNotFound =
     ''Call list_ponds to see available ponds, or allocate_pond to create one.''\<close>
| \<open>default_suggest DatasetNotFound =
     ''Call list_datasets to see what's available.''\<close>
| \<open>default_suggest NameConflict =
     ''Choose a different name, or omit name to let Latiq generate one.''\<close>
| \<open>default_suggest ParseError =
     ''Check the SQL syntax against the supported dialect.''\<close>
| \<open>default_suggest CatalogError =
     ''Look up what the pond actually has before retrying: describe_pond, or read_query'' @
     '' "SHOW TABLES" / "DESCRIBE <table>" / "SELECT * FROM '' @
     ''information_schema.columns". Then use a name that exists -- or create it with '' @
     ''write_query first. If the name already exists, pick another or use CREATE OR '' @
     ''REPLACE / CREATE TABLE IF NOT EXISTS.''\<close>
| \<open>default_suggest InvalidValue =
     ''Fix the value and retry.''\<close>
| \<open>default_suggest MissingArgument =
     ''Provide the required argument and retry.''\<close>
| \<open>default_suggest WriteToReservedSchema =
     ''Write to your own tables/schema, not a reserved one.''\<close>
| \<open>default_suggest ResultCapExceeded =
     ''Narrow with WHERE/LIMIT, aggregate server-side (GROUP BY/count/sum), or '' @
     ''materialize with CREATE TABLE AS SELECT. Call explain_query on the statement '' @
     ''first: its `estimated_rows` is how many rows this would return, so you can see '' @
     ''whether narrowing is enough before spending another attempt on it.''\<close>
| \<open>default_suggest ReadOnlyViolation =
     ''Use write_query for INSERT/UPDATE/DELETE/DDL; read_query is for SELECT.''\<close>
| \<open>default_suggest UnsupportedFeature =
     ''Remove the clause the message names and re-send -- this engine does not '' @
     ''implement it, so the identical statement can never succeed. A DuckLake pond has '' @
     ''no PRIMARY KEY/UNIQUE or CHECK constraints, no indexes, no sequences and no '' @
     ''generated columns: declare the columns and their types, and enforce uniqueness '' @
     ''with a query (read_query "SELECT id, count(*) FROM t GROUP BY id HAVING count(*)'' @
     '' > 1") instead of a constraint. See latiq://dialect.''\<close>
| \<open>default_suggest CapabilityUnavailable =
     ''Stop and report this -- you cannot provision anything from here, and the '' @
     ''identical call will keep failing until somebody does. Tell whoever is '' @
     ''orchestrating you (a human operator, or the agent that dispatched you) which '' @
     ''capability is missing: it is in `facts.capability`, and the message names it '' @
     ''too. An operator installs a missing DuckDB extension by running `latiq '' @
     ''warm-extensions` on the node with network access and restarting it -- the '' @
     ''container image bakes the same step in at build time. Send this call again only '' @
     ''once you are told the capability is there. Meanwhile you can keep working on '' @
     ''anything that does not need it: a pond allocated without that extension still '' @
     ''reads CSV/Parquet/JSON (latiq://dialect says what is always loaded).''\<close>
| \<open>default_suggest QueryTimeout =
     ''Retry with a larger timeout_ms (up to the node's maximum), or narrow the query '' @
     ''(WHERE/LIMIT) or aggregate server-side. explain_query shows which table is '' @
     ''scanned and how big it is estimated to be -- it predicts no duration, but the '' @
     ''largest full_scan in `scan_operations` is what to fix.''\<close>
| \<open>default_suggest QueryCancelled =
     ''Re-issue the query if you still need the result.''\<close>
| \<open>default_suggest Unauthenticated =
     ''Obtain a fresh access token for this deployment and retry with it.''\<close>
| \<open>default_suggest PondUnavailable =
     ''Ask an operator to bring the pond's node back (latiq node list shows which are '' @
     ''registered); if it is gone for good, `latiq pond forget <pond> --confirm` drops '' @
     ''the registry record -- the data on that node is NOT deleted.''\<close>
| \<open>default_suggest SourceUnavailable =
     ''Check the path or URL in the statement -- spelling, host, bucket, and whether it'' @
     '' needs credentials this deployment does not have. It must be reachable from the '' @
     ''node, whose network is not yours. One retry is worth it if the failure could be '' @
     ''a transient network fault; a second identical failure means the source, not the '' @
     ''query. To work offline of it, load the data into the pond first (load_dataset / '' @
     ''pull_catalog).''\<close>
| \<open>default_suggest Storage =
     ''Retry; if it persists, report to your operator.''\<close>
| \<open>default_suggest Internal =
     ''Retry; if it persists, report to your operator.''\<close>

fun audience_of :: "ErrorKind \<Rightarrow> Audience" where
  "audience_of PondNotFound = Agent"
| "audience_of DatasetNotFound = Agent"
| "audience_of NameConflict = Agent"
| "audience_of CatalogError = Agent"
| "audience_of ParseError = Agent"
| "audience_of InvalidValue = Agent"
| "audience_of MissingArgument = Agent"
| "audience_of WriteToReservedSchema = Agent"
| "audience_of ResultCapExceeded = Agent"
| "audience_of ReadOnlyViolation = Agent"
| "audience_of UnsupportedFeature = Agent"
| "audience_of QueryTimeout = Agent"
| "audience_of QueryCancelled = Agent"
| "audience_of Unauthenticated = Agent"
| "audience_of SourceUnavailable = Agent"
| "audience_of PondUnavailable = Operator"
| "audience_of CapabilityUnavailable = Operator"
| "audience_of Storage = Operator"
| "audience_of Internal = Operator"

fun retryable_of :: "ErrorKind \<Rightarrow> Retryable" where
  "retryable_of QueryTimeout = AsIs"
| "retryable_of QueryCancelled = AsIs"
| "retryable_of SourceUnavailable = AsIs"
| "retryable_of Storage = AsIs"
| "retryable_of Internal = AsIs"
| "retryable_of PondNotFound = AfterChange"
| "retryable_of DatasetNotFound = AfterChange"
| "retryable_of NameConflict = AfterChange"
| "retryable_of CatalogError = AfterChange"
| "retryable_of ParseError = AfterChange"
| "retryable_of InvalidValue = AfterChange"
| "retryable_of MissingArgument = AfterChange"
| "retryable_of WriteToReservedSchema = AfterChange"
| "retryable_of ResultCapExceeded = AfterChange"
| "retryable_of UnsupportedFeature = AfterChange"
| "retryable_of Unauthenticated = AfterChange"
| "retryable_of ReadOnlyViolation = Never"
| "retryable_of PondUnavailable = Never"
| "retryable_of CapabilityUnavailable = AfterProvisioning"

fun default_see :: "ErrorKind \<Rightarrow> string" where
  "default_see PondNotFound = ''latiq://troubleshooting/pond-not-found''"
| "default_see DatasetNotFound = ''latiq://datasets''"
| "default_see ResultCapExceeded = ''latiq://troubleshooting/large-results''"
| "default_see ReadOnlyViolation = ''latiq://dialect''"
| "default_see ParseError = ''latiq://dialect''"
| "default_see UnsupportedFeature = ''latiq://dialect''"
| "default_see WriteToReservedSchema = ''latiq://dialect''"
| "default_see QueryTimeout = ''latiq://troubleshooting/timeouts''"
| "default_see CatalogError = ''latiq://troubleshooting/catalog-error''"
| "default_see SourceUnavailable = ''latiq://troubleshooting/source-unavailable''"
| "default_see PondUnavailable = ''latiq://troubleshooting/pond-unavailable''"
| "default_see CapabilityUnavailable = ''latiq://troubleshooting/capability-unavailable''"
| "default_see NameConflict = ''latiq://guidance''"
| "default_see InvalidValue = ''latiq://guidance''"
| "default_see MissingArgument = ''latiq://guidance''"
| "default_see Unauthenticated = ''latiq://troubleshooting/unauthenticated''"
| "default_see QueryCancelled = ''latiq://troubleshooting/timeouts''"
| "default_see Storage = ''latiq://troubleshooting/internal''"
| "default_see Internal = ''latiq://troubleshooting/internal''"

section \<open>Facts and rendering\<close>

datatype Fact = Number "64 word" | Text string | Flag bool

type_synonym Facts = "(string, Fact) btree"

fun show_nat :: "nat \<Rightarrow> string" where
  "show_nat n = (if n < 10 then [char_of (48 + n)] else show_nat (n div 10) @ [char_of (48 + n mod 10)])"

declare show_nat.simps [simp del]

lemma show_nat_digits: "c \<in> set (show_nat n) \<Longrightarrow> is_ascii_digit c"
proof (induction n rule: show_nat.induct)
  case (1 n)
  have "is_ascii_digit (char_of (48 + k))" if "k < 10" for k :: nat
    using that by (simp add: is_ascii_digit_def code_char_of)
  then show ?case using 1 by (subst (asm) show_nat.simps) (auto split: if_splits)
qed

definition show_int :: "int \<Rightarrow> string" where
  "show_int i = (if i < 0 then CHR ''-'' # show_nat (nat (- i)) else show_nat (nat i))"

fun show_fact :: "Fact \<Rightarrow> string" where
  "show_fact (Number n) = show_nat (unat n)"
| "show_fact (Text s) = s"
| "show_fact (Flag b) = (if b then ''true'' else ''false'')"

text \<open>The macro \<open>facts!\<close>: successive inserts into an empty map.\<close>

definition facts :: "(string \<times> Fact) list \<Rightarrow> Facts" where
  "facts kvs = fold (\<lambda>(k, v). bt_insert k v) kvs []"

fun find_char :: "char \<Rightarrow> string \<Rightarrow> nat option" where
  "find_char c [] = None"
| "find_char c (d # s) = (if d = c then Some 0 else map_option Suc (find_char c s))"

lemma find_char_less: "find_char c s = Some i \<Longrightarrow> i < length s"
  by (induction s arbitrary: i) (auto split: if_splits)

function render_facts :: "string \<Rightarrow> Facts \<Rightarrow> string" where
  "render_facts rest fs =
     (case find_char (CHR ''{'') rest of
        None \<Rightarrow> rest
      | Some opn \<Rightarrow>
          (case find_char (CHR ''}'') (drop opn rest) of
             None \<Rightarrow> rest
           | Some i \<Rightarrow>
               (let close = opn + i;
                    key = take (close - (opn + 1)) (drop (opn + 1) rest)
                in (case map_of fs key of
                      Some f \<Rightarrow> take opn rest @ show_fact f
                    | None \<Rightarrow> take (close + 1) rest)
                   @ render_facts (drop (close + 1) rest) fs)))"
  by pat_completeness auto
termination
  by (relation "measure (\<lambda>(rest, fs). length rest)") (auto dest!: find_char_less)

declare render_facts.simps [simp del]

section \<open>The envelope\<close>

record Location =
  line :: "32 word"
  column :: "32 word"
  byte :: "32 word"

record ErrorEnvelope =
  kind :: ErrorKind
  message :: string
  location :: "Location option"
  suggest :: string
  see :: string
  audience :: Audience
  retryable :: Retryable
  env_facts :: Facts
  env_trace_id :: "string option"
  env_traceparent :: "string option"

text \<open>
  The assertion every constructor runs in a debug build: an \<open>internal\<close> envelope keeps the
  kind's own advice and page.
\<close>

definition opaque_guidance_ok :: "ErrorKind \<Rightarrow> string \<Rightarrow> string \<Rightarrow> bool" where
  "opaque_guidance_ok k sg se \<longleftrightarrow>
     k \<noteq> Internal \<or> (sg = default_suggest k \<and> se = ''latiq://troubleshooting/internal'')"

definition envelope_new :: "ErrorKind \<Rightarrow> string \<Rightarrow> string \<Rightarrow> string \<Rightarrow> ErrorEnvelope" where
  "envelope_new k msg sg se =
     \<lparr>kind = k, message = msg, location = None, suggest = sg, see = se,
      audience = audience_of k, retryable = retryable_of k, env_facts = [],
      env_trace_id = None, env_traceparent = None\<rparr>"

definition for_kind :: "ErrorKind \<Rightarrow> string \<Rightarrow> ErrorEnvelope" where
  "for_kind k msg = envelope_new k msg (default_suggest k) (default_see k)"

definition rendered_with :: "ErrorKind \<Rightarrow> string \<Rightarrow> Facts \<Rightarrow> string \<Rightarrow> string \<Rightarrow> ErrorEnvelope" where
  "rendered_with k template fs sg se =
     \<lparr>kind = k, message = render_facts template fs, location = None,
      suggest = render_facts sg fs, see = se,
      audience = audience_of k, retryable = retryable_of k, env_facts = fs,
      env_trace_id = None, env_traceparent = None\<rparr>"

definition rendered :: "ErrorKind \<Rightarrow> string \<Rightarrow> Facts \<Rightarrow> ErrorEnvelope" where
  "rendered k template fs = rendered_with k template fs (default_suggest k) (default_see k)"

definition with_location :: "ErrorEnvelope \<Rightarrow> Location \<Rightarrow> ErrorEnvelope" where
  "with_location e loc = e\<lparr>location := Some loc\<rparr>"

definition with_trace_id :: "ErrorEnvelope \<Rightarrow> string option \<Rightarrow> ErrorEnvelope" where
  "with_trace_id e t = e\<lparr>env_trace_id := t\<rparr>"

definition with_traceparent :: "ErrorEnvelope \<Rightarrow> string option \<Rightarrow> ErrorEnvelope" where
  "with_traceparent e tp = (if env_traceparent e = None then e\<lparr>env_traceparent := tp\<rparr> else e)"

lemmas envelope_defs = envelope_new_def for_kind_def rendered_with_def rendered_def
  with_location_def with_trace_id_def with_traceparent_def

section \<open>Lemmas\<close>

lemma find_char_None_iff: "find_char c s = None \<longleftrightarrow> c \<notin> set s"
  by (induction s) auto

lemma find_char_append:
  "c \<notin> set s \<Longrightarrow> find_char c (s @ c # t) = Some (length s)"
  by (induction s) auto

lemma render_facts_no_brace: "CHR ''{'' \<notin> set s \<Longrightarrow> render_facts s fs = s"
  by (subst render_facts.simps) (simp add: find_char_None_iff [THEN iffD2])

lemma default_suggest_no_brace: "CHR ''{'' \<notin> set (default_suggest k)"
proof -
  have "\<forall>k \<in> set ErrorKind_ALL. CHR ''{'' \<notin> set (default_suggest k)" by code_simp
  moreover have "k \<in> set ErrorKind_ALL" by (cases k) (simp_all add: ErrorKind_ALL_def)
  ultimately show ?thesis by blast
qed

lemma render_default_suggest [simp]: "render_facts (default_suggest k) fs = default_suggest k"
  by (rule render_facts_no_brace [OF default_suggest_no_brace])

text \<open>
  One step of the renderer on a template that starts with brace-free text and a placeholder.
\<close>

lemma render_facts_hole:
  assumes "CHR ''{'' \<notin> set pre" and "CHR ''}'' \<notin> set key"
  shows "render_facts (pre @ CHR ''{'' # key @ CHR ''}'' # post) fs =
    pre @ (case map_of fs key of Some f \<Rightarrow> show_fact f | None \<Rightarrow> CHR ''{'' # key @ ''}'')
      @ render_facts post fs"
proof -
  let ?t = "pre @ CHR ''{'' # key @ CHR ''}'' # post"
  have opn: "find_char (CHR ''{'') ?t = Some (length pre)"
    using assms(1) by (rule find_char_append)
  have cls: "find_char (CHR ''}'') (drop (length pre) ?t) = Some (Suc (length key))"
    using find_char_append [OF assms(2), of post] by simp
  have tk: "take (length pre + Suc (length key) - (length pre + 1)) (drop (length pre + 1) ?t) = key"
    by simp
  have tk2: "take (length pre + Suc (length key) + 1) ?t = pre @ CHR ''{'' # key @ ''}''"
    by simp
  have dr: "drop (length pre + Suc (length key) + 1) ?t = post"
    by simp
  show ?thesis
    by (subst render_facts.simps, simp only: opn cls option.case Let_def tk tk2 dr)
       (auto split: option.splits)
qed

text \<open>Templates as the sources write them: brace-free text and named placeholders.\<close>

datatype piece = Lit string | Hole string

fun piece_text :: "piece \<Rightarrow> string" where
  "piece_text (Lit s) = s"
| "piece_text (Hole k) = CHR ''{'' # k @ ''}''"

fun piece_ok :: "piece \<Rightarrow> bool" where
  "piece_ok (Lit s) = (CHR ''{'' \<notin> set s)"
| "piece_ok (Hole k) = (CHR ''}'' \<notin> set k)"

fun piece_value :: "Facts \<Rightarrow> piece \<Rightarrow> string" where
  "piece_value fs (Lit s) = s"
| "piece_value fs (Hole k) = (case map_of fs k of Some f \<Rightarrow> show_fact f | None \<Rightarrow> CHR ''{'' # k @ ''}'')"

lemma render_facts_lit:
  "list_all piece_ok ps \<Longrightarrow> CHR ''{'' \<notin> set pre \<Longrightarrow>
   render_facts (pre @ concat (map piece_text ps)) fs = pre @ concat (map (piece_value fs) ps)"
proof (induction ps arbitrary: pre)
  case Nil
  then show ?case by (simp add: render_facts_no_brace)
next
  case (Cons p ps)
  show ?case
  proof (cases p)
    case (Lit s)
    then have "CHR ''{'' \<notin> set (pre @ s)" using Cons.prems by simp
    from Cons.IH [OF _ this] Cons.prems(1) Lit show ?thesis by simp
  next
    case (Hole k)
    have "render_facts (concat (map piece_text ps)) fs = concat (map (piece_value fs) ps)"
      using Cons.IH [of "[]"] Cons.prems by simp
    then show ?thesis
      using render_facts_hole [of pre k "concat (map piece_text ps)" fs] Cons.prems Hole by simp
  qed
qed

lemma facts_wf [simp]: "bt_wf (facts kvs)"
  by (simp add: facts_def bt.invar_fold)

lemma map_of_facts: "distinct (map fst kvs) \<Longrightarrow> map_of (facts kvs) = map_of kvs"
  by (rule ext) (simp add: facts_def bt.lookup_fold_distinct split: option.splits)

section \<open>Properties\<close>

text \<open>Rendering is substitution: on any template made of brace-free text and
  placeholders, the message is the text with each placeholder replaced by its fact as it
  prints, an unknown placeholder left verbatim; a fact whose own text contains braces is
  never rendered again.\<close>

lemma render_is_substitution:
  assumes "list_all piece_ok ps"
  shows "render_facts (concat (map piece_text ps)) fs = concat (map (piece_value fs) ps)"
  using render_facts_lit [OF assms, of "[]"] by simp

lemma render_never_rerenders:
  "render_facts ''Pond {pond} of {x}.'' (facts [(''pond'', Text ''{pond}'')]) = ''Pond {pond} of {x}.''"
proof -
  let ?ps = "[Lit ''Pond '', Hole ''pond'', Lit '' of '', Hole ''x'', Lit ''.'']"
  have "list_all piece_ok ?ps" by code_simp
  from render_is_substitution [OF this, of "facts [(''pond'', Text ''{pond}'')]"]
  show ?thesis by (simp add: facts_def)
qed

text \<open>The two control fields agree with each other: a call is retryable after
  provisioning only where the operator is the audience, the agent is told never to resend
  only for a write sent to the read call, and every constructor of an envelope derives both
  fields from the kind, keeps the canonical advice of an \<open>internal\<close> failure, and a relayed
  traceparent is never overwritten.\<close>

lemma envelope_fields_coherent:
  "(retryable_of k = AfterProvisioning \<longrightarrow> audience_of k = Operator)
   \<and> (audience_of k = Agent \<and> retryable_of k = Never \<longrightarrow> k = ReadOnlyViolation)
   \<and> (audience_of k = Operator \<longrightarrow> retryable_of k \<noteq> AfterChange)
   \<and> (\<forall>e \<in> {for_kind k msg, rendered k msg fs, rendered_with k msg fs sg se, envelope_new k msg sg se}.
        audience e = audience_of (kind e) \<and> retryable e = retryable_of (kind e) \<and> kind e = k)
   \<and> (\<forall>e \<in> {for_kind k msg, rendered k msg fs}. opaque_guidance_ok (kind e) (suggest e) (see e))
   \<and> env_traceparent (with_traceparent (with_traceparent env (Some a)) (Some b))
        = Some (case env_traceparent env of Some t \<Rightarrow> t | None \<Rightarrow> a)"
proof -
  have "(retryable_of k = AfterProvisioning \<longrightarrow> audience_of k = Operator)
   \<and> (audience_of k = Agent \<and> retryable_of k = Never \<longrightarrow> k = ReadOnlyViolation)
   \<and> (audience_of k = Operator \<longrightarrow> retryable_of k \<noteq> AfterChange)"
    by (cases k) simp_all
  moreover have "\<forall>e \<in> {for_kind k msg, rendered k msg fs}. opaque_guidance_ok (kind e) (suggest e) (see e)"
    by (auto simp: envelope_defs opaque_guidance_ok_def)
  ultimately show ?thesis by (auto simp: envelope_defs split: option.splits)
qed

lemma envelope_fields_coherent_example:
  "audience_of CapabilityUnavailable = Operator \<and>
   audience (for_kind QueryTimeout ''x'') = Agent"
proof -
  have "retryable_of CapabilityUnavailable = AfterProvisioning" by simp
  then have op: "audience_of CapabilityUnavailable = Operator"
    using envelope_fields_coherent by blast
  have "audience (for_kind QueryTimeout ''x'') = audience_of (kind (for_kind QueryTimeout ''x''))
      \<and> kind (for_kind QueryTimeout ''x'') = QueryTimeout"
    using envelope_fields_coherent [of QueryTimeout "''x''"] by blast
  with op show ?thesis by simp
qed

end
