(* ===== verification/Error_Mapping.thy ===== *)
theory Error_Mapping
  imports Errors Extensions
begin

text \<open>
  How failures become envelopes: the engine's error classes (\<open>latiq-engine/src/engine.rs\<close>)
  and the agent-facing constructors and mapping (\<open>latiq-agent-core/src/error.rs\<close>), and the
  control plane's errors with their envelope, gRPC code and status
  (\<open>latiq-control-plane/src/error.rs\<close>).
\<close>

section \<open>Engine errors (engine.rs)\<close>

datatype EngineError =
    E_Parse string
  | E_Catalog string
  | E_Conversion string
  | E_Constraint string
  | E_SourceIo string
  | E_Unsupported string "string option"
  | E_CapabilityUnavailable string string
  | E_InvalidInput string
  | E_MissingParameter string
  | E_UnsupportedParameter string
  | E_TransactionControl string
  | E_ReadOnlyViolation
  | E_Cancelled
  | E_Timeout
  | E_Engine string

section \<open>Agent errors (agent-core error.rs)\<close>

text \<open>\<open>AgentError\<close> is a newtype over the envelope.\<close>

type_synonym AgentError = ErrorEnvelope

definition pond_not_found :: "string \<Rightarrow> AgentError" where
  \<open>pond_not_found pond_ref =
     rendered PondNotFound ''Pond '{pond}' does not exist.'' (facts [(''pond'', Text pond_ref)])\<close>

definition pond_unavailable :: "string \<Rightarrow> AgentError" where
  \<open>pond_unavailable pond_ref =
     rendered PondUnavailable
       (''Pond '{pond}' exists, but the node that owns it is not registered with this '' @
        ''deployment -- no node is currently serving it, and this node does not hold its data.'')
       (facts [(''pond'', Text pond_ref)])\<close>

definition name_conflict :: "string \<Rightarrow> AgentError" where
  \<open>name_conflict name =
     rendered NameConflict ''A pond named '{name}' already exists.'' (facts [(''name'', Text name)])\<close>

definition result_cap_exceeded :: "nat \<Rightarrow> nat \<Rightarrow> AgentError" where
  \<open>result_cap_exceeded rows cap =
     rendered ResultCapExceeded ''Result has {rows} rows, over the inline cap of {cap}.''
       (facts [(''rows'', Number (of_nat rows)), (''cap'', Number (of_nat cap))])\<close>

definition result_cap_exceeded_unknown :: "nat \<Rightarrow> AgentError" where
  \<open>result_cap_exceeded_unknown cap =
     rendered ResultCapExceeded
       (''Result has more than {cap} rows, over the inline cap of {cap}. Collection stopped at '' @
        ''the cap, so the exact row count is not known -- use `SELECT count(*)` or '' @
        ''explain_query's `estimated_rows` to size it.'')
       (facts [(''cap'', Number (of_nat cap))])\<close>

definition dataset_not_found :: "string \<Rightarrow> AgentError" where
  \<open>dataset_not_found reference =
     rendered DatasetNotFound ''Dataset '{dataset}' is not in the catalog.''
       (facts [(''dataset'', Text reference)])\<close>

definition unsupported_extension :: "string \<Rightarrow> AgentError" where
  \<open>unsupported_extension msg =
     envelope_new InvalidValue msg
       (''Request only signed/official extensions baked into this deployment; see '' @
        ''latiq://guidance for the supported set.'')
       ''latiq://guidance''\<close>

definition query_timeout :: "64 word \<Rightarrow> 64 word \<Rightarrow> AgentError" where
  \<open>query_timeout effective_ms maxi =
     rendered_with QueryTimeout
       (''Query stopped after {timeout_ms} ms -- the timeout in effect for this request. This '' @
        ''node allows up to {max_timeout_ms} ms.'')
       (facts [(''timeout_ms'', Number effective_ms), (''max_timeout_ms'', Number maxi)])
       (if effective_ms \<ge> maxi then
          ''This ran at the node's maximum, so a larger timeout_ms is not available. Narrow the '' @
          ''query -- add a WHERE on a selective column, a LIMIT, or fewer columns -- or aggregate '' @
          ''server-side (GROUP BY/count/sum) instead of scanning. If the work is genuinely this '' @
          ''large, it is too big for this pond's tier: ask an operator to re-tier the pond.''
        else
          ''Retry with a larger timeout_ms (this node allows up to {max_timeout_ms}), or narrow '' @
          ''the query -- add a WHERE on a selective column, a LIMIT, or fewer columns -- or '' @
          ''aggregate server-side (GROUP BY/count/sum). If it still times out at '' @
          ''{max_timeout_ms} ms, the query is too large for this pond's tier: ask an operator to '' @
          ''re-tier it.'')
       (default_see QueryTimeout)\<close>

definition internal_error :: "string \<Rightarrow> AgentError" where
  "internal_error msg = for_kind Internal msg"

definition storage_error :: "string \<Rightarrow> AgentError" where
  "storage_error msg = for_kind Storage msg"

definition with_facts :: "AgentError \<Rightarrow> Facts \<Rightarrow> AgentError" where
  "with_facts e fs = e\<lparr>env_facts := fs\<rparr>"

fun from_engine :: "EngineError \<Rightarrow> AgentError" where
  \<open>from_engine E_ReadOnlyViolation =
     for_kind ReadOnlyViolation ''read_query received a statement that is not read-only.''\<close>
| \<open>from_engine E_Cancelled = for_kind QueryCancelled ''The query was cancelled.''\<close>
| \<open>from_engine E_Timeout = for_kind QueryTimeout ''The query exceeded the timeout.''\<close>
| \<open>from_engine (E_Parse m) = for_kind ParseError m\<close>
| \<open>from_engine (E_Catalog m) = for_kind CatalogError m\<close>
| \<open>from_engine (E_Conversion m) =
     envelope_new InvalidValue m
       (''A value does not match the type it is being used as. Check the column types '' @
        ''(read_query "DESCRIBE <table>" or describe_pond), then supply a value of that '' @
        ''type or CAST it explicitly -- e.g. CAST('7' AS INTEGER). Quoted text is never '' @
        ''coerced into a numeric column just because it looks numeric.'')
       ''latiq://dialect''\<close>
| \<open>from_engine (E_Constraint m) =
     envelope_new InvalidValue m
       (''The value is the right type but breaks a rule on the table (primary key, unique, '' @
        ''not null, or check). Read the conflicting rows first -- read_query "SELECT * FROM '' @
        ''<table> WHERE <key> = <value>" -- then either correct the value, UPDATE the '' @
        ''existing row instead of inserting, or use INSERT OR REPLACE / ON CONFLICT.'')
       ''latiq://dialect''\<close>
| \<open>from_engine (E_SourceIo m) = for_kind SourceUnavailable m\<close>
| \<open>from_engine (E_Unsupported m (Some feature)) =
     with_facts
       (envelope_new UnsupportedFeature m
          (''This pond's engine does not support '' @ feature @ '' -- remove that from the '' @
           ''statement and re-send; the statement as written can never succeed. A '' @
           ''DuckLake pond has no PRIMARY KEY/UNIQUE or CHECK constraints, no '' @
           ''indexes, no sequences and no generated columns: declare the columns and '' @
           ''their types, and check uniqueness with a query (read_query "SELECT id, '' @
           ''count(*) FROM <table> GROUP BY id HAVING count(*) > 1") instead of '' @
           ''declaring a constraint.'')
          (default_see UnsupportedFeature))
       (facts [(''feature'', Text feature)])\<close>
| \<open>from_engine (E_Unsupported m None) = for_kind UnsupportedFeature m\<close>
| \<open>from_engine (E_CapabilityUnavailable m capability) =
     with_facts (for_kind CapabilityUnavailable m) (facts [(''capability'', Text capability)])\<close>
| \<open>from_engine (E_InvalidInput m) =
     envelope_new InvalidValue m
       (''A value or argument in the statement is not acceptable to the engine -- out of '' @
        ''range for its type, or invalid for the function or file it was passed to. The '' @
        ''message names it. Fix that value and re-send: a wider type for an arithmetic '' @
        ''overflow (CAST the operands to BIGINT/HUGEINT or aggregate differently), a '' @
        ''correct format string, a path that really holds the format you are reading.'')
       ''latiq://dialect''\<close>
| \<open>from_engine (E_MissingParameter m) = for_kind MissingArgument m\<close>
| \<open>from_engine (E_UnsupportedParameter m) = for_kind InvalidValue m\<close>
| \<open>from_engine (E_TransactionControl m) =
     envelope_new UnsupportedFeature m
       (''Latiq owns the transaction, so a statement must not contain BEGIN / COMMIT / '' @
        ''ROLLBACK / START TRANSACTION -- send plain statements and Latiq commits them '' @
        ''together as one attributed snapshot. Your own transaction control ended Latiq's '' @
        ''bracket, so part of the statement may ALREADY have been committed: check with '' @
        ''read_query "SELECT count(*) FROM <table>" before re-sending, then re-send only '' @
        ''what is missing, without the transaction control.'')
       ''latiq://dialect''\<close>
| \<open>from_engine (E_Engine m) = internal_error (''engine error: '' @ m)\<close>

section \<open>Control-plane errors (control-plane error.rs)\<close>

datatype ControlPlaneError =
    CP_NameConflict string
  | CP_PondNotFound string
  | CP_NodeNotFound string
  | CP_NoNodeAvailable string
  | CP_DatasetNotFound string
  | CP_CatalogNotFound string
  | CP_PondStillOwned string string
  | CP_AllocationNotMaterialized string string string bool
  | CP_Invalid invalid_reason
  | CP_Storage string

text \<open>The sentence of each refusal (\<open>Invalid\<close> carries it as a string).\<close>

definition NAME_RULE :: string where
  \<open>NAME_RULE = ''1-64 characters, letters, digits, `_` or `-` only (it is used as the pond's SQL catalog name)''\<close>

definition quoted :: "string \<Rightarrow> string" where
  "quoted s = [apos] @ s @ [apos]"

fun reason_text :: "invalid_reason \<Rightarrow> string" where
  \<open>reason_text (UnknownTierAtCreate s) =
     ''unknown tier '' @ quoted s @ ''. Allowed at creation: '' @ join '', '' tier_CREATABLE @ ''.''\<close>
| \<open>reason_text TierNoneOperatorOnly =
     ''tier 'none' (uncapped) is operator-only: set it after creation with `latiq pond set-tier <pond> --tier none`''\<close>
| \<open>reason_text (UnknownTier s) =
     ''unknown tier '' @ quoted s @ '' (expected '' @ join '', '' tier_ALL @ '')''\<close>
| \<open>reason_text NameEmpty =
     ''pond name must not be empty -- omit `name` entirely to have Latiq generate one. A name is '' @ NAME_RULE @ ''.''\<close>
| \<open>reason_text (NameTooLong n) =
     ''pond name is '' @ show_nat n @ '' characters, over the '' @ show_nat MAX_LEN @
     ''-character maximum. A name is '' @ NAME_RULE @ ''.''\<close>
| \<open>reason_text (NameBadChar name bad) =
     ''pond name '' @ quoted name @ '' contains '' @ quoted [bad] @ '', which is not allowed. A name is '' @ NAME_RULE @ ''.''\<close>
| \<open>reason_text DatasetNameRequired = ''dataset name is required''\<close>
| \<open>reason_text DatasetNameNotIdent = ''dataset name must be a bare identifier (letters/digits/underscore)''\<close>
| \<open>reason_text DatasetNoTables = ''a dataset needs at least one table''\<close>
| \<open>reason_text CatalogNameTypeRequired = ''catalog name and type are required''\<close>
| \<open>reason_text CatalogNameNotIdent = ''catalog name must be a bare identifier (letters/digits/underscore)''\<close>
| \<open>reason_text (ExtensionUnsupported n) =
     ''unknown or unsupported extension '' @ quoted n @ ''. Allowed: '' @ join '', '' OPTIONAL @
     ''. Community/unsigned extensions aren't supported -- bake new ones '' @
     ''into the deployment image and upgrade Latiq.''\<close>

fun cp_envelope :: "ControlPlaneError \<Rightarrow> ErrorEnvelope" where
  \<open>cp_envelope (CP_NameConflict name) =
     rendered NameConflict ''Name '{name}' is taken.'' (facts [(''name'', Text name)])\<close>
| \<open>cp_envelope (CP_PondNotFound r) =
     rendered PondNotFound ''Pond '{pond}' does not exist.'' (facts [(''pond'', Text r)])\<close>
| \<open>cp_envelope (CP_NoNodeAvailable m) =
     for_kind Internal
       (''No pond node is available to host a pond: '' @ m @ ''. A pond node must be '' @
        ''registered and heartbeating with this control plane before one can be '' @
        ''created -- `latiq node list` shows which are registered.'')\<close>
| \<open>cp_envelope (CP_NodeNotFound n) =
     rendered_with InvalidValue ''Node '{node_id}' is not registered with this control plane.''
       (facts [(''node_id'', Text n)])
       (''Run `latiq node list` to see the registered nodes, then retry with an id from '' @
        ''that list.'')
       (default_see InvalidValue)\<close>
| \<open>cp_envelope (CP_DatasetNotFound r) =
     rendered DatasetNotFound ''Dataset '{dataset}' is not in the catalog.''
       (facts [(''dataset'', Text r)])\<close>
| \<open>cp_envelope (CP_CatalogNotFound r) =
     rendered_with DatasetNotFound ''Catalog '{catalog}' is not registered.''
       (facts [(''catalog'', Text r)])
       ''Call list_catalogs to see registered catalogs.'' ''latiq://guidance''\<close>
| \<open>cp_envelope (CP_PondStillOwned pond node_id) =
     rendered_with InvalidValue
       (''Pond '{pond}' is still owned by node '{node_id}', which is registered and active '' @
        ''-- forgetting it would orphan data a live node is serving.'')
       (facts [(''pond'', Text pond), (''node_id'', Text node_id)])
       (''Use `latiq pond drop <pond> --confirm`, which deletes the pond AND its data via '' @
        ''the owning node. `pond forget` is only for a pond whose node is gone.'')
       ''latiq://guidance''\<close>
| \<open>cp_envelope (CP_AllocationNotMaterialized name owner cause True) =
     rendered_with PondUnavailable
       (''Pond '{name}' was NOT created: the node it was assigned to ({node_endpoint}) '' @
        ''could not materialise its storage ({cause}). The assignment has been rolled '' @
        ''back, so the name is free and nothing was left behind.'')
       (facts [(''name'', Text name), (''node_endpoint'', Text owner), (''cause'', Text cause),
               (''compensated'', Flag True)])
       (''Retry allocate_pond (or `latiq pond create`) -- the failed attempt left nothing '' @
        ''behind, so the same name is free. If it keeps failing, that node is down: report '' @
        ''it to your operator.'')
       (default_see PondUnavailable)\<close>
| \<open>cp_envelope (CP_AllocationNotMaterialized name owner cause False) =
     rendered_with PondUnavailable
       (''Pond '{name}' was NOT created: the node it was assigned to ({node_endpoint}) '' @
        ''could not materialise its storage ({cause}), AND the assignment could not be '' @
        ''rolled back -- a registry row named '{name}' may still exist with no storage '' @
        ''behind it.'')
       (facts [(''name'', Text name), (''node_endpoint'', Text owner), (''cause'', Text cause),
               (''compensated'', Flag False)])
       (''Retry under a DIFFERENT name; the original may still be taken. Ask an operator '' @
        ''to remove the stranded record with `latiq pond forget <pond> --confirm` (it '' @
        ''deletes the registry row only, never data).'')
       (default_see PondUnavailable)\<close>
| \<open>cp_envelope (CP_Invalid m) = for_kind InvalidValue (reason_text m)\<close>
| \<open>cp_envelope (CP_Storage m) = for_kind Storage (''storage error: '' @ m)\<close>

datatype Code = AlreadyExists | NotFound | FailedPrecondition | InvalidArgument | CodeInternal

fun cp_code :: "ControlPlaneError \<Rightarrow> Code" where
  "cp_code (CP_NameConflict _) = AlreadyExists"
| "cp_code (CP_PondNotFound _) = NotFound"
| "cp_code (CP_DatasetNotFound _) = NotFound"
| "cp_code (CP_CatalogNotFound _) = NotFound"
| "cp_code (CP_NodeNotFound _) = NotFound"
| "cp_code (CP_NoNodeAvailable _) = FailedPrecondition"
| "cp_code (CP_PondStillOwned _ _) = FailedPrecondition"
| "cp_code (CP_AllocationNotMaterialized _ _ _ _) = FailedPrecondition"
| "cp_code (CP_Invalid _) = InvalidArgument"
| "cp_code (CP_Storage _) = CodeInternal"

text \<open>A status carries the code, the message and the envelope as its details.\<close>

record Status =
  st_code :: Code
  st_message :: string
  st_details :: ErrorEnvelope

definition to_status_traced :: "ControlPlaneError \<Rightarrow> string option \<Rightarrow> Status" where
  "to_status_traced e trace_id =
     (let env = with_trace_id (cp_envelope e)
                  (case trace_id of Some t \<Rightarrow> (if t = [] then None else Some t) | None \<Rightarrow> None)
      in \<lparr>st_code = cp_code e, st_message = message env, st_details = env\<rparr>)"

definition to_status :: "ControlPlaneError \<Rightarrow> Status" where
  "to_status e = to_status_traced e None"

section \<open>Lemmas\<close>

text \<open>
  An envelope that some constructor could have built: the control fields come from the kind
  and an \<open>internal\<close> one keeps its canonical advice.
\<close>

definition coherent :: "ErrorEnvelope \<Rightarrow> bool" where
  "coherent e \<longleftrightarrow> audience e = audience_of (kind e) \<and> retryable e = retryable_of (kind e)
     \<and> opaque_guidance_ok (kind e) (suggest e) (see e)"

lemma coherent_for_kind [simp]: "coherent (for_kind k m)"
  by (simp add: coherent_def envelope_defs opaque_guidance_ok_def)

lemma coherent_rendered [simp]: "coherent (rendered k t fs)"
  by (simp add: coherent_def envelope_defs opaque_guidance_ok_def)

lemma coherent_rendered_with [simp]: "k \<noteq> Internal \<Longrightarrow> coherent (rendered_with k t fs sg se)"
  by (simp add: coherent_def envelope_defs opaque_guidance_ok_def)

lemma coherent_new [simp]: "k \<noteq> Internal \<Longrightarrow> coherent (envelope_new k m sg se)"
  by (simp add: coherent_def envelope_defs opaque_guidance_ok_def)

lemma coherent_with [simp]:
  "coherent (with_facts e fs) = coherent e" "coherent (with_trace_id e t) = coherent e"
  by (simp_all add: coherent_def with_facts_def with_trace_id_def)

lemma coherent_from_engine [simp]: "coherent (from_engine e)"
  by (cases e rule: from_engine.cases) (simp_all add: internal_error_def)

lemma coherent_cp_envelope [simp]: "coherent (cp_envelope e)"
  by (cases e rule: cp_envelope.cases) simp_all

lemma kind_simps [simp]:
  "kind (for_kind k m) = k" "kind (rendered k t fs) = k" "kind (rendered_with k t fs sg se) = k"
  "kind (envelope_new k m sg se) = k" "kind (with_facts e fs) = kind e"
  "kind (with_trace_id e tid) = kind e"
  by (simp_all add: envelope_defs with_facts_def)

section \<open>Properties\<close>

text \<open>Every failure the engine or the control plane can raise reaches the caller
  as a coherent envelope; an engine failure is called \<open>internal\<close> only when the engine could
  not classify it, and a cancelled statement is never reported as a timeout by this mapping.\<close>

lemma errors_are_classified:
  "coherent (from_engine e) \<and> coherent (cp_envelope c)
   \<and> (kind (from_engine e) = Internal \<longleftrightarrow> (\<exists>m. e = E_Engine m))
   \<and> (kind (from_engine e) = QueryTimeout \<longleftrightarrow> e = E_Timeout)
   \<and> (kind (from_engine e) = QueryCancelled \<longleftrightarrow> e = E_Cancelled)
   \<and> st_details (to_status c) = (cp_envelope c)\<lparr>env_trace_id := None\<rparr>
   \<and> st_message (to_status c) = message (cp_envelope c)"
proof -
  have k: "(kind (from_engine e) = Internal \<longleftrightarrow> (\<exists>m. e = E_Engine m))
   \<and> (kind (from_engine e) = QueryTimeout \<longleftrightarrow> e = E_Timeout)
   \<and> (kind (from_engine e) = QueryCancelled \<longleftrightarrow> e = E_Cancelled)"
    by (cases e rule: from_engine.cases) (simp_all add: internal_error_def)
  moreover have "st_details (to_status c) = (cp_envelope c)\<lparr>env_trace_id := None\<rparr>
   \<and> st_message (to_status c) = message (cp_envelope c)"
    by (simp add: to_status_def to_status_traced_def Let_def with_trace_id_def)
  ultimately show ?thesis by simp
qed

text \<open>The envelope of an allocation that was rolled back contradicts itself: its
  advice begins with \<open>Retry\<close> and says the name is free, while its machine-readable fields
  say the call must never be sent again and that only an operator can act.\<close>

lemma rolled_back_allocation_contradicts_itself:
  "let e = cp_envelope (CP_AllocationNotMaterialized name owner cause True)
   in starts_with (suggest e) ''Retry allocate_pond'' \<and> retryable e = Never \<and> audience e = Operator"
proof -
  have nb: "CHR ''{'' \<notin> set (''Retry allocate_pond (or `latiq pond create`) -- the failed attempt left nothing '' @
        ''behind, so the same name is free. If it keeps failing, that node is down: report '' @
        ''it to your operator.'')" by simp
  show ?thesis
    by (simp add: Let_def rendered_with_def render_facts_no_brace [OF nb, simplified] starts_with_def)
qed

end
