(* ===== verification/Trace.thy ===== *)
theory Trace
  imports Policy
begin

text \<open>
  W3C trace context (\<open>latiq-common/src/trace.rs\<close>): parsing an inbound \<open>traceparent\<close>,
  minting our own span under it, and printing the header of the next hop. The fresh UUIDs
  that \<open>hex32\<close> takes from \<open>PondId::new\<close> are arguments.
\<close>

record TraceContext =
  trace_id :: string
  span_id :: string
  sampled :: bool

definition hex32 :: "string \<Rightarrow> string" where
  "hex32 uuid = filter (\<lambda>c. c \<noteq> CHR ''-'') uuid"

definition is_lower_hex :: "string \<Rightarrow> nat \<Rightarrow> bool" where
  "is_lower_hex s len \<longleftrightarrow> length s = len \<and> list_all is_lower_hex_char s"

definition all_zero :: "string \<Rightarrow> bool" where
  "all_zero s \<longleftrightarrow> list_all (\<lambda>c. c = CHR ''0'') s"

definition trace_new :: "string \<Rightarrow> string \<Rightarrow> TraceContext" where
  "trace_new u1 u2 = \<lparr>trace_id = hex32 u1, span_id = take 16 (hex32 u2), sampled = True\<rparr>"

text \<open>\<open>u8::from_str_radix(flags, 16)\<close> on two lowercase hexadecimal digits.\<close>

definition hex_value :: "char \<Rightarrow> nat" where
  "hex_value c = (if is_ascii_digit c then code c - 48 else code c - 87)"

definition flags_value :: "string \<Rightarrow> nat" where
  "flags_value s = foldl (\<lambda>acc c. 16 * acc + hex_value c) 0 s"

definition trace_parse :: "string \<Rightarrow> string \<Rightarrow> TraceContext option" where
  "trace_parse uuid header =
     (case split_on (\<lambda>c. c = CHR ''-'') (trim header) of
        version # tid # parent_id # flags # extra \<Rightarrow>
          (if version = ''00'' \<and> extra \<noteq> [] then None
           else if \<not> is_lower_hex version 2 \<or> version = ''ff'' then None
           else if \<not> is_lower_hex tid 32 \<or> all_zero tid then None
           else if \<not> is_lower_hex parent_id 16 \<or> all_zero parent_id then None
           else if \<not> is_lower_hex flags 2 then None
           else Some \<lparr>trace_id = tid, span_id = take 16 (hex32 uuid),
                      sampled = odd (flags_value flags)\<rparr>)
      | _ \<Rightarrow> None)"

definition trace_inbound :: "string \<Rightarrow> string \<Rightarrow> string option \<Rightarrow> TraceContext" where
  "trace_inbound u1 u2 header =
     (case header of
        None \<Rightarrow> trace_new u1 u2
      | Some h \<Rightarrow> (case trace_parse u1 h of Some c \<Rightarrow> c | None \<Rightarrow> trace_new u1 u2))"

definition traceparent :: "TraceContext \<Rightarrow> string" where
  "traceparent c =
     ''00-'' @ trace_id c @ ''-'' @ span_id c @ ''-'' @ (if sampled c then ''01'' else ''00'')"

section \<open>Lemmas\<close>

text \<open>What \<open>Uuid::new_v4\<close> promises beyond the shape: the version digit is \<open>4\<close>.\<close>

definition is_uuid_v4 :: "string \<Rightarrow> bool" where
  "is_uuid_v4 s \<longleftrightarrow> is_uuid_text s \<and> s ! 14 = CHR ''4''"

definition trace_ok :: "TraceContext \<Rightarrow> bool" where
  "trace_ok c \<longleftrightarrow> is_lower_hex (trace_id c) 32 \<and> \<not> all_zero (trace_id c)
     \<and> is_lower_hex (span_id c) 16 \<and> \<not> all_zero (span_id c)"

lemma uuid_explode:
  assumes "length s = 36"
  shows "s = map ((!) s) [0..<36]"
  using assms by (metis map_nth)

lemma hex32_uuid:
  assumes "is_uuid_text s"
  shows "hex32 s = map ((!) s) (filter (\<lambda>i. i \<notin> {8, 13, 18, 23}) [0..<36])"
proof -
  have hexd: "is_lower_hex_char c \<Longrightarrow> c \<noteq> CHR ''-''" for c
    by (auto simp: is_lower_hex_char_def is_ascii_digit_def)
  have len: "length s = 36" using assms by (simp add: is_uuid_text_def)
  have "hex32 s = filter (\<lambda>c. c \<noteq> CHR ''-'') (map ((!) s) [0..<36])"
    unfolding hex32_def using uuid_explode [OF len] by simp
  also have "\<dots> = map ((!) s) (filter (\<lambda>i. s ! i \<noteq> CHR ''-'') [0..<36])"
    by (simp add: filter_map o_def)
  also have "filter (\<lambda>i. s ! i \<noteq> CHR ''-'') [0..<36] = filter (\<lambda>i. i \<notin> {8, 13, 18, 23}) [0..<36]"
  proof (rule filter_cong [OF refl])
    fix i assume "i \<in> set [0..<36::nat]"
    then have "if i \<in> {8, 13, 18, 23} then s ! i = CHR ''-'' else is_lower_hex_char (s ! i)"
      using assms unfolding is_uuid_text_def by blast
    then show "(s ! i \<noteq> CHR ''-'') = (i \<notin> {8, 13, 18, 23})" using hexd by (auto split: if_splits)
  qed
  finally show ?thesis .
qed

lemma hex32_is_hex: "is_uuid_text s \<Longrightarrow> is_lower_hex (hex32 s) 32"
proof -
  assume u: "is_uuid_text s"
  have "length (hex32 s) = 32"
  proof -
    have "length (filter (\<lambda>i::nat. i \<notin> {8, 13, 18, 23}) [0..<36]) = 32" by code_simp
    then show ?thesis using u by (simp add: hex32_uuid)
  qed
  moreover have "list_all is_lower_hex_char (hex32 s)"
    using uuid_text_chars [OF u] by (auto simp: hex32_def list_all_iff)
  ultimately show ?thesis by (simp add: is_lower_hex_def)
qed

lemma hex32_version_digit:
  assumes "is_uuid_v4 s"
  shows "hex32 s ! 12 = CHR ''4''"
proof -
  have u: "is_uuid_text s" and v: "s ! 14 = CHR ''4''" using assms by (auto simp: is_uuid_v4_def)
  have f: "filter (\<lambda>i::nat. i \<notin> {8, 13, 18, 23}) [0..<36] ! 12 = 14"
    "length (filter (\<lambda>i::nat. i \<notin> {8, 13, 18, 23}) [0..<36]) = 32" by code_simp+
  show ?thesis using u v f by (simp add: hex32_uuid)
qed

lemma span_of_uuid_ok:
  assumes "is_uuid_v4 s"
  shows "is_lower_hex (take 16 (hex32 s)) 16 \<and> \<not> all_zero (take 16 (hex32 s))"
proof -
  have h: "is_lower_hex (hex32 s) 32" using assms by (simp add: is_uuid_v4_def hex32_is_hex)
  then have "take 16 (hex32 s) ! 12 = CHR ''4''" "12 < length (take 16 (hex32 s))"
    using hex32_version_digit [OF assms] by (auto simp: is_lower_hex_def)
  then have "\<not> all_zero (take 16 (hex32 s))"
    unfolding all_zero_def list_all_length by force
  then show ?thesis using h by (auto simp: is_lower_hex_def list_all_iff dest: in_set_takeD)
qed

lemma trace_new_ok: "is_uuid_v4 u1 \<Longrightarrow> is_uuid_v4 u2 \<Longrightarrow> trace_ok (trace_new u1 u2)"
proof -
  assume u: "is_uuid_v4 u1" "is_uuid_v4 u2"
  have "is_lower_hex (hex32 u1) 32" using u(1) by (simp add: is_uuid_v4_def hex32_is_hex)
  moreover have "\<not> all_zero (hex32 u1)"
    using hex32_version_digit [OF u(1)] calculation
    unfolding all_zero_def list_all_length is_lower_hex_def by force
  ultimately show ?thesis using span_of_uuid_ok [OF u(2)] by (simp add: trace_ok_def trace_new_def)
qed

lemma trace_parse_ok:
  assumes "trace_parse u h = Some c" and "is_uuid_v4 u"
  shows "trace_ok c" and "span_id c = take 16 (hex32 u)"
  using assms span_of_uuid_ok [OF assms(2)]
  by (auto simp: trace_parse_def trace_ok_def split: list.splits if_splits)

lemma trace_inbound_ok: "is_uuid_v4 u1 \<Longrightarrow> is_uuid_v4 u2 \<Longrightarrow> trace_ok (trace_inbound u1 u2 h)"
  by (auto simp: trace_inbound_def trace_new_ok trace_parse_ok(1) split: option.splits)

lemma hex_no_dash: "is_lower_hex s n \<Longrightarrow> c \<in> set s \<Longrightarrow> c \<noteq> CHR ''-'' \<and> \<not> is_whitespace c"
  by (auto simp: is_lower_hex_def list_all_iff is_lower_hex_char_def char_class_defs)

lemma traceparent_fields:
  assumes "trace_ok c"
  shows "split_on (\<lambda>c. c = CHR ''-'') (trim (traceparent c)) =
    [''00'', trace_id c, span_id c, if sampled c then ''01'' else ''00'']"
proof -
  let ?fl = "if sampled c then ''01'' else ''00''"
  have nw: "\<forall>x \<in> set (traceparent c). \<not> is_whitespace x"
    using assms hex_no_dash by (auto simp: traceparent_def trace_ok_def is_whitespace_def)
  have "trim (traceparent c) = join ''-'' [''00'', trace_id c, span_id c, ?fl]"
    using nw by (simp add: trim_id traceparent_def)
  moreover have "\<forall>x \<in> set [''00'', trace_id c, span_id c, ?fl]. \<forall>d \<in> set x. \<not> d = CHR ''-''"
    using assms hex_no_dash by (auto simp: trace_ok_def)
  ultimately show ?thesis using split_on_join [of "[''00'', trace_id c, span_id c, ?fl]"] by simp
qed

lemma trace_parse_traceparent:
  assumes "trace_ok c"
  shows "trace_parse u (traceparent c) =
    Some \<lparr>trace_id = trace_id c, span_id = take 16 (hex32 u), sampled = sampled c\<rparr>"
proof -
  have fl: "is_lower_hex (if sampled c then ''01'' else ''00'') 2"
    "odd (flags_value (if sampled c then ''01'' else ''00'')) = sampled c"
    "is_lower_hex ''00'' 2"
    by (cases "sampled c"; simp; code_simp)+ code_simp
  show ?thesis
    using assms fl by (auto simp: trace_parse_def traceparent_fields trace_ok_def)
qed

section \<open>Properties\<close>

text \<open>One trace id follows a request through the cluster: whatever header a client
  sends (or none), the context in force is well formed, and the header the node puts on its
  next hop is accepted there with the same trace id and sampling flag and a span the receiver
  minted itself -- never the sender's.\<close>

lemma trace_id_survives_a_hop:
  assumes "is_uuid_v4 u1" and "is_uuid_v4 u2" and "is_uuid_v4 u3" and "is_uuid_v4 u4"
  shows "let c = trace_inbound u1 u2 header;
             d = trace_inbound u3 u4 (Some (traceparent c))
         in trace_ok c \<and> trace_ok d \<and> trace_id d = trace_id c \<and> sampled d = sampled c
            \<and> span_id d = take 16 (hex32 u3)"
proof -
  let ?c = "trace_inbound u1 u2 header"
  have c: "trace_ok ?c" using assms(1,2) by (rule trace_inbound_ok)
  have p: "trace_inbound u3 u4 (Some (traceparent ?c)) =
    \<lparr>trace_id = trace_id ?c, span_id = take 16 (hex32 u3), sampled = sampled ?c\<rparr>"
    using trace_parse_traceparent [OF c, of u3] by (simp add: trace_inbound_def)
  show ?thesis
    unfolding Let_def using c p span_of_uuid_ok [OF assms(3)] by (simp add: trace_ok_def)
qed

lemma trace_id_survives_a_hop_example:
  "trace_id (trace_inbound ''3f2a9c1e-0000-4a00-8000-abcdefabcdef'' ''00000000-0000-4000-8000-000000000001''
      (Some (traceparent (trace_inbound ''00000000-0000-4000-8000-000000000002'' ''00000000-0000-4000-8000-000000000003''
        (Some ''00-4bf92f3577b34da6a3ce929d0e0e4736-00f067aa0ba902b7-01'')))))
   = ''4bf92f3577b34da6a3ce929d0e0e4736''"
proof -
  have u: "is_uuid_v4 ''00000000-0000-4000-8000-000000000002''" "is_uuid_v4 ''00000000-0000-4000-8000-000000000003''"
    "is_uuid_v4 ''3f2a9c1e-0000-4a00-8000-abcdefabcdef''" "is_uuid_v4 ''00000000-0000-4000-8000-000000000001''"
    by code_simp+
  have "trace_id (trace_inbound ''00000000-0000-4000-8000-000000000002'' ''00000000-0000-4000-8000-000000000003''
        (Some ''00-4bf92f3577b34da6a3ce929d0e0e4736-00f067aa0ba902b7-01'')) = ''4bf92f3577b34da6a3ce929d0e0e4736''"
    by code_simp
  then show ?thesis
    using trace_id_survives_a_hop [OF u, of "Some ''00-4bf92f3577b34da6a3ce929d0e0e4736-00f067aa0ba902b7-01''"]
    unfolding Let_def by simp
qed

end
