(* ===== verification/Sql_Shape.thy ===== *)
theory Sql_Shape
  imports Prelude
begin

text \<open>
  The engine-neutral read/write classification of \<open>latiq-engine/src/sql.rs\<close>: a statement is
  a read when it starts with a read keyword and contains no data-modifying keyword between
  separators; text that starts with no known keyword is not called a write.
\<close>

datatype SqlShape = Read | Write | Unrecognized

definition READ_PREFIXES :: "string list" where
  "READ_PREFIXES = [''select'', ''with'', ''describe'', ''show'', ''explain'', ''pragma'',
     ''from'', ''table'', ''values'']"

definition WRITE_KEYWORDS :: "string list" where
  "WRITE_KEYWORDS =
     ['' insert '', '' update '', '' delete '', '' create '', '' drop '', '' alter '', '' truncate '',
      '' attach '', '' detach '', '' copy '', '' call '', '' install '', '' load '', '' replace '',
      '' analyze '', '' vacuum '', '' checkpoint '', '' begin '', '' commit '', '' rollback '',
      '' abort '', '' start transaction '', '' end transaction '']"

definition NON_READ_LEADING_KEYWORDS :: "string list" where
  "NON_READ_LEADING_KEYWORDS =
     [''insert'', ''update'', ''delete'', ''create'', ''drop'', ''alter'', ''truncate'', ''attach'',
      ''detach'', ''copy'', ''call'', ''install'', ''load'', ''replace'', ''analyze'', ''vacuum'',
      ''checkpoint'', ''begin'', ''commit'', ''rollback'', ''abort'', ''start'', ''end'', ''set'',
      ''reset'', ''use'', ''comment'', ''export'', ''import'', ''merge'', ''grant'', ''revoke'']"

definition leads_with_a_non_read_keyword :: "string \<Rightarrow> bool" where
  "leads_with_a_non_read_keyword lowered =
     (let ws = split_on (\<lambda>c. is_whitespace c \<or> c = CHR ''('' \<or> c = CHR '';'') lowered;
          first = (case List.find (\<lambda>w. w \<noteq> []) ws of Some w \<Rightarrow> w | None \<Rightarrow> [])
      in first \<in> set NON_READ_LEADING_KEYWORDS)"

definition scan_separator :: "char \<Rightarrow> bool" where
  "scan_separator c \<longleftrightarrow> c \<in> {newline, CHR 0x09, CHR ''('', CHR '')'', CHR '','', CHR '';''}"

definition normalized :: "string \<Rightarrow> string" where
  "normalized s = '' '' @ map (\<lambda>c. if scan_separator c then CHR '' '' else c) s @ '' ''"

definition classify :: "string \<Rightarrow> SqlShape" where
  "classify sql =
     (let s = to_lowercase (trim_start sql) in
      if \<not> list_ex (starts_with s) READ_PREFIXES then
        (if leads_with_a_non_read_keyword s then Write else Unrecognized)
      else if list_ex (contains_str (normalized s)) WRITE_KEYWORDS then Write
      else Read)"

definition is_read_only :: "string \<Rightarrow> bool" where
  "is_read_only sql \<longleftrightarrow> classify sql = Read"

section \<open>Lemmas\<close>

text \<open>A word boundary as the scan sees it: a separator, or the edge of the statement.\<close>

definition boundary :: "char \<Rightarrow> bool" where
  "boundary c \<longleftrightarrow> c = CHR '' '' \<or> scan_separator c"

definition ends_at_boundary :: "string \<Rightarrow> bool" where
  "ends_at_boundary a \<longleftrightarrow> a = [] \<or> boundary (last a)"

definition starts_at_boundary :: "string \<Rightarrow> bool" where
  "starts_at_boundary b \<longleftrightarrow> b = [] \<or> boundary (hd b)"

definition single_word_keywords :: "string list" where
  "single_word_keywords = map (butlast \<circ> tl) (filter (\<lambda>w. CHR '' '' \<notin> set (butlast (tl w))) WRITE_KEYWORDS)"

lemma single_word_keywords_eq:
  "single_word_keywords =
    [''insert'', ''update'', ''delete'', ''create'', ''drop'', ''alter'', ''truncate'', ''attach'',
     ''detach'', ''copy'', ''call'', ''install'', ''load'', ''replace'', ''analyze'', ''vacuum'',
     ''checkpoint'', ''begin'', ''commit'', ''rollback'', ''abort'']"
  by code_simp

lemma single_word_in_scan:
  "kw \<in> set single_word_keywords \<Longrightarrow> '' '' @ kw @ '' '' \<in> set WRITE_KEYWORDS"
  by (auto simp: single_word_keywords_eq WRITE_KEYWORDS_def)

lemma single_word_no_separator:
  "kw \<in> set single_word_keywords \<Longrightarrow> c \<in> set kw \<Longrightarrow> \<not> scan_separator c"
proof -
  have "\<forall>kw \<in> set single_word_keywords. \<forall>c \<in> set kw. \<not> scan_separator c"
    unfolding single_word_keywords_eq by code_simp
  then show "kw \<in> set single_word_keywords \<Longrightarrow> c \<in> set kw \<Longrightarrow> ?thesis" by blast
qed

abbreviation blank :: "char \<Rightarrow> char" where
  "blank c \<equiv> (if scan_separator c then CHR '' '' else c)"

lemma pre_boundary: "ends_at_boundary a \<Longrightarrow> \<exists>p. '' '' @ map blank a = p @ '' ''"
  by (cases a rule: rev_cases) (auto simp: ends_at_boundary_def boundary_def split: if_splits)

lemma post_boundary: "starts_at_boundary b \<Longrightarrow> \<exists>q. map blank b @ '' '' = '' '' @ q"
  by (cases b) (auto simp: starts_at_boundary_def boundary_def split: if_splits)

lemma scan_finds_delimited:
  assumes "ends_at_boundary a" and "starts_at_boundary b" and "\<forall>c \<in> set kw. \<not> scan_separator c"
  shows "contains_str (normalized (a @ kw @ b)) ('' '' @ kw @ '' '')"
proof -
  obtain p where p: "'' '' @ map blank a = p @ '' ''" using pre_boundary [OF assms(1)] by blast
  obtain q where q: "map blank b @ '' '' = '' '' @ q" using post_boundary [OF assms(2)] by blast
  have "map blank kw = kw" using assms(3) by (simp add: map_idI)
  then have "normalized (a @ kw @ b) = ('' '' @ map blank a) @ kw @ (map blank b @ '' '')"
    by (simp add: normalized_def)
  also have "\<dots> = p @ ('' '' @ kw @ '' '') @ q" unfolding p q by simp
  finally show ?thesis unfolding contains_str_iff by blast
qed

lemma classify_lowercase: "classify (to_lowercase s) = classify s"
proof -
  have "dropWhile is_whitespace (map lower_char s) = map lower_char (dropWhile is_whitespace s)" for s
    by (induction s) auto
  then have "to_lowercase (trim_start (to_lowercase s)) = to_lowercase (trim_start s)"
    by (simp add: trim_start_def to_lowercase_def)
  then show ?thesis by (simp add: classify_def)
qed

section \<open>Properties\<close>

text \<open>The read guard: whatever the case, wherever it stands, a data-modifying or
  transaction-control word set off by blanks, newlines, tabs, parentheses, commas, semicolons
  or the ends of the statement keeps the statement off the read path.\<close>

lemma delimited_write_keyword_is_not_read:
  assumes "kw \<in> set single_word_keywords"
    and "to_lowercase (trim_start sql) = a @ kw @ b"
    and "ends_at_boundary a" and "starts_at_boundary b"
  shows "classify sql \<noteq> Read \<and> \<not> is_read_only sql"
proof -
  have "contains_str (normalized (a @ kw @ b)) ('' '' @ kw @ '' '')"
    using assms(3,4) single_word_no_separator [OF assms(1)] by (intro scan_finds_delimited) auto
  then have "list_ex (contains_str (normalized (to_lowercase (trim_start sql)))) WRITE_KEYWORDS"
    using single_word_in_scan [OF assms(1)] assms(2) by (auto simp: list_ex_iff)
  then have "classify sql \<noteq> Read" by (simp add: classify_def Let_def)
  then show ?thesis by (simp add: is_read_only_def)
qed

lemma delimited_write_keyword_is_not_read_example:
  "classify ''SELECT 1;INSERT INTO t VALUES (1)'' \<noteq> Read"
proof -
  have k: "''insert'' \<in> set single_word_keywords" by (simp add: single_word_keywords_eq)
  have s: "to_lowercase (trim_start ''SELECT 1;INSERT INTO t VALUES (1)'') =
      ''select 1;'' @ ''insert'' @ '' into t values (1)''" by code_simp
  have a: "ends_at_boundary ''select 1;''" by code_simp
  have b: "starts_at_boundary '' into t values (1)''" by code_simp
  show ?thesis using delimited_write_keyword_is_not_read [OF k s a b] by simp
qed

text \<open>Where the guard stops: a carriage return, a form feed or a vertical tab is
  white space to SQL but not a separator of the scan, so a second statement placed after one
  is classified as a read, as is transaction control written this way.\<close>

lemma carriage_return_hides_a_write:
  "\<forall>ws \<in> {CHR 0x0D, CHR 0x0C, CHR 0x0B}.
     is_whitespace ws
     \<and> classify (''SELECT 1;'' @ [ws] @ ''DROP TABLE t'') = Read
     \<and> classify (''SELECT 1;'' @ [ws] @ ''COMMIT'') = Read
     \<and> classify (''SELECT 1;'' @ '' DROP TABLE t'') = Write"
proof -
  have "is_whitespace ws \<and> classify (''SELECT 1;'' @ [ws] @ ''DROP TABLE t'') = Read
     \<and> classify (''SELECT 1;'' @ [ws] @ ''COMMIT'') = Read
     \<and> classify (''SELECT 1;'' @ '' DROP TABLE t'') = Write"
    if "ws = CHR 0x0D \<or> ws = CHR 0x0C \<or> ws = CHR 0x0B" for ws
    using that by (elim disjE; simp only:; code_simp)
  then show ?thesis by blast
qed

lemma carriage_return_hides_a_write_example:
  "is_read_only (''SELECT 1;'' @ [CHR 0x0D] @ ''DROP TABLE t'')"
  using carriage_return_hides_a_write by (simp add: is_read_only_def)

text \<open>A statement is called a write only on evidence: either its first word is one
  of the listed non-read keywords, or it starts as a read and contains a scanned keyword.
  Text that starts with neither kind of keyword is \<open>Unrecognized\<close>, never a write.\<close>

lemma write_needs_evidence:
  "let s = to_lowercase (trim_start sql) in
   (classify sql = Write \<longleftrightarrow>
      (if list_ex (starts_with s) READ_PREFIXES
       then (\<exists>kw \<in> set WRITE_KEYWORDS. \<exists>a b. normalized s = a @ kw @ b)
       else leads_with_a_non_read_keyword s))
   \<and> (classify sql = Unrecognized \<longleftrightarrow>
        \<not> list_ex (starts_with s) READ_PREFIXES \<and> \<not> leads_with_a_non_read_keyword s)
   \<and> classify (to_lowercase sql) = classify sql"
  unfolding Let_def classify_lowercase
  by (auto simp: classify_def Let_def list_ex_iff contains_str_iff)

end
