(* ===== verification/Redact.thy ===== *)
theory Redact
  imports Prelude
begin

text \<open>
  The SQL text the core itself reads and writes (\<open>latiq-agent-core/src/ops.rs\<close>): the redaction
  of a statement for the access trail and the lineage record (comments dropped, string and
  numeric literals collapsed), and the statements built to load a dataset (quoting of
  identifiers and of the source URI).
\<close>

section \<open>Redaction\<close>

definition PARAMETERISED_TYPES :: "string list" where
  "PARAMETERISED_TYPES =
     [''DECIMAL'', ''DEC'', ''NUMERIC'', ''VARCHAR'', ''NVARCHAR'', ''CHAR'', ''CHARACTER'',
      ''VARYING'', ''BPCHAR'', ''TEXT'', ''STRING'', ''TIMESTAMP'', ''DATETIME'', ''BIT'',
      ''BITSTRING'', ''FLOAT'']"

definition is_parameterised_type :: "string \<Rightarrow> bool" where
  "is_parameterised_type word \<longleftrightarrow> list_ex (eq_ignore_ascii_case word) PARAMETERISED_TYPES"

text \<open>
  The body of a string literal, read from behind its opening quote: a doubled quote is an
  escaped one. \<open>copy_literal\<close> returns what is copied (closing quote included) and the rest.
\<close>

fun copy_literal :: "string \<Rightarrow> string \<times> string" where
  "copy_literal [] = ([], [])"
| "copy_literal [n] = ([n], [])"
| "copy_literal (n # m # cs) =
     (if n = apos then
        (if m = apos then (let (out, rest) = copy_literal cs in (apos # apos # out, rest))
         else ([apos], m # cs))
      else (let (out, rest) = copy_literal (m # cs) in (n # out, rest)))"

fun skip_literal :: "string \<Rightarrow> string" where
  "skip_literal [] = []"
| "skip_literal [n] = []"
| "skip_literal (n # m # cs) =
     (if n = apos then (if m = apos then skip_literal cs else m # cs)
      else skip_literal (m # cs))"

fun skip_line :: "string \<Rightarrow> string \<times> string" where
  "skip_line [] = ([], [])"
| "skip_line (n # cs) = (if n = newline then ([newline], cs) else skip_line cs)"

fun skip_block :: "char \<Rightarrow> string \<Rightarrow> string" where
  "skip_block prev [] = []"
| "skip_block prev (n # cs) = (if prev = CHR ''*'' \<and> n = CHR ''/'' then cs else skip_block n cs)"

lemma copy_literal_length: "length (snd (copy_literal s)) \<le> length s"
  by (induction s rule: copy_literal.induct) (auto split: prod.splits)

lemma skip_literal_length: "length (skip_literal s) \<le> length s"
  by (induction s rule: skip_literal.induct) auto

lemma skip_line_length: "length (snd (skip_line s)) \<le> length s"
  by (induction s) auto

lemma skip_block_length: "length (skip_block p s) \<le> length s"
  by (induction p s rule: skip_block.induct) auto

function strip_sql_comments :: "string \<Rightarrow> string" where
  "strip_sql_comments [] = []"
| "strip_sql_comments (c # cs) =
     (if c = apos then
        (let (out, rest) = copy_literal cs in apos # out @ strip_sql_comments rest)
      else if c = CHR ''-'' \<and> starts_with cs ''-'' then
        (let (out, rest) = skip_line cs in out @ strip_sql_comments rest)
      else if c = CHR ''/'' \<and> starts_with cs ''*'' then
        CHR '' '' # strip_sql_comments (skip_block (CHR 0x00) (tl cs))
      else c # strip_sql_comments cs)"
  by pat_completeness auto
termination
proof (relation "measure length", goal_cases)
  case (2 c cs x xa y)
  then show ?case using copy_literal_length [of cs] by (metis in_measure le_imp_less_Suc list.size(4) add.right_neutral add_Suc_right snd_conv)
next
  case (3 c cs x xa y)
  then show ?case using skip_line_length [of cs] by (metis in_measure le_imp_less_Suc list.size(4) add.right_neutral add_Suc_right snd_conv)
next
  case (4 c cs)
  have "length (skip_block (CHR 0x00) (tl cs)) \<le> length cs"
    by (rule order_trans [OF skip_block_length]) simp
  then show ?case by simp
qed auto

declare strip_sql_comments.simps(2) [simp del]

text \<open>The scanner's state between characters.\<close>

record scan =
  prev_ident :: bool
  word_run :: string
  type_word_pending :: bool
  in_type_params :: bool

definition scan_init :: scan where
  "scan_init = \<lparr>prev_ident = False, word_run = [], type_word_pending = False, in_type_params = False\<rparr>"

definition after_literal :: "scan \<Rightarrow> scan" where
  "after_literal st = st\<lparr>prev_ident := False, word_run := [], type_word_pending := False\<rparr>"

definition ident_char :: "char \<Rightarrow> bool" where
  "ident_char c \<longleftrightarrow> is_ascii_alphanumeric c \<or> c = CHR ''_''"

definition scan_char :: "scan \<Rightarrow> char \<Rightarrow> scan" where
  "scan_char st c =
     (if ident_char c then st\<lparr>prev_ident := True, word_run := word_run st @ [c]\<rparr>
      else
        (let pend = (if word_run st \<noteq> [] then is_parameterised_type (word_run st)
                     else type_word_pending st);
             st = st\<lparr>prev_ident := False, word_run := [], type_word_pending := pend\<rparr>
         in if c = CHR ''('' then st\<lparr>in_type_params := pend, type_word_pending := False\<rparr>
            else if c = CHR '')'' then st\<lparr>in_type_params := False, type_word_pending := False\<rparr>
            else if \<not> is_whitespace c then st\<lparr>type_word_pending := False\<rparr>
            else st))"

function redact_loop :: "scan \<Rightarrow> string \<Rightarrow> string" where
  "redact_loop st [] = []"
| "redact_loop st (c # cs) =
     (if c = apos then CHR ''?'' # redact_loop (after_literal st) (skip_literal cs)
      else if is_ascii_digit c \<and> \<not> prev_ident st \<and> \<not> in_type_params st then
        CHR ''?'' # redact_loop (after_literal st)
          (dropWhile (\<lambda>n. is_ascii_digit n \<or> n = CHR ''.'') cs)
      else c # redact_loop (scan_char st c) cs)"
  by pat_completeness auto
termination
  by (relation "measure (length \<circ> snd)")
     (auto simp: less_Suc_eq_le skip_literal_length length_dropWhile_le)

declare redact_loop.simps(2) [simp del]

definition redact_sql :: "string \<Rightarrow> string" where
  "redact_sql sql = redact_loop scan_init (strip_sql_comments sql)"

section \<open>Dataset-load statements\<close>

definition quote_ident :: "string \<Rightarrow> string" where
  "quote_ident name = [dquote] @ replace_char dquote [dquote, dquote] name @ [dquote]"

definition create_schema_sql :: "string \<Rightarrow> string" where
  "create_schema_sql schema = ''CREATE SCHEMA IF NOT EXISTS '' @ quote_ident schema"

definition dataset_reader :: "string \<Rightarrow> string \<Rightarrow> string" where
  "dataset_reader source_uri fmt =
     (let f = to_lowercase (trim fmt) in
      if f = ''csv'' then ''read_csv_auto''
      else if f = ''json'' then ''read_json_auto''
      else if f = ''parquet'' then ''read_parquet''
      else
        (let u = to_lowercase source_uri in
         if ends_with u ''.csv'' then ''read_csv_auto''
         else if ends_with u ''.json'' \<or> ends_with u ''.ndjson'' then ''read_json_auto''
         else ''read_parquet''))"

definition dataset_load_sql :: "string \<Rightarrow> string \<Rightarrow> string \<Rightarrow> string \<Rightarrow> string" where
  "dataset_load_sql schema table_name source_uri fmt =
     ''CREATE OR REPLACE TABLE '' @ (quote_ident schema @ ''.'' @ quote_ident table_name) @
     '' AS SELECT * FROM '' @ dataset_reader source_uri fmt @
     ''('' @ [apos] @ replace_char apos [apos, apos] source_uri @ [apos] @ '')''"

section \<open>Lemmas on redaction\<close>

lemma skip_literal_copy: "snd (copy_literal s) = skip_literal s"
  by (induction s rule: copy_literal.induct) (auto split: prod.splits)

definition escape :: "string \<Rightarrow> string" where
  "escape x = replace_char apos [apos, apos] x"

lemma escape_simps [simp]: "escape [] = []" "escape (c # s) = (if c = apos then [apos, apos] else [c]) @ escape s"
  by (simp_all add: escape_def)

lemma skip_literal_escape:
  assumes "\<not> starts_with rest [apos]"
  shows "skip_literal (escape x @ apos # rest) = rest"
proof (induction x)
  case Nil
  show ?case using assms by (cases rest) (auto simp: starts_with_def)
next
  case (Cons c x)
  then show ?case by (cases "escape x @ apos # rest") auto
qed

lemma copy_literal_escape:
  assumes "\<not> starts_with rest [apos]"
  shows "copy_literal (escape x @ apos # rest) = (escape x @ [apos], rest)"
proof (induction x)
  case Nil
  show ?case using assms by (cases rest) (auto simp: starts_with_def)
next
  case (Cons c x)
  then show ?case by (cases "escape x @ apos # rest") auto
qed

text \<open>
  A statement as a reader sees it: plain text without quotes or comment openers, string
  literals, and a rest. Two literals are separated by plain text.
\<close>

definition plain :: "string \<Rightarrow> bool" where
  "plain a \<longleftrightarrow> apos \<notin> set a \<and> \<not> contains_str a ''--'' \<and> \<not> contains_str a ''/*''"

fun build :: "(string \<times> string) list \<Rightarrow> string \<Rightarrow> string" where
  "build [] rest = rest"
| "build ((a, x) # segs) rest = a @ apos # escape x @ apos # build segs rest"

definition segs_ok :: "(string \<times> string) list \<Rightarrow> string \<Rightarrow> bool" where
  "segs_ok segs rest \<longleftrightarrow> list_all plain (map fst segs) \<and>
     list_all (\<lambda>a. a \<noteq> []) (tl (map fst segs)) \<and> \<not> starts_with rest [apos]"

lemma segs_ok_fst: "map fst segs = map fst segs' \<Longrightarrow> segs_ok segs rest = segs_ok segs' rest"
  by (simp only: segs_ok_def)

lemma plain_Cons: "plain (c # a) \<Longrightarrow> plain a \<and> c \<noteq> apos
    \<and> \<not> (c = CHR ''-'' \<and> starts_with a ''-'') \<and> \<not> (c = CHR ''/'' \<and> starts_with a ''*'')"
  by (auto simp: plain_def starts_with_def)

lemma strip_plain: "plain a \<Longrightarrow> strip_sql_comments (a @ apos # t) = a @ strip_sql_comments (apos # t)"
proof (induction a)
  case (Cons c a)
  have p: "plain a" "c \<noteq> apos" "\<not> (c = CHR ''-'' \<and> starts_with a ''-'')"
    "\<not> (c = CHR ''/'' \<and> starts_with a ''*'')"
    using plain_Cons [OF Cons.prems] by auto
  have "\<not> (c = CHR ''-'' \<and> starts_with (a @ apos # t) ''-'')"
    "\<not> (c = CHR ''/'' \<and> starts_with (a @ apos # t) ''*'')"
    using p(3,4) by (cases a; auto simp: starts_with_def)+
  then have "strip_sql_comments (c # a @ apos # t) = c # strip_sql_comments (a @ apos # t)"
    using p(2) by (subst strip_sql_comments.simps(2)) auto
  then show ?case using p(1) Cons.IH by simp
qed simp

lemma strip_literal:
  assumes "\<not> starts_with rest [apos]"
  shows "strip_sql_comments (apos # escape x @ apos # rest) =
    apos # escape x @ apos # strip_sql_comments rest"
  using copy_literal_escape [OF assms, of x] by (simp add: strip_sql_comments.simps(2))

lemma segs_ok_tail:
  assumes "segs_ok ((a, x) # segs) rest"
  shows "plain a" and "segs_ok segs rest" and "\<not> starts_with (build segs rest) [apos]"
proof -
  show "plain a" using assms by (simp add: segs_ok_def)
  show "segs_ok segs rest" using assms by (cases segs) (auto simp: segs_ok_def)
  show "\<not> starts_with (build segs rest) [apos]"
  proof (cases segs)
    case Nil
    then show ?thesis using assms by (simp add: segs_ok_def)
  next
    case (Cons s segs')
    obtain b y where s: "s = (b, y)" by (cases s)
    then have "b \<noteq> []" "apos \<notin> set b" using assms Cons by (auto simp: segs_ok_def plain_def)
    then show ?thesis using Cons s by (cases b) (auto simp: starts_with_def)
  qed
qed

lemma strip_build:
  "segs_ok segs rest \<Longrightarrow> strip_sql_comments (build segs rest) = build segs (strip_sql_comments rest)"
proof (induction segs)
  case (Cons s segs)
  obtain a x where s: "s = (a, x)" by (cases s)
  have t: "plain a" "segs_ok segs rest" "\<not> starts_with (build segs rest) [apos]"
    using segs_ok_tail Cons.prems s by auto
  show ?case using Cons.IH [OF t(2)] strip_plain [OF t(1)] strip_literal [OF t(3)] s by simp
qed simp

text \<open>Scanning plain text up to a literal: the state reached and what was emitted.\<close>

function scan_plain :: "scan \<Rightarrow> string \<Rightarrow> string \<times> scan" where
  "scan_plain st [] = ([], st)"
| "scan_plain st (c # cs) =
     (if is_ascii_digit c \<and> \<not> prev_ident st \<and> \<not> in_type_params st then
        (let (out, st') = scan_plain (after_literal st)
            (dropWhile (\<lambda>n. is_ascii_digit n \<or> n = CHR ''.'') cs) in (CHR ''?'' # out, st'))
      else (let (out, st') = scan_plain (scan_char st c) cs in (c # out, st')))"
  by pat_completeness auto
termination
  by (relation "measure (length \<circ> snd)") (auto simp: less_Suc_eq_le length_dropWhile_le)

declare scan_plain.simps(2) [simp del]

lemma dropWhile_before_quote:
  "apos \<notin> set a \<Longrightarrow> dropWhile (\<lambda>n. is_ascii_digit n \<or> n = CHR ''.'') (a @ apos # t)
     = dropWhile (\<lambda>n. is_ascii_digit n \<or> n = CHR ''.'') a @ apos # t"
  by (induction a) (auto simp: is_ascii_digit_def)

lemma redact_plain:
  "apos \<notin> set a \<Longrightarrow> redact_loop st (a @ apos # t)
     = fst (scan_plain st a) @ redact_loop (snd (scan_plain st a)) (apos # t)"
proof (induction st a rule: scan_plain.induct)
  case (2 st c cs)
  have c: "c \<noteq> apos" "apos \<notin> set cs" using "2.prems" by auto
  have nd: "apos \<notin> set (dropWhile (\<lambda>n. is_ascii_digit n \<or> n = CHR ''.'') cs)"
    using c(2) set_dropWhileD by fast
  show ?case
  proof (cases "is_ascii_digit c \<and> \<not> prev_ident st \<and> \<not> in_type_params st")
    case True
    then show ?thesis
      using "2.IH"(1) [OF True nd] c
      by (simp add: redact_loop.simps(2) scan_plain.simps(2) dropWhile_before_quote split: prod.splits)
  next
    case False
    then show ?thesis
      using "2.IH"(2) [OF False c(2)] c
      by (auto simp: redact_loop.simps(2) scan_plain.simps(2) split: prod.splits)
  qed
qed simp

lemma redact_seg:
  assumes "apos \<notin> set a" and "\<not> starts_with t [apos]"
  shows "redact_loop st (a @ apos # escape x @ apos # t)
     = fst (scan_plain st a) @ CHR ''?'' # redact_loop (after_literal (snd (scan_plain st a))) t"
  using redact_plain [OF assms(1)] skip_literal_escape [OF assms(2)]
  by (simp add: redact_loop.simps(2))

lemma redact_build:
  assumes "segs_ok segs r" and "map fst segs = map fst segs'"
  shows "redact_loop st (build segs r) = redact_loop st (build segs' r)"
  using assms
proof (induction segs arbitrary: segs' st)
  case (Cons s segs)
  obtain a x where s: "s = (a, x)" by (cases s)
  obtain y ys where s': "segs' = (a, y) # ys" "map fst segs = map fst ys"
    using Cons.prems(2) s by (cases segs') auto
  have t: "plain a" "segs_ok segs r" "\<not> starts_with (build segs r) [apos]"
    using segs_ok_tail Cons.prems(1) s by auto
  have t': "\<not> starts_with (build ys r) [apos]"
    using segs_ok_tail(3) [of a y ys r] segs_ok_fst [OF Cons.prems(2)] Cons.prems(1) s'(1) by simp
  have np: "apos \<notin> set a" using t(1) by (simp add: plain_def)
  show ?case
    using Cons.IH [OF t(2) s'(2)] redact_seg [OF np t(3)] redact_seg [OF np t']
    by (simp add: s s'(1))
qed simp

lemma redact_loop_no_quote: "apos \<notin> set (redact_loop st s)"
  by (induction st s rule: redact_loop.induct) (auto simp: redact_loop.simps(2))

lemma skip_line_out: "skip_line s = ([newline], snd (skip_line s)) \<or> skip_line s = ([], [])"
  by (induction s) auto

lemma strip_not_quote: "\<not> starts_with s [apos] \<Longrightarrow> \<not> starts_with (strip_sql_comments s) [apos]"
proof (cases s)
  case (Cons c cs)
  assume "\<not> starts_with s [apos]"
  then have "c \<noteq> apos" using Cons by (simp add: starts_with_def)
  then show ?thesis
    using skip_line_out [of cs] Cons
    by (subst Cons, subst strip_sql_comments.simps(2))
       (auto simp: starts_with_def split: prod.splits)
qed (simp add: starts_with_def)

section \<open>Lemmas on quoting\<close>

text \<open>How SQL reads a quoted identifier or literal back, from behind its opening quote.\<close>

fun read_quoted :: "char \<Rightarrow> string \<Rightarrow> (string \<times> string) option" where
  "read_quoted q [] = None"
| "read_quoted q [c] = (if c = q then Some ([], []) else None)"
| "read_quoted q (c # d # cs) =
     (if c = q then
        (if d = q then map_option (\<lambda>(w, r). (q # w, r)) (read_quoted q cs)
         else Some ([], d # cs))
      else map_option (\<lambda>(w, r). (c # w, r)) (read_quoted q (d # cs)))"

lemma read_quoted_replace:
  assumes "\<not> starts_with rest [q]"
  shows "read_quoted q (replace_char q [q, q] name @ q # rest) = Some (name, rest)"
proof (induction name)
  case Nil
  show ?case using assms by (cases rest) (auto simp: starts_with_def)
next
  case (Cons c name)
  then show ?case by (cases "replace_char q [q, q] name @ q # rest") auto
qed

definition reads_ident :: "string \<Rightarrow> (string \<times> string) option" where
  "reads_ident s = (case s of c # cs \<Rightarrow> if c = dquote then read_quoted dquote cs else None | [] \<Rightarrow> None)"

definition reads_literal :: "string \<Rightarrow> (string \<times> string) option" where
  "reads_literal s = (case s of c # cs \<Rightarrow> if c = apos then read_quoted apos cs else None | [] \<Rightarrow> None)"

lemma reads_quote_ident: "\<not> starts_with rest [dquote] \<Longrightarrow> reads_ident (quote_ident n @ rest) = Some (n, rest)"
  by (simp add: reads_ident_def quote_ident_def read_quoted_replace)

lemma drop_prefix: "drop (length p) (p @ s) = s"
  by simp

section \<open>Properties\<close>

text \<open>C37. Redaction hides every single-quoted literal of a statement whose other text is plain: up to the
  last literal it holds no apostrophe and opens no comment, and no two literals touch. Two statements
  with the same such text around their literals have the same redaction, whatever the literals hold,
  quotes included, and no redacted text contains a quote. (Literals quoted with dollars, and those after
  an apostrophe in a quoted name or a comment, are outside this and do leak.)\<close>

theorem redaction_hides_literals:
  assumes "segs_ok segs rest" and "map fst segs' = map fst segs"
  shows "redact_sql (build segs rest) = redact_sql (build segs' rest)
    \<and> apos \<notin> set (redact_sql (build segs rest))"
proof -
  have ok': "segs_ok segs' rest" using segs_ok_fst assms by blast
  have okr: "segs_ok segs (strip_sql_comments rest)"
    using assms(1) strip_not_quote by (simp add: segs_ok_def)
  have "redact_sql (build segs rest) = redact_sql (build segs' rest)"
    unfolding redact_sql_def strip_build [OF assms(1)] strip_build [OF ok']
    using redact_build [OF okr assms(2) [symmetric]] by simp
  then show ?thesis by (simp add: redact_sql_def redact_loop_no_quote)
qed

lemmas redact_eval = redact_sql_def strip_sql_comments.simps redact_loop.simps scan_init_def
  scan_char_def after_literal_def ident_char_def is_parameterised_type_def
  PARAMETERISED_TYPES_def eq_ignore_ascii_case_def starts_with_def char_class_defs

theorem redaction_hides_literals_witness:
  "redact_sql (build [(''SELECT * FROM t1 WHERE a='', ''secret'')] '' AND b=7'') = ''SELECT * FROM t1 WHERE a=? AND b=?''"
proof -
  have ok: "segs_ok [(''SELECT * FROM t1 WHERE a='', ''secret'')] '' AND b=7''" by code_simp
  have eq: "redact_sql (build [(''SELECT * FROM t1 WHERE a='', ''secret'')] '' AND b=7'') =
    redact_sql (build [(''SELECT * FROM t1 WHERE a='', [])] '' AND b=7'')"
    using redaction_hides_literals [OF ok, of "[(''SELECT * FROM t1 WHERE a='', [])]"] by simp
  have "redact_sql (build [(''SELECT * FROM t1 WHERE a='', [])] '' AND b=7'') = ''SELECT * FROM t1 WHERE a=? AND b=?''"
    by (simp add: redact_eval)
  with eq show ?thesis by simp
qed

text \<open>Where redaction leaks: a quote inside a double-quoted identifier is taken for
  the start of a literal, so the value that follows is printed; a dollar-quoted string and the
  tail of a number with an underscore, a hexadecimal prefix or an exponent are printed too.\<close>

lemma redaction_leaks:
  "redact_sql (''SELECT '' @ [dquote] @ ''o'' @ [apos] @ ''c'' @ [dquote] @ '' FROM t WHERE p='' @ [apos] @ ''hunter'' @ [apos])
     = ''SELECT '' @ [dquote] @ ''o?hunter?''
   \<and> redact_sql ''SELECT $$hunter$$'' = ''SELECT $$hunter$$''
   \<and> redact_sql ''SELECT 1_234'' = ''SELECT ?_234''
   \<and> redact_sql ''SELECT 0xBEEF'' = ''SELECT ?xBEEF''"
  by (intro conjI; simp add: redact_eval)

text \<open>Loading a dataset builds one statement: read back by SQL's quoting rules, the
  generated text names exactly the given schema and table, reads exactly the given URI with
  one of the three readers, and nothing is left over -- no name or URI can break out of its
  quotes.\<close>

lemma dataset_load_sql_is_injection_free:
  "\<exists>r1 r2 r3.
     reads_ident (drop (length ''CREATE OR REPLACE TABLE '') (dataset_load_sql sch tab uri fmt)) = Some (sch, CHR ''.'' # r1)
   \<and> reads_ident r1 = Some (tab, '' AS SELECT * FROM '' @ dataset_reader uri fmt @ ''('' @ r2)
   \<and> reads_literal r2 = Some (uri, r3) \<and> r3 = '')''
   \<and> dataset_reader uri fmt \<in> {''read_csv_auto'', ''read_json_auto'', ''read_parquet''}
   \<and> reads_ident (drop (length ''CREATE SCHEMA IF NOT EXISTS '') (create_schema_sql sch)) = Some (sch, [])"
proof -
  let ?r2 = "apos # replace_char apos [apos, apos] uri @ apos # '')''"
  let ?r1 = "quote_ident tab @ '' AS SELECT * FROM '' @ dataset_reader uri fmt @ ''('' @ ?r2"
  have d: "dataset_load_sql sch tab uri fmt = ''CREATE OR REPLACE TABLE '' @ (quote_ident sch @ CHR ''.'' # ?r1)"
    by (simp add: dataset_load_sql_def)
  have 1: "reads_ident (drop (length ''CREATE OR REPLACE TABLE '') (dataset_load_sql sch tab uri fmt)) = Some (sch, CHR ''.'' # ?r1)"
    unfolding d drop_prefix by (rule reads_quote_ident) (simp add: starts_with_def)
  have 2: "reads_ident ?r1 = Some (tab, '' AS SELECT * FROM '' @ dataset_reader uri fmt @ ''('' @ ?r2)"
    by (rule reads_quote_ident) (simp add: starts_with_def)
  have 3: "reads_literal ?r2 = Some (uri, '')'')"
    by (simp add: reads_literal_def read_quoted_replace starts_with_def)
  have 4: "dataset_reader uri fmt \<in> {''read_csv_auto'', ''read_json_auto'', ''read_parquet''}"
    by (simp add: dataset_reader_def Let_def)
  have 5: "reads_ident (drop (length ''CREATE SCHEMA IF NOT EXISTS '') (create_schema_sql sch)) = Some (sch, [])"
    unfolding create_schema_sql_def drop_prefix using reads_quote_ident [of "[]" sch]
    by (simp add: starts_with_def)
  show ?thesis using 1 2 3 4 5 by blast
qed

end
