(* ===== verification/Registry.thy ===== *)
theory Registry
  imports Extensions Error_Mapping
begin

text \<open>
  The control plane's system of record (\<open>latiq-control-plane/src/registry.rs\<close>): nodes, ponds,
  datasets, external catalogs and policy, in the tables that \<open>migrations.rs\<close> creates.

  The registry is one DuckDB connection behind a mutex, so its methods run one after the
  other; each is a function from the registry's state to a result and the next state. A
  table is the list of its rows, in insertion order. The SQL statements of the source are
  translated to list operations with their constraints: a violated primary key or unique
  constraint is an error of the statement. A query with \<open>LIMIT 1\<close> and no order takes the
  first matching row.

  What the methods take from outside is an argument: \<open>now\<close> (the database clock, in
  microseconds), the generated UUID, the random draw of \<open>ORDER BY random()\<close>, the JSON codec,
  and \<open>f :: fault\<close>, the error of the i-th statement of the call, if it fails. Timestamps
  rendered with \<open>::VARCHAR\<close> are kept as numbers. \<open>CHECKPOINT\<close> (whose result is ignored) and
  the metrics counters do not change the state.
\<close>

named_theorems registry_ops \<open>definitions of the registry's methods\<close>

section \<open>Rows (registry.rs, migrations.rs)\<close>

record NodeRec =
  n_id :: string
  mcp_endpoint :: string
  internal_endpoint :: string
  capacity :: "32 word"
  n_state :: string
  last_heartbeat :: int

record NodeRow =
  nr_node_id :: string
  nr_mcp_endpoint :: string
  nr_internal_endpoint :: string
  nr_capacity :: "32 word"
  nr_pond_count :: "32 word"
  nr_state :: string
  nr_last_heartbeat :: int
  nr_heartbeat_age_seconds :: int

record ForgottenPond =
  fp_pond_id :: string
  fp_name :: string
  fp_node_id :: string
  fp_node_state :: string

text \<open>A row of the table \<open>ponds\<close>. The columns added by later migrations are nullable.\<close>

record PondRec =
  p_id :: string
  p_name :: string
  p_owner_identity :: string
  p_node_id :: string
  p_policy_json :: string
  p_created_at :: int
  p_tier :: "string option"
  p_extensions :: "string option"
  p_description :: "string option"
  p_lineage :: "bool option"

record PondRow =
  pond_id :: string
  pond_name :: string
  owner_identity :: string
  node_id :: string
  tier :: string
  extensions :: "string list"
  description :: string
  lineage :: bool

record DatasetTableRow =
  table_name :: string
  source_uri :: string
  format :: string

record DatasetRow =
  ds_name :: string
  ds_description :: string
  ds_tags :: "string list"
  ds_tables :: "DatasetTableRow list"
  ds_created_by :: string
  ds_created_at :: int

type_synonym params = "(string, string) btree"

record CatalogRow =
  ca_name :: string
  ca_type :: string
  ca_params :: params
  ca_description :: string
  ca_tags :: "string list"
  ca_created_by :: string
  ca_created_at :: int

text \<open>The tables \<open>datasets\<close> and \<open>catalogs\<close>: name, description, ... as stored.\<close>

record DatasetRec =
  d_name :: string
  d_description :: string
  d_created_by :: string
  d_created_at :: int

record CatalogRec =
  c_name :: string
  c_type :: string
  c_params_json :: string
  c_description :: string
  c_created_by :: string
  c_created_at :: int

record registry =
  nodes :: "NodeRec list"
  ponds :: "PondRec list"
  datasets :: "DatasetRec list"
  dataset_tables :: "(string \<times> DatasetTableRow) list"
  dataset_tags :: "(string \<times> string) list"
  catalogs :: "CatalogRec list"
  catalog_tags :: "(string \<times> string) list"
  policy :: "(string \<times> string) list"

section \<open>Statements\<close>

type_synonym fault = "nat \<Rightarrow> string option"

definition no_fault :: fault where
  "no_fault = (\<lambda>_. None)"

type_synonym 'a reply = "(ControlPlaneError, 'a) result \<times> registry"

text \<open>A statement that fails with the database's error, leaving the state as it is.\<close>

definition stmt :: "fault \<Rightarrow> nat \<Rightarrow> registry \<Rightarrow> 'a reply \<Rightarrow> 'a reply" where
  "stmt f i r k = (case f i of Some e \<Rightarrow> (Err (CP_Storage e), r) | None \<Rightarrow> k)"

text \<open>
  \<open>in_txn\<close>: BEGIN (statement 0), the statements of the body (from 1), COMMIT. A failed
  statement rolls back, and a failed COMMIT commits nothing.
\<close>

fun run_stmts :: "fault \<Rightarrow> nat \<Rightarrow> (registry \<Rightarrow> (string, registry) result) list \<Rightarrow> registry
    \<Rightarrow> (string, nat \<times> registry) result" where
  "run_stmts f i [] r = Ok (i, r)"
| "run_stmts f i (s # ss) r =
     (case f i of
        Some e \<Rightarrow> Err e
      | None \<Rightarrow> (case s r of Inl e \<Rightarrow> Err e | Inr r' \<Rightarrow> run_stmts f (Suc i) ss r'))"

definition in_txn :: "fault \<Rightarrow> (registry \<Rightarrow> (string, registry) result) list \<Rightarrow> registry \<Rightarrow> unit reply" where
  "in_txn f body r =
     (case f 0 of
        Some e \<Rightarrow> (Err (CP_Storage e), r)
      | None \<Rightarrow> (case run_stmts f 1 body r of
          Inl e \<Rightarrow> (Err (CP_Storage e), r)
        | Inr (i, r') \<Rightarrow> (case f i of
            Some e \<Rightarrow> (Err (CP_Storage e), r)
          | None \<Rightarrow> (Ok (), r'))))"

definition constraint_error :: string where
  "constraint_error = ''Constraint Error: Duplicate key''"

section \<open>Nodes\<close>

definition register_node :: "fault \<Rightarrow> int \<Rightarrow> string \<Rightarrow> string \<Rightarrow> string \<Rightarrow> 32 word \<Rightarrow> registry \<Rightarrow> unit reply" where
  "register_node f now nid mcp internal cap r =
     stmt f 0 r (Ok (),
       r\<lparr>nodes :=
           (if nid \<in> n_id ` set (nodes r)
            then map (\<lambda>n. if n_id n = nid
                           then n\<lparr>mcp_endpoint := mcp, internal_endpoint := internal, capacity := cap,
                                  last_heartbeat := now, n_state := ''active''\<rparr>
                           else n) (nodes r)
            else nodes r @ [\<lparr>n_id = nid, mcp_endpoint = mcp, internal_endpoint = internal,
                              capacity = cap, n_state = ''active'', last_heartbeat = now\<rparr>])\<rparr>)"

definition heartbeat :: "fault \<Rightarrow> int \<Rightarrow> string \<Rightarrow> 32 word \<Rightarrow> registry \<Rightarrow> unit reply" where
  "heartbeat f now nid pond_count r =
     stmt f 0 r
       (if nid \<notin> n_id ` set (nodes r) then (Err (CP_NodeNotFound nid), r)
        else (Ok (), r\<lparr>nodes := map (\<lambda>n. if n_id n = nid
                                            then n\<lparr>last_heartbeat := now, n_state := ''active''\<rparr>
                                            else n) (nodes r)\<rparr>))"

definition is_stale :: "int \<Rightarrow> 32 word \<Rightarrow> NodeRec \<Rightarrow> bool" where
  "is_stale now ttl_secs n \<longleftrightarrow>
     n_state n = ''active'' \<and> last_heartbeat n < now - uint ttl_secs * 1000000"

definition reap_stale_nodes :: "fault \<Rightarrow> int \<Rightarrow> 32 word \<Rightarrow> registry \<Rightarrow> nat reply" where
  "reap_stale_nodes f now ttl_secs r =
     stmt f 0 r (Ok (length (filter (is_stale now ttl_secs) (nodes r))),
       r\<lparr>nodes := map (\<lambda>n. if is_stale now ttl_secs n then n\<lparr>n_state := ''down''\<rparr> else n) (nodes r)\<rparr>)"

text \<open>\<open>date_diff('second', a, b)\<close> counts the second boundaries between the two instants.\<close>

definition date_diff_second :: "int \<Rightarrow> int \<Rightarrow> int" where
  "date_diff_second a b = b div 1000000 - a div 1000000"

definition pond_count_of :: "registry \<Rightarrow> string \<Rightarrow> nat" where
  "pond_count_of r nid = length (filter (\<lambda>p. p_node_id p = nid) (ponds r))"

definition list_nodes :: "fault \<Rightarrow> int \<Rightarrow> registry \<Rightarrow> NodeRow list reply" where
  "list_nodes f now r =
     stmt f 0 r (Ok (map (\<lambda>n. \<lparr>nr_node_id = n_id n, nr_mcp_endpoint = mcp_endpoint n,
         nr_internal_endpoint = internal_endpoint n, nr_capacity = capacity n,
         nr_pond_count = word_of_nat (pond_count_of r (n_id n)), nr_state = n_state n,
         nr_last_heartbeat = last_heartbeat n,
         nr_heartbeat_age_seconds = date_diff_second (last_heartbeat n) now\<rparr>)
       (sort_key n_id (nodes r))), r)"

definition describe_node :: "fault \<Rightarrow> int \<Rightarrow> string \<Rightarrow> registry \<Rightarrow> NodeRow reply" where
  "describe_node f now nid r =
     (case list_nodes f now r of
        (Inl e, r') \<Rightarrow> (Err e, r')
      | (Inr rows, r') \<Rightarrow> (case List.find (\<lambda>n. nr_node_id n = nid) rows of
          None \<Rightarrow> (Err (CP_NodeNotFound nid), r')
        | Some n \<Rightarrow> (Ok n, r')))"

section \<open>Ponds\<close>

definition active_nodes :: "registry \<Rightarrow> NodeRec list" where
  "active_nodes r = filter (\<lambda>n. n_state n = ''active'') (nodes r)"

definition insert_pond :: "PondRec \<Rightarrow> registry \<Rightarrow> (string, registry) result" where
  "insert_pond p r =
     (if p_id p \<in> p_id ` set (ponds r) \<or> p_name p \<in> p_name ` set (ponds r) then Err constraint_error
      else Ok (r\<lparr>ponds := ponds r @ [p]\<rparr>))"

definition row_of :: "PondRec \<Rightarrow> PondRow" where
  "row_of p = \<lparr>pond_id = p_id p, pond_name = p_name p, owner_identity = p_owner_identity p,
     node_id = p_node_id p,
     tier = (case p_tier p of None \<Rightarrow> ''medium'' | Some t \<Rightarrow> t),
     extensions = parse_csv (case p_extensions p of None \<Rightarrow> [] | Some e \<Rightarrow> e),
     description = (case p_description p of None \<Rightarrow> [] | Some d \<Rightarrow> d),
     lineage = (case p_lineage p of None \<Rightarrow> False | Some l \<Rightarrow> l)\<rparr>"

definition create_pond :: "fault \<Rightarrow> int \<Rightarrow> string \<Rightarrow> nat \<Rightarrow> string option \<Rightarrow> string \<Rightarrow> string \<Rightarrow> string
    \<Rightarrow> string list \<Rightarrow> string \<Rightarrow> bool \<Rightarrow> registry \<Rightarrow> PondRow reply" where
  "create_pond f now uuid rnd name_arg owner policy_json tier_arg exts desc lin r =
     (case tier_parse_for_create tier_arg of
        Inl e \<Rightarrow> (Err (CP_Invalid e), r)
      | Inr parsed \<Rightarrow>
        if parsed = TierNone then (Err (CP_Invalid TierNoneOperatorOnly), r)
        else (case (case name_arg of None \<Rightarrow> Ok () | Some n \<Rightarrow> pond_name_validate n) of
          Inl e \<Rightarrow> (Err (CP_Invalid e), r)
        | Inr _ \<Rightarrow>
          let name = (case name_arg of None \<Rightarrow> uuid | Some n \<Rightarrow> n);
              act = active_nodes r
          in if f 0 \<noteq> None \<or> act = []
             then (Err (CP_NoNodeAvailable ''no active node registered''), r)
             else let nid = n_id (act ! (rnd mod length act)) in
               stmt f 1 r
                (if name \<in> p_name ` set (ponds r) then (Err (CP_NameConflict name), r)
                 else stmt f 2 r
                   (case insert_pond \<lparr>p_id = uuid, p_name = name, p_owner_identity = owner,
                       p_node_id = nid, p_policy_json = policy_json, p_created_at = now,
                       p_tier = Some (tier_as_str parsed), p_extensions = Some (join '','' exts),
                       p_description = Some desc, p_lineage = Some lin\<rparr> r of
                      Inl e \<Rightarrow> (Err (CP_Storage e), r)
                    | Inr r' \<Rightarrow> (Ok \<lparr>pond_id = uuid, pond_name = name, owner_identity = owner,
                        node_id = nid, tier = tier_as_str parsed, extensions = exts,
                        description = desc, lineage = lin\<rparr>, r')))))"

text \<open>\<open>WHERE pond_id=? OR name=?\<close>\<close>

definition refers :: "string \<Rightarrow> PondRec \<Rightarrow> bool" where
  "refers s p \<longleftrightarrow> p_id p = s \<or> p_name p = s"

definition node_of :: "registry \<Rightarrow> PondRec \<Rightarrow> NodeRec option" where
  "node_of r p = List.find (\<lambda>n. n_id n = p_node_id p) (nodes r)"

definition get_pond_location :: "fault \<Rightarrow> string \<Rightarrow> registry \<Rightarrow> (string \<times> string) reply" where
  "get_pond_location f pond_ref r =
     (case (if f 0 \<noteq> None then None
            else List.find (\<lambda>p. refers pond_ref p \<and> node_of r p \<noteq> None) (ponds r)) of
        None \<Rightarrow> (Err (CP_PondNotFound pond_ref), r)
      | Some p \<Rightarrow> (Ok (p_id p, internal_endpoint (the (node_of r p))), r))"

definition list_ponds :: "fault \<Rightarrow> registry \<Rightarrow> PondRow list reply" where
  "list_ponds f r = stmt f 0 r (Ok (map row_of (sort_key p_created_at (ponds r))), r)"

definition pond_info :: "fault \<Rightarrow> string \<Rightarrow> registry \<Rightarrow> (PondRow \<times> int \<times> string \<times> string option) reply" where
  "pond_info f pond_ref r =
     (case (if f 0 \<noteq> None then None else List.find (refers pond_ref) (ponds r)) of
        None \<Rightarrow> (Err (CP_PondNotFound pond_ref), r)
      | Some p \<Rightarrow> (Ok (row_of p, p_created_at p, p_policy_json p,
                        map_option internal_endpoint (node_of r p)), r))"

definition set_pond_tier :: "fault \<Rightarrow> string \<Rightarrow> string \<Rightarrow> registry \<Rightarrow> unit reply" where
  "set_pond_tier f pond_ref tier_arg r =
     (case tier_parse tier_arg of
        None \<Rightarrow> (Err (CP_Invalid (UnknownTier tier_arg)), r)
      | Some parsed \<Rightarrow> stmt f 0 r
          (if filter (refers pond_ref) (ponds r) = [] then (Err (CP_PondNotFound pond_ref), r)
           else (Ok (), r\<lparr>ponds := map (\<lambda>p. if refers pond_ref p
                                              then p\<lparr>p_tier := Some (tier_as_str parsed)\<rparr>
                                              else p) (ponds r)\<rparr>)))"

definition forget_pond :: "fault \<Rightarrow> string \<Rightarrow> registry \<Rightarrow> ForgottenPond reply" where
  "forget_pond f pond_ref r =
     (case (if f 0 \<noteq> None then None else List.find (refers pond_ref) (ponds r)) of
        None \<Rightarrow> (Err (CP_PondNotFound pond_ref), r)
      | Some p \<Rightarrow>
          let state = (case node_of r p of None \<Rightarrow> [] | Some n \<Rightarrow> n_state n);
              endpoint = (case node_of r p of None \<Rightarrow> [] | Some n \<Rightarrow> internal_endpoint n)
          in if state = ''active'' \<and> endpoint \<noteq> []
             then (Err (CP_PondStillOwned (p_name p) (p_node_id p)), r)
             else stmt f 1 r
               (Ok \<lparr>fp_pond_id = p_id p, fp_name = p_name p, fp_node_id = p_node_id p,
                    fp_node_state = (if state = [] then ''unregistered'' else state)\<rparr>,
                r\<lparr>ponds := filter (\<lambda>q. p_id q \<noteq> p_id p) (ponds r)\<rparr>))"

definition drop_pond :: "fault \<Rightarrow> string \<Rightarrow> registry \<Rightarrow> unit reply" where
  "drop_pond f pond_ref r =
     stmt f 0 r
       (if filter (refers pond_ref) (ponds r) = [] then (Err (CP_PondNotFound pond_ref), r)
        else (Ok (), r\<lparr>ponds := filter (\<lambda>p. \<not> refers pond_ref p) (ponds r)\<rparr>))"

section \<open>Datasets\<close>

definition is_ident :: "string \<Rightarrow> bool" where
  "is_ident s \<longleftrightarrow> (case s of
      [] \<Rightarrow> False
    | c # cs \<Rightarrow> (is_ascii_alphabetic c \<or> c = CHR ''_'')
        \<and> (\<forall>d \<in> set cs. is_ascii_alphanumeric d \<or> d = CHR ''_''))"

definition insert_dataset :: "DatasetRec \<Rightarrow> registry \<Rightarrow> (string, registry) result" where
  "insert_dataset d r =
     (if d_name d \<in> d_name ` set (datasets r) then Err constraint_error
      else Ok (r\<lparr>datasets := datasets r @ [d]\<rparr>))"

definition insert_dataset_table :: "string \<Rightarrow> DatasetTableRow \<Rightarrow> registry \<Rightarrow> (string, registry) result" where
  "insert_dataset_table ds t r =
     (if (ds, table_name t) \<in> (\<lambda>(d, u). (d, table_name u)) ` set (dataset_tables r)
      then Err constraint_error
      else Ok (r\<lparr>dataset_tables := dataset_tables r @ [(ds, t)]\<rparr>))"

definition insert_dataset_tag :: "string \<Rightarrow> string \<Rightarrow> registry \<Rightarrow> (string, registry) result" where
  "insert_dataset_tag ds tag r = Ok (r\<lparr>dataset_tags := push_new (dataset_tags r) (ds, tag)\<rparr>)"

definition add_dataset_body :: "int \<Rightarrow> DatasetRow \<Rightarrow> (registry \<Rightarrow> (string, registry) result) list" where
  "add_dataset_body now d =
     [\<lambda>r. Ok (r\<lparr>dataset_tables := filter (\<lambda>(n, _). n \<noteq> ds_name d) (dataset_tables r)\<rparr>),
      \<lambda>r. Ok (r\<lparr>dataset_tags := filter (\<lambda>(n, _). n \<noteq> ds_name d) (dataset_tags r)\<rparr>),
      \<lambda>r. Ok (r\<lparr>datasets := filter (\<lambda>x. d_name x \<noteq> ds_name d) (datasets r)\<rparr>),
      insert_dataset \<lparr>d_name = ds_name d, d_description = ds_description d,
                      d_created_by = ds_created_by d, d_created_at = now\<rparr>]
     @ map (insert_dataset_table (ds_name d)) (ds_tables d)
     @ map (insert_dataset_tag (ds_name d)) (ds_tags d)"

definition add_dataset :: "fault \<Rightarrow> int \<Rightarrow> DatasetRow \<Rightarrow> registry \<Rightarrow> string reply" where
  "add_dataset f now d r =
     (if ds_name d = [] then (Err (CP_Invalid DatasetNameRequired), r)
      else if \<not> is_ident (ds_name d) then (Err (CP_Invalid DatasetNameNotIdent), r)
      else if ds_tables d = [] then (Err (CP_Invalid DatasetNoTables), r)
      else (case in_txn f (add_dataset_body now d) r of
              (Inl e, r') \<Rightarrow> (Err e, r')
            | (Inr _, r') \<Rightarrow> (Ok (ds_name d), r')))"

definition remove_dataset :: "fault \<Rightarrow> string \<Rightarrow> registry \<Rightarrow> unit reply" where
  "remove_dataset f name r =
     stmt f 0 r
       (if name \<notin> d_name ` set (datasets r) then (Err (CP_DatasetNotFound name), r)
        else let r1 = r\<lparr>datasets := filter (\<lambda>x. d_name x \<noteq> name) (datasets r)\<rparr> in
          stmt f 1 r1
           (let r2 = r1\<lparr>dataset_tables := filter (\<lambda>(n, _). n \<noteq> name) (dataset_tables r1)\<rparr> in
            stmt f 2 r2
              (Ok (), r2\<lparr>dataset_tags := filter (\<lambda>(n, _). n \<noteq> name) (dataset_tags r2)\<rparr>)))"

definition tags_for :: "(string \<times> string) list \<Rightarrow> string \<Rightarrow> string list" where
  "tags_for tbl owner = sort (map snd (filter (\<lambda>(n, _). n = owner) tbl))"

definition get_dataset :: "fault \<Rightarrow> string \<Rightarrow> registry \<Rightarrow> DatasetRow reply" where
  "get_dataset f name r =
     (case (if f 0 \<noteq> None then None else List.find (\<lambda>d. d_name d = name) (datasets r)) of
        None \<Rightarrow> (Err (CP_DatasetNotFound name), r)
      | Some d \<Rightarrow> stmt f 1 r (stmt f 2 r
          (Ok \<lparr>ds_name = name, ds_description = d_description d,
               ds_tags = tags_for (dataset_tags r) name,
               ds_tables = sort_key table_name (map snd (filter (\<lambda>(n, _). n = name) (dataset_tables r))),
               ds_created_by = d_created_by d, ds_created_at = d_created_at d\<rparr>, r)))"

section \<open>Catalogs\<close>

text \<open>
  The locator parameters are stored as JSON by the crate \<open>serde_json\<close>: \<open>to_json\<close> and
  \<open>from_json\<close> are arguments.
\<close>

definition insert_catalog :: "CatalogRec \<Rightarrow> registry \<Rightarrow> (string, registry) result" where
  "insert_catalog c r =
     (if c_name c \<in> c_name ` set (catalogs r) then Err constraint_error
      else Ok (r\<lparr>catalogs := catalogs r @ [c]\<rparr>))"

definition insert_catalog_tag :: "string \<Rightarrow> string \<Rightarrow> registry \<Rightarrow> (string, registry) result" where
  "insert_catalog_tag ca tag r = Ok (r\<lparr>catalog_tags := push_new (catalog_tags r) (ca, tag)\<rparr>)"

definition add_catalog_body :: "int \<Rightarrow> string \<Rightarrow> CatalogRow \<Rightarrow> (registry \<Rightarrow> (string, registry) result) list" where
  "add_catalog_body now params_json ca =
     [\<lambda>r. Ok (r\<lparr>catalog_tags := filter (\<lambda>(n, _). n \<noteq> ca_name ca) (catalog_tags r)\<rparr>),
      \<lambda>r. Ok (r\<lparr>catalogs := filter (\<lambda>x. c_name x \<noteq> ca_name ca) (catalogs r)\<rparr>),
      insert_catalog \<lparr>c_name = ca_name ca, c_type = ca_type ca, c_params_json = params_json,
                      c_description = ca_description ca, c_created_by = ca_created_by ca,
                      c_created_at = now\<rparr>]
     @ map (insert_catalog_tag (ca_name ca)) (ca_tags ca)"

definition add_catalog :: "(params \<Rightarrow> string) \<Rightarrow> fault \<Rightarrow> int \<Rightarrow> CatalogRow \<Rightarrow> registry \<Rightarrow> string reply" where
  "add_catalog to_json f now ca r =
     (if ca_name ca = [] \<or> ca_type ca = [] then (Err (CP_Invalid CatalogNameTypeRequired), r)
      else if \<not> is_ident (ca_name ca) then (Err (CP_Invalid CatalogNameNotIdent), r)
      else (case in_txn f (add_catalog_body now (to_json (ca_params ca)) ca) r of
              (Inl e, r') \<Rightarrow> (Err e, r')
            | (Inr _, r') \<Rightarrow> (Ok (ca_name ca), r')))"

definition remove_catalog :: "fault \<Rightarrow> string \<Rightarrow> registry \<Rightarrow> unit reply" where
  "remove_catalog f name r =
     stmt f 0 r
       (if name \<notin> c_name ` set (catalogs r) then (Err (CP_CatalogNotFound name), r)
        else let r1 = r\<lparr>catalogs := filter (\<lambda>x. c_name x \<noteq> name) (catalogs r)\<rparr> in
          stmt f 1 r1
            (Ok (), r1\<lparr>catalog_tags := filter (\<lambda>(n, _). n \<noteq> name) (catalog_tags r1)\<rparr>))"

definition get_catalog :: "(string \<Rightarrow> params option) \<Rightarrow> fault \<Rightarrow> string \<Rightarrow> registry \<Rightarrow> CatalogRow reply" where
  "get_catalog from_json f name r =
     (case (if f 0 \<noteq> None then None else List.find (\<lambda>c. c_name c = name) (catalogs r)) of
        None \<Rightarrow> (Err (CP_CatalogNotFound name), r)
      | Some c \<Rightarrow> stmt f 1 r
          (Ok \<lparr>ca_name = name, ca_type = c_type c,
               ca_params = (case from_json (c_params_json c) of None \<Rightarrow> [] | Some m \<Rightarrow> m),
               ca_description = c_description c, ca_tags = tags_for (catalog_tags r) name,
               ca_created_by = c_created_by c, ca_created_at = c_created_at c\<rparr>, r))"

section \<open>Search\<close>

text \<open>
  \<open>LIKE\<close> without an escape character: \<open>%\<close> matches any run of characters and \<open>_\<close> exactly one.
  \<open>ILIKE\<close> ignores case.
\<close>

fun like :: "string \<Rightarrow> string \<Rightarrow> bool" where
  "like [] s = (s = [])"
| "like (x # p) [] = (x = CHR ''%'' \<and> like p [])"
| "like (x # p) (c # s) =
     (if x = CHR ''%'' then like p (c # s) \<or> like (x # p) s
      else (x = CHR ''_'' \<or> x = c) \<and> like p s)"

definition ilike :: "string \<Rightarrow> string \<Rightarrow> bool" where
  "ilike p s = like (to_lowercase p) (to_lowercase s)"

definition search :: "(string \<times> string) list \<Rightarrow> (string \<times> string) list \<Rightarrow> string \<Rightarrow> string list" where
  "search tbl tag_tbl query =
     (let q = trim query in
      if q = [] then sort (map fst tbl)
      else if hd q = CHR ''#'' then sort (map fst (filter (\<lambda>(_, t). t = tl q) tag_tbl))
      else if CHR ''*'' \<in> set q
        then sort (map fst (filter (\<lambda>(n, _). like (replace_char CHR ''*'' ''%'' q) n) tbl))
      else let pat = ''%'' @ q @ ''%'' in
        sort (map fst (filter (\<lambda>(n, d). ilike pat n \<or> ilike pat d
               \<or> n \<in> fst ` set (filter (\<lambda>(_, t). ilike pat t) tag_tbl)) tbl)))"

text \<open>\<open>collect\<close> of results: the first error, or all values.\<close>

fun collect :: "('e, 'a) result list \<Rightarrow> ('e, 'a list) result" where
  "collect [] = Ok []"
| "collect (Inl e # xs) = Err e"
| "collect (Inr a # xs) = map_ok ((#) a) (collect xs)"

definition list_datasets :: "fault \<Rightarrow> (nat \<Rightarrow> fault) \<Rightarrow> string \<Rightarrow> registry \<Rightarrow> DatasetRow list reply" where
  "list_datasets f g query r =
     stmt f 0 r
       (let names = search (map (\<lambda>d. (d_name d, d_description d)) (datasets r)) (dataset_tags r) query
        in (collect (map (\<lambda>(i, n). fst (get_dataset (g i) n r)) (enumerate 0 names)), r))"

definition list_catalogs :: "(string \<Rightarrow> params option) \<Rightarrow> fault \<Rightarrow> (nat \<Rightarrow> fault) \<Rightarrow> string \<Rightarrow> registry
    \<Rightarrow> CatalogRow list reply" where
  "list_catalogs from_json f g query r =
     stmt f 0 r
       (let names = search (map (\<lambda>c. (c_name c, c_description c)) (catalogs r)) (catalog_tags r) query
        in (collect (map (\<lambda>(i, n). fst (get_catalog from_json (g i) n r)) (enumerate 0 names)), r))"

section \<open>Policy\<close>

definition policy_get :: "fault \<Rightarrow> registry \<Rightarrow> (string \<times> string) list reply" where
  "policy_get f r = stmt f 0 r (Ok (sort_key fst (policy r)), r)"

definition policy_set :: "fault \<Rightarrow> string \<Rightarrow> string \<Rightarrow> registry \<Rightarrow> unit reply" where
  "policy_set f key val r =
     stmt f 0 r (Ok (),
       r\<lparr>policy := (if key \<in> fst ` set (policy r)
                    then map (\<lambda>(k, v). if k = key then (k, val) else (k, v)) (policy r)
                    else policy r @ [(key, val)])\<rparr>)"

section \<open>A fresh registry (migrations.rs)\<close>

text \<open>The tables after every migration has run on an empty database: the seeded rows.\<close>

definition em_dash :: string where
  "em_dash = [CHR 0xE2, CHR 0x80, CHR 0x94]"

definition seed_datasets :: "(string \<times> string) list" where
  "seed_datasets =
     [(''startrek'', ''Star Trek Season 1 scripts '' @ em_dash @ '' CSV, ~2 KB''),
      (''holdings'', ''Example stock holdings '' @ em_dash @ '' CSV, ~300 B''),
      (''tpch'', ''TPC-H scale 0.01 '' @ em_dash @ '' 8 tables, Parquet, a few MB''),
      (''taxi'', ''NYC yellow-taxi, Apr 2019 '' @ em_dash @ '' Parquet, ~127 MB (large)'')]"

definition seed_tables :: "(string \<times> string \<times> string) list" where
  "seed_tables =
     [(''startrek'', ''startrek'', ''https://blobs.duckdb.org/data/Star_Trek-Season_1.csv''),
      (''holdings'', ''holdings'', ''https://duckdb.org/data/holdings.csv''),
      (''tpch'', ''lineitem'', ''https://shell.duckdb.org/data/tpch/0_01/parquet/lineitem.parquet''),
      (''tpch'', ''orders'', ''https://shell.duckdb.org/data/tpch/0_01/parquet/orders.parquet''),
      (''tpch'', ''customer'', ''https://shell.duckdb.org/data/tpch/0_01/parquet/customer.parquet''),
      (''tpch'', ''part'', ''https://shell.duckdb.org/data/tpch/0_01/parquet/part.parquet''),
      (''tpch'', ''supplier'', ''https://shell.duckdb.org/data/tpch/0_01/parquet/supplier.parquet''),
      (''tpch'', ''partsupp'', ''https://shell.duckdb.org/data/tpch/0_01/parquet/partsupp.parquet''),
      (''tpch'', ''nation'', ''https://shell.duckdb.org/data/tpch/0_01/parquet/nation.parquet''),
      (''tpch'', ''region'', ''https://shell.duckdb.org/data/tpch/0_01/parquet/region.parquet''),
      (''taxi'', ''taxi'', ''https://blobs.duckdb.org/data/taxi_2019_04.parquet'')]"

definition seed_tags :: "(string \<times> string) list" where
  "seed_tags =
     [(''startrek'', ''sample''), (''holdings'', ''sample''), (''tpch'', ''sample''),
      (''tpch'', ''tpch''), (''taxi'', ''sample'')]"

definition seed_policy :: "(string \<times> string) list" where
  "seed_policy = [(''default_pond_lifetime_seconds'', ''3600''), (''query_timeout_seconds'', ''30'')]"

definition registry_fresh :: "int \<Rightarrow> registry" where
  "registry_fresh now =
     \<lparr>nodes = [], ponds = [],
      datasets = map (\<lambda>(n, d). \<lparr>d_name = n, d_description = d, d_created_by = ''latiq'',
                                d_created_at = now\<rparr>) seed_datasets,
      dataset_tables = map (\<lambda>(d, t, u). (d, \<lparr>table_name = t, source_uri = u, format = ''auto''\<rparr>)) seed_tables,
      dataset_tags = seed_tags, catalogs = [], catalog_tags = [], policy = seed_policy\<rparr>"

end
