(* ===== verification/Registry_Facts.thy ===== *)
theory Registry_Facts
  imports Registry
begin

text \<open>
  What the registry guarantees: the invariant of its tables, kept by every method under any
  failure of a statement; the outcome of each method; the interface its clients use
  (locale \<open>pond_registry\<close>, interpreted on the methods of \<open>Registry\<close>).
\<close>

section \<open>Statements\<close>

lemma stmt_no_fault [simp]: "stmt no_fault i r k = k" "no_fault i = None"
  by (simp_all add: stmt_def no_fault_def)

lemma stmt_eq_Ok: "stmt f i r k = (Ok a, r') \<longleftrightarrow> f i = None \<and> k = (Ok a, r')"
  by (simp add: stmt_def split: option.splits)

lemma stmt_None [simp]: "f i = None \<Longrightarrow> stmt f i r k = k"
  by (simp add: stmt_def)

lemma stmt_snd: "snd (stmt f i r k) = (if f i = None then snd k else r)"
  by (simp add: stmt_def split: option.splits)

lemma stmt_induct: "P r \<Longrightarrow> P (snd k) \<Longrightarrow> P (snd (stmt f i r k))"
  by (simp add: stmt_snd)

lemma run_stmts_append:
  "run_stmts f i (xs @ ys) r =
     (case run_stmts f i xs r of Inl e \<Rightarrow> Err e | Inr (j, r') \<Rightarrow> run_stmts f j ys r')"
  by (induction f i xs r rule: run_stmts.induct) (auto split: option.splits sum.splits)

lemma run_stmts_append_Ok:
  "run_stmts f i (xs @ ys) r = Ok (k, t) \<longleftrightarrow>
     (\<exists>j s. run_stmts f i xs r = Ok (j, s) \<and> run_stmts f j ys s = Ok (k, t))"
  by (auto simp: run_stmts_append split: sum.splits)

lemma run_stmts_no_fault_index:
  "run_stmts f i xs r = Ok (j, r') \<Longrightarrow> j = i + length xs"
  by (induction f i xs r rule: run_stmts.induct) (auto split: option.splits sum.splits)

text \<open>A transaction that reports an error has changed nothing.\<close>

lemma in_txn_Err: "in_txn f body r = (Inl e, r') \<Longrightarrow> r' = r"
  by (auto simp: in_txn_def split: option.splits sum.splits prod.splits)

lemma in_txn_Ok:
  "in_txn f body r = (Inr u, r') \<longleftrightarrow> f 0 = None \<and> (\<exists>i. run_stmts f 1 body r = Ok (i, r') \<and> f i = None)"
  by (auto simp: in_txn_def split: option.splits sum.splits prod.splits)

lemma in_txn_preserves:
  assumes "P r" and "\<And>r s r'. s \<in> set body \<Longrightarrow> P r \<Longrightarrow> s r = Ok r' \<Longrightarrow> P r'"
  shows "P (snd (in_txn f body r))"
proof -
  have run: "run_stmts f i body r = Ok (j, r') \<Longrightarrow> P r'" for i j r'
    using assms by (induction f i body r rule: run_stmts.induct) (auto split: option.splits sum.splits)
  show ?thesis
    using assms(1) run by (auto simp: in_txn_def split: option.splits sum.splits)
qed

section \<open>The invariant\<close>

definition node_ok :: "NodeRec \<Rightarrow> bool" where
  "node_ok n \<longleftrightarrow> n_state n = ''active'' \<or> n_state n = ''down''"

definition pond_ok :: "PondRec \<Rightarrow> bool" where
  "pond_ok p \<longleftrightarrow> is_uuid_text (p_id p) \<and> pond_name_validate (p_name p) = Ok ()
     \<and> (case p_tier p of None \<Rightarrow> False | Some t \<Rightarrow> t \<in> set tier_ALL)"

definition table_key :: "string \<times> DatasetTableRow \<Rightarrow> string \<times> string" where
  "table_key x = (fst x, table_name (snd x))"

definition registry_inv :: "registry \<Rightarrow> bool" where
  "registry_inv r \<longleftrightarrow>
     distinct (map n_id (nodes r)) \<and> list_all node_ok (nodes r)
   \<and> distinct (map p_id (ponds r)) \<and> distinct (map p_name (ponds r)) \<and> list_all pond_ok (ponds r)
   \<and> distinct (map d_name (datasets r)) \<and> list_all is_ident (map d_name (datasets r))
   \<and> distinct (map table_key (dataset_tables r)) \<and> distinct (dataset_tags r)
   \<and> distinct (map c_name (catalogs r)) \<and> list_all is_ident (map c_name (catalogs r))
   \<and> distinct (catalog_tags r) \<and> distinct (map fst (policy r))"

text \<open>No tag and no table belongs to a dataset or a catalog that is gone.\<close>

definition no_orphans :: "registry \<Rightarrow> bool" where
  "no_orphans r \<longleftrightarrow>
     list_all (\<lambda>(d, _). d \<in> d_name ` set (datasets r)) (dataset_tables r)
   \<and> list_all (\<lambda>(d, _). d \<in> d_name ` set (datasets r)) (dataset_tags r)
   \<and> list_all (\<lambda>(c, _). c \<in> c_name ` set (catalogs r)) (catalog_tags r)"

text \<open>The methods that change the registry, as steps.\<close>

inductive registry_step :: "registry \<Rightarrow> registry \<Rightarrow> bool" where
  "registry_step r (snd (register_node f now nid mcp internal cap r))"
| "registry_step r (snd (heartbeat f now nid n r))"
| "registry_step r (snd (reap_stale_nodes f now ttl r))"
| "is_uuid_text uuid \<Longrightarrow>
     registry_step r (snd (create_pond f now uuid rnd nm owner pol t exts desc lin r))"
| "registry_step r (snd (set_pond_tier f ref t r))"
| "registry_step r (snd (forget_pond f ref r))"
| "registry_step r (snd (drop_pond f ref r))"
| "registry_step r (snd (add_dataset f now d r))"
| "registry_step r (snd (remove_dataset f name r))"
| "registry_step r (snd (add_catalog to_json f now ca r))"
| "registry_step r (snd (remove_catalog f name r))"
| "registry_step r (snd (policy_set f key val r))"

inductive reachable :: "registry \<Rightarrow> bool" where
  fresh: "reachable (registry_fresh now)"
| step: "reachable r \<Longrightarrow> registry_step r r' \<Longrightarrow> reachable r'"

subsection \<open>Every method keeps it\<close>

lemma map_update_key:
  "(\<And>x. k (g x) = k x) \<Longrightarrow> map k (map (\<lambda>x. if P x then g x else x) xs) = map k xs"
  by simp

lemma inv_fresh: "registry_inv (registry_fresh now)" "no_orphans (registry_fresh now)"
  by (simp_all add: registry_inv_def registry_fresh_def seed_datasets_def seed_tables_def seed_tags_def
      seed_policy_def is_ident_def char_class_defs table_key_def no_orphans_def)

lemma inv_register_node: "registry_inv r \<Longrightarrow> registry_inv (snd (register_node f now nid mcp internal cap r))"
  unfolding register_node_def
  by (rule stmt_induct)
     (auto simp: registry_inv_def node_ok_def list_all_iff map_update_key comp_def if_distrib cong: if_cong)

lemma inv_heartbeat: "registry_inv r \<Longrightarrow> registry_inv (snd (heartbeat f now nid n r))"
  unfolding heartbeat_def
  by (rule stmt_induct)
     (auto simp: registry_inv_def node_ok_def list_all_iff comp_def if_distrib cong: if_cong)

lemma inv_reap: "registry_inv r \<Longrightarrow> registry_inv (snd (reap_stale_nodes f now ttl r))"
  unfolding reap_stale_nodes_def
  by (rule stmt_induct)
     (auto simp: registry_inv_def node_ok_def list_all_iff comp_def if_distrib cong: if_cong)

lemma inv_set_pond_tier: "registry_inv r \<Longrightarrow> registry_inv (snd (set_pond_tier f ref t r))"
  unfolding set_pond_tier_def
  by (cases "tier_parse t")
     (auto simp: stmt_snd registry_inv_def pond_ok_def list_all_iff comp_def if_distrib tier_as_str_ALL cong: if_cong)

lemma inv_filter_ponds: "registry_inv r \<Longrightarrow> registry_inv (r\<lparr>ponds := filter P (ponds r)\<rparr>)"
  by (auto simp: registry_inv_def list_all_iff distinct_map_filter)

lemma inv_drop_pond: "registry_inv r \<Longrightarrow> registry_inv (snd (drop_pond f ref r))"
  unfolding drop_pond_def by (rule stmt_induct) (auto simp: inv_filter_ponds)

lemma inv_forget_pond: "registry_inv r \<Longrightarrow> registry_inv (snd (forget_pond f ref r))"
  unfolding forget_pond_def
  by (auto simp: Let_def stmt_snd inv_filter_ponds split: option.split)

lemma inv_policy_set: "registry_inv r \<Longrightarrow> registry_inv (snd (policy_set f k v r))"
  unfolding policy_set_def
  by (rule stmt_induct)
     (auto simp: registry_inv_def comp_def case_prod_unfold if_distrib cong: if_cong)

text \<open>The record a successful create inserts.\<close>

definition new_pond :: "int \<Rightarrow> string \<Rightarrow> nat \<Rightarrow> string option \<Rightarrow> string \<Rightarrow> string \<Rightarrow> PondTier \<Rightarrow> string list
    \<Rightarrow> string \<Rightarrow> bool \<Rightarrow> registry \<Rightarrow> PondRec" where
  "new_pond now uuid rnd nm owner pol parsed exts desc lin r =
     \<lparr>p_id = uuid, p_name = (case nm of None \<Rightarrow> uuid | Some n \<Rightarrow> n), p_owner_identity = owner,
      p_node_id = n_id (active_nodes r ! (rnd mod length (active_nodes r))), p_policy_json = pol,
      p_created_at = now, p_tier = Some (tier_as_str parsed), p_extensions = Some (join '','' exts),
      p_description = Some desc, p_lineage = Some lin\<rparr>"

lemma new_pond_simps [simp]:
  "p_id (new_pond now uuid rnd nm owner pol parsed exts desc lin r) = uuid"
  "p_name (new_pond now uuid rnd nm owner pol parsed exts desc lin r) = (case nm of None \<Rightarrow> uuid | Some n \<Rightarrow> n)"
  "p_tier (new_pond now uuid rnd nm owner pol parsed exts desc lin r) = Some (tier_as_str parsed)"
  "p_node_id (new_pond now uuid rnd nm owner pol parsed exts desc lin r)
     = n_id (active_nodes r ! (rnd mod length (active_nodes r)))"
  by (simp_all add: new_pond_def)

lemma create_pond_Ok:
  "create_pond f now uuid rnd nm owner pol t exts desc lin r = (Inr row, r') \<longleftrightarrow>
     (\<exists>parsed. tier_parse_for_create t = Ok parsed \<and> parsed \<noteq> TierNone
       \<and> (case nm of None \<Rightarrow> True | Some n \<Rightarrow> pond_name_validate n = Ok ())
       \<and> f 0 = None \<and> f 1 = None \<and> f 2 = None \<and> active_nodes r \<noteq> []
       \<and> (case nm of None \<Rightarrow> uuid | Some n \<Rightarrow> n) \<notin> p_name ` set (ponds r) \<and> uuid \<notin> p_id ` set (ponds r)
       \<and> row = (row_of (new_pond now uuid rnd nm owner pol parsed exts desc lin r))\<lparr>extensions := exts\<rparr>
       \<and> r' = r\<lparr>ponds := ponds r @ [new_pond now uuid rnd nm owner pol parsed exts desc lin r]\<rparr>)"
  by (cases "tier_parse_for_create t"; cases nm)
     (auto simp: create_pond_def Let_def stmt_def insert_pond_def new_pond_def row_of_def
       split: option.splits sum.splits if_splits)

lemma create_pond_Err:
  "create_pond f now uuid rnd nm owner pol t exts desc lin r = (Inl e, r') \<Longrightarrow> r' = r"
  by (auto simp: create_pond_def Let_def stmt_def split: option.splits sum.splits if_splits)

lemma inv_create_pond:
  assumes "registry_inv r" and "is_uuid_text uuid"
  shows "registry_inv (snd (create_pond f now uuid rnd nm owner pol t exts desc lin r))"
proof (cases "create_pond f now uuid rnd nm owner pol t exts desc lin r")
  case (Pair res r')
  show ?thesis
  proof (cases res)
    case (Inl e)
    then show ?thesis using Pair assms(1) create_pond_Err by (metis snd_conv)
  next
    case (Inr row)
    then obtain parsed where
      v: "case nm of None \<Rightarrow> True | Some n \<Rightarrow> pond_name_validate n = Ok ()"
      and fr: "(case nm of None \<Rightarrow> uuid | Some n \<Rightarrow> n) \<notin> p_name ` set (ponds r)" "uuid \<notin> p_id ` set (ponds r)"
      and r': "r' = r\<lparr>ponds := ponds r @ [new_pond now uuid rnd nm owner pol parsed exts desc lin r]\<rparr>"
      using Pair unfolding Inr create_pond_Ok by blast
    have "pond_ok (new_pond now uuid rnd nm owner pol parsed exts desc lin r)"
      using v assms(2) by (auto simp: pond_ok_def tier_as_str_ALL uuid_text_valid_name split: option.splits)
    then show ?thesis using Pair assms(1) fr r' by (auto simp: registry_inv_def)
  qed
qed

lemma inv_inserts:
  "registry_inv r \<Longrightarrow> is_ident (d_name d) \<Longrightarrow> insert_dataset d r = Ok r' \<Longrightarrow> registry_inv r'"
  "registry_inv r \<Longrightarrow> insert_dataset_table n t r = Ok r' \<Longrightarrow> registry_inv r'"
  "registry_inv r \<Longrightarrow> insert_dataset_tag n tag r = Ok r' \<Longrightarrow> registry_inv r'"
  "registry_inv r \<Longrightarrow> is_ident (c_name c) \<Longrightarrow> insert_catalog c r = Ok r' \<Longrightarrow> registry_inv r'"
  "registry_inv r \<Longrightarrow> insert_catalog_tag n tag r = Ok r' \<Longrightarrow> registry_inv r'"
proof -
  show "registry_inv r \<Longrightarrow> is_ident (d_name d) \<Longrightarrow> insert_dataset d r = Ok r' \<Longrightarrow> registry_inv r'"
    by (clarsimp simp: insert_dataset_def registry_inv_def split: if_splits)
  show "registry_inv r \<Longrightarrow> insert_dataset_table n t r = Ok r' \<Longrightarrow> registry_inv r'"
    by (clarsimp simp: insert_dataset_table_def registry_inv_def table_key_def case_prod_unfold split: if_splits)
  show "registry_inv r \<Longrightarrow> insert_dataset_tag n tag r = Ok r' \<Longrightarrow> registry_inv r'"
    by (clarsimp simp: insert_dataset_tag_def registry_inv_def)
  show "registry_inv r \<Longrightarrow> is_ident (c_name c) \<Longrightarrow> insert_catalog c r = Ok r' \<Longrightarrow> registry_inv r'"
    by (clarsimp simp: insert_catalog_def registry_inv_def split: if_splits)
  show "registry_inv r \<Longrightarrow> insert_catalog_tag n tag r = Ok r' \<Longrightarrow> registry_inv r'"
    by (clarsimp simp: insert_catalog_tag_def registry_inv_def)
qed

lemma inv_deletes:
  "registry_inv r \<Longrightarrow> registry_inv (r\<lparr>datasets := filter P (datasets r)\<rparr>)"
  "registry_inv r \<Longrightarrow> registry_inv (r\<lparr>dataset_tables := filter Q (dataset_tables r)\<rparr>)"
  "registry_inv r \<Longrightarrow> registry_inv (r\<lparr>dataset_tags := filter T (dataset_tags r)\<rparr>)"
  "registry_inv r \<Longrightarrow> registry_inv (r\<lparr>catalogs := filter C (catalogs r)\<rparr>)"
  "registry_inv r \<Longrightarrow> registry_inv (r\<lparr>catalog_tags := filter T (catalog_tags r)\<rparr>)"
  by (simp_all add: registry_inv_def list_all_iff distinct_map_filter)

lemma inv_add_dataset:
  assumes "registry_inv r"
  shows "registry_inv (snd (add_dataset f now d r))"
proof -
  have "registry_inv (snd (in_txn f (add_dataset_body now d) r))" if "is_ident (ds_name d)"
  proof (rule in_txn_preserves [where P = registry_inv, OF assms])
    fix r s r'
    assume "s \<in> set (add_dataset_body now d)" "registry_inv r" "s r = Ok r'"
    then show "registry_inv r'"
      using that by (auto simp: add_dataset_body_def inv_deletes elim: inv_inserts(2,3) [rotated])
        (metis inv_inserts(1) DatasetRec.select_convs(1))
  qed
  then show ?thesis
    using assms by (auto simp: add_dataset_def split: sum.splits prod.splits)
qed

lemma inv_add_catalog:
  assumes "registry_inv r"
  shows "registry_inv (snd (add_catalog to_json f now ca r))"
proof -
  have "registry_inv (snd (in_txn f (add_catalog_body now j ca) r))" if "is_ident (ca_name ca)" for j
  proof (rule in_txn_preserves [where P = registry_inv, OF assms])
    fix r s r'
    assume "s \<in> set (add_catalog_body now j ca)" "registry_inv r" "s r = Ok r'"
    then show "registry_inv r'"
      using that by (auto simp: add_catalog_body_def inv_deletes elim: inv_inserts(5) [rotated])
        (metis inv_inserts(4) CatalogRec.select_convs(1))
  qed
  then show ?thesis
    using assms by (auto simp: add_catalog_def split: sum.splits prod.splits) (metis snd_conv)+
qed

lemma inv_remove_dataset: "registry_inv r \<Longrightarrow> registry_inv (snd (remove_dataset f name r))"
  unfolding remove_dataset_def Let_def
  by (simp add: stmt_snd inv_deletes inv_deletes(2,3) [OF inv_deletes(1), simplified]
      inv_deletes(3) [OF inv_deletes(2) [OF inv_deletes(1)], simplified])

lemma inv_remove_catalog: "registry_inv r \<Longrightarrow> registry_inv (snd (remove_catalog f name r))"
  unfolding remove_catalog_def Let_def
  by (simp add: stmt_snd inv_deletes inv_deletes(5) [OF inv_deletes(4), simplified])

lemmas inv_methods = inv_register_node inv_heartbeat inv_reap inv_create_pond inv_set_pond_tier
  inv_forget_pond inv_drop_pond inv_add_dataset inv_remove_dataset inv_add_catalog
  inv_remove_catalog inv_policy_set

lemma reachable_inv: "reachable r \<Longrightarrow> registry_inv r"
  by (induction rule: reachable.induct) (auto elim!: registry_step.cases simp: inv_fresh inv_methods)

section \<open>The interface of the registry\<close>

text \<open>
  What the saga of an allocation relies on. \<open>rows\<close> are the ponds, \<open>rest\<close> everything else;
  a failed call changes nothing, a create appends one row under a fresh id and name, and a
  drop removes the rows its reference names.
\<close>

locale pond_registry =
  fixes create :: "'a \<Rightarrow> 's \<Rightarrow> ('e, 'row) result \<times> 's"
    and drop_ref :: "string \<Rightarrow> 's \<Rightarrow> ('e, unit) result \<times> 's"
    and rows :: "'s \<Rightarrow> 'p list"
    and rest :: "'s \<Rightarrow> 'o"
    and key :: "'p \<Rightarrow> string"
    and nm :: "'p \<Rightarrow> string"
    and ret_id :: "'row \<Rightarrow> string"
  assumes extensional: "rows s = rows t \<Longrightarrow> rest s = rest t \<Longrightarrow> s = t"
    and create_err: "create a s = (Inl e, s') \<Longrightarrow> s' = s"
    and create_ok: "create a s = (Inr row, s') \<Longrightarrow>
      (\<exists>p. rows s' = rows s @ [p] \<and> key p = ret_id row \<and> key p \<notin> key ` set (rows s)
         \<and> nm p \<notin> nm ` set (rows s)) \<and> rest s' = rest s"
    and drop_hit: "\<exists>p \<in> set (rows s). key p = x \<or> nm p = x \<Longrightarrow>
      \<exists>s'. drop_ref x s = (Inr (), s') \<and> rest s' = rest s
         \<and> rows s' = filter (\<lambda>p. \<not> (key p = x \<or> nm p = x)) (rows s)"
    and drop_miss: "\<not> (\<exists>p \<in> set (rows s). key p = x \<or> nm p = x) \<Longrightarrow>
      \<exists>e. drop_ref x s = (Inl e, s)"
begin

text \<open>Dropping a created pond by its id restores the registry, unless another pond is
  named after that id.\<close>

lemma create_drop_restores:
  assumes "create a s = (Inr row, s')" and "ret_id row \<notin> nm ` set (rows s)"
  shows "drop_ref (ret_id row) s' = (Inr (), s)"
proof -
  obtain p where p: "rows s' = rows s @ [p]" "key p = ret_id row" "key p \<notin> key ` set (rows s)"
    and rest: "rest s' = rest s"
    using create_ok [OF assms(1)] by blast
  have "\<exists>q \<in> set (rows s'). key q = ret_id row \<or> nm q = ret_id row" using p by simp
  from drop_hit [OF this] obtain t where
    t: "drop_ref (ret_id row) s' = (Inr (), t)" "rest t = rest s'"
    "rows t = filter (\<lambda>q. \<not> (key q = ret_id row \<or> nm q = ret_id row)) (rows s')"
    by blast
  have "rows t = rows s" using t(3) p assms(2) by (auto simp: filter_id_conv) (metis image_eqI)+
  then have "t = s" using t(2) rest by (intro extensional) auto
  then show ?thesis using t(1) by simp
qed

text \<open>A drop leaves every pond the reference does not name.\<close>

lemma drop_keeps_others:
  assumes "drop_ref x s = (res, s')" and "p \<in> set (rows s)" and "key p \<noteq> x" and "nm p \<noteq> x"
  shows "p \<in> set (rows s')"
proof (cases "\<exists>q \<in> set (rows s). key q = x \<or> nm q = x")
  case True
  from drop_hit [OF this] show ?thesis using assms by auto
next
  case False
  from drop_miss [OF this] show ?thesis using assms by auto
qed

lemma drop_removes:
  assumes "drop_ref x s = (res, s')" and "p \<in> set (rows s')"
  shows "key p \<noteq> x \<and> nm p \<noteq> x"
proof (cases "\<exists>q \<in> set (rows s). key q = x \<or> nm q = x")
  case True
  from drop_hit [OF this] show ?thesis using assms by auto
next
  case False
  from drop_miss [OF this] show ?thesis using assms False by auto
qed

end

type_synonym create_args = "fault \<times> int \<times> string \<times> nat \<times> string option \<times> string \<times> string \<times> string
   \<times> string list \<times> string \<times> bool"

definition create_with :: "create_args \<Rightarrow> registry \<Rightarrow> PondRow reply" where
  "create_with = (\<lambda>(f, now, uuid, rnd, nm, owner, pol, t, exts, desc, lin).
     create_pond f now uuid rnd nm owner pol t exts desc lin)"

lemma ponds_rest_eqI:
  assumes "ponds r = ponds s" and "r\<lparr>ponds := []\<rparr> = s\<lparr>ponds := []\<rparr>"
  shows "r = (s :: registry)"
  using assms by (cases r; cases s) simp

interpretation reg: pond_registry create_with "drop_pond no_fault" ponds "\<lambda>r. r\<lparr>ponds := []\<rparr>" p_id p_name pond_id
proof (unfold_locales, goal_cases)
  case (1 s t)
  then show ?case by (rule ponds_rest_eqI)
next
  case (2 a s e s')
  then show ?case by (auto simp: create_with_def split: prod.splits dest: create_pond_Err)
next
  case (3 a s row s')
  then show ?case
    by (auto simp: create_with_def create_pond_Ok row_of_def split: prod.splits)
next
  case (4 s x)
  then show ?case by (auto simp: drop_pond_def refers_def filter_empty_conv)
next
  case (5 s x)
  then show ?case by (auto simp: drop_pond_def refers_def filter_empty_conv)
qed

section \<open>Resolving a pond\<close>

lemma active_node_choice:
  assumes "active_nodes r \<noteq> []"
  shows "active_nodes r ! (rnd mod length (active_nodes r)) \<in> {n \<in> set (nodes r). n_state n = ''active''}"
proof -
  have "rnd mod length (active_nodes r) < length (active_nodes r)" using assms by simp
  then have "active_nodes r ! (rnd mod length (active_nodes r)) \<in> set (active_nodes r)" by (rule nth_mem)
  then show ?thesis by (auto simp: active_nodes_def)
qed

lemma find_unique_key:
  assumes "distinct (map k xs)" and "x \<in> set xs"
  shows "List.find (\<lambda>y. k y = k x) xs = Some x"
  using assms by (induction xs) (auto simp: image_iff)

lemma node_of_known:
  assumes "distinct (map n_id (nodes r))" and "n \<in> set (nodes r)" and "p_node_id p = n_id n"
  shows "node_of r p = Some n"
  unfolding node_of_def using find_unique_key [OF assms(1,2)] assms(3) by simp

lemma find_append_last:
  "(\<forall>x \<in> set xs. \<not> P x) \<Longrightarrow> P y \<Longrightarrow> List.find P (xs @ [y]) = Some y"
  by (induction xs) auto

lemma active_after_reap:
  "active_nodes (r\<lparr>nodes := map (\<lambda>n. if is_stale now ttl n then n\<lparr>n_state := ''down''\<rparr> else n) (nodes r)\<rparr>)
     = filter (\<lambda>n. now - uint ttl * 1000000 \<le> last_heartbeat n) (active_nodes r)"
proof -
  have "filter (\<lambda>n. n_state n = ''active'') (map (\<lambda>n. if is_stale now ttl n then n\<lparr>n_state := ''down''\<rparr> else n) ns)
      = filter (\<lambda>n. now - uint ttl * 1000000 \<le> last_heartbeat n) (filter (\<lambda>n. n_state n = ''active'') ns)" for ns
    by (induction ns) (auto simp: is_stale_def)
  then show ?thesis by (simp add: active_nodes_def)
qed

lemma stale_plus_live:
  "length (filter (is_stale now ttl) (nodes r))
     + length (filter (\<lambda>n. now - uint ttl * 1000000 \<le> last_heartbeat n) (active_nodes r))
   = length (active_nodes r)"
proof -
  have "filter (is_stale now ttl) (nodes r)
      = filter (\<lambda>n. \<not> now - uint ttl * 1000000 \<le> last_heartbeat n) (active_nodes r)"
    unfolding active_nodes_def filter_filter by (rule filter_cong) (auto simp: is_stale_def)
  then show ?thesis
    using sum_length_filter_compl [of "\<lambda>n. now - uint ttl * 1000000 \<le> last_heartbeat n" "active_nodes r"]
    by simp
qed

lemma refers_unique_filter:
  assumes "distinct ps" and "p \<in> set ps" and "\<And>q. q \<in> set ps \<Longrightarrow> P q \<longleftrightarrow> q = p"
  shows "filter (\<lambda>q. \<not> P q) ps = remove1 p ps"
proof -
  have "filter (\<lambda>q. \<not> P q) ps = filter (\<lambda>q. p \<noteq> q) ps" using assms(3) by (intro filter_cong) auto
  then show ?thesis using assms(1) by (simp add: distinct_remove1_removeAll removeAll_filter_not_eq)
qed

lemma reachable_distinct_ponds: "reachable r \<Longrightarrow> distinct (ponds r)"
  using reachable_inv by (auto simp: registry_inv_def distinct_map)

section \<open>Properties\<close>

text \<open>C1. The registry's invariant: in every state that the registry's methods can
  reach from a fresh database, under any sequence of calls and any failures of their
  statements, node ids, pond ids, pond names, dataset names, catalog names and policy keys are
  unique; every node is \<open>active\<close> or \<open>down\<close>; every pond has a legal name and a canonical tier;
  and every dataset and catalog name is a bare SQL identifier.\<close>

theorem registry_invariant:
  assumes "reachable r"
  shows "registry_inv r"
  using assms by (rule reachable_inv)

definition demo_id :: string where
  "demo_id = ''11111111-1111-4111-8111-111111111111''"

definition demo_id2 :: string where
  "demo_id2 = ''22222222-2222-4222-8222-222222222222''"

definition demo_node :: registry where
  "demo_node = snd (register_node no_fault 0 ''n1'' ''http://m'' ''http://i'' 8 (registry_fresh 0))"

definition demo_pond :: registry where
  "demo_pond = snd (create_pond no_fault 5 demo_id 0 (Some ''sales'') ''ann'' ''{}'' [] [''spatial''] [] False demo_node)"

lemma demo_ids: "is_uuid_text demo_id" "is_uuid_text demo_id2"
  by (simp_all add: is_uuid_text_def demo_id_def demo_id2_def is_lower_hex_char_def is_ascii_digit_def upt_rec)

lemma demo_node_reachable: "reachable demo_node"
  unfolding demo_node_def by (rule reachable.step [OF reachable.fresh registry_step.intros(1)])

lemma demo_pond_reachable: "reachable demo_pond"
  unfolding demo_pond_def
  by (rule reachable.step [OF demo_node_reachable registry_step.intros(4) [OF demo_ids(1)]])

lemma demo_node_eval:
  "nodes demo_node = [\<lparr>n_id = ''n1'', mcp_endpoint = ''http://m'', internal_endpoint = ''http://i'',
     capacity = 8, n_state = ''active'', last_heartbeat = 0\<rparr>]"
  "ponds demo_node = []"
  by (simp_all add: demo_node_def register_node_def registry_fresh_def)

lemma demo_create:
  "create_pond no_fault 5 demo_id 0 (Some ''sales'') ''ann'' ''{}'' [] [''spatial''] [] False demo_node
     = (Ok \<lparr>pond_id = demo_id, pond_name = ''sales'', owner_identity = ''ann'', node_id = ''n1'',
           tier = ''medium'', extensions = [''spatial''], description = [], lineage = False\<rparr>, demo_pond)"
proof -
  have "pond_name_validate ''sales'' = Ok ()"
    by (simp add: pond_name_validate_Ok_iff name_char_ok_def char_class_defs)
  then show ?thesis
    unfolding demo_pond_def
    by (simp add: create_pond_def tier_parse_for_create_def trim_id tier_default_def active_nodes_def
        demo_node_eval insert_pond_def Let_def)
qed

lemma demo_pond_eval:
  "nodes demo_pond = nodes demo_node"
  "\<exists>p. ponds demo_pond = [p] \<and> p_id p = demo_id \<and> p_name p = ''sales'' \<and> p_node_id p = ''n1''"
proof -
  obtain p where eq: "demo_pond = demo_node\<lparr>ponds := ponds demo_node @ [p]\<rparr>"
    and p: "p_id p = demo_id" "p_name p = ''sales''" "p_node_id p = ''n1''"
    using demo_create unfolding create_pond_Ok by (force simp: active_nodes_def demo_node_eval)
  show "nodes demo_pond = nodes demo_node"
    "\<exists>p. ponds demo_pond = [p] \<and> p_id p = demo_id \<and> p_name p = ''sales'' \<and> p_node_id p = ''n1''"
    unfolding eq using p by (simp_all add: demo_node_eval)
qed

theorem registry_invariant_witness: "reachable demo_pond \<and> registry_inv demo_pond"
  using demo_pond_reachable registry_invariant [of demo_pond] by blast

text \<open>Creating a pond: a refused create, whatever refused it, leaves the registry as
  it was. An accepted one appends exactly one row, on a node that is active, under a name no
  other pond has (the caller's, or the generated id), with a canonical tier that is never the
  operator-only \<open>none\<close>; and when no statement fails, a request is accepted exactly when its
  tier is creatable, its name is legal and free, the id is fresh and some node is active.\<close>

lemma create_pond_outcome:
  "(case create_pond f now uuid rnd nm owner pol t exts desc lin r of
      (Inl e, r') \<Rightarrow> r' = r
    | (Inr row, r') \<Rightarrow>
        pond_id row = uuid \<and> pond_name row = (case nm of None \<Rightarrow> uuid | Some n \<Rightarrow> n)
      \<and> owner_identity row = owner \<and> extensions row = exts \<and> description row = desc \<and> lineage row = lin
      \<and> tier row \<in> set tier_CREATABLE
      \<and> node_id row \<in> n_id ` {n \<in> set (nodes r). n_state n = ''active''}
      \<and> pond_name row \<notin> p_name ` set (ponds r)
      \<and> (\<exists>p. r' = r\<lparr>ponds := ponds r @ [p]\<rparr> \<and> p_id p = uuid \<and> p_name p = pond_name row
            \<and> p_tier p = Some (tier row) \<and> p_node_id p = node_id row))
   \<and> (is_ok (fst (create_pond no_fault now uuid rnd nm owner pol t exts desc lin r)) \<longleftrightarrow>
        (\<exists>parsed. tier_parse_for_create t = Ok parsed \<and> parsed \<noteq> TierNone)
      \<and> (nm = None \<or> pond_name_validate (the nm) = Ok ())
      \<and> active_nodes r \<noteq> []
      \<and> (case nm of None \<Rightarrow> uuid | Some n \<Rightarrow> n) \<notin> p_name ` set (ponds r)
      \<and> uuid \<notin> p_id ` set (ponds r))"
proof
  show "case create_pond f now uuid rnd nm owner pol t exts desc lin r of
      (Inl e, r') \<Rightarrow> r' = r
    | (Inr row, r') \<Rightarrow>
        pond_id row = uuid \<and> pond_name row = (case nm of None \<Rightarrow> uuid | Some n \<Rightarrow> n)
      \<and> owner_identity row = owner \<and> extensions row = exts \<and> description row = desc \<and> lineage row = lin
      \<and> tier row \<in> set tier_CREATABLE
      \<and> node_id row \<in> n_id ` {n \<in> set (nodes r). n_state n = ''active''}
      \<and> pond_name row \<notin> p_name ` set (ponds r)
      \<and> (\<exists>p. r' = r\<lparr>ponds := ponds r @ [p]\<rparr> \<and> p_id p = uuid \<and> p_name p = pond_name row
            \<and> p_tier p = Some (tier row) \<and> p_node_id p = node_id row)"
    using active_node_choice [of r rnd]
    by (auto simp: create_pond_Ok row_of_def tier_as_str_CREATABLE new_pond_def
        split: prod.split sum.split dest: create_pond_Err)
  show "is_ok (fst (create_pond no_fault now uuid rnd nm owner pol t exts desc lin r)) \<longleftrightarrow>
        (\<exists>parsed. tier_parse_for_create t = Ok parsed \<and> parsed \<noteq> TierNone)
      \<and> (nm = None \<or> pond_name_validate (the nm) = Ok ())
      \<and> active_nodes r \<noteq> []
      \<and> (case nm of None \<Rightarrow> uuid | Some n \<Rightarrow> n) \<notin> p_name ` set (ponds r)
      \<and> uuid \<notin> p_id ` set (ponds r)"
    unfolding is_ok_fst_iff create_pond_Ok by (auto split: option.splits)
qed

text \<open>What is created can be found: after a successful create with a validated
  extension list, \<open>pond_info\<close> by the generated id and by the name returns the same row (the
  extensions read back through their comma-separated column), the creation time, the policy
  and the endpoint of the node the pond was placed on, provided no other pond is named after
  the id or has the name as its id.\<close>

lemma create_info_roundtrip:
  assumes "reachable r"
    and "ext_validate raw = Ok exts"
    and "create_pond f now uuid rnd nm owner pol t exts desc lin r = (Inr row, r')"
    and "uuid \<notin> p_name ` set (ponds r)" and "pond_name row \<notin> p_id ` set (ponds r)"
  shows "\<exists>n \<in> set (nodes r). n_state n = ''active'' \<and> n_id n = node_id row
    \<and> pond_info no_fault uuid r' = (Ok (row, now, pol, Some (internal_endpoint n)), r')
    \<and> pond_info no_fault (pond_name row) r' = (Ok (row, now, pol, Some (internal_endpoint n)), r')"
proof -
  obtain parsed where act: "active_nodes r \<noteq> []"
    and fresh: "(case nm of None \<Rightarrow> uuid | Some n \<Rightarrow> n) \<notin> p_name ` set (ponds r)" "uuid \<notin> p_id ` set (ponds r)"
    and row: "row = (row_of (new_pond now uuid rnd nm owner pol parsed exts desc lin r))\<lparr>extensions := exts\<rparr>"
    and r': "r' = r\<lparr>ponds := ponds r @ [new_pond now uuid rnd nm owner pol parsed exts desc lin r]\<rparr>"
    using assms(3) unfolding create_pond_Ok by blast
  define p where "p = new_pond now uuid rnd nm owner pol parsed exts desc lin r"
  define n where "n = active_nodes r ! (rnd mod length (active_nodes r))"
  have n: "n \<in> set (nodes r)" "n_state n = ''active''" using active_node_choice [OF act, of rnd] by (auto simp: n_def)
  have rowp: "row = row_of p"
    using ext_validate_csv [OF assms(2)] unfolding row p_def by (simp add: row_of_def new_pond_def)
  have nodep: "node_of r' p = Some n"
    using n reachable_inv [OF assms(1)] unfolding p_def n_def
    by (intro node_of_known) (auto simp: registry_inv_def r')
  have name: "pond_name row = p_name p" by (simp add: rowp row_of_def)
  have "List.find (refers uuid) (ponds r') = Some p"
    using assms(4) fresh(2) unfolding r' p_def by (auto simp: refers_def intro!: find_append_last)
  moreover have "List.find (refers (pond_name row)) (ponds r') = Some p"
    using assms(5) fresh(1) unfolding name r' p_def
    by (auto simp: refers_def intro!: find_append_last) (metis image_eqI)+
  moreover have "p_created_at p = now" "p_policy_json p = pol" "n_id n = node_id row"
    by (simp_all add: p_def new_pond_def rowp row_of_def n_def)
  ultimately show ?thesis using n nodep rowp by (intro bexI [of _ n]) (auto simp: pond_info_def)
qed

lemma create_info_roundtrip_example:
  "\<exists>n \<in> set (nodes demo_node). n_state n = ''active'' \<and> n_id n = ''n1''
    \<and> pond_info no_fault ''sales'' demo_pond =
       (Ok (\<lparr>pond_id = demo_id, pond_name = ''sales'', owner_identity = ''ann'', node_id = ''n1'',
             tier = ''medium'', extensions = [''spatial''], description = [], lineage = False\<rparr>,
            5, ''{}'', Some (internal_endpoint n)), demo_pond)"
proof -
  have v: "ext_validate [''spatial''] = Ok [''spatial'']" by code_simp
  show ?thesis
    using create_info_roundtrip [OF demo_node_reachable v demo_create] by (auto simp: demo_node_eval)
qed

text \<open>Placement follows liveness: once the reaper has run, a pond is placed only on a
  node that was active and whose last heartbeat is no older than the time to live; the reaper
  reports exactly the nodes it took out of placement; and a registered node that beats is
  eligible again, at least until its time to live has passed, while an unknown node's beat is
  refused and changes nothing.\<close>

lemma placement_follows_liveness:
  assumes "reap_stale_nodes f now ttl r = (Ok k, r1)"
    and "create_pond g now' uuid rnd nm owner pol t exts desc lin r1 = (Inr row, r2)"
  shows "(\<exists>n \<in> set (nodes r). n_id n = node_id row \<and> n_state n = ''active''
            \<and> now - uint ttl * 1000000 \<le> last_heartbeat n)
    \<and> k + length (active_nodes r1) = length (active_nodes r)
    \<and> (nid \<in> n_id ` set (nodes r1) \<longrightarrow> now'' \<le> beat + uint ttl * 1000000 \<longrightarrow>
         nid \<in> n_id ` set (active_nodes
           (snd (reap_stale_nodes no_fault now'' ttl (snd (heartbeat no_fault beat nid c r1))))))
    \<and> (nid \<notin> n_id ` set (nodes r1) \<longrightarrow>
         heartbeat no_fault beat nid c r1 = (Err (CP_NodeNotFound nid), r1))"
proof -
  have r1: "r1 = r\<lparr>nodes := map (\<lambda>n. if is_stale now ttl n then n\<lparr>n_state := ''down''\<rparr> else n) (nodes r)\<rparr>"
    and k: "k = length (filter (is_stale now ttl) (nodes r))"
    using assms(1) by (auto simp: reap_stale_nodes_def stmt_eq_Ok)
  have act: "active_nodes r1 = filter (\<lambda>n. now - uint ttl * 1000000 \<le> last_heartbeat n) (active_nodes r)"
    unfolding r1 by (rule active_after_reap)
  obtain parsed where ne: "active_nodes r1 \<noteq> []"
    and row: "node_id row = n_id (active_nodes r1 ! (rnd mod length (active_nodes r1)))"
    using assms(2) by (auto simp: create_pond_Ok row_of_def)
  have "active_nodes r1 ! (rnd mod length (active_nodes r1)) \<in> set (active_nodes r1)"
    using ne by (simp add: nth_mem)
  then have "\<exists>n \<in> set (nodes r). n_id n = node_id row \<and> n_state n = ''active''
            \<and> now - uint ttl * 1000000 \<le> last_heartbeat n"
    unfolding row act by (auto simp: active_nodes_def)
  moreover have "k + length (active_nodes r1) = length (active_nodes r)"
    unfolding k act by (rule stale_plus_live)
  moreover have "nid \<in> n_id ` set (active_nodes
           (snd (reap_stale_nodes no_fault now'' ttl (snd (heartbeat no_fault beat nid c r1)))))"
    if known: "nid \<in> n_id ` set (nodes r1)" and ttl: "now'' \<le> beat + uint ttl * 1000000"
  proof -
    obtain n where n: "n \<in> set (nodes r1)" "n_id n = nid" using known by auto
    have "n\<lparr>last_heartbeat := beat, n_state := ''active''\<rparr>
        \<in> set (active_nodes (snd (heartbeat no_fault beat nid c r1)))"
      using n by (auto simp: heartbeat_def active_nodes_def)
    then have "n\<lparr>last_heartbeat := beat, n_state := ''active''\<rparr> \<in> set (active_nodes
         (snd (reap_stale_nodes no_fault now'' ttl (snd (heartbeat no_fault beat nid c r1)))))"
      using ttl by (simp add: reap_stale_nodes_def active_after_reap)
    then show ?thesis using n by (intro image_eqI) auto
  qed
  ultimately show ?thesis by (auto simp: heartbeat_def)
qed

lemma placement_follows_liveness_example:
  "(\<exists>n \<in> set (nodes demo_node). n_id n = ''n1'' \<and> n_state n = ''active'' \<and> 5 - 30 * 1000000 \<le> last_heartbeat n)
   \<and> ''n1'' \<in> n_id ` set (active_nodes
        (snd (reap_stale_nodes no_fault 20 30 (snd (heartbeat no_fault 10 ''n1'' 0 demo_node)))))"
proof -
  have reap: "reap_stale_nodes no_fault 5 30 demo_node = (Ok 0, demo_node)"
  proof -
    have "\<not> is_stale 5 30 n" if "n \<in> set (nodes demo_node)" for n
      using that by (auto simp: demo_node_eval is_stale_def)
    then have "map (\<lambda>n. if is_stale 5 30 n then n\<lparr>n_state := ''down''\<rparr> else n) (nodes demo_node) = nodes demo_node"
      "filter (is_stale 5 30) (nodes demo_node) = []"
      by (auto simp: map_idI filter_empty_conv)
    then show ?thesis by (simp add: reap_stale_nodes_def)
  qed
  show ?thesis
    using placement_follows_liveness [OF reap demo_create, of "''n1''" 20 10 0] by (auto simp: demo_node_eval)
qed

text \<open>The guard of \<open>forget_pond\<close>: in a reachable registry it succeeds only for a pond
  no registered node can serve (its node is not active, is not registered, or has no internal
  endpoint), and then removes exactly that pond's row and nothing else; while an active node with
  an endpoint holds the pond it is refused, and every refusal leaves the registry as it was.\<close>

lemma forget_pond_guard:
  assumes "reachable r"
  shows "case forget_pond f ref r of
      (Inr fp, r') \<Rightarrow> (\<exists>p. p \<in> set (ponds r) \<and> refers ref p \<and> fp_pond_id fp = p_id p \<and> fp_node_id fp = p_node_id p
          \<and> \<not> (\<exists>n. node_of r p = Some n \<and> n_state n = ''active'' \<and> internal_endpoint n \<noteq> [])
          \<and> (fp_node_state fp = ''unregistered'' \<or> node_of r p \<noteq> None)
          \<and> r' = r\<lparr>ponds := remove1 p (ponds r)\<rparr>)
    | (Inl e, r') \<Rightarrow> r' = r \<and> (f = no_fault \<longrightarrow>
          (e = CP_PondNotFound ref \<and> filter (refers ref) (ponds r) = []) \<or>
          (\<exists>p n. p \<in> set (ponds r) \<and> refers ref p \<and> node_of r p = Some n \<and> n_state n = ''active''
             \<and> internal_endpoint n \<noteq> [] \<and> e = CP_PondStillOwned (p_name p) (p_node_id p)))"
proof -
  have remove: "filter (\<lambda>q. p_id q \<noteq> p_id p) (ponds r) = remove1 p (ponds r)" if "p \<in> set (ponds r)" for p
    using that reachable_inv [OF assms] reachable_distinct_ponds [OF assms]
    by (intro refers_unique_filter) (auto simp: registry_inv_def distinct_map inj_on_def)
  show ?thesis
  proof (cases "f 0 \<noteq> None \<or> List.find (refers ref) (ponds r) = None")
    case True
    then have "(if f 0 \<noteq> None then None else List.find (refers ref) (ponds r)) = None" by auto
    then have "forget_pond f ref r = (Err (CP_PondNotFound ref), r)" by (simp add: forget_pond_def)
    then show ?thesis using True by (auto simp: find_None_iff filter_empty_conv)
  next
    case False
    then obtain p where p: "List.find (refers ref) (ponds r) = Some p" and f: "f 0 = None" by auto
    have m: "p \<in> set (ponds r)" "refers ref p" using find_Some_iff [OF p] by auto
    show ?thesis
    proof (cases "node_of r p")
      case None
      then have "forget_pond f ref r = stmt f 1 r
         (Ok \<lparr>fp_pond_id = p_id p, fp_name = p_name p, fp_node_id = p_node_id p,
            fp_node_state = ''unregistered''\<rparr>, r\<lparr>ponds := remove1 p (ponds r)\<rparr>)"
        using f p remove [OF m(1)] by (simp add: forget_pond_def)
      then show ?thesis using None m by (cases "f 1") (auto simp: stmt_def)
    next
      case (Some n)
      then have "forget_pond f ref r =
         (if n_state n = ''active'' \<and> internal_endpoint n \<noteq> []
          then (Err (CP_PondStillOwned (p_name p) (p_node_id p)), r)
          else stmt f 1 r (Ok \<lparr>fp_pond_id = p_id p, fp_name = p_name p, fp_node_id = p_node_id p,
            fp_node_state = (if n_state n = [] then ''unregistered'' else n_state n)\<rparr>,
              r\<lparr>ponds := remove1 p (ponds r)\<rparr>))"
        using f p remove [OF m(1)] by (simp add: forget_pond_def Let_def)
      then show ?thesis using Some m by (cases "f 1") (auto simp: stmt_def)
    qed
  qed
qed

lemma forget_pond_guard_example:
  "\<exists>e. forget_pond no_fault ''sales'' demo_pond = (Inl e, demo_pond)"
proof -
  have "fst (forget_pond no_fault ''sales'' demo_pond) = Err (CP_PondStillOwned ''sales'' ''n1'')"
    using demo_pond_eval by (auto simp: forget_pond_def refers_def node_of_def demo_node_eval Let_def)
  then show ?thesis
    using forget_pond_guard [OF demo_pond_reachable, of no_fault "''sales''"]
    by (cases "forget_pond no_fault ''sales'' demo_pond") auto
qed

text \<open>Dropping a pond: when exactly one pond answers to the reference, by id or by
  name, the drop removes that row and nothing else, and the reference resolves to nothing
  afterwards; when none does, the drop reports it and changes nothing.\<close>

lemma drop_pond_exact:
  assumes "reachable r" and "filter (refers ref) (ponds r) = [p]"
  shows "drop_pond no_fault ref r = (Ok (), r\<lparr>ponds := remove1 p (ponds r)\<rparr>)
    \<and> fst (pond_info no_fault ref (snd (drop_pond no_fault ref r))) = Err (CP_PondNotFound ref)
    \<and> fst (drop_pond no_fault ref (snd (drop_pond no_fault ref r))) = Err (CP_PondNotFound ref)"
proof -
  have st: "{q \<in> set (ponds r). refers ref q} = {p}"
    using arg_cong [OF assms(2), of set] by simp
  then have one: "q \<in> set (ponds r) \<Longrightarrow> refers ref q \<longleftrightarrow> q = p" for q by auto
  have "p \<in> set (ponds r)" using st by auto
  then have rm: "filter (\<lambda>q. \<not> refers ref q) (ponds r) = remove1 p (ponds r)"
    using one reachable_distinct_ponds [OF assms(1)] by (intro refers_unique_filter)
  then have d: "drop_pond no_fault ref r = (Ok (), r\<lparr>ponds := remove1 p (ponds r)\<rparr>)"
    using assms(2) by (simp add: drop_pond_def)
  have none: "filter (refers ref) (remove1 p (ponds r)) = []" unfolding rm [symmetric] by simp
  then have "List.find (refers ref) (remove1 p (ponds r)) = None"
    by (simp add: find_None_iff filter_empty_conv)
  then show ?thesis using d none by (simp add: pond_info_def) (simp add: drop_pond_def)
qed

lemma drop_pond_exact_example:
  "\<exists>p. fst (pond_info no_fault ''sales'' (snd (drop_pond no_fault ''sales'' demo_pond))) = Err (CP_PondNotFound ''sales'')
     \<and> drop_pond no_fault ''sales'' demo_pond = (Ok (), demo_pond\<lparr>ponds := remove1 p (ponds demo_pond)\<rparr>)"
proof -
  obtain p where p: "ponds demo_pond = [p]" "p_name p = ''sales''" using demo_pond_eval by blast
  then have "filter (refers ''sales'') (ponds demo_pond) = [p]" by (simp add: refers_def)
  from drop_pond_exact [OF demo_pond_reachable this] show ?thesis by blast
qed

text \<open>A pond may be given another pond's id as its name, and then one reference names
  both: in a reachable registry with a pond \<open>sales\<close>, creating a second pond whose name is the
  first one's id is accepted, and dropping the first pond by its id deletes both rows.\<close>

lemma drop_by_id_takes_a_namesake:
  "\<exists>r row2. reachable r
     \<and> create_pond no_fault 9 demo_id2 0 (Some demo_id) ''bob'' ''{}'' [] [] [] False demo_pond = (Inr row2, r)
     \<and> map (\<lambda>p. (p_id p, p_name p)) (ponds r) = [(demo_id, ''sales''), (demo_id2, demo_id)]
     \<and> ponds (snd (drop_pond no_fault demo_id r)) = []"
proof -
  obtain p where p: "ponds demo_pond = [p]" "p_id p = demo_id" "p_name p = ''sales''" using demo_pond_eval by blast
  define c where "c = create_pond no_fault 9 demo_id2 0 (Some demo_id) ''bob'' ''{}'' [] [] [] False demo_pond"
  have "tier_parse_for_create [] = Ok Medium" by (simp add: tier_parse_for_create_Ok trim_id)
  moreover have "active_nodes demo_pond \<noteq> []" by (simp add: active_nodes_def demo_pond_eval demo_node_eval)
  moreover have "demo_id \<noteq> ''sales''" "demo_id2 \<noteq> demo_id" by (simp_all add: demo_id_def demo_id2_def)
  ultimately have "\<exists>row r. c = (Inr row, r)"
    unfolding c_def create_pond_Ok using p uuid_text_valid_name [OF demo_ids(1)] by auto
  then obtain row r where c: "c = (Inr row, r)" by blast
  then obtain q where q: "ponds r = [p, q]" "p_id q = demo_id2" "p_name q = demo_id"
    using p unfolding c_def create_pond_Ok by force
  have "reachable r"
    using reachable.step [OF demo_pond_reachable registry_step.intros(4) [OF demo_ids(2)]] c
    unfolding c_def by (metis snd_conv)
  moreover have "ponds (snd (drop_pond no_fault demo_id r)) = []"
    using p q by (simp add: drop_pond_def refers_def)
  ultimately show ?thesis using c p q unfolding c_def by auto
qed

end
