(* ===== verification/Catalog_Facts.thy ===== *)
theory Catalog_Facts
  imports Registry_Facts
begin

text \<open>
  Datasets, external catalogs and search in the registry: all-or-nothing replacement and
  reading back what was stored, listings without dangling names, and what a search query
  matches.
\<close>

section \<open>Replacing a dataset or a catalog\<close>

lemma filter_push_new:
  "filter P (push_new acc x) = (if P x then push_new (filter P acc) x else filter P acc)"
  by (auto simp: push_new_def)

lemma filter_foldl_push_new:
  "filter P (foldl push_new acc xs) = foldl push_new (filter P acc) (filter P xs)"
  by (induction xs arbitrary: acc) (auto simp: filter_push_new)

lemma sort_distinct_set: "distinct xs \<Longrightarrow> sort xs = sorted_list_of_set (set xs)"
  by (simp add: sorted_list_of_set_sort_remdups distinct_remdups_id)

lemma tags_of_replaced:
  "tags_for (foldl push_new (filter (\<lambda>(n, _). n \<noteq> ow) tbl) (map (Pair ow) ts)) ow = sorted_list_of_set (set ts)"
proof -
  have "filter (\<lambda>(n, _). n = ow) (foldl push_new (filter (\<lambda>(n, _). n \<noteq> ow) tbl) (map (Pair ow) ts))
      = dedup (map (Pair ow) ts)"
    by (simp add: filter_foldl_push_new dedup_def filter_map comp_def case_prod_unfold)
  moreover have "distinct (map snd (dedup (map (Pair ow) ts)))"
    by (auto simp: distinct_map inj_on_def)
  moreover have "set (map snd (dedup (map (Pair ow) ts))) = set ts" by force
  ultimately show ?thesis unfolding tags_for_def by (metis sort_distinct_set)
qed

lemma tags_of_others:
  assumes "other \<noteq> ow"
  shows "tags_for (foldl push_new (filter (\<lambda>(n, _). n \<noteq> ow) tbl) (map (Pair ow) ts)) other = tags_for tbl other"
proof -
  have "filter (\<lambda>(n, _). n = other) (filter (\<lambda>(n, _). n \<noteq> ow) tbl) = filter (\<lambda>(n, _). n = other) tbl"
    using assms by (auto intro: filter_cong)
  then show ?thesis
    using assms by (simp add: tags_for_def filter_foldl_push_new filter_map comp_def)
qed

text \<open>The statements of a loop of inserts all run, and what they leave.\<close>

definition all_run :: "fault \<Rightarrow> nat \<Rightarrow> nat \<Rightarrow> bool" where
  "all_run f i k \<longleftrightarrow> (\<forall>j \<in> set [i..<k]. f j = None)"

lemma all_run_simps [simp]:
  "all_run no_fault i k" "all_run f i i"
  by (simp_all add: all_run_def)

lemma all_run_Suc: "i < k \<Longrightarrow> all_run f i k \<longleftrightarrow> f i = None \<and> all_run f (Suc i) k"
  by (simp add: all_run_def upt_conv_Cons)

lemma all_run_append: "i \<le> j \<Longrightarrow> j \<le> k \<Longrightarrow> all_run f i k \<longleftrightarrow> all_run f i j \<and> all_run f j k"
  by (auto simp: all_run_def)

lemma all_run_ends:
  assumes "1 \<le> j"
  shows "all_run f 0 (Suc j) \<longleftrightarrow> f 0 = None \<and> all_run f 1 j \<and> f j = None"
  using assms all_run_append [of 0 1 "Suc j" f] all_run_append [of 1 j "Suc j" f]
  by (simp add: all_run_def)

lemma run_insert_tables:
  "run_stmts f i (map (insert_dataset_table n) ts) r = Ok (j, r') \<longleftrightarrow>
     j = i + length ts \<and> all_run f i j \<and> distinct (map table_name ts)
     \<and> (\<forall>t \<in> set ts. (n, table_name t) \<notin> table_key ` set (dataset_tables r))
     \<and> r' = r\<lparr>dataset_tables := dataset_tables r @ map (Pair n) ts\<rparr>"
proof (induction ts arbitrary: i r)
  case Nil
  then show ?case by auto
next
  case (Cons t ts)
  have key: "insert_dataset_table n t r =
      (if (n, table_name t) \<in> table_key ` set (dataset_tables r) then Err constraint_error
       else Ok (r\<lparr>dataset_tables := dataset_tables r @ [(n, t)]\<rparr>))"
    by (simp add: insert_dataset_table_def table_key_def case_prod_unfold)
  show ?case
  proof (cases "f i = None \<and> (n, table_name t) \<notin> table_key ` set (dataset_tables r)")
    case True
    then have eq: "run_stmts f i (map (insert_dataset_table n) (t # ts)) r
        = run_stmts f (Suc i) (map (insert_dataset_table n) ts) (r\<lparr>dataset_tables := dataset_tables r @ [(n, t)]\<rparr>)"
      by (simp add: key)
    have keys: "(\<forall>u \<in> set ts. (n, table_name u) \<notin> table_key ` set (dataset_tables r @ [(n, t)])) \<longleftrightarrow>
        (\<forall>u \<in> set ts. (n, table_name u) \<notin> table_key ` set (dataset_tables r)) \<and> table_name t \<notin> table_name ` set ts"
      by (auto simp: table_key_def) (metis image_eqI)
    show ?thesis unfolding eq Cons.IH using True keys by (simp add: all_run_Suc cong: conj_cong) blast
  next
    case False
    then show ?thesis by (cases "f i") (auto simp: key all_run_Suc)
  qed
qed

lemma run_insert_dataset_tags:
  "run_stmts f i (map (insert_dataset_tag n) ts) r = Ok (j, r') \<longleftrightarrow>
     j = i + length ts \<and> all_run f i j
     \<and> r' = r\<lparr>dataset_tags := foldl push_new (dataset_tags r) (map (Pair n) ts)\<rparr>"
  by (induction ts arbitrary: i r) (auto simp: insert_dataset_tag_def all_run_Suc split: option.splits)

lemma run_insert_catalog_tags:
  "run_stmts f i (map (insert_catalog_tag n) ts) r = Ok (j, r') \<longleftrightarrow>
     j = i + length ts \<and> all_run f i j
     \<and> r' = r\<lparr>catalog_tags := foldl push_new (catalog_tags r) (map (Pair n) ts)\<rparr>"
  by (induction ts arbitrary: i r) (auto simp: insert_catalog_tag_def all_run_Suc split: option.splits)

definition replaced_dataset :: "int \<Rightarrow> DatasetRow \<Rightarrow> registry \<Rightarrow> registry" where
  "replaced_dataset now d r =
     r\<lparr>datasets := filter (\<lambda>x. d_name x \<noteq> ds_name d) (datasets r)
          @ [\<lparr>d_name = ds_name d, d_description = ds_description d, d_created_by = ds_created_by d,
              d_created_at = now\<rparr>],
       dataset_tables := filter (\<lambda>(n, _). n \<noteq> ds_name d) (dataset_tables r) @ map (Pair (ds_name d)) (ds_tables d),
       dataset_tags := foldl push_new (filter (\<lambda>(n, _). n \<noteq> ds_name d) (dataset_tags r))
          (map (Pair (ds_name d)) (ds_tags d))\<rparr>"

definition replaced_catalog :: "int \<Rightarrow> string \<Rightarrow> CatalogRow \<Rightarrow> registry \<Rightarrow> registry" where
  "replaced_catalog now js ca r =
     r\<lparr>catalogs := filter (\<lambda>x. c_name x \<noteq> ca_name ca) (catalogs r)
          @ [\<lparr>c_name = ca_name ca, c_type = ca_type ca, c_params_json = js, c_description = ca_description ca,
              c_created_by = ca_created_by ca, c_created_at = now\<rparr>],
       catalog_tags := foldl push_new (filter (\<lambda>(n, _). n \<noteq> ca_name ca) (catalog_tags r))
          (map (Pair (ca_name ca)) (ca_tags ca))\<rparr>"

text \<open>The body of the transaction, run to its end.\<close>

lemma run_dataset_body:
  "run_stmts f 1 (add_dataset_body now d) r = Ok (j, r') \<longleftrightarrow>
     j = 5 + length (ds_tables d) + length (ds_tags d) \<and> all_run f 1 j
     \<and> distinct (map table_name (ds_tables d)) \<and> r' = replaced_dataset now d r"
proof -
  let ?n = "length (ds_tables d)" and ?m = "length (ds_tags d)"
  let ?r1 = "r\<lparr>dataset_tables := filter (\<lambda>(n, _). n \<noteq> ds_name d) (dataset_tables r),
       dataset_tags := filter (\<lambda>(n, _). n \<noteq> ds_name d) (dataset_tags r),
       datasets := filter (\<lambda>x. d_name x \<noteq> ds_name d) (datasets r)
          @ [\<lparr>d_name = ds_name d, d_description = ds_description d, d_created_by = ds_created_by d,
              d_created_at = now\<rparr>]\<rparr>"
  define h where "h = take 4 (add_dataset_body now d)"
  have head: "run_stmts f 1 h r = Ok (i, s) \<longleftrightarrow>
      i = 5 \<and> all_run f 1 5 \<and> s = ?r1" for i s
  proof -
    have nin: "ds_name d \<notin> d_name ` {x \<in> set (datasets r). d_name x \<noteq> ds_name d}" by auto
    have "run_stmts f 1 h r =
        (case f 1 of Some e \<Rightarrow> Err e | None \<Rightarrow> case f 2 of Some e \<Rightarrow> Err e | None \<Rightarrow>
         case f 3 of Some e \<Rightarrow> Err e | None \<Rightarrow> case f 4 of Some e \<Rightarrow> Err e | None \<Rightarrow> Ok (5, ?r1))"
      by (simp add: h_def add_dataset_body_def insert_dataset_def nin eval_nat_numeral cong: option.case_cong)
    moreover have "all_run f 1 5 \<longleftrightarrow> f 1 = None \<and> f 2 = None \<and> f 3 = None \<and> f 4 = None"
      by (simp add: all_run_def upt_rec eval_nat_numeral)
    ultimately show ?thesis by (auto split: option.splits)
  qed
  have body: "add_dataset_body now d = h
      @ map (insert_dataset_table (ds_name d)) (ds_tables d) @ map (insert_dataset_tag (ds_name d)) (ds_tags d)"
    by (simp add: h_def add_dataset_body_def)
  have "run_stmts f 1 (add_dataset_body now d) r = Ok (j, r') \<longleftrightarrow>
      (\<exists>i s k t. run_stmts f 1 h r = Ok (i, s)
         \<and> run_stmts f i (map (insert_dataset_table (ds_name d)) (ds_tables d)) s = Ok (k, t)
         \<and> run_stmts f k (map (insert_dataset_tag (ds_name d)) (ds_tags d)) t = Ok (j, r'))"
    unfolding body run_stmts_append_Ok by blast
  also have "\<dots> \<longleftrightarrow> j = 5 + ?n + ?m \<and> all_run f 1 5 \<and> all_run f 5 (5 + ?n) \<and> all_run f (5 + ?n) (5 + ?n + ?m)
      \<and> distinct (map table_name (ds_tables d)) \<and> r' = replaced_dataset now d r"
    unfolding head run_insert_tables run_insert_dataset_tags
    by (auto simp: replaced_dataset_def table_key_def)
  finally show ?thesis
    using all_run_append [of 1 5 "5 + ?n + ?m" f] all_run_append [of 5 "5 + ?n" "5 + ?n + ?m" f] by auto
qed

lemma run_catalog_body:
  "run_stmts f 1 (add_catalog_body now js ca) r = Ok (j, r') \<longleftrightarrow>
     j = 4 + length (ca_tags ca) \<and> all_run f 1 j \<and> r' = replaced_catalog now js ca r"
proof -
  let ?m = "length (ca_tags ca)"
  let ?r1 = "r\<lparr>catalog_tags := filter (\<lambda>(n, _). n \<noteq> ca_name ca) (catalog_tags r),
       catalogs := filter (\<lambda>x. c_name x \<noteq> ca_name ca) (catalogs r)
          @ [\<lparr>c_name = ca_name ca, c_type = ca_type ca, c_params_json = js, c_description = ca_description ca,
              c_created_by = ca_created_by ca, c_created_at = now\<rparr>]\<rparr>"
  define h where "h = take 3 (add_catalog_body now js ca)"
  have head: "run_stmts f 1 h r = Ok (i, s) \<longleftrightarrow>
      i = 4 \<and> all_run f 1 4 \<and> s = ?r1" for i s
  proof -
    have nin: "ca_name ca \<notin> c_name ` {x \<in> set (catalogs r). c_name x \<noteq> ca_name ca}" by auto
    have "run_stmts f 1 h r =
        (case f 1 of Some e \<Rightarrow> Err e | None \<Rightarrow> case f 2 of Some e \<Rightarrow> Err e | None \<Rightarrow>
         case f 3 of Some e \<Rightarrow> Err e | None \<Rightarrow> Ok (4, ?r1))"
      by (simp add: h_def add_catalog_body_def insert_catalog_def nin eval_nat_numeral cong: option.case_cong)
    moreover have "all_run f 1 4 \<longleftrightarrow> f 1 = None \<and> f 2 = None \<and> f 3 = None"
      by (simp add: all_run_def upt_rec eval_nat_numeral)
    ultimately show ?thesis by (auto split: option.splits)
  qed
  have body: "add_catalog_body now js ca = h @ map (insert_catalog_tag (ca_name ca)) (ca_tags ca)"
    by (simp add: h_def add_catalog_body_def)
  have "run_stmts f 1 (add_catalog_body now js ca) r = Ok (j, r') \<longleftrightarrow>
      (\<exists>i s. run_stmts f 1 h r = Ok (i, s)
         \<and> run_stmts f i (map (insert_catalog_tag (ca_name ca)) (ca_tags ca)) s = Ok (j, r'))"
    unfolding body run_stmts_append_Ok by blast
  also have "\<dots> \<longleftrightarrow> j = 4 + ?m \<and> all_run f 1 4 \<and> all_run f 4 (4 + ?m) \<and> r' = replaced_catalog now js ca r"
    unfolding head run_insert_catalog_tags by (auto simp: replaced_catalog_def)
  finally show ?thesis using all_run_append [of 1 4 "4 + ?m" f] by auto
qed

lemma is_ident_ne: "is_ident s \<Longrightarrow> s \<noteq> []"
  by (auto simp: is_ident_def)

lemma add_dataset_Ok:
  "add_dataset f now d r = (Inr n, r') \<longleftrightarrow>
     n = ds_name d \<and> is_ident (ds_name d) \<and> ds_tables d \<noteq> [] \<and> distinct (map table_name (ds_tables d))
     \<and> all_run f 0 (6 + length (ds_tables d) + length (ds_tags d)) \<and> r' = replaced_dataset now d r"
proof -
  let ?j = "5 + length (ds_tables d) + length (ds_tags d)"
  have "6 + length (ds_tables d) + length (ds_tags d) = Suc ?j" by simp
  then have run: "all_run f 0 (6 + length (ds_tables d) + length (ds_tags d)) \<longleftrightarrow>
      f 0 = None \<and> all_run f 1 ?j \<and> f ?j = None"
    by (simp only:) (rule all_run_ends, simp)
  have "in_txn f (add_dataset_body now d) r = (Inr u, r') \<longleftrightarrow>
      f 0 = None \<and> all_run f 1 ?j \<and> f ?j = None \<and> distinct (map table_name (ds_tables d))
      \<and> r' = replaced_dataset now d r" for u
    unfolding in_txn_Ok run_dataset_body by auto
  then show ?thesis
    unfolding run add_dataset_def
    by (cases "in_txn f (add_dataset_body now d) r"; cases "fst (in_txn f (add_dataset_body now d) r)")
       (auto simp: is_ident_ne)
qed

lemma add_catalog_Ok:
  "add_catalog to_json f now ca r = (Inr n, r') \<longleftrightarrow>
     n = ca_name ca \<and> is_ident (ca_name ca) \<and> ca_type ca \<noteq> []
     \<and> all_run f 0 (5 + length (ca_tags ca)) \<and> r' = replaced_catalog now (to_json (ca_params ca)) ca r"
proof -
  let ?j = "4 + length (ca_tags ca)"
  have "5 + length (ca_tags ca) = Suc ?j" by simp
  then have run: "all_run f 0 (5 + length (ca_tags ca)) \<longleftrightarrow> f 0 = None \<and> all_run f 1 ?j \<and> f ?j = None"
    by (simp only:) (rule all_run_ends, simp)
  define js where "js = to_json (ca_params ca)"
  have "in_txn f (add_catalog_body now js ca) r = (Inr u, r') \<longleftrightarrow>
      f 0 = None \<and> all_run f 1 ?j \<and> f ?j = None \<and> r' = replaced_catalog now js ca r" for u
    unfolding in_txn_Ok run_catalog_body by auto
  then show ?thesis
    unfolding run add_catalog_def js_def [symmetric]
    by (cases "in_txn f (add_catalog_body now js ca) r"; cases "fst (in_txn f (add_catalog_body now js ca) r)")
       (auto simp: is_ident_ne)
qed

lemma add_dataset_Err: "add_dataset f now d r = (Inl e, r') \<Longrightarrow> r' = r"
  by (auto simp: add_dataset_def split: if_splits sum.splits prod.splits dest: in_txn_Err)

lemma add_catalog_Err: "add_catalog to_json f now ca r = (Inl e, r') \<Longrightarrow> r' = r"
  by (auto simp: add_catalog_def split: if_splits sum.splits prod.splits dest: in_txn_Err)

section \<open>Reading back\<close>

lemma find_replaced:
  "List.find (\<lambda>x. k x = n) (filter (\<lambda>x. k x \<noteq> n) xs @ [y]) = (if k y = n then Some y else None)"
  by (induction xs) auto

lemma find_replaced_other:
  "m \<noteq> n \<Longrightarrow> k y = n \<Longrightarrow> List.find (\<lambda>x. k x = m) (filter (\<lambda>x. k x \<noteq> n) xs @ [y]) = List.find (\<lambda>x. k x = m) xs"
  by (induction xs) auto

lemma filter_replaced:
  "filter (\<lambda>(m, _). m = n) (filter (\<lambda>(m, _). m \<noteq> n) xs @ map (Pair n) ys) = map (Pair n) ys"
  by (auto simp: filter_map comp_def filter_empty_conv)

lemma filter_replaced_other:
  "m \<noteq> n \<Longrightarrow> filter (\<lambda>(k, _). k = m) (filter (\<lambda>(k, _). k \<noteq> n) xs @ map (Pair n) ys) = filter (\<lambda>(k, _). k = m) xs"
  by (auto simp: filter_map comp_def intro: filter_cong)

lemma get_replaced_dataset:
  "fst (get_dataset no_fault (ds_name d) (replaced_dataset now d r)) =
     Ok (d\<lparr>ds_tags := sorted_list_of_set (set (ds_tags d)),
           ds_tables := sort_key table_name (ds_tables d), ds_created_at := now\<rparr>)"
  by (cases d) (simp add: get_dataset_def replaced_dataset_def find_replaced filter_replaced tags_of_replaced comp_def
      del: filter_append filter_filter)

lemma get_other_dataset:
  "n \<noteq> ds_name d \<Longrightarrow> fst (get_dataset f n (replaced_dataset now d r)) = fst (get_dataset f n r)"
  by (auto simp: get_dataset_def replaced_dataset_def find_replaced_other filter_replaced_other tags_of_others stmt_def
      simp del: filter_append filter_filter split: option.split)

lemma get_replaced_catalog:
  "fst (get_catalog from_json no_fault (ca_name ca) (replaced_catalog now js ca r)) =
     Ok (ca\<lparr>ca_params := (case from_json js of None \<Rightarrow> [] | Some m \<Rightarrow> m),
            ca_tags := sorted_list_of_set (set (ca_tags ca)), ca_created_at := now\<rparr>)"
  by (cases ca) (simp add: get_catalog_def replaced_catalog_def find_replaced tags_of_replaced)

lemma get_other_catalog:
  "n \<noteq> ca_name ca \<Longrightarrow> fst (get_catalog from_json f n (replaced_catalog now js ca r)) = fst (get_catalog from_json f n r)"
  by (auto simp: get_catalog_def replaced_catalog_def find_replaced_other tags_of_others stmt_def split: option.split)

section \<open>Listings\<close>

text \<open>
  The states in which no removal was cut short between its statements: those reachable by
  changing datasets and catalogs through whole calls, and anything else arbitrarily.
\<close>

inductive clean :: "registry \<Rightarrow> bool" where
  clean_fresh: "clean (registry_fresh now)"
| clean_other: "clean r \<Longrightarrow> clean (r\<lparr>nodes := ns, ponds := ps, policy := pol\<rparr>)"
| clean_add_dataset: "clean r \<Longrightarrow> clean (snd (add_dataset f now d r))"
| clean_remove_dataset: "clean r \<Longrightarrow> f 1 = None \<Longrightarrow> f 2 = None \<Longrightarrow> clean (snd (remove_dataset f name r))"
| clean_add_catalog: "clean r \<Longrightarrow> clean (snd (add_catalog to_json f now ca r))"
| clean_remove_catalog: "clean r \<Longrightarrow> f 1 = None \<Longrightarrow> clean (snd (remove_catalog f name r))"

lemma orphans_add_dataset: "no_orphans r \<Longrightarrow> no_orphans (snd (add_dataset f now d r))"
proof (cases "add_dataset f now d r")
  case (Pair res r')
  assume o: "no_orphans r"
  show ?thesis
  proof (cases res)
    case (Inl e)
    then show ?thesis using Pair o add_dataset_Err by (metis snd_conv)
  next
    case (Inr n)
    then have "r' = replaced_dataset now d r" using Pair by (simp add: add_dataset_Ok)
    then show ?thesis
      using o Pair by (auto simp: no_orphans_def replaced_dataset_def list_all_iff foldl_push_new)
  qed
qed

lemma orphans_add_catalog: "no_orphans r \<Longrightarrow> no_orphans (snd (add_catalog to_json f now ca r))"
proof (cases "add_catalog to_json f now ca r")
  case (Pair res r')
  assume o: "no_orphans r"
  show ?thesis
  proof (cases res)
    case (Inl e)
    then show ?thesis using Pair o add_catalog_Err by (metis snd_conv)
  next
    case (Inr n)
    then have "r' = replaced_catalog now (to_json (ca_params ca)) ca r" using Pair by (simp add: add_catalog_Ok)
    then show ?thesis
      using o Pair by (auto simp: no_orphans_def replaced_catalog_def list_all_iff foldl_push_new)
  qed
qed

lemma orphans_remove_dataset:
  "no_orphans r \<Longrightarrow> f 1 = None \<Longrightarrow> f 2 = None \<Longrightarrow> no_orphans (snd (remove_dataset f name r))"
  by (auto simp: remove_dataset_def stmt_def no_orphans_def list_all_iff Let_def split: option.split)

lemma orphans_remove_catalog:
  "no_orphans r \<Longrightarrow> f 1 = None \<Longrightarrow> no_orphans (snd (remove_catalog f name r))"
  by (auto simp: remove_catalog_def stmt_def no_orphans_def list_all_iff Let_def split: option.split)

lemma clean_no_orphans: "clean r \<Longrightarrow> no_orphans r"
proof (induction rule: clean.induct)
  case (clean_other r ns ps pol)
  then show ?case by (simp add: no_orphans_def)
qed (simp_all add: inv_fresh orphans_add_dataset orphans_add_catalog orphans_remove_dataset orphans_remove_catalog)

lemma search_known:
  assumes "\<forall>(n, t) \<in> set tag_tbl. n \<in> fst ` set tbl" and "n \<in> set (search tbl tag_tbl q)"
  shows "n \<in> fst ` set tbl"
  using assms by (auto simp: search_def Let_def split: if_splits)

lemma collect_named:
  assumes "\<And>n. n \<in> set names \<Longrightarrow> is_ok (g n) \<and> (\<forall>row. g n = Ok row \<longrightarrow> nm row = n)"
  shows "\<exists>rows. collect (map g names) = Ok rows \<and> map nm rows = names"
  using assms
proof (induction names)
  case Nil
  then show ?case by simp
next
  case (Cons n names)
  obtain row where "g n = Ok row" "nm row = n" using Cons.prems [of n] by (auto simp: is_ok_iff)
  moreover obtain rows where "collect (map g names) = Ok rows" "map nm rows = names"
    using Cons by auto
  ultimately show ?case by auto
qed

lemma map_enumerate_snd: "map (\<lambda>(i, n). g n) (enumerate k xs) = map g xs"
  by (induction xs arbitrary: k) auto

section \<open>Search\<close>

text \<open>A character that \<open>LIKE\<close> reads as itself.\<close>

definition like_plain :: "string \<Rightarrow> bool" where
  "like_plain p \<longleftrightarrow> CHR ''%'' \<notin> set p \<and> CHR ''_'' \<notin> set p"

lemma like_percent: "like (CHR ''%'' # p) s \<longleftrightarrow> (\<exists>a b. s = a @ b \<and> like p b)"
proof (induction s)
  case Nil
  then show ?case by simp
next
  case (Cons c s)
  have "(\<exists>a b. c # s = a @ b \<and> like p b) \<longleftrightarrow> like p (c # s) \<or> (\<exists>a b. s = a @ b \<and> like p b)"
    by (auto simp: Cons_eq_append_conv)
  then show ?case using Cons.IH by simp
qed

lemma like_all [simp]: "like ''%'' s"
  by (simp add: like_percent)

lemma like_plain_prefix: "like_plain p \<Longrightarrow> like (p @ q) s \<longleftrightarrow> (\<exists>t. s = p @ t \<and> like q t)"
proof (induction p arbitrary: s)
  case Nil
  then show ?case by simp
next
  case (Cons x p)
  then show ?case by (cases s) (auto simp: like_plain_def)
qed

lemma like_prefix: "like_plain p \<Longrightarrow> like (p @ ''%'') s \<longleftrightarrow> starts_with s p"
  by (simp add: like_plain_prefix starts_with_iff)

lemma like_substring: "like_plain p \<Longrightarrow> like (''%'' @ p @ ''%'') s \<longleftrightarrow> contains_str s p"
  by (auto simp: like_percent like_plain_prefix contains_str_iff)

lemma lower_char_special: "lower_char c = CHR ''%'' \<longleftrightarrow> c = CHR ''%''" "lower_char c = CHR ''_'' \<longleftrightarrow> c = CHR ''_''"
proof -
  have low: "lower_char c = x \<Longrightarrow> code x < (97::nat) \<Longrightarrow> c = x" for x
    by (auto simp: lower_char_def is_ascii_upper_def split: if_splits)
  have "lower_char (CHR ''%'') = CHR ''%''" "lower_char (CHR ''_'') = CHR ''_''"
    by (simp_all add: is_ascii_upper_def)
  then show "lower_char c = CHR ''%'' \<longleftrightarrow> c = CHR ''%''" "lower_char c = CHR ''_'' \<longleftrightarrow> c = CHR ''_''"
    using low [of "CHR ''%''"] low [of "CHR ''_''"] by auto
qed

lemma like_plain_lower [simp]: "like_plain (to_lowercase p) = like_plain p"
  by (auto simp: like_plain_def to_lowercase_def image_iff lower_char_special) (metis lower_char_special)+

lemma ilike_substring:
  "like_plain q \<Longrightarrow> ilike (''%'' @ q @ ''%'') s \<longleftrightarrow> contains_str (to_lowercase s) (to_lowercase q)"
proof -
  assume "like_plain q"
  moreover have "to_lowercase ''%'' = ''%''" by (simp add: is_ascii_upper_def)
  ultimately show ?thesis
    unfolding ilike_def by (simp only: to_lowercase_simps like_substring like_plain_lower to_lowercase_simps(4))
qed

section \<open>Properties\<close>

text \<open>Replacing a dataset is all or nothing: whichever statement fails, a dataset that
  is not added leaves the registry exactly as it was. An added one reads back as given, its
  tables in name order and its tags as a sorted set, every other dataset reads back as before,
  and with no failing statement it is added exactly when its name is a bare identifier and its
  tables are non-empty with distinct names.\<close>

lemma add_dataset_all_or_nothing:
  "(case add_dataset f now d r of
      (Inl e, r') \<Rightarrow> r' = r
    | (Inr n, r') \<Rightarrow> n = ds_name d
       \<and> fst (get_dataset no_fault n r') =
           Ok (d\<lparr>ds_tags := sorted_list_of_set (set (ds_tags d)),
                 ds_tables := sort_key table_name (ds_tables d), ds_created_at := now\<rparr>)
       \<and> (m = ds_name d \<or> fst (get_dataset no_fault m r') = fst (get_dataset no_fault m r))
       \<and> ponds r' = ponds r \<and> nodes r' = nodes r \<and> catalogs r' = catalogs r)
   \<and> (is_ok (fst (add_dataset no_fault now d r)) \<longleftrightarrow>
        is_ident (ds_name d) \<and> ds_tables d \<noteq> [] \<and> distinct (map table_name (ds_tables d)))"
proof
  show "case add_dataset f now d r of
      (Inl e, r') \<Rightarrow> r' = r
    | (Inr n, r') \<Rightarrow> n = ds_name d
       \<and> fst (get_dataset no_fault n r') =
           Ok (d\<lparr>ds_tags := sorted_list_of_set (set (ds_tags d)),
                 ds_tables := sort_key table_name (ds_tables d), ds_created_at := now\<rparr>)
       \<and> (m = ds_name d \<or> fst (get_dataset no_fault m r') = fst (get_dataset no_fault m r))
       \<and> ponds r' = ponds r \<and> nodes r' = nodes r \<and> catalogs r' = catalogs r"
  proof (cases "add_dataset f now d r")
    case (Pair res r')
    show ?thesis
    proof (cases res)
      case (Inl e)
      then show ?thesis using Pair add_dataset_Err by fastforce
    next
      case (Inr n)
      then have "n = ds_name d" "r' = replaced_dataset now d r" using Pair by (simp_all add: add_dataset_Ok)
      then show ?thesis
        using Pair Inr get_replaced_dataset get_other_dataset by (simp add: replaced_dataset_def [of now d r]) (metis replaced_dataset_def)
    qed
  qed
  show "is_ok (fst (add_dataset no_fault now d r)) \<longleftrightarrow>
        is_ident (ds_name d) \<and> ds_tables d \<noteq> [] \<and> distinct (map table_name (ds_tables d))"
    unfolding is_ok_fst_iff add_dataset_Ok by auto
qed

text \<open>Catalogs: an add that fails leaves the registry as it was; a stored catalog reads
  back with its type, its parameters (through their JSON column), its description and its tags
  as a sorted set, and leaves every other catalog as it was. The JSON codec is assumed to read
  back what it wrote.\<close>

lemma catalog_roundtrip:
  assumes "\<And>ps. from_json (to_json ps) = Some ps"
  shows "case add_catalog to_json f now ca r of
      (Inl e, r') \<Rightarrow> r' = r
    | (Inr n, r') \<Rightarrow> n = ca_name ca
       \<and> fst (get_catalog from_json no_fault n r') =
           Ok (ca\<lparr>ca_tags := sorted_list_of_set (set (ca_tags ca)), ca_created_at := now\<rparr>)
       \<and> (m = ca_name ca \<or> fst (get_catalog from_json no_fault m r') = fst (get_catalog from_json no_fault m r))
       \<and> datasets r' = datasets r \<and> ponds r' = ponds r"
proof (cases "add_catalog to_json f now ca r")
  case (Pair res r')
  show ?thesis
  proof (cases res)
    case (Inl e)
    then show ?thesis using Pair add_catalog_Err by fastforce
  next
    case (Inr n)
    then have n: "n = ca_name ca" and r': "r' = replaced_catalog now (to_json (ca_params ca)) ca r"
      using Pair by (simp_all add: add_catalog_Ok)
    have "fst (get_catalog from_json no_fault n r') =
           Ok (ca\<lparr>ca_tags := sorted_list_of_set (set (ca_tags ca)), ca_created_at := now\<rparr>)"
      unfolding n r' get_replaced_catalog assms by simp
    moreover have "m = ca_name ca \<or> fst (get_catalog from_json no_fault m r') = fst (get_catalog from_json no_fault m r)"
      unfolding r' using get_other_catalog by blast
    moreover have "datasets r' = datasets r" "ponds r' = ponds r" unfolding r' by (simp_all add: replaced_catalog_def)
    ultimately show ?thesis using Pair Inr n by simp
  qed
qed

text \<open>A codec for the witness: each character in unary is more than enough to read back.\<close>

definition demo_enc :: "params \<Rightarrow> string" where
  "demo_enc ps = concat (map (\<lambda>(k, v). concat (map (\<lambda>c. [CHR ''c'', c]) k) @ ''k'' @ concat (map (\<lambda>c. [CHR ''c'', c]) v) @ ''v'') ps)"

fun demo_dec :: "string \<Rightarrow> string \<Rightarrow> string \<Rightarrow> params \<Rightarrow> params option" where
  "demo_dec [] k acc ps = Some (rev ps)"
| "demo_dec (x # s) k acc ps =
     (if x = CHR ''c'' then (case s of [] \<Rightarrow> None | c # s' \<Rightarrow> demo_dec s' k (acc @ [c]) ps)
      else if x = CHR ''k'' then demo_dec s acc [] ps
      else demo_dec s [] [] ((k, acc) # ps))"

lemma demo_dec_chars: "demo_dec (concat (map (\<lambda>c. [CHR ''c'', c]) w) @ s) k acc ps = demo_dec s k (acc @ w) ps"
  by (induction w arbitrary: acc) auto

lemma demo_codec: "demo_dec (demo_enc ps) [] [] acc = Some (rev acc @ ps)"
  by (induction ps arbitrary: acc) (auto simp: demo_enc_def demo_dec_chars)

lemma catalog_roundtrip_example:
  "fst (get_catalog (\<lambda>s. demo_dec s [] [] []) no_fault ''lake''
      (snd (add_catalog demo_enc no_fault 7
        \<lparr>ca_name = ''lake'', ca_type = ''iceberg'', ca_params = [(''endpoint'', ''u'')], ca_description = [],
         ca_tags = [], ca_created_by = ''op'', ca_created_at = 0\<rparr> (registry_fresh 0))))
   = Ok \<lparr>ca_name = ''lake'', ca_type = ''iceberg'', ca_params = [(''endpoint'', ''u'')], ca_description = [],
         ca_tags = [], ca_created_by = ''op'', ca_created_at = 7\<rparr>"
proof -
  let ?ca = "\<lparr>ca_name = ''lake'', ca_type = ''iceberg'', ca_params = [(''endpoint'', ''u'')], ca_description = [],
         ca_tags = [], ca_created_by = ''op'', ca_created_at = 0\<rparr>"
  have codec: "demo_dec (demo_enc ps) [] [] [] = Some ps" for ps using demo_codec [of ps "[]"] by simp
  have "is_ident ''lake''" by (simp add: is_ident_def char_class_defs)
  then have "add_catalog demo_enc no_fault 7 ?ca (registry_fresh 0)
      = (Inr ''lake'', replaced_catalog 7 (demo_enc (ca_params ?ca)) ?ca (registry_fresh 0))"
    by (simp add: add_catalog_Ok)
  then show ?thesis
    using catalog_roundtrip [where from_json = "\<lambda>s. demo_dec s [] [] []" and to_json = demo_enc
        and f = no_fault and now = 7 and ca = ?ca and r = "registry_fresh 0" and m = "''lake''", OF codec]
    by simp
qed

text \<open>Listings do not dangle: as long as no removal was cut short between its
  statements, every search of datasets or catalogs succeeds, and returns one row for each
  name the search selects, in that order.\<close>

lemma listing_is_total:
  assumes "clean r"
  shows "(\<exists>rows. list_datasets no_fault (\<lambda>_. no_fault) q r = (Ok rows, r)
      \<and> map ds_name rows = search (map (\<lambda>d. (d_name d, d_description d)) (datasets r)) (dataset_tags r) q)
   \<and> (\<exists>rows. list_catalogs from_json no_fault (\<lambda>_. no_fault) q r = (Ok rows, r)
      \<and> map ca_name rows = search (map (\<lambda>c. (c_name c, c_description c)) (catalogs r)) (catalog_tags r) q)"
proof
  define names where "names = search (map (\<lambda>d. (d_name d, d_description d)) (datasets r)) (dataset_tags r) q"
  have own: "\<forall>(n, t) \<in> set (dataset_tags r). n \<in> fst ` set (map (\<lambda>d. (d_name d, d_description d)) (datasets r))"
    using clean_no_orphans [OF assms] by (simp add: no_orphans_def list_all_iff image_image)
  have "n \<in> d_name ` set (datasets r)" if "n \<in> set names" for n
    using search_known [OF own that [unfolded names_def]] by (simp add: image_image)
  then have "is_ok (fst (get_dataset no_fault n r)) \<and> (\<forall>row. fst (get_dataset no_fault n r) = Ok row \<longrightarrow> ds_name row = n)"
    if "n \<in> set names" for n
    using that by (auto simp: get_dataset_def find_None_iff split: option.splits)
  then obtain rows where "collect (map (\<lambda>n. fst (get_dataset no_fault n r)) names) = Ok rows" "map ds_name rows = names"
    using collect_named [of names "\<lambda>n. fst (get_dataset no_fault n r)" ds_name] by auto
  then show "\<exists>rows. list_datasets no_fault (\<lambda>_. no_fault) q r = (Ok rows, r)
      \<and> map ds_name rows = search (map (\<lambda>d. (d_name d, d_description d)) (datasets r)) (dataset_tags r) q"
    by (simp add: list_datasets_def Let_def map_enumerate_snd flip: names_def)
next
  define names where "names = search (map (\<lambda>c. (c_name c, c_description c)) (catalogs r)) (catalog_tags r) q"
  have own: "\<forall>(n, t) \<in> set (catalog_tags r). n \<in> fst ` set (map (\<lambda>c. (c_name c, c_description c)) (catalogs r))"
    using clean_no_orphans [OF assms] by (simp add: no_orphans_def list_all_iff image_image)
  have "n \<in> c_name ` set (catalogs r)" if "n \<in> set names" for n
    using search_known [OF own that [unfolded names_def]] by (simp add: image_image)
  then have "is_ok (fst (get_catalog from_json no_fault n r))
      \<and> (\<forall>row. fst (get_catalog from_json no_fault n r) = Ok row \<longrightarrow> ca_name row = n)"
    if "n \<in> set names" for n
    using that by (auto simp: get_catalog_def find_None_iff split: option.splits)
  then obtain rows where "collect (map (\<lambda>n. fst (get_catalog from_json no_fault n r)) names) = Ok rows"
    "map ca_name rows = names"
    using collect_named [of names "\<lambda>n. fst (get_catalog from_json no_fault n r)" ca_name] by auto
  then show "\<exists>rows. list_catalogs from_json no_fault (\<lambda>_. no_fault) q r = (Ok rows, r)
      \<and> map ca_name rows = search (map (\<lambda>c. (c_name c, c_description c)) (catalogs r)) (catalog_tags r) q"
    by (simp add: list_catalogs_def Let_def map_enumerate_snd flip: names_def)
qed

lemma listing_is_total_example:
  "\<exists>rows. list_datasets no_fault (\<lambda>_. no_fault) ''#tpch'' (registry_fresh 0) = (Ok rows, registry_fresh 0)"
  using listing_is_total [OF clean_fresh [of 0], of "''#tpch''" "\<lambda>_. None"] by blast

text \<open>Removal is not transactional: if the statement that deletes the tags of a dataset
  fails after its row was deleted, every later search for one of its tags fails, for the
  datasets that still have the tag too.\<close>

lemma interrupted_removal_breaks_tag_search:
  "let r = registry_fresh 0;
       r' = snd (remove_dataset (\<lambda>i. if i = 2 then Some ''disk full'' else None) ''taxi'' r)
   in is_ok (fst (list_datasets no_fault (\<lambda>_. no_fault) ''#sample'' r))
    \<and> fst (get_dataset no_fault ''startrek'' r') = fst (get_dataset no_fault ''startrek'' r)
    \<and> fst (list_datasets no_fault (\<lambda>_. no_fault) ''#sample'' r') = Err (CP_DatasetNotFound ''taxi'')"
proof -
  let ?r = "registry_fresh 0"
  let ?f = "(\<lambda>i. if i = 2 then Some ''disk full'' else None) :: fault"
  have ok: "is_ok (fst (list_datasets no_fault (\<lambda>_. no_fault) ''#sample'' ?r))" by code_simp
  have get: "fst (get_dataset no_fault ''startrek'' (snd (remove_dataset ?f ''taxi'' ?r))) = fst (get_dataset no_fault ''startrek'' ?r)"
    by code_simp
  have bad: "fst (list_datasets no_fault (\<lambda>_. no_fault) ''#sample'' (snd (remove_dataset ?f ''taxi'' ?r)))
      = Err (CP_DatasetNotFound ''taxi'')"
    by code_simp
  show ?thesis unfolding Let_def using ok get bad by blast
qed

text \<open>What a search matches. With no \<open>%\<close>, \<open>_\<close> or blanks in it, a query \<open>p*\<close> selects
  exactly the names that start with \<open>p\<close>, and a plain query exactly the entries whose name,
  description or one of whose tags contains it, ignoring case; results are in name order.\<close>

lemma search_matches:
  assumes "like_plain p" and "\<forall>c \<in> set p. \<not> is_whitespace c \<and> c \<noteq> CHR ''*''" and "p \<noteq> []" and "hd p \<noteq> CHR ''#''"
  shows "search tbl tags (p @ ''*'') = sort (map fst (filter (\<lambda>(n, _). starts_with n p) tbl))
   \<and> search tbl tags p = sort (map fst (filter (\<lambda>(n, d).
        contains_str (to_lowercase n) (to_lowercase p) \<or> contains_str (to_lowercase d) (to_lowercase p)
        \<or> (\<exists>t. (n, t) \<in> set tags \<and> contains_str (to_lowercase t) (to_lowercase p))) tbl))"
proof -
  have t1: "trim (p @ ''*'') = p @ ''*''" using assms(2) by (intro trim_id) (auto simp: is_whitespace_def)
  have t2: "trim p = p" using assms(2) by (intro trim_id) auto
  have "replace_char CHR ''*'' ''%'' q = q" if "CHR ''*'' \<notin> set q" for q
    using that by (induction q) auto
  moreover have star: "CHR ''*'' \<notin> set p" using assms(2) by auto
  ultimately have rep: "replace_char CHR ''*'' ''%'' (p @ ''*'') = p @ ''%''" by simp
  have "search tbl tags (p @ ''*'') = sort (map fst (filter (\<lambda>(n, _). starts_with n p) tbl))"
    using assms(3,4) unfolding search_def t1 Let_def rep like_prefix [OF assms(1)] by simp
  moreover have "n \<in> fst ` set (filter (\<lambda>(_, t). ilike (''%'' @ p @ ''%'') t) tags) \<longleftrightarrow>
      (\<exists>t. (n, t) \<in> set tags \<and> contains_str (to_lowercase t) (to_lowercase p))" for n
    by (force simp: ilike_substring [OF assms(1), simplified])
  ultimately show ?thesis
    using assms(3,4) star unfolding search_def [of tbl tags p] t2 Let_def ilike_substring [OF assms(1)] by simp
qed

lemma search_matches_example:
  "search [(''sales'', ''Q1''), (''stock'', []), (''sal'', [])] [] (''sal'' @ ''*'') = [''sal'', ''sales'']"
proof -
  have "\<forall>c \<in> set ''sal''. \<not> is_whitespace c \<and> c \<noteq> CHR ''*''" by (simp add: is_whitespace_def)
  moreover have "like_plain ''sal''" by (simp add: like_plain_def)
  ultimately show ?thesis
    using search_matches [of "''sal''" "[(''sales'', ''Q1''), (''stock'', []), (''sal'', [])]" "[]"]
    by (simp add: starts_with_def insort_key.simps less_le sort_key_def)
qed

text \<open>The glob is a \<open>LIKE\<close> pattern: an underscore in the query stands for any
  character, so a search for names that start with \<open>nyc_\<close> also returns names that do not.\<close>

lemma glob_reads_underscore_as_wildcard:
  "search [(''nyc_taxi'', []), (''nycbikes'', [])] [] ''nyc_*'' = [''nyc_taxi'', ''nycbikes'']
   \<and> \<not> starts_with ''nycbikes'' ''nyc_''"
  by code_simp

end
