(* ===== verification/Control_Service.thy ===== *)
theory Control_Service
  imports Registry_Facts Trace
begin

text \<open>
  The node-facing gRPC service of the control plane (\<open>control_service.rs\<close>), its request
  tracing (\<open>trace_meta.rs\<close>) and the one outbound call it makes (\<open>node_client.rs\<close>).

  A request's metadata is a function from header names to readable values. The call to the
  node, \<open>Data.MaterializePond\<close>, leaves the process: it is an argument that yields the node's
  answer and the registry as it stands when the answer arrives, since other handlers may have
  changed it in the meantime. A handler returns its reply or a status, and the registry.
\<close>

section \<open>Messages\<close>

type_synonym metadata = "string \<Rightarrow> string option"

record CallerAuth =
  ca_agent_id :: "string option"
  ca_bearer :: "string option"
  ca_traceparent :: "string option"

type_synonym node_call = "string \<Rightarrow> string \<Rightarrow> CallerAuth \<Rightarrow> registry \<Rightarrow> (string, unit) result \<times> registry"

record ControlService =
  materializer :: "node_call option"
  replay_bearer :: bool

definition control_service_new :: "node_call option \<Rightarrow> ControlService" where
  "control_service_new m = \<lparr>materializer = m, replay_bearer = False\<rparr>"

definition replaying_bearer :: "ControlService \<Rightarrow> bool \<Rightarrow> ControlService" where
  "replaying_bearer s yes = s\<lparr>replay_bearer := yes\<rparr>"

record CreatePondAssignmentRequest =
  rq_name :: string
  rq_owner_identity :: string
  rq_policy_json :: string
  rq_tier :: string
  rq_extensions :: "string list"
  rq_description :: string
  rq_lineage :: bool

record PondInfoMsg =
  pm_pond_id :: string
  pm_name :: string
  pm_owner :: string
  pm_created_at :: int
  pm_policy_json :: string
  pm_node_id :: string
  pm_node_endpoint :: string
  pm_tier :: string
  pm_extensions :: "string list"
  pm_description :: string
  pm_lineage :: bool

text \<open>What a run of the create handler draws from outside: the failures of its three
  registry calls, the clock, the generated pond id, the random draw of the placement and the
  UUIDs a trace context is minted from.\<close>

record saga_env =
  f_create :: fault
  f_location :: fault
  f_drop :: fault
  e_now :: int
  e_uuid :: string
  e_rnd :: nat
  e_trace1 :: string
  e_trace2 :: string

section \<open>Tracing (trace\_meta.rs)\<close>

definition trace_id_of :: "string \<Rightarrow> metadata \<Rightarrow> string" where
  "trace_id_of u md =
     (case Option.bind (md ''traceparent'') (trace_parse u) of None \<Rightarrow> [] | Some c \<Rightarrow> trace_id c)"

definition trace_of :: "string \<Rightarrow> string \<Rightarrow> metadata \<Rightarrow> TraceContext" where
  "trace_of u1 u2 md = trace_inbound u1 u2 (md ''traceparent'')"

section \<open>Handlers (control\_service.rs)\<close>

definition caller_auth :: "ControlService \<Rightarrow> string \<Rightarrow> string \<Rightarrow> metadata \<Rightarrow> string \<Rightarrow> CallerAuth" where
  "caller_auth s u1 u2 md owner =
     \<lparr>ca_agent_id = (case md ''latiq-agent-id'' of
         Some a \<Rightarrow> Some a
       | None \<Rightarrow> if owner = [] then None else Some owner),
      ca_bearer = (if replay_bearer s then md ''authorization'' else None),
      ca_traceparent = Some (traceparent (trace_of u1 u2 md))\<rparr>"

definition compensate :: "fault \<Rightarrow> string \<Rightarrow> string \<Rightarrow> string \<Rightarrow> string \<Rightarrow> string option \<Rightarrow> registry
    \<Rightarrow> Status \<times> registry" where
  "compensate f pid name owner cause tid r =
     (case drop_pond f pid r of
        (Inr _, r') \<Rightarrow> (to_status_traced (CP_AllocationNotMaterialized name owner cause True) tid, r')
      | (Inl _, r') \<Rightarrow> (to_status_traced (CP_AllocationNotMaterialized name owner cause False) tid, r'))"

definition rpc :: "'a reply \<Rightarrow> (Status, 'a) result \<times> registry" where
  "rpc x = (map_err to_status (fst x), snd x)"

definition register_node_rpc :: "fault \<Rightarrow> int \<Rightarrow> string \<Rightarrow> string \<Rightarrow> string \<Rightarrow> 32 word \<Rightarrow> registry
    \<Rightarrow> (Status, unit) result \<times> registry" where
  "register_node_rpc f now nid mcp internal cap r = rpc (register_node f now nid mcp internal cap r)"

definition heartbeat_rpc :: "fault \<Rightarrow> int \<Rightarrow> string \<Rightarrow> 32 word \<Rightarrow> registry \<Rightarrow> (Status, unit) result \<times> registry" where
  "heartbeat_rpc f now nid n r = rpc (heartbeat f now nid n r)"

text \<open>The sentence of a lost placement; only \<open>PondNotFound\<close> can be its cause.\<close>

definition location_lost :: "string \<Rightarrow> string" where
  "location_lost pid = ''the registry can no longer say where it was placed: pond not found: '' @ pid"

definition create_pond_assignment :: "ControlService \<Rightarrow> saga_env \<Rightarrow> metadata \<Rightarrow> CreatePondAssignmentRequest
    \<Rightarrow> registry \<Rightarrow> (Status, string \<times> string) result \<times> registry" where
  "create_pond_assignment s e md rq r =
     (let caller = caller_auth s (e_trace1 e) (e_trace2 e) md (rq_owner_identity rq);
          tid = map_option trace_id (Option.bind (ca_traceparent caller) (trace_parse (e_trace1 e)));
          nm = (if rq_name rq = [] then None else Some (rq_name rq));
          t = (if rq_tier rq = [] then ''medium'' else rq_tier rq)
      in case create_pond (f_create e) (e_now e) (e_uuid e) (e_rnd e) nm (rq_owner_identity rq)
             (rq_policy_json rq) t (rq_extensions rq) (rq_description rq) (rq_lineage rq) r of
        (Inl err, r1) \<Rightarrow> (Err (to_status err), r1)
      | (Inr pond, r1) \<Rightarrow>
        (case get_pond_location (f_location e) (pond_id pond) r1 of
           (Inl err, r2) \<Rightarrow>
             (let (st, r3) = compensate (f_drop e) (pond_id pond) (pond_name pond) (node_id pond)
                   (location_lost (pond_id pond)) tid r2
              in (Err st, r3))
         | (Inr (pid, endpoint), r2) \<Rightarrow>
             (case materializer s of
                None \<Rightarrow> (Ok (pond_id pond, endpoint), r2)
              | Some m \<Rightarrow>
                  (case m endpoint (pond_id pond) caller r2 of
                     (Inl cause, r3) \<Rightarrow>
                       (let (st, r4) = compensate (f_drop e) (pond_id pond) (pond_name pond) endpoint cause tid r3
                        in (Err st, r4))
                   | (Inr _, r3) \<Rightarrow> (Ok (pond_id pond, endpoint), r3)))))"

definition get_pond_location_rpc :: "fault \<Rightarrow> string \<Rightarrow> registry \<Rightarrow> (Status, string \<times> string) result \<times> registry" where
  "get_pond_location_rpc f pond_ref r = rpc (get_pond_location f pond_ref r)"

definition drop_pond_assignment :: "fault \<Rightarrow> string \<Rightarrow> registry \<Rightarrow> (Status, unit) result \<times> registry" where
  "drop_pond_assignment f pid r = rpc (drop_pond f pid r)"

definition to_msg :: "PondRow \<times> int \<times> string \<times> string option \<Rightarrow> PondInfoMsg" where
  "to_msg = (\<lambda>(row, created, pol, endpoint).
     \<lparr>pm_pond_id = pond_id row, pm_name = pond_name row, pm_owner = owner_identity row,
      pm_created_at = created, pm_policy_json = pol, pm_node_id = node_id row,
      pm_node_endpoint = (case endpoint of None \<Rightarrow> [] | Some x \<Rightarrow> x), pm_tier = tier row,
      pm_extensions = extensions row, pm_description = description row, pm_lineage = lineage row\<rparr>)"

text \<open>The loop of \<open>list_ponds\<close>: one detail read per listed row, each against the registry as
  it is then (\<open>seen i\<close> for the i-th), skipping a pond that is gone.\<close>

fun pond_details :: "(nat \<Rightarrow> fault \<times> registry) \<Rightarrow> nat \<Rightarrow> PondRow list \<Rightarrow> (ControlPlaneError, (PondRow \<times> int \<times> string \<times> string option) list) result" where
  "pond_details seen i [] = Ok []"
| "pond_details seen i (row # rows) =
     (case fst (pond_info (fst (seen i)) (pond_id row) (snd (seen i))) of
        Inr info \<Rightarrow> map_ok ((#) info) (pond_details seen (Suc i) rows)
      | Inl (CP_PondNotFound _) \<Rightarrow> pond_details seen (Suc i) rows
      | Inl e \<Rightarrow> Err e)"

definition list_ponds_rpc :: "fault \<Rightarrow> (nat \<Rightarrow> fault \<times> registry) \<Rightarrow> registry \<Rightarrow> (Status, PondInfoMsg list) result" where
  "list_ponds_rpc f seen r =
     (case fst (list_ponds f r) of
        Inl e \<Rightarrow> Err (to_status e)
      | Inr rows \<Rightarrow> map_ok (map to_msg) (map_err to_status (pond_details seen 0 rows)))"

definition get_pond_info_rpc :: "fault \<Rightarrow> string \<Rightarrow> registry \<Rightarrow> (Status, PondInfoMsg) result" where
  "get_pond_info_rpc f pond_ref r = map_ok to_msg (map_err to_status (fst (pond_info f pond_ref r)))"

definition get_dataset_rpc :: "fault \<Rightarrow> string \<Rightarrow> registry \<Rightarrow> (Status, DatasetRow) result" where
  "get_dataset_rpc f name r = map_err to_status (fst (get_dataset f name r))"

definition list_datasets_rpc :: "fault \<Rightarrow> (nat \<Rightarrow> fault) \<Rightarrow> string \<Rightarrow> registry \<Rightarrow> (Status, DatasetRow list) result" where
  "list_datasets_rpc f g q r = map_err to_status (fst (list_datasets f g q r))"

definition get_catalog_rpc :: "(string \<Rightarrow> params option) \<Rightarrow> fault \<Rightarrow> string \<Rightarrow> registry \<Rightarrow> (Status, CatalogRow) result" where
  "get_catalog_rpc from_json f name r = map_err to_status (fst (get_catalog from_json f name r))"

definition list_catalogs_rpc :: "(string \<Rightarrow> params option) \<Rightarrow> fault \<Rightarrow> (nat \<Rightarrow> fault) \<Rightarrow> string \<Rightarrow> registry
    \<Rightarrow> (Status, CatalogRow list) result" where
  "list_catalogs_rpc from_json f g q r = map_err to_status (fst (list_catalogs from_json f g q r))"

section \<open>Lemmas\<close>

lemma get_pond_location_state: "snd (get_pond_location f x r) = r"
  by (auto simp: get_pond_location_def split: option.splits)

lemma compensate_quiet:
  assumes "create_pond f now uuid rnd nm owner pol t exts desc lin r = (Inr row, r1)"
    and "uuid \<notin> p_name ` set (ponds r)"
  shows "compensate h (pond_id row) n ow cause tid r1
       = (to_status_traced (CP_AllocationNotMaterialized n ow cause (h 0 = None)) tid, if h 0 = None then r else r1)"
proof -
  have "pond_id row = uuid" using assms(1) by (auto simp: create_pond_Ok row_of_def)
  then have "drop_pond no_fault (pond_id row) r1 = (Inr (), r)"
    using reg.create_drop_restores [of "(f, now, uuid, rnd, nm, owner, pol, t, exts, desc, lin)" r row r1] assms(1,2)
    by (simp add: create_with_def)
  moreover have "drop_pond h x r1 = (case h 0 of None \<Rightarrow> drop_pond no_fault x r1 | Some m \<Rightarrow> (Err (CP_Storage m), r1))" for x
    by (simp add: drop_pond_def stmt_def split: option.split)
  ultimately show ?thesis by (simp add: compensate_def split: option.split)
qed

lemma compensate_outcome:
  "\<exists>rolled. fst (compensate h pid n ow cause tid r) = to_status_traced (CP_AllocationNotMaterialized n ow cause rolled) tid
    \<and> (if rolled then pid \<notin> p_id ` set (ponds (snd (compensate h pid n ow cause tid r)))
               else snd (compensate h pid n ow cause tid r) = r
                  \<and> (h 0 \<noteq> None \<or> filter (refers pid) (ponds r) = []))"
  by (cases "h 0") (auto simp: compensate_def drop_pond_def stmt_def refers_def split: if_splits)

lemma location_of_created:
  assumes "reachable r"
    and "create_pond f now uuid rnd nm owner pol t exts desc lin r = (Inr row, r1)"
    and "uuid \<notin> p_name ` set (ponds r)"
  shows "\<exists>n \<in> set (nodes r). n_state n = ''active'' \<and> n_id n = node_id row
     \<and> get_pond_location no_fault (pond_id row) r1 = (Ok (pond_id row, internal_endpoint n), r1)"
proof -
  obtain parsed where act: "active_nodes r \<noteq> []" and fresh: "uuid \<notin> p_id ` set (ponds r)"
    and row: "row = (row_of (new_pond now uuid rnd nm owner pol parsed exts desc lin r))\<lparr>extensions := exts\<rparr>"
    and r1: "r1 = r\<lparr>ponds := ponds r @ [new_pond now uuid rnd nm owner pol parsed exts desc lin r]\<rparr>"
    using assms(2) unfolding create_pond_Ok by blast
  define p where "p = new_pond now uuid rnd nm owner pol parsed exts desc lin r"
  define n where "n = active_nodes r ! (rnd mod length (active_nodes r))"
  have n: "n \<in> set (nodes r)" "n_state n = ''active''" using active_node_choice [OF act, of rnd] by (auto simp: n_def)
  have pp: "ponds r1 = ponds r @ [p]" by (simp add: r1 p_def)
  have "node_of r1 p = Some n"
    using n reachable_inv [OF assms(1)] unfolding p_def n_def
    by (intro node_of_known) (auto simp: registry_inv_def r1)
  moreover have "pond_id row = uuid" "p_id p = uuid" "n_id n = node_id row"
    by (simp_all add: row row_of_def p_def n_def)
  moreover have "List.find (\<lambda>q. refers uuid q \<and> node_of r1 q \<noteq> None) (ponds r1) = Some p"
    unfolding pp using assms(3) fresh calculation 
    by (intro find_append_last) (auto simp: refers_def, (metis image_eqI)+)
  ultimately show ?thesis using n by (intro bexI [of _ n]) (auto simp: get_pond_location_def)
qed

text \<open>The trace id a run of the create handler stamps on its failures.\<close>

definition saga_trace :: "ControlService \<Rightarrow> saga_env \<Rightarrow> metadata \<Rightarrow> string \<Rightarrow> string option" where
  "saga_trace s e md owner =
     map_option trace_id (Option.bind (ca_traceparent (caller_auth s (e_trace1 e) (e_trace2 e) md owner))
       (trace_parse (e_trace1 e)))"

definition saga_create :: "saga_env \<Rightarrow> CreatePondAssignmentRequest \<Rightarrow> registry \<Rightarrow> PondRow reply" where
  "saga_create e rq r =
     create_pond (f_create e) (e_now e) (e_uuid e) (e_rnd e)
       (if rq_name rq = [] then None else Some (rq_name rq)) (rq_owner_identity rq) (rq_policy_json rq)
       (if rq_tier rq = [] then ''medium'' else rq_tier rq) (rq_extensions rq) (rq_description rq)
       (rq_lineage rq) r"

lemma saga_cases:
  "create_pond_assignment s e md rq r =
     (let caller = caller_auth s (e_trace1 e) (e_trace2 e) md (rq_owner_identity rq);
          tid = saga_trace s e md (rq_owner_identity rq)
      in case saga_create e rq r of
        (Inl err, r1) \<Rightarrow> (Err (to_status err), r1)
      | (Inr pond, r1) \<Rightarrow>
        (case fst (get_pond_location (f_location e) (pond_id pond) r1) of
           Inl err \<Rightarrow> map_prod Inl id (compensate (f_drop e) (pond_id pond) (pond_name pond) (node_id pond)
                   (location_lost (pond_id pond)) tid r1)
         | Inr (pid, endpoint) \<Rightarrow>
             (case materializer s of
                None \<Rightarrow> (Ok (pond_id pond, endpoint), r1)
              | Some m \<Rightarrow>
                  (case m endpoint (pond_id pond) caller r1 of
                     (Inl cause, r3) \<Rightarrow>
                       map_prod Inl id (compensate (f_drop e) (pond_id pond) (pond_name pond) endpoint cause tid r3)
                   | (Inr _, r3) \<Rightarrow> (Ok (pond_id pond, endpoint), r3)))))"
proof (cases "saga_create e rq r")
  case (Pair res r1)
  show ?thesis
  proof (cases res)
    case (Inl err)
    then show ?thesis using Pair by (simp add: create_pond_assignment_def saga_create_def Let_def)
  next
    case (Inr pond)
    have loc: "get_pond_location (f_location e) (pond_id pond) r1
        = (fst (get_pond_location (f_location e) (pond_id pond) r1), r1)"
      using get_pond_location_state [of "f_location e" "pond_id pond" r1] by (metis prod.collapse)
    show ?thesis
      using Pair Inr loc
      by (cases "fst (get_pond_location (f_location e) (pond_id pond) r1)")
         (auto simp: create_pond_assignment_def saga_create_def saga_trace_def Let_def map_prod_def
           split: prod.split sum.split option.split)
  qed
qed

lemma pond_info_cases:
  "fst (pond_info f x r) = Err (CP_PondNotFound x)
   \<or> (\<exists>p \<in> set (ponds r). refers x p \<and>
        fst (pond_info f x r) = Ok (row_of p, p_created_at p, p_policy_json p, map_option internal_endpoint (node_of r p)))"
  by (auto simp: pond_info_def split: option.split dest: find_Some_iff)

lemma pond_details_ok:
  "\<exists>infos. pond_details seen i rows = Ok infos
     \<and> (\<forall>x \<in> set infos. \<exists>j row. row \<in> set rows \<and> fst (pond_info (fst (seen j)) (pond_id row) (snd (seen j))) = Ok x)"
proof (induction rows arbitrary: i)
  case Nil
  then show ?case by simp
next
  case (Cons row rows)
  from Cons [of "Suc i"] obtain infos where
    i: "pond_details seen (Suc i) rows = Ok infos"
      "\<forall>x \<in> set infos. \<exists>j row. row \<in> set rows \<and> fst (pond_info (fst (seen j)) (pond_id row) (snd (seen j))) = Ok x"
    by blast
  show ?case
    using pond_info_cases [of "fst (seen i)" "pond_id row" "snd (seen i)"] i by (auto split: sum.split) blast+
qed

text \<open>With no namesakes every listed row finds itself.\<close>

lemma find_eq: "p \<in> set xs \<Longrightarrow> List.find (\<lambda>q. q = p) xs = Some p"
  by (induction xs) auto

lemma find_self:
  assumes "distinct (map p_id (ponds r))" and "p \<in> set (ponds r)" and "p_id p \<notin> p_name ` (set (ponds r) - {p})"
  shows "List.find (refers (p_id p)) (ponds r) = Some p"
proof -
  have "refers (p_id p) q \<longleftrightarrow> q = p" if "q \<in> set (ponds r)" for q
    using assms that unfolding refers_def distinct_map inj_on_def by (metis Diff_iff imageI singletonD)
  then have "List.find (refers (p_id p)) (ponds r) = List.find (\<lambda>q. q = p) (ponds r)"
    by (intro find_cong) auto
  also have "\<dots> = Some p" using assms(2) by (rule find_eq)
  finally show ?thesis .
qed

text \<open>Nothing else changes the registry during the call to the node.\<close>

definition quiet_node_calls :: "ControlService \<Rightarrow> bool" where
  "quiet_node_calls s \<longleftrightarrow> (case materializer s of None \<Rightarrow> True
     | Some m \<Rightarrow> \<forall>ep pid c r. snd (m ep pid c r) = r)"

section \<open>Properties\<close>

text \<open>C2. The create saga is all or nothing up to a failing rollback, for a fresh id and when nothing
  else touches the registry during the node's call. A refused allocation leaves the registry as it
  was. One that was recorded and then lost its placement or could not be materialised is undone: when
  the rollback's statement goes through, the registry is exactly as before and the answer says it was
  rolled back; when that statement itself fails, the registry keeps exactly the new row and the answer
  says it was not. A successful allocation has its row, is located at the returned endpoint on an
  active node, and was materialised there under the returned id by the caller's own identity.\<close>

theorem saga_all_or_nothing:
  assumes "reachable r" and "e_uuid e \<notin> p_name ` set (ponds r)" and "quiet_node_calls s"
  shows "case create_pond_assignment s e md rq r of
      (Inl st, r') \<Rightarrow> (case saga_create e rq r of
           (Inl err, _) \<Rightarrow> st = to_status err \<and> r' = r
         | (Inr row, r1) \<Rightarrow> r' = (if f_drop e 0 = None then r else r1)
            \<and> (\<exists>owner cause. st = to_status_traced (CP_AllocationNotMaterialized (pond_name row) owner cause (f_drop e 0 = None))
                 (saga_trace s e md (rq_owner_identity rq))))
    | (Inr (pid, ep), r') \<Rightarrow> pid = e_uuid e
       \<and> (\<exists>row. saga_create e rq r = (Inr row, r') \<and> pond_id row = pid)
       \<and> get_pond_location no_fault pid r' = (Ok (pid, ep), r')
       \<and> (\<exists>n \<in> set (nodes r). n_state n = ''active'' \<and> internal_endpoint n = ep)
       \<and> (case materializer s of None \<Rightarrow> True
          | Some m \<Rightarrow> fst (m ep pid (caller_auth s (e_trace1 e) (e_trace2 e) md (rq_owner_identity rq)) r') = Ok ())"
proof (cases "saga_create e rq r")
  case (Pair res r1)
  show ?thesis
  proof (cases res)
    case (Inl err)
    then have "r1 = r" using Pair create_pond_Err unfolding saga_create_def by blast
    then show ?thesis using Pair Inl by (simp add: saga_cases Let_def)
  next
    case (Inr row)
    have cr: "saga_create e rq r = (Inr row, r1)" using Pair Inr by simp
    have id: "pond_id row = e_uuid e" using cr by (auto simp: saga_create_def create_pond_Ok row_of_def)
    have undo: "compensate (f_drop e) (pond_id row) n ow cause tid r1
         = (to_status_traced (CP_AllocationNotMaterialized n ow cause (f_drop e 0 = None)) tid, if f_drop e 0 = None then r else r1)" for n ow cause tid
      using cr [unfolded saga_create_def] assms(2) by (rule compensate_quiet)
    obtain n where n: "n \<in> set (nodes r)" "n_state n = ''active''"
      and loc: "get_pond_location no_fault (pond_id row) r1 = (Ok (pond_id row, internal_endpoint n), r1)"
      using location_of_created [OF assms(1) cr [unfolded saga_create_def] assms(2)] by blast
    show ?thesis
    proof (cases "f_location e 0")
      case None
      then have "fst (get_pond_location (f_location e) (pond_id row) r1) = Ok (pond_id row, internal_endpoint n)"
        using loc by (simp add: get_pond_location_def)
      then have run: "create_pond_assignment s e md rq r =
          (case materializer s of None \<Rightarrow> (Ok (pond_id row, internal_endpoint n), r1)
           | Some m \<Rightarrow> (case m (internal_endpoint n) (pond_id row) (caller_auth s (e_trace1 e) (e_trace2 e) md (rq_owner_identity rq)) r1 of
               (Inl cause, r3) \<Rightarrow> map_prod Inl id (compensate (f_drop e) (pond_id row) (pond_name row)
                  (internal_endpoint n) cause (saga_trace s e md (rq_owner_identity rq)) r3)
             | (Inr _, r3) \<Rightarrow> (Ok (pond_id row, internal_endpoint n), r3)))"
        using cr by (simp add: saga_cases Let_def)
      show ?thesis
      proof (cases "materializer s")
        case None
        then show ?thesis using run cr loc n id by auto
      next
        case (Some m)
        have "snd (m (internal_endpoint n) (pond_id row) (caller_auth s (e_trace1 e) (e_trace2 e) md (rq_owner_identity rq)) r1) = r1"
          using assms(3) Some by (simp add: quiet_node_calls_def)
        then obtain a where a: "m (internal_endpoint n) (pond_id row) (caller_auth s (e_trace1 e) (e_trace2 e) md (rq_owner_identity rq)) r1 = (a, r1)"
          by (metis prod.collapse)
        show ?thesis
          using run Some a undo cr loc n id by (cases a) auto
      qed
    next
      case (Some err)
      then have "fst (get_pond_location (f_location e) (pond_id row) r1) = Err (CP_PondNotFound (pond_id row))"
        by (simp add: get_pond_location_def)
      then show ?thesis using cr undo by (simp add: saga_cases Let_def) blast
    qed
  qed
qed

definition demo_request :: CreatePondAssignmentRequest where
  "demo_request = \<lparr>rq_name = ''stock'', rq_owner_identity = ''ann'', rq_policy_json = ''{}'', rq_tier = [],
     rq_extensions = [], rq_description = [], rq_lineage = True\<rparr>"

definition demo_env :: saga_env where
  "demo_env = \<lparr>f_create = no_fault, f_location = no_fault, f_drop = no_fault, e_now = 9, e_uuid = demo_id2,
     e_rnd = 3, e_trace1 = demo_id, e_trace2 = demo_id2\<rparr>"

definition demo_down :: ControlService where
  "demo_down = \<lparr>materializer = Some (\<lambda>ep pid c r. (Err ''connection refused'', r)), replay_bearer = False\<rparr>"

lemma demo_fresh: "demo_id2 \<notin> p_name ` set (ponds demo_pond)"
  using demo_pond_eval by (auto simp: demo_id2_def)

lemma demo_saga_create:
  "\<exists>row r1. saga_create demo_env demo_request demo_pond = (Inr row, r1) \<and> reachable r1 \<and> pond_id row = demo_id2"
proof -
  have "tier_parse_for_create ''medium'' = Ok Medium"
    using tier_parse_as_str [of Medium] by (simp add: tier_parse_for_create_Ok trim_id is_whitespace_def)
  moreover have "pond_name_validate ''stock'' = Ok ()"
    by (simp add: pond_name_validate_Ok_iff name_char_ok_def char_class_defs)
  moreover have "active_nodes demo_pond \<noteq> []" by (simp add: active_nodes_def demo_pond_eval demo_node_eval)
  moreover have "''stock'' \<notin> p_name ` set (ponds demo_pond)" "demo_id2 \<notin> p_id ` set (ponds demo_pond)"
    using demo_pond_eval by (auto simp: demo_id_def demo_id2_def)
  ultimately have "\<exists>row r1. saga_create demo_env demo_request demo_pond = (Inr row, r1) \<and> pond_id row = demo_id2"
    unfolding saga_create_def create_pond_Ok
    by (auto simp: demo_request_def demo_env_def row_of_def)
  then obtain row r1 where c: "saga_create demo_env demo_request demo_pond = (Inr row, r1)" "pond_id row = demo_id2" by blast
  have "reachable (snd (saga_create demo_env demo_request demo_pond))"
    unfolding saga_create_def
    by (rule reachable.step [OF demo_pond_reachable registry_step.intros(4)]) (simp add: demo_env_def demo_ids)
  then show ?thesis using c by auto
qed

theorem saga_all_or_nothing_witness:
  "\<exists>st. create_pond_assignment demo_down demo_env (\<lambda>_. None) demo_request demo_pond = (Inl st, demo_pond)
   \<and> (\<exists>row r1 owner cause. saga_create demo_env demo_request demo_pond = (Inr row, r1)
        \<and> st = to_status_traced (CP_AllocationNotMaterialized (pond_name row) owner cause True) (saga_trace demo_down demo_env (\<lambda>_. None) ''ann''))"
proof -
  have fresh: "e_uuid demo_env \<notin> p_name ` set (ponds demo_pond)" using demo_fresh by (simp add: demo_env_def)
  have quiet: "quiet_node_calls demo_down" by (simp add: demo_down_def quiet_node_calls_def)
  have down: "materializer demo_down = Some (\<lambda>ep pid c r. (Err ''connection refused'', r))" by (simp add: demo_down_def)
  have env: "f_drop demo_env 0 = None" "rq_owner_identity demo_request = ''ann''" by (simp_all add: demo_env_def demo_request_def)
  obtain row r1 where c: "saga_create demo_env demo_request demo_pond = (Inr row, r1)" using demo_saga_create by blast
  show ?thesis
    using saga_all_or_nothing [where r = demo_pond and e = demo_env and s = demo_down and md = "\<lambda>_. None"
        and rq = demo_request, OF demo_pond_reachable fresh quiet]
    unfolding c down env by (auto split: prod.splits sum.splits)
qed

text \<open>C20. The saga under interference: whatever other handlers do to the registry while the
  node is being called, a failed materialisation is reported as such, and the report is
  truthful. If it says the assignment was rolled back, no row with the new pond's id is left;
  if it says it was not, the registry is as the interference left it, and either the rollback
  statement failed or the row had already been removed.\<close>

theorem saga_under_interference:
  assumes "saga_create e rq r = (Inr row, r1)"
    and "fst (get_pond_location (f_location e) (pond_id row) r1) = Ok (pid, ep)"
    and "materializer s = Some m"
    and "m ep (pond_id row) (caller_auth s (e_trace1 e) (e_trace2 e) md (rq_owner_identity rq)) r1 = (Inl cause, rmid)"
  shows "\<exists>rolled r'. create_pond_assignment s e md rq r =
       (Err (to_status_traced (CP_AllocationNotMaterialized (pond_name row) ep cause rolled)
               (saga_trace s e md (rq_owner_identity rq))), r')
     \<and> (if rolled then e_uuid e \<notin> p_id ` set (ponds r')
        else r' = rmid \<and> (f_drop e 0 \<noteq> None \<or> filter (refers (e_uuid e)) (ponds rmid) = []))"
proof -
  have id: "pond_id row = e_uuid e" using assms(1) by (auto simp: saga_create_def create_pond_Ok row_of_def)
  let ?c = "compensate (f_drop e) (pond_id row) (pond_name row) ep cause (saga_trace s e md (rq_owner_identity rq)) rmid"
  have "create_pond_assignment s e md rq r = map_prod Inl id ?c"
    using assms by (simp add: saga_cases Let_def)
  then have eq: "create_pond_assignment s e md rq r = (Inl (fst ?c), snd ?c)"
    by (metis fst_map_prod id_apply prod.collapse snd_map_prod)
  from compensate_outcome [of "f_drop e" "pond_id row" "pond_name row" ep cause "saga_trace s e md (rq_owner_identity rq)" rmid]
  show ?thesis unfolding eq id by (metis (no_types))
qed

theorem saga_under_interference_witness:
  "\<exists>name ep rolled r'. create_pond_assignment demo_down demo_env (\<lambda>_. None) demo_request demo_pond =
     (Err (to_status_traced (CP_AllocationNotMaterialized name ep ''connection refused'' rolled)
        (saga_trace demo_down demo_env (\<lambda>_. None) ''ann'')), r')
     \<and> (if rolled then demo_id2 \<notin> p_id ` set (ponds r') else r' = snd (saga_create demo_env demo_request demo_pond)
          \<and> (f_drop demo_env 0 \<noteq> None
               \<or> filter (refers demo_id2) (ponds (snd (saga_create demo_env demo_request demo_pond))) = []))"
proof -
  obtain row r1 where c: "saga_create demo_env demo_request demo_pond = (Inr row, r1)" "pond_id row = demo_id2"
    using demo_saga_create by blast
  have fresh: "e_uuid demo_env \<notin> p_name ` set (ponds demo_pond)" using demo_fresh by (simp add: demo_env_def)
  obtain ep where "get_pond_location no_fault (pond_id row) r1 = (Ok (pond_id row, ep), r1)"
    using location_of_created [OF demo_pond_reachable c(1) [unfolded saga_create_def] fresh] by blast
  then have loc: "fst (get_pond_location (f_location demo_env) (pond_id row) r1) = Ok (pond_id row, ep)"
    by (simp add: demo_env_def)
  have m: "materializer demo_down = Some (\<lambda>ep pid c r. (Err ''connection refused'', r))" by (simp add: demo_down_def)
  have rq: "rq_owner_identity demo_request = ''ann''" "e_uuid demo_env = demo_id2"
    by (simp_all add: demo_request_def demo_env_def)
  have r1: "snd (saga_create demo_env demo_request demo_pond) = r1" by (simp add: c)
  show ?thesis
    using saga_under_interference [where md = "\<lambda>_. None" and rmid = r1 and cause = "''connection refused''",
        OF c(1) loc m, simplified rq, OF refl]
    unfolding r1 by blast
qed

text \<open>A failed materialisation can be followed onto the node: the trace id stamped on
  the caller's error is the trace id of the header the node call carried, and it is the
  caller's own trace id whenever the caller sent a readable one.\<close>

lemma allocation_failure_is_traceable:
  assumes "is_uuid_v4 (e_trace1 e)" and "is_uuid_v4 (e_trace2 e)" and "is_uuid_v4 u"
  shows "\<exists>tid hop. saga_trace s e md owner = Some tid
    \<and> ca_traceparent (caller_auth s (e_trace1 e) (e_trace2 e) md owner) = Some hop
    \<and> map_option trace_id (trace_parse u hop) = Some tid
    \<and> env_trace_id (st_details (to_status_traced (CP_AllocationNotMaterialized n ow cause rolled)
          (saga_trace s e md owner))) = Some tid
    \<and> (\<forall>h c. md ''traceparent'' = Some h \<longrightarrow> trace_parse u h = Some c \<longrightarrow> tid = trace_id c)"
proof -
  let ?c = "trace_of (e_trace1 e) (e_trace2 e) md"
  have ok: "trace_ok ?c" unfolding trace_of_def using assms(1,2) by (rule trace_inbound_ok)
  have p: "trace_parse v (traceparent ?c) = Some \<lparr>trace_id = trace_id ?c, span_id = take 16 (hex32 v), sampled = sampled ?c\<rparr>" for v
    using ok by (rule trace_parse_traceparent)
  have t: "saga_trace s e md owner = Some (trace_id ?c)"
    by (simp add: saga_trace_def caller_auth_def p)
  have ne: "trace_id ?c \<noteq> []" using ok by (auto simp: trace_ok_def is_lower_hex_def)
  have same: "trace_parse u h = Some c \<Longrightarrow> \<exists>d. trace_parse v h = Some d \<and> trace_id d = trace_id c" for u v h c
    by (auto simp: trace_parse_def split: list.splits if_splits)
  have "trace_id ?c = trace_id c" if "md ''traceparent'' = Some h" "trace_parse u h = Some c" for h c
    using that same [OF that(2), of "e_trace1 e"] by (auto simp: trace_of_def trace_inbound_def)
  then show ?thesis
    using t ne p [of u] by (auto simp: caller_auth_def to_status_traced_def Let_def with_trace_id_def)
qed

lemma allocation_failure_is_traceable_example:
  "\<exists>tid. saga_trace demo_down demo_env (\<lambda>_. None) ''ann'' = Some tid"
proof -
  have u: "is_uuid_v4 (e_trace1 demo_env)" "is_uuid_v4 (e_trace2 demo_env)"
    using demo_ids by (simp_all add: demo_env_def is_uuid_v4_def) (simp_all add: demo_id_def demo_id2_def)
  show ?thesis
    using allocation_failure_is_traceable [OF u u(1), of demo_down "\<lambda>_. None" "''ann''"] by blast
qed

text \<open>Listing ponds tolerates concurrent drops: whatever happens to the registry between
  the listing and each detail read, the listing succeeds and every entry is what some detail
  read returned; with nothing else running and no pond named after another's id, it holds
  every pond exactly once, in order of creation.\<close>

lemma list_ponds_tolerates_drops:
  assumes "f 0 = None"
  shows "(\<exists>msgs. list_ponds_rpc f seen r = Ok msgs
      \<and> (\<forall>msg. msg \<in> set msgs \<longrightarrow> (\<exists>j x info. fst (pond_info (fst (seen j)) x (snd (seen j))) = Ok info \<and> msg = to_msg info)))
   \<and> (registry_inv r \<longrightarrow> (\<forall>p \<in> set (ponds r). p_id p \<notin> p_name ` (set (ponds r) - {p})) \<longrightarrow>
       map_ok (map pm_pond_id) (list_ponds_rpc f (\<lambda>_. (no_fault, r)) r) = Ok (map p_id (sort_key p_created_at (ponds r))))"
proof
  have rows: "fst (list_ponds f r) = Ok (map row_of (sort_key p_created_at (ponds r)))"
    using assms by (simp add: list_ponds_def)
  show "\<exists>msgs. list_ponds_rpc f seen r = Ok msgs
      \<and> (\<forall>msg. msg \<in> set msgs \<longrightarrow> (\<exists>j x info. fst (pond_info (fst (seen j)) x (snd (seen j))) = Ok info \<and> msg = to_msg info))"
  proof -
    obtain infos where i: "pond_details seen 0 (map row_of (sort_key p_created_at (ponds r))) = Ok infos"
      "\<forall>x \<in> set infos. \<exists>j y. fst (pond_info (fst (seen j)) y (snd (seen j))) = Ok x"
      using pond_details_ok [of seen 0 "map row_of (sort_key p_created_at (ponds r))"] by blast
    have "list_ponds_rpc f seen r = Ok (map to_msg infos)" by (simp add: list_ponds_rpc_def rows i(1))
    moreover have "\<exists>j x info. fst (pond_info (fst (seen j)) x (snd (seen j))) = Ok info \<and> msg = to_msg info"
      if m: "msg \<in> set (map to_msg infos)" for msg
    proof -
      obtain info where "info \<in> set infos" "msg = to_msg info" using m unfolding set_map by blast
      then show ?thesis using i(2) by blast
    qed
    ultimately show ?thesis by blast
  qed
  have self: "pond_details (\<lambda>_. (no_fault, r)) i (map row_of ps)
      = Ok (map (\<lambda>p. (row_of p, p_created_at p, p_policy_json p, map_option internal_endpoint (node_of r p))) ps)"
    if "registry_inv r" "\<forall>p \<in> set (ponds r). p_id p \<notin> p_name ` (set (ponds r) - {p})" "set ps \<subseteq> set (ponds r)" for i ps
    using that(3)
  proof (induction ps arbitrary: i)
    case Nil
    then show ?case by simp
  next
    case (Cons p ps)
    then have "List.find (refers (p_id p)) (ponds r) = Some p"
      using that(1,2) by (intro find_self) (auto simp: registry_inv_def)
    then have "fst (pond_info no_fault (pond_id (row_of p)) r)
        = Ok (row_of p, p_created_at p, p_policy_json p, map_option internal_endpoint (node_of r p))"
      by (simp add: pond_info_def row_of_def)
    then show ?case using Cons by (simp del: stmt_no_fault(2))
  qed
  show "registry_inv r \<longrightarrow> (\<forall>p \<in> set (ponds r). p_id p \<notin> p_name ` (set (ponds r) - {p})) \<longrightarrow>
       map_ok (map pm_pond_id) (list_ponds_rpc f (\<lambda>_. (no_fault, r)) r) = Ok (map p_id (sort_key p_created_at (ponds r)))"
    using self [of "sort_key p_created_at (ponds r)" 0]
    by (simp add: list_ponds_rpc_def rows to_msg_def row_of_def comp_def)
qed

lemma list_ponds_tolerates_drops_example:
  "map_ok (map pm_pond_id) (list_ponds_rpc no_fault (\<lambda>_. (no_fault, demo_pond)) demo_pond) = Ok [demo_id]"
proof -
  obtain p where p: "ponds demo_pond = [p]" "p_id p = demo_id" "p_name p = ''sales''" using demo_pond_eval by blast
  have "registry_inv demo_pond" by (rule reachable_inv [OF demo_pond_reachable])
  then show ?thesis
    using list_ponds_tolerates_drops [of no_fault "\<lambda>_. (no_fault, demo_pond)" demo_pond] p by simp
qed

end
