(* ===== verification/Admin_Service.thy ===== *)
theory Admin_Service
  imports Catalog_Facts Control_Service
begin

text \<open>
  The operators' gRPC service (\<open>admin_service.rs\<close>), caller identities (\<open>identity.rs\<close> of
  \<open>latiq-common\<close>), the bearer parser of \<open>latiq-auth\<close> and the message conversions of
  \<open>dataset_convert.rs\<close>.

  A handler returns its reply, the registry and the access records it wrote; the records'
  durations are left out. Token verification is an argument: a verifier takes the token and
  the claimed agent and yields an identity or an error. \<open>challenge\<close> is the header value of the
  configured metadata URL.
\<close>

section \<open>Identities (identity.rs)\<close>

record Identity =
  agent_id :: string
  subject :: string
  issuer :: string
  verified :: bool

definition claimed_leaf :: "string \<Rightarrow> string option \<Rightarrow> string" where
  "claimed_leaf fallback h =
     (case h of Some s \<Rightarrow> (if trim s = [] then fallback else trim s) | None \<Rightarrow> fallback)"

definition identity_claimed :: "string option \<Rightarrow> Identity" where
  "identity_claimed h =
     \<lparr>agent_id = claimed_leaf ''anonymous'' h, subject = [], issuer = [], verified = False\<rparr>"

definition identity_verified :: "string \<Rightarrow> string \<Rightarrow> string option \<Rightarrow> Identity" where
  "identity_verified sub iss h =
     \<lparr>agent_id = claimed_leaf (trim sub) h, subject = trim sub, issuer = trim iss, verified = True\<rparr>"

section \<open>Bearer credentials (latiq-auth)\<close>

fun split_once :: "char \<Rightarrow> string \<Rightarrow> (string \<times> string) option" where
  "split_once d [] = None"
| "split_once d (c # cs) =
     (if c = d then Some ([], cs)
      else (case split_once d cs of None \<Rightarrow> None | Some (a, b) \<Rightarrow> Some (c # a, b)))"

definition bearer :: "string \<Rightarrow> string option" where
  "bearer h =
     (case split_once CHR '' '' h of
        None \<Rightarrow> None
      | Some (scheme, token) \<Rightarrow>
          if \<not> eq_ignore_ascii_case scheme ''bearer'' then None
          else if trim token = [] then None else Some (trim token))"

section \<open>The service\<close>

record AdminService =
  verifier :: "(string \<Rightarrow> string option \<Rightarrow> (string, Identity) result) option"
  challenge :: "string option"

datatype admin_status =
    A_Status Status
  | A_Unauthenticated string "string option"
  | A_InvalidArgument string

record AccessRecord =
  ac_identity :: Identity
  ac_op :: string
  ac_pond :: string
  ac_trace_id :: string
  ac_summary :: string
  ac_outcome :: string

definition audit :: "Identity \<Rightarrow> string \<Rightarrow> string option \<Rightarrow> string \<Rightarrow> string \<Rightarrow> string \<Rightarrow> AccessRecord" where
  "audit ident op pond summary result_word trace =
     \<lparr>ac_identity = ident, ac_op = op, ac_pond = (case pond of None \<Rightarrow> ''-'' | Some p \<Rightarrow> p),
      ac_trace_id = (if trace = [] then ''-'' else trace), ac_summary = summary, ac_outcome = result_word\<rparr>"

definition outcome :: "('e, 'a) result \<Rightarrow> string" where
  "outcome res = (if is_ok res then ''ok'' else ''error'')"

definition unauthenticated :: "AdminService \<Rightarrow> string \<Rightarrow> admin_status" where
  "unauthenticated s msg = A_Unauthenticated msg (challenge s)"

definition identity_of :: "AdminService \<Rightarrow> string \<Rightarrow> metadata \<Rightarrow> string
    \<Rightarrow> (admin_status, Identity \<times> string) result \<times> AccessRecord list" where
  "identity_of s u md op =
     (let trace = trace_id_of u md;
          claimed = md ''latiq-agent-id''
      in case verifier s of
        None \<Rightarrow> (Ok (identity_claimed claimed, trace), [])
      | Some verify \<Rightarrow>
          (case Option.bind (md ''authorization'') bearer of
             None \<Rightarrow> (Err (unauthenticated s ''a bearer token is required''),
                [audit (identity_claimed claimed) op None ''rejected: no token'' ''error'' trace])
           | Some token \<Rightarrow>
               (case verify token claimed of
                  Inl e \<Rightarrow> (Err (unauthenticated s ''the bearer token was rejected''),
                    [audit (identity_claimed claimed) op None ''rejected: invalid token'' ''error'' trace])
                | Inr ident \<Rightarrow> (Ok (ident, trace), []))))"

definition created_by :: "Identity \<Rightarrow> string \<Rightarrow> string" where
  "created_by ident claimed =
     (if verified ident \<and> subject ident \<noteq> [] then subject ident
      else if trim claimed = [] then ''anonymous'' else claimed)"

section \<open>Conversions (dataset\_convert.rs)\<close>

text \<open>The messages have the fields of the rows they carry; a table without a format is \<open>auto\<close>.\<close>

definition dataset_table_from_msg :: "DatasetTableRow \<Rightarrow> DatasetTableRow" where
  "dataset_table_from_msg t = t\<lparr>format := (if trim (format t) = [] then ''auto'' else format t)\<rparr>"

record NodeInfo =
  ni_node_id :: string
  ni_mcp_endpoint :: string
  ni_state :: string
  ni_pond_count :: "32 word"
  ni_last_heartbeat :: int
  ni_heartbeat_age_seconds :: "64 word"

definition node_info :: "NodeRow \<Rightarrow> NodeInfo" where
  "node_info n = \<lparr>ni_node_id = nr_node_id n, ni_mcp_endpoint = nr_mcp_endpoint n, ni_state = nr_state n,
     ni_pond_count = nr_pond_count n, ni_last_heartbeat = nr_last_heartbeat n,
     ni_heartbeat_age_seconds = word_of_int (max (nr_heartbeat_age_seconds n) 0)\<rparr>"

record PondSummary =
  ps_pond_id :: string
  ps_name :: string
  ps_owner :: string
  ps_created_at :: int
  ps_node_id :: string
  ps_tier :: string
  ps_description :: string
  ps_lineage :: bool

definition pond_summary :: "PondRow \<times> int \<times> string \<times> string option \<Rightarrow> PondSummary" where
  "pond_summary = (\<lambda>(row, created, _, _).
     \<lparr>ps_pond_id = pond_id row, ps_name = pond_name row, ps_owner = owner_identity row,
      ps_created_at = created, ps_node_id = node_id row, ps_tier = tier row,
      ps_description = description row, ps_lineage = lineage row\<rparr>)"

section \<open>Handlers\<close>

text \<open>What a handler draws from outside: the failures of its registry calls, the registry as
  later reads of a listing see it, the clock, the UUID of a trace span and the JSON codec.\<close>

record admin_env =
  a_fault :: fault
  a_faults :: "nat \<Rightarrow> fault"
  a_seen :: "nat \<Rightarrow> fault \<times> registry"
  a_now :: int
  a_uuid :: string
  a_to_json :: "params \<Rightarrow> string"
  a_from_json :: "string \<Rightarrow> params option"

type_synonym 'a handled = "(admin_status, 'a) result \<times> registry \<times> AccessRecord list"

text \<open>The shape every handler shares: identify the caller, or answer with the rejection.\<close>

definition identified :: "AdminService \<Rightarrow> admin_env \<Rightarrow> metadata \<Rightarrow> string
    \<Rightarrow> (Identity \<Rightarrow> string \<Rightarrow> 'a handled) \<Rightarrow> registry \<Rightarrow> 'a handled" where
  "identified s e md op k r =
     (case identity_of s (a_uuid e) md op of
        (Inl st, recs) \<Rightarrow> (Err st, r, recs)
      | (Inr (ident, trace), recs) \<Rightarrow> k ident trace)"

text \<open>A registry call, its error turned into a traced status, and its record.\<close>

definition recorded :: "Identity \<Rightarrow> string \<Rightarrow> string \<Rightarrow> string option \<Rightarrow> string \<Rightarrow> ('a \<Rightarrow> 'b) \<Rightarrow> 'a reply \<Rightarrow> 'b handled" where
  "recorded ident trace op pond summary reply x =
     (map_ok reply (map_err (\<lambda>e. A_Status (to_status_traced e (Some trace))) (fst x)), snd x,
      [audit ident op pond summary (outcome (fst x)) trace])"

definition rejected :: "Identity \<Rightarrow> string \<Rightarrow> string \<Rightarrow> string option \<Rightarrow> string \<Rightarrow> string \<Rightarrow> registry \<Rightarrow> 'b handled" where
  "rejected ident trace op pond summary msg r =
     (Err (A_InvalidArgument msg), r, [audit ident op pond summary ''error'' trace])"

definition admin_list_nodes :: "AdminService \<Rightarrow> admin_env \<Rightarrow> metadata \<Rightarrow> registry \<Rightarrow> NodeInfo list handled" where
  "admin_list_nodes s e md r = identified s e md ''list_nodes'' (\<lambda>ident trace.
     recorded ident trace ''list_nodes'' None [] (map node_info) (list_nodes (a_fault e) (a_now e) r)) r"

definition admin_describe_node :: "AdminService \<Rightarrow> admin_env \<Rightarrow> metadata \<Rightarrow> string \<Rightarrow> registry \<Rightarrow> NodeInfo handled" where
  "admin_describe_node s e md nid r = identified s e md ''describe_node'' (\<lambda>ident trace.
     recorded ident trace ''describe_node'' None (''node='' @ nid) node_info (describe_node (a_fault e) (a_now e) nid r)) r"

definition admin_policy_get :: "AdminService \<Rightarrow> admin_env \<Rightarrow> metadata \<Rightarrow> registry \<Rightarrow> (string \<times> string) list handled" where
  "admin_policy_get s e md r = identified s e md ''policy_get'' (\<lambda>ident trace.
     recorded ident trace ''policy_get'' None [] id (policy_get (a_fault e) r)) r"

definition admin_policy_set :: "AdminService \<Rightarrow> admin_env \<Rightarrow> metadata \<Rightarrow> string \<Rightarrow> string \<Rightarrow> registry \<Rightarrow> unit handled" where
  "admin_policy_set s e md key val r = identified s e md ''policy_set'' (\<lambda>ident trace.
     recorded ident trace ''policy_set'' None (''key='' @ key @ '' value='' @ val) id (policy_set (a_fault e) key val r)) r"

definition admin_pond_list :: "AdminService \<Rightarrow> admin_env \<Rightarrow> metadata \<Rightarrow> registry \<Rightarrow> PondSummary list handled" where
  "admin_pond_list s e md r = identified s e md ''pond_list'' (\<lambda>ident trace.
     (case recorded ident trace ''pond_list'' None [] id (list_ponds (a_fault e) r) of
        (Inl st, r', recs) \<Rightarrow> (Err st, r', recs)
      | (Inr rows, r', recs) \<Rightarrow>
          (map_ok (map pond_summary) (map_err (\<lambda>err. A_Status (to_status_traced err (Some trace)))
             (pond_details (a_seen e) 0 rows)), r', recs))) r"

definition admin_pond_set_tier :: "AdminService \<Rightarrow> admin_env \<Rightarrow> metadata \<Rightarrow> string \<Rightarrow> string \<Rightarrow> registry
    \<Rightarrow> (string \<times> string) handled" where
  "admin_pond_set_tier s e md pond t r = identified s e md ''pond_set_tier'' (\<lambda>ident trace.
     if trim pond = [] then rejected ident trace ''pond_set_tier'' None ''rejected: pond is required'' ''pond is required'' r
     else recorded ident trace ''pond_set_tier'' (Some pond) (''tier='' @ t) (\<lambda>_. (pond, t))
            (set_pond_tier (a_fault e) pond t r)) r"

definition forget_confirm_text :: "string \<Rightarrow> string" where
  "forget_confirm_text pond = ''pond_forget removes the registry record for pond '' @ quoted pond @
     '' (its data on the departed node is NOT deleted, only orphaned); set confirm=true to proceed''"

definition admin_pond_forget :: "AdminService \<Rightarrow> admin_env \<Rightarrow> metadata \<Rightarrow> string \<Rightarrow> bool \<Rightarrow> registry \<Rightarrow> ForgottenPond handled" where
  "admin_pond_forget s e md pond confirm r = identified s e md ''pond_forget'' (\<lambda>ident trace.
     if trim pond = [] then rejected ident trace ''pond_forget'' None ''rejected: pond is required'' ''pond is required'' r
     else if \<not> confirm then rejected ident trace ''pond_forget'' (Some pond) ''rejected: confirm is required''
            (forget_confirm_text pond) r
     else (let x = forget_pond (a_fault e) pond r
           in recorded ident trace ''pond_forget'' (Some pond)
                (case fst x of Inr fp \<Rightarrow> ''forgot record; data orphaned on node='' @ fp_node_id fp | Inl _ \<Rightarrow> ''refused'')
                id x)) r"

definition admin_dataset_add :: "AdminService \<Rightarrow> admin_env \<Rightarrow> metadata \<Rightarrow> DatasetRow option \<Rightarrow> registry \<Rightarrow> string handled" where
  "admin_dataset_add s e md dataset r = identified s e md ''dataset_add'' (\<lambda>ident trace.
     case dataset of
       None \<Rightarrow> rejected ident trace ''dataset_add'' None ''rejected: dataset is required'' ''dataset is required'' r
     | Some d \<Rightarrow>
         let row = d\<lparr>ds_tables := map dataset_table_from_msg (ds_tables d),
                     ds_created_by := created_by ident (ds_created_by d)\<rparr>
         in recorded ident trace ''dataset_add'' None (''dataset='' @ ds_name row) id
              (add_dataset (a_fault e) (a_now e) row r)) r"

definition admin_dataset_remove :: "AdminService \<Rightarrow> admin_env \<Rightarrow> metadata \<Rightarrow> string \<Rightarrow> registry \<Rightarrow> unit handled" where
  "admin_dataset_remove s e md name r = identified s e md ''dataset_remove'' (\<lambda>ident trace.
     recorded ident trace ''dataset_remove'' None (''dataset='' @ name) id (remove_dataset (a_fault e) name r)) r"

definition admin_dataset_list :: "AdminService \<Rightarrow> admin_env \<Rightarrow> metadata \<Rightarrow> string \<Rightarrow> registry \<Rightarrow> DatasetRow list handled" where
  "admin_dataset_list s e md q r = identified s e md ''dataset_list'' (\<lambda>ident trace.
     recorded ident trace ''dataset_list'' None (''query='' @ q) id (list_datasets (a_fault e) (a_faults e) q r)) r"

definition admin_catalog_add :: "AdminService \<Rightarrow> admin_env \<Rightarrow> metadata \<Rightarrow> CatalogRow option \<Rightarrow> registry
    \<Rightarrow> (string \<times> string list) handled" where
  "admin_catalog_add s e md catalog r = identified s e md ''catalog_add'' (\<lambda>ident trace.
     case catalog of
       None \<Rightarrow> rejected ident trace ''catalog_add'' None ''rejected: catalog is required'' ''catalog is required'' r
     | Some c \<Rightarrow>
         if \<not> is_known_type (ca_type c)
         then rejected ident trace ''catalog_add'' None (''rejected: unknown catalog type '' @ ca_type c)
                (''unknown catalog type '' @ quoted (ca_type c) @ '' (supported: iceberg)'') r
         else (case filter_params (ca_type c) (bt_extend [] (ca_params c)) of (kept, dropped) \<Rightarrow>
           let row = c\<lparr>ca_params := kept, ca_created_by := created_by ident (ca_created_by c)\<rparr>
           in recorded ident trace ''catalog_add'' None (''catalog='' @ ca_name row @ '' type='' @ ca_type row)
                (\<lambda>name. (name, dropped)) (add_catalog (a_to_json e) (a_fault e) (a_now e) row r))) r"

definition admin_catalog_remove :: "AdminService \<Rightarrow> admin_env \<Rightarrow> metadata \<Rightarrow> string \<Rightarrow> registry \<Rightarrow> unit handled" where
  "admin_catalog_remove s e md name r = identified s e md ''catalog_remove'' (\<lambda>ident trace.
     recorded ident trace ''catalog_remove'' None (''catalog='' @ name) id (remove_catalog (a_fault e) name r)) r"

definition admin_catalog_list :: "AdminService \<Rightarrow> admin_env \<Rightarrow> metadata \<Rightarrow> string \<Rightarrow> registry \<Rightarrow> CatalogRow list handled" where
  "admin_catalog_list s e md q r = identified s e md ''catalog_list'' (\<lambda>ident trace.
     recorded ident trace ''catalog_list'' None (''query='' @ q) id
       (list_catalogs (a_from_json e) (a_fault e) (a_faults e) q r)) r"

section \<open>All handlers\<close>

datatype admin_request =
    ListNodes
  | DescribeNode string
  | PolicyGet
  | PolicySet string string
  | PondList
  | PondSetTier string string
  | PondForget string bool
  | DatasetAdd "DatasetRow option"
  | DatasetRemove string
  | DatasetList string
  | CatalogAdd "CatalogRow option"
  | CatalogRemove string
  | CatalogList string

text \<open>Of a handled request: whether it was answered, the registry, and the records.\<close>

definition observe :: "'a handled \<Rightarrow> bool \<times> registry \<times> AccessRecord list" where
  "observe x = (is_ok (fst x), snd x)"

fun admin_op :: "admin_request \<Rightarrow> string" where
  "admin_op ListNodes = ''list_nodes''"
| "admin_op (DescribeNode _) = ''describe_node''"
| "admin_op PolicyGet = ''policy_get''"
| "admin_op (PolicySet _ _) = ''policy_set''"
| "admin_op PondList = ''pond_list''"
| "admin_op (PondSetTier _ _) = ''pond_set_tier''"
| "admin_op (PondForget _ _) = ''pond_forget''"
| "admin_op (DatasetAdd _) = ''dataset_add''"
| "admin_op (DatasetRemove _) = ''dataset_remove''"
| "admin_op (DatasetList _) = ''dataset_list''"
| "admin_op (CatalogAdd _) = ''catalog_add''"
| "admin_op (CatalogRemove _) = ''catalog_remove''"
| "admin_op (CatalogList _) = ''catalog_list''"

fun admin_handle :: "AdminService \<Rightarrow> admin_env \<Rightarrow> metadata \<Rightarrow> admin_request \<Rightarrow> registry
    \<Rightarrow> bool \<times> registry \<times> AccessRecord list" where
  "admin_handle s e md ListNodes r = observe (admin_list_nodes s e md r)"
| "admin_handle s e md (DescribeNode nid) r = observe (admin_describe_node s e md nid r)"
| "admin_handle s e md PolicyGet r = observe (admin_policy_get s e md r)"
| "admin_handle s e md (PolicySet k v) r = observe (admin_policy_set s e md k v r)"
| "admin_handle s e md PondList r = observe (admin_pond_list s e md r)"
| "admin_handle s e md (PondSetTier p t) r = observe (admin_pond_set_tier s e md p t r)"
| "admin_handle s e md (PondForget p c) r = observe (admin_pond_forget s e md p c r)"
| "admin_handle s e md (DatasetAdd d) r = observe (admin_dataset_add s e md d r)"
| "admin_handle s e md (DatasetRemove n) r = observe (admin_dataset_remove s e md n r)"
| "admin_handle s e md (DatasetList q) r = observe (admin_dataset_list s e md q r)"
| "admin_handle s e md (CatalogAdd c) r = observe (admin_catalog_add s e md c r)"
| "admin_handle s e md (CatalogRemove n) r = observe (admin_catalog_remove s e md n r)"
| "admin_handle s e md (CatalogList q) r = observe (admin_catalog_list s e md q r)"

lemmas admin_defs = admin_list_nodes_def admin_describe_node_def admin_policy_get_def admin_policy_set_def
  admin_pond_list_def admin_pond_set_tier_def admin_pond_forget_def admin_dataset_add_def
  admin_dataset_remove_def admin_dataset_list_def admin_catalog_add_def admin_catalog_remove_def
  admin_catalog_list_def

section \<open>Lemmas\<close>

text \<open>One record, of this operation, that says whether the call was answered.\<close>

definition recorded_once :: "string \<Rightarrow> 'a handled \<Rightarrow> bool" where
  "recorded_once op x \<longleftrightarrow> (\<exists>rec. snd (snd x) = [rec] \<and> ac_op rec = op
     \<and> ac_outcome rec = (if is_ok (fst x) then ''ok'' else ''error''))"

lemma is_ok_map [simp]: "is_ok (map_ok f x) = is_ok x" "is_ok (map_err g x) = is_ok x"
  by (cases x; simp)+

lemma audit_simps [simp]:
  "ac_op (audit ident op pond summary w trace) = op" "ac_outcome (audit ident op pond summary w trace) = w"
  "ac_identity (audit ident op pond summary w trace) = ident" "ac_summary (audit ident op pond summary w trace) = summary"
  by (simp_all add: audit_def)

lemma recorded_once_simps [simp]:
  "recorded_once op (recorded ident trace op pond summary reply x)"
  "recorded_once op (rejected ident trace op pond summary msg r)"
  by (simp_all add: recorded_once_def recorded_def rejected_def outcome_def)

lemma recorded_once_identified:
  assumes "\<And>ident trace. recorded_once op (k ident trace)"
  shows "recorded_once op (identified s e md op k r)"
proof -
  have "(\<exists>ident trace. identity_of s (a_uuid e) md op = (Inr (ident, trace), []))
      \<or> (\<exists>st rec. identity_of s (a_uuid e) md op = (Inl st, [rec]) \<and> ac_op rec = op \<and> ac_outcome rec = ''error'')"
    by (auto simp: identity_of_def Let_def split: option.split sum.split)
  then show ?thesis
  proof
    assume "\<exists>ident trace. identity_of s (a_uuid e) md op = (Inr (ident, trace), [])"
    then show ?thesis using assms by (auto simp: identified_def)
  next
    assume "\<exists>st rec. identity_of s (a_uuid e) md op = (Inl st, [rec]) \<and> ac_op rec = op \<and> ac_outcome rec = ''error''"
    then show ?thesis by (auto simp: identified_def recorded_once_def)
  qed
qed

definition trail_ok :: "string \<Rightarrow> bool \<times> registry \<times> AccessRecord list \<Rightarrow> bool" where
  "trail_ok op x \<longleftrightarrow> (case x of (answered, r', recs) \<Rightarrow>
     \<exists>rec. recs = [rec] \<and> ac_op rec = op \<and> ac_outcome rec = (if answered then ''ok'' else ''error''))"

lemma trail_ok_observe: "recorded_once op x \<Longrightarrow> trail_ok op (observe x)"
  by (auto simp: trail_ok_def recorded_once_def observe_def case_prod_unfold)

lemma recorded_once_pond_list: "recorded_once ''pond_list'' (admin_pond_list s e md r)"
  unfolding admin_pond_list_def
proof (rule recorded_once_identified)
  fix ident trace
  show "recorded_once ''pond_list''
     (case recorded ident trace ''pond_list'' None [] id (list_ponds (a_fault e) r) of
        (Inl st, r', recs) \<Rightarrow> (Err st, r', recs)
      | (Inr rows, r', recs) \<Rightarrow>
          (map_ok (map pond_summary) (map_err (\<lambda>err. A_Status (to_status_traced err (Some trace)))
             (pond_details (a_seen e) 0 rows)), r', recs))"
  proof (cases "fst (list_ponds (a_fault e) r)")
    case (Inl err)
    then show ?thesis by (simp add: recorded_once_def recorded_def outcome_def)
  next
    case (Inr rows)
    obtain infos where "pond_details (a_seen e) 0 rows = Ok infos" using pond_details_ok by blast
    then show ?thesis using Inr by (simp add: recorded_once_def recorded_def outcome_def)
  qed
qed

text \<open>An issuer is configured and the request carries no token the verifier accepts.\<close>

definition unverified :: "AdminService \<Rightarrow> metadata \<Rightarrow> bool" where
  "unverified s md \<longleftrightarrow> (case verifier s of
      None \<Rightarrow> False
    | Some v \<Rightarrow> (case Option.bind (md ''authorization'') bearer of
        None \<Rightarrow> True
      | Some tok \<Rightarrow> is_err (v tok (md ''latiq-agent-id''))))"

definition refused :: "string \<Rightarrow> registry \<Rightarrow> bool \<times> registry \<times> AccessRecord list \<Rightarrow> bool" where
  "refused op r x \<longleftrightarrow> (\<exists>rec. x = (False, r, [rec]) \<and> ac_op rec = op
     \<and> (ac_summary rec = ''rejected: no token'' \<or> ac_summary rec = ''rejected: invalid token'')
     \<and> \<not> verified (ac_identity rec) \<and> subject (ac_identity rec) = [])"

lemma refused_identified:
  assumes "unverified s md"
  shows "refused op r (observe (identified s e md op k r))"
proof -
  obtain v where v: "verifier s = Some v" using assms by (auto simp: unverified_def split: option.splits)
  show ?thesis
  proof (cases "Option.bind (md ''authorization'') bearer")
    case None
    then show ?thesis using v
      by (simp add: identified_def identity_of_def Let_def identity_claimed_def refused_def observe_def)
  next
    case (Some tok)
    then obtain err where "v tok (md ''latiq-agent-id'') = Inl err"
      using assms v by (cases "v tok (md ''latiq-agent-id'')") (auto simp: unverified_def)
    then show ?thesis using Some v
      by (simp add: identified_def identity_of_def Let_def identity_claimed_def refused_def observe_def)
  qed
qed

section \<open>Properties\<close>

text \<open>The operators' trail is complete and truthful: every call of the admin surface,
  whatever its outcome, writes exactly one access record, named after the call, whose outcome
  is \<open>ok\<close> exactly when the caller was answered.\<close>

lemma admin_every_call_is_recorded:
  "case admin_handle s e md rq r of (answered, r', recs) \<Rightarrow>
     \<exists>rec. recs = [rec] \<and> ac_op rec = admin_op rq \<and> ac_outcome rec = (if answered then ''ok'' else ''error'')"
proof -
  have "trail_ok (admin_op rq) (admin_handle s e md rq r)"
  proof (cases rq)
    case PondList
    then show ?thesis using recorded_once_pond_list by (simp add: trail_ok_observe)
  qed (simp_all only: admin_handle.simps admin_op.simps, simp_all add: admin_defs trail_ok_observe
        recorded_once_identified Let_def split: option.split prod.split)
  then show ?thesis by (simp add: trail_ok_def)
qed

text \<open>With an issuer configured nothing happens without a verified token: if the request
  carries no bearer credential, or one the verifier refuses, then whatever the call was it is
  not answered, the registry is untouched, and the attempt is on the trail under the caller's
  unverified claim only.\<close>

lemma admin_needs_a_verified_token:
  assumes "unverified s md"
  shows "\<exists>rec. admin_handle s e md rq r = (False, r, [rec]) \<and> ac_op rec = admin_op rq
     \<and> (ac_summary rec = ''rejected: no token'' \<or> ac_summary rec = ''rejected: invalid token'')
     \<and> \<not> verified (ac_identity rec) \<and> subject (ac_identity rec) = []"
proof -
  have "refused (admin_op rq) r (admin_handle s e md rq r)"
    by (cases rq) (simp_all add: admin_defs refused_identified [OF assms])
  then show ?thesis by (simp add: refused_def)
qed

lemma admin_needs_a_verified_token_example:
  "\<exists>rec. admin_handle \<lparr>verifier = Some (\<lambda>t c. Err ''bad signature''), challenge = None\<rparr>
      \<lparr>a_fault = no_fault, a_faults = (\<lambda>_. no_fault), a_seen = (\<lambda>_. (no_fault, registry_fresh 0)), a_now = 0,
       a_uuid = demo_id, a_to_json = (\<lambda>_. []), a_from_json = (\<lambda>_. None)\<rparr>
      (\<lambda>k. if k = ''authorization'' then Some ''Bearer abc'' else None) (DatasetRemove ''tpch'') (registry_fresh 0)
    = (False, registry_fresh 0, [rec]) \<and> \<not> verified (ac_identity rec)"
proof -
  let ?md = "(\<lambda>k. if k = ''authorization'' then Some ''Bearer abc'' else None) :: metadata"
  have "unverified \<lparr>verifier = Some (\<lambda>t c. Err ''bad signature''), challenge = None\<rparr> ?md"
    by (simp add: unverified_def split: option.split)
  then show ?thesis
    using admin_needs_a_verified_token [where md = ?md and rq = "DatasetRemove ''tpch''" and r = "registry_fresh 0"]
    by blast
qed

text \<open>Credentials never persist and authorship is not the client's to choose: after a
  \<open>catalog_add\<close> that was answered, the stored catalog has none of the credential parameters,
  every parameter that was not kept is named in the answer, and the stored author is the
  verified subject whenever there is one, whatever the request claimed. The JSON codec is
  assumed to read back what it wrote.\<close>

lemma catalog_add_stores_no_credentials:
  assumes "\<And>ps. a_from_json e (a_to_json e ps) = Some ps"
    and "identity_of s (a_uuid e) md ''catalog_add'' = (Ok (ident, trace), [])"
    and "admin_catalog_add s e md (Some c) r = (Ok (name, dropped), r', recs)"
  shows "\<exists>row. fst (get_catalog (a_from_json e) no_fault name r') = Ok row \<and> ca_name row = ca_name c
    \<and> set (map fst (ca_params row)) \<inter> {''token'', ''s3_access_key'', ''s3_secret_key''} = {}
    \<and> set (map fst (ca_params c)) \<subseteq> set (map fst (ca_params row)) \<union> set dropped
    \<and> (verified ident \<and> subject ident \<noteq> [] \<longrightarrow> ca_created_by row = subject ident)"
proof -
  define inc where "inc = bt_extend [] (ca_params c)"
  obtain kept drp where fp: "filter_params (ca_type c) inc = (kept, drp)" by fastforce
  define row where "row = c\<lparr>ca_params := kept, ca_created_by := created_by ident (ca_created_by c)\<rparr>"
  have known: "is_known_type (ca_type c)"
    using assms(3) by (auto simp: admin_catalog_add_def identified_def assms(2) rejected_def split: if_splits)
  then obtain spec where spec: "catalog_lookup (ca_type c) = Some spec" by (auto simp: is_known_type_def)
  have add: "add_catalog (a_to_json e) (a_fault e) (a_now e) row r = (Inr name, r')" and d: "dropped = drp"
    using assms(3) known fp
    by (cases "add_catalog (a_to_json e) (a_fault e) (a_now e) row r";
        cases "fst (add_catalog (a_to_json e) (a_fault e) (a_now e) row r)";
        simp add: admin_catalog_add_def identified_def assms(2) recorded_def Let_def
          flip: inc_def row_def)+
  have wf: "bt_wf inc" unfolding inc_def by (rule bt_wf_extend) simp
  have keys: "fst ` set inc = fst ` set (ca_params c)" unfolding inc_def by (rule keys_bt_extend)
  have kd: "kept = filter (\<lambda>(k, v). k \<in> set (allowed_params spec)) inc"
    "drp = map fst (filter (\<lambda>(k, v). k \<notin> set (allowed_params spec)) inc)"
    using filter_params_known [OF spec wf] fp by auto
  have "name = ca_name row" "r' = replaced_catalog (a_now e) (a_to_json e (ca_params row)) row r"
    using add by (simp_all add: add_catalog_Ok)
  then have got: "fst (get_catalog (a_from_json e) no_fault name r') =
      Ok (row\<lparr>ca_tags := sorted_list_of_set (set (ca_tags row)), ca_created_at := a_now e\<rparr>)"
    by (simp add: get_replaced_catalog assms(1))
  have "set (map fst kept) \<inter> {''token'', ''s3_access_key'', ''s3_secret_key''} = {}"
    using allowed_no_credentials [OF spec] unfolding kd by auto
  moreover have "set (map fst (ca_params c)) \<subseteq> set (map fst kept) \<union> set drp"
  proof
    fix k
    assume "k \<in> set (map fst (ca_params c))"
    then have "k \<in> fst ` set inc" using keys by simp
    then obtain v where kv: "(k, v) \<in> set inc" by auto
    show "k \<in> set (map fst kept) \<union> set drp"
    proof (cases "k \<in> set (allowed_params spec)")
      case True
      then have "(k, v) \<in> set kept" using kv kd(1) by simp
      then show ?thesis by force
    next
      case False
      then have "(k, v) \<in> set (filter (\<lambda>(k, v). k \<notin> set (allowed_params spec)) inc)" using kv by simp
      then show ?thesis unfolding kd(2) by force
    qed
  qed
  moreover have "ca_params row = kept" "ca_name row = ca_name c"
    "verified ident \<and> subject ident \<noteq> [] \<longrightarrow> ca_created_by row = subject ident"
    by (simp_all add: row_def created_by_def)
  ultimately show ?thesis
    using got d by (intro exI [of _ "row\<lparr>ca_tags := sorted_list_of_set (set (ca_tags row)), ca_created_at := a_now e\<rparr>"]) simp
qed

lemma catalog_add_stores_no_credentials_example:
  "\<exists>r' recs row. admin_catalog_add \<lparr>verifier = Some (\<lambda>t c. Ok (identity_verified ''ann'' ''idp'' c)), challenge = None\<rparr>
       \<lparr>a_fault = no_fault, a_faults = (\<lambda>_. no_fault), a_seen = (\<lambda>_. (no_fault, registry_fresh 0)), a_now = 3,
        a_uuid = demo_id, a_to_json = demo_enc, a_from_json = (\<lambda>s. demo_dec s [] [] [])\<rparr>
       (\<lambda>k. if k = ''authorization'' then Some ''Bearer abc'' else None)
       (Some \<lparr>ca_name = ''lake'', ca_type = ''iceberg'', ca_params = [(''endpoint'', ''u''), (''token'', ''x'')],
         ca_description = [], ca_tags = [], ca_created_by = ''mallory'', ca_created_at = 0\<rparr>) (registry_fresh 0)
      = (Ok (''lake'', [''token'']), r', recs)
    \<and> fst (get_catalog (\<lambda>s. demo_dec s [] [] []) no_fault ''lake'' r') = Ok row \<and> ca_created_by row = ''ann''"
proof -
  let ?s = "\<lparr>verifier = Some (\<lambda>t c. Ok (identity_verified ''ann'' ''idp'' c)), challenge = None\<rparr>"
  let ?e = "\<lparr>a_fault = no_fault, a_faults = (\<lambda>_. no_fault), a_seen = (\<lambda>_. (no_fault, registry_fresh 0)), a_now = 3,
        a_uuid = demo_id, a_to_json = demo_enc, a_from_json = (\<lambda>s. demo_dec s [] [] [])\<rparr>"
  let ?md = "(\<lambda>k. if k = ''authorization'' then Some ''Bearer abc'' else None) :: metadata"
  let ?c = "\<lparr>ca_name = ''lake'', ca_type = ''iceberg'', ca_params = [(''endpoint'', ''u''), (''token'', ''x'')],
         ca_description = [], ca_tags = [], ca_created_by = ''mallory'', ca_created_at = 0\<rparr>"
  define ident where "ident = identity_verified ''ann'' ''idp'' None"
  have ann: "verified ident" "subject ident = ''ann''"
    by (simp_all add: ident_def identity_verified_def trim_id is_whitespace_def)
  have tok: "bearer ''Bearer abc'' = Some ''abc''" by code_simp
  have id: "identity_of ?s (a_uuid ?e) ?md ''catalog_add'' = (Ok (ident, []), [])"
    by (simp add: identity_of_def tok Let_def trace_id_of_def ident_def)
  have fp: "filter_params ''iceberg'' (bt_extend [] [(''endpoint'', ''u''), (''token'', ''x'')]) = ([(''endpoint'', ''u'')], [''token''])"
    by code_simp
  have kn: "is_known_type ''iceberg''" by code_simp
  have idn: "is_ident ''lake''" by (simp add: is_ident_def char_class_defs)
  define row where "row = ?c\<lparr>ca_params := [(''endpoint'', ''u'')], ca_created_by := created_by ident ''mallory''\<rparr>"
  have add: "add_catalog demo_enc no_fault 3 row (registry_fresh 0)
      = (Inr ''lake'', replaced_catalog 3 (demo_enc (ca_params row)) row (registry_fresh 0))"
    using idn by (simp add: add_catalog_Ok row_def)
  have run: "\<exists>r' recs. admin_catalog_add ?s ?e ?md (Some ?c) (registry_fresh 0) = (Ok (''lake'', [''token'']), r', recs)"
    using id kn fp add by (simp add: admin_catalog_add_def identified_def recorded_def row_def)
  then obtain r' recs where run': "admin_catalog_add ?s ?e ?md (Some ?c) (registry_fresh 0) = (Ok (''lake'', [''token'']), r', recs)"
    by blast
  have codec: "a_from_json ?e (a_to_json ?e ps) = Some ps" for ps using demo_codec [of ps "[]"] by simp
  show ?thesis
    using catalog_add_stores_no_credentials [OF codec id run'] run' ann by auto
qed

end
