(* ===== verification/Inflight.thy ===== *)
theory Inflight
  imports Error_Mapping
begin

text \<open>
  The node's registry of cancellable operations (\<open>inflight.rs\<close>) and a statement's deadline
  (\<open>deadline.rs\<close>), both of \<open>latiq-agent-core\<close>.

  An abort token is shared by its clones, so it is identified by the operation it was made
  for; \<open>cancelled\<close> holds the tokens that were cancelled. The two maps are behind two mutexes
  that are never held together: each locked section is one step. Operation ids are fresh
  UUIDs, an argument.
\<close>

section \<open>The registry (inflight.rs)\<close>

record inflight =
  entries :: "(string \<times> string option) list"
  dropping :: "string list"
  cancelled :: "string set"

definition inflight_new :: inflight where
  "inflight_new = \<lparr>entries = [], dropping = [], cancelled = {}\<rparr>"

text \<open>The two locked sections of \<open>register\<close>: the tombstone check, then the insert.\<close>

definition register_check :: "string \<Rightarrow> string option \<Rightarrow> inflight \<Rightarrow> inflight" where
  "register_check op pond s =
     (case pond of
        None \<Rightarrow> s
      | Some pid \<Rightarrow> if pid \<in> set (dropping s) then s\<lparr>cancelled := insert op (cancelled s)\<rparr> else s)"

definition register_insert :: "string \<Rightarrow> string option \<Rightarrow> inflight \<Rightarrow> inflight" where
  "register_insert op pond s = s\<lparr>entries := (op, pond) # filter (\<lambda>(o', _). o' \<noteq> op) (entries s)\<rparr>"

definition register_op :: "string \<Rightarrow> string option \<Rightarrow> inflight \<Rightarrow> inflight" where
  "register_op op pond s = register_insert op pond (register_check op pond s)"

definition complete_op :: "string \<Rightarrow> inflight \<Rightarrow> inflight" where
  "complete_op op s = s\<lparr>entries := filter (\<lambda>(o', _). o' \<noteq> op) (entries s)\<rparr>"

definition cancel_op :: "string \<Rightarrow> inflight \<Rightarrow> inflight" where
  "cancel_op op s = (if op \<in> fst ` set (entries s) then s\<lparr>cancelled := insert op (cancelled s)\<rparr> else s)"

definition cancel_for_pond :: "string \<Rightarrow> inflight \<Rightarrow> inflight" where
  "cancel_for_pond pid s =
     s\<lparr>cancelled := cancelled s \<union> fst ` set (filter (\<lambda>(_, p). p = Some pid) (entries s))\<rparr>"

text \<open>The two locked sections of \<open>begin_drop\<close>: the tombstone, then the cancel.\<close>

definition drop_mark :: "string \<Rightarrow> inflight \<Rightarrow> inflight" where
  "drop_mark pid s = s\<lparr>dropping := List.insert pid (dropping s)\<rparr>"

definition begin_drop :: "string \<Rightarrow> inflight \<Rightarrow> inflight" where
  "begin_drop pid s = cancel_for_pond pid (drop_mark pid s)"

definition end_drop :: "string \<Rightarrow> inflight \<Rightarrow> inflight" where
  "end_drop pid s = s\<lparr>dropping := removeAll pid (dropping s)\<rparr>"

definition inflight_len :: "inflight \<Rightarrow> nat" where
  "inflight_len s = length (entries s)"

text \<open>The operations on a pond whose token is still live.\<close>

definition live_ops :: "inflight \<Rightarrow> string \<Rightarrow> string set" where
  "live_ops s pid = {op. (op, Some pid) \<in> set (entries s) \<and> op \<notin> cancelled s}"

lemmas inflight_defs = inflight_new_def register_check_def register_insert_def register_op_def
  complete_op_def cancel_op_def cancel_for_pond_def drop_mark_def begin_drop_def end_drop_def

subsection \<open>Whole calls, one after another\<close>

inductive call_step :: "inflight \<Rightarrow> inflight \<Rightarrow> bool" where
  "call_step s (register_op op pond s)"
| "call_step s (complete_op op s)"
| "call_step s (cancel_op op s)"
| "call_step s (cancel_for_pond pid s)"
| "call_step s (begin_drop pid s)"
| "call_step s (end_drop pid s)"

inductive calls :: "inflight \<Rightarrow> bool" where
  calls_new: "calls inflight_new"
| calls_step: "calls s \<Longrightarrow> call_step s s' \<Longrightarrow> calls s'"

inductive_cases call_stepE: "call_step s s'"

subsection \<open>Locked sections, interleaved\<close>

text \<open>
  A thread is the rest of its call: what is left to do. Any thread may take its next locked
  section at any time.
\<close>

datatype todo =
    TRegister string "string option"
  | TInsert string "string option"
  | TComplete string
  | TBegin string
  | TCancelAll string
  | TEnd string

fun section_step :: "todo \<Rightarrow> inflight \<Rightarrow> inflight \<times> todo list" where
  "section_step (TRegister op pond) s = (register_check op pond s, [TInsert op pond])"
| "section_step (TInsert op pond) s = (register_insert op pond s, [])"
| "section_step (TComplete op) s = (complete_op op s, [])"
| "section_step (TBegin pid) s = (drop_mark pid s, [TCancelAll pid])"
| "section_step (TCancelAll pid) s = (cancel_for_pond pid s, [])"
| "section_step (TEnd pid) s = (end_drop pid s, [])"

text \<open>A schedule picks, at each moment, the thread to run next, by its index.\<close>

fun run_schedule :: "nat list \<Rightarrow> todo list \<Rightarrow> inflight \<Rightarrow> todo list \<times> inflight" where
  "run_schedule [] ts s = (ts, s)"
| "run_schedule (i # is) ts s =
     (if i < length ts
      then (case section_step (ts ! i) s of (s', next) \<Rightarrow> run_schedule is (take i ts @ next @ drop (Suc i) ts) s')
      else run_schedule is ts s)"

section \<open>Deadlines (deadline.rs)\<close>

record QueryControls =
  qc_timeout_ms :: "64 word option"
  qc_cancel :: bool

text \<open>
  \<open>qc_cancel\<close> says whether the caller's transport has a cancellation source. The watcher is a
  task that waits for the timer or for that source, whichever is first; \<open>select!\<close> takes one
  arm, once.
\<close>

datatype watcher = Waiting | Finished

record Deadline =
  effective_ms :: "64 word"
  dl_max_ms :: "64 word"
  expired :: bool
  token_cancelled :: bool
  watcher :: watcher
  external :: bool

definition arm :: "bool \<Rightarrow> QueryTimeouts \<Rightarrow> QueryControls \<Rightarrow> Deadline" where
  "arm tok t c = \<lparr>effective_ms = effective t (qc_timeout_ms c), dl_max_ms = max_ms t, expired = False,
     token_cancelled = tok, watcher = Waiting, external = qc_cancel c\<rparr>"

datatype deadline_event =
    TimerFires
  | CallerCancels
  | OtherCancel
  | GuardDropped

text \<open>The flag is stored before the token is cancelled: one step for an observer that looks at
  the flag only after the interrupt. A finished or aborted watcher takes no arm.\<close>

fun deadline_step :: "deadline_event \<Rightarrow> Deadline \<Rightarrow> Deadline" where
  "deadline_step TimerFires d =
     (if watcher d = Waiting then d\<lparr>expired := True, token_cancelled := True, watcher := Finished\<rparr> else d)"
| "deadline_step CallerCancels d =
     (if watcher d = Waiting \<and> external d then d\<lparr>token_cancelled := True, watcher := Finished\<rparr> else d)"
| "deadline_step OtherCancel d = d\<lparr>token_cancelled := True\<rparr>"
| "deadline_step GuardDropped d = d\<lparr>token_cancelled := True, watcher := Finished\<rparr>"

definition classify_error :: "Deadline \<Rightarrow> EngineError \<Rightarrow> AgentError" where
  "classify_error d e =
     (if e = E_Cancelled \<and> expired d then query_timeout (effective_ms d) (dl_max_ms d) else from_engine e)"

section \<open>Lemmas\<close>

text \<open>Everything in flight on a pond that is being dropped has been cancelled.\<close>

definition drop_guarded :: "inflight \<Rightarrow> bool" where
  "drop_guarded s \<longleftrightarrow> (\<forall>pid \<in> set (dropping s). live_ops s pid = {})"

lemma guarded_steps:
  assumes "drop_guarded s"
  shows "drop_guarded (register_op op pond s)" "drop_guarded (complete_op op s)" "drop_guarded (cancel_op op s)"
    "drop_guarded (cancel_for_pond pid s)" "drop_guarded (begin_drop pid s)" "drop_guarded (end_drop pid s)"
proof -
  show "drop_guarded (register_op op pond s)"
    using assms by (cases pond) (auto simp: drop_guarded_def live_ops_def inflight_defs)
  show "drop_guarded (complete_op op s)" "drop_guarded (cancel_op op s)" "drop_guarded (cancel_for_pond pid s)"
    "drop_guarded (end_drop pid s)"
    using assms by (auto simp: drop_guarded_def live_ops_def inflight_defs)
  show "drop_guarded (begin_drop pid s)"
    using assms by (force simp: drop_guarded_def live_ops_def inflight_defs)
qed

lemma calls_guarded: "calls s \<Longrightarrow> drop_guarded s"
proof (induction rule: calls.induct)
  case calls_new
  then show ?case by (simp add: drop_guarded_def inflight_new_def)
next
  case (calls_step s s')
  then show ?case by (auto elim!: call_stepE simp: guarded_steps)
qed

lemma calls_distinct: "calls s \<Longrightarrow> distinct (map fst (entries s))"
proof (induction rule: calls.induct)
  case calls_new
  then show ?case by (simp add: inflight_new_def)
next
  case (calls_step s s')
  then show ?case
    by (auto elim!: call_stepE simp: inflight_defs distinct_map_filter split: option.splits)
qed

text \<open>A cancelled token stays cancelled, whatever runs.\<close>

lemma cancelled_section_mono: "section_step t s = (s', next) \<Longrightarrow> cancelled s \<subseteq> cancelled s'"
  by (cases t) (auto simp: inflight_defs split: option.splits if_splits)

lemma cancelled_schedule_mono: "cancelled s \<subseteq> cancelled (snd (run_schedule is ts s))"
proof (induction "is" ts s rule: run_schedule.induct)
  case (2 i "is" ts s)
  show ?case
  proof (cases "i < length ts")
    case True
    obtain s' nxt where st: "section_step (ts ! i) s = (s', nxt)" by fastforce
    have "cancelled s' \<subseteq> cancelled (snd (run_schedule is (take i ts @ nxt @ drop (Suc i) ts) s'))"
      using "2.IH"(1) [OF True st [symmetric]] by simp
    then show ?thesis using cancelled_section_mono [OF st] True st by auto
  next
    case False
    then show ?thesis using "2.IH"(2) by simp
  qed
qed simp

lemma finished_stays:
  "watcher d = Finished \<Longrightarrow> watcher (fold deadline_step es d) = Finished \<and> expired (fold deadline_step es d) = expired d"
proof (induction es arbitrary: d)
  case (Cons e es)
  then show ?case by (cases e) auto
qed simp

text \<open>The timer wins exactly if it is the first event the watcher reacts to.\<close>

fun timer_first :: "bool \<Rightarrow> deadline_event list \<Rightarrow> bool" where
  "timer_first ext [] = False"
| "timer_first ext (TimerFires # es) = True"
| "timer_first ext (GuardDropped # es) = False"
| "timer_first ext (CallerCancels # es) = (if ext then False else timer_first ext es)"
| "timer_first ext (OtherCancel # es) = timer_first ext es"

lemma expired_iff:
  assumes "watcher d = Waiting" and "\<not> expired d"
  shows "expired (fold deadline_step es d) \<longleftrightarrow> timer_first (external d) es"
  using assms
proof (induction es arbitrary: d)
  case (Cons e es)
  then show ?case by (cases e) (auto simp: finished_stays)
qed simp

section \<open>Properties\<close>

text \<open>C36. A pond that is being dropped runs nothing, where each call on the registry of operations,
  registering and \<open>begin_drop\<close> included, is taken as one step (in between their locked sections there
  is a window, below): from the moment \<open>begin_drop\<close> returns
  and for as long as its tombstone stands, whatever other calls are made, no operation
  registered on the pond has a live token. Once \<open>end_drop\<close> clears the tombstone a new
  operation on the pond is live again, so a drop that failed does not brick the pond.\<close>

theorem dropping_pond_runs_nothing:
  assumes "calls s"
    and "(\<lambda>a b. call_step a b \<and> pid \<in> set (dropping b))\<^sup>*\<^sup>* (begin_drop pid s) s'"
    and "op \<notin> cancelled s'"
  shows "live_ops s' pid = {} \<and> op \<in> live_ops (register_op op (Some pid) (end_drop pid s')) pid"
proof
  have start: "calls (begin_drop pid s) \<and> pid \<in> set (dropping (begin_drop pid s))"
    using calls_step [OF assms(1) call_step.intros(5)] by (simp add: begin_drop_def cancel_for_pond_def drop_mark_def)
  from assms(2) have "calls s' \<and> pid \<in> set (dropping s')"
    by (induction rule: rtranclp_induct) (use start in \<open>auto intro: calls_step\<close>)
  then show "live_ops s' pid = {}" using calls_guarded unfolding drop_guarded_def by blast
  show "op \<in> live_ops (register_op op (Some pid) (end_drop pid s')) pid"
    using assms(3) by (simp add: live_ops_def inflight_defs)
qed

theorem dropping_pond_runs_nothing_witness:
  "live_ops (register_op ''q2'' (Some ''p'') (begin_drop ''p'' (register_op ''q1'' (Some ''p'') inflight_new))) ''p'' = {}"
proof -
  let ?s = "register_op ''q1'' (Some ''p'') inflight_new"
  let ?t = "register_op ''q2'' (Some ''p'') (begin_drop ''p'' ?s)"
  have c: "calls ?s" by (rule calls_step [OF calls_new call_step.intros(1)])
  have "''p'' \<in> set (dropping ?t)" by (simp add: inflight_defs)
  then have "call_step (begin_drop ''p'' ?s) ?t \<and> ''p'' \<in> set (dropping ?t)"
    using call_step.intros(1) by blast
  then have st: "(\<lambda>a b. call_step a b \<and> ''p'' \<in> set (dropping b))\<^sup>*\<^sup>* (begin_drop ''p'' ?s) ?t" by blast
  have "''q3'' \<notin> cancelled ?t" by (simp add: inflight_defs)
  from dropping_pond_runs_nothing [OF c st this] show ?thesis by blast
qed

text \<open>The tombstone does not close the window it was added for: \<open>register\<close> checks the
  tombstone and inserts in two separate locked sections, so a query that checks just before
  \<open>begin_drop\<close> and inserts just after it ends up registered on the tombstoned pond with a live
  token, although either call run as a whole before the other leaves none; a registration whose
  check follows the tombstone is cancelled under every schedule.\<close>

lemma tombstone_race:
  "(let s = snd (run_schedule [0, 1, 1, 0] [TRegister ''q'' (Some ''p''), TBegin ''p''] inflight_new)
    in ''p'' \<in> set (dropping s) \<and> live_ops s ''p'' = {''q''})
   \<and> live_ops (snd (run_schedule [0, 0, 0, 0] [TRegister ''q'' (Some ''p''), TBegin ''p''] inflight_new)) ''p'' = {}
   \<and> live_ops (snd (run_schedule [1, 1, 0, 0] [TRegister ''q'' (Some ''p''), TBegin ''p''] inflight_new)) ''p'' = {}
   \<and> op \<in> cancelled (snd (run_schedule is ts (register_check op (Some pid) (drop_mark pid s))))"
proof -
  have race: "let s = snd (run_schedule [0, 1, 1, 0] [TRegister ''q'' (Some ''p''), TBegin ''p''] inflight_new)
    in ''p'' \<in> set (dropping s) \<and> live_ops s ''p'' = {''q''}"
    by (auto simp: Let_def inflight_defs live_ops_def)
  have "op \<in> cancelled (register_check op (Some pid) (drop_mark pid s))" by (simp add: inflight_defs)
  then have "op \<in> cancelled (snd (run_schedule is ts (register_check op (Some pid) (drop_mark pid s))))"
    using cancelled_schedule_mono by blast
  then show ?thesis using race by (auto simp: inflight_defs live_ops_def)
qed

text \<open>Timeouts and cancels are told apart by who pulled the trigger: the interrupt of a
  running statement is reported as a timeout exactly when the timer was the first event its
  watcher reacted to, with the timeout that was applied and the node's maximum; a caller's
  cancel or a dropped request that came first is reported as a cancel, and every other engine
  error keeps its own meaning. A cancel the watcher does not see (a dropped pond's) that is
  followed by the timer before the statement stops is reported as a timeout.\<close>

lemma timeout_iff_timer_first:
  "let d = fold deadline_step es (arm tok t c)
   in (expired d \<longleftrightarrow> timer_first (qc_cancel c) es)
    \<and> classify_error d E_Cancelled =
        (if timer_first (qc_cancel c) es then query_timeout (effective t (qc_timeout_ms c)) (max_ms t)
         else from_engine E_Cancelled)
    \<and> (e = E_Cancelled \<or> classify_error d e = from_engine e)
    \<and> timer_first b [OtherCancel, TimerFires]"
proof -
  let ?d = "fold deadline_step es (arm tok t c)"
  have x: "expired ?d \<longleftrightarrow> timer_first (qc_cancel c) es"
    using expired_iff [of "arm tok t c" es] by (simp add: arm_def)
  have "effective_ms (fold deadline_step xs d) = effective_ms d \<and> dl_max_ms (fold deadline_step xs d) = dl_max_ms d" for xs d
  proof (induction xs arbitrary: d)
    case (Cons e xs)
    then show ?case by (cases e) auto
  qed simp
  then have "effective_ms ?d = effective t (qc_timeout_ms c)" "dl_max_ms ?d = max_ms t"
    by (simp_all add: arm_def)
  then show ?thesis using x by (simp add: Let_def classify_error_def)
qed

end
