(* ===== verification/Json.thy ===== *)
theory Json
  imports Ordered_Map
begin

text \<open>
  The values of \<open>serde_json\<close>, which the node hands around as query cells and as lineage events.
  An object is serde's map, a \<open>BTreeMap\<close>, so its keys are in order; a number is kept as the
  decimal text it prints as. The text codec itself (\<open>serde_json::from_str\<close>, \<open>to_string\<close>) is a
  parameter wherever the sources use it.
\<close>

datatype Value =
    JNull
  | JBool bool
  | JNumber string
  | JString string
  | JArray "Value list"
  | JObject "(string \<times> Value) list"

text \<open>\<open>Value::get(key)\<close> and \<open>Value::as_str\<close>.\<close>

definition json_get :: "Value \<Rightarrow> string \<Rightarrow> Value option" where
  "json_get v k = (case v of JObject m \<Rightarrow> map_of m k | _ \<Rightarrow> None)"

definition as_str :: "Value \<Rightarrow> string option" where
  "as_str v = (case v of JString s \<Rightarrow> Some s | _ \<Rightarrow> None)"

text \<open>The object literal \<open>json!({k: v, ...})\<close>: keys inserted one by one, the last one wins.\<close>

definition json_object :: "(string \<times> Value) list \<Rightarrow> Value" where
  "json_object kvs = JObject (bt_extend [] kvs)"

definition json_opt :: "string option \<Rightarrow> Value" where
  "json_opt s = (case s of None \<Rightarrow> JNull | Some t \<Rightarrow> JString t)"

lemma json_get_simps [simp]:
  "json_get (JObject m) k = map_of m k" "json_get JNull k = None" "json_get (JString s) k = None"
  "json_get (JNumber n) k = None" "json_get (JBool b) k = None" "json_get (JArray vs) k = None"
  "as_str (JString s) = Some s"
  by (simp_all add: json_get_def as_str_def)

lemma json_get_object:
  "distinct (map fst kvs) \<Longrightarrow> json_get (json_object kvs) k = map_of kvs k"
  by (simp add: json_object_def bt_extend_def bt.lookup_fold_distinct split: option.split)

end
