(* ===== verification/Lineage_Reader.thy ===== *)
theory Lineage_Reader
  imports Json "HOL-Library.Multiset"
begin

text \<open>
  Reading a pond's lineage trail back (\<open>latiq-lineage/src/reader.rs\<close>): the newest batch files
  of a directory, streamed line by line through a bounded ring, into one page of events.

  The directory is what \<open>read_dir\<close> lists (an unreadable entry is \<open>None\<close>) with a function from
  names to what opening and reading the file gives. The JSON parser (\<open>serde_json::from_str\<close>)
  and the RFC 3339 parser (\<open>DateTime::parse_from_rfc3339\<close>, an instant as an integer) are the
  parameters \<open>pj\<close> and \<open>pt\<close>. Counts and byte lengths of what is in memory are natural numbers.
\<close>

section \<open>Model\<close>

definition MAX_LIMIT :: nat where "MAX_LIMIT = 500"
definition MAX_BYTES :: nat where "MAX_BYTES = 256 * 1024"
definition MAX_FILES :: nat where "MAX_FILES = 500"

record PageRequest =
  limit :: nat
  since :: "string option"
  before :: "string option"

record EventPage =
  page_events :: "Value list"
  truncated :: bool
  malformed_lines :: nat
  unreadable_files :: nat

datatype ReadError = BadTimestamp string string | ReadIo string

text \<open>What a batch file gives: gone when opened, not openable, or its lines and whether the
  reading ended with an error after them.\<close>

datatype batch_file = Vanished | Unopenable | Lines "string list" bool

definition event_time :: "Value \<Rightarrow> string option" where
  "event_time e = Option.bind (json_get e ''eventTime'') as_str"

definition parse_bound :: "(string \<Rightarrow> int option) \<Rightarrow> string \<Rightarrow> string option \<Rightarrow> (ReadError, int option) result" where
  "parse_bound pt field raw = (case raw of None \<Rightarrow> Ok None
     | Some s \<Rightarrow> (case pt s of Some t \<Rightarrow> Ok (Some t) | None \<Rightarrow> Err (BadTimestamp field s)))"

definition selected :: "(string \<Rightarrow> int option) \<Rightarrow> int option \<Rightarrow> int option \<Rightarrow> Value \<Rightarrow> bool" where
  "selected pt lo hi e =
     (if lo = None \<and> hi = None then True
      else case Option.bind (event_time e) pt of
        None \<Rightarrow> True
      | Some t \<Rightarrow> (case lo of None \<Rightarrow> True | Some s \<Rightarrow> s \<le> t) \<and> (case hi of None \<Rightarrow> True | Some b \<Rightarrow> t < b))"

subsection \<open>The listing\<close>

definition is_batch_name :: "string \<Rightarrow> bool" where
  "is_batch_name n \<longleftrightarrow> ends_with n ''.jsonl'' \<and> \<not> starts_with n ''.tmp-''"

text \<open>The heap of the greatest names seen, as the ascending list of its elements; a name over
  the limit pushes out the least.\<close>

fun newest_loop :: "string option list \<Rightarrow> string list \<Rightarrow> nat \<Rightarrow> string list \<times> nat" where
  "newest_loop [] heap skipped = (heap, skipped)"
| "newest_loop (None # es) heap skipped = newest_loop es heap skipped"
| "newest_loop (Some n # es) heap skipped =
     (if \<not> is_batch_name n then newest_loop es heap skipped
      else let heap' = insort n heap
        in if MAX_FILES < length heap' then newest_loop es (tl heap') (skipped + 1)
           else newest_loop es heap' skipped)"

definition newest_names :: "(string, string option list) result \<Rightarrow> (ReadError, string list \<times> nat) result" where
  "newest_names dir = (case dir of Inl e \<Rightarrow> Err (ReadIo e)
     | Inr es \<Rightarrow> (case newest_loop es [] 0 of (heap, skipped) \<Rightarrow> Ok (rev heap, skipped)))"

subsection \<open>One file\<close>

record Tail =
  ring :: "(Value \<times> nat) list"
  newest_dropped :: "string option option"

text \<open>The \<open>while\<close> loop after a push: pop the oldest while there are more than could make the
  page.\<close>

fun trim_ring :: "nat \<Rightarrow> (Value \<times> nat) list \<Rightarrow> nat \<Rightarrow> string option option
    \<Rightarrow> (Value \<times> nat) list \<times> nat \<times> string option option" where
  "trim_ring need [] b dropped = ([], b, dropped)"
| "trim_ring need ((e, l) # r) b dropped =
     (if need < length ((e, l) # r) \<or> (1 < length ((e, l) # r) \<and> MAX_BYTES < b)
      then trim_ring need r (b - l) (Some (event_time e))
      else ((e, l) # r, b, dropped))"

fun tail_loop :: "(string \<Rightarrow> Value option) \<Rightarrow> (string \<Rightarrow> int option) \<Rightarrow> nat \<Rightarrow> int option \<Rightarrow> int option
    \<Rightarrow> string list \<Rightarrow> (Value \<times> nat) list \<Rightarrow> nat \<Rightarrow> string option option \<Rightarrow> nat
    \<Rightarrow> (Value \<times> nat) list \<times> string option option \<times> nat" where
  "tail_loop pj pt need lo hi [] r b dropped bad = (r, dropped, bad)"
| "tail_loop pj pt need lo hi (raw # ls) r b dropped bad =
     (let line = trim raw
      in if line = [] then tail_loop pj pt need lo hi ls r b dropped bad
      else case pj line of
        None \<Rightarrow> tail_loop pj pt need lo hi ls r b dropped (bad + 1)
      | Some e \<Rightarrow>
          if \<not> selected pt lo hi e then tail_loop pj pt need lo hi ls r b dropped bad
          else case trim_ring need (r @ [(e, length line)]) (b + length line) dropped of
            (r', b', dropped') \<Rightarrow> tail_loop pj pt need lo hi ls r' b' dropped' bad)"

definition read_tail :: "(string \<Rightarrow> Value option) \<Rightarrow> (string \<Rightarrow> int option) \<Rightarrow> nat \<Rightarrow> int option \<Rightarrow> int option
    \<Rightarrow> batch_file \<Rightarrow> EventPage \<Rightarrow> Tail option \<times> EventPage" where
  "read_tail pj pt need lo hi f page = (case f of
      Vanished \<Rightarrow> (None, page)
    | Unopenable \<Rightarrow> (None, page\<lparr>unreadable_files := unreadable_files page + 1\<rparr>)
    | Lines ls torn \<Rightarrow>
        (case tail_loop pj pt need lo hi ls [] 0 None 0 of
          (r, dropped, bad) \<Rightarrow>
            (Some \<lparr>ring = r, newest_dropped = dropped\<rparr>,
             page\<lparr>malformed_lines := malformed_lines page + bad,
                  unreadable_files := unreadable_files page + (if torn then 1 else 0)\<rparr>)))"

subsection \<open>One page\<close>

fun take_ring :: "nat \<Rightarrow> (Value \<times> nat) list \<Rightarrow> Value list \<Rightarrow> nat \<Rightarrow> Value list \<times> nat \<times> string option option" where
  "take_ring lim [] evs b = (evs, b, None)"
| "take_ring lim ((e, l) # r) evs b =
     (if lim \<le> length evs \<or> (evs \<noteq> [] \<and> MAX_BYTES < b + l) then (evs, b, Some (event_time e))
      else take_ring lim r (evs @ [e]) (b + l))"

fun read_files :: "(string \<Rightarrow> Value option) \<Rightarrow> (string \<Rightarrow> int option) \<Rightarrow> (string \<Rightarrow> batch_file) \<Rightarrow> nat \<Rightarrow> int option \<Rightarrow> int option
    \<Rightarrow> string list \<Rightarrow> EventPage \<Rightarrow> nat \<Rightarrow> EventPage \<times> string option option" where
  "read_files pj pt fs lim lo hi [] page b = (page, None)"
| "read_files pj pt fs lim lo hi (n # ns) page b =
     (case read_tail pj pt (lim - length (page_events page) + 1) lo hi (fs n) page of
        (None, page') \<Rightarrow> read_files pj pt fs lim lo hi ns page' b
      | (Some tail, page') \<Rightarrow>
          (case take_ring lim (rev (ring tail)) (page_events page') b of
             (evs, b', Some ex) \<Rightarrow> (page'\<lparr>page_events := evs, truncated := True\<rparr>, Some ex)
           | (evs, b', None) \<Rightarrow>
               (case newest_dropped tail of
                  Some d \<Rightarrow> (page'\<lparr>page_events := evs, truncated := True\<rparr>, Some d)
                | None \<Rightarrow> read_files pj pt fs lim lo hi ns (page'\<lparr>page_events := evs\<rparr>) b')))"

definition cut_on_a_timestamp_boundary :: "Value list \<Rightarrow> string option \<Rightarrow> Value list" where
  "cut_on_a_timestamp_boundary evs boundary = (case boundary of
      None \<Rightarrow> evs
    | Some t \<Rightarrow> (let keep = length (takeWhile (\<lambda>e. event_time e \<noteq> Some t) evs)
        in if 0 < keep then take keep evs else evs))"

definition clamp :: "nat \<Rightarrow> nat \<Rightarrow> nat \<Rightarrow> nat" where
  "clamp lo hi x = max lo (min hi x)"

definition read_newest :: "(string \<Rightarrow> Value option) \<Rightarrow> (string \<Rightarrow> int option)
    \<Rightarrow> (string, string option list) result \<Rightarrow> (string \<Rightarrow> batch_file) \<Rightarrow> PageRequest \<Rightarrow> (ReadError, EventPage) result" where
  "read_newest pj pt dir fs req =
     (case parse_bound pt ''since'' (since req) of Inl e \<Rightarrow> Err e | Inr lo \<Rightarrow>
      (case parse_bound pt ''before'' (before req) of Inl e \<Rightarrow> Err e | Inr hi \<Rightarrow>
       (case newest_names dir of Inl e \<Rightarrow> Err e | Inr (names, skipped) \<Rightarrow>
         (let page = \<lparr>page_events = [], truncated = (0 < skipped), malformed_lines = 0, unreadable_files = 0\<rparr>
          in case read_files pj pt fs (clamp 1 MAX_LIMIT (limit req)) lo hi names page 0 of
               (page', None) \<Rightarrow> Ok page'
             | (page', Some boundary) \<Rightarrow>
                 Ok (page'\<lparr>page_events := cut_on_a_timestamp_boundary (page_events page') boundary\<rparr>)))))"

section \<open>The ring keeps what the page can use\<close>

text \<open>The events of a file that match the request, in file order, with their byte lengths.\<close>

fun file_matches :: "(string \<Rightarrow> Value option) \<Rightarrow> (string \<Rightarrow> int option) \<Rightarrow> int option \<Rightarrow> int option \<Rightarrow> string list \<Rightarrow> (Value \<times> nat) list" where
  "file_matches pj pt lo hi [] = []"
| "file_matches pj pt lo hi (raw # ls) =
     (case (if trim raw = [] then None else pj (trim raw)) of
        None \<Rightarrow> file_matches pj pt lo hi ls
      | Some e \<Rightarrow> (if selected pt lo hi e then [(e, length (trim raw))] else []) @ file_matches pj pt lo hi ls)"

abbreviation bytes_of :: "(Value \<times> nat) list \<Rightarrow> nat" where
  "bytes_of r \<equiv> sum_list (map snd r)"

definition ring_ok :: "nat \<Rightarrow> (Value \<times> nat) list \<Rightarrow> bool" where
  "ring_ok need r \<longleftrightarrow> length r \<le> need \<and> (length r \<le> 1 \<or> bytes_of r \<le> MAX_BYTES)"

text \<open>What was dropped: nothing, or a list whose newest element no longer fits the ring.\<close>

definition dropped_of :: "(Value \<times> nat) list \<Rightarrow> string option option" where
  "dropped_of d = (if d = [] then None else Some (event_time (fst (last d))))"

lemma ring_ok_snoc: "ring_ok need (x # r @ [y]) \<Longrightarrow> ring_ok need (x # r)"
  by (auto simp: ring_ok_def)

lemma trim_ring_split:
  assumes "trim_ring need r (bytes_of r) (dropped_of d) = (r', b', dr)" and "0 < need"
  shows "\<exists>p. r = p @ r' \<and> b' = bytes_of r' \<and> ring_ok need r' \<and> dr = dropped_of (d @ p)
    \<and> (p \<noteq> [] \<longrightarrow> \<not> ring_ok need (last p # r'))"
  using assms
proof (induction r arbitrary: d)
  case Nil
  then show ?case by (auto simp: ring_ok_def)
next
  case (Cons x r)
  obtain e l where x: "x = (e, l)" by (cases x)
  show ?case
  proof (cases "ring_ok need (x # r)")
    case True
    then show ?thesis using Cons.prems by (auto simp: x ring_ok_def intro!: exI [of _ "[]"])
  next
    case False
    then have "trim_ring need r (bytes_of r) (dropped_of (d @ [x])) = (r', b', dr)"
      using Cons.prems by (auto simp: x ring_ok_def dropped_of_def not_le split: if_splits)
    from Cons.IH [OF this Cons.prems(2)] obtain p where p: "r = p @ r'" "b' = bytes_of r'" "ring_ok need r'"
      "dr = dropped_of (d @ x # p)" "p \<noteq> [] \<longrightarrow> \<not> ring_ok need (last p # r')" by auto
    then show ?thesis using False by (intro exI [of _ "x # p"]) auto
  qed
qed

lemma tail_loop_split:
  assumes "tail_loop pj pt need lo hi ls r (bytes_of r) (dropped_of d) bad = (r', dr, bad')" and "0 < need"
    and "ring_ok need r" and "d \<noteq> [] \<longrightarrow> \<not> ring_ok need (last d # r)"
  shows "\<exists>d'. d @ r @ file_matches pj pt lo hi ls = d' @ r' \<and> dr = dropped_of d' \<and> ring_ok need r'
    \<and> (d' \<noteq> [] \<longrightarrow> \<not> ring_ok need (last d' # r'))"
  using assms
proof (induction ls arbitrary: r d bad)
  case Nil
  then show ?case by auto
next
  case (Cons raw ls)
  let ?line = "trim raw"
  consider (skip) "?line = [] \<or> pj ?line = None \<or> (\<exists>e. pj ?line = Some e \<and> \<not> selected pt lo hi e)"
    | (push) e where "?line \<noteq> []" "pj ?line = Some e" "selected pt lo hi e"
    by (cases "pj ?line") auto
  then show ?case
  proof cases
    case skip
    then obtain bad2 where "tail_loop pj pt need lo hi ls r (bytes_of r) (dropped_of d) bad2 = (r', dr, bad')"
      using Cons.prems(1) by (auto simp: Let_def split: if_splits option.splits)
    from Cons.IH [OF this Cons.prems(2-4)] show ?thesis using skip by auto
  next
    case push
    let ?x = "(e, length ?line)"
    obtain q b2 dr2 where tr: "trim_ring need (r @ [?x]) (bytes_of (r @ [?x])) (dropped_of d) = (q, b2, dr2)"
      by (metis prod_cases3)
    from trim_ring_split [OF this Cons.prems(2)] obtain p where p: "r @ [?x] = p @ q" "b2 = bytes_of q"
      "ring_ok need q" "dr2 = dropped_of (d @ p)" "p \<noteq> [] \<longrightarrow> \<not> ring_ok need (last p # q)" by blast
    have "tail_loop pj pt need lo hi ls q (bytes_of q) (dropped_of (d @ p)) bad = (r', dr, bad')"
      using Cons.prems(1) push tr unfolding p(2) p(4) by (simp add: Let_def)
    moreover have "d @ p \<noteq> [] \<longrightarrow> \<not> ring_ok need (last (d @ p) # q)"
      using p Cons.prems(4) ring_ok_snoc [of need "last d" r ?x] by (cases "p = []") auto
    ultimately obtain d' where "(d @ p) @ q @ file_matches pj pt lo hi ls = d' @ r'" "dr = dropped_of d'"
      "ring_ok need r'" "d' \<noteq> [] \<longrightarrow> \<not> ring_ok need (last d' # r')"
      using Cons.IH [OF _ Cons.prems(2) p(3)] by blast
    moreover have "r @ file_matches pj pt lo hi (raw # ls) = p @ q @ file_matches pj pt lo hi ls"
      using push arg_cong [OF p(1), of "\<lambda>xs. xs @ file_matches pj pt lo hi ls"] by simp
    ultimately show ?thesis by (intro exI [of _ d']) simp
  qed
qed

section \<open>The page is a prefix of the trail\<close>

text \<open>The reference: the trail newest first, cut at the first event that does not fit.\<close>

fun page_prefix :: "nat \<Rightarrow> nat \<Rightarrow> nat \<Rightarrow> (Value \<times> nat) list \<Rightarrow> Value list \<times> string option option" where
  "page_prefix lim n b [] = ([], None)"
| "page_prefix lim n b ((e, l) # cs) =
     (if lim \<le> n \<or> (0 < n \<and> MAX_BYTES < b + l) then ([], Some (event_time e))
      else case page_prefix lim (Suc n) (b + l) cs of (es, ex) \<Rightarrow> (e # es, ex))"

lemma take_ring_prefix:
  "take_ring lim r evs b =
     (case page_prefix lim (length evs) b r of (es, ex) \<Rightarrow>
        (evs @ es, b + bytes_of (take (length es) r), ex))"
  by (induction r arbitrary: evs b) (auto split: prod.split)

lemma page_prefix_append:
  "page_prefix lim n b (xs @ ys) =
     (case page_prefix lim n b xs of
        (es, Some ex) \<Rightarrow> (es, Some ex)
      | (es, None) \<Rightarrow> (case page_prefix lim (n + length xs) (b + bytes_of xs) ys of (es', ex) \<Rightarrow> (es @ es', ex)))"
proof (induction xs arbitrary: n b)
  case (Cons x xs)
  obtain e l where x: "x = (e, l)" by (cases x)
  show ?case
  proof (cases "lim \<le> n \<or> (0 < n \<and> MAX_BYTES < b + l)")
    case False
    then show ?thesis using Cons.IH [of "Suc n" "b + l"]
      by (auto simp: x add.assoc split: prod.split option.split)
  qed (auto simp: x)
qed simp

lemma page_prefix_take:
  "page_prefix lim n b xs = (es, ex) \<Longrightarrow> es = map fst (take (length es) xs) \<and> (xs \<noteq> [] \<and> n \<le> lim \<longrightarrow> n + length es \<le> lim)
    \<and> (ex = None \<longrightarrow> length es = length xs) \<and> (ex \<noteq> None \<longrightarrow> length es < length xs \<and> ex = Some (event_time (fst (xs ! length es))))"
proof (induction xs arbitrary: n b es)
  case (Cons x xs)
  obtain e l where x: "x = (e, l)" by (cases x)
  show ?case
  proof (cases "lim \<le> n \<or> (0 < n \<and> MAX_BYTES < b + l)")
    case True
    then show ?thesis using Cons.prems by (auto simp: x)
  next
    case False
    then obtain es' where es: "es = e # es'" "page_prefix lim (Suc n) (b + l) xs = (es', ex)"
      using Cons.prems by (auto simp: x split: prod.splits)
    then show ?thesis using Cons.IH [OF es(2)] False by (cases "xs = []") (auto simp: x)
  qed
qed simp

definition newest_first :: "(string \<Rightarrow> Value option) \<Rightarrow> (string \<Rightarrow> int option) \<Rightarrow> int option \<Rightarrow> int option \<Rightarrow> batch_file \<Rightarrow> (Value \<times> nat) list" where
  "newest_first pj pt lo hi f = (case f of Lines ls torn \<Rightarrow> rev (file_matches pj pt lo hi ls) | _ \<Rightarrow> [])"

lemma ring_suffices:
  assumes "tail_loop pj pt (lim - n + 1) lo hi ls [] 0 None 0 = (r, dr, bad)" and "n \<le> lim"
  shows "page_prefix lim n b (rev (file_matches pj pt lo hi ls)) =
    (case page_prefix lim n b (rev r) of (es, Some ex) \<Rightarrow> (es, Some ex) | (es, None) \<Rightarrow> (es, dr))
    \<and> (dr = None \<longrightarrow> r = file_matches pj pt lo hi ls)"
proof -
  have "tail_loop pj pt (lim - n + 1) lo hi ls [] (bytes_of []) (dropped_of []) 0 = (r, dr, bad)"
    using assms(1) by (simp add: dropped_of_def)
  from tail_loop_split [OF this] obtain d where d: "file_matches pj pt lo hi ls = d @ r" "dr = dropped_of d"
    "ring_ok (lim - n + 1) r" "d \<noteq> [] \<longrightarrow> \<not> ring_ok (lim - n + 1) (last d # r)"
    by (auto simp: ring_ok_def)
  show ?thesis
  proof (cases d rule: rev_cases)
    case Nil
    then show ?thesis using d by (auto simp: dropped_of_def split: prod.split option.split)
  next
    case (snoc d' x)
    obtain e l where x: "x = (e, l)" by (cases x)
    obtain es ex where pp: "page_prefix lim n b (rev r) = (es, ex)" by (cases "page_prefix lim n b (rev r)")
    note t = page_prefix_take [OF pp]
    have "lim \<le> n + length r \<or> (0 < n + length r \<and> MAX_BYTES < b + bytes_of r + l)" if "ex = None"
      using d(4) snoc x t that assms(2) by (cases "r = []") (auto simp: ring_ok_def not_le)
    then show ?thesis using d snoc x pp
      by (auto simp: page_prefix_append dropped_of_def rev_map [symmetric] split: option.split)
  qed
qed

lemma read_files_prefix:
  assumes "length (page_events page) \<le> lim"
    and "read_files pj pt fs lim lo hi ns page b = (page', ex)"
    and "page_prefix lim (length (page_events page)) b (concat (map (newest_first pj pt lo hi \<circ> fs) ns)) = (es, ex')"
  shows "page_events page' = page_events page @ es \<and> ex = ex' \<and> (truncated page' \<longleftrightarrow> truncated page \<or> ex \<noteq> None)"
  using assms
proof (induction ns arbitrary: page b es)
  case Nil
  then show ?case by auto
next
  case (Cons n ns)
  show ?case
  proof (cases "fs n")
    case (Lines ls torn)
    obtain r dr bad where tl: "tail_loop pj pt (lim - length (page_events page) + 1) lo hi ls [] 0 None 0 = (r, dr, bad)"
      by (metis prod_cases3)
    define page1 where "page1 = page\<lparr>malformed_lines := malformed_lines page + bad,
                  unreadable_files := unreadable_files page + (if torn then 1 else 0)\<rparr>"
    have p1: "page_events page1 = page_events page" "truncated page1 = truncated page" by (simp_all add: page1_def)
    obtain es1 ex1 where pp: "page_prefix lim (length (page_events page)) b (rev r) = (es1, ex1)" by fastforce
    note t = page_prefix_take [OF pp]
    note suff = ring_suffices [OF tl Cons.prems(1), of b]
    have all: "concat (map (newest_first pj pt lo hi \<circ> fs) (n # ns)) =
        rev (file_matches pj pt lo hi ls) @ concat (map (newest_first pj pt lo hi \<circ> fs) ns)"
      by (simp add: Lines newest_first_def)
    show ?thesis
    proof (cases "ex1 = None \<and> dr = None")
      case False
      define x where "x = (if ex1 = None then dr else ex1)"
      have x: "x \<noteq> None" using False by (cases ex1) (auto simp: x_def)
      have "read_files pj pt fs lim lo hi (n # ns) page b =
          (page1\<lparr>page_events := page_events page @ es1, truncated := True\<rparr>, x)"
        using x unfolding x_def using tl pp by (auto simp: Lines read_tail_def take_ring_prefix page1_def split: option.split)
      moreover have "page_prefix lim (length (page_events page)) b (concat (map (newest_first pj pt lo hi \<circ> fs) (n # ns)))
          = (es1, x)"
        unfolding all page_prefix_append using suff pp x by (auto simp: x_def split: option.splits)
      ultimately show ?thesis using Cons.prems(2,3) x by (simp only: prod.inject) (auto simp: p1)
    next
      case True
      then have r: "r = file_matches pj pt lo hi ls" "es1 = map fst (rev r)" using suff t by auto
      let ?b = "b + bytes_of (rev r)" and ?page = "page1\<lparr>page_events := page_events page @ es1\<rparr>"
      have "read_files pj pt fs lim lo hi ns ?page ?b = (page', ex)"
        using Cons.prems(2) tl pp True r by (simp add: Lines read_tail_def take_ring_prefix page1_def)
      moreover obtain es2 where es2: "page_prefix lim (length (page_events ?page)) ?b
          (concat (map (newest_first pj pt lo hi \<circ> fs) ns)) = (es2, ex')" "es = es1 @ es2"
        using Cons.prems(3) pp True r unfolding all page_prefix_append by (auto split: prod.splits)
      moreover have "length (page_events ?page) \<le> lim" using t Cons.prems(1) by (cases "rev r = []") auto
      ultimately show ?thesis using Cons.IH [of ?page ?b es2] by (simp add: p1 comp_def)
    qed
  next
    case Vanished
    then show ?thesis using Cons.IH [of page b es] Cons.prems by (simp add: read_tail_def newest_first_def)
  next
    case Unopenable
    then show ?thesis using Cons.IH [of "page\<lparr>unreadable_files := unreadable_files page + 1\<rparr>" b es] Cons.prems
      by (simp add: read_tail_def newest_first_def)
  qed
qed

section \<open>The listing is the newest names\<close>

fun batch_names :: "string option list \<Rightarrow> string list" where
  "batch_names [] = []"
| "batch_names (None # es) = batch_names es"
| "batch_names (Some n # es) = (if is_batch_name n then n # batch_names es else batch_names es)"

lemma drop_insort:
  assumes "sorted ys" and "k \<le> length (filter (\<lambda>y. x \<le> y) ys)"
  shows "drop (Suc (length ys) - k) (insort x ys) = drop (length ys - k) ys"
  using assms
proof (induction ys)
  case (Cons y ys)
  have len: "k \<le> length (y # ys)" using Cons.prems(2) length_filter_le order_trans by blast
  show ?case
  proof (cases "x \<le> y")
    case True
    then show ?thesis using len by (simp add: Suc_diff_le)
  next
    case False
    then have k: "k \<le> length (filter ((\<le>) x) ys)" using Cons.prems(2) by simp
    then have "k \<le> length ys" using length_filter_le order_trans by blast
    then show ?thesis using Cons.IH [OF _ k] Cons.prems(1) False by (simp add: Suc_diff_le)
  qed
qed simp

lemma newest_loop_eq:
  assumes "sorted heap" and "length heap \<le> MAX_FILES"
  shows "newest_loop es heap k =
    (let all = sort (heap @ batch_names es)
     in (drop (length all - MAX_FILES) all, k + (length all - MAX_FILES)))"
  using assms
proof (induction es heap k rule: newest_loop.induct)
  case (1 heap k)
  then show ?case by (simp add: sort_key_id_if_sorted)
next
  case (3 n es heap k)
  show ?case
  proof (cases "is_batch_name n")
    case False
    then show ?thesis using 3 by (simp add: Let_def)
  next
    case True
    then have nn: "\<not> \<not> is_batch_name n" by simp
    define h where "h = insort n heap"
    have h: "sorted h" "length h = Suc (length heap)" using 3(4) by (simp_all add: h_def sorted_insort)
    have all: "sort (heap @ n # batch_names es) = sort (h @ batch_names es)"
      by (rule properties_for_sort) (simp_all add: h_def)
    show ?thesis
    proof (cases "MAX_FILES < length h")
      case False
      then show ?thesis using 3(3) [OF nn h_def] h True all by (simp add: Let_def h_def)
    next
      case len: True
      then obtain x xs where x: "h = x # xs" by (cases h) auto
      let ?ys = "sort (xs @ batch_names es)"
      have xs: "length xs = MAX_FILES" "\<forall>y \<in> set xs. x \<le> y" using len h 3(5) x by auto
      have "filter ((\<le>) x) xs = xs" using xs(2) by (simp add: filter_id_conv)
      then have "MAX_FILES \<le> length (filter ((\<le>) x) (xs @ batch_names es))" using xs(1) by simp
      also have "\<dots> = length (filter ((\<le>) x) ?ys)" by (simp add: filter_sort)
      finally have "drop (Suc (length ?ys) - MAX_FILES) (insort x ?ys) = drop (length ?ys - MAX_FILES) ?ys"
        by (intro drop_insort) simp_all
      moreover have "sort (h @ batch_names es) = insort x ?ys"
        unfolding x by (rule properties_for_sort) (simp_all add: sorted_insort)
      moreover have "newest_loop es xs (k + 1) = (let all = ?ys in (drop (length all - MAX_FILES) all, k + 1 + (length all - MAX_FILES)))"
        using 3(2) [OF nn h_def len] h xs(1) x by simp
      ultimately show ?thesis using True len xs(1) all x
        by (simp add: Let_def flip: h_def)
    qed
  qed
qed simp_all

lemma newest_names_eq:
  "newest_names (Ok es) =
    Ok (take MAX_FILES (rev (sort (batch_names es))), length (batch_names es) - MAX_FILES)"
  by (cases "length (batch_names es) \<le> MAX_FILES")
     (simp_all add: newest_names_def newest_loop_eq rev_drop Let_def)

end
