(* ===== verification/Lineage_Writer.thy ===== *)
theory Lineage_Writer
  imports Lineage_Reader Errors
begin

text \<open>
  Recording lineage (\<open>latiq-lineage/src/writer.rs\<close> and \<open>sink.rs\<close>): one pond's buffer of
  serialized events, the batch files it writes with a temporary file and a rename, and the
  bounded queue of the optional HTTP mirror. A write happens with the lock released, so taking
  a batch and finishing it are two steps that other calls may come between. The clock, the
  random ids and the outcome of each file operation are parameters of a step; an event is
  serialized by a parameter, as in \<open>serde_json::to_string\<close>.
\<close>

section \<open>The buffer and its files\<close>

definition DEFAULT_BATCH_SIZE :: nat where "DEFAULT_BATCH_SIZE = 64"
definition DEFAULT_CAPACITY :: nat where "DEFAULT_CAPACITY = 10000"

record Buffer =
  buf_events :: "string list"
  overflowing :: bool

record LineageWriter =
  dir :: "string option"
  lw_batch_size :: nat
  lw_capacity :: nat
  buffer :: Buffer
  poisoned :: bool
  failing :: bool
  has_sink :: bool

definition with_limits :: "string \<Rightarrow> nat \<Rightarrow> nat \<Rightarrow> LineageWriter" where
  "with_limits d bs cap =
     \<lparr>dir = (if d = [] \<or> \<not> starts_with d ''/'' then None else Some d), lw_batch_size = max 1 bs, lw_capacity = max 1 cap,
      buffer = \<lparr>buf_events = [], overflowing = False\<rparr>, poisoned = False, failing = False, has_sink = False\<rparr>"

definition writer_new :: "string \<Rightarrow> LineageWriter" where
  "writer_new d = with_limits d DEFAULT_BATCH_SIZE DEFAULT_CAPACITY"

definition with_sink :: "LineageWriter \<Rightarrow> LineageWriter" where
  "with_sink w = w\<lparr>has_sink := True\<rparr>"

definition is_enabled :: "LineageWriter \<Rightarrow> bool" where
  "is_enabled w \<longleftrightarrow> dir w \<noteq> None"

definition enforce_capacity :: "LineageWriter \<Rightarrow> Buffer \<Rightarrow> Buffer" where
  "enforce_capacity w b =
     (if lw_capacity w < length (buf_events b)
      then \<lparr>buf_events = drop (length (buf_events b) - lw_capacity w) (buf_events b), overflowing = True\<rparr>
      else if length (buf_events b) < lw_capacity w then b\<lparr>overflowing := False\<rparr>
      else b)"

text \<open>\<open>buffer_all\<close> returns whether a batch is due, the writer, and the lines handed to the sink.\<close>

definition buffer_all :: "('e \<Rightarrow> string option) \<Rightarrow> 'e list \<Rightarrow> LineageWriter \<Rightarrow> bool \<times> LineageWriter \<times> string list" where
  "buffer_all ser evs w =
     (if evs = [] \<or> (dir w = None \<and> \<not> has_sink w) then (False, w, [])
      else let lines = List.map_filter ser evs; submitted = (if has_sink w then lines else [])
        in if dir w = None \<or> poisoned w then (False, w, submitted)
           else let b = enforce_capacity w ((buffer w)\<lparr>buf_events := buf_events (buffer w) @ lines\<rparr>)
             in (lw_batch_size w \<le> length (buf_events b), w\<lparr>buffer := b\<rparr>, submitted))"

text \<open>The locked half of \<open>flush\<close>: take everything, if there is anything.\<close>

definition take_batch :: "LineageWriter \<Rightarrow> string list option \<times> LineageWriter" where
  "take_batch w =
     (if poisoned w \<or> buf_events (buffer w) = [] then (None, w)
      else (Some (buf_events (buffer w)), w\<lparr>buffer := \<lparr>buf_events = [], overflowing = False\<rparr>\<rparr>))"

text \<open>\<open>{millis:013}\<close>: at least thirteen digits.\<close>

definition pad13 :: "nat \<Rightarrow> string" where
  "pad13 n = replicate (13 - length (show_nat n)) CHR ''0'' @ show_nat n"

definition batch_name :: "nat \<Rightarrow> string \<Rightarrow> string" where
  "batch_name millis uuid = pad13 millis @ ''-'' @ uuid @ ''.jsonl''"

definition batch_body :: "string list \<Rightarrow> string" where
  "batch_body batch = join [newline] batch @ [newline]"

type_synonym batch_files = "(string \<times> string) list"

text \<open>How the two file operations of a batch write end: the temporary file written and synced,
  then renamed. A failure of either leaves no file behind.\<close>

datatype write_io = WriteFails | RenameFails | Written

definition write_batch :: "write_io \<Rightarrow> nat \<Rightarrow> string \<Rightarrow> string list \<Rightarrow> LineageWriter \<Rightarrow> batch_files
    \<Rightarrow> (string list, unit) result \<times> LineageWriter \<times> batch_files" where
  "write_batch io millis uuid batch w fs =
     (if dir w = None then (Ok (), w, fs)
      else case io of
        Written \<Rightarrow> (Ok (), w, (batch_name millis uuid, batch_body batch) # fs)
      | _ \<Rightarrow> (Err batch, w\<lparr>failing := True\<rparr>, fs))"

definition write_or_requeue :: "write_io \<Rightarrow> nat \<Rightarrow> string \<Rightarrow> string list \<Rightarrow> LineageWriter \<Rightarrow> batch_files \<Rightarrow> LineageWriter \<times> batch_files" where
  "write_or_requeue io millis uuid batch w fs =
     (case write_batch io millis uuid batch w fs of
        (Inr _, w', fs') \<Rightarrow> (w'\<lparr>failing := False\<rparr>, fs')
      | (Inl back, w', fs') \<Rightarrow>
          if poisoned w' then (w', fs')
          else (w'\<lparr>buffer := enforce_capacity w' ((buffer w')\<lparr>buf_events := back @ buf_events (buffer w')\<rparr>)\<rparr>, fs'))"

text \<open>\<open>flush\<close> and \<open>record_all\<close> as whole calls, with nothing in between.\<close>

definition flush :: "write_io \<Rightarrow> nat \<Rightarrow> string \<Rightarrow> LineageWriter \<times> batch_files \<Rightarrow> LineageWriter \<times> batch_files" where
  "flush io millis uuid st =
     (case take_batch (fst st) of (None, w) \<Rightarrow> (w, snd st)
      | (Some batch, w) \<Rightarrow> write_or_requeue io millis uuid batch w (snd st))"

definition record_all :: "write_io \<Rightarrow> nat \<Rightarrow> string \<Rightarrow> ('e \<Rightarrow> string option) \<Rightarrow> 'e list \<Rightarrow> LineageWriter \<times> batch_files
    \<Rightarrow> (LineageWriter \<times> batch_files) \<times> string list" where
  "record_all io millis uuid ser evs st =
     (case buffer_all ser evs (fst st) of (due, w, sent) \<Rightarrow>
        ((if due then flush io millis uuid (w, snd st) else (w, snd st)), sent))"

section \<open>The mirror's queue\<close>

definition QUEUE_CAPACITY :: nat where "QUEUE_CAPACITY = 1024"

record Shared =
  queue :: "string list"
  enqueued :: "64 word"
  posted :: "64 word"
  dropped :: "64 word"
  sh_overflowing :: bool
  sh_poisoned :: bool

definition shared_default :: Shared where
  "shared_default = \<lparr>queue = [], enqueued = 0, posted = 0, dropped = 0, sh_overflowing = False, sh_poisoned = False\<rparr>"

definition sink_push :: "string \<Rightarrow> Shared \<Rightarrow> Shared" where
  "sink_push ev s =
     (if sh_poisoned s then s
      else let q = queue s @ [ev]; s' = s\<lparr>queue := q, enqueued := enqueued s + 1\<rparr>
        in if QUEUE_CAPACITY < length q
           then s'\<lparr>queue := drop (length q - QUEUE_CAPACITY) q,
                   dropped := dropped s + of_nat (length q - QUEUE_CAPACITY), sh_overflowing := True\<rparr>
           else if length q < QUEUE_CAPACITY then s'\<lparr>sh_overflowing := False\<rparr>
           else s')"

definition sink_pop :: "Shared \<Rightarrow> string option \<times> Shared" where
  "sink_pop s = (if sh_poisoned s then (None, s)
     else case queue s of [] \<Rightarrow> (None, s) | ev # q \<Rightarrow> (Some ev, s\<lparr>queue := q\<rparr>))"

definition sink_posted :: "Shared \<Rightarrow> Shared" where
  "sink_posted s = s\<lparr>posted := posted s + 1\<rparr>"

definition settled :: "Shared \<Rightarrow> 64 word" where
  "settled s = posted s + dropped s"

section \<open>Interleaved calls\<close>

text \<open>A run of the writer: its state and the batches taken and not finished. The last two fields are
  history, kept by the model only: every line ever handed to the writer, and every line it gave up --
  the oldest over the capacity (the code warns and does not count them), and, once a panic has
  poisoned the lock, what can no longer be buffered or put back.\<close>

record writer_run =
  wr_writer :: LineageWriter
  wr_files :: batch_files
  wr_taken :: "string list list"
  wr_recorded :: "string multiset"
  wr_lost :: "string multiset"

definition lost_by :: "LineageWriter \<Rightarrow> string list \<Rightarrow> string multiset" where
  "lost_by w evs = mset (take (length evs - lw_capacity w) evs)"

definition lost_buffering :: "LineageWriter \<Rightarrow> string list \<Rightarrow> string multiset" where
  "lost_buffering w ls = (if poisoned w then mset ls else lost_by w (buf_events (buffer w) @ ls))"

definition lost_finishing :: "write_io \<Rightarrow> LineageWriter \<Rightarrow> string list \<Rightarrow> string multiset" where
  "lost_finishing io w batch = (if io = Written then {#} else if poisoned w then mset batch
     else lost_by w (batch @ buf_events (buffer w)))"

inductive writer_step :: "writer_run \<Rightarrow> writer_run \<Rightarrow> bool" where
  buffer_step: "buffer_all (ser :: Value \<Rightarrow> string option) evs (wr_writer s) = (due, w, sent) \<Longrightarrow> dir (wr_writer s) \<noteq> None \<Longrightarrow>
     writer_step s (s\<lparr>wr_writer := w, wr_recorded := wr_recorded s + mset (List.map_filter ser evs),
       wr_lost := wr_lost s + lost_buffering (wr_writer s) (List.map_filter ser evs)\<rparr>)"
| take_step: "take_batch (wr_writer s) = (Some batch, w) \<Longrightarrow>
     writer_step s (s\<lparr>wr_writer := w, wr_taken := batch # wr_taken s\<rparr>)"
| finish_step: "wr_taken s = earlier @ batch # later \<Longrightarrow> dir (wr_writer s) \<noteq> None \<Longrightarrow>
     write_or_requeue io millis uuid batch (wr_writer s) (wr_files s) = (w, fs) \<Longrightarrow>
     writer_step s (s\<lparr>wr_writer := w, wr_files := fs, wr_taken := earlier @ later,
       wr_lost := wr_lost s + lost_finishing io (wr_writer s) batch\<rparr>)"
| poison_step: "writer_step s (s\<lparr>wr_writer := (wr_writer s)\<lparr>poisoned := True\<rparr>\<rparr>)"

definition writer_start :: "string \<Rightarrow> nat \<Rightarrow> nat \<Rightarrow> writer_run" where
  "writer_start d bs cap = \<lparr>wr_writer = with_limits d bs cap, wr_files = [], wr_taken = [], wr_recorded = {#}, wr_lost = {#}\<rparr>"

text \<open>The lines a file holds: \<open>BufRead::lines\<close> splits at newlines and drops the empty rest.\<close>

definition lines_of :: "string \<Rightarrow> string list" where
  "lines_of body = (let ls = split_on (\<lambda>c. c = newline) body in if last ls = [] then butlast ls else ls)"

section \<open>Nothing is lost but by the bound\<close>

definition plain_line :: "string \<Rightarrow> bool" where
  "plain_line l \<longleftrightarrow> newline \<notin> set l"

definition file_lines :: "batch_files \<Rightarrow> string list" where
  "file_lines fs = concat (map (lines_of \<circ> snd) fs)"

lemma split_on_snoc_sep:
  "p d \<Longrightarrow> split_on p (s @ [d]) = split_on p s @ [[]]"
  by (induction s) (auto split: list.splits)

lemma lines_of_body:
  assumes "batch \<noteq> []" and "\<forall>l \<in> set batch. plain_line l"
  shows "lines_of (batch_body batch) = batch"
proof -
  have "\<forall>x \<in> set batch. \<forall>c \<in> set x. \<not> c = newline" using assms(2) by (auto simp: plain_line_def)
  then have "split_on (\<lambda>c. c = newline) (join [newline] batch) = batch"
    by (intro split_on_join [OF assms(1)]) simp_all
  then show ?thesis by (simp add: lines_of_def batch_body_def split_on_snoc_sep)
qed

lemma enforce_capacity_simps:
  "lw_capacity w = cap \<Longrightarrow> length (buf_events (enforce_capacity w b)) \<le> cap"
  "mset (buf_events b) = mset (buf_events (enforce_capacity w b)) + lost_by w (buf_events b)"
proof -
  show "lw_capacity w = cap \<Longrightarrow> length (buf_events (enforce_capacity w b)) \<le> cap"
    by (auto simp: enforce_capacity_def)
  have "mset (buf_events b) = mset (drop n (buf_events b)) + mset (take n (buf_events b))" for n
    by (metis append_take_drop_id mset_append union_commute)
  then show "mset (buf_events b) = mset (buf_events (enforce_capacity w b)) + lost_by w (buf_events b)"
    by (auto simp: enforce_capacity_def lost_by_def not_less)
qed

lemma lost_by_bound: "size (lost_by w evs) = length evs - lw_capacity w"
  by (simp add: lost_by_def)

definition accounted :: "writer_run \<Rightarrow> bool" where
  "accounted s \<longleftrightarrow>
     length (buf_events (buffer (wr_writer s))) \<le> lw_capacity (wr_writer s)
   \<and> (\<forall>b \<in> set (wr_taken s). b \<noteq> [])
   \<and> ((\<forall>l \<in># wr_recorded s. plain_line l) \<longrightarrow>
       wr_recorded s = mset (file_lines (wr_files s)) + mset (concat (wr_taken s))
         + mset (buf_events (buffer (wr_writer s))) + wr_lost s
     \<and> (wr_lost s \<noteq> {#} \<longrightarrow> poisoned (wr_writer s) \<or> lw_capacity (wr_writer s) < size (wr_recorded s)))"

lemma accountedI:
  assumes "length (buf_events (buffer (wr_writer s))) \<le> lw_capacity (wr_writer s)" and "\<forall>b \<in> set (wr_taken s). b \<noteq> []"
    and "\<forall>l \<in># wr_recorded s. plain_line l \<Longrightarrow> wr_recorded s = mset (file_lines (wr_files s)) + mset (concat (wr_taken s))
         + mset (buf_events (buffer (wr_writer s))) + wr_lost s"
    and "\<forall>l \<in># wr_recorded s. plain_line l \<Longrightarrow> wr_lost s \<noteq> {#} \<Longrightarrow> \<not> poisoned (wr_writer s) \<Longrightarrow> lw_capacity (wr_writer s) < size (wr_recorded s)"
  shows "accounted s"
  unfolding accounted_def using assms by blast

lemma accounted_start: "accounted (writer_start d bs cap)"
  by (simp add: accounted_def writer_start_def with_limits_def file_lines_def)

text \<open>One rule for both ways lines reach the buffer: \<open>q\<close> is the buffer before it is trimmed.\<close>

lemma accounted_refill:
  assumes "wr_recorded s = mset (file_lines fs) + mset (concat tk) + mset q + wr_lost s"
    and "wr_lost s \<noteq> {#} \<longrightarrow> cap < size (wr_recorded s)" and "lw_capacity w = cap"
    and "mset q = mset q' + lost_by w q"
  shows "wr_recorded s = mset (file_lines fs) + mset (concat tk) + mset q' + (wr_lost s + lost_by w q)
    \<and> (wr_lost s + lost_by w q \<noteq> {#} \<longrightarrow> cap < size (wr_recorded s))"
proof
  show "wr_recorded s = mset (file_lines fs) + mset (concat tk) + mset q' + (wr_lost s + lost_by w q)"
    using assms(1,4) by (simp add: union_ac)
  have "size (mset q) \<le> size (wr_recorded s)" using assms(1) by (simp add: size_union)
  moreover have "lost_by w q \<noteq> {#} \<longrightarrow> cap < length q"
    using lost_by_bound [of w q] assms(3) by (auto simp flip: size_eq_0_iff_empty)
  ultimately show "wr_lost s + lost_by w q \<noteq> {#} \<longrightarrow> cap < size (wr_recorded s)" using assms(2) by auto
qed

lemma accounted_poisoned:
  assumes "writer_step s s'" and "accounted s" and "poisoned (wr_writer s)"
  shows "accounted s' \<and> lw_capacity (wr_writer s') = lw_capacity (wr_writer s)"
  using assms(1)
proof cases
  case (buffer_step ser evs due w sent)
  then have "w = wr_writer s" using assms(3) by (auto simp: buffer_all_def Let_def split: if_splits)
  then show ?thesis using assms(2,3) unfolding buffer_step(1)
    by (auto simp: accounted_def lost_buffering_def union_ac)
next
  case (take_step batch w)
  then show ?thesis using assms(3) by (simp add: take_batch_def)
next
  case (finish_step earlier batch later io millis uuid w fs)
  have "set batch \<subseteq> set_mset (wr_recorded s)" if "\<forall>l \<in># wr_recorded s. plain_line l"
  proof -
    have "wr_recorded s = mset (file_lines (wr_files s)) + mset (concat (wr_taken s))
         + mset (buf_events (buffer (wr_writer s))) + wr_lost s" using assms(2) that by (simp add: accounted_def)
    then show ?thesis using finish_step(2) by auto
  qed
  moreover have "batch \<noteq> []" using assms(2) finish_step(2) by (auto simp: accounted_def)
  ultimately have lo: "lines_of (batch_body batch) = batch" if "\<forall>l \<in># wr_recorded s. plain_line l"
    using lines_of_body [of batch] that by blast
  have w: "buffer w = buffer (wr_writer s)" "lw_capacity w = lw_capacity (wr_writer s)" "poisoned w"
    and fs: "fs = (if io = Written then (batch_name millis uuid, batch_body batch) # wr_files s else wr_files s)"
    using finish_step(3,4) assms(3) by (cases io; auto simp: write_or_requeue_def write_batch_def)+
  have "accounted s'" unfolding finish_step(1)
  proof (rule accountedI, goal_cases)
    case 3
    then have all: "\<forall>l \<in># wr_recorded s. plain_line l" by simp
    have "wr_recorded s = mset (file_lines (wr_files s)) + mset (concat (earlier @ batch # later)) + mset (buf_events (buffer (wr_writer s))) + wr_lost s"
      using assms(2) all finish_step(2) by (simp add: accounted_def)
    then show ?case using lo [OF all] assms(3) by (simp add: w fs lost_finishing_def file_lines_def union_ac)
  qed (use w assms(2) finish_step(2) in \<open>auto simp: accounted_def\<close>)
  then show ?thesis using w(2) by (simp add: finish_step(1))
next
  case poison_step
  then show ?thesis using assms(2) by (auto simp: accounted_def)
qed

lemma accounted_step:
  assumes "writer_step s s'" and "accounted s"
  shows "accounted s' \<and> lw_capacity (wr_writer s') = lw_capacity (wr_writer s)"
proof (cases "poisoned (wr_writer s)")
  case True
  then show ?thesis using accounted_poisoned [OF assms] by blast
next
  case sound: False
  from assms(1) show ?thesis
  proof cases
    case (buffer_step ser evs due w sent)
    let ?w = "wr_writer s" and ?ls = "List.map_filter ser evs"
    let ?b = "(buffer ?w)\<lparr>buf_events := buf_events (buffer ?w) @ ?ls\<rparr>"
    let ?t = "s\<lparr>wr_recorded := wr_recorded s + mset ?ls\<rparr>"
    have w: "w = ?w\<lparr>buffer := enforce_capacity ?w ?b\<rparr> \<or> (?ls = [] \<and> w = ?w)" and cap: "lw_capacity w = lw_capacity ?w"
      using buffer_step sound by (auto simp: buffer_all_def Let_def map_filter_simps split: if_splits)
    have old: "length (buf_events (buffer ?w)) \<le> lw_capacity ?w" using assms(2) by (simp add: accounted_def)
    have m: "mset (buf_events (buffer ?w) @ ?ls) = mset (buf_events (buffer w)) + lost_by w (buf_events (buffer ?w) @ ?ls)"
      using w
    proof
      assume "?ls = [] \<and> w = ?w"
      then show ?thesis using old by (simp add: lost_by_def)
    next
      assume "w = ?w\<lparr>buffer := enforce_capacity ?w ?b\<rparr>"
      then show ?thesis using enforce_capacity_simps(2) [of ?b ?w] by (simp add: lost_by_def)
    qed
    have len: "length (buf_events (buffer w)) \<le> lw_capacity w"
      using w old cap enforce_capacity_simps(1) [of ?w "lw_capacity ?w" ?b] by auto
    let ?q = "buf_events (buffer ?w) @ ?ls"
    have main: "wr_recorded ?t = mset (file_lines (wr_files s)) + mset (concat (wr_taken s)) + mset (buf_events (buffer w)) + (wr_lost ?t + lost_by w ?q)
        \<and> (wr_lost ?t + lost_by w ?q \<noteq> {#} \<longrightarrow> lw_capacity ?w < size (wr_recorded ?t))"
      if "\<forall>l \<in># wr_recorded ?t. plain_line l"
    proof (rule accounted_refill [OF _ _ cap m])
      show "wr_recorded ?t = mset (file_lines (wr_files s)) + mset (concat (wr_taken s)) + mset ?q + wr_lost ?t"
        using assms(2) that by (simp add: accounted_def union_ac)
      show "wr_lost ?t \<noteq> {#} \<longrightarrow> lw_capacity ?w < size (wr_recorded ?t)"
        using assms(2) that sound by (auto simp: accounted_def)
    qed
    have "accounted (s\<lparr>wr_writer := w, wr_recorded := wr_recorded s + mset ?ls, wr_lost := wr_lost s + lost_by w ?q\<rparr>)"
    proof (rule accountedI, goal_cases)
      case 3 then show ?case using main [THEN conjunct1] by simp
    next
      case 4 then show ?case using main [THEN conjunct2] cap by simp
    qed (use len assms(2) in \<open>simp_all add: accounted_def\<close>)
    then show ?thesis using cap sound by (simp add: buffer_step(1) lost_buffering_def lost_by_def)
  next
    case (take_step batch w)
    then show ?thesis using assms(2)
      by (auto simp: accounted_def take_batch_def union_ac split: if_splits)
  next
    case (finish_step earlier batch later io millis uuid w fs)
    let ?w = "wr_writer s" and ?q = "batch @ buf_events (buffer (wr_writer s))"
    let ?b = "(buffer ?w)\<lparr>buf_events := ?q\<rparr>"
    have ne: "batch \<noteq> []" using assms(2) finish_step by (auto simp: accounted_def)
    show ?thesis
    proof (cases "io = Written")
      case True
      then have w: "w = ?w\<lparr>failing := False\<rparr>" "fs = (batch_name millis uuid, batch_body batch) # wr_files s"
        using finish_step by (auto simp: write_or_requeue_def write_batch_def)
      have "lines_of (batch_body batch) = batch" if "\<forall>l \<in># wr_recorded s. plain_line l"
      proof (rule lines_of_body [OF ne])
        have "wr_recorded s = mset (file_lines (wr_files s)) + mset (concat (wr_taken s))
           + mset (buf_events (buffer (wr_writer s))) + wr_lost s"
          using assms(2) that by (simp add: accounted_def)
        then have "set batch \<subseteq> set_mset (wr_recorded s)" using finish_step(2) by auto
        then show "\<forall>l \<in> set batch. plain_line l" using that by blast
      qed
      then show ?thesis using assms(2) w True finish_step(1,2)
        by (auto simp: accounted_def file_lines_def union_ac lost_finishing_def)
    next
      case False
      then have w: "w = ?w\<lparr>failing := True, buffer := enforce_capacity (?w\<lparr>failing := True\<rparr>) ?b\<rparr>" "fs = wr_files s"
        using finish_step sound by (auto simp: write_or_requeue_def write_batch_def split: write_io.splits)
      have m: "mset ?q = mset (buf_events (buffer w)) + lost_by w ?q" and len: "length (buf_events (buffer w)) \<le> lw_capacity ?w"
        using w enforce_capacity_simps(1) [of "?w\<lparr>failing := True\<rparr>" "lw_capacity ?w" ?b] enforce_capacity_simps(2) [of ?b "?w\<lparr>failing := True\<rparr>"]
        by (simp_all add: lost_by_def)
      have cap: "lw_capacity w = lw_capacity ?w" by (simp add: w)
      have main: "wr_recorded s = mset (file_lines (wr_files s)) + mset (concat (earlier @ later)) + mset (buf_events (buffer w)) + (wr_lost s + lost_by w ?q)
          \<and> (wr_lost s + lost_by w ?q \<noteq> {#} \<longrightarrow> lw_capacity ?w < size (wr_recorded s))"
        if "\<forall>l \<in># wr_recorded s. plain_line l"
      proof (rule accounted_refill [OF _ _ cap m])
        show "wr_recorded s = mset (file_lines (wr_files s)) + mset (concat (earlier @ later)) + mset ?q + wr_lost s"
          using assms(2) that finish_step(2) by (simp add: accounted_def union_ac)
        show "wr_lost s \<noteq> {#} \<longrightarrow> lw_capacity ?w < size (wr_recorded s)"
          using assms(2) that sound unfolding accounted_def by blast
      qed
      have "accounted (s\<lparr>wr_writer := w, wr_files := wr_files s, wr_taken := earlier @ later, wr_lost := wr_lost s + lost_by w ?q\<rparr>)"
      proof (rule accountedI, goal_cases)
        case 3 then show ?case using main [THEN conjunct1] by simp
      next
        case 4 then show ?case using main [THEN conjunct2] cap by simp
      qed (use len cap assms(2) finish_step(2) in \<open>auto simp: accounted_def\<close>)
      then show ?thesis using cap False sound by (simp add: finish_step(1) w(2) lost_finishing_def lost_by_def)
    qed
  next
    case poison_step
    then show ?thesis using assms(2) by (auto simp: accounted_def)
  qed
qed

lemma accounted_run:
  assumes "writer_step\<^sup>*\<^sup>* (writer_start d bs cap) s"
  shows "accounted s \<and> lw_capacity (wr_writer s) = max 1 cap"
  using assms
proof (induction rule: rtranclp_induct)
  case base
  then show ?case by (simp add: accounted_start, simp add: writer_start_def with_limits_def)
next
  case (step s s')
  then show ?case using accounted_step by auto
qed

section \<open>The mirror accounts for every event\<close>

text \<open>The mirror between the submitters and the poster: the queue and the event being posted.\<close>

inductive sink_step :: "Shared \<times> string option \<Rightarrow> Shared \<times> string option \<Rightarrow> bool" where
  submit: "\<not> sh_poisoned s \<Longrightarrow> sink_step (s, cur) (sink_push ev s, cur)"
| pop: "sink_pop s = (Some ev, s') \<Longrightarrow> sink_step (s, None) (s', Some ev)"
| posted: "sink_step (s, Some ev) (sink_posted s, None)"

definition sink_balanced :: "Shared \<times> string option \<Rightarrow> bool" where
  "sink_balanced st \<longleftrightarrow> (case st of (s, cur) \<Rightarrow>
     length (queue s) \<le> QUEUE_CAPACITY
   \<and> enqueued s = settled s + of_nat (length (queue s)) + (if cur = None then 0 else 1))"

lemma sink_balanced_push: "sink_balanced (s, cur) \<Longrightarrow> \<not> sh_poisoned s \<Longrightarrow> sink_balanced (sink_push ev s, cur)"
  by (cases "length (queue s) = QUEUE_CAPACITY")
     (auto simp: sink_balanced_def sink_push_def settled_def Let_def QUEUE_CAPACITY_def)

lemma sink_balanced_step: "sink_step st st' \<Longrightarrow> sink_balanced st \<Longrightarrow> sink_balanced st'"
proof (induction rule: sink_step.induct)
  case (submit s cur ev)
  then show ?case by (simp add: sink_balanced_push)
next
  case (pop s ev s')
  then show ?case by (auto simp: sink_balanced_def sink_pop_def settled_def split: if_splits list.splits)
next
  case (posted s ev)
  then show ?case by (simp add: sink_balanced_def sink_posted_def settled_def)
qed

lemma sink_balanced_run: "sink_step\<^sup>*\<^sup>* (shared_default, None) st \<Longrightarrow> sink_balanced st"
  by (induction rule: rtranclp_induct)
     (auto simp: sink_balanced_step, simp add: sink_balanced_def shared_default_def settled_def)

section \<open>File names\<close>

lemma pad13_digits: "c \<in> set (pad13 n) \<Longrightarrow> is_ascii_digit c"
  by (auto simp: pad13_def dest: show_nat_digits) (simp add: is_ascii_digit_def)

lemma pad13_nonempty: "pad13 n \<noteq> []"
  by (simp add: pad13_def) (subst show_nat.simps, simp)

lemma is_batch_name_batch_name: "is_batch_name (batch_name millis uuid)"
proof -
  obtain c cs where p: "pad13 millis = c # cs" using pad13_nonempty by (cases "pad13 millis") auto
  have "c \<noteq> CHR ''.''" using pad13_digits [of c millis] p by (auto simp: is_ascii_digit_def)
  then show ?thesis by (simp add: is_batch_name_def batch_name_def p ends_with_def starts_with_def)
qed

section \<open>Properties\<close>

text \<open>C23. No lineage event is lost but by the bound or a poisoned lock: under any interleaving of
  buffering, taking and finishing batches, any failures of the file operations and a panic that
  poisons the lock at any moment, the buffer stays within its capacity, and every line handed to the
  writer is in exactly one place: a finished file, a batch being written, the buffer, or given up.
  While the lock is sound a line is given up only by the capacity bound, and only if more lines were
  handed in than the buffer may hold. What is given up is kept by the model only: the code warns.
  Lines are assumed to contain no newline, as serialized JSON does not.\<close>

theorem lineage_is_conserved:
  assumes "writer_step\<^sup>*\<^sup>* (writer_start d bs cap) s" and "\<forall>l \<in># wr_recorded s. plain_line l"
  shows "length (buf_events (buffer (wr_writer s))) \<le> max 1 cap
    \<and> wr_recorded s = mset (file_lines (wr_files s)) + mset (concat (wr_taken s))
        + mset (buf_events (buffer (wr_writer s))) + wr_lost s
    \<and> (size (wr_recorded s) \<le> max 1 cap \<and> \<not> poisoned (wr_writer s) \<longrightarrow> wr_lost s = {#})"
  using accounted_run [OF assms(1)] assms(2) by (auto simp: accounted_def not_less [symmetric])

definition demo_line :: "Value \<Rightarrow> string option" where
  "demo_line v = as_str v"

theorem lineage_is_conserved_witness:
  "\<exists>s. writer_step\<^sup>*\<^sup>* (writer_start ''/p/lineage'' 5 2) s \<and> wr_lost s = {#}
     \<and> wr_recorded s = {#''a'', ''b''#} \<and> file_lines (wr_files s) = [''a'', ''b'']"
proof -
  let ?s0 = "writer_start ''/p/lineage'' 5 2" and ?ls = "[''a'', ''b'']"
  let ?w0 = "\<lparr>dir = Some ''/p/lineage'', lw_batch_size = 5, lw_capacity = 2, buffer = \<lparr>buf_events = [], overflowing = False\<rparr>,
    poisoned = False, failing = False, has_sink = False\<rparr>"
  let ?w1 = "?w0\<lparr>buffer := \<lparr>buf_events = ?ls, overflowing = False\<rparr>\<rparr>"
  let ?run = "\<lambda>w fs tk. \<lparr>wr_writer = w, wr_files = fs, wr_taken = tk, wr_recorded = mset ?ls, wr_lost = {#}\<rparr>"
  let ?f = "(batch_name 7 ''u'', batch_body ?ls)"
  have s0: "?s0 = \<lparr>wr_writer = ?w0, wr_files = [], wr_taken = [], wr_recorded = {#}, wr_lost = {#}\<rparr>"
    by (simp add: writer_start_def with_limits_def starts_with_def)
  have mf: "List.map_filter demo_line [JString ''a'', JString ''b''] = ?ls" by (simp add: map_filter_simps demo_line_def)
  have "buffer_all demo_line [JString ''a'', JString ''b''] ?w0 = (False, ?w1, [])"
    unfolding buffer_all_def mf by (simp add: Let_def enforce_capacity_def)
  then have 1: "writer_step ?s0 (?run ?w1 [] [])"
    using writer_step.buffer_step [of demo_line "[JString ''a'', JString ''b'']" ?s0 False ?w1 "[]"]
    unfolding s0 mf by (simp add: lost_by_def lost_buffering_def)
  have 2: "writer_step (?run ?w1 [] []) (?run ?w0 [] [?ls])"
    using writer_step.take_step [of "?run ?w1 [] []" ?ls ?w0] by (simp add: take_batch_def)
  have 3: "writer_step (?run ?w0 [] [?ls]) (?run ?w0 [?f] [])"
    using writer_step.finish_step [of "?run ?w0 [] [?ls]" "[]" ?ls "[]" Written 7 "''u''" ?w0 "[?f]"]
    by (simp add: write_or_requeue_def write_batch_def lost_finishing_def)
  let ?s3 = "?run ?w0 [?f] []"
  have run: "writer_step\<^sup>*\<^sup>* ?s0 ?s3" using 1 2 3 by (meson converse_rtranclp_into_rtranclp rtranclp.rtrancl_refl)
  have "\<forall>l \<in># wr_recorded ?s3. plain_line l" by (simp add: plain_line_def)
  from lineage_is_conserved [OF run this] have "wr_lost ?s3 = {#}" by simp
  moreover have "lines_of (batch_body ?ls) = ?ls" by code_simp
  ultimately show ?thesis using run by (intro exI [of _ ?s3]) (simp add: file_lines_def)
qed

text \<open>The mirror's books balance: after any interleaving of submitting, popping and posting,
  the queue is bounded, and the events accepted are the ones posted, dropped, queued or in
  flight, counted in 64 bits; so, with fewer than \<open>2^64\<close> events, a shutdown that sees every
  accepted event settled leaves nothing queued and nothing in flight.\<close>

lemma mirror_accounts_for_every_event:
  assumes "sink_step\<^sup>*\<^sup>* (shared_default, None) (s, cur)"
  shows "length (queue s) \<le> QUEUE_CAPACITY
    \<and> enqueued s = settled s + of_nat (length (queue s)) + (if cur = None then 0 else 1)
    \<and> (settled s = enqueued s \<longleftrightarrow> queue s = [] \<and> cur = None)"
proof -
  have b: "length (queue s) \<le> QUEUE_CAPACITY"
    "enqueued s = settled s + (of_nat (length (queue s)) + (if cur = None then 0 else 1))"
    using sink_balanced_run [OF assms] by (auto simp: sink_balanced_def)
  define n where "n = length (queue s) + (if cur = None then 0 else 1)"
  have "n < 2 ^ 64" using b(1) by (simp add: n_def QUEUE_CAPACITY_def)
  then have "(of_nat n :: 64 word) = 0 \<longleftrightarrow> n = 0" by (auto simp: word_of_nat_eq_0_iff dest: dvd_imp_le)
  moreover have "enqueued s = settled s + of_nat n" using b(2) by (simp add: n_def)
  ultimately show ?thesis using b by (auto simp: n_def)
qed

lemma mirror_accounts_for_every_event_example:
  "\<exists>s. sink_step\<^sup>*\<^sup>* (shared_default, None) (s, None) \<and> enqueued s = 1 \<and> queue s = []"
proof -
  let ?s1 = "sink_push ''e'' shared_default"
  have 1: "sink_step (shared_default, None) (?s1, None)" by (rule sink_step.submit) (simp add: shared_default_def)
  have q: "queue ?s1 = [''e'']" "\<not> sh_poisoned ?s1" "enqueued ?s1 = 1" "settled ?s1 = 0"
    by (simp_all add: sink_push_def shared_default_def Let_def QUEUE_CAPACITY_def settled_def)
  have 2: "sink_step (?s1, None) (?s1\<lparr>queue := []\<rparr>, Some ''e'')" by (rule sink_step.pop) (simp add: sink_pop_def q)
  have 3: "sink_step (?s1\<lparr>queue := []\<rparr>, Some ''e'') (sink_posted (?s1\<lparr>queue := []\<rparr>), None)" by (rule sink_step.posted)
  have run: "sink_step\<^sup>*\<^sup>* (shared_default, None) (sink_posted (?s1\<lparr>queue := []\<rparr>), None)"
    using 1 2 3 by (meson converse_rtranclp_into_rtranclp rtranclp.rtrancl_refl)
  have "settled (sink_posted (?s1\<lparr>queue := []\<rparr>)) = enqueued (sink_posted (?s1\<lparr>queue := []\<rparr>))"
    using q by (simp add: settled_def sink_posted_def)
  then have "queue (sink_posted (?s1\<lparr>queue := []\<rparr>)) = []" using mirror_accounts_for_every_event [OF run] by blast
  then show ?thesis using run q by (auto simp: sink_posted_def)
qed

end
