(* ===== verification/Lineage_Paging.thy ===== *)
theory Lineage_Paging
  imports Lineage_Reader
begin

text \<open>
  What the reader of a lineage trail promises: the bounded ring and the bounded listing are
  invisible, a page is a prefix of the trail newest first; and walking the trail backwards with
  the oldest time received as the next \<open>before\<close> visits every event once when the trail is in
  time order, and not otherwise.
\<close>

section \<open>A page against the whole trail\<close>

definition trail :: "(string \<Rightarrow> Value option) \<Rightarrow> (string \<Rightarrow> int option) \<Rightarrow> (string \<Rightarrow> batch_file)
    \<Rightarrow> int option \<Rightarrow> int option \<Rightarrow> string list \<Rightarrow> (Value \<times> nat) list" where
  "trail pj pt fs lo hi names = concat (map (newest_first pj pt lo hi \<circ> fs) names)"

definition newest :: "string option list \<Rightarrow> string list" where
  "newest es = take MAX_FILES (rev (sort (batch_names es)))"

definition cut_page :: "Value list \<times> string option option \<Rightarrow> Value list" where
  "cut_page p = (case p of (evs, None) \<Rightarrow> evs | (evs, Some b) \<Rightarrow> cut_on_a_timestamp_boundary evs b)"

lemma read_newest_prefix:
  assumes "parse_bound pt ''since'' (since req) = Ok lo" and "parse_bound pt ''before'' (before req) = Ok hi"
  shows "\<exists>page. read_newest pj pt (Ok es) fs req = Ok page
    \<and> page_events page = cut_page (page_prefix (clamp 1 MAX_LIMIT (limit req)) 0 0 (trail pj pt fs lo hi (newest es)))
    \<and> (truncated page \<longleftrightarrow> MAX_FILES < length (batch_names es)
          \<or> snd (page_prefix (clamp 1 MAX_LIMIT (limit req)) 0 0 (trail pj pt fs lo hi (newest es))) \<noteq> None)"
proof -
  let ?lim = "clamp 1 MAX_LIMIT (limit req)"
  let ?page = "\<lparr>page_events = [], truncated = (0 < length (batch_names es) - MAX_FILES),
    malformed_lines = 0, unreadable_files = 0\<rparr>"
  obtain page' ex where rf: "read_files pj pt fs ?lim lo hi (newest es) ?page 0 = (page', ex)" by fastforce
  obtain evs ex' where pp: "page_prefix ?lim 0 0 (trail pj pt fs lo hi (newest es)) = (evs, ex')" by fastforce
  have "page_events page' = evs \<and> ex = ex' \<and> (truncated page' \<longleftrightarrow> MAX_FILES < length (batch_names es) \<or> ex \<noteq> None)"
    using read_files_prefix [of ?page ?lim pj pt fs lo hi "newest es" 0 page' ex evs ex'] rf pp
    by (simp add: trail_def)
  then show ?thesis
    using rf pp assms by (cases ex) (auto simp: read_newest_def newest_names_eq newest_def cut_page_def)
qed

lemma selected_unbounded [simp]: "selected pt None None e"
  by (simp add: selected_def)

lemma file_matches_filter:
  "file_matches pj pt lo hi ls = filter (selected pt lo hi \<circ> fst) (file_matches pj pt None None ls)"
  by (induction ls) (auto split: option.split)

lemma trail_filter:
  "trail pj pt fs lo hi names = filter (selected pt lo hi \<circ> fst) (trail pj pt fs None None names)"
proof -
  have "newest_first pj pt lo hi f = filter (selected pt lo hi \<circ> fst) (newest_first pj pt None None f)" for f
    by (cases f) (simp_all add: newest_first_def file_matches_filter [of pj pt lo hi] rev_filter)
  then show ?thesis by (simp add: trail_def filter_concat comp_def)
qed

section \<open>Walking backwards\<close>

definition time_of :: "(string \<Rightarrow> int option) \<Rightarrow> Value \<Rightarrow> int" where
  "time_of pt e = the (pt (the (event_time e)))"

text \<open>The oldest \<open>eventTime\<close> of a page, which the caller passes as the next \<open>before\<close>.\<close>

fun oldest_time :: "(string \<Rightarrow> int option) \<Rightarrow> Value list \<Rightarrow> string option" where
  "oldest_time pt [] = None"
| "oldest_time pt [e] = event_time e"
| "oldest_time pt (e # f # es) = oldest_time pt ((if time_of pt f \<le> time_of pt e then f else e) # es)"

fun walk_back :: "(string \<Rightarrow> Value option) \<Rightarrow> (string \<Rightarrow> int option) \<Rightarrow> string option list \<Rightarrow> (string \<Rightarrow> batch_file)
    \<Rightarrow> nat \<Rightarrow> nat \<Rightarrow> string option \<Rightarrow> Value list" where
  "walk_back pj pt es fs lim 0 cur = []"
| "walk_back pj pt es fs lim (Suc n) cur =
     (case read_newest pj pt (Ok es) fs \<lparr>limit = lim, since = None, before = cur\<rparr> of
        Inl _ \<Rightarrow> []
      | Inr page \<Rightarrow> page_events page @
          (if truncated page \<and> page_events page \<noteq> []
           then walk_back pj pt es fs lim n (oldest_time pt (page_events page)) else []))"

text \<open>A trail is orderly for a page size when every event has a readable time, times never
  increase from newest to oldest, equal instants are written alike, and the events of one
  instant fit on a page.\<close>

definition orderly :: "(string \<Rightarrow> int option) \<Rightarrow> nat \<Rightarrow> (Value \<times> nat) list \<Rightarrow> bool" where
  "orderly pt lim T \<longleftrightarrow>
     (\<forall>x \<in> set T. \<exists>s t. event_time (fst x) = Some s \<and> pt s = Some t)
   \<and> sorted_wrt (\<lambda>x y. time_of pt (fst y) \<le> time_of pt (fst x)) T
   \<and> (\<forall>x \<in> set T. \<forall>y \<in> set T. time_of pt (fst x) = time_of pt (fst y) \<longrightarrow> event_time (fst x) = event_time (fst y))
   \<and> (\<forall>x \<in> set T. let g = filter (\<lambda>y. time_of pt (fst y) = time_of pt (fst x)) T
        in length g \<le> lim \<and> bytes_of g \<le> MAX_BYTES)"

lemma oldest_time_last:
  assumes "sorted_wrt (\<lambda>x y. time_of pt y \<le> time_of pt x) es" and "es \<noteq> []"
  shows "oldest_time pt es = event_time (last es)"
  using assms by (induction pt es rule: oldest_time.induct) auto

lemma oldest_time_mem: "es \<noteq> [] \<Longrightarrow> \<exists>e \<in> set es. oldest_time pt es = event_time e"
  by (induction pt es rule: oldest_time.induct) (fastforce split: if_splits)+

lemma filter_group: "P v \<Longrightarrow> filter (\<lambda>y. f y = v) (filter (\<lambda>y. P (f y)) T) = filter (\<lambda>y. f y = v) T"
  by (induction T) auto

lemma orderly_filter:
  assumes "orderly pt lim T"
  shows "orderly pt lim (filter (\<lambda>x. P (time_of pt (fst x))) T)"
  using assms unfolding orderly_def Let_def
  by (intro conjI ballI) (simp_all add: sorted_wrt_filter filter_group [where f = "\<lambda>y. time_of pt (fst y)"] del: filter_filter)

text \<open>Where the first event that does not fit is one of a later instant, the cut leaves the
  events of every instant before it, complete.\<close>

lemma page_prefix_complete:
  assumes "page_prefix lim n b xs = (es, ex)" and "k \<le> length xs" and "n + k \<le> lim" and "b + bytes_of (take k xs) \<le> MAX_BYTES"
  shows "k \<le> length es"
  using assms
proof (induction xs arbitrary: n b es k)
  case (Cons x xs)
  obtain e l where x: "x = (e, l)" by (cases x)
  show ?case
  proof (cases k)
    case (Suc j)
    then have "\<not> (lim \<le> n \<or> (0 < n \<and> MAX_BYTES < b + l))" using Cons.prems by (auto simp: x)
    then obtain es' where es: "es = e # es'" "page_prefix lim (Suc n) (b + l) xs = (es', ex)"
      using Cons.prems by (auto simp: x split: prod.splits)
    have "j \<le> length es'" using Cons.IH [OF es(2), of j] Cons.prems Suc by (simp add: x add.assoc)
    then show ?thesis using Suc es by simp
  qed simp
qed simp

lemma takeWhile_sorted_time:
  assumes "sorted_wrt (\<lambda>x y. time_of pt (fst y) \<le> time_of pt (fst x)) R"
  shows "takeWhile (\<lambda>x. t < time_of pt (fst x)) R = filter (\<lambda>x. t < time_of pt (fst x)) R
    \<and> dropWhile (\<lambda>x. t < time_of pt (fst x)) R = filter (\<lambda>x. time_of pt (fst x) \<le> t) R"
  using assms
proof (induction R)
  case (Cons x R)
  have "filter (\<lambda>x. time_of pt (fst x) \<le> t) R = R" if "time_of pt (fst x) \<le> t"
    using Cons.prems that by (fastforce simp: filter_id_conv)
  moreover have "filter (\<lambda>x. t < time_of pt (fst x)) R = []" if "time_of pt (fst x) \<le> t"
    using Cons.prems that by (fastforce simp: filter_empty_conv)
  ultimately show ?case using Cons by (simp add: not_less)
qed simp

lemma takeWhile_take_le:
  "k < length xs \<Longrightarrow> \<not> P (xs ! k) \<Longrightarrow> takeWhile P (take k xs) = takeWhile P xs"
proof (induction xs arbitrary: k)
  case (Cons x xs)
  then show ?case by (cases k) auto
qed simp

lemma sorted_wrt_last: "sorted_wrt P xs \<Longrightarrow> x \<in> set xs \<Longrightarrow> x = last xs \<or> P x (last xs)"
  by (cases xs rule: rev_cases) (auto simp: sorted_wrt_append)

lemma page_of_orderly:
  assumes o: "orderly pt lim R" and pp: "page_prefix lim 0 0 R = (es, Some ex)"
  defines "p \<equiv> cut_page (es, Some ex)"
  shows "p \<noteq> [] \<and> (\<exists>c tc. oldest_time pt p = Some c \<and> pt c = Some tc
    \<and> p @ map fst (filter (\<lambda>x. time_of pt (fst x) < tc) R) = map fst R)"
proof -
  let ?tm = "\<lambda>x. time_of pt (fst x)"
  let ?k = "length es"
  have k: "?k < length R" "es = map fst (take ?k R)" "ex = event_time (fst (R ! ?k))"
    using page_prefix_take [OF pp] by auto
  have srt: "sorted_wrt (\<lambda>x y. ?tm y \<le> ?tm x) R" using o by (simp add: orderly_def)
  define tb where "tb = ?tm (R ! ?k)"
  obtain bt where bt: "ex = Some bt"
    using o nth_mem [OF k(1)] k(3) unfolding orderly_def by metis
  have same: "event_time (fst x) = Some bt \<longleftrightarrow> ?tm x = tb" if "x \<in> set R" for x
  proof
    assume "event_time (fst x) = Some bt"
    then show "?tm x = tb" using k(3) bt by (simp add: tb_def time_of_def)
  next
    assume "?tm x = tb"
    then have "event_time (fst x) = event_time (fst (R ! ?k))"
      using o that nth_mem [OF k(1)] unfolding orderly_def tb_def by blast
    then show "event_time (fst x) = Some bt" using k(3) bt by simp
  qed
  have ge: "tb \<le> ?tm x" if "x \<in> set (take ?k R)" for x
    using that srt k(1) by (auto simp: in_set_conv_nth tb_def sorted_wrt_iff_nth_less)
  define G where "G = filter (\<lambda>x. tb < ?tm x) R"
  have "takeWhile (\<lambda>x. event_time (fst x) \<noteq> Some bt) (take ?k R) = takeWhile (\<lambda>x. tb < ?tm x) (take ?k R)"
    using same ge by (intro takeWhile_cong) (auto dest: in_set_takeD simp: less_le)
  also have "\<dots> = takeWhile (\<lambda>x. tb < ?tm x) R" using k(1) by (intro takeWhile_take_le) (simp_all add: tb_def)
  finally have tw: "takeWhile (\<lambda>e. event_time e \<noteq> Some bt) es = map fst G"
    using takeWhile_sorted_time [OF srt, of tb] by (subst k(2)) (simp add: takeWhile_map comp_def G_def)
  have G: "G \<noteq> []"
  proof
    assume "G = []"
    then have all: "?tm x \<le> tb" if "x \<in> set R" for x using that by (fastforce simp: G_def filter_empty_conv)
    have "\<forall>x \<in> set (take (Suc ?k) R). ?tm x = tb"
      using ge all nth_mem [OF k(1)]
      by (auto simp: take_Suc_conv_app_nth [OF k(1)] tb_def [symmetric] dest: in_set_takeD intro!: order_antisym)
    then have "filter (\<lambda>x. ?tm x = tb) (take (Suc ?k) R) = take (Suc ?k) R" by (rule filter_True)
    then have g: "filter (\<lambda>x. ?tm x = tb) R = take (Suc ?k) R @ filter (\<lambda>x. ?tm x = tb) (drop (Suc ?k) R)"
      using filter_append [of "\<lambda>x. ?tm x = tb" "take (Suc ?k) R" "drop (Suc ?k) R"] by simp
    have "length (filter (\<lambda>x. ?tm x = tb) R) \<le> lim \<and> bytes_of (filter (\<lambda>x. ?tm x = tb) R) \<le> MAX_BYTES"
      using o nth_mem [OF k(1)] unfolding orderly_def tb_def Let_def by blast
    then have "Suc ?k \<le> lim \<and> bytes_of (take (Suc ?k) R) \<le> MAX_BYTES" using k(1) unfolding g by simp
    then show False using page_prefix_complete [OF pp, of "Suc ?k"] k(1) by simp
  qed
  have p: "p = map fst G"
    using tw G unfolding p_def cut_page_def cut_on_a_timestamp_boundary_def bt Let_def
    by (simp, metis length_map takeWhile_eq_take)
  have "sorted_wrt (\<lambda>x y. ?tm y \<le> ?tm x) G" using srt by (simp add: G_def sorted_wrt_filter)
  then have old: "oldest_time pt p = event_time (fst (last G))" and last_le: "x \<in> set G \<Longrightarrow> ?tm (last G) \<le> ?tm x" for x
    using G by (auto simp: p oldest_time_last sorted_wrt_map last_map dest: sorted_wrt_last)
  have lastR: "last G \<in> set R" "tb < ?tm (last G)" using last_in_set [OF G] by (auto simp: G_def)
  then obtain c tc where c: "event_time (fst (last G)) = Some c" "pt c = Some tc"
    using o unfolding orderly_def by blast
  then have tc: "tc = ?tm (last G)" by (simp add: time_of_def)
  have "filter (\<lambda>x. ?tm x < tc) R = filter (\<lambda>x. ?tm x \<le> tb) R"
    using last_le lastR by (intro filter_cong) (force simp: tc G_def not_le)+
  moreover have "G @ filter (\<lambda>x. ?tm x \<le> tb) R = R"
    using takeWhile_sorted_time [OF srt, of tb] by (metis G_def takeWhile_dropWhile_id)
  ultimately show ?thesis using G c old p by (metis map_append map_is_Nil_conv)
qed

lemma selected_before:
  assumes "orderly pt lim T" and "x \<in> set T"
  shows "selected pt None (Some tc) (fst x) \<longleftrightarrow> time_of pt (fst x) < tc"
  using assms by (fastforce simp: orderly_def selected_def time_of_def)

lemma walk_back_remaining:
  assumes o: "orderly pt lim (trail pj pt fs None None (newest es))" and lim: "clamp 1 MAX_LIMIT lim = lim"
    and few: "length (batch_names es) \<le> MAX_FILES"
    and cur: "parse_bound pt ''before'' cur = Ok hi"
  defines "R \<equiv> trail pj pt fs None hi (newest es)"
  assumes "length R \<le> n"
  shows "walk_back pj pt es fs lim n cur = map fst R"
  using cur \<open>length R \<le> n\<close> unfolding R_def
proof (induction n arbitrary: cur hi)
  case 0
  then show ?case by simp
next
  case (Suc n)
  let ?T = "trail pj pt fs None None (newest es)" and ?R = "trail pj pt fs None hi (newest es)"
  have R: "?R = filter (\<lambda>x. (\<lambda>t. hi = None \<or> t < the hi) (time_of pt (fst x))) ?T"
    unfolding trail_filter [of pj pt fs None hi]
    by (cases hi) (simp_all add: selected_before [OF o] cong: filter_cong)
  have oR: "orderly pt lim ?R" unfolding R by (rule orderly_filter [OF o])
  obtain page where pg: "read_newest pj pt (Ok es) fs \<lparr>limit = lim, since = None, before = cur\<rparr> = Ok page"
    "page_events page = cut_page (page_prefix lim 0 0 ?R)"
    "truncated page \<longleftrightarrow> snd (page_prefix lim 0 0 ?R) \<noteq> None"
    using read_newest_prefix [of pt "\<lparr>limit = lim, since = None, before = cur\<rparr>" None hi pj es fs] Suc.prems(1) lim few
    by (auto simp: parse_bound_def)
  obtain evs ex where pp: "page_prefix lim 0 0 ?R = (evs, ex)" by fastforce
  show ?case
  proof (cases ex)
    case None
    then have "evs = map fst ?R" using page_prefix_take [OF pp] by (metis take_all_iff order_refl)
    then show ?thesis using pg pp None by (simp add: cut_page_def)
  next
    case (Some b)
    let ?p = "cut_page (evs, Some b)"
    obtain c tc where c: "?p \<noteq> []" "oldest_time pt ?p = Some c" "pt c = Some tc"
      "?p @ map fst (filter (\<lambda>x. time_of pt (fst x) < tc) ?R) = map fst ?R"
      using page_of_orderly [OF oR pp [unfolded Some]] by blast
    let ?R' = "trail pj pt fs None (Some tc) (newest es)"
    have "set ?p \<subseteq> fst ` set ?R" using c(4) by (metis Un_upper1 list.set_map set_append)
    moreover obtain e where "e \<in> set ?p" "event_time e = Some c" using oldest_time_mem [OF c(1), of pt] c(2) by metis
    ultimately obtain x where "x \<in> set ?R" "event_time (fst x) = Some c" by blast
    then have "hi = None \<or> tc \<le> the hi" using c(3) unfolding R by (auto simp: time_of_def)
    then have R': "?R' = filter (\<lambda>x. time_of pt (fst x) < tc) ?R"
      unfolding R trail_filter [of pj pt fs None "Some tc"] filter_filter comp_def
      by (intro filter_cong refl) (auto simp: selected_before [OF o] simp del: fst_conv split_paired_All)
    then have "length ?R' < length ?R" using c(1,4) by (metis length_append length_greater_0_conv length_map less_add_same_cancel2)
    then have "walk_back pj pt es fs lim n (Some c) = map fst ?R'"
      using Suc.IH [of "Some c" "Some tc"] Suc.prems(2) c(3) by (simp add: parse_bound_def)
    then show ?thesis using pg pp Some c R' by simp
  qed
qed

lemma walk_back_subset:
  "set (walk_back pj pt es fs lim n cur) \<subseteq> fst ` set (trail pj pt fs None None (newest es))"
proof (induction n arbitrary: cur)
  case (Suc n)
  have cut: "set (cut_page (evs, x)) \<subseteq> set evs" for evs x
    by (cases x) (auto simp: cut_page_def cut_on_a_timestamp_boundary_def Let_def split: option.splits if_splits
        dest: in_set_takeD)
  have "set (page_events page) \<subseteq> fst ` set (trail pj pt fs None None (newest es))"
    if rn: "read_newest pj pt (Ok es) fs \<lparr>limit = lim, since = None, before = cur\<rparr> = Ok page" for page
  proof -
    obtain hi where hi: "parse_bound pt ''before'' cur = Ok hi"
      using rn by (cases "parse_bound pt ''before'' cur") (auto simp: read_newest_def parse_bound_def [of pt "''since''"])
    let ?R = "trail pj pt fs None hi (newest es)"
    obtain evs ex where pp: "page_prefix (clamp 1 MAX_LIMIT lim) 0 0 ?R = (evs, ex)" by fastforce
    have "page_events page = cut_page (evs, ex)"
      using read_newest_prefix [of pt "\<lparr>limit = lim, since = None, before = cur\<rparr>" None hi pj es fs] hi rn pp
      by (auto simp: parse_bound_def)
    moreover have "set evs \<subseteq> fst ` set ?R"
      using page_prefix_take [OF pp] by (metis list.set_map set_take_subset image_mono)
    moreover have "set ?R \<subseteq> set (trail pj pt fs None None (newest es))"
      by (subst trail_filter) auto
    ultimately show ?thesis using cut [of evs ex] by auto
  qed
  then show ?case using Suc
    by (cases "read_newest pj pt (Ok es) fs \<lparr>limit = lim, since = None, before = cur\<rparr>") auto
qed simp

section \<open>Properties\<close>

text \<open>C25. A page is the newest of what matches: whatever the directory holds and however the
  caps fall, a read with readable bounds succeeds, and its events are the longest prefix of the
  trail (the newest batches, each newest event first, malformed lines and unreadable files left
  out, the bounds applied) that fits the count and the byte cap, cut back to a boundary between
  timestamps; it says \<open>truncated\<close> exactly when an event did not fit or a batch was not opened.
  The bounded listing and the bounded ring the reader streams through do not show.\<close>

theorem page_is_newest_prefix:
  assumes "parse_bound pt ''since'' (since req) = Ok lo" and "parse_bound pt ''before'' (before req) = Ok hi"
  shows "\<exists>page. read_newest pj pt (Ok es) fs req = Ok page
    \<and> page_events page = cut_page (page_prefix (clamp 1 MAX_LIMIT (limit req)) 0 0 (trail pj pt fs lo hi (newest es)))
    \<and> (truncated page \<longleftrightarrow> MAX_FILES < length (batch_names es)
          \<or> snd (page_prefix (clamp 1 MAX_LIMIT (limit req)) 0 0 (trail pj pt fs lo hi (newest es))) \<noteq> None)"
  using assms by (rule read_newest_prefix)

text \<open>A small trail for the witnesses: an event is its one-character time.\<close>

definition demo_parse :: "string \<Rightarrow> Value option" where
  "demo_parse l = (if l = ''?'' then None else Some (JObject [(''eventTime'', JString l)]))"

definition demo_time :: "string \<Rightarrow> int option" where
  "demo_time s = (case s of [c] \<Rightarrow> Some (int (code c)) | _ \<Rightarrow> None)"

definition demo_dir :: "string option list" where
  "demo_dir = [Some ''1-a.jsonl'', None, Some ''.tmp-b'', Some ''2-b.jsonl'']"

definition demo_files :: "string \<Rightarrow> batch_file" where
  "demo_files n = (if n = ''1-a.jsonl'' then Lines [''1'', ''2'', ''?'', ''2''] False else Lines ['' 3 '', ''4''] False)"

definition demo_event :: "string \<Rightarrow> Value" where
  "demo_event s = JObject [(''eventTime'', JString s)]"

lemmas demo_trail_defs = demo_parse_def demo_time_def demo_dir_def demo_files_def demo_event_def

lemma newest_few: "length (batch_names es) \<le> MAX_FILES \<Longrightarrow> newest es = rev (sort (batch_names es))"
  by (simp add: newest_def)

lemma demo_dir_few: "length (batch_names demo_dir) \<le> MAX_FILES"
proof -
  have "batch_names demo_dir = [''1-a.jsonl'', ''2-b.jsonl'']" by code_simp
  then show ?thesis by (simp add: MAX_FILES_def)
qed

lemma demo_trail:
  "trail demo_parse demo_time demo_files None None (newest demo_dir) =
     [(demo_event ''4'', 1), (demo_event ''3'', 1), (demo_event ''2'', 1), (demo_event ''2'', 1), (demo_event ''1'', 1)]"
  unfolding newest_few [OF demo_dir_few] by code_simp

theorem page_is_newest_prefix_witness:
  "\<exists>page. read_newest demo_parse demo_time (Ok demo_dir) demo_files \<lparr>limit = 3, since = None, before = None\<rparr> = Ok page
     \<and> page_events page = [demo_event ''4'', demo_event ''3''] \<and> truncated page"
proof -
  let ?req = "\<lparr>limit = 3, since = None, before = None\<rparr>"
  have b: "parse_bound demo_time ''since'' (since ?req) = Ok None" "parse_bound demo_time ''before'' (before ?req) = Ok None"
    by (simp_all add: parse_bound_def)
  have "clamp 1 MAX_LIMIT 3 = 3" by (simp add: clamp_def MAX_LIMIT_def)
  moreover have "page_prefix 3 0 0 (trail demo_parse demo_time demo_files None None (newest demo_dir))
      = ([demo_event ''4'', demo_event ''3'', demo_event ''2''], Some (Some ''2''))"
    unfolding demo_trail by (simp add: MAX_BYTES_def event_time_def demo_event_def)
  moreover have "cut_page ([demo_event ''4'', demo_event ''3'', demo_event ''2''], Some (Some ''2'')) = [demo_event ''4'', demo_event ''3'']"
    by code_simp
  ultimately have "cut_page (page_prefix (clamp 1 MAX_LIMIT 3) 0 0 (trail demo_parse demo_time demo_files None None (newest demo_dir)))
      = [demo_event ''4'', demo_event ''3'']
    \<and> snd (page_prefix (clamp 1 MAX_LIMIT 3) 0 0 (trail demo_parse demo_time demo_files None None (newest demo_dir))) \<noteq> None"
    by simp
  then show ?thesis using page_is_newest_prefix [OF b, of demo_parse demo_dir demo_files] by auto
qed

text \<open>C27. Walking a trail backwards visits every event exactly once, on an orderly trail: the pond has no
  more batches than one call opens, the directory does not change during the walk, every event has a
  readable time, times never increase from newest to oldest, equal instants are written alike, and
  the events of one instant fit on a page. Then passing the oldest time received as the next exclusive \<open>before\<close> ends, within as many calls as
  there are events, with the whole trail, newest first, nothing skipped and nothing repeated.\<close>

theorem walk_back_visits_every_event:
  assumes "orderly pt lim (trail pj pt fs None None (newest es))" and "clamp 1 MAX_LIMIT lim = lim"
    and "length (batch_names es) \<le> MAX_FILES"
    and "length (trail pj pt fs None None (newest es)) \<le> n"
  shows "walk_back pj pt es fs lim n None = map fst (trail pj pt fs None None (newest es))"
  using walk_back_remaining [OF assms(1-3), of None None n] assms(4) by (simp add: parse_bound_def)

theorem walk_back_visits_every_event_witness:
  "walk_back demo_parse demo_time demo_dir demo_files 2 5 None = map demo_event [''4'', ''3'', ''2'', ''2'', ''1'']"
proof -
  let ?T = "trail demo_parse demo_time demo_files None None (newest demo_dir)"
  have tm: "event_time (demo_event s) = Some s" "time_of demo_time (demo_event [c]) = int (code c)" for s c
    by (simp_all add: demo_event_def event_time_def time_of_def demo_time_def)
  have "orderly demo_time 2 ?T" unfolding demo_trail orderly_def
    by (simp add: tm demo_time_def MAX_BYTES_def Let_def)
  moreover have "clamp 1 MAX_LIMIT 2 = 2" by (simp add: clamp_def MAX_LIMIT_def)
  ultimately show ?thesis
    using walk_back_visits_every_event [of demo_time 2 demo_parse demo_files demo_dir 5] demo_trail demo_dir_few by simp
qed

text \<open>Where the walk misses events. A run's start event carries the time the run began and
  is recorded next to its end, so a trail is not in time order once a long run ends after a
  short one; walking two events at a time over such a trail skips the short run altogether,
  although the reader promises that no event is skipped. And no walk ever reaches an event
  outside the newest batches one call opens, however old its cursor is.\<close>

lemma walk_back_misses_events:
  "walk_back demo_parse demo_time [Some ''1-a.jsonl''] (\<lambda>_. Lines [''5'', ''6'', ''1'', ''9''] False) 2 n None
     = (if n = 0 then [] else map demo_event [''9'', ''1''])
   \<and> map fst (trail demo_parse demo_time (\<lambda>_. Lines [''5'', ''6'', ''1'', ''9''] False) None None (newest [Some ''1-a.jsonl'']))
     = map demo_event [''9'', ''1'', ''6'', ''5'']
   \<and> set (walk_back pj pt es fs lim k cur) \<subseteq> fst ` set (trail pj pt fs None None (newest es))"
proof (intro conjI walk_back_subset)
  let ?fs = "\<lambda>_ :: string. Lines [''5'', ''6'', ''1'', ''9''] False" and ?es = "[Some ''1-a.jsonl''] :: string option list"
  let ?w = "walk_back demo_parse demo_time ?es ?fs 2"
  let ?req = "\<lambda>cur. \<lparr>limit = 2, since = None, before = cur\<rparr>"
  have bn: "batch_names ?es = [''1-a.jsonl'']" by code_simp
  then have few: "length (batch_names ?es) \<le> MAX_FILES" by (simp add: MAX_FILES_def)
  have T: "trail demo_parse demo_time ?fs None None (newest ?es) = map (\<lambda>s. (demo_event s, 1)) [''9'', ''1'', ''6'', ''5'']"
    unfolding newest_few [OF few] by code_simp
  have T1: "trail demo_parse demo_time ?fs None (Some 49) (newest ?es) = []"
    unfolding newest_few [OF few] by code_simp
  have lim: "clamp 1 MAX_LIMIT 2 = 2" by (simp add: clamp_def MAX_LIMIT_def)
  have pp: "page_prefix 2 0 0 (map (\<lambda>s. (demo_event s, 1)) [''9'', ''1'', ''6'', ''5'']) = (map demo_event [''9'', ''1''], Some (Some ''6''))"
    by (simp add: MAX_BYTES_def demo_event_def event_time_def)
  have cut: "cut_page (map demo_event [''9'', ''1''], Some (Some ''6'')) = map demo_event [''9'', ''1'']" by code_simp
  have r1: "\<exists>p. read_newest demo_parse demo_time (Ok ?es) ?fs (?req None) = Ok p
      \<and> page_events p = map demo_event [''9'', ''1''] \<and> truncated p"
    using read_newest_prefix [of demo_time "?req None" None None demo_parse ?es ?fs] lim pp cut
    by (simp add: parse_bound_def T)
  have r2: "\<exists>p. read_newest demo_parse demo_time (Ok ?es) ?fs (?req (Some ''1'')) = Ok p
      \<and> page_events p = [] \<and> \<not> truncated p"
    using read_newest_prefix [of demo_time "?req (Some ''1'')" None "Some 49" demo_parse ?es ?fs] few T1
    by (simp add: parse_bound_def demo_time_def cut_page_def)
  have old: "oldest_time demo_time (map demo_event [''9'', ''1'']) = Some ''1''" by code_simp
  have w2: "?w m (Some ''1'') = []" for m using r2 by (cases m) auto
  show "?w n None = (if n = 0 then [] else map demo_event [''9'', ''1''])"
  proof (cases n)
    case (Suc m)
    obtain p where "read_newest demo_parse demo_time (Ok ?es) ?fs (?req None) = Ok p"
      "page_events p = map demo_event [''9'', ''1'']" "truncated p" using r1 by blast
    then show ?thesis using old w2 [of m] Suc by simp
  qed simp
  show "map fst (trail demo_parse demo_time ?fs None None (newest ?es)) = map demo_event [''9'', ''1'', ''6'', ''5'']"
    by (simp add: T)
qed

end
