(* ===== verification/Lineage_Roundtrip.thy ===== *)
theory Lineage_Roundtrip
  imports Lineage_Writer Lineage_Paging
begin

text \<open>
  The writer and the reader of a lineage trail against each other: what a flush wrote
  (\<open>writer.rs\<close>) is what the next page holds (\<open>reader.rs\<close>), in front of what it held before.
\<close>

section \<open>The directory the writer leaves\<close>

definition stored :: "batch_files \<Rightarrow> string \<Rightarrow> batch_file" where
  "stored fs n = (case map_of fs n of None \<Rightarrow> Vanished | Some body \<Rightarrow> Lines (lines_of body) False)"

text \<open>A directory that holds these batch files and whatever else is no batch, listed in any order.\<close>

definition lists :: "string option list \<Rightarrow> batch_files \<Rightarrow> bool" where
  "lists es fs \<longleftrightarrow> mset (batch_names es) = mset (map fst fs)"

lemma lists_length: "lists es fs \<Longrightarrow> length (batch_names es) = length fs"
  unfolding lists_def by (metis length_map size_mset)

lemma newest_after_write:
  assumes "lists es fs" "lists es2 ((n, body) # fs)" "\<forall>m \<in> fst ` set fs. m < n" "length fs < MAX_FILES"
  shows "newest es2 = n # newest es \<and> length (batch_names es2) \<le> MAX_FILES"
proof -
  have m: "mset (batch_names es2) = add_mset n (mset (batch_names es))" using assms(1,2) by (simp add: lists_def)
  have "set (batch_names es) = fst ` set fs" using assms(1) by (metis list.set_map lists_def set_mset_mset)
  then have "sorted (sort (batch_names es) @ [n])" using assms(3) by (auto simp: sorted_append)
  moreover have "mset (sort (batch_names es) @ [n]) = mset (batch_names es2)" by (simp add: m)
  ultimately have "sort (batch_names es2) = sort (batch_names es) @ [n]" by (metis properties_for_sort)
  moreover have "length (batch_names es2) \<le> MAX_FILES" "length (batch_names es) \<le> MAX_FILES"
    using lists_length [OF assms(1)] lists_length [OF assms(2)] assms(4) by simp_all
  ultimately show ?thesis by (simp add: newest_few)
qed

section \<open>Malformed lines\<close>

definition malformed_in :: "(string \<Rightarrow> Value option) \<Rightarrow> batch_file \<Rightarrow> nat" where
  "malformed_in pj f = (case f of Lines ls _ \<Rightarrow> length (filter (\<lambda>l. trim l \<noteq> [] \<and> pj (trim l) = None) ls) | _ \<Rightarrow> 0)"

lemma tail_loop_malformed:
  "snd (snd (tail_loop pj pt need lo hi ls r b dr bad)) = bad + length (filter (\<lambda>l. trim l \<noteq> [] \<and> pj (trim l) = None) ls)"
  by (induction ls arbitrary: r b dr bad) (auto simp: Let_def split: option.split prod.split)

lemma read_files_malformed:
  assumes "read_files pj pt fs lim lo hi ns page b = (page', None)"
  shows "malformed_lines page' = malformed_lines page + sum_list (map (malformed_in pj \<circ> fs) ns)"
  using assms
proof (induction ns arbitrary: page b)
  case (Cons n ns)
  show ?case
  proof (cases "fs n")
    case (Lines ls torn)
    obtain r dr bad where tl: "tail_loop pj pt (lim - length (page_events page) + 1) lo hi ls [] 0 None 0 = (r, dr, bad)"
      by (metis prod_cases3)
    have bad: "bad = malformed_in pj (fs n)"
      using tail_loop_malformed [of pj pt "lim - length (page_events page) + 1" lo hi ls "[]" 0 None 0] unfolding tl
      by (simp add: Lines malformed_in_def)
    obtain evs b' ex where tk: "take_ring lim (rev r) (page_events page) b = (evs, b', ex)" by (metis prod_cases3)
    define q where "q = page\<lparr>malformed_lines := malformed_lines page + bad,
                  unreadable_files := unreadable_files page + (if torn then 1 else 0)\<rparr>"
    have q: "page_events q = page_events page" "malformed_lines q = malformed_lines page + bad" by (simp_all add: q_def)
    have rt: "read_tail pj pt (lim - length (page_events page) + 1) lo hi (fs n) page = (Some \<lparr>ring = r, newest_dropped = dr\<rparr>, q)"
      unfolding read_tail_def Lines batch_file.case tl prod.case q_def ..
    have none: "ex = None" "dr = None" using Cons.prems unfolding read_files.simps rt by (auto simp: q tk split: option.splits)
    have "read_files pj pt fs lim lo hi ns (q\<lparr>page_events := evs\<rparr>) b' = (page', None)"
      using Cons.prems unfolding read_files.simps rt by (simp add: q tk none)
    from Cons.IH [OF this] show ?thesis by (simp add: q bad)
  qed (use Cons in \<open>auto simp: read_tail_def malformed_in_def\<close>)
qed simp

lemma read_newest_untruncated:
  assumes "length (batch_names es) \<le> MAX_FILES"
    and "read_newest pj pt (Ok es) fs \<lparr>limit = lim, since = None, before = None\<rparr> = Ok page" "\<not> truncated page"
  shows "page_events page = map fst (trail pj pt fs None None (newest es))"
    and "malformed_lines page = sum_list (map (malformed_in pj \<circ> fs) (newest es))"
proof -
  let ?lim = "clamp 1 MAX_LIMIT lim" and ?T = "trail pj pt fs None None (newest es)"
  let ?p0 = "\<lparr>page_events = [], truncated = False, malformed_lines = 0, unreadable_files = 0\<rparr>"
  have b: "parse_bound pt x None = Ok None" for x by (simp add: parse_bound_def)
  obtain evs ex where pp: "page_prefix ?lim 0 0 ?T = (evs, ex)" by fastforce
  have r: "page_events page = cut_page (evs, ex)" "ex = None"
    using read_newest_prefix [of pt "\<lparr>limit = lim, since = None, before = None\<rparr>" None None pj es fs] assms pp by (auto simp: b)
  moreover from r(2) have "evs = map fst ?T" using page_prefix_take [OF pp] by (metis order_refl take_all_iff)
  ultimately show "page_events page = map fst ?T" by (simp add: cut_page_def)
  obtain page' ex' where rf: "read_files pj pt fs ?lim None None (newest es) ?p0 0 = (page', ex')" by fastforce
  have "ex' = None" using read_files_prefix [of ?p0 ?lim pj pt fs None None "newest es" 0 page' ex' evs ex] rf pp r(2)
    by (simp add: trail_def)
  moreover from this have "page = page'"
    using assms rf by (simp add: read_newest_def b newest_names_eq newest_def [symmetric])
  ultimately show "malformed_lines page = sum_list (map (malformed_in pj \<circ> fs) (newest es))"
    using read_files_malformed [of pj pt fs ?lim None None "newest es" ?p0 0 page'] rf by simp
qed

lemma read_newest_fits:
  assumes "length (batch_names es) \<le> MAX_FILES"
    and "length (trail pj pt fs None None (newest es)) \<le> clamp 1 MAX_LIMIT lim"
    and "bytes_of (trail pj pt fs None None (newest es)) \<le> MAX_BYTES"
  obtains page where "read_newest pj pt (Ok es) fs \<lparr>limit = lim, since = None, before = None\<rparr> = Ok page" "\<not> truncated page"
    "page_events page = map fst (trail pj pt fs None None (newest es))"
    "malformed_lines page = sum_list (map (malformed_in pj \<circ> fs) (newest es))"
proof -
  let ?T = "trail pj pt fs None None (newest es)" and ?req = "\<lparr>limit = lim, since = None, before = None\<rparr>"
  obtain evs ex where pp: "page_prefix (clamp 1 MAX_LIMIT lim) 0 0 ?T = (evs, ex)" by fastforce
  have "ex = None" using page_prefix_complete [OF pp, of "length ?T"] page_prefix_take [OF pp] assms(2,3) by auto
  moreover obtain page where page: "read_newest pj pt (Ok es) fs ?req = Ok page"
    "truncated page \<longleftrightarrow> MAX_FILES < length (batch_names es) \<or> snd (page_prefix (clamp 1 MAX_LIMIT lim) 0 0 ?T) \<noteq> None"
    using read_newest_prefix [of pt ?req None None pj es fs] by (auto simp: parse_bound_def)
  ultimately have "\<not> truncated page" using pp assms(1) by simp
  then show ?thesis using that [OF page(1)] read_newest_untruncated [OF assms(1) page(1)] by blast
qed

section \<open>A flushed batch\<close>

text \<open>An event whose JSON text is one trimmed, non-empty line that parses back.\<close>

definition round_trips :: "(Value \<Rightarrow> string option) \<Rightarrow> (string \<Rightarrow> Value option) \<Rightarrow> Value \<Rightarrow> bool" where
  "round_trips ser pj e \<longleftrightarrow> (\<exists>l. ser e = Some l \<and> l \<noteq> [] \<and> plain_line l \<and> trim l = l \<and> pj l = Some e)"

lemma round_trips_lines:
  assumes "\<forall>e \<in> set evs. round_trips ser pj e"
  shows "map fst (file_matches pj pt None None (List.map_filter ser evs)) = evs"
    and "malformed_in pj (Lines (List.map_filter ser evs) False) = 0" and "\<forall>l \<in> set (List.map_filter ser evs). plain_line l"
    and "List.map_filter ser evs = [] \<longleftrightarrow> evs = []" and "length (List.map_filter ser evs) = length evs"
  using assms by (induction evs) (auto simp: round_trips_def map_filter_simps malformed_in_def)

lemma flush_writes:
  assumes "dir w = Some d" "\<not> poisoned w" "buf_events (buffer w) = List.map_filter ser evs0"
    and "evs0 @ evs \<noteq> []" "length (evs0 @ evs) \<le> lw_capacity w" "\<forall>e \<in> set (evs0 @ evs). round_trips ser pj e"
    and "buffer_all ser evs w = (due, w1, sent)" "flush Written millis uuid (w1, fs) = (w2, fs2)"
  shows "fs2 = (batch_name millis uuid, batch_body (List.map_filter ser (evs0 @ evs))) # fs" "buf_events (buffer w2) = []"
proof -
  let ?ls = "List.map_filter ser (evs0 @ evs)"
  have ls: "?ls \<noteq> []" "length ?ls = length (evs0 @ evs)" "?ls = List.map_filter ser evs0 @ List.map_filter ser evs"
    using round_trips_lines(4,5) [OF assms(6)] assms(4) by (auto simp: List.map_filter_def)
  have "buf_events (enforce_capacity w ((buffer w)\<lparr>buf_events := ?ls\<rparr>)) = ?ls"
    using assms(5) ls(2) by (simp add: enforce_capacity_def)
  then have w1: "buf_events (buffer w1) = ?ls" "dir w1 = Some d" "\<not> poisoned w1"
    using assms(1-3,7) ls(3) by (auto simp: buffer_all_def Let_def map_filter_simps split: if_splits)
  show "fs2 = (batch_name millis uuid, batch_body ?ls) # fs" "buf_events (buffer w2) = []"
    using assms(8) w1 ls(1) by (auto simp: flush_def take_batch_def write_or_requeue_def write_batch_def)
qed

section \<open>Property\<close>

text \<open>C26. What is flushed is read back through the reader itself: after events are buffered, behind those
  already waiting, and the batch is written under a name newer than the others, a page of the
  directory, listed in any order and with any other entries, gives the flushed events as they were
  recorded, newest first, followed by exactly the page the directory gave before, neither truncated
  nor with a new malformed line; the buffer is empty. This is for events whose JSON text is one
  trimmed line that parses back, a buffer within its capacity and a trail that fits on one page.\<close>

theorem flushed_events_are_read_back:
  assumes "dir w = Some d" "\<not> poisoned w" "buf_events (buffer w) = List.map_filter ser evs0"
    and "evs0 @ evs \<noteq> []" "length (evs0 @ evs) \<le> lw_capacity w" "\<forall>e \<in> set (evs0 @ evs). round_trips ser pj e"
    and "buffer_all ser evs w = (due, w1, sent)" "flush Written millis uuid (w1, fs) = (w2, fs2)"
    and "\<forall>n \<in> fst ` set fs. n < batch_name millis uuid" "length fs < MAX_FILES" "lists es fs" "lists es2 fs2"
    and "length (trail pj pt (stored fs2) None None (newest es2)) \<le> clamp 1 MAX_LIMIT lim"
    and "bytes_of (trail pj pt (stored fs2) None None (newest es2)) \<le> MAX_BYTES"
  shows "\<exists>page page2. read_newest pj pt (Ok es) (stored fs) \<lparr>limit = lim, since = None, before = None\<rparr> = Ok page
    \<and> read_newest pj pt (Ok es2) (stored fs2) \<lparr>limit = lim, since = None, before = None\<rparr> = Ok page2
    \<and> page_events page2 = rev (evs0 @ evs) @ page_events page \<and> \<not> truncated page2
    \<and> malformed_lines page2 = malformed_lines page \<and> buf_events (buffer w2) = []"
proof -
  let ?n = "batch_name millis uuid" and ?ls = "List.map_filter ser (evs0 @ evs)"
  note fw = flush_writes [OF assms(1-8)] and rt = round_trips_lines [OF assms(6)]
  have l2: "lists es2 ((?n, batch_body ?ls) # fs)" using assms(12) by (simp only: fw)
  note nw = newest_after_write [OF assms(11) l2 assms(9,10)]
  have few: "length (batch_names es) \<le> MAX_FILES" using lists_length [OF assms(11)] assms(10) by simp
  have "lines_of (batch_body ?ls) = ?ls" using lines_of_body [OF _ rt(3)] rt(4) assms(4) by blast
  then have here: "stored fs2 ?n = Lines ?ls False" by (simp add: stored_def fw(1))
  have "?n \<notin> set (newest es)"
    using assms(9,11) set_take_subset [of MAX_FILES "rev (sort (batch_names es))"] unfolding newest_def lists_def
    by (metis less_irrefl list.set_map set_mset_mset set_rev set_sort subsetD)
  then have old: "map (g \<circ> stored fs2) (newest es) = map (g \<circ> stored fs) (newest es)" for g :: "batch_file \<Rightarrow> 'z"
    by (auto simp: stored_def fw(1))
  have tr: "trail pj pt (stored fs2) None None (newest es2) = newest_first pj pt None None (Lines ?ls False) @ trail pj pt (stored fs) None None (newest es)"
    unfolding trail_def old [symmetric] using nw here by simp
  have nf: "map fst (newest_first pj pt None None (Lines ?ls False)) = rev (evs0 @ evs)"
    using rt(1) by (simp add: newest_first_def rev_map [symmetric])
  obtain page where p: "read_newest pj pt (Ok es) (stored fs) \<lparr>limit = lim, since = None, before = None\<rparr> = Ok page"
    "page_events page = map fst (trail pj pt (stored fs) None None (newest es))"
    "malformed_lines page = sum_list (map (malformed_in pj \<circ> stored fs) (newest es))"
    using read_newest_fits [OF few, of pj pt "stored fs" lim] assms(13,14) unfolding tr by auto
  obtain page2 where p2: "read_newest pj pt (Ok es2) (stored fs2) \<lparr>limit = lim, since = None, before = None\<rparr> = Ok page2" "\<not> truncated page2"
    "page_events page2 = map fst (trail pj pt (stored fs2) None None (newest es2))"
    "malformed_lines page2 = sum_list (map (malformed_in pj \<circ> stored fs2) (newest es2))"
    using read_newest_fits [OF _ assms(13,14)] nw by blast
  have "malformed_lines page2 = malformed_lines page" using p(3) p2(4) nw here old [of "malformed_in pj"] rt(2) by simp
  then show ?thesis using p p2 nf fw(2) unfolding tr by (metis map_append)
qed

text \<open>A pond's second batch, written over an entry waiting in the buffer, and read with the first.\<close>

definition demo_writer :: LineageWriter where
  "demo_writer = (with_limits ''/p'' 5 9)\<lparr>buffer := \<lparr>buf_events = [''b''], overflowing = False\<rparr>\<rparr>"

theorem flushed_events_are_read_back_witness:
  "let w1 = fst (snd (buffer_all demo_line [JString ''c''] demo_writer)); fs = [(batch_name 3 ''t'', ''a'' @ [newline])];
       fs2 = snd (flush Written 7 ''u'' (w1, fs));
       es2 = [Some (batch_name 7 ''u''), Some ''.tmp-v'', None, Some (batch_name 3 ''t'')]
   in \<exists>page2. read_newest (\<lambda>l. Some (JString l)) (\<lambda>_. None) (Ok es2) (stored fs2) \<lparr>limit = 10, since = None, before = None\<rparr> = Ok page2
        \<and> page_events page2 = [JString ''c'', JString ''b'', JString ''a''] \<and> \<not> truncated page2"
proof -
  let ?pj = "\<lambda>l. Some (JString l)" and ?pt = "\<lambda>_ :: string. None :: int option" and ?fs = "[(batch_name 3 ''t'', ''a'' @ [newline])]"
  let ?w1 = "fst (snd (buffer_all demo_line [JString ''c''] demo_writer))"
  let ?fs2 = "snd (flush Written 7 ''u'' (?w1, ?fs))" and ?es = "[Some (batch_name 3 ''t'')]"
  let ?es2 = "[Some (batch_name 7 ''u''), Some ''.tmp-v'', None, Some (batch_name 3 ''t'')]"
  have t: "trim ''b'' = ''b''" "trim ''c'' = ''c''" by code_simp+
  have rt: "\<forall>e \<in> set ([JString ''b''] @ [JString ''c'']). round_trips demo_line ?pj e"
    using t by (simp add: round_trips_def demo_line_def plain_line_def)
  have w: "dir demo_writer = Some ''/p''" "\<not> poisoned demo_writer" "buf_events (buffer demo_writer) = List.map_filter demo_line [JString ''b'']"
    "length ([JString ''b''] @ [JString ''c'']) \<le> lw_capacity demo_writer"
    by (simp_all add: demo_writer_def with_limits_def starts_with_def map_filter_simps demo_line_def)
  obtain due w1 sent where b: "buffer_all demo_line [JString ''c''] demo_writer = (due, w1, sent)" by (metis prod_cases3)
  obtain w2 fs2 where f: "flush Written 7 ''u'' (w1, ?fs) = (w2, fs2)" by fastforce
  have eq: "?w1 = w1" using b by simp
  have n: "batch_name 3 ''t'' = ''0000000000003-t.jsonl''" "batch_name 7 ''u'' = ''0000000000007-u.jsonl''" by code_simp+
  have fs2: "fs2 = [(batch_name 7 ''u'', batch_body [''b'', ''c'']), (batch_name 3 ''t'', ''a'' @ [newline])]"
    using flush_writes(1) [OF w(1-3) _ w(4) rt b f] by (simp add: map_filter_simps demo_line_def)
  have tmp: "\<not> is_batch_name ''.tmp-v''" by code_simp
  have lst: "lists ?es ?fs" "lists ?es2 fs2" 
    using is_batch_name_batch_name [of 3 "''t''"] is_batch_name_batch_name [of 7 "''u''"] tmp by (simp_all add: lists_def fs2)
  have nw: "newest ?es2 = [batch_name 7 ''u'', batch_name 3 ''t'']" "newest ?es = [batch_name 3 ''t'']"
    unfolding n by (code_simp)+
  have "lines_of (''a'' @ [newline]) = [''a'']" "lines_of (batch_body [''b'', ''c'']) = [''b'', ''c'']" by code_simp+
  then have st: "stored fs2 (batch_name 7 ''u'') = Lines [''b'', ''c''] False" "stored fs2 (batch_name 3 ''t'') = Lines [''a''] False"
    "stored ?fs (batch_name 3 ''t'') = Lines [''a''] False" unfolding n fs2 by (simp_all add: stored_def)
  have ta: "trim ''a'' = ''a''" by code_simp
  have tr: "trail ?pj ?pt (stored fs2) None None (newest ?es2) = [(JString ''c'', 1), (JString ''b'', 1), (JString ''a'', 1)]"
    "trail ?pj ?pt (stored ?fs) None None (newest ?es) = [(JString ''a'', 1)]"
    unfolding nw by (simp_all add: trail_def st st(3) [simplified] newest_first_def t ta)
  have small: "length (trail ?pj ?pt (stored fs2) None None (newest ?es2)) \<le> clamp 1 MAX_LIMIT 10"
    "bytes_of (trail ?pj ?pt (stored fs2) None None (newest ?es2)) \<le> MAX_BYTES"
    unfolding tr by (simp_all add: clamp_def MAX_LIMIT_def MAX_BYTES_def)
  have lt: "\<forall>m \<in> fst ` set ?fs. m < batch_name 7 ''u''" unfolding n by simp
  have "length ?fs < MAX_FILES" by (simp add: MAX_FILES_def)
  from flushed_events_are_read_back [OF w(1-3) _ w(4) rt b f lt this lst small] obtain page page2 where
    p: "read_newest ?pj ?pt (Ok ?es) (stored ?fs) \<lparr>limit = 10, since = None, before = None\<rparr> = Ok page"
    "read_newest ?pj ?pt (Ok ?es2) (stored fs2) \<lparr>limit = 10, since = None, before = None\<rparr> = Ok page2"
    "page_events page2 = rev ([JString ''b''] @ [JString ''c'']) @ page_events page" "\<not> truncated page2" by blast
  have "length (batch_names ?es) \<le> MAX_FILES" "length (trail ?pj ?pt (stored ?fs) None None (newest ?es)) \<le> clamp 1 MAX_LIMIT 10"
    "bytes_of (trail ?pj ?pt (stored ?fs) None None (newest ?es)) \<le> MAX_BYTES"
    unfolding tr by (simp_all add: clamp_def MAX_LIMIT_def MAX_BYTES_def MAX_FILES_def)
  from read_newest_fits [OF this] have "page_events page = [JString ''a'']"
    using p(1) unfolding tr by (metis (no_types, lifting) list.simps(8,9) fst_conv sum.inject(2))
  then have "page_events page2 = [JString ''c'', JString ''b'', JString ''a'']" using p(3) by simp
  then show ?thesis unfolding Let_def eq f snd_conv using p(2,4) by blast
qed

end
