(* ===== verification/Storage.thy ===== *)
theory Storage
  imports Policy
begin

text \<open>
  Pond storage on the node's own file system (\<open>latiq-storage/src\<close>): where a pond's files live
  and the five operations of the backend. The file system is the set of directories that exist
  below the root, as paths; creating or removing a tree may fail, which the environment decides.
  A pond directory's contents beyond its subdirectories belong to the engine and are not
  modelled: removing a directory removes what is below it.
\<close>

section \<open>Model\<close>

record PondLocation =
  catalog_uri :: string
  data_path :: string
  catalog_name :: string
  limits :: "ResourceLimits option"
  loc_extensions :: "string list"
  loc_lineage :: bool
  lineage_dir :: string

datatype StorageError = S_AlreadyExists string | S_NotFound string | S_Io string

definition storage_error_text :: "StorageError \<Rightarrow> string" where
  "storage_error_text e = (case e of
      S_AlreadyExists i \<Rightarrow> ''pond already exists: '' @ i
    | S_NotFound i \<Rightarrow> ''pond not found: '' @ i
    | S_Io m \<Rightarrow> ''io error: '' @ m)"

text \<open>A directory is the list of its components below the root.\<close>

type_synonym fs = "string list set"

definition pond_dir :: "string \<Rightarrow> string list" where
  "pond_dir i = [i]"

definition lineage_path :: "string \<Rightarrow> string list" where
  "lineage_path i = pond_dir i @ [''lineage'']"

definition display :: "string \<Rightarrow> string list \<Rightarrow> string" where
  "display root p = concat (root # map (\<lambda>c. ''/'' @ c) p)"

definition location_for :: "string \<Rightarrow> string \<Rightarrow> PondLocation" where
  "location_for root i =
     \<lparr>catalog_uri = ''ducklake:duckdb:'' @ display root (pond_dir i @ [''catalog.duckdb'']),
      data_path = display root (pond_dir i @ [''data'']), catalog_name = ''pond'', limits = None,
      loc_extensions = [], loc_lineage = False, lineage_dir = display root (lineage_path i)\<rparr>"

text \<open>\<open>create_dir_all\<close> makes the directory and its ancestors; \<open>remove_dir_all\<close> removes it and
  everything below. A failing call is given the error text; it is taken to change nothing.\<close>

definition create_dir_all :: "string option \<Rightarrow> string list \<Rightarrow> fs \<Rightarrow> (string, unit) result \<times> fs" where
  "create_dir_all io p s = (case io of Some e \<Rightarrow> (Err e, s)
     | None \<Rightarrow> (Ok (), s \<union> set (tl (prefixes p))))"

definition remove_dir_all :: "string option \<Rightarrow> string list \<Rightarrow> fs \<Rightarrow> (string, unit) result \<times> fs" where
  "remove_dir_all io p s = (case io of Some e \<Rightarrow> (Err e, s) | None \<Rightarrow> (Ok (), Set.filter (\<lambda>q. take (length p) q \<noteq> p) s))"

definition pond_exists :: "string \<Rightarrow> fs \<Rightarrow> bool" where
  "pond_exists i s \<longleftrightarrow> pond_dir i \<in> s"

definition create_lineage_dir :: "string option \<Rightarrow> string \<Rightarrow> fs \<Rightarrow> (StorageError, unit) result \<times> fs" where
  "create_lineage_dir io i s =
     (if lineage_path i \<in> s then (Ok (), s)
      else case create_dir_all io (lineage_path i) s of (r, s') \<Rightarrow> (map_err S_Io r, s'))"

text \<open>The environment's answers to the two directories a create makes: \<open>data\<close>, then \<open>lineage\<close>.\<close>

definition storage_create :: "string \<Rightarrow> string option \<times> string option \<Rightarrow> string \<Rightarrow> bool \<Rightarrow> fs \<Rightarrow> (StorageError, PondLocation) result \<times> fs" where
  "storage_create root io i lin s =
     (if pond_dir i \<in> s then (Err (S_AlreadyExists i), s)
      else case create_dir_all (fst io) (pond_dir i @ [''data'']) s of
        (Inl e, s') \<Rightarrow> (Err (S_Io e), s')
      | (Inr _, s') \<Rightarrow>
          if lin then (case create_lineage_dir (snd io) i s' of
              (Inl e, s'') \<Rightarrow> (Err e, s'') | (Inr _, s'') \<Rightarrow> (Ok (location_for root i), s''))
          else (Ok (location_for root i), s'))"

definition storage_location :: "string \<Rightarrow> string \<Rightarrow> fs \<Rightarrow> (StorageError, PondLocation) result" where
  "storage_location root i s = (if pond_exists i s then Ok (location_for root i) else Err (S_NotFound i))"

definition storage_ensure :: "string \<Rightarrow> string option \<times> string option \<Rightarrow> string \<Rightarrow> bool \<Rightarrow> fs \<Rightarrow> (StorageError, PondLocation) result \<times> fs" where
  "storage_ensure root io i lin s =
     (if pond_exists i s
      then (if lin then (case create_lineage_dir (snd io) i s of
              (Inl e, s') \<Rightarrow> (Err e, s') | (Inr _, s') \<Rightarrow> (Ok (location_for root i), s'))
            else (Ok (location_for root i), s))
      else storage_create root io i lin s)"

definition storage_drop :: "string option \<Rightarrow> string \<Rightarrow> fs \<Rightarrow> (StorageError, unit) result \<times> fs" where
  "storage_drop io i s =
     (if pond_dir i \<notin> s then (Err (S_NotFound i), s)
      else case remove_dir_all io (pond_dir i) s of (r, s') \<Rightarrow> (map_err S_Io r, s'))"

section \<open>Facts\<close>

lemmas storage_ops = storage_create_def storage_ensure_def storage_drop_def storage_location_def
  create_lineage_dir_def create_dir_all_def remove_dir_all_def pond_exists_def

lemma prefixes_of_pair: "set (tl (prefixes [i, d])) = {[i], [i, d]}"
  by simp

lemma storage_ensure_ok:
  "storage_ensure root (None, None) i lin s =
     (Ok (location_for root i), s \<union> (if pond_dir i \<in> s then {} else {[i], [i, ''data'']})
        \<union> (if lin then {[i], [i, ''lineage'']} else {}))"
  by (auto simp: storage_ops lineage_path_def pond_dir_def prefixes_of_pair)

section \<open>Properties\<close>

text \<open>Ensuring a pond's storage is idempotent and touches nothing else: when no file
  operation fails it succeeds with the pond's own location, the pond's directory exists after
  it and its lineage directory exactly when lineage is on or it was there, a second call changes
  nothing whatever the file system answers, and no other pond's directories appear or go.
  Dropping removes the pond with its lineage and nothing else, and is refused for a pond that
  is not there.\<close>

lemma storage_lifecycle:
  "let s1 = snd (storage_ensure root (None, None) i lin s); s2 = snd (storage_drop None i s1)
   in fst (storage_ensure root (None, None) i lin s) = Ok (location_for root i)
    \<and> pond_exists i s1 \<and> (lineage_path i \<in> s1 \<longleftrightarrow> lin \<or> lineage_path i \<in> s)
    \<and> storage_ensure root io i lin s1 = (Ok (location_for root i), s1)
    \<and> storage_location root i s1 = Ok (location_for root i)
    \<and> fst (storage_drop None i s1) = Ok () \<and> storage_location root i s2 = Err (S_NotFound i)
    \<and> lineage_path i \<notin> s2 \<and> fst (storage_drop io' i s2) = Err (S_NotFound i)
    \<and> (j = i \<or> (j # p \<in> s1 \<longleftrightarrow> j # p \<in> s) \<and> (j # p \<in> s2 \<longleftrightarrow> j # p \<in> s))"
proof -
  define s1 where "s1 = snd (storage_ensure root (None, None) i lin s)"
  define s2 where "s2 = snd (storage_drop None i s1)"
  have s1: "s1 = s \<union> (if pond_dir i \<in> s then {} else {[i], [i, ''data'']}) \<union> (if lin then {[i], [i, ''lineage'']} else {})"
    by (simp add: s1_def storage_ensure_ok)
  have mem: "pond_dir i \<in> s1" "lineage_path i \<in> s1 \<longleftrightarrow> lin \<or> lineage_path i \<in> s" by (auto simp: s1 pond_dir_def lineage_path_def)
  have s2: "q \<in> s2 \<longleftrightarrow> q \<in> s1 \<and> take 1 q \<noteq> [i]" for q
    using mem by (simp add: s2_def storage_drop_def remove_dir_all_def pond_dir_def)
  have "storage_ensure root io i lin s1 = (Ok (location_for root i), s1)"
    using mem by (simp add: storage_ops)
  moreover have "storage_location root i s1 = Ok (location_for root i)" "storage_location root i s2 = Err (S_NotFound i)"
    using mem by (simp_all add: storage_location_def pond_exists_def s2 pond_dir_def)
  moreover have "fst (storage_drop None i s1) = Ok ()" "fst (storage_drop io' i s2) = Err (S_NotFound i)"
    using mem by (simp_all add: storage_drop_def remove_dir_all_def s2 pond_dir_def)
  moreover have "lineage_path i \<notin> s2" by (simp add: s2 lineage_path_def pond_dir_def)
  moreover have "j = i \<or> (j # p \<in> s1 \<longleftrightarrow> j # p \<in> s) \<and> (j # p \<in> s2 \<longleftrightarrow> j # p \<in> s)" by (auto simp: s2 s1)
  moreover have "fst (storage_ensure root (None, None) i lin s) = Ok (location_for root i)" by (simp add: storage_ensure_ok)
  ultimately show ?thesis
    using mem by (simp add: Let_def pond_exists_def flip: s1_def s2_def)
qed

end
