(* ===== verification/Agent_Types.thy ===== *)
theory Agent_Types
  imports Admin_Service Storage Lineage_Reader
begin

text \<open>
  The neutral types the node's operations pass around (\<open>latiq-common/src/meta.rs\<close>,
  \<open>latiq-engine/src/result.rs\<close>, \<open>latiq-agent-core/src/types.rs\<close>) and the in-process control
  plane (\<open>registry_control.rs\<close>), which answers the node straight from the registry. A dataset
  or catalog as the node sees it has the fields of the registry's row, which is used for both.
\<close>

section \<open>Query metadata (meta.rs, result.rs)\<close>

datatype WarningKind = Performance | Portability | SchemaHygiene | ResultHygiene

record Warning =
  w_kind :: WarningKind
  w_message :: string

record DatasetField =
  df_name :: string
  df_type_name :: string

record DatasetRef =
  dr_namespace :: "string option"
  dr_name :: string
  dr_version :: "int option"
  dr_fields :: "DatasetField list"

definition dataset_table :: "string \<Rightarrow> string \<Rightarrow> string \<Rightarrow> DatasetRef" where
  "dataset_table catalog schema tbl =
     \<lparr>dr_namespace = None, dr_name = catalog @ ''.'' @ schema @ ''.'' @ tbl, dr_version = None, dr_fields = []\<rparr>"

text \<open>\<open>str::split_once\<close> on a string: before and after its first occurrence.\<close>

fun split_once_str :: "string \<Rightarrow> string \<Rightarrow> (string \<times> string) option" where
  "split_once_str sep [] = (if sep = [] then Some ([], []) else None)"
| "split_once_str sep (c # cs) =
     (if starts_with (c # cs) sep then Some ([], drop (length sep) (c # cs))
      else map_option (\<lambda>(a, b). (c # a, b)) (split_once_str sep cs))"

definition dataset_external :: "string \<Rightarrow> DatasetRef" where
  "dataset_external uri =
     (let (namespace, name) = (case split_once_str ''://'' uri of
        Some (scheme, rest) \<Rightarrow>
          (if scheme = ''file'' then (''file'', rest)
           else case split_once_str ''/'' rest of
             Some (authority, path) \<Rightarrow> (scheme @ ''://'' @ authority, path)
           | None \<Rightarrow> (scheme @ ''://'' @ rest, uri))
      | None \<Rightarrow> (''file'', uri))
      in \<lparr>dr_namespace = Some namespace, dr_name = name, dr_version = None, dr_fields = []\<rparr>)"

record QueryMeta =
  qm_rows :: nat
  rows_affected :: nat
  snapshot_id :: "int option"
  qm_duration_ms :: nat
  timeout_ms :: "64 word"
  bytes_scanned :: nat
  tables_touched :: "string list"
  inputs :: "DatasetRef list"
  outputs :: "DatasetRef list"
  qm_warnings :: "Warning list"
  qm_hint :: "string option"
  served_by :: string
  qm_trace_id :: string
  qm_traceparent :: string

definition meta_default :: QueryMeta where
  "meta_default = \<lparr>qm_rows = 0, rows_affected = 0, snapshot_id = None, qm_duration_ms = 0, timeout_ms = 0,
     bytes_scanned = 0, tables_touched = [], inputs = [], outputs = [], qm_warnings = [], qm_hint = None,
     served_by = [], qm_trace_id = [], qm_traceparent = []\<rparr>"

definition set_datasets :: "DatasetRef list \<Rightarrow> DatasetRef list \<Rightarrow> QueryMeta \<Rightarrow> QueryMeta" where
  "set_datasets ins outs m =
     m\<lparr>tables_touched := dedup (map dr_name (outs @ ins)), inputs := ins, outputs := outs\<rparr>"

record QueryResult =
  qr_columns :: "string list"
  qr_rows :: "Value list list"
  qr_meta :: QueryMeta

record ScanOp =
  so_table :: string
  scan_type :: string
  estimated_rows_scanned :: nat
  so_source :: string

record ExplainResult =
  estimated_rows :: nat
  scan_operations :: "ScanOp list"
  er_warnings :: "string list"
  er_suggestions :: "string list"
  raw_plan :: string

record TableInfo =
  ti_name :: string
  ti_columns :: "(string \<times> string) list"
  row_count_estimate :: nat
  ti_comment :: "string option"

type_synonym SchemaSummary = "TableInfo list"

section \<open>What an operation returns (types.rs)\<close>

record PondInfo =
  pi_pond_id :: string
  pi_name :: string
  pi_owner :: string
  pi_created_at :: int
  pi_policy_json :: string
  pi_node_id :: "string option"
  pi_node_endpoint :: "string option"
  pi_tier :: string
  pi_extensions :: "string list"
  pi_description :: string
  pi_lineage :: bool

record AllocateResult =
  al_pond_id :: string
  al_pond_name :: string

record LoadDatasetResult =
  ld_dataset :: string
  ld_schema :: string
  ld_tables :: "string list"

record PullResult =
  pr_catalog :: string
  pr_query :: string

record LineagePage =
  lp_pond_id :: string
  lp_pond_name :: string
  lp_lineage_dir :: string
  lp_events :: "Value list"
  limit_applied :: nat
  lp_truncated :: bool
  lp_malformed_lines :: nat
  lp_unreadable_files :: nat

record DescribeResult =
  de_pond :: PondInfo
  de_schema :: SchemaSummary

type_synonym DatasetInfo = DatasetRow
type_synonym CatalogInfo = CatalogRow

section \<open>The registry as a control plane (registry\_control.rs)\<close>

definition cp_err :: "ControlPlaneError \<Rightarrow> AgentError" where
  "cp_err e = cp_envelope e"

definition to_info :: "PondRow \<times> int \<times> string \<times> string option \<Rightarrow> PondInfo" where
  "to_info x = (case x of (row, created_at, policy_json, node_endpoint) \<Rightarrow>
     \<lparr>pi_pond_id = pond_id row, pi_name = pond_name row, pi_owner = owner_identity row, pi_created_at = created_at,
      pi_policy_json = policy_json, pi_node_id = (if node_id row = [] then None else Some (node_id row)),
      pi_node_endpoint = node_endpoint, pi_tier = tier row, pi_extensions = extensions row,
      pi_description = description row, pi_lineage = lineage row\<rparr>)"

definition rc_pond_info :: "fault \<Rightarrow> registry \<Rightarrow> string \<Rightarrow> (AgentError, PondInfo) result" where
  "rc_pond_info f r ref = map_err cp_err (map_ok to_info (fst (pond_info f ref r)))"

definition rc_resolve_pond :: "fault \<Rightarrow> registry \<Rightarrow> string \<Rightarrow> (AgentError, string) result" where
  "rc_resolve_pond f r ref = map_err cp_err (map_ok (\<lambda>(row, _). pond_id row) (fst (pond_info f ref r)))"

text \<open>\<open>create_pond\<close> inserts the row, then reads it back.\<close>

definition rc_create_pond :: "fault \<Rightarrow> fault \<Rightarrow> int \<Rightarrow> string \<Rightarrow> nat \<Rightarrow> string option \<Rightarrow> string \<Rightarrow> string \<Rightarrow> string
    \<Rightarrow> string list \<Rightarrow> bool \<Rightarrow> registry \<Rightarrow> (AgentError, PondInfo) result \<times> registry" where
  "rc_create_pond f g now uuid rnd nm owner pol t exts lin r =
     (case create_pond f now uuid rnd nm owner pol t exts [] lin r of
        (Inl e, r') \<Rightarrow> (Err (cp_err e), r')
      | (Inr row, r') \<Rightarrow> (rc_pond_info g r' (pond_id row), r'))"

definition rc_drop_pond :: "fault \<Rightarrow> string \<Rightarrow> registry \<Rightarrow> (AgentError, unit) result \<times> registry" where
  "rc_drop_pond f i r = (case drop_pond f i r of (x, r') \<Rightarrow> (map_err cp_err x, r'))"

text \<open>The list, then one detail read per row, each against the registry as it is by then; a row
  dropped in between is skipped, any other error ends the call.\<close>

fun rc_details :: "(nat \<Rightarrow> fault \<times> registry) \<Rightarrow> nat \<Rightarrow> PondRow list \<Rightarrow> (AgentError, PondInfo list) result" where
  "rc_details seen i [] = Ok []"
| "rc_details seen i (row # rows) =
     (case fst (pond_info (fst (seen i)) (pond_id row) (snd (seen i))) of
        Inr info \<Rightarrow> map_ok ((#) (to_info info)) (rc_details seen (Suc i) rows)
      | Inl (CP_PondNotFound _) \<Rightarrow> rc_details seen (Suc i) rows
      | Inl e \<Rightarrow> Err (cp_err e))"

definition rc_list_ponds :: "fault \<Rightarrow> (nat \<Rightarrow> fault \<times> registry) \<Rightarrow> registry \<Rightarrow> (AgentError, PondInfo list) result" where
  "rc_list_ponds f seen r = (case fst (list_ponds f r) of Inl e \<Rightarrow> Err (cp_err e) | Inr rows \<Rightarrow> rc_details seen 0 rows)"

definition rc_get_dataset :: "fault \<Rightarrow> registry \<Rightarrow> string \<Rightarrow> (AgentError, DatasetInfo) result" where
  "rc_get_dataset f r n = map_err cp_err (fst (get_dataset f n r))"

definition rc_list_datasets :: "fault \<Rightarrow> (nat \<Rightarrow> fault) \<Rightarrow> registry \<Rightarrow> string \<Rightarrow> (AgentError, DatasetInfo list) result" where
  "rc_list_datasets f g r q = map_err cp_err (fst (list_datasets f g q r))"

definition rc_get_catalog :: "(string \<Rightarrow> params option) \<Rightarrow> fault \<Rightarrow> registry \<Rightarrow> string \<Rightarrow> (AgentError, CatalogInfo) result" where
  "rc_get_catalog from_json f r n = map_err cp_err (fst (get_catalog from_json f n r))"

definition rc_list_catalogs :: "(string \<Rightarrow> params option) \<Rightarrow> fault \<Rightarrow> (nat \<Rightarrow> fault) \<Rightarrow> registry \<Rightarrow> string \<Rightarrow> (AgentError, CatalogInfo list) result" where
  "rc_list_catalogs from_json f g r q = map_err cp_err (fst (list_catalogs from_json f g q r))"

end
