(* ===== verification/Lineage_Events.thy ===== *)
theory Lineage_Events
  imports Agent_Types Redact
begin

text \<open>
  The OpenLineage events of an operation (\<open>latiq-lineage/src/event.rs\<close>) and the emitter that
  builds a run's start and terminal event from what an operation knows about itself
  (\<open>latiq-agent-core/src/lineage.rs\<close>). Event times, run ids, the version-5 UUID of a claimed
  workflow and the adapter's version are parameters; the JSON form of an event is the value it
  serializes to.
\<close>

section \<open>Events and facets (event.rs)\<close>

definition PRODUCER :: string where "PRODUCER = ''https://github.com/neonexia/latiq''"
definition SCHEMA_URL :: string where
  "SCHEMA_URL = ''https://openlineage.io/spec/2-0-2/OpenLineage.json#/$defs/RunEvent''"
definition JOB_NAMESPACE :: string where "JOB_NAMESPACE = ''latiq''"
definition SPEC_FACETS :: string where "SPEC_FACETS = ''https://openlineage.io/spec/facets''"

datatype EventType = Start | Running | Complete | Abort | Fail | Other

fun event_type_str :: "EventType \<Rightarrow> string" where
  "event_type_str Start = ''START''"
| "event_type_str Running = ''RUNNING''"
| "event_type_str Complete = ''COMPLETE''"
| "event_type_str Abort = ''ABORT''"
| "event_type_str Fail = ''FAIL''"
| "event_type_str Other = ''OTHER''"

type_synonym facet_map = "(string, Value) btree"

record Facet =
  facet_key :: string
  facet_body :: Value

record Run =
  run_id :: string
  run_facets :: facet_map

record Job =
  job_namespace :: string
  job_title :: string
  job_facets :: facet_map

record Dataset =
  od_namespace :: string
  od_name :: string
  od_facets :: facet_map

record RunEvent =
  ev_time :: string
  ev_type :: EventType
  ev_run :: Run
  ev_job :: Job
  ev_inputs :: "Dataset list"
  ev_outputs :: "Dataset list"

definition run_new :: "string \<Rightarrow> Run" where
  "run_new uuid = \<lparr>run_id = uuid, run_facets = []\<rparr>"

definition run_with :: "Facet \<Rightarrow> Run \<Rightarrow> Run" where
  "run_with f r = r\<lparr>run_facets := bt_insert (facet_key f) (facet_body f) (run_facets r)\<rparr>"

definition job_new :: "string \<Rightarrow> string \<Rightarrow> Job" where
  "job_new ns n = \<lparr>job_namespace = ns, job_title = n, job_facets = []\<rparr>"

definition job_with :: "Facet \<Rightarrow> Job \<Rightarrow> Job" where
  "job_with f j = j\<lparr>job_facets := bt_insert (facet_key f) (facet_body f) (job_facets j)\<rparr>"

definition dataset_new :: "string \<Rightarrow> string \<Rightarrow> Dataset" where
  "dataset_new ns n = \<lparr>od_namespace = ns, od_name = n, od_facets = []\<rparr>"

definition dataset_with :: "Facet \<Rightarrow> Dataset \<Rightarrow> Dataset" where
  "dataset_with f d = d\<lparr>od_facets := bt_insert (facet_key f) (facet_body f) (od_facets d)\<rparr>"

definition event_at :: "string \<Rightarrow> EventType \<Rightarrow> Run \<Rightarrow> Job \<Rightarrow> RunEvent" where
  "event_at t ty r j = \<lparr>ev_time = t, ev_type = ty, ev_run = r, ev_job = j, ev_inputs = [], ev_outputs = []\<rparr>"

definition stamp :: "string \<Rightarrow> string \<Rightarrow> Value \<Rightarrow> Facet" where
  "stamp k url body =
     (let m = (case body of JObject m \<Rightarrow> m | _ \<Rightarrow> [])
      in \<lparr>facet_key = k, facet_body = JObject (bt_insert ''_schemaURL'' (JString url) (bt_insert ''_producer'' (JString PRODUCER) m))\<rparr>)"

definition spec_url :: "string \<Rightarrow> string \<Rightarrow> string" where
  "spec_url version n = SPEC_FACETS @ ''/'' @ version @ ''/'' @ n @ ''.json#/$defs/'' @ n"

definition latiq_url :: "string \<Rightarrow> string \<Rightarrow> string" where
  "latiq_url n version = ''https://raw.githubusercontent.com/neonexia/latiq/lineage-facets-'' @ version
     @ ''/crates/latiq-lineage/spec/facets/'' @ version @ ''/'' @ n @ ''.json#/$defs/'' @ n"

subsection \<open>The facets\<close>

record ParentClaim =
  workflow_id :: string
  step_id :: "string option"

definition facet_parent :: "(string \<Rightarrow> string) \<Rightarrow> ParentClaim \<Rightarrow> string \<Rightarrow> string \<Rightarrow> Facet" where
  "facet_parent uuid5 c ns n = stamp ''parent'' (spec_url ''1-0-1'' ''ParentRunFacet'')
     (json_object [(''run'', json_object [(''runId'', JString (uuid5 (workflow_id c)))]),
        (''job'', json_object [(''namespace'', JString ns), (''name'', JString n)])])"

definition facet_parent_claim :: "ParentClaim \<Rightarrow> Facet" where
  "facet_parent_claim c = stamp ''latiq_parent_claim'' (latiq_url ''LatiqParentClaimFacet'' ''1-0-0'')
     (json_object [(''workflowId'', JString (workflow_id c)), (''stepId'', json_opt (step_id c)), (''verified'', JBool False)])"

definition facet_sql :: "string \<Rightarrow> Facet" where
  "facet_sql query = stamp ''sql'' (spec_url ''1-0-1'' ''SQLJobFacet'')
     (json_object [(''query'', JString query), (''dialect'', JString ''duckdb'')])"

definition facet_dataset_version :: "int \<Rightarrow> Facet" where
  "facet_dataset_version i = stamp ''version'' (spec_url ''1-0-1'' ''DatasetVersionDatasetFacet'')
     (json_object [(''datasetVersion'', JString (show_int i))])"

definition facet_schema :: "(string \<times> string) list \<Rightarrow> Facet" where
  "facet_schema cols = stamp ''schema'' (spec_url ''1-1-1'' ''SchemaDatasetFacet'')
     (json_object [(''fields'', JArray (map (\<lambda>(n, ty). json_object [(''name'', JString n), (''type'', JString ty)]) cols))])"

definition facet_error_message :: "string \<Rightarrow> Facet" where
  "facet_error_message m = stamp ''errorMessage'' (spec_url ''1-0-1'' ''ErrorMessageRunFacet'')
     (json_object [(''message'', JString m), (''programmingLanguage'', JString ''RUST'')])"

definition facet_job_type :: "string \<Rightarrow> Facet" where
  "facet_job_type t = stamp ''jobType'' (spec_url ''2-0-3'' ''JobTypeJobFacet'')
     (json_object [(''processingType'', JString ''BATCH''), (''integration'', JString ''LATIQ''), (''jobType'', JString t)])"

definition facet_processing_engine :: "string \<Rightarrow> string \<Rightarrow> Facet" where
  "facet_processing_engine adapter version = stamp ''processing_engine'' (spec_url ''1-1-1'' ''ProcessingEngineRunFacet'')
     (json_object [(''name'', JString ''duckdb''), (''version'', JString version), (''openlineageAdapterVersion'', JString adapter)])"

definition facet_identity :: "bool \<Rightarrow> string \<Rightarrow> string option \<Rightarrow> string option \<Rightarrow> Facet" where
  "facet_identity ver sub iss agent = stamp ''latiq_identity'' (latiq_url ''LatiqIdentityFacet'' ''1-0-0'')
     (json_object [(''verified'', JBool ver), (''subject'', json_opt (if ver then Some sub else None)),
        (''issuer'', json_opt iss), (''agentId'', json_opt agent), (''agentIdVerified'', JBool False)])"

definition facet_pond :: "string \<Rightarrow> string \<Rightarrow> string \<Rightarrow> Facet" where
  "facet_pond i n node = stamp ''latiq_pond'' (latiq_url ''LatiqPondFacet'' ''1-0-0'')
     (json_object [(''pondId'', JString i), (''pondName'', JString n), (''nodeId'', JString node)])"

datatype DurationMeaning = Completion | Establishment
datatype Outcome = OutcomeOk | OutcomeError | OutcomeCancelled

fun meaning_str :: "DurationMeaning \<Rightarrow> string" where
  "meaning_str Completion = ''completion''"
| "meaning_str Establishment = ''establishment''"

fun outcome_str :: "Outcome \<Rightarrow> string" where
  "outcome_str OutcomeOk = ''ok''"
| "outcome_str OutcomeError = ''error''"
| "outcome_str OutcomeCancelled = ''cancelled''"

definition facet_query :: "string \<Rightarrow> Outcome \<Rightarrow> 64 word \<Rightarrow> DurationMeaning \<Rightarrow> string option \<Rightarrow> Facet" where
  "facet_query op out ms meaning trace = stamp ''latiq_query'' (latiq_url ''LatiqQueryFacet'' ''1-0-0'')
     (json_object [(''op'', JString op), (''outcome'', JString (outcome_str out)), (''durationMs'', JNumber (show_nat (unat ms))),
        (''durationMeaning'', JString (meaning_str meaning)), (''traceId'', json_opt trace)])"

subsection \<open>Namings\<close>

definition dataset_namespace :: "string \<Rightarrow> string" where
  "dataset_namespace i = ''ducklake://'' @ i"

definition strip_prefix :: "string \<Rightarrow> string \<Rightarrow> string option" where
  "strip_prefix p s = (if starts_with s p then Some (drop (length p) s) else None)"

definition job_name :: "string \<Rightarrow> string \<Rightarrow> string option \<Rightarrow> string" where
  "job_name pond op target = (case target of
      None \<Rightarrow> pond @ ''.'' @ op
    | Some t \<Rightarrow> pond @ ''.'' @ op @ ''.'' @ (case Option.bind (strip_prefix pond t) (strip_prefix ''.'') of Some r \<Rightarrow> r | None \<Rightarrow> t))"

subsection \<open>The JSON form\<close>

definition facets_json :: "facet_map \<Rightarrow> (string \<times> Value) list" where
  "facets_json m = (if m = [] then [] else [(''facets'', JObject m)])"

definition dataset_json :: "Dataset \<Rightarrow> Value" where
  "dataset_json d = json_object ([(''namespace'', JString (od_namespace d)), (''name'', JString (od_name d))] @ facets_json (od_facets d))"

definition datasets_json :: "string \<Rightarrow> Dataset list \<Rightarrow> (string \<times> Value) list" where
  "datasets_json k ds = (if ds = [] then [] else [(k, JArray (map dataset_json ds))])"

definition run_event_json :: "RunEvent \<Rightarrow> Value" where
  "run_event_json e = json_object
     ([(''eventTime'', JString (ev_time e)), (''producer'', JString PRODUCER), (''schemaURL'', JString SCHEMA_URL),
       (''eventType'', JString (event_type_str (ev_type e))),
       (''run'', json_object ((''runId'', JString (run_id (ev_run e))) # facets_json (run_facets (ev_run e)))),
       (''job'', json_object ([(''namespace'', JString (job_namespace (ev_job e))), (''name'', JString (job_title (ev_job e)))]
          @ facets_json (job_facets (ev_job e))))]
      @ datasets_json ''inputs'' (ev_inputs e) @ datasets_json ''outputs'' (ev_outputs e))"

section \<open>The emitter (lineage.rs)\<close>

record QueryRecord =
  rec_identity :: Identity
  rec_info :: PondInfo
  rec_op :: string
  rec_sql :: string
  rec_duration_ms :: "64 word"
  rec_meaning :: DurationMeaning
  rec_error :: "AgentError option"
  rec_meta :: "QueryMeta option"
  rec_engine_version :: string

definition non_empty :: "string \<Rightarrow> string option" where
  "non_empty s = (if s = [] then None else Some s)"

definition terminal :: "AgentError option \<Rightarrow> EventType \<times> Outcome" where
  "terminal err = (case err of
      None \<Rightarrow> (Complete, OutcomeOk)
    | Some e \<Rightarrow> (if kind e = QueryCancelled \<or> kind e = QueryTimeout then (Abort, OutcomeCancelled) else (Fail, OutcomeError)))"

definition to_dataset :: "PondInfo \<Rightarrow> int option \<Rightarrow> DatasetRef \<Rightarrow> Dataset" where
  "to_dataset info fallback r =
     (let ds = dataset_new (case dr_namespace r of Some n \<Rightarrow> n | None \<Rightarrow> dataset_namespace (pi_pond_id info)) (dr_name r);
          ds = (case (case dr_version r of None \<Rightarrow> fallback | v \<Rightarrow> v) of Some i \<Rightarrow> dataset_with (facet_dataset_version i) ds | None \<Rightarrow> ds)
      in if dr_fields r = [] then ds
         else dataset_with (facet_schema (map (\<lambda>f. (df_name f, df_type_name f)) (dr_fields r))) ds)"

definition first_of :: "'a list \<Rightarrow> 'a option" where
  "first_of xs = (case xs of [] \<Rightarrow> None | x # _ \<Rightarrow> Some x)"

text \<open>The two events of one run. \<open>started\<close> and \<open>now\<close> are the texts of the two event times.\<close>

definition lineage_record :: "string \<Rightarrow> string \<Rightarrow> string \<Rightarrow> string \<Rightarrow> string option \<Rightarrow> string \<Rightarrow> QueryRecord \<Rightarrow> RunEvent \<times> RunEvent" where
  "lineage_record adapter run_uuid started now trace node rc =
     (let info = rec_info rc;
          ins = (case rec_meta rc of Some m \<Rightarrow> inputs m | None \<Rightarrow> []);
          outs = (case rec_meta rc of Some m \<Rightarrow> outputs m | None \<Rightarrow> []);
          produced = (case rec_meta rc of Some m \<Rightarrow> snapshot_id m | None \<Rightarrow> None);
          input_datasets = map (to_dataset info None) ins;
          output_datasets = map (to_dataset info produced) outs;
          target = map_option dr_name (case first_of outs of None \<Rightarrow> first_of ins | t \<Rightarrow> t);
          job = job_with (facet_pond (pi_pond_id info) (pi_name info) node)
                 (job_with (facet_job_type ''QUERY'')
                  (job_with (facet_sql (redact_sql (rec_sql rc)))
                   (job_new JOB_NAMESPACE (job_name (pi_name info) (rec_op rc) target))));
          base = run_with (facet_processing_engine adapter (rec_engine_version rc))
                  (run_with (facet_identity (verified (rec_identity rc)) (subject (rec_identity rc))
                     (non_empty (issuer (rec_identity rc))) (Some (agent_id (rec_identity rc)))) (run_new run_uuid));
          start = (event_at started Start base job)\<lparr>ev_inputs := input_datasets\<rparr>;
          (ty, out) = terminal (rec_error rc);
          run = run_with (facet_query (rec_op rc) out (rec_duration_ms rc) (rec_meaning rc) trace) base;
          run = (case rec_error rc of Some e \<Rightarrow> run_with (facet_error_message (message e)) run | None \<Rightarrow> run)
      in (start, (event_at now ty run job)\<lparr>ev_inputs := input_datasets, ev_outputs := output_datasets\<rparr>))"

section \<open>Facts\<close>

definition stamped :: "Value \<Rightarrow> bool" where
  "stamped v \<longleftrightarrow> json_get v ''_producer'' = Some (JString PRODUCER) \<and> (\<exists>u. json_get v ''_schemaURL'' = Some (JString u) \<and> u \<noteq> [])"

definition stamped_map :: "facet_map \<Rightarrow> bool" where
  "stamped_map m \<longleftrightarrow> bt_wf m \<and> (\<forall>(k, v) \<in> set m. stamped v)"

lemma bt_wf_json_object: "json_object kvs = JObject m \<Longrightarrow> bt_wf m"
  by (auto simp: json_object_def bt_wf_extend)

lemma stamp_stamped:
  assumes "url \<noteq> []"
  shows "stamped (facet_body (stamp k url (json_object kvs)))"
  using assms by (simp add: stamp_def stamped_def json_object_def Let_def map_of_bt_insert bt_wf_insert bt_wf_extend)

lemma set_bt_insert: "set (bt_insert k v m) \<subseteq> insert (k, v) (set m)"
  by (induction k v m rule: bt_insert.induct) auto

lemma stamped_insert: "stamped_map m \<Longrightarrow> stamped v \<Longrightarrow> stamped_map (bt_insert k v m)"
  using set_bt_insert [of k v m] by (fastforce simp: stamped_map_def bt_wf_insert)

lemma url_nonempty [simp]: "spec_url v n \<noteq> []" "latiq_url n v \<noteq> []"
  by (simp_all add: spec_url_def latiq_url_def)

lemmas facet_defs = facet_parent_def facet_parent_claim_def facet_sql_def facet_dataset_version_def facet_schema_def
  facet_error_message_def facet_job_type_def facet_processing_engine_def facet_identity_def facet_pond_def facet_query_def

lemma facets_stamped [simp]:
  "stamped (facet_body (facet_parent u c ns n))" "stamped (facet_body (facet_parent_claim c))" "stamped (facet_body (facet_sql q))"
  "stamped (facet_body (facet_dataset_version ver))" "stamped (facet_body (facet_schema fs))" "stamped (facet_body (facet_error_message m))"
  "stamped (facet_body (facet_job_type t))" "stamped (facet_body (facet_processing_engine a v))"
  "stamped (facet_body (facet_identity b sub iss ag))" "stamped (facet_body (facet_pond i n nd))"
  "stamped (facet_body (facet_query op out ms me tr))"
  by (simp_all add: facet_defs stamp_stamped)

lemma stamped_with [simp]:
  "stamped_map (run_facets r) \<Longrightarrow> stamped (facet_body f) \<Longrightarrow> stamped_map (run_facets (run_with f r))"
  "stamped_map (job_facets j) \<Longrightarrow> stamped (facet_body f) \<Longrightarrow> stamped_map (job_facets (job_with f j))"
  "stamped_map (od_facets d) \<Longrightarrow> stamped (facet_body f) \<Longrightarrow> stamped_map (od_facets (dataset_with f d))"
  "stamped_map (run_facets (run_new u))" "stamped_map (job_facets (job_new a b))" "stamped_map (od_facets (dataset_new a b))"
  by (simp_all add: run_with_def job_with_def dataset_with_def run_new_def job_new_def dataset_new_def stamped_insert)
     (simp_all add: stamped_map_def)

lemma stamped_dataset: "stamped_map (od_facets (to_dataset info fb r))"
  by (simp add: to_dataset_def Let_def split: option.split)

lemma map_of_facets [simp]:
  "bt_wf (run_facets r) \<Longrightarrow> map_of (run_facets (run_with f r)) k = (if k = facet_key f then Some (facet_body f) else map_of (run_facets r) k)"
  "bt_wf (job_facets j) \<Longrightarrow> map_of (job_facets (job_with f j)) k = (if k = facet_key f then Some (facet_body f) else map_of (job_facets j) k)"
  "bt_wf (run_facets r) \<Longrightarrow> bt_wf (run_facets (run_with f r))" "bt_wf (run_facets (run_new u))"
  "bt_wf (job_facets j) \<Longrightarrow> bt_wf (job_facets (job_with f j))" "bt_wf (job_facets (job_new a b))"
  "run_id (run_with f r) = run_id r" "run_id (run_new u) = u"
  by (simp_all add: run_with_def job_with_def run_new_def job_new_def map_of_bt_insert bt_wf_insert)

lemma facet_keys [simp]:
  "facet_key (facet_sql q) = ''sql''" "facet_key (facet_job_type t) = ''jobType''" "facet_key (facet_pond i n nd) = ''latiq_pond''"
  "facet_key (facet_identity b sub iss ag) = ''latiq_identity''" "facet_key (facet_processing_engine a v) = ''processing_engine''"
  "facet_key (facet_query op out ms me tr) = ''latiq_query''" "facet_key (facet_error_message m) = ''errorMessage''"
  by (simp_all add: facet_defs stamp_def Let_def)

lemma json_get_stamp:
  "distinct (map fst kvs) \<Longrightarrow> k \<noteq> ''_producer'' \<Longrightarrow> k \<noteq> ''_schemaURL'' \<Longrightarrow>
   json_get (facet_body (stamp key url (json_object kvs))) k = map_of kvs k"
  using json_get_object [of kvs k]
  by (simp add: stamp_def json_object_def Let_def map_of_bt_insert bt_wf_insert bt_wf_extend)

lemma event_time_json: "event_time (run_event_json e) = Some (ev_time e)"
  by (simp add: event_time_def run_event_json_def datasets_json_def json_get_object)

text \<open>A value inside a document, by the keys that lead to it.\<close>

fun json_at :: "Value \<Rightarrow> string list \<Rightarrow> Value option" where
  "json_at v [] = Some v"
| "json_at v (k # ks) = (case json_get v k of None \<Rightarrow> None | Some x \<Rightarrow> json_at x ks)"

lemma event_json:
  "json_at (run_event_json e) [''eventTime''] = Some (JString (ev_time e))"
  "json_at (run_event_json e) [''producer''] = Some (JString PRODUCER)"
  "json_at (run_event_json e) [''schemaURL''] = Some (JString SCHEMA_URL)"
  "json_at (run_event_json e) [''eventType''] = Some (JString (event_type_str (ev_type e)))"
  "json_at (run_event_json e) [''run'', ''runId''] = Some (JString (run_id (ev_run e)))"
  "json_at (run_event_json e) [''job'', ''namespace''] = Some (JString (job_namespace (ev_job e)))"
  "json_at (run_event_json e) [''job'', ''name''] = Some (JString (job_title (ev_job e)))"
  "json_at (run_event_json e) [''inputs''] = (if ev_inputs e = [] then None else Some (JArray (map dataset_json (ev_inputs e))))"
  "json_at (run_event_json e) [''outputs''] = (if ev_outputs e = [] then None else Some (JArray (map dataset_json (ev_outputs e))))"
  by (simp_all add: run_event_json_def datasets_json_def facets_json_def json_get_object)

lemma facets_at:
  "json_at (run_event_json e) (''run'' # ''facets'' # k # ks) = (case map_of (run_facets (ev_run e)) k of None \<Rightarrow> None | Some f \<Rightarrow> json_at f ks)"
  "json_at (run_event_json e) (''job'' # ''facets'' # k # ks) = (case map_of (job_facets (ev_job e)) k of None \<Rightarrow> None | Some f \<Rightarrow> json_at f ks)"
  by (simp_all add: run_event_json_def datasets_json_def facets_json_def json_get_object)

text \<open>What a run's identity facet says, and what an event of a run says in its JSON form.\<close>

definition honest_identity :: "Identity \<Rightarrow> Value \<Rightarrow> bool" where
  "honest_identity i v \<longleftrightarrow>
     json_at v [''run'', ''facets'', ''latiq_identity'', ''verified''] = Some (JBool (verified i))
   \<and> json_at v [''run'', ''facets'', ''latiq_identity'', ''subject''] = Some (if verified i then JString (subject i) else JNull)
   \<and> json_at v [''run'', ''facets'', ''latiq_identity'', ''issuer''] = Some (if issuer i = [] then JNull else JString (issuer i))
   \<and> json_at v [''run'', ''facets'', ''latiq_identity'', ''agentId''] = Some (JString (agent_id i))
   \<and> json_at v [''run'', ''facets'', ''latiq_identity'', ''agentIdVerified''] = Some (JBool False)"

definition required_fields :: "string \<Rightarrow> string \<Rightarrow> string \<Rightarrow> string \<Rightarrow> Value \<Rightarrow> bool" where
  "required_fields time ty u name v \<longleftrightarrow>
     json_at v [''eventTime''] = Some (JString time) \<and> json_at v [''eventType''] = Some (JString ty)
   \<and> json_at v [''producer''] = Some (JString PRODUCER) \<and> json_at v [''schemaURL''] = Some (JString SCHEMA_URL)
   \<and> json_at v [''run'', ''runId''] = Some (JString u)
   \<and> json_at v [''job'', ''namespace''] = Some (JString JOB_NAMESPACE) \<and> json_at v [''job'', ''name''] = Some (JString name)"

definition all_stamped :: "RunEvent \<Rightarrow> bool" where
  "all_stamped e \<longleftrightarrow> stamped_map (run_facets (ev_run e)) \<and> stamped_map (job_facets (ev_job e))
     \<and> (\<forall>d \<in> set (ev_inputs e @ ev_outputs e). stamped_map (od_facets d))"

definition datasets_at :: "Dataset list \<Rightarrow> Value option" where
  "datasets_at ds = (if ds = [] then None else Some (JArray (map dataset_json ds)))"

definition run_job_name :: "QueryRecord \<Rightarrow> string" where
  "run_job_name rc = job_name (pi_name (rec_info rc)) (rec_op rc)
     (case rec_meta rc of None \<Rightarrow> None
      | Some m \<Rightarrow> map_option dr_name (case first_of (outputs m) of None \<Rightarrow> first_of (inputs m) | t \<Rightarrow> t))"

lemma lineage_pair:
  assumes "lineage_record adapter u started now trace node rc = (s, t)" "terminal (rec_error rc) = (ty, out)"
  defines "i \<equiv> rec_identity rc"
  defines "base \<equiv> run_with (facet_processing_engine adapter (rec_engine_version rc))
    (run_with (facet_identity (verified i) (subject i) (non_empty (issuer i)) (Some (agent_id i))) (run_new u))"
  defines "job \<equiv> job_with (facet_pond (pi_pond_id (rec_info rc)) (pi_name (rec_info rc)) node)
        (job_with (facet_job_type ''QUERY'') (job_with (facet_sql (redact_sql (rec_sql rc))) (job_new JOB_NAMESPACE (run_job_name rc))))"
  shows "ev_type s = Start" "ev_type t = ty" "ev_time s = started" "ev_time t = now" "ev_job s = job" "ev_job t = job" "ev_run s = base"
    and "ev_run t = (let r = run_with (facet_query (rec_op rc) out (rec_duration_ms rc) (rec_meaning rc) trace) base
      in case rec_error rc of Some e \<Rightarrow> run_with (facet_error_message (message e)) r | None \<Rightarrow> r)"
    and "ev_inputs s = map (to_dataset (rec_info rc) None) (case rec_meta rc of Some m \<Rightarrow> inputs m | None \<Rightarrow> [])"
    and "ev_inputs t = ev_inputs s" "ev_outputs s = []"
    and "ev_outputs t = map (to_dataset (rec_info rc) (case rec_meta rc of Some m \<Rightarrow> snapshot_id m | None \<Rightarrow> None))
         (case rec_meta rc of Some m \<Rightarrow> outputs m | None \<Rightarrow> [])"
  using assms(1,2) unfolding base_def job_def i_def
  by (auto simp: lineage_record_def event_at_def Let_def run_job_name_def first_of_def split: option.split)

lemma run_facet_json:
  "json_at (facet_body (facet_identity b sub iss ag)) [''verified''] = Some (JBool b)"
  "json_at (facet_body (facet_identity b sub iss ag)) [''subject''] = Some (if b then JString sub else JNull)"
  "json_at (facet_body (facet_identity b sub iss ag)) [''issuer''] = Some (json_opt iss)"
  "json_at (facet_body (facet_identity b sub iss ag)) [''agentId''] = Some (json_opt ag)"
  "json_at (facet_body (facet_identity b sub iss ag)) [''agentIdVerified''] = Some (JBool False)"
  "json_at (facet_body (facet_query op out ms me tr)) [''op''] = Some (JString op)"
  "json_at (facet_body (facet_query op out ms me tr)) [''outcome''] = Some (JString (outcome_str out))"
  "json_at (facet_body (facet_query op out ms me tr)) [''durationMs''] = Some (JNumber (show_nat (unat ms)))"
  "json_at (facet_body (facet_query op out ms me tr)) [''traceId''] = Some (json_opt tr)"
  "json_at (facet_body (facet_error_message m)) [''message''] = Some (JString m)"
  "json_at (facet_body (facet_sql q)) [''query''] = Some (JString q)"
  by (simp_all add: facet_identity_def facet_query_def facet_error_message_def facet_sql_def json_get_stamp json_opt_def)

section \<open>Properties\<close>

text \<open>C40. What the two events of a run say in their JSON form. Both carry the time they were given, the
  producer and the schema of an OpenLineage run event, the run's id, and the job named after pond,
  operation and first output or else first input; their identity facet says verified exactly when the
  identity was, names the subject only then, and never calls the agent id verified; their SQL facet
  holds the redacted statement; every facet of the run, the job and every dataset carries the producer
  and a schema URL. The first is a \<open>START\<close> with the inputs and no outputs; the second ends the run,
  \<open>COMPLETE\<close> exactly when the operation succeeded and \<open>ABORT\<close> exactly when it was cancelled or timed
  out, with inputs, outputs, operation, outcome, duration and trace, and the error's message exactly
  when there was one. The times and the run's id are the texts the clock and the id generator gave.\<close>

theorem lineage_pair_is_wellformed:
  "case lineage_record adapter u started now trace node rc of (s, t) \<Rightarrow>
     (let vs = run_event_json s; vt = run_event_json t;
          ending = (case rec_error rc of None \<Rightarrow> (''COMPLETE'', ''ok'')
            | Some e \<Rightarrow> if kind e \<in> {QueryCancelled, QueryTimeout} then (''ABORT'', ''cancelled'') else (''FAIL'', ''error''))
      in required_fields started ''START'' u (run_job_name rc) vs \<and> required_fields now (fst ending) u (run_job_name rc) vt
       \<and> honest_identity (rec_identity rc) vs \<and> honest_identity (rec_identity rc) vt
       \<and> json_at vs [''job'', ''facets'', ''sql'', ''query''] = Some (JString (redact_sql (rec_sql rc)))
       \<and> json_at vt [''job'', ''facets'', ''sql'', ''query''] = Some (JString (redact_sql (rec_sql rc)))
       \<and> all_stamped s \<and> all_stamped t
       \<and> json_at vs [''inputs''] = datasets_at (ev_inputs t) \<and> json_at vs [''outputs''] = None
       \<and> json_at vt [''inputs''] = datasets_at (map (to_dataset (rec_info rc) None) (case rec_meta rc of None \<Rightarrow> [] | Some m \<Rightarrow> inputs m))
       \<and> json_at vt [''outputs''] = datasets_at (case rec_meta rc of None \<Rightarrow> [] | Some m \<Rightarrow> map (to_dataset (rec_info rc) (snapshot_id m)) (outputs m))
       \<and> json_at vt [''run'', ''facets'', ''latiq_query'', ''op''] = Some (JString (rec_op rc))
       \<and> json_at vt [''run'', ''facets'', ''latiq_query'', ''outcome''] = Some (JString (snd ending))
       \<and> json_at vt [''run'', ''facets'', ''latiq_query'', ''durationMs''] = Some (JNumber (show_nat (unat (rec_duration_ms rc))))
       \<and> json_at vt [''run'', ''facets'', ''latiq_query'', ''traceId''] = Some (json_opt trace)
       \<and> json_at vt [''run'', ''facets'', ''errorMessage'', ''message''] = map_option (\<lambda>e. JString (message e)) (rec_error rc))"
proof -
  obtain s t where st: "lineage_record adapter u started now trace node rc = (s, t)" by fastforce
  obtain ty out where ty: "terminal (rec_error rc) = (ty, out)" by fastforce
  note p = lineage_pair [OF st ty]
  have ending: "(event_type_str ty, outcome_str out) = (case rec_error rc of None \<Rightarrow> (''COMPLETE'', ''ok'')
      | Some e \<Rightarrow> if kind e \<in> {QueryCancelled, QueryTimeout} then (''ABORT'', ''cancelled'') else (''FAIL'', ''error''))"
    using ty by (auto simp: terminal_def split: option.splits if_splits)
  have req: "required_fields started ''START'' u (run_job_name rc) (run_event_json s)" "required_fields now (event_type_str ty) u (run_job_name rc) (run_event_json t)"
    unfolding required_fields_def event_json p by (simp_all add: Let_def job_with_def job_new_def split: option.split)
  have id: "honest_identity (rec_identity rc) (run_event_json s)" "honest_identity (rec_identity rc) (run_event_json t)"
    unfolding honest_identity_def facets_at p
    by (simp_all add: Let_def run_facet_json non_empty_def json_opt_def del: json_at.simps split: option.split)
  have sql: "json_at (run_event_json s) [''job'', ''facets'', ''sql'', ''query''] = Some (JString (redact_sql (rec_sql rc)))"
    "json_at (run_event_json t) [''job'', ''facets'', ''sql'', ''query''] = Some (JString (redact_sql (rec_sql rc)))"
    unfolding facets_at p by (simp_all add: run_facet_json del: json_at.simps)
  have stm: "all_stamped s" "all_stamped t"
    unfolding all_stamped_def p by (auto simp: Let_def stamped_dataset split: option.split)
  have qry: "json_at (run_event_json t) (''run'' # ''facets'' # ''latiq_query'' # ks)
      = json_at (facet_body (facet_query (rec_op rc) out (rec_duration_ms rc) (rec_meaning rc) trace)) ks" for ks
    unfolding facets_at p by (simp add: Let_def split: option.split)
  have none: "map_of (run_facets (run_new u)) k = None" for k by (simp add: run_new_def)
  have err: "json_at (run_event_json t) [''run'', ''facets'', ''errorMessage'', ''message''] = map_option (\<lambda>e. JString (message e)) (rec_error rc)"
    unfolding facets_at p by (simp add: Let_def run_facet_json none del: json_at.simps split: option.split)
  show ?thesis unfolding st Let_def prod.case ending [symmetric] fst_conv snd_conv qry run_facet_json err sql event_json
    using req id stm p(9-12) by (auto simp: datasets_at_def split: option.split)
qed

end
