(* ===== verification/Agent_Node.thy ===== *)
theory Agent_Node
  imports Lineage_Events Inflight Storage
begin

text \<open>
  A pond node's \<open>AgentOps\<close> (\<open>latiq-agent-core/src/ops.rs\<close>), first part: its configuration, what
  it does to the world, where a pond's work belongs, and the steps every operation shares.

  The control plane, the storage, the engine and the forwarder are trait objects in the code:
  here they are the fields of a \<open>world\<close>, functions from the arguments of a call to its answer.
  An operation is an \<open>act\<close>: its result together with everything it did, in order. A call that
  ran on the blocking pool may also have died there (\<open>JoinError\<close>).
\<close>

section \<open>Configuration\<close>

record AgentConfig =
  inline_row_cap :: nat
  timeouts :: QueryTimeouts

definition agent_config_default :: AgentConfig where
  "agent_config_default = \<lparr>inline_row_cap = 10000, timeouts = timeouts_default\<rparr>"

record Peer =
  peer_node_id :: string
  peer_endpoint :: string

datatype Placement = Local | Forward Peer | NoOwner

record AgentOps =
  ag_config :: AgentConfig
  self_node_id :: "string option"
  self_endpoint :: "string option"
  has_forwarder :: bool
  ag_engine_version :: string

definition agent_new :: "AgentConfig \<Rightarrow> string \<Rightarrow> AgentOps" where
  "agent_new cfg version = \<lparr>ag_config = cfg, self_node_id = None, self_endpoint = None, has_forwarder = False,
     ag_engine_version = version\<rparr>"

definition with_forwarding :: "AgentOps \<Rightarrow> string \<Rightarrow> string \<Rightarrow> AgentOps" where
  "with_forwarding ag nid endpoint =
     ag\<lparr>self_node_id := Some nid, self_endpoint := Some endpoint, has_forwarder := True\<rparr>"

section \<open>What an operation does\<close>

record Access =
  acc_identity :: Identity
  acc_op :: string
  acc_pond :: string
  acc_trace_id :: string
  acc_duration_ms :: "64 word"
  acc_summary :: string
  acc_outcome :: string

text \<open>The calls of the engine, by the trait's method.\<close>

datatype engine_call = InitPond | ReadQuery | WriteQuery | ReadArrow | PlanDatasets | ExplainQuery
  | DescribeSchema | PullCatalog | DescribeCatalog

datatype node_event =
    Accessed Access
  | Forwarded string Peer
  | Ensured string bool
  | EngineRan engine_call PondLocation
  | Registered string string
  | Completed string
  | BeganDrop string
  | EndedDrop string
  | GaugeUp string
  | GaugeDown string
  | QueryCounted string string
  | ErrorCounted string ErrorKind
  | DurationRecorded string string
  | ControlCreated string
  | ControlDropped string
  | ForgotEngine PondLocation
  | EvictedWriter string
  | StorageDropped string
  | FlushedWriter string
  | LineageRecorded string QueryRecord

type_synonym 'a act = "(AgentError, 'a) result \<times> node_event list"

definition act_ret :: "'a \<Rightarrow> 'a act" where
  "act_ret x = (Ok x, [])"

definition act_fail :: "AgentError \<Rightarrow> 'a act" where
  "act_fail e = (Err e, [])"

definition act_of :: "(AgentError, 'a) result \<Rightarrow> 'a act" where
  "act_of r = (r, [])"

definition act_note :: "node_event list \<Rightarrow> unit act" where
  "act_note evs = (Ok (), evs)"

definition act_bind :: "'a act \<Rightarrow> ('a \<Rightarrow> 'b act) \<Rightarrow> 'b act" where
  "act_bind m f = (case fst m of
      Inl e \<Rightarrow> (Err e, snd m)
    | Inr x \<Rightarrow> (fst (f x), snd m @ snd (f x)))"

text \<open>\<open>let res = inner.await\<close>: the result of a call kept as a value, so that what follows runs
  on failure as well.\<close>

definition act_then :: "'a act \<Rightarrow> ((AgentError, 'a) result \<Rightarrow> 'b act) \<Rightarrow> 'b act" where
  "act_then m f = (fst (f (fst m)), snd m @ snd (f (fst m)))"

section \<open>The world an operation runs in\<close>

datatype 'a joined = JoinError string | Joined "(EngineError, 'a) result"

text \<open>One batch as the JSON writer of Arrow gives it, row by row: the fields of each object in
  the order they are written, or the text of its error.\<close>

type_synonym RecordBatch = "(string, (string \<times> Value) list list) result"

record ArrowReadStream =
  as_schema :: "string list"
  as_batches :: "(AgentError, RecordBatch) result list"
  as_meta :: "QueryMeta option option"
  as_served_by :: string
  as_traceparent :: string

text \<open>
  What became of the engine's streaming read: the schema if it was delivered, the batches the
  consumer received, how the engine call ended (\<open>None\<close>: it died) and whether the consumer had
  room for an error sent after the batches.
\<close>

record arrow_run =
  aw_schema :: "string list option"
  aw_batches :: "RecordBatch list"
  aw_result :: "(EngineError, QueryMeta) result option"
  aw_room :: bool

record world =
  w_pond_info :: "string \<Rightarrow> (AgentError, PondInfo) result"
  w_create_pond :: "string option \<Rightarrow> string \<Rightarrow> string \<Rightarrow> string \<Rightarrow> string list \<Rightarrow> bool \<Rightarrow> (AgentError, PondInfo) result"
  w_list_ponds :: "(AgentError, PondInfo list) result"
  w_drop_pond :: "string \<Rightarrow> (AgentError, unit) result"
  w_list_datasets :: "string \<Rightarrow> (AgentError, DatasetInfo list) result"
  w_get_dataset :: "string \<Rightarrow> (AgentError, DatasetInfo) result"
  w_list_catalogs :: "string \<Rightarrow> (AgentError, CatalogInfo list) result"
  w_get_catalog :: "string \<Rightarrow> (AgentError, CatalogInfo) result"
  w_ensure :: "string \<Rightarrow> bool \<Rightarrow> (StorageError, PondLocation) result"
  w_location :: "string \<Rightarrow> (StorageError, PondLocation) result"
  w_init :: "PondLocation \<Rightarrow> unit joined"
  w_describe :: "PondLocation \<Rightarrow> SchemaSummary joined"
  w_read :: "PondLocation \<Rightarrow> string \<Rightarrow> QueryResult joined"
  w_write :: "PondLocation \<Rightarrow> string \<Rightarrow> Identity \<Rightarrow> string option \<Rightarrow> QueryResult joined"
  w_plan :: "PondLocation \<Rightarrow> string \<Rightarrow> QueryMeta option"
  w_read_arrow :: "PondLocation \<Rightarrow> string \<Rightarrow> arrow_run"
  w_explain :: "PondLocation \<Rightarrow> string \<Rightarrow> ExplainResult joined"
  w_pull :: "PondLocation \<Rightarrow> string \<Rightarrow> string \<Rightarrow> params \<Rightarrow> string \<Rightarrow> Identity \<Rightarrow> string option \<Rightarrow> QueryMeta joined"
  w_describe_catalog :: "PondLocation \<Rightarrow> string \<Rightarrow> string \<Rightarrow> params \<Rightarrow> (string \<times> string) list joined"
  w_fwd_read :: "Peer \<Rightarrow> Identity \<Rightarrow> string \<Rightarrow> string \<Rightarrow> 64 word option \<Rightarrow> (AgentError, QueryResult) result"
  w_fwd_write :: "Peer \<Rightarrow> Identity \<Rightarrow> string \<Rightarrow> string \<Rightarrow> 64 word option \<Rightarrow> (AgentError, QueryResult) result"
  w_fwd_read_arrow :: "Peer \<Rightarrow> Identity \<Rightarrow> string \<Rightarrow> string \<Rightarrow> 64 word option \<Rightarrow> (AgentError, ArrowReadStream) result"
  w_fwd_explain :: "Peer \<Rightarrow> Identity \<Rightarrow> string \<Rightarrow> string \<Rightarrow> (AgentError, ExplainResult) result"
  w_fwd_describe :: "Peer \<Rightarrow> Identity \<Rightarrow> string \<Rightarrow> (AgentError, DescribeResult) result"
  w_fwd_lineage :: "Peer \<Rightarrow> Identity \<Rightarrow> string \<Rightarrow> nat \<Rightarrow> string option \<Rightarrow> string option \<Rightarrow> (AgentError, LineagePage) result"
  w_fwd_drop :: "Peer \<Rightarrow> Identity \<Rightarrow> string \<Rightarrow> bool \<Rightarrow> (AgentError, unit) result"
  w_fwd_materialize :: "Peer \<Rightarrow> Identity \<Rightarrow> string \<Rightarrow> (AgentError, unit) result"
  w_fwd_pull :: "Peer \<Rightarrow> Identity \<Rightarrow> string \<Rightarrow> string \<Rightarrow> string \<Rightarrow> params \<Rightarrow> (AgentError, PullResult) result"
  w_fwd_describe_catalog :: "Peer \<Rightarrow> Identity \<Rightarrow> string \<Rightarrow> string \<Rightarrow> params \<Rightarrow> (AgentError, (string \<times> string) list) result"
  w_parse_id :: "string \<Rightarrow> (string, string) result"
  w_op_id :: string
  w_pre_cancelled :: bool
  w_deadline :: "deadline_event list"
  w_elapsed :: "64 word"
  w_trace_id :: "string option"
  w_traceparent :: "string option"
  w_has_writer :: "string \<Rightarrow> bool"
  w_writers_poisoned :: bool
  w_batch_due :: bool
  w_lineage_listing :: "string \<Rightarrow> (string, string option list) result"
  w_lineage_file :: "string \<Rightarrow> string \<Rightarrow> batch_file"
  w_lineage_join :: "string option"
  w_parse_json :: "string \<Rightarrow> Value option"
  w_parse_time :: "string \<Rightarrow> int option"

section \<open>The access trail\<close>

text \<open>\<open>audit_op\<close> is \<open>AgentOps::audit\<close> with the emitter of \<open>access.rs\<close>.\<close>

definition access_record :: "world \<Rightarrow> Identity \<Rightarrow> string \<Rightarrow> string option \<Rightarrow> string option \<Rightarrow> 64 word \<Rightarrow> string \<Rightarrow> Access" where
  "access_record w ident op pond summary dur out =
     \<lparr>acc_identity = ident, acc_op = op, acc_pond = (case pond of None \<Rightarrow> ''-'' | Some p \<Rightarrow> p),
      acc_trace_id = (case w_trace_id w of None \<Rightarrow> ''-'' | Some t \<Rightarrow> t), acc_duration_ms = dur,
      acc_summary = (case summary of None \<Rightarrow> [] | Some s \<Rightarrow> s), acc_outcome = out\<rparr>"

definition access_outcome :: "('e, 'a) result \<Rightarrow> string" where
  "access_outcome res = (if is_ok res then ''ok'' else ''error'')"

definition audit_op :: "world \<Rightarrow> Identity \<Rightarrow> string \<Rightarrow> string option \<Rightarrow> string option \<Rightarrow> 64 word \<Rightarrow> string \<Rightarrow> unit act" where
  "audit_op w ident op pond summary dur out = act_note [Accessed (access_record w ident op pond summary dur out)]"

definition audit_err :: "world \<Rightarrow> Identity \<Rightarrow> string \<Rightarrow> string option \<Rightarrow> string option \<Rightarrow> 64 word \<Rightarrow> AgentError \<Rightarrow> 'a act" where
  "audit_err w ident op pond summary dur e =
     act_bind (audit_op w ident op pond summary dur ''error'') (\<lambda>_. act_fail e)"

definition pond_info_audited :: "world \<Rightarrow> Identity \<Rightarrow> string \<Rightarrow> string \<Rightarrow> PondInfo act" where
  "pond_info_audited w ident op pond_ref =
     (case w_pond_info w pond_ref of
        Inr info \<Rightarrow> act_ret info
      | Inl e \<Rightarrow> audit_err w ident op (Some pond_ref) None 0 e)"

section \<open>Where a pond's work belongs\<close>

definition placement :: "AgentOps \<Rightarrow> PondInfo \<Rightarrow> Placement" where
  "placement ag info =
     (case (has_forwarder ag, self_node_id ag, self_endpoint ag) of
        (True, Some me, Some my_address) \<Rightarrow>
          (case Option.bind (pi_node_id info) non_empty of
             None \<Rightarrow> NoOwner
           | Some owner_id \<Rightarrow>
               if owner_id = me then Local
               else (case Option.bind (pi_node_endpoint info) non_empty of
                       None \<Rightarrow> NoOwner
                     | Some owner \<Rightarrow>
                         if owner = my_address then NoOwner
                         else Forward \<lparr>peer_node_id = owner_id, peer_endpoint = owner\<rparr>))
      | _ \<Rightarrow> Local)"

definition route :: "world \<Rightarrow> AgentOps \<Rightarrow> Identity \<Rightarrow> string \<Rightarrow> PondInfo \<Rightarrow> Peer option act" where
  "route w ag ident op info =
     (case placement ag info of
        Local \<Rightarrow> act_ret None
      | Forward owner \<Rightarrow> act_ret (Some owner)
      | NoOwner \<Rightarrow> audit_err w ident op (Some (pi_pond_id info)) None 0 (pond_unavailable (pi_name info)))"

definition IN_PROCESS_NODE :: string where
  "IN_PROCESS_NODE = ''in-process''"

definition serving_name :: "AgentOps \<Rightarrow> string" where
  "serving_name ag = (case self_endpoint ag of Some e \<Rightarrow> e | None \<Rightarrow> IN_PROCESS_NODE)"

section \<open>Steps the operations share\<close>

definition parse_id :: "world \<Rightarrow> string \<Rightarrow> (AgentError, string) result" where
  "parse_id w s = map_err (\<lambda>e. internal_error (''bad pond id: '' @ e)) (w_parse_id w s)"

definition tier_limits :: "string \<Rightarrow> ResourceLimits option" where
  "tier_limits t = tier_limits_of (case tier_parse t of Some x \<Rightarrow> x | None \<Rightarrow> tier_default)"

text \<open>The four assignments that follow every \<open>ensure_pond\<close>.\<close>

definition dressed :: "PondInfo \<Rightarrow> PondLocation \<Rightarrow> PondLocation" where
  "dressed info loc = loc\<lparr>catalog_name := pi_name info, limits := tier_limits (pi_tier info),
     loc_extensions := pi_extensions info, loc_lineage := pi_lineage info\<rparr>"

definition ensure_local :: "world \<Rightarrow> PondInfo \<Rightarrow> PondLocation act" where
  "ensure_local w info =
     act_bind (act_of (parse_id w (pi_pond_id info))) (\<lambda>pid.
     act_bind (act_note [Ensured pid (pi_lineage info)]) (\<lambda>_.
     act_bind (act_of (map_err (\<lambda>e. storage_error (''storage: '' @ storage_error_text e)) (w_ensure w pid (pi_lineage info))))
       (\<lambda>loc. act_ret (dressed info loc))))"

definition join_err :: "string \<Rightarrow> AgentError" where
  "join_err e = internal_error (''join: '' @ e)"

definition joined_result :: "'a joined \<Rightarrow> (AgentError, 'a) result" where
  "joined_result j = (case j of JoinError e \<Rightarrow> Err (join_err e) | Joined r \<Rightarrow> map_err from_engine r)"

definition run_engine :: "engine_call \<Rightarrow> PondLocation \<Rightarrow> 'a joined \<Rightarrow> 'a act" where
  "run_engine c loc j = act_bind (act_note [EngineRan c loc]) (\<lambda>_. act_of (joined_result j))"

text \<open>The deadline at the moment the engine call has returned.\<close>

definition final_deadline :: "world \<Rightarrow> AgentOps \<Rightarrow> QueryControls \<Rightarrow> Deadline" where
  "final_deadline w ag c = fold deadline_step (w_deadline w) (arm (w_pre_cancelled w) (timeouts (ag_config ag)) c)"

subsection \<open>Lineage\<close>

text \<open>Whether a writer can be had for the pond: the one it has, or a new one when the map of
  writers is not poisoned and the pond's location resolves.\<close>

definition lineage_writer :: "world \<Rightarrow> PondInfo \<Rightarrow> bool" where
  "lineage_writer w info \<longleftrightarrow> \<not> w_writers_poisoned w
     \<and> (w_has_writer w (pi_pond_id info)
        \<or> (case parse_id w (pi_pond_id info) of Inl _ \<Rightarrow> False | Inr pid \<Rightarrow> is_ok (w_location w pid)))"

definition emit_lineage :: "world \<Rightarrow> AgentOps \<Rightarrow> QueryRecord \<Rightarrow> unit act" where
  "emit_lineage w ag rc =
     (if \<not> pi_lineage (rec_info rc) then act_ret ()
      else if \<not> lineage_writer w (rec_info rc) then act_ret ()
      else act_note (LineageRecorded (serving_name ag) rc # (if w_batch_due w then [FlushedWriter (pi_pond_id (rec_info rc))] else [])))"

text \<open>\<open>EvictedWriter\<close> is the removal from the map with the flush of the writer that was removed,
  if there was one.\<close>

definition evict_lineage_writer :: "world \<Rightarrow> string \<Rightarrow> unit act" where
  "evict_lineage_writer w pid =
     act_note (if w_writers_poisoned w then [] else [EvictedWriter pid])"

definition flush_pond_lineage :: "world \<Rightarrow> string \<Rightarrow> unit act" where
  "flush_pond_lineage w pid = act_note (if w_has_writer w pid \<and> \<not> w_writers_poisoned w then [FlushedWriter pid] else [])"

section \<open>Rules\<close>

named_theorems act_simps \<open>unfolding the plumbing of an operation\<close>

lemma act_simps1 [act_simps, simp]:
  "act_bind (Err e, evs) f = (Err e, evs)"
  "act_bind (Ok x, evs) f = (fst (f x), evs @ snd (f x))"
  by (simp_all add: act_bind_def)

lemmas act_prims [act_simps] = act_ret_def act_fail_def act_of_def act_note_def act_then_def

lemma fst_act_then [simp]: "fst (act_then m f) = fst (f (fst m))" and snd_act_then [simp]: "snd (act_then m f) = snd m @ snd (f (fst m))"
  by (simp_all add: act_then_def)

lemma act_bind_cases:
  obtains (stop) e where "fst m = Inl e" "act_bind m f = (Err e, snd m)"
  | (go) x where "fst m = Inr x" "act_bind m f = (fst (f x), snd m @ snd (f x))"
  by (cases "fst m") (auto simp: act_bind_def)

lemma audit_err_eq [act_simps]:
  "audit_err w ident op pond summary dur e = (Err e, [Accessed (access_record w ident op pond summary dur ''error'')])"
  by (simp add: audit_err_def audit_op_def act_simps)

lemma audit_op_eq [act_simps]:
  "audit_op w ident op pond summary dur out = (Ok (), [Accessed (access_record w ident op pond summary dur out)])"
  by (simp add: audit_op_def act_simps)

end
