(* ===== verification/Agent_Ops.thy ===== *)
theory Agent_Ops
  imports Agent_Node
begin

text \<open>
  The operations of \<open>AgentOps\<close> (\<open>latiq-agent-core/src/ops.rs\<close>), in the order of the file. Each
  public operation resolves the pond, decides where its work belongs, and then forwards, refuses
  or serves it; the part that runs when this node serves it has the suffix \<open>_local\<close> as in the code.
  Log lines are not modelled; the access trail, the counters and the lineage records are.
\<close>

section \<open>Ponds\<close>

definition materialize_here :: "world \<Rightarrow> PondInfo \<Rightarrow> unit act" where
  "materialize_here w info = act_bind (ensure_local w info) (\<lambda>loc. run_engine InitPond loc (w_init w loc))"

definition materialize_pond :: "world \<Rightarrow> AgentOps \<Rightarrow> Identity \<Rightarrow> string \<Rightarrow> unit act" where
  "materialize_pond w ag ident pond_ref =
     act_bind (pond_info_audited w ident ''materialize_pond'' pond_ref) (\<lambda>info.
     act_bind (route w ag ident ''materialize_pond'' info) (\<lambda>r. case r of
       Some owner \<Rightarrow> act_bind (act_note [Forwarded ''materialize_pond'' owner]) (\<lambda>_.
         act_of (w_fwd_materialize w owner ident pond_ref))
     | None \<Rightarrow> act_then (materialize_here w info) (\<lambda>res.
         act_bind (audit_op w ident ''materialize_pond'' (Some (pi_pond_id info)) None (w_elapsed w) (access_outcome res)) (\<lambda>_.
         act_of res))))"

definition allocate_pond_inner :: "world \<Rightarrow> Identity \<Rightarrow> string option \<Rightarrow> string \<Rightarrow> string \<Rightarrow> string list \<Rightarrow> bool \<Rightarrow> AllocateResult act" where
  "allocate_pond_inner w ident nm pol tr exts lin =
     act_bind (act_of (w_create_pond w nm (agent_id ident) pol tr exts lin)) (\<lambda>info.
     act_bind (act_note [ControlCreated (pi_pond_id info)]) (\<lambda>_.
     act_ret \<lparr>al_pond_id = pi_pond_id info, al_pond_name = pi_name info\<rparr>))"

definition allocate_pond :: "world \<Rightarrow> Identity \<Rightarrow> string option \<Rightarrow> string \<Rightarrow> string \<Rightarrow> string list \<Rightarrow> bool \<Rightarrow> AllocateResult act" where
  "allocate_pond w ident nm pol tr exts lin =
     act_then (allocate_pond_inner w ident nm pol tr exts lin) (\<lambda>res.
     act_bind (audit_op w ident ''allocate_pond'' (case res of Inr r \<Rightarrow> Some (al_pond_id r) | Inl _ \<Rightarrow> None) None
       (w_elapsed w) (access_outcome res)) (\<lambda>_.
     act_of res))"

definition describe_pond_local :: "world \<Rightarrow> PondInfo \<Rightarrow> SchemaSummary act" where
  "describe_pond_local w info = act_bind (ensure_local w info) (\<lambda>loc. run_engine DescribeSchema loc (w_describe w loc))"

definition describe_pond :: "world \<Rightarrow> AgentOps \<Rightarrow> Identity \<Rightarrow> string \<Rightarrow> DescribeResult act" where
  "describe_pond w ag ident pond_ref =
     act_bind (pond_info_audited w ident ''describe_pond'' pond_ref) (\<lambda>info.
     act_bind (route w ag ident ''describe_pond'' info) (\<lambda>r. case r of
       Some owner \<Rightarrow> act_bind (act_note [Forwarded ''describe_pond'' owner]) (\<lambda>_.
         act_of (w_fwd_describe w owner ident pond_ref))
     | None \<Rightarrow> act_then (describe_pond_local w info) (\<lambda>res.
         act_bind (audit_op w ident ''describe_pond'' (Some (pi_pond_id info)) None (w_elapsed w) (access_outcome res)) (\<lambda>_.
         act_bind (act_of res) (\<lambda>sch. act_ret \<lparr>de_pond = info, de_schema = sch\<rparr>)))))"

definition list_ponds_op :: "world \<Rightarrow> Identity \<Rightarrow> PondInfo list act" where
  "list_ponds_op w ident =
     act_bind (audit_op w ident ''list_ponds'' None None 0 (access_outcome (w_list_ponds w))) (\<lambda>_.
     act_of (w_list_ponds w))"

definition drop_confirm_error :: "string \<Rightarrow> AgentError" where
  \<open>drop_confirm_error pond_ref =
     rendered MissingArgument ''drop_pond deletes pond '{pond}' and all its data; set confirm=true to proceed''
       (facts [(''pond'', Text pond_ref)])\<close>

text \<open>What follows once the control plane has dropped the pond's row.\<close>

definition drop_files :: "world \<Rightarrow> string \<Rightarrow> string \<Rightarrow> unit act" where
  "drop_files w pond pid =
     act_bind (act_note (case w_location w pid of Inr loc \<Rightarrow> [ForgotEngine loc] | Inl _ \<Rightarrow> [])) (\<lambda>_.
     act_bind (evict_lineage_writer w pond) (\<lambda>_.
     act_bind (act_note [StorageDropped pid]) (\<lambda>_.
     act_bind (evict_lineage_writer w pond) (\<lambda>_.
     act_note [EndedDrop pond]))))"

definition drop_pond_local :: "world \<Rightarrow> Identity \<Rightarrow> PondInfo \<Rightarrow> unit act" where
  "drop_pond_local w ident info =
     (let pond = pi_pond_id info in
      case parse_id w pond of
        Inl e \<Rightarrow> audit_err w ident ''drop_pond'' (Some pond) None 0 e
      | Inr pid \<Rightarrow>
          act_bind (act_note [BeganDrop pond]) (\<lambda>_.
          case w_drop_pond w pond of
            Inl e \<Rightarrow> act_bind (act_note [EndedDrop pond]) (\<lambda>_.
              audit_err w ident ''drop_pond'' (Some pond) None (w_elapsed w) e)
          | Inr _ \<Rightarrow>
              act_bind (act_note [ControlDropped pond]) (\<lambda>_.
              act_bind (drop_files w pond pid) (\<lambda>_.
              audit_op w ident ''drop_pond'' (Some pond) None (w_elapsed w) ''ok''))))"

definition drop_pond_op :: "world \<Rightarrow> AgentOps \<Rightarrow> Identity \<Rightarrow> string \<Rightarrow> bool \<Rightarrow> unit act" where
  "drop_pond_op w ag ident pond_ref confirm =
     (if \<not> confirm then audit_err w ident ''drop_pond'' (Some pond_ref) None 0 (drop_confirm_error pond_ref)
      else
        act_bind (pond_info_audited w ident ''drop_pond'' pond_ref) (\<lambda>info.
        act_bind (route w ag ident ''drop_pond'' info) (\<lambda>r. case r of
          Some owner \<Rightarrow> act_bind (act_note [Forwarded ''drop_pond'' owner]) (\<lambda>_.
            act_of (w_fwd_drop w owner ident pond_ref confirm))
        | None \<Rightarrow> drop_pond_local w ident info)))"

section \<open>Statements\<close>

text \<open>The parts of a read or a write that depend on which of the two it is.\<close>

definition query_op :: "bool \<Rightarrow> string" where
  "query_op wr = (if wr then ''write_query'' else ''read_query'')"

definition query_label :: "bool \<Rightarrow> string" where
  "query_label wr = (if wr then ''write'' else ''read'')"

definition engine_query :: "world \<Rightarrow> bool \<Rightarrow> PondLocation \<Rightarrow> string \<Rightarrow> Identity \<Rightarrow> QueryResult joined" where
  "engine_query w wr loc sql ident = (if wr then w_write w loc sql ident (w_trace_id w) else w_read w loc sql)"

definition stamped_result :: "world \<Rightarrow> AgentOps \<Rightarrow> Deadline \<Rightarrow> QueryResult \<Rightarrow> QueryResult" where
  "stamped_result w ag d qr = qr\<lparr>qr_meta := (qr_meta qr)\<lparr>served_by := serving_name ag, timeout_ms := effective_ms d,
     qm_trace_id := (case w_trace_id w of Some t \<Rightarrow> t | None \<Rightarrow> []),
     qm_traceparent := (case w_traceparent w of Some t \<Rightarrow> t | None \<Rightarrow> [])\<rparr>\<rparr>"

text \<open>The plan that is asked for when a write failed, and only then.\<close>

definition planned_datasets :: "world \<Rightarrow> bool \<Rightarrow> PondLocation \<Rightarrow> string \<Rightarrow> QueryResult joined \<Rightarrow> QueryMeta option" where
  "planned_datasets w wr loc sql j = (case j of Joined (Inl _) \<Rightarrow> (if wr then w_plan w loc sql else None) | _ \<Rightarrow> None)"

definition engine_events :: "bool \<Rightarrow> PondLocation \<Rightarrow> QueryResult joined \<Rightarrow> node_event list" where
  "engine_events wr loc j = EngineRan (if wr then WriteQuery else ReadQuery) loc
     # (case j of Joined (Inl _) \<Rightarrow> (if wr then [EngineRan PlanDatasets loc] else []) | _ \<Rightarrow> [])"

text \<open>The answer to a statement the engine has run, with the result's cap and its stamps.\<close>

definition finish_query :: "world \<Rightarrow> AgentOps \<Rightarrow> PondInfo \<Rightarrow> bool \<Rightarrow> Deadline \<Rightarrow> QueryResult joined \<Rightarrow> QueryResult act" where
  "finish_query w ag info wr d j =
     (case j of
        JoinError e \<Rightarrow> act_fail (join_err e)
      | Joined (Inl e) \<Rightarrow>
          (let ae = classify_error d e in act_bind (act_note [ErrorCounted (pi_name info) (kind ae)]) (\<lambda>_. act_fail ae))
      | Joined (Inr qr) \<Rightarrow>
          (let cap = inline_row_cap (ag_config ag) in
           if \<not> wr \<and> cap < length (qr_rows qr)
           then (let ae = result_cap_exceeded (length (qr_rows qr)) cap
                 in act_bind (act_note [ErrorCounted (pi_name info) (kind ae)]) (\<lambda>_. act_fail ae))
           else act_bind (act_note [DurationRecorded (pi_name info) (query_label wr)]) (\<lambda>_.
                act_ret (stamped_result w ag d qr))))"

text \<open>The value is the result together with what a failed write had planned to touch (the
  out-parameter of the code).\<close>

definition run_query_local :: "world \<Rightarrow> AgentOps \<Rightarrow> PondInfo \<Rightarrow> string \<Rightarrow> Identity \<Rightarrow> bool \<Rightarrow> QueryControls
    \<Rightarrow> QueryMeta option \<times> QueryResult act" where
  "run_query_local w ag info sql ident wr controls =
     (let loc_act = ensure_local w info in
      case fst loc_act of
        Inl e \<Rightarrow> (None, Err e, [QueryCounted (pi_name info) (query_label wr), GaugeUp (pi_name info)] @ snd loc_act)
      | Inr loc \<Rightarrow>
          (let d = final_deadline w ag controls;
               j = engine_query w wr loc sql ident
           in (planned_datasets w wr loc sql j,
               act_bind (act_note ([QueryCounted (pi_name info) (query_label wr), GaugeUp (pi_name info)] @ snd loc_act
                 @ [Registered (w_op_id w) (pi_pond_id info)] @ engine_events wr loc j
                 @ [Completed (w_op_id w), GaugeDown (pi_name info)])) (\<lambda>_.
               finish_query w ag info wr d j))))"

definition query_record :: "AgentOps \<Rightarrow> Identity \<Rightarrow> PondInfo \<Rightarrow> string \<Rightarrow> string \<Rightarrow> 64 word \<Rightarrow> DurationMeaning
    \<Rightarrow> (AgentError, 'a) result \<Rightarrow> QueryMeta option \<Rightarrow> QueryRecord" where
  "query_record ag ident info op sql dur meaning res meta =
     \<lparr>rec_identity = ident, rec_info = info, rec_op = op, rec_sql = sql, rec_duration_ms = dur, rec_meaning = meaning,
      rec_error = (case res of Inl e \<Rightarrow> Some e | Inr _ \<Rightarrow> None), rec_meta = meta, rec_engine_version = ag_engine_version ag\<rparr>"

definition run_query :: "world \<Rightarrow> AgentOps \<Rightarrow> string \<Rightarrow> string \<Rightarrow> Identity \<Rightarrow> bool \<Rightarrow> QueryControls \<Rightarrow> QueryResult act" where
  "run_query w ag pond_ref sql ident wr controls =
     act_bind (pond_info_audited w ident (query_op wr) pond_ref) (\<lambda>info.
     act_bind (route w ag ident (query_op wr) info) (\<lambda>r. case r of
       Some owner \<Rightarrow> act_bind (act_note [Forwarded (query_op wr) owner]) (\<lambda>_.
         act_of (if wr then w_fwd_write w owner ident pond_ref sql (qc_timeout_ms controls)
                 else w_fwd_read w owner ident pond_ref sql (qc_timeout_ms controls)))
     | None \<Rightarrow>
         (case run_query_local w ag info sql ident wr controls of (planned, run) \<Rightarrow>
          act_then run (\<lambda>res.
          act_bind (audit_op w ident (query_op wr) (Some (pi_pond_id info)) (Some (redact_sql sql)) (w_elapsed w) (access_outcome res)) (\<lambda>_.
          act_bind (emit_lineage w ag (query_record ag ident info (query_op wr) sql (w_elapsed w) Completion res
             (case res of Inr qr \<Rightarrow> Some (qr_meta qr) | Inl _ \<Rightarrow> planned))) (\<lambda>_.
          act_of res))))))"

definition controls_none :: QueryControls where
  "controls_none = \<lparr>qc_timeout_ms = None, qc_cancel = False\<rparr>"

definition write_query :: "world \<Rightarrow> AgentOps \<Rightarrow> Identity \<Rightarrow> string \<Rightarrow> string \<Rightarrow> QueryResult act" where
  "write_query w ag ident pond_ref sql = run_query w ag pond_ref sql ident True controls_none"

definition read_query :: "world \<Rightarrow> AgentOps \<Rightarrow> Identity \<Rightarrow> string \<Rightarrow> string \<Rightarrow> QueryResult act" where
  "read_query w ag ident pond_ref sql = run_query w ag pond_ref sql ident False controls_none"

section \<open>Datasets and catalogs\<close>

text \<open>Browsing passes straight through to the control plane.\<close>

definition list_datasets_op :: "world \<Rightarrow> string \<Rightarrow> DatasetInfo list act" where
  "list_datasets_op w query = act_of (w_list_datasets w query)"

definition get_dataset_op :: "world \<Rightarrow> string \<Rightarrow> DatasetInfo act" where
  "get_dataset_op w name = act_of (w_get_dataset w name)"

definition list_catalogs_op :: "world \<Rightarrow> string \<Rightarrow> CatalogInfo list act" where
  "list_catalogs_op w query = act_of (w_list_catalogs w query)"

definition get_catalog_op :: "world \<Rightarrow> string \<Rightarrow> CatalogInfo act" where
  "get_catalog_op w name = act_of (w_get_catalog w name)"

fun load_tables :: "world \<Rightarrow> AgentOps \<Rightarrow> Identity \<Rightarrow> string \<Rightarrow> string \<Rightarrow> DatasetTableRow list \<Rightarrow> string list \<Rightarrow> string list act" where
  "load_tables w ag ident pond_ref schema [] loaded = act_ret loaded"
| "load_tables w ag ident pond_ref schema (t # ts) loaded =
     act_bind (write_query w ag ident pond_ref (dataset_load_sql schema (table_name t) (source_uri t) (format t))) (\<lambda>_.
     load_tables w ag ident pond_ref schema ts (loaded @ [schema @ ''.'' @ table_name t]))"

definition load_dataset_inner :: "world \<Rightarrow> AgentOps \<Rightarrow> Identity \<Rightarrow> string \<Rightarrow> string \<Rightarrow> LoadDatasetResult act" where
  "load_dataset_inner w ag ident pond_ref dataset =
     act_bind (act_of (w_get_dataset w dataset)) (\<lambda>ds.
     act_bind (write_query w ag ident pond_ref (create_schema_sql (ds_name ds))) (\<lambda>_.
     act_bind (load_tables w ag ident pond_ref (ds_name ds) (ds_tables ds) []) (\<lambda>loaded.
     act_ret \<lparr>ld_dataset = ds_name ds, ld_schema = ds_name ds, ld_tables = loaded\<rparr>)))"

definition load_dataset :: "world \<Rightarrow> AgentOps \<Rightarrow> Identity \<Rightarrow> string \<Rightarrow> string \<Rightarrow> LoadDatasetResult act" where
  "load_dataset w ag ident pond_ref dataset =
     act_then (load_dataset_inner w ag ident pond_ref dataset) (\<lambda>res.
     act_bind (audit_op w ident ''load_dataset'' (Some pond_ref) (Some dataset) (w_elapsed w) (access_outcome res)) (\<lambda>_.
     act_of res))"

definition prepare_pull :: "world \<Rightarrow> PondInfo \<Rightarrow> string \<Rightarrow> params \<Rightarrow> (PondLocation \<times> CatalogInfo \<times> params) act" where
  "prepare_pull w info catalog ps =
     act_bind (act_of (w_get_catalog w catalog)) (\<lambda>cat.
     act_bind (ensure_local w info) (\<lambda>loc.
     act_ret (loc, cat, bt_extend (ca_params cat) ps)))"

definition catalog_pull_local :: "world \<Rightarrow> Identity \<Rightarrow> PondInfo \<Rightarrow> string \<Rightarrow> string \<Rightarrow> params \<Rightarrow> (PullResult \<times> QueryMeta) act" where
  "catalog_pull_local w ident info catalog query ps =
     act_bind (prepare_pull w info catalog ps) (\<lambda>(loc, cat, merged).
     act_bind (run_engine PullCatalog loc (w_pull w loc (ca_type cat) (ca_name cat) merged query ident (w_trace_id w))) (\<lambda>meta.
     act_ret (\<lparr>pr_catalog = ca_name cat, pr_query = query\<rparr>, meta)))"

definition catalog_pull :: "world \<Rightarrow> AgentOps \<Rightarrow> Identity \<Rightarrow> string \<Rightarrow> string \<Rightarrow> string \<Rightarrow> params \<Rightarrow> PullResult act" where
  "catalog_pull w ag ident pond_ref catalog query ps =
     act_bind (pond_info_audited w ident ''catalog_pull'' pond_ref) (\<lambda>info.
     act_bind (route w ag ident ''catalog_pull'' info) (\<lambda>r. case r of
       Some owner \<Rightarrow> act_bind (act_note [Forwarded ''catalog_pull'' owner]) (\<lambda>_.
         act_of (w_fwd_pull w owner ident pond_ref catalog query ps))
     | None \<Rightarrow> act_then (catalog_pull_local w ident info catalog query ps) (\<lambda>res.
         act_bind (audit_op w ident ''catalog_pull'' (Some pond_ref) (Some query) (w_elapsed w) (access_outcome res)) (\<lambda>_.
         act_bind (emit_lineage w ag (query_record ag ident info ''catalog_pull'' query (w_elapsed w) Completion res
            (case res of Inr (_, meta) \<Rightarrow> Some meta | Inl _ \<Rightarrow> None))) (\<lambda>_.
         act_of (map_ok fst res))))))"

definition catalog_describe_local :: "world \<Rightarrow> PondInfo \<Rightarrow> string \<Rightarrow> params \<Rightarrow> (string \<times> string) list act" where
  "catalog_describe_local w info catalog ps =
     act_bind (prepare_pull w info catalog ps) (\<lambda>(loc, cat, merged).
     run_engine DescribeCatalog loc (w_describe_catalog w loc (ca_type cat) (ca_name cat) merged))"

definition catalog_describe :: "world \<Rightarrow> AgentOps \<Rightarrow> Identity \<Rightarrow> string \<Rightarrow> string \<Rightarrow> params \<Rightarrow> (string \<times> string) list act" where
  "catalog_describe w ag ident pond_ref catalog ps =
     act_bind (pond_info_audited w ident ''catalog_describe'' pond_ref) (\<lambda>info.
     act_bind (route w ag ident ''catalog_describe'' info) (\<lambda>r. case r of
       Some owner \<Rightarrow> act_bind (act_note [Forwarded ''catalog_describe'' owner]) (\<lambda>_.
         act_of (w_fwd_describe_catalog w owner ident pond_ref catalog ps))
     | None \<Rightarrow> act_then (catalog_describe_local w info catalog ps) (\<lambda>res.
         act_bind (audit_op w ident ''catalog_describe'' (Some (pi_pond_id info)) (Some catalog) (w_elapsed w) (access_outcome res)) (\<lambda>_.
         act_of res))))"

section \<open>Streamed reads\<close>

text \<open>
  What the blocking producer of \<open>read_arrow_local\<close> leaves on its channels: the schema or an error
  on the first, the batches and perhaps an error on the second, the meta on the third. A producer
  that dies leaves its channels closed, and neither completes its operation nor lowers the gauge.
\<close>

definition producer_schema :: "Deadline \<Rightarrow> arrow_run \<Rightarrow> (AgentError, string list) result" where
  "producer_schema d a = (case aw_schema a of
      Some cols \<Rightarrow> Ok cols
    | None \<Rightarrow> (case aw_result a of
        Some (Inl e) \<Rightarrow> Err (classify_error d e)
      | _ \<Rightarrow> Err (internal_error ''arrow read produced no schema'')))"

definition producer_batches :: "Deadline \<Rightarrow> arrow_run \<Rightarrow> (AgentError, RecordBatch) result list" where
  "producer_batches d a = map Ok (aw_batches a)
     @ (case aw_result a of Some (Inl e) \<Rightarrow> (if aw_room a then [Err (classify_error d e)] else []) | _ \<Rightarrow> [])"

definition producer_meta :: "Deadline \<Rightarrow> arrow_run \<Rightarrow> QueryMeta option" where
  "producer_meta d a = (case aw_result a of Some (Inr m) \<Rightarrow> Some (m\<lparr>timeout_ms := effective_ms d\<rparr>) | _ \<Rightarrow> None)"

definition producer_events :: "world \<Rightarrow> PondInfo \<Rightarrow> PondLocation \<Rightarrow> arrow_run \<Rightarrow> node_event list" where
  "producer_events w info loc a = EngineRan ReadArrow loc
     # (case aw_result a of None \<Rightarrow> []
        | Some _ \<Rightarrow> [Completed (w_op_id w), DurationRecorded (pi_name info) ''read'', GaugeDown (pi_name info)])"

text \<open>The answer of the call, once the first channel has spoken or closed.\<close>

definition establish :: "world \<Rightarrow> AgentOps \<Rightarrow> PondInfo \<Rightarrow> Deadline \<Rightarrow> arrow_run \<Rightarrow> ArrowReadStream act" where
  "establish w ag info d a =
     (case producer_schema d a of
        Inl e \<Rightarrow> (Err e, (case (aw_schema a, aw_result a) of
                          (None, Some (Inl _)) \<Rightarrow> [ErrorCounted (pi_name info) (kind e)] | _ \<Rightarrow> []))
      | Inr cols \<Rightarrow> act_ret \<lparr>as_schema = cols, as_batches = producer_batches d a, as_meta = Some (producer_meta d a),
          as_served_by = serving_name ag, as_traceparent = (case w_traceparent w of Some t \<Rightarrow> t | None \<Rightarrow> [])\<rparr>)"

definition read_arrow_local :: "world \<Rightarrow> AgentOps \<Rightarrow> PondInfo \<Rightarrow> string \<Rightarrow> QueryControls \<Rightarrow> ArrowReadStream act" where
  "read_arrow_local w ag info sql controls =
     act_bind (act_note [QueryCounted (pi_name info) ''read'', GaugeUp (pi_name info)]) (\<lambda>_.
     act_bind (ensure_local w info) (\<lambda>loc.
     (let d = final_deadline w ag controls; a = w_read_arrow w loc sql in
      act_bind (act_note (Registered (w_op_id w) (pi_pond_id info) # producer_events w info loc a)) (\<lambda>_.
      establish w ag info d a))))"

definition read_arrow :: "world \<Rightarrow> AgentOps \<Rightarrow> Identity \<Rightarrow> string \<Rightarrow> string \<Rightarrow> QueryControls \<Rightarrow> ArrowReadStream act" where
  "read_arrow w ag ident pond_ref sql controls =
     act_bind (pond_info_audited w ident ''read_arrow'' pond_ref) (\<lambda>info.
     act_bind (route w ag ident ''read_arrow'' info) (\<lambda>r. case r of
       Some owner \<Rightarrow> act_bind (act_note [Forwarded ''read_arrow'' owner]) (\<lambda>_.
         act_of (w_fwd_read_arrow w owner ident pond_ref sql (qc_timeout_ms controls)))
     | None \<Rightarrow> act_then (read_arrow_local w ag info sql controls) (\<lambda>res.
         act_bind (audit_op w ident ''read_arrow'' (Some (pi_pond_id info)) (Some (redact_sql sql)) (w_elapsed w) (access_outcome res)) (\<lambda>_.
         act_bind (emit_lineage w ag (query_record ag ident info ''read_arrow'' sql (w_elapsed w) Establishment res None)) (\<lambda>_.
         act_of res)))))"

text \<open>
  A row of a batch: its object as a map, in which a later field replaces an earlier one of the
  same name, and from which each column is taken out once, in order.
\<close>

fun take_columns :: "(string \<rightharpoonup> Value) \<Rightarrow> string list \<Rightarrow> Value list" where
  "take_columns obj [] = []"
| "take_columns obj (c # cs) = (case obj c of Some v \<Rightarrow> v | None \<Rightarrow> JNull) # take_columns (obj(c := None)) cs"

definition object_map :: "(string \<times> Value) list \<Rightarrow> string \<rightharpoonup> Value" where
  "object_map kvs = fold (\<lambda>(k, v) obj. obj(k \<mapsto> v)) kvs Map.empty"

definition append_batch_rows :: "RecordBatch \<Rightarrow> string list \<Rightarrow> Value list list \<Rightarrow> (AgentError, Value list list) result" where
  "append_batch_rows b columns out = (case b of
      Inl e \<Rightarrow> Err (internal_error (''arrow->json: '' @ e))
    | Inr objs \<Rightarrow> Ok (out @ map (\<lambda>kvs. take_columns (object_map kvs) columns) objs))"

fun collect_rows :: "nat \<Rightarrow> string list \<Rightarrow> (AgentError, RecordBatch) result list \<Rightarrow> Value list list \<Rightarrow> (AgentError, Value list list) result" where
  "collect_rows cap columns [] out = Ok out"
| "collect_rows cap columns (Inl e # bs) out = Err e"
| "collect_rows cap columns (Inr b # bs) out = (case append_batch_rows b columns out of
      Inl e \<Rightarrow> Err e
    | Inr out' \<Rightarrow> if cap < length out' then Err (result_cap_exceeded_unknown cap) else collect_rows cap columns bs out')"

definition collect_stream :: "world \<Rightarrow> AgentOps \<Rightarrow> ArrowReadStream \<Rightarrow> (AgentError, QueryResult) result" where
  "collect_stream w ag st = (case collect_rows (inline_row_cap (ag_config ag)) (as_schema st) (as_batches st) [] of
      Inl e \<Rightarrow> Err e
    | Inr rows \<Rightarrow>
        (let meta = (case as_meta st of Some (Some m) \<Rightarrow> m | _ \<Rightarrow> meta_default)
         in Ok \<lparr>qr_columns = as_schema st, qr_rows = rows,
               qr_meta = meta\<lparr>qm_rows := length rows, served_by := as_served_by st,
                 qm_trace_id := (case w_trace_id w of Some t \<Rightarrow> t | None \<Rightarrow> []),
                 qm_traceparent := as_traceparent st\<rparr>\<rparr>))"

definition read_collected :: "world \<Rightarrow> AgentOps \<Rightarrow> Identity \<Rightarrow> string \<Rightarrow> string \<Rightarrow> QueryControls \<Rightarrow> QueryResult act" where
  "read_collected w ag ident pond_ref sql controls =
     act_bind (pond_info_audited w ident ''read_query'' pond_ref) (\<lambda>info.
     act_bind (route w ag ident ''read_query'' info) (\<lambda>r. case r of
       Some owner \<Rightarrow> act_bind (act_note [Forwarded ''read_query'' owner]) (\<lambda>_.
         act_bind (act_of (w_fwd_read_arrow w owner ident pond_ref sql (qc_timeout_ms controls))) (\<lambda>st.
         act_of (collect_stream w ag st)))
     | None \<Rightarrow> act_then (act_bind (read_arrow_local w ag info sql controls) (\<lambda>st. act_of (collect_stream w ag st))) (\<lambda>res.
         act_bind (audit_op w ident ''read_query'' (Some (pi_pond_id info)) (Some (redact_sql sql)) (w_elapsed w) (access_outcome res)) (\<lambda>_.
         act_bind (emit_lineage w ag (query_record ag ident info ''read_query'' sql (w_elapsed w) Completion res
            (case res of Inr qr \<Rightarrow> Some (qr_meta qr) | Inl _ \<Rightarrow> None))) (\<lambda>_.
         act_of res)))))"

section \<open>Plans and lineage pages\<close>

definition explain_query_local :: "world \<Rightarrow> PondInfo \<Rightarrow> string \<Rightarrow> ExplainResult act" where
  "explain_query_local w info sql = act_bind (ensure_local w info) (\<lambda>loc. run_engine ExplainQuery loc (w_explain w loc sql))"

definition explain_query :: "world \<Rightarrow> AgentOps \<Rightarrow> Identity \<Rightarrow> string \<Rightarrow> string \<Rightarrow> ExplainResult act" where
  "explain_query w ag ident pond_ref sql =
     act_bind (pond_info_audited w ident ''explain_query'' pond_ref) (\<lambda>info.
     act_bind (route w ag ident ''explain_query'' info) (\<lambda>r. case r of
       Some owner \<Rightarrow> act_bind (act_note [Forwarded ''explain_query'' owner]) (\<lambda>_.
         act_of (w_fwd_explain w owner ident pond_ref sql))
     | None \<Rightarrow> act_then (explain_query_local w info sql) (\<lambda>res.
         act_bind (audit_op w ident ''explain_query'' (Some (pi_pond_id info)) (Some (redact_sql sql)) (w_elapsed w) (access_outcome res)) (\<lambda>_.
         act_of res))))"

definition LINEAGE_RECIPE :: string where
  "LINEAGE_RECIPE = ''latiq://recipes/lineage''"

definition zero_limit_error :: AgentError where
  "zero_limit_error =
     rendered_with InvalidValue ''`limit` must be at least 1.''
       (facts [(''max_limit'', Number (of_nat MAX_LIMIT))])
       (''Omit `limit` for the default page, or pass a positive count (clamped to '' @
        ''{max_limit}, and the page reports the value applied as `limit_applied`).'')
       LINEAGE_RECIPE"

definition lineage_off_error :: "string \<Rightarrow> AgentError" where
  \<open>lineage_off_error name =
     rendered_with InvalidValue
       (''Pond '{pond}' does not record lineage -- it was allocated without it, and that is '' @
        ''fixed for the pond's lifetime. No events exist for it, which is NOT the same as '' @
        ''nothing having happened here.'')
       (facts [(''pond'', Text name)])
       (''Allocate a new pond with lineage=true and do the work there; an existing pond '' @
        ''cannot be switched on.'')
       LINEAGE_RECIPE\<close>

definition no_lineage_dir_error :: "string \<Rightarrow> AgentError" where
  \<open>no_lineage_dir_error name =
     rendered_with Storage
       (''Pond '{pond}' has no lineage directory on the node that owns it -- nothing has '' @
        ''been recorded for it yet.'')
       (facts [(''pond'', Text name)])
       (''Run a query against the pond first; its events appear once something has '' @
        ''happened in it.'')
       LINEAGE_RECIPE\<close>

fun read_error :: "ReadError \<Rightarrow> AgentError" where
  \<open>read_error (BadTimestamp field value) =
     rendered_with InvalidValue ''`{field}` is not an RFC-3339 timestamp: '{value}'.''
       (facts [(''field'', Text field), (''value'', Text value)])
       ''Pass an RFC-3339 instant, e.g. since='2026-08-14T10:00:00Z', or omit it.''
       LINEAGE_RECIPE\<close>
| \<open>read_error (ReadIo io) = for_kind Storage (''The pond's lineage directory could not be read: '' @ io)\<close>

definition get_lineage_local :: "world \<Rightarrow> PondInfo \<Rightarrow> nat \<Rightarrow> string option \<Rightarrow> string option \<Rightarrow> LineagePage act" where
  "get_lineage_local w info lim lo hi =
     (if \<not> pi_lineage info then act_fail (lineage_off_error (pi_name info))
      else act_bind (act_of (parse_id w (pi_pond_id info))) (\<lambda>pid.
        act_bind (act_of (map_err (\<lambda>_. no_lineage_dir_error (pi_name info)) (w_location w pid))) (\<lambda>loc.
        act_bind (flush_pond_lineage w (pi_pond_id info)) (\<lambda>_.
        act_bind (act_of (case w_lineage_join w of Some e \<Rightarrow> Err (join_err e) | None \<Rightarrow>
          map_err read_error (read_newest (w_parse_json w) (w_parse_time w) (w_lineage_listing w (lineage_dir loc))
            (w_lineage_file w (lineage_dir loc)) \<lparr>limit = lim, since = lo, before = hi\<rparr>))) (\<lambda>page.
        act_ret \<lparr>lp_pond_id = pi_pond_id info, lp_pond_name = pi_name info, lp_lineage_dir = lineage_dir loc,
          lp_events = page_events page, limit_applied = lim, lp_truncated = truncated page,
          lp_malformed_lines = malformed_lines page, lp_unreadable_files = unreadable_files page\<rparr>)))))"

definition get_lineage :: "world \<Rightarrow> AgentOps \<Rightarrow> Identity \<Rightarrow> string \<Rightarrow> nat \<Rightarrow> string option \<Rightarrow> string option \<Rightarrow> LineagePage act" where
  "get_lineage w ag ident pond_ref lim lo hi =
     act_bind (pond_info_audited w ident ''get_lineage'' pond_ref) (\<lambda>info.
      if lim = 0 then audit_err w ident ''get_lineage'' (Some (pi_pond_id info)) None 0 zero_limit_error
      else
       (let lim = min lim MAX_LIMIT in
        act_bind (route w ag ident ''get_lineage'' info) (\<lambda>r. case r of
          Some owner \<Rightarrow> act_bind (act_note [Forwarded ''get_lineage'' owner]) (\<lambda>_.
            act_of (w_fwd_lineage w owner ident pond_ref lim lo hi))
        | None \<Rightarrow> act_then (get_lineage_local w info lim lo hi) (\<lambda>res.
            act_bind (audit_op w ident ''get_lineage'' (Some (pi_pond_id info)) None (w_elapsed w) (access_outcome res)) (\<lambda>_.
            act_of res)))))"

end
