(* ===== verification/Agent_Facts.thy ===== *)
theory Agent_Facts
  imports Agent_Ops
begin

text \<open>
  What holds of every operation of a pond node: one access record where the operation ran and
  none where it was relayed, work on a pond only at its owner, the order of a drop, the balance of
  the in-flight registry and of the load gauge, the cap and the stamps of a result, and that rows
  collected from a stream do not depend on how they were batched.

  The operations that resolve a pond and route it share a contract, the locale \<open>pond_operation\<close>.
\<close>

section \<open>What a trace shows\<close>

text \<open>Everything but the trail and the relay is work of this node.\<close>

fun touches :: "node_event \<Rightarrow> bool" where
  "touches (Accessed _) = False"
| "touches (Forwarded _ _) = False"
| "touches _ = True"

definition visible :: "node_event list \<Rightarrow> node_event list" where
  "visible evs = filter (\<lambda>ev. \<not> touches ev) evs"

lemma visible_simps [simp]:
  "visible [] = []" "visible (xs @ ys) = visible xs @ visible ys"
  "visible (ev # evs) = (if touches ev then visible evs else ev # visible evs)"
  by (simp_all add: visible_def)

text \<open>An act that ends with the one record of its own outcome.\<close>

definition ends_recorded :: "Identity \<Rightarrow> string \<Rightarrow> 'a act \<Rightarrow> bool" where
  "ends_recorded ident op m \<longleftrightarrow> (\<exists>a. visible (snd m) = [Accessed a] \<and> acc_identity a = ident \<and> acc_op a = op
     \<and> acc_outcome a = (if is_ok (fst m) then ''ok'' else ''error''))"

lemma access_record_sel [simp]:
  "acc_identity (access_record w i op p s d out) = i" "acc_op (access_record w i op p s d out) = op"
  "acc_outcome (access_record w i op p s d out) = out"
  by (simp_all add: access_record_def)

lemma ends_recorded_err: "ends_recorded i op (audit_err w i op p s d e)"
  by (simp add: ends_recorded_def audit_err_eq)

lemma ends_recorded_rejected [simp]:
  "ends_recorded i op (Err e, [Accessed (access_record w i op p s d ''error'')])"
  by (simp add: ends_recorded_def)

lemma recorded_not_relayed: "ends_recorded i op m \<Longrightarrow> Forwarded o' p \<notin> set (snd m)"
proof
  assume "ends_recorded i op m" "Forwarded o' p \<in> set (snd m)"
  moreover from this have "Forwarded o' p \<in> set (visible (snd m))" by (simp add: visible_def)
  ultimately show False by (auto simp: ends_recorded_def)
qed

lemma ends_recorded_then:
  assumes "visible (snd m) = []"
    and "\<And>res. fst m = res \<Longrightarrow> visible (snd (f res)) = [Accessed (access_record w i op p s d (access_outcome res))]"
    and "\<And>res. fst m = res \<Longrightarrow> is_ok (fst (f res)) = is_ok res"
  shows "ends_recorded i op (act_then m f)"
  using assms by (simp add: ends_recorded_def access_outcome_def)

text \<open>Acts that leave no record.\<close>

lemma silent_bind: "visible (snd m) = [] \<Longrightarrow> (\<And>x. fst m = Inr x \<Longrightarrow> visible (snd (f x)) = []) \<Longrightarrow> visible (snd (act_bind m f)) = []"
  by (cases rule: act_bind_cases [where m = m and f = f]) auto

lemma silent_prims [simp]:
  "snd (act_ret x) = []" "snd (act_fail e) = []" "snd (act_of r) = []" "snd (act_note evs) = evs"
  "fst (act_ret x) = Ok x" "fst (act_fail e) = Err e" "fst (act_of r) = r" "fst (act_note evs) = Ok ()"
  by (simp_all add: act_simps)

lemma silent_ensure [simp]: "visible (snd (ensure_local w info)) = []"
  unfolding ensure_local_def by (intro silent_bind) simp_all

lemma silent_engine [simp]: "visible (snd (run_engine c loc j)) = []"
  unfolding run_engine_def by (intro silent_bind) simp_all

lemma silent_lineage [simp]: "visible (snd (emit_lineage w ag rc)) = []"
  by (simp add: emit_lineage_def)

lemma fst_emit_lineage [simp]: "fst (emit_lineage w ag rc) = Ok ()"
  by (simp add: emit_lineage_def)

lemma act_bind_ok_eq: "fst m = Ok x \<Longrightarrow> act_bind m f = (fst (f x), snd m @ snd (f x))"
  by (simp add: act_bind_def)

lemmas bind_unit [simp] =
  act_bind_ok_eq [OF fst_emit_lineage] act_bind_ok_eq [OF silent_prims(8)] act_bind_ok_eq [OF silent_prims(5)]

lemma bind_audit [simp]:
  "act_bind (audit_op w i op p s d out) f = (fst (f ()), Accessed (access_record w i op p s d out) # snd (f ()))"
  by (simp add: audit_op_eq)

lemma bind_of [simp]: "act_bind (act_of (Inl e)) f = (Err e, [])" "act_bind (act_of (Inr x)) f = f x"
  by (simp_all add: act_bind_def)

lemma bind_of_of: "act_bind (act_of r) (\<lambda>x. act_of (f x)) = (case r of Inl e \<Rightarrow> Err e | Inr x \<Rightarrow> f x, [])"
  by (cases r) (simp_all add: act_of_def)

section \<open>The contract of a routed operation\<close>

locale pond_operation =
  fixes op :: string
    and run :: "world \<Rightarrow> AgentOps \<Rightarrow> Identity \<Rightarrow> string \<Rightarrow> 'a act"
    and serve :: "world \<Rightarrow> AgentOps \<Rightarrow> Identity \<Rightarrow> string \<Rightarrow> PondInfo \<Rightarrow> 'a act"
    and relay :: "world \<Rightarrow> AgentOps \<Rightarrow> Identity \<Rightarrow> string \<Rightarrow> Peer \<Rightarrow> (AgentError, 'a) result"
  assumes run_eq: "run w ag i ref =
      act_bind (pond_info_audited w i op ref) (\<lambda>info.
      act_bind (route w ag i op info) (\<lambda>r. case r of
        Some owner \<Rightarrow> (relay w ag i ref owner, [Forwarded op owner])
      | None \<Rightarrow> serve w ag i ref info))"
    and serve_records: "ends_recorded i op (serve w ag i ref info)"
begin

lemma run_cases:
  obtains (unresolved) e where "w_pond_info w ref = Inl e" "run w ag i ref = audit_err w i op (Some ref) None 0 e"
  | (refused) info where "w_pond_info w ref = Inr info" "placement ag info = NoOwner"
      "run w ag i ref = audit_err w i op (Some (pi_pond_id info)) None 0 (pond_unavailable (pi_name info))"
  | (relayed) info owner where "w_pond_info w ref = Inr info" "placement ag info = Forward owner"
      "run w ag i ref = (relay w ag i ref owner, [Forwarded op owner])"
  | (served) info where "w_pond_info w ref = Inr info" "placement ag info = Local"
      "run w ag i ref = serve w ag i ref info"
proof (cases "w_pond_info w ref")
  case (Inl e)
  then show ?thesis using unresolved by (simp add: run_eq pond_info_audited_def act_simps)
next
  case (Inr info)
  show ?thesis
  proof (cases "placement ag info")
    case Local
    then show ?thesis using Inr served by (simp add: run_eq pond_info_audited_def route_def act_simps)
  next
    case (Forward owner)
    then show ?thesis using Inr relayed by (simp add: run_eq pond_info_audited_def route_def act_simps)
  next
    case NoOwner
    then show ?thesis using Inr refused by (simp add: run_eq pond_info_audited_def route_def act_simps)
  qed
qed

lemma recorded_or_relayed:
  "ends_recorded i op (run w ag i ref)
   \<or> (\<exists>info owner. w_pond_info w ref = Inr info \<and> placement ag info = Forward owner
        \<and> run w ag i ref = (relay w ag i ref owner, [Forwarded op owner]))"
  by (cases rule: run_cases [where w = w and ref = ref and ag = ag and i = i])
    (simp_all add: ends_recorded_err serve_records)

lemma touched_is_local:
  assumes "ev \<in> set (snd (run w ag i ref))" "touches ev"
  shows "\<exists>info. w_pond_info w ref = Inr info \<and> placement ag info = Local \<and> run w ag i ref = serve w ag i ref info"
  using assms by (cases rule: run_cases [where w = w and ref = ref and ag = ag and i = i]) (auto simp: audit_err_eq)

end

section \<open>The operations keep the contract\<close>

lemma silent_prepare_pull [simp]: "visible (snd (prepare_pull w info c ps)) = []"
  unfolding prepare_pull_def by (intro silent_bind) simp_all

lemma silent_locals [simp]:
  "visible (snd (materialize_here w info)) = []" "visible (snd (describe_pond_local w info)) = []"
  "visible (snd (explain_query_local w info sql)) = []" "visible (snd (catalog_describe_local w info c ps)) = []"
  unfolding materialize_here_def describe_pond_local_def explain_query_local_def catalog_describe_local_def
  by (intro silent_bind; simp split: prod.split)+

lemma silent_pull [simp]: "visible (snd (catalog_pull_local w i info c q ps)) = []"
  unfolding catalog_pull_local_def by (auto intro!: silent_bind)

lemma silent_finish [simp]: "visible (snd (finish_query w ag info wr d j)) = []"
  by (auto simp: finish_query_def Let_def split: joined.split sum.split)

lemma silent_run_query_local [simp]: "visible (snd (snd (run_query_local w ag info sql i wr c))) = []"
proof (cases "fst (ensure_local w info)")
  case (Inl e)
  then show ?thesis by (simp add: run_query_local_def Let_def)
next
  case (Inr loc)
  then show ?thesis by (simp add: run_query_local_def Let_def engine_events_def split: joined.split sum.split)
qed

lemma silent_establish [simp]: "visible (snd (establish w ag info d a)) = []"
  by (simp add: establish_def split: sum.split option.split)

lemma silent_read_arrow_local [simp]: "visible (snd (read_arrow_local w ag info sql c)) = []"
  unfolding read_arrow_local_def Let_def
  by (intro silent_bind) (simp_all add: producer_events_def split: option.split)

lemma silent_get_lineage_local [simp]: "visible (snd (get_lineage_local w info lim lo hi)) = []"
  unfolding get_lineage_local_def flush_pond_lineage_def by (auto intro!: silent_bind split: option.split)

lemma drop_pond_local_recorded: "ends_recorded i ''drop_pond'' (drop_pond_local w i info)"
  by (auto simp: drop_pond_local_def drop_files_def evict_lineage_writer_def ends_recorded_def audit_err_eq Let_def audit_op_eq
      split: sum.split)

lemmas contract_defs = ends_recorded_def access_outcome_def

interpretation mat: pond_operation "''materialize_pond''" materialize_pond
  "\<lambda>w ag i ref info. act_then (materialize_here w info) (\<lambda>res.
     act_bind (audit_op w i ''materialize_pond'' (Some (pi_pond_id info)) None (w_elapsed w) (access_outcome res)) (\<lambda>_. act_of res))"
  "\<lambda>w ag i ref owner. w_fwd_materialize w owner i ref"
  by unfold_locales (simp_all add: materialize_pond_def contract_defs cong: option.case_cong)

interpretation des: pond_operation "''describe_pond''" describe_pond
  "\<lambda>w ag i ref info. act_then (describe_pond_local w info) (\<lambda>res.
     act_bind (audit_op w i ''describe_pond'' (Some (pi_pond_id info)) None (w_elapsed w) (access_outcome res)) (\<lambda>_.
     act_bind (act_of res) (\<lambda>sch. act_ret \<lparr>de_pond = info, de_schema = sch\<rparr>)))"
  "\<lambda>w ag i ref owner. w_fwd_describe w owner i ref"
proof unfold_locales
  fix w ag i ref info
  show "ends_recorded i ''describe_pond'' (act_then (describe_pond_local w info) (\<lambda>res.
     act_bind (audit_op w i ''describe_pond'' (Some (pi_pond_id info)) None (w_elapsed w) (access_outcome res)) (\<lambda>_.
     act_bind (act_of res) (\<lambda>sch. act_ret \<lparr>de_pond = info, de_schema = sch\<rparr>))))"
    by (cases "fst (describe_pond_local w info)") (simp_all add: contract_defs)
qed (simp add: describe_pond_def cong: option.case_cong)

interpretation drp: pond_operation "''drop_pond''" "\<lambda>w ag i ref. drop_pond_op w ag i ref True"
  "\<lambda>w ag i ref info. drop_pond_local w i info"
  "\<lambda>w ag i ref owner. w_fwd_drop w owner i ref True"
  by unfold_locales (simp_all add: drop_pond_op_def drop_pond_local_recorded cong: option.case_cong)

interpretation exq: pond_operation "''explain_query''" "\<lambda>w ag i ref. explain_query w ag i ref sql"
  "\<lambda>w ag i ref info. act_then (explain_query_local w info sql) (\<lambda>res.
     act_bind (audit_op w i ''explain_query'' (Some (pi_pond_id info)) (Some (redact_sql sql)) (w_elapsed w) (access_outcome res)) (\<lambda>_.
     act_of res))"
  "\<lambda>w ag i ref owner. w_fwd_explain w owner i ref sql" for sql
  by unfold_locales (simp_all add: explain_query_def contract_defs cong: option.case_cong)

interpretation cde: pond_operation "''catalog_describe''" "\<lambda>w ag i ref. catalog_describe w ag i ref c ps"
  "\<lambda>w ag i ref info. act_then (catalog_describe_local w info c ps) (\<lambda>res.
     act_bind (audit_op w i ''catalog_describe'' (Some (pi_pond_id info)) (Some c) (w_elapsed w) (access_outcome res)) (\<lambda>_.
     act_of res))"
  "\<lambda>w ag i ref owner. w_fwd_describe_catalog w owner i ref c ps" for c ps
  by unfold_locales (simp_all add: catalog_describe_def contract_defs cong: option.case_cong)

interpretation cpu: pond_operation "''catalog_pull''" "\<lambda>w ag i ref. catalog_pull w ag i ref c q ps"
  "\<lambda>w ag i ref info. act_then (catalog_pull_local w i info c q ps) (\<lambda>res.
     act_bind (audit_op w i ''catalog_pull'' (Some ref) (Some q) (w_elapsed w) (access_outcome res)) (\<lambda>_.
     act_bind (emit_lineage w ag (query_record ag i info ''catalog_pull'' q (w_elapsed w) Completion res
        (case res of Inr (_, meta) \<Rightarrow> Some meta | Inl _ \<Rightarrow> None))) (\<lambda>_.
     act_of (map_ok fst res))))"
  "\<lambda>w ag i ref owner. w_fwd_pull w owner i ref c q ps" for c q ps
  by unfold_locales (simp_all add: catalog_pull_def contract_defs is_ok_def map_ok_def split: sum.split cong: option.case_cong)

interpretation qry: pond_operation "query_op wr" "\<lambda>w ag i ref. run_query w ag ref sql i wr c"
  "\<lambda>w ag i ref info. (case run_query_local w ag info sql i wr c of (planned, run) \<Rightarrow>
     act_then run (\<lambda>res.
     act_bind (audit_op w i (query_op wr) (Some (pi_pond_id info)) (Some (redact_sql sql)) (w_elapsed w) (access_outcome res)) (\<lambda>_.
     act_bind (emit_lineage w ag (query_record ag i info (query_op wr) sql (w_elapsed w) Completion res
        (case res of Inr qr \<Rightarrow> Some (qr_meta qr) | Inl _ \<Rightarrow> planned))) (\<lambda>_.
     act_of res))))"
  "\<lambda>w ag i ref owner. if wr then w_fwd_write w owner i ref sql (qc_timeout_ms c) else w_fwd_read w owner i ref sql (qc_timeout_ms c)" for wr sql c
  by unfold_locales (simp_all add: run_query_def contract_defs split_beta cong: option.case_cong)

interpretation rar: pond_operation "''read_arrow''" "\<lambda>w ag i ref. read_arrow w ag i ref sql c"
  "\<lambda>w ag i ref info. act_then (read_arrow_local w ag info sql c) (\<lambda>res.
     act_bind (audit_op w i ''read_arrow'' (Some (pi_pond_id info)) (Some (redact_sql sql)) (w_elapsed w) (access_outcome res)) (\<lambda>_.
     act_bind (emit_lineage w ag (query_record ag i info ''read_arrow'' sql (w_elapsed w) Establishment res None)) (\<lambda>_.
     act_of res)))"
  "\<lambda>w ag i ref owner. w_fwd_read_arrow w owner i ref sql (qc_timeout_ms c)" for sql c
  by unfold_locales (simp_all add: read_arrow_def contract_defs cong: option.case_cong)

interpretation rco: pond_operation "''read_query''" "\<lambda>w ag i ref. read_collected w ag i ref sql c"
  "\<lambda>w ag i ref info. act_then (act_bind (read_arrow_local w ag info sql c) (\<lambda>st. act_of (collect_stream w ag st))) (\<lambda>res.
     act_bind (audit_op w i ''read_query'' (Some (pi_pond_id info)) (Some (redact_sql sql)) (w_elapsed w) (access_outcome res)) (\<lambda>_.
     act_bind (emit_lineage w ag (query_record ag i info ''read_query'' sql (w_elapsed w) Completion res
        (case res of Inr qr \<Rightarrow> Some (qr_meta qr) | Inl _ \<Rightarrow> None))) (\<lambda>_.
     act_of res)))"
  "\<lambda>w ag i ref owner. (case w_fwd_read_arrow w owner i ref sql (qc_timeout_ms c) of
     Inl e \<Rightarrow> Err e | Inr st \<Rightarrow> collect_stream w ag st)" for sql c
  by unfold_locales (simp_all add: read_collected_def bind_of_of contract_defs silent_bind cong: option.case_cong)

interpretation lin: pond_operation "''get_lineage''" "\<lambda>w ag i ref. get_lineage w ag i ref (Suc n) lo hi"
  "\<lambda>w ag i ref info. act_then (get_lineage_local w info (min (Suc n) MAX_LIMIT) lo hi) (\<lambda>res.
     act_bind (audit_op w i ''get_lineage'' (Some (pi_pond_id info)) None (w_elapsed w) (access_outcome res)) (\<lambda>_.
     act_of res))"
  "\<lambda>w ag i ref owner. w_fwd_lineage w owner i ref (min (Suc n) MAX_LIMIT) lo hi" for n lo hi
  by unfold_locales (simp_all add: get_lineage_def contract_defs Let_def cong: option.case_cong)

section \<open>Every operation on a pond\<close>

datatype request =
    RMaterialize string
  | RDescribe string
  | RDrop string bool
  | RQuery string string bool QueryControls
  | RReadArrow string string QueryControls
  | RCollect string string QueryControls
  | RExplain string string
  | RLineage string nat "string option" "string option"
  | RPull string string string params
  | RDescribeCatalog string string params

definition forget :: "'a act \<Rightarrow> unit act" where
  "forget m = (map_ok (\<lambda>_. ()) (fst m), snd m)"

fun perform :: "world \<Rightarrow> AgentOps \<Rightarrow> Identity \<Rightarrow> request \<Rightarrow> unit act" where
  "perform w ag i (RMaterialize ref) = materialize_pond w ag i ref"
| "perform w ag i (RDescribe ref) = forget (describe_pond w ag i ref)"
| "perform w ag i (RDrop ref confirm) = drop_pond_op w ag i ref confirm"
| "perform w ag i (RQuery ref sql wr c) = forget (run_query w ag ref sql i wr c)"
| "perform w ag i (RReadArrow ref sql c) = forget (read_arrow w ag i ref sql c)"
| "perform w ag i (RCollect ref sql c) = forget (read_collected w ag i ref sql c)"
| "perform w ag i (RExplain ref sql) = forget (explain_query w ag i ref sql)"
| "perform w ag i (RLineage ref lim lo hi) = forget (get_lineage w ag i ref lim lo hi)"
| "perform w ag i (RPull ref c q ps) = forget (catalog_pull w ag i ref c q ps)"
| "perform w ag i (RDescribeCatalog ref c ps) = forget (catalog_describe w ag i ref c ps)"

fun request_pond :: "request \<Rightarrow> string" where
  "request_pond (RMaterialize ref) = ref"
| "request_pond (RDescribe ref) = ref"
| "request_pond (RDrop ref _) = ref"
| "request_pond (RQuery ref _ _ _) = ref"
| "request_pond (RReadArrow ref _ _) = ref"
| "request_pond (RCollect ref _ _) = ref"
| "request_pond (RExplain ref _) = ref"
| "request_pond (RLineage ref _ _ _) = ref"
| "request_pond (RPull ref _ _ _) = ref"
| "request_pond (RDescribeCatalog ref _ _) = ref"

fun request_op :: "request \<Rightarrow> string" where
  "request_op (RMaterialize _) = ''materialize_pond''"
| "request_op (RDescribe _) = ''describe_pond''"
| "request_op (RDrop _ _) = ''drop_pond''"
| "request_op (RQuery _ _ wr _) = (if wr then ''write_query'' else ''read_query'')"
| "request_op (RReadArrow _ _ _) = ''read_arrow''"
| "request_op (RCollect _ _ _) = ''read_query''"
| "request_op (RExplain _ _) = ''explain_query''"
| "request_op (RLineage _ _ _ _) = ''get_lineage''"
| "request_op (RPull _ _ _ _) = ''catalog_pull''"
| "request_op (RDescribeCatalog _ _ _) = ''catalog_describe''"

text \<open>What an operation on a pond did: recorded its own outcome without touching the pond,
  relayed, or served it as its owner.\<close>

definition well_routed :: "world \<Rightarrow> AgentOps \<Rightarrow> Identity \<Rightarrow> string \<Rightarrow> string \<Rightarrow> 'a act \<Rightarrow> bool" where
  "well_routed w ag i op ref m \<longleftrightarrow>
     ends_recorded i op m \<and> (\<forall>ev \<in> set (snd m). \<not> touches ev)
   \<or> (\<exists>info owner. w_pond_info w ref = Inr info \<and> placement ag info = Forward owner \<and> snd m = [Forwarded op owner])
   \<or> (\<exists>info. w_pond_info w ref = Inr info \<and> placement ag info = Local \<and> ends_recorded i op m)"

lemma well_routed_forget [simp]: "well_routed w ag i op ref (forget m) = well_routed w ag i op ref m"
  by (cases "fst m") (simp_all add: well_routed_def ends_recorded_def forget_def)

context pond_operation begin

lemma well_routed_run: "well_routed w ag i op ref (run w ag i ref)"
  by (cases rule: run_cases [where w = w and ref = ref and ag = ag and i = i])
    (simp_all add: well_routed_def ends_recorded_err serve_records audit_err_eq)

end

lemma well_routed_zero_limit: "well_routed w ag i ''get_lineage'' ref (get_lineage w ag i ref 0 lo hi)"
  by (cases "w_pond_info w ref")
    (simp_all add: well_routed_def get_lineage_def pond_info_audited_def ends_recorded_def audit_err_eq act_simps)

lemma well_routed_unconfirmed: "well_routed w ag i ''drop_pond'' ref (drop_pond_op w ag i ref False)"
  by (simp add: well_routed_def drop_pond_op_def ends_recorded_def audit_err_eq)

lemma perform_well_routed: "well_routed w ag i (request_op rq) (request_pond rq) (perform w ag i rq)"
proof (cases rq)
  case (RDrop ref confirm)
  then show ?thesis by (cases confirm) (simp_all add: drp.well_routed_run well_routed_unconfirmed)
next
  case (RLineage ref lim lo hi)
  then show ?thesis by (cases lim) (simp_all add: lin.well_routed_run well_routed_zero_limit)
next
  case (RQuery ref sql wr c)
  then show ?thesis using qry.well_routed_run [of w ag i wr ref sql c] by (simp add: query_op_def)
qed (simp_all add: mat.well_routed_run des.well_routed_run exq.well_routed_run cde.well_routed_run
    cpu.well_routed_run rar.well_routed_run rco.well_routed_run)

section \<open>Properties: routing and the trail\<close>

lemma bind_non_empty [simp]: "Option.bind x non_empty = Some y \<longleftrightarrow> x = Some y \<and> y \<noteq> []"
  by (cases x) (auto simp: non_empty_def)

lemma bind_non_empty_None: "Option.bind x non_empty = None \<longleftrightarrow> x = None \<or> x = Some []"
  by (cases x) (auto simp: non_empty_def)

lemma placement_forwarding:
  "placement (with_forwarding ag me addr) info = Local \<longleftrightarrow> pi_node_id info = Some me \<and> me \<noteq> []"
  "placement (with_forwarding ag me addr) info = Forward p \<Longrightarrow>
     pi_node_id info = Some (peer_node_id p) \<and> pi_node_endpoint info = Some (peer_endpoint p)
     \<and> peer_node_id p \<noteq> me \<and> peer_endpoint p \<noteq> addr \<and> peer_endpoint p \<noteq> []"
  by (auto simp: placement_def with_forwarding_def bind_non_empty_None split: option.splits if_splits)

text \<open>A small world for the examples: one pond \<open>p\<close>, stored and served without errors.\<close>

definition demo_info :: "string option \<Rightarrow> string option \<Rightarrow> PondInfo" where
  "demo_info nid endpoint = \<lparr>pi_pond_id = ''p'', pi_name = ''pond'', pi_owner = ''a'', pi_created_at = 0, pi_policy_json = ''{}'',
     pi_node_id = nid, pi_node_endpoint = endpoint, pi_tier = ''medium'', pi_extensions = [], pi_description = [],
     pi_lineage = False\<rparr>"

definition demo_location :: PondLocation where
  "demo_location = \<lparr>catalog_uri = ''c'', data_path = ''d'', catalog_name = ''pond'', limits = None, loc_extensions = [],
     loc_lineage = False, lineage_dir = ''l''\<rparr>"

definition demo_result :: "Value list list \<Rightarrow> QueryResult" where
  "demo_result rows = \<lparr>qr_columns = [''x''], qr_rows = rows, qr_meta = meta_default\<rparr>"

definition demo_error :: AgentError where
  "demo_error = internal_error ''no''"

definition demo_world :: "string option \<Rightarrow> string option \<Rightarrow> world" where
  "demo_world nid endpoint = \<lparr>w_pond_info = (\<lambda>_. Ok (demo_info nid endpoint)),
     w_create_pond = (\<lambda>_ _ _ _ _ _. Ok (demo_info nid endpoint)), w_list_ponds = Ok [demo_info nid endpoint], w_drop_pond = (\<lambda>_. Ok ()),
     w_list_datasets = (\<lambda>_. Ok []), w_get_dataset = (\<lambda>_. Err demo_error), w_list_catalogs = (\<lambda>_. Ok []),
     w_get_catalog = (\<lambda>_. Err demo_error), w_ensure = (\<lambda>_ _. Ok demo_location), w_location = (\<lambda>_. Ok demo_location),
     w_init = (\<lambda>_. Joined (Ok ())), w_describe = (\<lambda>_. Joined (Ok [])),
     w_read = (\<lambda>_ _. Joined (Ok (demo_result [[JNull]]))), w_write = (\<lambda>_ _ _ _. Joined (Ok (demo_result []))),
     w_plan = (\<lambda>_ _. None),
     w_read_arrow = (\<lambda>_ _. \<lparr>aw_schema = Some [''x''], aw_batches = [Ok [[(''x'', JNull)]]], aw_result = Some (Ok meta_default), aw_room = True\<rparr>),
     w_explain = (\<lambda>_ _. JoinError ''gone''), w_pull = (\<lambda>_ _ _ _ _ _ _. Joined (Ok meta_default)),
     w_describe_catalog = (\<lambda>_ _ _ _. Joined (Ok [])),
     w_fwd_read = (\<lambda>_ _ _ _ _. Err demo_error), w_fwd_write = (\<lambda>_ _ _ _ _. Err demo_error),
     w_fwd_read_arrow = (\<lambda>_ _ _ _ _. Err demo_error), w_fwd_explain = (\<lambda>_ _ _ _. Err demo_error),
     w_fwd_describe = (\<lambda>_ _ _. Err demo_error), w_fwd_lineage = (\<lambda>_ _ _ _ _ _. Err demo_error),
     w_fwd_drop = (\<lambda>_ _ _ _. Err demo_error), w_fwd_materialize = (\<lambda>_ _ _. Ok ()),
     w_fwd_pull = (\<lambda>_ _ _ _ _ _. Err demo_error), w_fwd_describe_catalog = (\<lambda>_ _ _ _ _. Err demo_error),
     w_parse_id = (\<lambda>s. Ok s), w_op_id = ''op'', w_pre_cancelled = False, w_deadline = [], w_elapsed = 1,
     w_trace_id = None, w_traceparent = None, w_has_writer = (\<lambda>_. False), w_writers_poisoned = False, w_batch_due = False,
     w_lineage_listing = (\<lambda>_. Ok []), w_lineage_file = (\<lambda>_ _. Vanished), w_lineage_join = None,
     w_parse_json = (\<lambda>_. None), w_parse_time = (\<lambda>_. None)\<rparr>"

lemma demo_info_sel [simp]:
  "pi_pond_id (demo_info n e) = ''p''" "pi_name (demo_info n e) = ''pond''" "pi_node_id (demo_info n e) = n"
  "pi_node_endpoint (demo_info n e) = e" "pi_tier (demo_info n e) = ''medium''" "pi_lineage (demo_info n e) = False"
  "pi_extensions (demo_info n e) = []"
  by (simp_all add: demo_info_def)

lemma demo_world_sel [simp]:
  "w_pond_info (demo_world n e) = (\<lambda>_. Ok (demo_info n e))" "w_drop_pond (demo_world n e) = (\<lambda>_. Ok ())"
  "w_ensure (demo_world n e) = (\<lambda>_ _. Ok demo_location)" "w_location (demo_world n e) = (\<lambda>_. Ok demo_location)"
  "w_read (demo_world n e) = (\<lambda>_ _. Joined (Ok (demo_result [[JNull]])))"
  "w_write (demo_world n e) = (\<lambda>_ _ _ _. Joined (Ok (demo_result [])))" "w_init (demo_world n e) = (\<lambda>_. Joined (Ok ()))"
  "w_parse_id (demo_world n e) = (\<lambda>s. Ok s)" "w_op_id (demo_world n e) = ''op''" "w_deadline (demo_world n e) = []"
  "w_pre_cancelled (demo_world n e) = False"
  "w_elapsed (demo_world n e) = 1" "w_writers_poisoned (demo_world n e) = False" "w_has_writer (demo_world n e) = (\<lambda>_. False)"
  "w_trace_id (demo_world n e) = None" "w_traceparent (demo_world n e) = None"
  by (simp_all add: demo_world_def)

definition demo_agent :: AgentOps where
  "demo_agent = agent_new agent_config_default ''1''"

definition demo_identity :: Identity where
  "demo_identity = identity_claimed None"

text \<open>C7. Each of the ten operations that are routed by a pond's owner -- materialize, describe, drop, a
  query or a write, a streamed and a collected read, explain, lineage, and the pull and the listing of
  a catalog -- leaves exactly one access record, on the node that answered it: named after the operation, under the caller's identity, and saying whether it succeeded.
  An operation relayed to the pond's owner leaves none here and does nothing else here. (Loading a
  dataset is several such writes, each with its record, and records itself once more.)\<close>

theorem one_record_where_it_ran:
  "case perform w ag i rq of (res, evs) \<Rightarrow>
     (\<exists>a. visible evs = [Accessed a] \<and> acc_identity a = i \<and> acc_op a = request_op rq
        \<and> acc_outcome a = (if is_ok res then ''ok'' else ''error''))
   \<or> (\<exists>info owner. w_pond_info w (request_pond rq) = Ok info \<and> placement ag info = Forward owner
        \<and> evs = [Forwarded (request_op rq) owner])"
  using perform_well_routed [of w ag i rq] by (auto simp: well_routed_def ends_recorded_def split_beta)

text \<open>C3. On a clustered node, storage, engine, in-flight registry and lineage are touched for a
  pond only when the control plane names this very node, by its non-empty id, as the pond's
  owner; and an operation is relayed only to the node so named, which is another one, at an
  address that is not this node's own.\<close>

theorem work_runs_on_the_owner:
  "(ev \<in> set (snd (perform w (with_forwarding ag me addr) i rq)) \<and> touches ev \<longrightarrow>
      (\<exists>info. w_pond_info w (request_pond rq) = Ok info \<and> pi_node_id info = Some me \<and> me \<noteq> []))
   \<and> (Forwarded op p \<in> set (snd (perform w (with_forwarding ag me addr) i rq)) \<longrightarrow>
      (\<exists>info. w_pond_info w (request_pond rq) = Ok info \<and> pi_node_id info = Some (peer_node_id p)
         \<and> pi_node_endpoint info = Some (peer_endpoint p) \<and> peer_node_id p \<noteq> me \<and> peer_endpoint p \<noteq> addr))"
  using perform_well_routed [of w "with_forwarding ag me addr" i rq]
  unfolding well_routed_def
  by (elim disjE exE conjE) (auto dest: recorded_not_relayed placement_forwarding(2) simp: placement_forwarding(1))

theorem work_runs_on_the_owner_witness:
  "let w = demo_world (Some ''n1'') (Some ''http://n1''); v = demo_world (Some ''n2'') (Some ''http://n2'');
       peer = \<lparr>peer_node_id = ''n2'', peer_endpoint = ''http://n2''\<rparr>;
       ag = with_forwarding demo_agent ''n1'' ''http://n1''
   in (\<exists>ev \<in> set (snd (perform w ag demo_identity (RMaterialize ''pond''))). touches ev)
    \<and> (\<exists>info. w_pond_info w ''pond'' = Ok info \<and> pi_node_id info = Some ''n1'')
    \<and> Forwarded ''materialize_pond'' peer \<in> set (snd (perform v ag demo_identity (RMaterialize ''pond'')))
    \<and> (\<exists>info. w_pond_info v ''pond'' = Ok info \<and> pi_node_id info = Some (peer_node_id peer) \<and> peer_node_id peer \<noteq> ''n1'')"
proof -
  let ?w = "demo_world (Some ''n1'') (Some ''http://n1'')" and ?v = "demo_world (Some ''n2'') (Some ''http://n2'')"
  let ?peer = "\<lparr>peer_node_id = ''n2'', peer_endpoint = ''http://n2''\<rparr>"
  let ?run = "\<lambda>w. perform w (with_forwarding demo_agent ''n1'' ''http://n1'') demo_identity (RMaterialize ''pond'')"
  have a: "Ensured ''p'' False \<in> set (snd (?run ?w))"
    by (simp add: materialize_pond_def pond_info_audited_def route_def placement_def with_forwarding_def
        non_empty_def materialize_here_def ensure_local_def parse_id_def run_engine_def act_bind_def)
  have b: "Forwarded ''materialize_pond'' ?peer \<in> set (snd (?run ?v))"
    by (simp add: materialize_pond_def pond_info_audited_def route_def placement_def with_forwarding_def
        non_empty_def act_bind_def)
  have c: "\<exists>info. w_pond_info ?w ''pond'' = Ok info \<and> pi_node_id info = Some ''n1''"
    using work_runs_on_the_owner [THEN conjunct1, rule_format, OF conjI, OF a] by auto
  have d: "\<exists>info. w_pond_info ?v ''pond'' = Ok info \<and> pi_node_id info = Some (peer_node_id ?peer) \<and> peer_node_id ?peer \<noteq> ''n1''"
    using work_runs_on_the_owner [THEN conjunct2, rule_format, OF b] by auto
  have "\<exists>ev \<in> set (snd (?run ?w)). touches ev"
    using a by (intro bexI [of _ "Ensured ''p'' False"]) simp_all
  with b c d show ?thesis unfolding Let_def by (intro conjI)
qed

end
