(* ===== verification/Agent_Contracts.thy ===== *)
theory Agent_Contracts
  imports Agent_Facts
begin

text \<open>
  The contracts of single operations of a pond node: the order of a drop, what a statement's
  answer carries, what it leaves behind in the in-flight registry and on the load gauge, the rows
  collected from a stream, the statements of a dataset load.
\<close>

section \<open>Effects on the in-flight registry and the gauge\<close>

fun inflight_effect :: "node_event \<Rightarrow> inflight \<Rightarrow> inflight" where
  "inflight_effect (BeganDrop p) s = begin_drop p s"
| "inflight_effect (EndedDrop p) s = end_drop p s"
| "inflight_effect (Registered op p) s = register_op op (Some p) s"
| "inflight_effect (Completed op) s = complete_op op s"
| "inflight_effect _ s = s"

definition inflight_after :: "node_event list \<Rightarrow> inflight \<Rightarrow> inflight" where
  "inflight_after evs s = fold inflight_effect evs s"

fun gauge_effect :: "node_event \<Rightarrow> int" where
  "gauge_effect (GaugeUp _) = 1"
| "gauge_effect (GaugeDown _) = -1"
| "gauge_effect _ = 0"

definition gauge_change :: "node_event list \<Rightarrow> int" where
  "gauge_change evs = sum_list (map gauge_effect evs)"

lemma after_simps [simp]:
  "inflight_after [] s = s" "inflight_after (ev # evs) s = inflight_after evs (inflight_effect ev s)"
  "inflight_after (xs @ ys) s = inflight_after ys (inflight_after xs s)"
  by (simp_all add: inflight_after_def)

lemma gauge_simps [simp]:
  "gauge_change [] = 0" "gauge_change (ev # evs) = gauge_effect ev + gauge_change evs"
  "gauge_change (xs @ ys) = gauge_change xs + gauge_change ys"
  by (simp_all add: gauge_change_def)

text \<open>Acts that neither register, complete nor move the gauge.\<close>

definition still :: "node_event list \<Rightarrow> bool" where
  "still evs \<longleftrightarrow> (\<forall>ev \<in> set evs. gauge_effect ev = 0 \<and> (\<forall>s. inflight_effect ev s = s))"

lemma still_simps [simp]:
  "still []" "still (xs @ ys) \<longleftrightarrow> still xs \<and> still ys"
  "still (ev # evs) \<longleftrightarrow> gauge_effect ev = 0 \<and> (\<forall>s. inflight_effect ev s = s) \<and> still evs"
  by (auto simp: still_def)

lemma still_after: "still evs \<Longrightarrow> inflight_after evs s = s" "still evs \<Longrightarrow> gauge_change evs = 0"
  by (induction evs arbitrary: s) auto

lemma still_bind: "still (snd m) \<Longrightarrow> (\<And>x. fst m = Inr x \<Longrightarrow> still (snd (f x))) \<Longrightarrow> still (snd (act_bind m f))"
  by (cases rule: act_bind_cases [where m = m and f = f]) auto

lemma still_ensure [simp]: "still (snd (ensure_local w info))"
  unfolding ensure_local_def by (intro still_bind) simp_all

lemma still_finish [simp]: "still (snd (finish_query w ag info wr d j))"
  by (auto simp: finish_query_def Let_def split: joined.split sum.split)

lemma still_emit [simp]: "still (snd (emit_lineage w ag rc))"
  by (simp add: emit_lineage_def)

lemma still_engine [simp]: "still (engine_events wr loc j)"
  by (simp add: engine_events_def split: joined.split sum.split)

section \<open>Dropping a pond\<close>

lemma drop_local_cases:
  obtains (bad_id) e a where "parse_id w (pi_pond_id info) = Inl e" "drop_pond_local w i info = (Err e, [Accessed a])"
  | (kept) pid e a where "parse_id w (pi_pond_id info) = Inr pid" "w_drop_pond w (pi_pond_id info) = Inl e"
      "drop_pond_local w i info = (Err e, [BeganDrop (pi_pond_id info), EndedDrop (pi_pond_id info), Accessed a])"
  | (gone) pid a where "parse_id w (pi_pond_id info) = Inr pid" "w_drop_pond w (pi_pond_id info) = Inr ()"
      "drop_pond_local w i info = (Ok (), ([BeganDrop (pi_pond_id info), ControlDropped (pi_pond_id info)]
         @ (case w_location w pid of Inr loc \<Rightarrow> [ForgotEngine loc] | Inl _ \<Rightarrow> [])
         @ (if w_writers_poisoned w then [] else [EvictedWriter (pi_pond_id info)]))
         @ StorageDropped pid # (if w_writers_poisoned w then [] else [EvictedWriter (pi_pond_id info)])
         @ [EndedDrop (pi_pond_id info), Accessed a])"
proof (cases "parse_id w (pi_pond_id info)")
  case (Inl e)
  then show ?thesis using bad_id by (simp add: drop_pond_local_def Let_def audit_err_eq)
next
  case (Inr pid)
  show ?thesis
  proof (cases "w_drop_pond w (pi_pond_id info)")
    case (Inl e)
    with Inr show ?thesis using kept by (simp add: drop_pond_local_def Let_def audit_err_eq act_simps)
  next
    case (Inr u)
    with \<open>parse_id w (pi_pond_id info) = Inr pid\<close> show ?thesis
      using gone by (simp add: drop_pond_local_def drop_files_def evict_lineage_writer_def Let_def audit_op_eq act_simps split: sum.split)
  qed
qed

lemma dropping_begin [simp]: "dropping (begin_drop p s) = List.insert p (dropping s)"
  and dropping_end [simp]: "dropping (end_drop p s) = removeAll p (dropping s)"
  by (simp_all add: inflight_defs)

lemma live_after_begin: "live_ops (begin_drop p s) p = {}"
  by (force simp: live_ops_def inflight_defs)

text \<open>What was done before the files of a pond were deleted.\<close>

definition drop_prepared :: "world \<Rightarrow> PondInfo \<Rightarrow> string \<Rightarrow> node_event list \<Rightarrow> inflight \<Rightarrow> bool" where
  "drop_prepared w info pid pre s \<longleftrightarrow> parse_id w (pi_pond_id info) = Ok pid
     \<and> ControlDropped (pi_pond_id info) \<in> set pre
     \<and> pi_pond_id info \<in> set (dropping (inflight_after pre s)) \<and> live_ops (inflight_after pre s) (pi_pond_id info) = {}
     \<and> (\<forall>loc. w_location w pid = Ok loc \<longrightarrow> ForgotEngine loc \<in> set pre)
     \<and> (w_writers_poisoned w \<or> EvictedWriter (pi_pond_id info) \<in> set pre)"

definition well_dropped :: "world \<Rightarrow> PondInfo \<Rightarrow> unit act \<Rightarrow> bool" where
  "well_dropped w info m \<longleftrightarrow>
     (\<forall>s. set (dropping (inflight_after (snd m) s)) \<subseteq> set (dropping s))
   \<and> (\<forall>s pre pid post. snd m = pre @ StorageDropped pid # post \<longrightarrow> drop_prepared w info pid pre s)
   \<and> (is_ok (fst m) \<longleftrightarrow> (\<exists>pid. StorageDropped pid \<in> set (snd m)))"

lemma unique_split:
  assumes "xs @ x # ys = pre @ z # post" "x = f a" "z = f b" "\<And>c. f c \<notin> set xs" "\<And>c. f c \<notin> set ys" "inj f"
  shows "pre = xs \<and> z = x"
proof -
  have "z = x"
  proof -
    have "z \<in> set (xs @ x # ys)" using assms(1) by simp
    then show ?thesis using assms(3-5) by auto
  qed
  then show ?thesis using assms append_Cons_eq_iff [of x xs ys pre post] by auto
qed

lemma well_dropped_local: "well_dropped w info (drop_pond_local w i info)"
proof (cases rule: drop_local_cases [where w = w and i = i and info = info])
  case (bad_id e a)
  then show ?thesis by (simp add: well_dropped_def Cons_eq_append_conv)
next
  case (kept pid e a)
  then show ?thesis by (auto simp: well_dropped_def Cons_eq_append_conv)
next
  case (gone pid a)
  let ?p = "pi_pond_id info"
  let ?ev = "if w_writers_poisoned w then [] else [EvictedWriter ?p]"
  let ?fg = "case w_location w pid of Inr loc \<Rightarrow> [ForgotEngine loc] | Inl _ \<Rightarrow> []"
  let ?pre = "[BeganDrop ?p, ControlDropped ?p] @ ?fg @ ?ev"
  have quiet: "inflight_after ?fg s = s" "inflight_after ?ev s = s" for s by (simp_all split: sum.split)
  have prep: "drop_prepared w info pid ?pre s" for s
    using gone(1) live_after_begin [of ?p s] unfolding drop_prepared_def by (simp add: quiet split: sum.split)
  let ?post = "?ev @ [EndedDrop ?p, Accessed a]"
  have "drop_prepared w info q pre s" if "snd (drop_pond_local w i info) = pre @ StorageDropped q # post" for s pre q post
  proof -
    have "?pre @ StorageDropped pid # ?post = pre @ StorageDropped q # post" using that gone(3) by simp
    then have "pre = ?pre \<and> StorageDropped q = StorageDropped pid"
      by (rule unique_split [where f = StorageDropped]) (auto simp: inj_def split: sum.splits)
    then show ?thesis using prep by simp
  qed
  then show ?thesis using gone by (simp add: well_dropped_def quiet)
qed

section \<open>Statements\<close>

lemma effective_steps: "effective_ms (fold deadline_step evs d) = effective_ms d"
proof (induction evs arbitrary: d)
  case (Cons ev evs)
  have "effective_ms (deadline_step ev d) = effective_ms d" by (cases ev) simp_all
  then show ?case using Cons by simp
qed simp

lemma final_effective [simp]: "effective_ms (final_deadline w ag c) = effective (timeouts (ag_config ag)) (qc_timeout_ms c)"
  by (simp add: final_deadline_def effective_steps arm_def)

text \<open>What the answer to a statement says when the engine has run it.\<close>

definition answer_ok :: "world \<Rightarrow> AgentOps \<Rightarrow> bool \<Rightarrow> QueryControls \<Rightarrow> QueryResult \<Rightarrow> QueryResult \<Rightarrow> bool" where
  "answer_ok w ag wr c raw qr \<longleftrightarrow> qr_columns qr = qr_columns raw \<and> qr_rows qr = qr_rows raw
     \<and> (wr \<or> length (qr_rows qr) \<le> inline_row_cap (ag_config ag))
     \<and> served_by (qr_meta qr) = serving_name ag
     \<and> timeout_ms (qr_meta qr) = effective (timeouts (ag_config ag)) (qc_timeout_ms c)
     \<and> inputs (qr_meta qr) = inputs (qr_meta raw) \<and> outputs (qr_meta qr) = outputs (qr_meta raw)
     \<and> snapshot_id (qr_meta qr) = snapshot_id (qr_meta raw)"

lemma finish_query_ok:
  assumes "fst (finish_query w ag info wr (final_deadline w ag c) j) = Ok qr"
  shows "\<exists>raw. j = Joined (Ok raw) \<and> answer_ok w ag wr c raw qr"
proof -
  obtain raw where j: "j = Joined (Ok raw)"
    using assms by (auto simp: finish_query_def Let_def split: joined.splits sum.splits)
  have "\<not> (\<not> wr \<and> inline_row_cap (ag_config ag) < length (qr_rows raw))"
    and "qr = stamped_result w ag (final_deadline w ag c) raw"
    using assms j by (auto simp: finish_query_def Let_def split: if_splits)
  then show ?thesis using j by (auto simp: answer_ok_def stamped_result_def)
qed

lemma run_query_local_ok:
  assumes "fst (snd (run_query_local w ag info sql i wr c)) = Ok qr"
  shows "\<exists>loc raw. fst (ensure_local w info) = Ok loc \<and> engine_query w wr loc sql i = Joined (Ok raw) \<and> answer_ok w ag wr c raw qr"
proof (cases "fst (ensure_local w info)")
  case (Inl e)
  then show ?thesis using assms by (simp add: run_query_local_def Let_def)
next
  case (Inr loc)
  then show ?thesis using assms finish_query_ok by (simp add: run_query_local_def Let_def)
qed

lemma run_query_local_balance:
  assumes "w_op_id w \<notin> fst ` set (entries s)"
  shows "entries (inflight_after (snd (snd (run_query_local w ag info sql i wr c))) s) = entries s"
    and "dropping (inflight_after (snd (snd (run_query_local w ag info sql i wr c))) s) = dropping s"
    and "gauge_change (snd (snd (run_query_local w ag info sql i wr c))) = (if is_ok (fst (ensure_local w info)) then 0 else 1)"
proof -
  have "filter (\<lambda>(o', _). o' \<noteq> w_op_id w) (entries s) = entries s"
    using assms by (auto simp: filter_id_conv image_iff)
  then have e: "entries (complete_op (w_op_id w) (register_op (w_op_id w) p s)) = entries s"
    and d: "dropping (complete_op (w_op_id w) (register_op (w_op_id w) p s)) = dropping s" for p
    by (auto simp: inflight_defs split: option.split)
  show "entries (inflight_after (snd (snd (run_query_local w ag info sql i wr c))) s) = entries s"
    "dropping (inflight_after (snd (snd (run_query_local w ag info sql i wr c))) s) = dropping s"
    "gauge_change (snd (snd (run_query_local w ag info sql i wr c))) = (if is_ok (fst (ensure_local w info)) then 0 else 1)"
    by (cases "fst (ensure_local w info)"; simp add: run_query_local_def Let_def still_after e d)+
qed

section \<open>Collecting a stream\<close>

definition cell :: "(string \<rightharpoonup> Value) \<Rightarrow> string \<Rightarrow> Value" where
  "cell obj c = (case obj c of Some v \<Rightarrow> v | None \<Rightarrow> JNull)"

text \<open>The row of an object, read column by column; a field named twice counts once, the last.\<close>

definition row_of :: "string list \<Rightarrow> (string \<times> Value) list \<Rightarrow> Value list" where
  "row_of cols kvs = map (cell (map_of (rev kvs))) cols"

lemma object_map_eq: "object_map kvs = map_of (rev kvs)"
proof -
  have "fold (\<lambda>(k, v) obj. obj(k \<mapsto> v)) kvs m = m ++ map_of (rev kvs)" for m :: "string \<rightharpoonup> Value"
    by (induction kvs arbitrary: m) (auto simp: map_add_def fun_eq_iff split: option.split)
  then show ?thesis by (simp add: object_map_def)
qed

lemma take_columns_distinct: "distinct cols \<Longrightarrow> take_columns obj cols = map (cell obj) cols"
proof (induction cols arbitrary: obj)
  case (Cons c cs)
  then have "map (cell (obj(c := None))) cs = map (cell obj) cs" by (auto simp: cell_def)
  with Cons show ?case by (simp add: cell_def)
qed simp

lemma collect_rows_batches:
  assumes "distinct cols" "length out \<le> cap"
  shows "collect_rows cap cols (map (\<lambda>b. Ok (Ok b)) bss) out =
    (if length out + length (concat bss) \<le> cap then Ok (out @ map (row_of cols) (concat bss))
     else Err (result_cap_exceeded_unknown cap))"
  using assms(2)
  by (induction bss arbitrary: out)
    (auto simp: append_batch_rows_def row_of_def object_map_eq take_columns_distinct [OF assms(1)])

text \<open>Two columns of one name: the first gets the second's value, the second gets nothing.\<close>

lemma repeated_column_loses_a_value:
  "append_batch_rows (Ok [[(''id'', JString ''1''), (''id'', JString ''2'')]]) [''id'', ''id''] [] = Ok [[JString ''2'', JNull]]"
  by (simp add: append_batch_rows_def object_map_def)

section \<open>Loading a dataset\<close>

definition load_statements :: "DatasetInfo \<Rightarrow> string list" where
  "load_statements ds = create_schema_sql (ds_name ds)
     # map (\<lambda>t. dataset_load_sql (ds_name ds) (table_name t) (source_uri t) (format t)) (ds_tables ds)"

text \<open>Running acts one after another until one fails.\<close>

fun run_until_error :: "'a act list \<Rightarrow> AgentError option \<times> node_event list" where
  "run_until_error [] = (None, [])"
| "run_until_error (m # ms) = (case fst m of
      Inl e \<Rightarrow> (Some e, snd m)
    | Inr _ \<Rightarrow> (fst (run_until_error ms), snd m @ snd (run_until_error ms)))"

lemma load_tables_runs:
  "load_tables w ag i ref sch ts loaded =
     (let r = run_until_error (map (\<lambda>t. write_query w ag i ref (dataset_load_sql sch (table_name t) (source_uri t) (format t))) ts)
      in (case fst r of Some e \<Rightarrow> Err e | None \<Rightarrow> Ok (loaded @ map (\<lambda>t. sch @ ''.'' @ table_name t) ts), snd r))"
  by (induction ts arbitrary: loaded) (auto simp: act_ret_def act_bind_def Let_def split: sum.split option.split)

lemma load_dataset_inner_runs:
  "load_dataset_inner w ag i ref d = (case w_get_dataset w d of
      Inl e \<Rightarrow> (Err e, [])
    | Inr ds \<Rightarrow>
        (let r = run_until_error (map (write_query w ag i ref) (load_statements ds))
         in (case fst r of Some e \<Rightarrow> Err e
               | None \<Rightarrow> Ok \<lparr>ld_dataset = ds_name ds, ld_schema = ds_name ds,
                   ld_tables = map (\<lambda>t. ds_name ds @ ''.'' @ table_name t) (ds_tables ds)\<rparr>, snd r)))"
proof (cases "w_get_dataset w d")
  case (Inr ds)
  let ?ms = "map (write_query w ag i ref) (load_statements ds)"
  have "map (write_query w ag i ref) (load_statements ds) =
    write_query w ag i ref (create_schema_sql (ds_name ds))
      # map (\<lambda>t. write_query w ag i ref (dataset_load_sql (ds_name ds) (table_name t) (source_uri t) (format t))) (ds_tables ds)"
    by (simp add: load_statements_def)
  then show ?thesis using Inr
    by (auto simp: load_dataset_inner_def load_tables_runs act_bind_def act_ret_def Let_def split: sum.split option.split)
qed (simp add: load_dataset_inner_def)

section \<open>Properties\<close>

text \<open>C5. A drop deletes a pond's files only on its owner, after a confirmation, and in order: the
  tombstone is up and no registered operation on the pond is live, the registry row is gone, the
  engine's instance is closed and the lineage writer evicted. A drop that answers with an error
  has deleted no files, one that succeeded here has; and whatever happens no tombstone is left
  behind.\<close>

theorem drop_is_ordered:
  "let m = drop_pond_op w ag i ref confirm in
     set (dropping (inflight_after (snd m) s)) \<subseteq> set (dropping s)
   \<and> (\<forall>pre pid post. snd m = pre @ StorageDropped pid # post \<longrightarrow>
        confirm \<and> is_ok (fst m)
        \<and> (\<exists>info. w_pond_info w ref = Ok info \<and> placement ag info = Local \<and> drop_prepared w info pid pre s))
   \<and> (is_ok (fst m) \<longrightarrow> (\<exists>pid. StorageDropped pid \<in> set (snd m)) \<or> (\<exists>p. snd m = [Forwarded ''drop_pond'' p]))"
proof (cases confirm)
  case False
  then show ?thesis by (simp add: drop_pond_op_def audit_err_eq Let_def Cons_eq_append_conv)
next
  case True
  show ?thesis
  proof (cases rule: drp.run_cases [where w = w and ref = ref and ag = ag and i = i])
    case (served info)
    have d: "well_dropped w info (drop_pond_local w i info)" by (rule well_dropped_local)
    have "is_ok (fst (drop_pond_local w i info)) \<and> drop_prepared w info pid pre s"
      if "snd (drop_pond_local w i info) = pre @ StorageDropped pid # post" for pre pid post
      using d that unfolding well_dropped_def by auto
    then show ?thesis using served d True unfolding well_dropped_def Let_def by auto
  qed (simp_all add: True audit_err_eq Let_def Cons_eq_append_conv)
qed

theorem drop_is_ordered_witness:
  "let w = demo_world None None; m = drop_pond_op w demo_agent demo_identity ''pond'' True;
       pre = [BeganDrop ''p'', ControlDropped ''p'', ForgotEngine demo_location, EvictedWriter ''p''];
       a = access_record w demo_identity ''drop_pond'' (Some ''p'') None 1 ''ok''
   in snd m = pre @ StorageDropped ''p'' # [EvictedWriter ''p'', EndedDrop ''p'', Accessed a]
      \<and> (\<exists>info. w_pond_info w ''pond'' = Ok info \<and> drop_prepared w info ''p'' pre inflight_new)
      \<and> set (dropping (inflight_after (snd m) inflight_new)) \<subseteq> {}"
proof -
  let ?w = "demo_world None None"
  let ?m = "drop_pond_op ?w demo_agent demo_identity ''pond'' True"
  let ?pre = "[BeganDrop ''p'', ControlDropped ''p'', ForgotEngine demo_location, EvictedWriter ''p'']"
  let ?a = "access_record ?w demo_identity ''drop_pond'' (Some ''p'') None 1 ''ok''"
  have m: "snd ?m = ?pre @ StorageDropped ''p'' # [EvictedWriter ''p'', EndedDrop ''p'', Accessed ?a]"
    by (simp add: drop_pond_op_def pond_info_audited_def route_def placement_def demo_agent_def agent_new_def
        drop_pond_local_def drop_files_def parse_id_def evict_lineage_writer_def Let_def act_bind_def act_simps audit_op_def)
  have "\<exists>info. w_pond_info ?w ''pond'' = Ok info \<and> drop_prepared ?w info ''p'' ?pre inflight_new"
    using drop_is_ordered [of ?w demo_agent demo_identity "''pond''" True inflight_new, unfolded Let_def,
        THEN conjunct2, THEN conjunct1, rule_format, OF m] by auto
  moreover have "set (dropping (inflight_after (snd ?m) inflight_new)) \<subseteq> {}"
    using drop_is_ordered [of ?w demo_agent demo_identity "''pond''" True inflight_new, unfolded Let_def, THEN conjunct1]
    by (simp add: inflight_new_def)
  ultimately show ?thesis using m unfolding Let_def by (intro conjI)
qed

text \<open>C31. A statement that succeeds was run by this node's engine as the pond's owner, and its
  answer is the engine's rows and lineage with a read within the row cap, under this node's name
  and with the timeout this node's policy gave it; or it was relayed and is the owner's answer
  unchanged.\<close>

theorem query_answer_contract:
  assumes "run_query w ag ref sql i wr c = (Ok qr, evs)"
  shows "\<exists>info. w_pond_info w ref = Ok info \<and>
    ((placement ag info = Local \<and> (\<exists>loc raw. fst (ensure_local w info) = Ok loc
        \<and> engine_query w wr loc sql i = Joined (Ok raw) \<and> answer_ok w ag wr c raw qr))
     \<or> (\<exists>owner. placement ag info = Forward owner
        \<and> Ok qr = (if wr then w_fwd_write w owner i ref sql (qc_timeout_ms c) else w_fwd_read w owner i ref sql (qc_timeout_ms c))))"
proof (cases rule: qry.run_cases [where w = w and ref = ref and ag = ag and i = i and wr = wr and sql = sql and c = c])
  case (served info)
  then have "fst (snd (run_query_local w ag info sql i wr c)) = Ok qr"
    using assms by (simp add: split_beta act_then_def)
  from run_query_local_ok [OF this] served show ?thesis by blast
qed (use assms in \<open>simp_all add: audit_err_eq split: if_splits\<close>)

theorem query_answer_contract_witness:
  "let w = demo_world None None; c = \<lparr>qc_timeout_ms = Some 5, qc_cancel = False\<rparr>;
       m = run_query w demo_agent ''pond'' ''SELECT 1'' demo_identity False c
   in \<exists>qr loc raw. fst m = Ok qr \<and> engine_query w False loc ''SELECT 1'' demo_identity = Joined (Ok raw)
        \<and> answer_ok w demo_agent False c raw qr \<and> qr_rows qr = [[JNull]]"
proof -
  let ?w = "demo_world None None" and ?c = "\<lparr>qc_timeout_ms = Some 5, qc_cancel = False\<rparr>"
  let ?m = "run_query ?w demo_agent ''pond'' ''SELECT 1'' demo_identity False ?c"
  have "\<exists>qr. fst ?m = Ok qr"
    by (simp add: run_query_def pond_info_audited_def route_def placement_def demo_agent_def agent_new_def run_query_local_def
        ensure_local_def parse_id_def engine_query_def finish_query_def agent_config_default_def demo_result_def
        act_bind_def act_simps Let_def audit_op_def)
  then obtain qr where qr: "?m = (Ok qr, snd ?m)" by (metis prod.collapse)
  have "placement demo_agent info = Local" for info by (simp add: placement_def demo_agent_def agent_new_def)
  with query_answer_contract [OF qr] obtain loc raw where
    "engine_query ?w False loc ''SELECT 1'' demo_identity = Joined (Ok raw)" "answer_ok ?w demo_agent False ?c raw qr"
    by auto
  moreover from this have "qr_rows qr = [[JNull]]" by (auto simp: answer_ok_def engine_query_def demo_result_def)
  ultimately show ?thesis unfolding Let_def using qr by (metis fst_conv)
qed

text \<open>A statement leaves the in-flight registry as it found it, whether it is refused,
  relayed, answered or fails, even when the engine call dies: its operation is no longer
  registered and no tombstone was moved. The load gauge of its pond is back where it was too,
  except when the pond's storage could not be had: then it stays one too high.\<close>

lemma statement_leaves_nothing_in_flight:
  assumes "w_op_id w \<notin> fst ` set (entries s)"
  shows "let evs = snd (run_query w ag ref sql i wr c) in
    entries (inflight_after evs s) = entries s \<and> dropping (inflight_after evs s) = dropping s
    \<and> gauge_change evs = (case w_pond_info w ref of Inl _ \<Rightarrow> 0
        | Inr info \<Rightarrow> if placement ag info = Local \<and> is_err (fst (ensure_local w info)) then 1 else 0)"
proof (cases rule: qry.run_cases [where w = w and ref = ref and ag = ag and i = i and wr = wr and sql = sql and c = c])
  case (served info)
  then show ?thesis
    using run_query_local_balance [OF assms, of ag info sql i wr c]
    by (simp add: split_beta Let_def still_after is_err_def)
qed (simp_all add: audit_err_eq Let_def)

lemma statement_leaves_nothing_in_flight_example:
  "let w = (demo_world None None)\<lparr>w_ensure := (\<lambda>_ _. Err (S_Io ''disk full''))\<rparr>;
       evs = snd (run_query w demo_agent ''pond'' ''SELECT 1'' demo_identity False controls_none)
   in w_op_id w \<notin> fst ` set (entries inflight_new) \<and> entries (inflight_after evs inflight_new) = [] \<and> gauge_change evs = 1"
proof -
  let ?w = "(demo_world None None)\<lparr>w_ensure := (\<lambda>_ _. Err (S_Io ''disk full''))\<rparr>"
  have f: "w_op_id ?w \<notin> fst ` set (entries inflight_new)" by (simp add: inflight_new_def)
  have "is_err (fst (ensure_local ?w (demo_info None None)))" "placement demo_agent (demo_info None None) = Local"
    by (simp_all add: ensure_local_def parse_id_def act_bind_def placement_def demo_agent_def agent_new_def)
  with statement_leaves_nothing_in_flight [OF f, of demo_agent "''pond''" "''SELECT 1''" demo_identity False controls_none] f
  show ?thesis by (simp add: Let_def inflight_new_def)
qed

text \<open>Rows collected from a stream do not depend on how they were cut into batches: with
  columns of different names, the result has one row per object, in order, each column's value
  under its column, when there are no more rows than the cap, and is refused otherwise.\<close>

lemma collected_rows_ignore_batching:
  assumes "distinct cols"
  shows "collect_rows cap cols (map (\<lambda>b. Ok (Ok b)) bss) [] =
    (if length (concat bss) \<le> cap then Ok (map (row_of cols) (concat bss)) else Err (result_cap_exceeded_unknown cap))"
  using collect_rows_batches [OF assms, of "[]" cap bss] by simp

lemma collected_rows_ignore_batching_example:
  "let bss = [[[(''a'', JString ''1''), (''b'', JNull)], []], [], [[(''b'', JString ''2'')]]] in
   distinct [''a'', ''b''] \<and> collect_rows 3 [''a'', ''b''] (map (\<lambda>b. Ok (Ok b)) bss) [] =
     Ok [[JString ''1'', JNull], [JNull, JNull], [JNull, JString ''2'']]"
  unfolding Let_def by (subst collected_rows_ignore_batching) (simp_all add: row_of_def cell_def)

text \<open>Loading a dataset runs, through the write path, the statement that makes its schema and
  then one statement per table in the dataset's order, stops at the first that fails and answers
  with that error, names every table when none fails, and records itself once after the records
  of the statements it ran.\<close>

lemma load_dataset_outcome:
  "case w_get_dataset w d of
     Inl e \<Rightarrow> fst (load_dataset w ag i ref d) = Err e
   | Inr ds \<Rightarrow>
       (let r = run_until_error (map (write_query w ag i ref) (load_statements ds));
            m = load_dataset w ag i ref d
        in fst m = (case fst r of Some e \<Rightarrow> Err e
               | None \<Rightarrow> Ok \<lparr>ld_dataset = ds_name ds, ld_schema = ds_name ds,
                   ld_tables = map (\<lambda>t. ds_name ds @ ''.'' @ table_name t) (ds_tables ds)\<rparr>)
         \<and> snd m = snd r @ [Accessed (access_record w i ''load_dataset'' (Some ref) (Some d) (w_elapsed w)
               (if fst r = None then ''ok'' else ''error''))])"
  by (auto simp: load_dataset_def load_dataset_inner_runs Let_def access_outcome_def split: sum.split option.split)

end
