(* ===== verification/Cluster.thy ===== *)
theory Cluster
  imports Agent_Facts
begin

text \<open>
  Several pond nodes together. A node that relays an operation dials the owner's endpoint, and
  whatever answers there performs the operation the call asks for, with the same routing decision
  and no count of the hops so far. \<open>dial\<close> is the network: which node answers at an address.
\<close>

section \<open>A request through the cluster\<close>

definition relayed_to :: "'a act \<Rightarrow> Peer option" where
  "relayed_to m = (case snd m of [Forwarded _ p] \<Rightarrow> Some p | _ \<Rightarrow> None)"

text \<open>What the node that is dialled is asked to do: a collected read rides the Arrow stream and is a
  \<open>read_arrow\<close> there, a plain read is collected there, a page's limit is clamped first; a
  cancellation does not cross, and an absent timeout or bound crosses as its zero.\<close>

definition hop_controls :: "QueryControls \<Rightarrow> QueryControls" where
  "hop_controls c = \<lparr>qc_timeout_ms = Some (case qc_timeout_ms c of None \<Rightarrow> 0 | Some t \<Rightarrow> t), qc_cancel = False\<rparr>"

fun at_owner :: "request \<Rightarrow> request" where
  "at_owner (RQuery ref sql wr c) = (if wr then RQuery ref sql True (hop_controls c) else RCollect ref sql (hop_controls c))"
| "at_owner (RReadArrow ref sql c) = RReadArrow ref sql (hop_controls c)"
| "at_owner (RCollect ref sql c) = RReadArrow ref sql (hop_controls c)"
| "at_owner (RLineage ref lim lo hi) = RLineage ref (min lim MAX_LIMIT) (Option.bind lo non_empty) (Option.bind hi non_empty)"
| "at_owner rq = rq"

lemma request_pond_at_owner [simp]: "request_pond (at_owner rq) = request_pond rq"
  by (cases rq) simp_all

text \<open>The nodes the request visits, each with what it did; \<open>None\<close> when it is still being relayed
  after \<open>n\<close> hops.\<close>

fun visit :: "nat \<Rightarrow> (AgentOps \<Rightarrow> world) \<Rightarrow> (string \<Rightarrow> AgentOps option) \<Rightarrow> AgentOps \<Rightarrow> Identity \<Rightarrow> request
    \<Rightarrow> (AgentOps \<times> node_event list) list option" where
  "visit n W dial ag i rq =
     (let m = perform (W ag) ag i rq in
      case Option.bind (relayed_to m) (\<lambda>p. dial (peer_endpoint p)) of
        None \<Rightarrow> Some [(ag, snd m)]
      | Some next \<Rightarrow>
          (case n of 0 \<Rightarrow> None
           | Suc k \<Rightarrow> map_option (\<lambda>path. (ag, snd m) # path) (visit k W dial next i (at_owner rq))))"

declare visit.simps [simp del]

text \<open>The cluster is sound for a registry: every node asks it, and at a node's registered address
  that node answers, under the id it is registered with.\<close>

definition sound_cluster :: "(string \<Rightarrow> (AgentError, PondInfo) result) \<Rightarrow> (AgentOps \<Rightarrow> world) \<Rightarrow> (string \<Rightarrow> AgentOps option) \<Rightarrow> bool" where
  "sound_cluster R W dial \<longleftrightarrow> (\<forall>ag. w_pond_info (W ag) = R)
     \<and> (\<forall>ref info nid e next. R ref = Ok info \<and> pi_node_id info = Some nid \<and> pi_node_endpoint info = Some e \<and> dial e = Some next
          \<longrightarrow> self_node_id next = Some nid)"

lemma placement_peer:
  assumes "placement ag info = Forward p"
  shows "pi_node_id info = Some (peer_node_id p) \<and> peer_node_id p \<noteq> [] \<and> pi_node_endpoint info = Some (peer_endpoint p)"
  using assms by (auto simp: placement_def bind_non_empty_None split: option.splits if_splits bool.splits)

lemma placement_owner:
  assumes "pi_node_id info = Some n" "n \<noteq> []" "self_node_id ag = Some n"
  shows "placement ag info = Local"
proof -
  have "Option.bind (pi_node_id info) non_empty = Some n" by (simp add: assms(1,2) non_empty_def)
  then show ?thesis using assms by (auto simp: placement_def split: option.split bool.split)
qed

lemma relayed_to_Some: "relayed_to m = Some p \<longleftrightarrow> (\<exists>op. snd m = [Forwarded op p])"
  by (auto simp: relayed_to_def split: list.splits node_event.splits)

lemma perform_relayed:
  assumes "relayed_to (perform w ag i rq) = Some p"
  shows "\<exists>info. w_pond_info w (request_pond rq) = Ok info \<and> placement ag info = Forward p"
    and "snd (perform w ag i rq) = [Forwarded (request_op rq) p]"
proof -
  obtain op where s: "snd (perform w ag i rq) = [Forwarded op p]" using assms by (auto simp: relayed_to_Some)
  then have "\<not> ends_recorded i' o' (perform w ag i rq)" for i' o' using recorded_not_relayed by fastforce
  with perform_well_routed [of w ag i rq] s
  show "\<exists>info. w_pond_info w (request_pond rq) = Ok info \<and> placement ag info = Forward p"
    "snd (perform w ag i rq) = [Forwarded (request_op rq) p]"
    by (auto simp: well_routed_def)
qed

lemma perform_recorded: "relayed_to (perform w ag i rq) = None \<Longrightarrow> ends_recorded i (request_op rq) (perform w ag i rq)"
  using perform_well_routed [of w ag i rq] by (auto simp: well_routed_def relayed_to_def)

lemma owner_relays_nothing:
  assumes "w_pond_info w (request_pond rq) = Ok info" "placement ag info = Local"
  shows "relayed_to (perform w ag i rq) = None"
  using assms perform_relayed(1) [of w ag i rq] by (cases "relayed_to (perform w ag i rq)") auto

lemma visit_end: "relayed_to (perform (W ag) ag i rq) = None \<Longrightarrow> visit n W dial ag i rq = Some [(ag, snd (perform (W ag) ag i rq))]"
  by (simp add: visit.simps Let_def)

section \<open>Properties\<close>

text \<open>C9. In a sound cluster a request is relayed at most once, from whatever node it arrives at
  and for whatever operation: it ends on the node it came to, or on the node that is dialled,
  and that one serves it as the pond's owner, a collected read as the stream it asked for. The
  cluster as a whole has one access record for it, on the last node visited and named after what ran
  there, unless nobody answers at the owner's address.\<close>

theorem one_hop_suffices:
  assumes "sound_cluster R W dial"
  shows "\<exists>path. visit (Suc n) W dial ag i rq = Some path \<and> length path \<le> 2
    \<and> (\<forall>(node, evs) \<in> set (butlast path). \<exists>p. evs = [Forwarded (request_op rq) p])
    \<and> ((\<exists>a. visible (snd (last path)) = [Accessed a] \<and> acc_identity a = i
           \<and> acc_op a = request_op (if length path = 2 then at_owner rq else rq))
       \<or> (\<exists>p. snd (last path) = [Forwarded (request_op rq) p] \<and> dial (peer_endpoint p) = None))
    \<and> (length path = 2 \<longrightarrow> (\<exists>info nid. R (request_pond rq) = Ok info \<and> pi_node_id info = Some nid \<and> self_node_id (fst (last path)) = Some nid))"
proof (cases "relayed_to (perform (W ag) ag i rq)")
  case None
  then show ?thesis using perform_recorded [OF None] by (auto simp: visit_end ends_recorded_def)
next
  case (Some p)
  note m = perform_relayed [OF Some]
  obtain info where info: "R (request_pond rq) = Ok info" "placement ag info = Forward p"
    using m(1) assms by (auto simp: sound_cluster_def)
  show ?thesis
  proof (cases "dial (peer_endpoint p)")
    case None
    then show ?thesis using Some m(2) by (simp add: visit.simps)
  next
    case next_node: (Some owner)
    have id: "self_node_id owner = Some (peer_node_id p)"
      using assms info placement_peer [OF info(2)] next_node unfolding sound_cluster_def by blast
    have "relayed_to (perform (W owner) owner i (at_owner rq)) = None"
      using owner_relays_nothing [of "W owner" "at_owner rq" info owner i] placement_owner [OF _ _ id] placement_peer [OF info(2)] info(1) assms
      by (auto simp: sound_cluster_def)
    then show ?thesis
      using Some m(2) next_node id info(1) placement_peer [OF info(2)] perform_recorded [of "W owner" owner i "at_owner rq"]
      by (auto simp: visit.simps [of "Suc n"] visit_end ends_recorded_def)
  qed
qed

theorem one_hop_suffices_witness:
  "let R = (\<lambda>_. Ok (demo_info (Some ''n2'') (Some ''http://n2'')));
       W = (\<lambda>_. demo_world (Some ''n2'') (Some ''http://n2''));
       n1 = with_forwarding demo_agent ''n1'' ''http://n1''; n2 = with_forwarding demo_agent ''n2'' ''http://n2'';
       dial = (\<lambda>e. if e = ''http://n2'' then Some n2 else None)
   in sound_cluster R W dial
    \<and> (\<exists>path. visit 1 W dial n1 demo_identity (RMaterialize ''pond'') = Some path \<and> length path \<le> 2)"
proof -
  let ?R = "\<lambda>_. Ok (demo_info (Some ''n2'') (Some ''http://n2''))" and ?W = "\<lambda>_. demo_world (Some ''n2'') (Some ''http://n2'')"
  let ?dial = "\<lambda>e. if e = ''http://n2'' then Some (with_forwarding demo_agent ''n2'' ''http://n2'') else None"
  have "sound_cluster ?R ?W ?dial" by (auto simp: sound_cluster_def with_forwarding_def)
  with one_hop_suffices [OF this, of 0 "with_forwarding demo_agent ''n1'' ''http://n1''" demo_identity "RMaterialize ''pond''"]
  show ?thesis by (auto simp: Let_def)
qed

text \<open>The one comparison of addresses does not keep a node from dialling itself: when another
  node id is registered at a second spelling of this node's own address, the request is relayed
  from the node to itself without end.\<close>

lemma self_relay_through_an_alias:
  "visit n (\<lambda>_. demo_world (Some ''n2'') (Some ''http://N1'')) (\<lambda>_. Some (with_forwarding demo_agent ''n1'' ''http://n1''))
     (with_forwarding demo_agent ''n1'' ''http://n1'') demo_identity (RMaterialize ''pond'') = None"
proof (induction n)
  let ?w = "demo_world (Some ''n2'') (Some ''http://N1'')" and ?n1 = "with_forwarding demo_agent ''n1'' ''http://n1''"
  have "snd (perform ?w ?n1 demo_identity (RMaterialize ''pond'')) =
      [Forwarded ''materialize_pond'' \<lparr>peer_node_id = ''n2'', peer_endpoint = ''http://N1''\<rparr>]"
    by (simp add: materialize_pond_def pond_info_audited_def route_def placement_def with_forwarding_def non_empty_def act_bind_def)
  then have r: "relayed_to (perform ?w ?n1 demo_identity (RMaterialize ''pond'')) = Some \<lparr>peer_node_id = ''n2'', peer_endpoint = ''http://N1''\<rparr>"
    by (simp add: relayed_to_def)
  case 0
  show ?case using r by (simp add: visit.simps)
  case (Suc n)
  then show ?case using r by (simp add: visit.simps [of "Suc n"])
qed

end
