(* ===== verification/Arrow_Stream.thy ===== *)
theory Arrow_Stream
  imports Agent_Contracts
begin

text \<open>
  The streamed read between its two ends: the engine's batch loop (\<open>run_read_arrow\<close> of
  \<open>latiq-engine-duckdb/src/exec.rs\<close> in the read transaction of \<open>in_read_txn\<close>), the sink that
  hands each batch to a bounded channel (\<open>ChannelSink\<close> of \<open>latiq-agent-core/src/ops.rs\<close>), the
  blocking producer that reports the end, and the consumer. Producer and consumer run
  concurrently: an execution is a list of moves in any order. How the transaction's \<open>COMMIT\<close>
  ends is a parameter (\<open>None\<close>: it succeeds).
\<close>

section \<open>The machine\<close>

definition CHANNEL :: nat where "CHANNEL = 4"

datatype phase = Fetching | Reporting EngineError | Closed "EngineError option"

type_synonym 'b item = "(EngineError, 'b) result"

record 'b stream =
  st_left :: "'b list"
  st_parked :: "'b option"
  st_queue :: "'b item list"
  st_got :: "'b item list"
  st_aborted :: bool
  st_gone :: bool
  st_phase :: phase

definition stream_start :: "'b list \<Rightarrow> 'b stream" where
  "stream_start bs = \<lparr>st_left = bs, st_parked = None, st_queue = [], st_got = [], st_aborted = False, st_gone = False,
     st_phase = Fetching\<rparr>"

text \<open>The engine call has returned; on success the read transaction is committed first.\<close>

definition settle :: "EngineError option \<Rightarrow> EngineError option \<Rightarrow> 'b stream \<Rightarrow> 'b stream" where
  "settle commit err s = s\<lparr>st_parked := None, st_phase := (case err of
      Some e \<Rightarrow> Reporting e
    | None \<Rightarrow> (case commit of None \<Rightarrow> Closed None | Some e \<Rightarrow> Reporting e))\<rparr>"

text \<open>
  \<open>send_batch\<close>: room wins over a cancel that races it; a receiver that is gone and a cancel on a
  full channel both break, and a full channel without either makes the producer wait.
\<close>

datatype sent = Delivered | Broken | Parked

definition send_batch :: "'b stream \<Rightarrow> sent" where
  "send_batch s = (if st_gone s then Broken else if length (st_queue s) < CHANNEL then Delivered
     else if st_aborted s then Broken else Parked)"

text \<open>The next move of the producer: the batch loop, then the report of an error.\<close>

definition produce :: "EngineError option \<Rightarrow> 'b stream \<Rightarrow> 'b stream" where
  "produce commit s = (case st_phase s of
      Fetching \<Rightarrow>
        (case st_parked s of
           None \<Rightarrow> (case st_left s of
               [] \<Rightarrow> settle commit None s
             | b # bs \<Rightarrow> if st_aborted s then settle commit (Some E_Cancelled) s
                        else s\<lparr>st_left := bs, st_parked := Some b\<rparr>)
         | Some b \<Rightarrow> (case send_batch s of
               Delivered \<Rightarrow> s\<lparr>st_queue := st_queue s @ [Ok b], st_parked := None\<rparr>
             | Broken \<Rightarrow> settle commit None s
             | Parked \<Rightarrow> s))
    | Reporting e \<Rightarrow> (case send_batch s of
          Delivered \<Rightarrow> s\<lparr>st_queue := st_queue s @ [Err e], st_phase := Closed (Some e)\<rparr>
        | Broken \<Rightarrow> s\<lparr>st_phase := Closed (Some e)\<rparr>
        | Parked \<Rightarrow> s)
    | Closed _ \<Rightarrow> s)"

datatype move = Produce | Consume | AbortFires | ConsumerLeaves

fun stream_move :: "EngineError option \<Rightarrow> move \<Rightarrow> 'b stream \<Rightarrow> 'b stream" where
  "stream_move commit Produce s = produce commit s"
| "stream_move commit Consume s = (case st_queue s of
      [] \<Rightarrow> s
    | x # q \<Rightarrow> if st_gone s then s else s\<lparr>st_queue := q, st_got := st_got s @ [x]\<rparr>)"
| "stream_move commit AbortFires s = s\<lparr>st_aborted := True\<rparr>"
| "stream_move commit ConsumerLeaves s = s\<lparr>st_gone := True\<rparr>"

definition stream_run :: "EngineError option \<Rightarrow> move list \<Rightarrow> 'b list \<Rightarrow> 'b stream" where
  "stream_run commit ms bs = fold (stream_move commit) ms (stream_start bs)"

text \<open>What the machine leaves for \<open>read_arrow_local\<close>.\<close>

fun batches_of :: "'b item list \<Rightarrow> 'b list" where
  "batches_of [] = []"
| "batches_of (Inr b # xs) = b # batches_of xs"
| "batches_of (Inl _ # xs) = batches_of xs"

definition stream_outcome :: "string list \<Rightarrow> QueryMeta \<Rightarrow> RecordBatch stream \<Rightarrow> arrow_run" where
  "stream_outcome cols meta s = \<lparr>aw_schema = Some cols, aw_batches = batches_of (st_got s),
     aw_result = Some (case st_phase s of Closed (Some e) \<Rightarrow> Err e | _ \<Rightarrow> Ok meta),
     aw_room = (\<exists>x \<in> set (st_got s). is_err x)\<rparr>"

section \<open>The invariant\<close>

definition on_the_way :: "'b stream \<Rightarrow> 'b item list" where
  "on_the_way s = st_got s @ st_queue s"

definition stream_inv :: "'b list \<Rightarrow> 'b stream \<Rightarrow> bool" where
  "stream_inv all s \<longleftrightarrow> length (st_queue s) \<le> CHANNEL
     \<and> (case st_phase s of
          Fetching \<Rightarrow> on_the_way s @ map Ok (case st_parked s of None \<Rightarrow> [] | Some b \<Rightarrow> [b]) @ map Ok (st_left s) = map Ok all
        | Reporting _ \<Rightarrow> (\<exists>bs rest. all = bs @ rest \<and> on_the_way s = map Ok bs)
        | Closed None \<Rightarrow> (\<exists>bs rest. all = bs @ rest \<and> on_the_way s = map Ok bs
            \<and> (rest = [] \<or> st_aborted s \<or> st_gone s))
        | Closed (Some e) \<Rightarrow> (\<exists>bs rest. all = bs @ rest \<and> (on_the_way s = map Ok bs \<and> (st_aborted s \<or> st_gone s) \<or> on_the_way s = map Ok bs @ [Err e])))"

lemma settle_inv:
  assumes "length (st_queue s) \<le> CHANNEL" "all = bs @ rest" "on_the_way s = map Ok bs"
    and "err = None \<Longrightarrow> rest = [] \<or> st_aborted s \<or> st_gone s"
  shows "stream_inv all (settle commit err s)"
  using assms by (auto simp: stream_inv_def settle_def on_the_way_def split: option.split)

lemma map_Ok_split:
  "on_the_way s @ map Ok xs = map Ok all \<Longrightarrow> \<exists>bs. all = bs @ xs \<and> on_the_way s = map Ok bs"
  by (auto simp: map_eq_append_conv append_eq_map_conv dest!: inj_map_eq_map [THEN iffD1, rotated] intro: injI)

lemma produce_inv:
  assumes inv: "stream_inv all s"
  shows "stream_inv all (produce commit s)"
proof (cases "st_phase s")
  case Fetching
  let ?rest = "(case st_parked s of None \<Rightarrow> [] | Some b \<Rightarrow> [b]) @ st_left s"
  have q: "length (st_queue s) \<le> CHANNEL" and e: "on_the_way s @ map Ok ?rest = map Ok all"
    using inv Fetching by (simp_all add: stream_inv_def)
  from map_Ok_split [OF e] obtain bs where bs: "all = bs @ ?rest" "on_the_way s = map Ok bs" by auto
  show ?thesis
  proof (cases "st_parked s")
    case None
    then show ?thesis
      using Fetching q e bs settle_inv [OF q bs]
      by (cases "st_left s") (auto simp: produce_def stream_inv_def on_the_way_def)
  next
    case (Some b)
    then show ?thesis
      using Fetching q e bs settle_inv [OF q bs]
      by (cases "send_batch s") (auto simp: produce_def stream_inv_def on_the_way_def send_batch_def split: if_splits)
  qed
next
  case (Reporting e)
  then show ?thesis
    using inv by (auto simp: produce_def stream_inv_def on_the_way_def send_batch_def split: sent.split)
qed (use inv in \<open>simp add: produce_def\<close>)

lemma stream_inv_cong:
  assumes "stream_inv all s" "on_the_way s' = on_the_way s" "length (st_queue s') \<le> length (st_queue s)"
    "st_parked s' = st_parked s" "st_left s' = st_left s" "st_phase s' = st_phase s"
    "st_aborted s \<Longrightarrow> st_aborted s'" "st_gone s \<Longrightarrow> st_gone s'"
  shows "stream_inv all s'"
proof (cases "st_phase s")
  case (Closed err)
  then show ?thesis using assms by (cases err) (fastforce simp: stream_inv_def)+
qed (use assms in \<open>simp_all add: stream_inv_def\<close>)

lemma move_inv: "stream_inv all s \<Longrightarrow> stream_inv all (stream_move commit m s)"
proof (cases m)
  case Produce
  assume "stream_inv all s"
  with Produce show ?thesis by (simp add: produce_inv)
next
  case Consume
  assume "stream_inv all s"
  then show ?thesis by (rule stream_inv_cong) (simp_all add: Consume on_the_way_def split: list.split)
next
  case AbortFires
  assume "stream_inv all s"
  then show ?thesis by (rule stream_inv_cong) (simp_all add: AbortFires on_the_way_def)
next
  case ConsumerLeaves
  assume "stream_inv all s"
  then show ?thesis by (rule stream_inv_cong) (simp_all add: ConsumerLeaves on_the_way_def)
qed

lemma run_inv: "stream_inv bs (stream_run commit ms bs)"
proof -
  have "stream_inv bs (stream_start bs)" by (simp add: stream_inv_def stream_start_def on_the_way_def)
  then show ?thesis unfolding stream_run_def
    by (induction ms rule: rev_induct) (simp_all add: move_inv)
qed

lemma flags_kept [simp]:
  "st_aborted (settle commit err s) = st_aborted s" "st_gone (settle commit err s) = st_gone s"
  "st_aborted (produce commit s) = st_aborted s" "st_gone (produce commit s) = st_gone s"
proof -
  show st: "st_aborted (settle commit err s) = st_aborted s" "st_gone (settle commit err s) = st_gone s" for err s
    by (simp_all add: settle_def)
  show "st_aborted (produce commit s) = st_aborted s" "st_gone (produce commit s) = st_gone s"
    by (simp_all add: produce_def st split: phase.split option.split list.split sent.split)
qed

lemma move_flags:
  "st_aborted (stream_move commit m s) \<longleftrightarrow> st_aborted s \<or> m = AbortFires"
  "st_gone (stream_move commit m s) \<longleftrightarrow> st_gone s \<or> m = ConsumerLeaves"
  by (cases m; simp split: list.split)+

lemma run_flags:
  "st_aborted (stream_run commit ms bs) \<longleftrightarrow> AbortFires \<in> set ms"
  "st_gone (stream_run commit ms bs) \<longleftrightarrow> ConsumerLeaves \<in> set ms"
  unfolding stream_run_def
  by (induction ms rule: rev_induct) (auto simp: move_flags stream_start_def)

section \<open>A cancelled stream ends\<close>

text \<open>How many moves of the producer are left once the operation is cancelled.\<close>

definition rank :: "'b stream \<Rightarrow> nat" where
  "rank s = (case st_phase s of Closed _ \<Rightarrow> 0 | Reporting _ \<Rightarrow> 1
     | Fetching \<Rightarrow> (case st_parked s of None \<Rightarrow> 2 | Some _ \<Rightarrow> 3))"

lemma rank_settle: "rank (settle commit err s) \<le> 1"
  by (simp add: rank_def settle_def split: option.split)

lemma rank_produce: "st_aborted s \<Longrightarrow> rank (produce commit s) \<le> rank s - 1"
proof (cases "st_phase s")
  case Fetching
  assume ab: "st_aborted s"
  show ?thesis
  proof (cases "st_parked s")
    case None
    then have "rank s = 2" using Fetching by (simp add: rank_def)
    moreover have "\<exists>err. produce commit s = settle commit err s"
      using Fetching None ab by (auto simp: produce_def split: list.split)
    ultimately show ?thesis using rank_settle by fastforce
  next
    case (Some b)
    then have r: "rank s = 3" using Fetching by (simp add: rank_def)
    have "rank (s\<lparr>st_queue := st_queue s @ [Ok b], st_parked := None\<rparr>) = 2" using Fetching by (simp add: rank_def)
    then show ?thesis
      using Fetching Some ab r rank_settle [of commit None s]
      by (cases "send_batch s") (auto simp: produce_def send_batch_def split: if_splits)
  qed
next
  case (Reporting e)
  assume "st_aborted s"
  with Reporting show ?thesis by (cases "send_batch s") (auto simp: produce_def rank_def send_batch_def split: if_splits)
qed (simp add: produce_def rank_def)

lemma rank_other: "m \<noteq> Produce \<Longrightarrow> rank (stream_move commit m s) = rank s"
  by (cases m) (auto simp: rank_def split: list.split phase.split option.split)

lemma rank_moves: "st_aborted s \<Longrightarrow> rank (fold (stream_move commit) ms s) \<le> rank s - count_list ms Produce"
proof (induction ms arbitrary: s)
  case (Cons m ms)
  have "st_aborted (stream_move commit m s)" using Cons.prems by (simp add: move_flags)
  then have *: "rank (fold (stream_move commit) ms (stream_move commit m s)) \<le> rank (stream_move commit m s) - count_list ms Produce"
    by (rule Cons.IH)
  show ?case
  proof (cases "m = Produce")
    case True
    then show ?thesis using * rank_produce [OF Cons.prems, of commit] by simp
  next
    case False
    then show ?thesis using * rank_other [OF False, of commit s] by simp
  qed
qed simp

lemma rank_bound: "rank s \<le> 3"
  by (simp add: rank_def split: phase.split option.split)

lemma rank_zero: "rank s = 0 \<longleftrightarrow> (\<exists>err. st_phase s = Closed err)"
  by (cases "st_phase s") (simp_all add: rank_def split: option.split)

section \<open>A consumer that keeps up\<close>

definition round_trip :: "'b stream \<Rightarrow> 'b stream" where
  "round_trip s = stream_move None Consume (stream_move None Produce s)"

definition in_step :: "'b list \<Rightarrow> 'b list \<Rightarrow> 'b stream" where
  "in_step bs got = (stream_start bs)\<lparr>st_got := map Ok got\<rparr>"

lemma two_rounds: "round_trip (round_trip (in_step (b # bs) got)) = in_step bs (got @ [b])"
  by (simp add: round_trip_def in_step_def stream_start_def produce_def send_batch_def CHANNEL_def)

lemma last_round: "round_trip (in_step [] got) = (in_step [] got)\<lparr>st_phase := Closed None\<rparr>"
  by (simp add: round_trip_def in_step_def stream_start_def produce_def settle_def)

lemma closed_rounds: "(round_trip ^^ k) ((in_step [] got)\<lparr>st_phase := Closed None\<rparr>) = (in_step [] got)\<lparr>st_phase := Closed None\<rparr>"
  by (induction k) (simp_all add: round_trip_def in_step_def stream_start_def produce_def)

lemma all_rounds:
  "(round_trip ^^ (2 * length bs + 1 + k)) (in_step bs got) = (in_step [] (got @ bs))\<lparr>st_phase := Closed None\<rparr>"
proof (induction bs arbitrary: got)
  case Nil
  then show ?case using closed_rounds [of k got] last_round [of got] by (simp add: funpow_swap1 del: funpow.simps) (simp add: funpow_swap1)
next
  case (Cons b bs)
  have "2 * length (b # bs) + 1 + k = (2 * length bs + 1 + k) + 2" by simp
  then have "(round_trip ^^ (2 * length (b # bs) + 1 + k)) (in_step (b # bs) got)
      = (round_trip ^^ (2 * length bs + 1 + k)) (round_trip (round_trip (in_step (b # bs) got)))"
    by (simp only: funpow_add) (simp add: numeral_2_eq_2)
  then show ?case using Cons [of "got @ [b]"] by (simp add: two_rounds)
qed

lemma rounds_eq: "fold (stream_move None) (concat (replicate n [Produce, Consume])) s = (round_trip ^^ n) s"
  by (induction n arbitrary: s) (simp_all add: round_trip_def funpow_swap1)

lemma read_collected_served:
  assumes "w_pond_info w ref = Ok info" "placement ag info = Local"
  shows "fst (read_collected w ag i ref sql c) = fst (act_bind (read_arrow_local w ag info sql c) (\<lambda>st. act_of (collect_stream w ag st)))"
  by (cases rule: rco.run_cases [where w = w and ref = ref and ag = ag and i = i and sql = sql and c = c])
    (use assms in \<open>simp_all add: audit_err_eq\<close>)

section \<open>Properties\<close>

text \<open>C21. Whatever the order of moves, the consumer receives the statement's batches in order and
  without gaps, an error only after them, and at most four items wait in the channel. While
  neither a cancel nor the consumer's leaving intervenes, a stream that ended without an error
  has handed over every batch, and one that ended with an error hands the error over as well.\<close>

theorem stream_is_a_prefix:
  "let s = stream_run commit ms bs; sent = st_got s @ st_queue s in
     length (st_queue s) \<le> 4
   \<and> (\<exists>k \<le> length bs. sent = map Ok (take k bs) \<or> (\<exists>e. sent = map Ok (take k bs) @ [Err e]))
   \<and> (AbortFires \<notin> set ms \<and> ConsumerLeaves \<notin> set ms \<longrightarrow>
        (st_phase s = Closed None \<longrightarrow> sent = map Ok bs)
      \<and> (\<forall>e. st_phase s = Closed (Some e) \<longrightarrow> last sent = Err e))"
proof -
  let ?s = "stream_run commit ms bs"
  have inv: "stream_inv bs ?s" by (rule run_inv)
  have pre: "\<exists>k \<le> length bs. take k bs = xs" if "bs = xs @ ys" for xs ys
    using that by (intro exI [of _ "length xs"]) simp
  have len: "length (st_queue ?s) \<le> 4" using inv by (simp add: stream_inv_def CHANNEL_def)
  have "\<exists>xs ys. bs = xs @ ys \<and> (on_the_way ?s = map Ok xs \<or> (\<exists>e. on_the_way ?s = map Ok xs @ [Err e]))"
  proof (cases "st_phase ?s")
    case Fetching
    then have "on_the_way ?s @ map Ok ((case st_parked ?s of None \<Rightarrow> [] | Some b \<Rightarrow> [b]) @ st_left ?s) = map Ok bs"
      using inv by (simp add: stream_inv_def)
    from map_Ok_split [OF this] show ?thesis by blast
  next
    case (Closed err)
    then show ?thesis using inv by (cases err) (auto simp: stream_inv_def)
  qed (use inv in \<open>auto simp: stream_inv_def\<close>)
  then have "\<exists>k \<le> length bs. on_the_way ?s = map Ok (take k bs) \<or> (\<exists>e. on_the_way ?s = map Ok (take k bs) @ [Err e])"
    using pre by metis
  moreover have "on_the_way ?s = map Ok bs" if "\<not> st_aborted ?s" "\<not> st_gone ?s" "st_phase ?s = Closed None"
    using inv that by (auto simp: stream_inv_def)
  moreover have "last (on_the_way ?s) = Err e" if "\<not> st_aborted ?s" "\<not> st_gone ?s" "st_phase ?s = Closed (Some e)" for e
    using inv that by (auto simp: stream_inv_def)
  ultimately show ?thesis using len unfolding Let_def on_the_way_def run_flags by blast
qed

theorem stream_is_a_prefix_witness:
  "let ms = [Produce, Produce, Consume, Produce, Produce, Produce]; s = stream_run (Some E_ReadOnlyViolation) ms [''a'', ''b''] in
   AbortFires \<notin> set ms \<and> ConsumerLeaves \<notin> set ms \<and> length (st_queue s) \<le> 4
   \<and> (st_phase s = Closed None \<longrightarrow> st_got s @ st_queue s = map Ok [''a'', ''b''])"
  using stream_is_a_prefix [of "Some E_ReadOnlyViolation" "[Produce, Produce, Consume, Produce, Produce, Produce]" "[''a'', ''b'']"]
  by (simp add: Let_def)

text \<open>C28. A cancelled stream ends even when nobody reads it: after the cancel, three moves of the
  producer close it, however they are interleaved with the consumer's and whatever the channel
  holds.\<close>

theorem cancelled_stream_ends:
  assumes "3 \<le> count_list after Produce"
  shows "\<exists>err. st_phase (stream_run commit (ms @ AbortFires # after) bs) = Closed err"
proof -
  let ?s = "stream_run commit (ms @ [AbortFires]) bs"
  have "rank (fold (stream_move commit) after ?s) \<le> rank ?s - count_list after Produce"
    by (rule rank_moves) (simp add: run_flags)
  then have "rank (fold (stream_move commit) after ?s) = 0" using rank_bound [of ?s] assms by simp
  then show ?thesis by (simp add: rank_zero stream_run_def)
qed

theorem cancelled_stream_ends_witness:
  "3 \<le> count_list [Produce, Produce, Produce] Produce
   \<and> (\<exists>err. st_phase (stream_run None (replicate 9 Produce @ AbortFires # [Produce, Produce, Produce]) (replicate 6 ''b'')) = Closed err)"
  using cancelled_stream_ends [of "[Produce, Produce, Produce]" None "replicate 9 Produce" "replicate 6 ''b''"] by simp

text \<open>A consumer that takes an item after every move of the producer gets every batch and then
  a clean end, after two rounds per batch and one more.\<close>

lemma stream_delivers_everything:
  "let s = stream_run None (concat (replicate (2 * length bs + 1 + k) [Produce, Consume])) bs in
     st_got s = map Ok bs \<and> st_queue s = [] \<and> st_phase s = Closed None"
proof -
  have "stream_run None (concat (replicate (2 * length bs + 1 + k) [Produce, Consume])) bs
      = (round_trip ^^ (2 * length bs + 1 + k)) (in_step bs [])"
    by (simp only: stream_run_def rounds_eq in_step_def) (simp add: stream_start_def)
  also have "\<dots> = (in_step [] bs)\<lparr>st_phase := Closed None\<rparr>" using all_rounds [of bs k "[]"] by (simp only: append_Nil)
  finally show ?thesis unfolding Let_def by (simp only: in_step_def stream_start_def) simp
qed

text \<open>A cancel that reaches a full channel ends the stream without an error: six batches of
  one row, a consumer that has taken none yet, the deadline fires, and the consumer then finds
  four batches and a clean end. The collecting read answers with these four rows as its success.\<close>

lemma cancelled_read_reported_as_complete:
  "let ms = replicate 9 Produce @ [AbortFires, Produce] @ replicate 4 Consume;
       s = stream_run None ms (replicate 6 (Ok [[(''x'', JNull)]]));
       w = (demo_world None None)\<lparr>w_read_arrow := (\<lambda>_ _. stream_outcome [''x''] meta_default s), w_deadline := [TimerFires]\<rparr>
   in st_phase s = Closed None \<and> st_queue s = []
    \<and> (\<exists>qr. fst (read_collected w demo_agent demo_identity ''pond'' ''SELECT x FROM t'' controls_none) = Ok qr
          \<and> length (qr_rows qr) = 4 \<and> qm_rows (qr_meta qr) = 4)"
proof -
  let ?ms = "replicate 9 Produce @ [AbortFires, Produce] @ replicate 4 Consume"
  let ?b = "Ok [[(''x'', JNull)]] :: RecordBatch"
  let ?s = "stream_run None ?ms (replicate 6 ?b)"
  let ?w = "(demo_world None None)\<lparr>w_read_arrow := (\<lambda>_ _. stream_outcome [''x''] meta_default ?s), w_deadline := [TimerFires]\<rparr>"
  have s: "st_phase ?s = Closed None" "st_queue ?s = []" "st_got ?s = [Ok ?b, Ok ?b, Ok ?b, Ok ?b]"
    by (simp_all add: stream_run_def stream_start_def produce_def send_batch_def settle_def CHANNEL_def numeral_eq_Suc)
  have o: "stream_outcome [''x''] meta_default ?s =
      \<lparr>aw_schema = Some [''x''], aw_batches = [?b, ?b, ?b, ?b], aw_result = Some (Ok meta_default), aw_room = False\<rparr>"
    using s by (simp add: stream_outcome_def)
  have "\<exists>qr. fst (read_collected ?w demo_agent demo_identity ''pond'' ''SELECT x FROM t'' controls_none) = Ok qr
          \<and> length (qr_rows qr) = 4 \<and> qm_rows (qr_meta qr) = 4"
  proof -
    have p: "w_pond_info ?w ''pond'' = Ok (demo_info None None)" "placement demo_agent (demo_info None None) = Local"
      by (simp_all add: placement_def demo_agent_def agent_new_def)
    have cap: "inline_row_cap (ag_config demo_agent) = 10000" by (simp add: demo_agent_def agent_new_def agent_config_default_def)
    show ?thesis
      unfolding read_collected_served [OF p] unfolding o
      by (simp add: read_arrow_local_def ensure_local_def parse_id_def establish_def producer_schema_def producer_batches_def
          producer_meta_def collect_stream_def cap append_batch_rows_def object_map_def Let_def)
  qed
  with s(1,2) show ?thesis unfolding Let_def by (intro conjI)
qed

end
