(* ===== verification/Read_Pool.thy ===== *)
theory Read_Pool
  imports Policy "HOL-Library.Multiset"
begin

text \<open>
  The pool of read connections of one pond (\<open>ReadPool\<close>, \<open>Pond::checkout_read\<close> and \<open>ReadGuard\<close> of
  \<open>latiq-engine-duckdb/src/duck_engine.rs\<close>).

  Each locked section of a reader is one step; between them any other reader may run. A reader
  that found the pool exhausted waits on the condition variable until it is notified (or wakes on
  its own, as condition variables may) and then looks again. Connections are interchangeable, so
  the idle ones are counted.
\<close>

section \<open>The machine\<close>

datatype reader = Outside | Cloning | Holding | Waiting | Woken

record pool =
  idle :: nat
  created :: nat
  pool_max :: nat
  readers :: "reader list"

definition pool_size :: "ResourceLimits option \<Rightarrow> nat \<Rightarrow> nat" where
  "pool_size lim host = max 4 (min 32 ((case lim of Some l \<Rightarrow> unat (cores l) | None \<Rightarrow> host) * 2))"

definition pool_open :: "nat \<Rightarrow> nat \<Rightarrow> pool" where
  "pool_open mx n = \<lparr>idle = 0, created = 0, pool_max = mx, readers = replicate n Outside\<rparr>"

definition set_reader :: "nat \<Rightarrow> reader \<Rightarrow> pool \<Rightarrow> pool" where
  "set_reader i v p = p\<lparr>readers := (readers p)[i := v]\<rparr>"

text \<open>One pass of the loop of \<open>checkout_read\<close>, under the pool's lock.\<close>

definition checkout_read :: "nat \<Rightarrow> pool \<Rightarrow> pool" where
  "checkout_read i p =
     (if 0 < idle p then set_reader i Holding (p\<lparr>idle := idle p - 1\<rparr>)
      else if created p < pool_max p then set_reader i Cloning (p\<lparr>created := created p + 1\<rparr>)
      else set_reader i Waiting p)"

text \<open>A notification wakes one waiting reader, which one is not said; it is lost when none waits.\<close>

definition notify_one :: "nat \<Rightarrow> pool \<Rightarrow> pool" where
  "notify_one w p =
     (if w < length (readers p) \<and> readers p ! w = Waiting then set_reader w Woken p
      else case List.find (\<lambda>j. readers p ! j = Waiting) [0..<length (readers p)] of
        None \<Rightarrow> p | Some j \<Rightarrow> set_reader j Woken p)"

text \<open>\<open>ReadGuard::drop\<close>.\<close>

definition return_read :: "nat \<Rightarrow> bool \<Rightarrow> nat \<Rightarrow> pool \<Rightarrow> pool" where
  "return_read i reusable w p =
     notify_one w (set_reader i Outside
       (if reusable then p\<lparr>idle := idle p + 1\<rparr> else p\<lparr>created := created p - 1\<rparr>))"

datatype pool_event = Arrive nat | CloneOk nat | CloneFails nat | Return nat bool nat | Recheck nat | WakesAlone nat

definition is_reader :: "nat \<Rightarrow> reader \<Rightarrow> pool \<Rightarrow> bool" where
  "is_reader i v p \<longleftrightarrow> i < length (readers p) \<and> readers p ! i = v"

fun pool_step :: "pool_event \<Rightarrow> pool \<Rightarrow> pool" where
  "pool_step (Arrive i) p = (if is_reader i Outside p then checkout_read i p else p)"
| "pool_step (CloneOk i) p = (if is_reader i Cloning p then set_reader i Holding p else p)"
| "pool_step (CloneFails i) p = (if is_reader i Cloning p then set_reader i Outside (p\<lparr>created := created p - 1\<rparr>) else p)"
| "pool_step (Return i reusable w) p = (if is_reader i Holding p then return_read i reusable w p else p)"
| "pool_step (Recheck i) p = (if is_reader i Woken p then checkout_read i p else p)"
| "pool_step (WakesAlone i) p = (if is_reader i Waiting p then set_reader i Woken p else p)"

definition pool_run :: "pool_event list \<Rightarrow> pool \<Rightarrow> pool" where
  "pool_run evs p = fold pool_step evs p"

section \<open>Counting\<close>

definition cnt :: "reader \<Rightarrow> pool \<Rightarrow> nat" where
  "cnt v p = count_list (readers p) v"

lemma count_list_update:
  "i < length xs \<Longrightarrow> xs ! i = u \<Longrightarrow>
   int (count_list (xs[i := v]) x) = int (count_list xs x) - (if u = x then 1 else 0) + (if v = x then 1 else 0)"
proof (induction xs arbitrary: i)
  case (Cons y ys)
  then show ?case by (cases i) auto
qed simp

lemma cnt_set:
  assumes "is_reader i u p"
  shows "int (cnt x (set_reader i v p)) = int (cnt x p) - (if u = x then 1 else 0) + (if v = x then 1 else 0)"
  using assms count_list_update [of i "readers p" u v x] by (simp add: cnt_def set_reader_def is_reader_def)

lemma set_reader_sel [simp]:
  "idle (set_reader i v p) = idle p" "created (set_reader i v p) = created p" "pool_max (set_reader i v p) = pool_max p"
  by (simp_all add: set_reader_def)

lemma cnt_update [simp]: "cnt x (p\<lparr>idle := k\<rparr>) = cnt x p" "cnt x (p\<lparr>created := k\<rparr>) = cnt x p"
  by (simp_all add: cnt_def)

lemma is_reader_update [simp]: "is_reader i v (p\<lparr>idle := k\<rparr>) = is_reader i v p" "is_reader i v (p\<lparr>created := k\<rparr>) = is_reader i v p"
  by (simp_all add: is_reader_def)

lemma is_reader_cnt: "is_reader i v p \<Longrightarrow> 0 < cnt v p"
  using nth_mem [of i "readers p"] by (auto simp: is_reader_def cnt_def count_list_0_iff intro!: Nat.gr0I)

lemma notify_cases:
  obtains (lost) "notify_one w p = p" "cnt Waiting p = 0"
  | (woken) j where "notify_one w p = set_reader j Woken p" "is_reader j Waiting p"
proof (cases "List.find (\<lambda>j. readers p ! j = Waiting) [0..<length (readers p)]")
  case None
  then have no: "\<forall>j < length (readers p). readers p ! j \<noteq> Waiting" by (auto simp: find_None_iff)
  then have "cnt Waiting p = 0" by (auto simp: cnt_def count_list_0_iff in_set_conv_nth)
  moreover have "notify_one w p = p" using no None by (auto simp: notify_one_def)
  ultimately show ?thesis using lost by blast
next
  case (Some j)
  have "is_reader j Waiting p" using Some by (auto simp: is_reader_def dest!: find_Some_iff)
  show ?thesis
  proof (cases "is_reader w Waiting p")
    case True
    moreover from this have "notify_one w p = set_reader w Woken p" by (simp add: notify_one_def is_reader_def)
    ultimately show ?thesis using woken by blast
  next
    case False
    then have "notify_one w p = set_reader j Woken p" using Some by (auto simp: notify_one_def is_reader_def)
    with \<open>is_reader j Waiting p\<close> show ?thesis using woken by blast
  qed
qed

text \<open>Connections are accounted for: each one created is idle, in a reader's hands or being
  opened by one.\<close>

definition pool_inv :: "pool \<Rightarrow> bool" where
  "pool_inv p \<longleftrightarrow> created p = idle p + cnt Holding p + cnt Cloning p \<and> created p \<le> pool_max p"

text \<open>The room there is: idle connections and connections that may still be created.\<close>

definition room :: "pool \<Rightarrow> nat" where
  "room p = idle p + (pool_max p - created p)"

definition awake :: "pool \<Rightarrow> bool" where
  "awake p \<longleftrightarrow> (0 < cnt Waiting p \<longrightarrow> room p \<le> cnt Woken p)"

lemma checkout_counts:
  assumes "is_reader i u p" "u = Outside \<or> u = Woken"
  shows "pool_inv p \<Longrightarrow> pool_inv (checkout_read i p)" and "awake p \<Longrightarrow> awake (checkout_read i p)"
proof -
  let ?p1 = "p\<lparr>idle := idle p - 1\<rparr>" and ?p2 = "p\<lparr>created := created p + 1\<rparr>"
  have c: "int (cnt x (set_reader i v ?p1)) = int (cnt x p) - (if u = x then 1 else 0) + (if v = x then 1 else 0)"
    "int (cnt x (set_reader i v ?p2)) = int (cnt x p) - (if u = x then 1 else 0) + (if v = x then 1 else 0)"
    "int (cnt x (set_reader i v p)) = int (cnt x p) - (if u = x then 1 else 0) + (if v = x then 1 else 0)" for x v
    using cnt_set [of i u ?p1 x v] cnt_set [of i u ?p2 x v] cnt_set [of i u p x v] assms(1) by simp_all
  have u: "u = Woken \<Longrightarrow> 0 < cnt Woken p" using is_reader_cnt [OF assms(1)] by simp
  show "pool_inv (checkout_read i p)" if "pool_inv p"
    using that assms(2) c(1) [of Holding Holding] c(1) [of Cloning Holding] c(2) [of Holding Cloning] c(2) [of Cloning Cloning]
      c(3) [of Holding Waiting] c(3) [of Cloning Waiting]
    by (auto simp: checkout_read_def pool_inv_def)
  show "awake (checkout_read i p)" if "awake p"
    using that assms(2) u c(1) [of Waiting Holding] c(1) [of Woken Holding] c(2) [of Waiting Cloning] c(2) [of Woken Cloning]
      c(3) [of Waiting Waiting] c(3) [of Woken Waiting]
    by (auto simp: checkout_read_def awake_def room_def)
qed

lemma return_counts:
  assumes "is_reader i Holding p" "pool_inv p"
  shows "pool_inv (return_read i reusable w p)" and "awake p \<Longrightarrow> awake (return_read i reusable w p)"
proof -
  let ?q = "if reusable then p\<lparr>idle := idle p + 1\<rparr> else p\<lparr>created := created p - 1\<rparr>"
  let ?r = "set_reader i Outside ?q"
  have q: "is_reader i Holding ?q" "cnt x ?q = cnt x p" for x using assms(1) by simp_all
  have c: "int (cnt x ?r) = int (cnt x p) - (if Holding = x then 1 else 0) + (if Outside = x then 1 else 0)" for x
    using cnt_set [OF q(1), of x Outside] q(2) by simp
  have h: "0 < cnt Holding p" by (rule is_reader_cnt [OF assms(1)])
  have m: "created p \<le> pool_max p" "0 < created p" using assms(2) h by (auto simp: pool_inv_def)
  have rr: "room ?r = room p + 1" using m by (auto simp: room_def)
  have i: "pool_inv ?r" using assms(2) h c [of Holding] c [of Cloning] by (auto simp: pool_inv_def)
  show "pool_inv (return_read i reusable w p)"
  proof (cases rule: notify_cases [of w ?r])
    case lost
    then show ?thesis using i by (simp add: return_read_def)
  next
    case (woken j)
    then show ?thesis using i cnt_set [OF woken(2), of Holding Woken] cnt_set [OF woken(2), of Cloning Woken]
      by (simp add: return_read_def pool_inv_def)
  qed
  show "awake (return_read i reusable w p)" if "awake p"
  proof (cases rule: notify_cases [of w ?r])
    case lost
    then show ?thesis by (simp add: return_read_def awake_def)
  next
    case (woken j)
    have "0 < cnt Waiting p" using is_reader_cnt [OF woken(2)] c [of Waiting] by simp
    moreover have "room (set_reader j Woken ?r) = room ?r" by (simp add: room_def)
    ultimately show ?thesis using that rr c [of Woken] cnt_set [OF woken(2), of Woken Woken] woken(1)
      by (simp add: return_read_def awake_def)
  qed
qed

lemma step_inv:
  assumes "pool_inv p"
  shows "pool_inv (pool_step ev p)"
proof (cases ev)
  case (Arrive i)
  then show ?thesis using assms checkout_counts(1) [of i Outside p] by simp
next
  case (Recheck i)
  then show ?thesis using assms checkout_counts(1) [of i Woken p] by simp
next
  case (Return i r w)
  then show ?thesis using assms return_counts(1) [of i p r w] by simp
next
  case (CloneOk i)
  then show ?thesis using assms cnt_set [of i Cloning p Holding Holding] cnt_set [of i Cloning p Cloning Holding] is_reader_cnt [of i Cloning p]
    by (auto simp: pool_inv_def)
next
  case (CloneFails i)
  then show ?thesis using assms cnt_set [of i Cloning "p\<lparr>created := created p - 1\<rparr>" Holding Outside]
      cnt_set [of i Cloning "p\<lparr>created := created p - 1\<rparr>" Cloning Outside] is_reader_cnt [of i Cloning p]
    by (auto simp: pool_inv_def)
next
  case (WakesAlone i)
  then show ?thesis using assms cnt_set [of i Waiting p Holding Woken] cnt_set [of i Waiting p Cloning Woken]
    by (auto simp: pool_inv_def)
qed

lemma step_awake:
  assumes "pool_inv p" "awake p" "\<And>i. ev \<noteq> CloneFails i"
  shows "awake (pool_step ev p)"
proof (cases ev)
  case (Arrive i)
  then show ?thesis using assms checkout_counts(2) [of i Outside p] by simp
next
  case (Recheck i)
  then show ?thesis using assms checkout_counts(2) [of i Woken p] by simp
next
  case (Return i r w)
  then show ?thesis using assms return_counts(2) [of i p r w] by simp
next
  case (CloneOk i)
  then show ?thesis using assms cnt_set [of i Cloning p Waiting Holding] cnt_set [of i Cloning p Woken Holding]
    by (auto simp: awake_def room_def)
next
  case (WakesAlone i)
  then show ?thesis using assms cnt_set [of i Waiting p Waiting Woken] cnt_set [of i Waiting p Woken Woken]
    by (auto simp: awake_def room_def)
qed (use assms in simp)

lemma open_inv: "pool_inv (pool_open mx n)" "awake (pool_open mx n)"
  by (auto simp: pool_inv_def awake_def pool_open_def cnt_def count_list_0_iff)

lemma pool_run_inv: "pool_inv (pool_run evs (pool_open mx n))"
  unfolding pool_run_def by (induction evs rule: rev_induct) (simp_all add: open_inv step_inv)

lemma run_max [simp]: "pool_max (pool_run evs p) = pool_max p"
proof -
  have "pool_max (notify_one w q) = pool_max q" for w q by (cases rule: notify_cases [of w q]) simp_all
  then have "pool_max (pool_step ev q) = pool_max q" for ev q
    by (cases ev) (simp_all add: checkout_read_def return_read_def)
  then show ?thesis unfolding pool_run_def by (induction evs rule: rev_induct) simp_all
qed

text \<open>The counting semaphore the pool promises to be: an attempt takes a permit when one is left and
  otherwise changes nothing, a release gives one back. A reader attempts when it arrives and when it
  looks again after being woken, and releases when it returns its connection or fails to open one;
  every other step of the pool is invisible to the semaphore.\<close>

datatype sem_op = Attempt | Release | Silent

fun sem_op_of :: "pool_event \<Rightarrow> pool \<Rightarrow> sem_op" where
  "sem_op_of (Arrive i) p = (if is_reader i Outside p then Attempt else Silent)"
| "sem_op_of (Recheck i) p = (if is_reader i Woken p then Attempt else Silent)"
| "sem_op_of (Return i reusable w) p = (if is_reader i Holding p then Release else Silent)"
| "sem_op_of (CloneFails i) p = (if is_reader i Cloning p then Release else Silent)"
| "sem_op_of (CloneOk i) p = Silent"
| "sem_op_of (WakesAlone i) p = Silent"

fun sem_step :: "nat \<Rightarrow> sem_op \<Rightarrow> nat \<Rightarrow> nat" where
  "sem_step permits Attempt k = (if k < permits then k + 1 else k)"
| "sem_step permits Release k = k - 1"
| "sem_step permits Silent k = k"

definition in_use :: "pool \<Rightarrow> nat" where
  "in_use p = cnt Holding p + cnt Cloning p"

lemma notify_in_use: "in_use (notify_one w p) = in_use p"
proof (cases rule: notify_cases [of w p])
  case (woken j)
  then show ?thesis using cnt_set [OF woken(2), of Holding Woken] cnt_set [OF woken(2), of Cloning Woken] by (simp add: in_use_def)
qed simp

lemma in_use_set:
  assumes "is_reader i u p"
  shows "int (in_use (set_reader i v p)) =
    int (in_use p) - (if u = Holding \<or> u = Cloning then 1 else 0) + (if v = Holding \<or> v = Cloning then 1 else 0)"
  using cnt_set [OF assms, of Holding v] cnt_set [OF assms, of Cloning v] by (auto simp: in_use_def)

lemma in_use_update [simp]: "in_use (p\<lparr>idle := k\<rparr>) = in_use p" "in_use (p\<lparr>created := k\<rparr>) = in_use p"
  by (simp_all add: in_use_def)

lemma is_reader_set [simp]: "is_reader i v (set_reader i w p) \<longleftrightarrow> i < length (readers p) \<and> v = w"
  by (auto simp: is_reader_def set_reader_def)

lemma checkout_refines:
  assumes "pool_inv p" "is_reader i u p" "u = Outside \<or> u = Woken"
  shows "in_use (checkout_read i p) = sem_step (pool_max p) Attempt (in_use p)"
    and "is_reader i Waiting (checkout_read i p) \<longleftrightarrow> in_use p = pool_max p"
proof -
  have u: "is_reader i u (p\<lparr>idle := a\<rparr>)" "is_reader i u (p\<lparr>created := a\<rparr>)" for a using assms(2) by simp_all
  have k: "in_use p = created p - idle p" "idle p \<le> created p" "created p \<le> pool_max p" using assms(1) by (auto simp: pool_inv_def in_use_def)
  show "in_use (checkout_read i p) = sem_step (pool_max p) Attempt (in_use p)"
    using assms(3) k in_use_set [OF u(1) [of "idle p - 1"], of Holding] in_use_set [OF u(2) [of "created p + 1"], of Cloning]
      in_use_set [OF assms(2), of Waiting]
    by (auto simp: checkout_read_def)
  show "is_reader i Waiting (checkout_read i p) \<longleftrightarrow> in_use p = pool_max p"
    using assms(1,2) by (auto simp: checkout_read_def pool_inv_def in_use_def) (auto simp: is_reader_def)
qed

lemma give_back_refines:
  assumes "is_reader i u p" "u = Holding \<or> u = Cloning"
  shows "in_use (set_reader i Outside p) = sem_step mx Release (in_use p)"
  using assms in_use_set [OF assms(1), of Outside] by auto

lemma step_refines:
  assumes "pool_inv p"
  shows "in_use (pool_step ev p) = sem_step (pool_max p) (sem_op_of ev p) (in_use p)"
proof (cases ev)
  case (Arrive i)
  then show ?thesis using assms checkout_refines(1) [of p i Outside] by simp
next
  case (Recheck i)
  then show ?thesis using assms checkout_refines(1) [of p i Woken] by simp
next
  case (Return i r w)
  then show ?thesis
    using give_back_refines [of i Holding "if r then p\<lparr>idle := idle p + 1\<rparr> else p\<lparr>created := created p - 1\<rparr>" "pool_max p"]
    by (cases r) (auto simp: return_read_def notify_in_use)
next
  case (CloneOk i)
  then show ?thesis using in_use_set [of i Cloning p Holding] by auto
next
  case (CloneFails i)
  then show ?thesis using give_back_refines [of i Cloning "p\<lparr>created := created p - 1\<rparr>" "pool_max p"] by auto
next
  case (WakesAlone i)
  then show ?thesis using in_use_set [of i Waiting p Woken] by auto
qed

section \<open>Properties\<close>

text \<open>A pond never has more read connections than its tier allows, between four and thirty-two,
  and none is lost: at every moment, under any interleaving of readers and however their reads end,
  each connection that was created and not discarded is idle, in one reader's hands or just being
  opened by one.\<close>

lemma pool_accounts_for_connections:
  "let p = pool_run evs (pool_open (pool_size lim host) n) in
     created p = idle p + cnt Holding p + cnt Cloning p
   \<and> created p \<le> pool_size lim host \<and> 4 \<le> pool_size lim host \<and> pool_size lim host \<le> 32"
proof -
  have "pool_max (pool_run evs (pool_open (pool_size lim host) n)) = pool_size lim host" by (simp add: pool_open_def)
  then show ?thesis using pool_run_inv [of evs "pool_size lim host" n] by (simp add: pool_inv_def Let_def pool_size_def)
qed

text \<open>As long as opening a connection does not fail, no wakeup is lost: whenever a reader waits
  while there is room for it, at least as many readers as there is room for have been woken and
  are about to look again.\<close>

lemma no_wakeup_is_lost:
  assumes "\<And>i. CloneFails i \<notin> set evs"
  shows "let p = pool_run evs (pool_open mx n) in 0 < cnt Waiting p \<longrightarrow> room p \<le> cnt Woken p"
proof -
  have "awake (pool_run evs (pool_open mx n))"
    using assms
  proof (induction evs rule: rev_induct)
    case Nil
    then show ?case by (simp add: pool_run_def open_inv)
  next
    case (snoc ev evs)
    have "awake (pool_step ev (pool_run evs (pool_open mx n)))"
    proof (rule step_awake [OF pool_run_inv])
      show "awake (pool_run evs (pool_open mx n))" using snoc.IH snoc.prems by auto
      show "ev \<noteq> CloneFails i" for i using snoc.prems [of i] by auto
    qed
    then show ?case by (simp add: pool_run_def)
  qed
  then show ?thesis by (simp add: awake_def Let_def)
qed

lemma no_wakeup_is_lost_example:
  "let evs = map Arrive [0..<5] @ [CloneOk 0, Return 0 True 4]; p = pool_run evs (pool_open 4 5)
   in (\<forall>i. CloneFails i \<notin> set evs) \<and> (0 < cnt Waiting p \<longrightarrow> room p \<le> cnt Woken p) \<and> cnt Woken p = 1"
proof -
  let ?evs = "map Arrive [0..<5] @ [CloneOk 0, Return 0 True 4]"
  have n: "CloneFails i \<notin> set ?evs" for i by auto
  have "cnt Woken (pool_run ?evs (pool_open 4 5)) = 1" by code_simp
  then show ?thesis using no_wakeup_is_lost [of ?evs 4 5] n by (simp add: Let_def)
qed

text \<open>A failed opening gives its slot back without waking anyone: four readers open connections,
  a fifth finds the pool full and waits, all four openings fail, and the fifth waits on while the
  pool is empty and nobody is left who would wake it.\<close>

lemma failed_opening_strands_a_reader:
  "pool_run (map Arrive [0..<5] @ map CloneFails [0..<4]) (pool_open 4 5)
     = \<lparr>idle = 0, created = 0, pool_max = 4, readers = [Outside, Outside, Outside, Outside, Waiting]\<rparr>"
  by code_simp

text \<open>C24. The pool implements a counting semaphore with as many permits as the pool may hold
  connections, whatever the interleaving: an arrival and a second look of a woken reader take a permit
  exactly when one is left at that moment and put the reader to sleep exactly when none is, a return
  and a failed opening give one back, and every other step leaves the permits alone. As long as no
  opening has failed, wake-ups keep up with the permits: while readers wait, at least as many others
  as there are free permits have been woken and are about to look again. (After a failed opening a
  reader may wait although permits are free, the slot being given back without a wake-up.)\<close>

theorem pool_refines_semaphore:
  assumes "p = pool_run evs (pool_open mx n)"
  shows "in_use p \<le> mx \<and> in_use (pool_step ev p) = sem_step mx (sem_op_of ev p) (in_use p)
     \<and> (is_reader i Outside p \<longrightarrow> (is_reader i Waiting (pool_step (Arrive i) p) \<longleftrightarrow> in_use p = mx))
     \<and> (is_reader i Woken p \<longrightarrow> (is_reader i Waiting (pool_step (Recheck i) p) \<longleftrightarrow> in_use p = mx))
     \<and> ((\<forall>j. CloneFails j \<notin> set evs) \<and> 0 < cnt Waiting p \<longrightarrow> mx - in_use p \<le> cnt Woken p)"
proof -
  have inv: "pool_inv p" and mx: "pool_max p = mx" using assms pool_run_inv by (simp_all add: pool_open_def)
  have "room p = mx - in_use p" using inv mx by (auto simp: pool_inv_def room_def in_use_def)
  then have "(\<forall>j. CloneFails j \<notin> set evs) \<and> 0 < cnt Waiting p \<longrightarrow> mx - in_use p \<le> cnt Woken p"
    using no_wakeup_is_lost [of evs mx n] assms by (auto simp: Let_def)
  then show ?thesis
    using inv mx step_refines [OF inv, of ev] checkout_refines(2) [OF inv, of i Outside] checkout_refines(2) [OF inv, of i Woken]
    by (auto simp: pool_inv_def in_use_def)
qed

theorem pool_refines_semaphore_witness:
  "let p = pool_run (map Arrive [0..<4]) (pool_open 4 5); q = pool_run (map Arrive [0..<5] @ [CloneOk 0, Return 0 True 4]) (pool_open 4 5) in
   in_use p = 4 \<and> is_reader 4 Outside p \<and> is_reader 4 Waiting (pool_step (Arrive 4) p)
   \<and> in_use q = 3 \<and> in_use (pool_step (Recheck 4) q) = 4"
proof -
  let ?p = "pool_run (map Arrive [0..<4]) (pool_open 4 5)" and ?q = "pool_run (map Arrive [0..<5] @ [CloneOk 0, Return 0 True 4]) (pool_open 4 5)"
  have u: "in_use ?p = 4" "in_use ?q = 3" "sem_op_of (Recheck 4) ?q = Attempt" by code_simp+
  have ot: "is_reader 4 Outside ?p" by code_simp
  show ?thesis unfolding Let_def
    using u ot pool_refines_semaphore [OF refl, of "map Arrive [0..<4]" 4 5 _ 4]
      pool_refines_semaphore [OF refl, of "map Arrive [0..<5] @ [CloneOk 0, Return 0 True 4]" 4 5 "Recheck 4" 4] by simp
qed

end
