(* ===== verification/Abort_Watcher.thy ===== *)
theory Abort_Watcher
  imports Prelude
begin

text \<open>
  The interrupt watcher of a statement (\<open>latiq-engine-duckdb/src/abort.rs\<close>): a thread that fires the
  connection's interrupt for as long as the caller's token is cancelled, until it is disarmed.

  Each atomic access of a thread is one step, and steps of the watcher, of the thread that owns the
  connection and of whoever cancels interleave freely. DuckDB's interrupt is delivered to the
  statement that is running and is lost when none is.
\<close>

section \<open>The machine\<close>

datatype watcher = ChecksDone | ChecksToken | Parked | Ended

datatype statement = NoStatement | Running | Interrupted

record AbortWatcher =
  done_flag :: bool
  thread :: watcher
  joined :: bool
  cancelled :: bool
  conn :: statement

text \<open>\<open>arm\<close> starts the thread on a connection and a token as they are.\<close>

definition watcher_arm :: "bool \<Rightarrow> statement \<Rightarrow> AbortWatcher" where
  "watcher_arm tok st = \<lparr>done_flag = False, thread = ChecksDone, joined = False, cancelled = tok, conn = st\<rparr>"

definition interrupt :: "AbortWatcher \<Rightarrow> AbortWatcher" where
  "interrupt s = (if conn s = Running then s\<lparr>conn := Interrupted\<rparr> else s)"

text \<open>One step of the watcher's loop; leaving the park is a time-out or an \<open>unpark\<close>.\<close>

definition watcher_loop :: "AbortWatcher \<Rightarrow> AbortWatcher" where
  "watcher_loop s = (case thread s of
      ChecksDone \<Rightarrow> if done_flag s then s\<lparr>thread := Ended\<rparr> else s\<lparr>thread := ChecksToken\<rparr>
    | ChecksToken \<Rightarrow> (if cancelled s then interrupt s else s)\<lparr>thread := Parked\<rparr>
    | Parked \<Rightarrow> s\<lparr>thread := ChecksDone\<rparr>
    | Ended \<Rightarrow> s)"

text \<open>\<open>disarm\<close> sets the flag and then joins: the join returns once the thread has ended.\<close>

definition disarm_store :: "AbortWatcher \<Rightarrow> AbortWatcher" where
  "disarm_store s = s\<lparr>done_flag := True\<rparr>"

definition disarm_join :: "AbortWatcher \<Rightarrow> AbortWatcher" where
  "disarm_join s = (if done_flag s \<and> thread s = Ended then s\<lparr>joined := True\<rparr> else s)"

datatype watch_event = WatcherMoves | TokenCancelled | Starts | Ends | DisarmStores | DisarmJoins

fun watch_step :: "watch_event \<Rightarrow> AbortWatcher \<Rightarrow> AbortWatcher" where
  "watch_step WatcherMoves s = watcher_loop s"
| "watch_step TokenCancelled s = s\<lparr>cancelled := True\<rparr>"
| "watch_step Starts s = s\<lparr>conn := Running\<rparr>"
| "watch_step Ends s = s\<lparr>conn := NoStatement\<rparr>"
| "watch_step DisarmStores s = disarm_store s"
| "watch_step DisarmJoins s = disarm_join s"

definition watch_run :: "watch_event list \<Rightarrow> AbortWatcher \<Rightarrow> AbortWatcher" where
  "watch_run evs s = fold watch_step evs s"

lemmas watch_defs = watcher_loop_def interrupt_def disarm_store_def disarm_join_def

section \<open>Lemmas\<close>

lemma watch_run_simps [simp]:
  "watch_run [] s = s" "watch_run (e # evs) s = watch_run evs (watch_step e s)"
  "watch_run (evs @ evs') s = watch_run evs' (watch_run evs s)"
  by (simp_all add: watch_run_def)

text \<open>A join has returned only when the thread is gone.\<close>

lemma joined_ended: "joined (watch_run evs (watcher_arm tok st)) \<Longrightarrow> thread (watch_run evs (watcher_arm tok st)) = Ended"
proof (induction evs rule: rev_induct)
  case Nil
  then show ?case by (simp add: watcher_arm_def)
next
  case (snoc e evs)
  then show ?case by (cases e) (auto simp: watch_defs split: watcher.splits if_splits)
qed

lemma ended_silent:
  assumes "thread s = Ended" "conn s \<noteq> Interrupted"
  shows "thread (watch_run evs s) = Ended \<and> conn (watch_run evs s) \<noteq> Interrupted"
  using assms
proof (induction evs arbitrary: s)
  case (Cons e evs)
  have "thread (watch_step e s) = Ended" "conn (watch_step e s) \<noteq> Interrupted"
    using Cons.prems by (cases e; auto simp: watch_defs)+
  then show ?case using Cons.IH by simp
qed simp

text \<open>How many moves the watcher needs until it has fired.\<close>

fun moves_left :: "watcher \<Rightarrow> nat" where
  "moves_left ChecksToken = 1" | "moves_left ChecksDone = 2" | "moves_left Parked = 3" | "moves_left Ended = 4"

lemma fires:
  assumes "cancelled s" "\<not> done_flag s" "thread s \<noteq> Ended" "conn s \<noteq> NoStatement"
    and "conn s = Running \<Longrightarrow> moves_left (thread s) \<le> count_list evs WatcherMoves"
    and "set evs \<subseteq> {WatcherMoves, TokenCancelled}"
  shows "conn (watch_run evs s) = Interrupted"
  using assms
proof (induction evs arbitrary: s)
  case Nil
  then show ?case by (cases "conn s"; cases "thread s") auto
next
  case (Cons e evs)
  show ?case
  proof (cases e)
    case WatcherMoves
    have "conn (watch_run evs (watcher_loop s)) = Interrupted"
    proof (rule Cons.IH)
      show "cancelled (watcher_loop s)" "\<not> done_flag (watcher_loop s)" "thread (watcher_loop s) \<noteq> Ended"
        "conn (watcher_loop s) \<noteq> NoStatement"
        using Cons.prems(1-4) by (cases "thread s"; simp add: watch_defs)+
      show "moves_left (thread (watcher_loop s)) \<le> count_list evs WatcherMoves" if "conn (watcher_loop s) = Running"
        using that Cons.prems WatcherMoves by (cases "thread s") (auto simp: watch_defs split: if_splits)
      show "set evs \<subseteq> {WatcherMoves, TokenCancelled}" using Cons.prems by simp
    qed
    then show ?thesis using WatcherMoves by simp
  next
    case TokenCancelled
    then show ?thesis using Cons.IH [of "s\<lparr>cancelled := True\<rparr>"] Cons.prems by simp
  qed (use Cons.prems in auto)
qed

lemma alive_until_disarmed:
  "thread (watch_run evs (watcher_arm tok st)) = Ended \<Longrightarrow> done_flag (watch_run evs (watcher_arm tok st))"
proof (induction evs rule: rev_induct)
  case Nil
  then show ?case by (simp add: watcher_arm_def)
next
  case (snoc e evs)
  then show ?case by (cases e) (auto simp: watch_defs split: watcher.splits if_splits)
qed

section \<open>Properties\<close>

text \<open>C30. A statement cannot outlive its cancelled token, and nothing else is interrupted. Whatever
  happened before, even a cancel that came while no statement ran and whose first interrupts were
  lost: as long as the watcher is not disarmed, three of its moves interrupt the running statement.
  And once \<open>disarm\<close> has returned, no statement started afterwards, such as the recovery rollback, is
  ever interrupted.\<close>

theorem watcher_stops_the_statement_and_only_it:
  assumes "s = watch_run past (watcher_arm tok st)"
  shows "(cancelled s \<and> \<not> done_flag s \<and> conn s = Running \<and> set evs \<subseteq> {WatcherMoves, TokenCancelled}
            \<and> 3 \<le> count_list evs WatcherMoves \<longrightarrow> conn (watch_run evs s) = Interrupted)
       \<and> (joined s \<longrightarrow> conn (watch_run (Starts # later) s) \<noteq> Interrupted)"
proof (intro conjI impI; (elim conjE)?)
  assume c: "cancelled s" "\<not> done_flag s" "conn s = Running" "set evs \<subseteq> {WatcherMoves, TokenCancelled}" "3 \<le> count_list evs WatcherMoves"
  have "thread s \<noteq> Ended" using alive_until_disarmed [of past tok st] c(2) assms by blast
  moreover from this have "moves_left (thread s) \<le> 3" by (cases "thread s") simp_all
  ultimately show "conn (watch_run evs s) = Interrupted" using c by (intro fires) auto
next
  assume "joined s"
  then have "thread s = Ended" using joined_ended assms by simp
  then show "conn (watch_run (Starts # later) s) \<noteq> Interrupted"
    using ended_silent [of "s\<lparr>conn := Running\<rparr>" later] by simp
qed

theorem watcher_stops_the_statement_and_only_it_witness:
  "let s = watch_run [TokenCancelled, WatcherMoves, WatcherMoves, Starts] (watcher_arm False NoStatement);
       t = watch_run [DisarmStores, WatcherMoves, WatcherMoves, DisarmJoins, Ends] s
   in conn s = Running \<and> conn (watch_run [WatcherMoves, WatcherMoves, WatcherMoves] s) = Interrupted
      \<and> joined t \<and> conn (watch_run [Starts, WatcherMoves] t) \<noteq> Interrupted"
proof -
  let ?s = "watch_run [TokenCancelled, WatcherMoves, WatcherMoves, Starts] (watcher_arm False NoStatement)"
  let ?past = "[TokenCancelled, WatcherMoves, WatcherMoves, Starts] @ [DisarmStores, WatcherMoves, WatcherMoves, DisarmJoins, Ends]"
  let ?t = "watch_run [DisarmStores, WatcherMoves, WatcherMoves, DisarmJoins, Ends] ?s"
  have s: "cancelled ?s" "\<not> done_flag ?s" "conn ?s = Running" by (simp_all add: watcher_arm_def watch_defs)
  have j: "joined ?t" by (simp add: watcher_arm_def watch_defs)
  have "conn (watch_run [WatcherMoves, WatcherMoves, WatcherMoves] ?s) = Interrupted"
    using watcher_stops_the_statement_and_only_it [OF refl, of "[TokenCancelled, WatcherMoves, WatcherMoves, Starts]" False NoStatement
      "[WatcherMoves, WatcherMoves, WatcherMoves]"] s by simp
  moreover have "conn (watch_run [Starts, WatcherMoves] ?t) \<noteq> Interrupted"
    using watcher_stops_the_statement_and_only_it [of ?t ?past False NoStatement "[]" "[WatcherMoves]"] j by simp
  ultimately show ?thesis unfolding Let_def using s j by blast
qed

end
