(* ===== verification/Engine_Values.thy ===== *)
theory Engine_Values
  imports Json Errors "HOL-Library.Signed_Division"
begin

text \<open>
  From a cell of the engine to JSON (\<open>value_to_json\<close> and its helpers in
  \<open>latiq-engine-duckdb/src/exec.rs\<close>), with the calendar computation it rests on.

  Integers of the engine are kept as integers, a float as the text a finite one prints as (none
  for infinities and not-a-number, which \<open>serde_json\<close> turns into null), a decimal as its text, a
  blob as its bytes. \<open>to_text\<close> is \<open>serde_json\<close>'s printer.
\<close>

section \<open>Calendar\<close>

text \<open>The source's \<open>/\<close> truncates towards zero, which is \<open>sdiv\<close>; where its operands are not
  negative it is \<open>div\<close>.\<close>

definition civil_from_days :: "int \<Rightarrow> int \<times> int \<times> int" where
  "civil_from_days z0 =
     (let z = z0 + 719468;
          era = (if z \<ge> 0 then z else z - 146096) sdiv 146097;
          doe = z - era * 146097;
          yoe = (doe - doe div 1460 + doe div 36524 - doe div 146096) div 365;
          y = yoe + era * 400;
          doy = doe - (365 * yoe + yoe div 4 - yoe div 100);
          mp = (5 * doy + 2) div 153;
          d = doy - (153 * mp + 2) div 5 + 1;
          m = (if mp < 10 then mp + 3 else mp - 9)
      in (y + (if m \<le> 2 then 1 else 0), m, d))"

datatype TimeUnit = Second | Millisecond | Microsecond | Nanosecond

text \<open>\<open>div_euclid\<close> and \<open>rem_euclid\<close> by a positive number are \<open>div\<close> and \<open>mod\<close>.\<close>

fun split_unit_since_epoch :: "TimeUnit \<Rightarrow> int \<Rightarrow> int \<times> int" where
  "split_unit_since_epoch Second v = (v, 0)"
| "split_unit_since_epoch Millisecond v = (v div 1000, v mod 1000 * 1000)"
| "split_unit_since_epoch Microsecond v = (v div 1000000, v mod 1000000)"
| "split_unit_since_epoch Nanosecond v = (v div 1000000000, v mod 1000000000 div 1000)"

section \<open>Formatting\<close>

text \<open>\<open>{:0w}\<close>: zeros between the sign and the digits up to the width.\<close>

definition zero_pad :: "nat \<Rightarrow> int \<Rightarrow> string" where
  "zero_pad w i =
     (let sign = (if i < 0 then ''-'' else []); ds = show_nat (nat \<bar>i\<bar>)
      in sign @ replicate (w - length sign - length ds) (CHR ''0'') @ ds)"

definition date_text :: "int \<Rightarrow> string" where
  "date_text days = (let (y, m, d) = civil_from_days days
     in zero_pad 4 y @ ''-'' @ zero_pad 2 m @ ''-'' @ zero_pad 2 d)"

definition clock_text :: "int \<Rightarrow> int \<Rightarrow> string" where
  "clock_text tod frac_us =
     (let h = tod sdiv 3600; mi = tod smod 3600 sdiv 60; s = tod smod 60
      in zero_pad 2 h @ '':'' @ zero_pad 2 mi @ '':'' @ zero_pad 2 s
           @ (if frac_us > 0 then ''.'' @ zero_pad 6 frac_us else []))"

definition timestamp_text :: "TimeUnit \<Rightarrow> int \<Rightarrow> string" where
  "timestamp_text unit t =
     (let (secs, frac_us) = split_unit_since_epoch unit t
      in date_text (secs div 86400) @ '' '' @ clock_text (secs mod 86400) frac_us)"

definition time_text :: "TimeUnit \<Rightarrow> int \<Rightarrow> string" where
  "time_text unit t = (let (secs, frac_us) = split_unit_since_epoch unit t in clock_text secs frac_us)"

section \<open>Cells\<close>

datatype duck =
    V_Null
  | V_Boolean bool
  | V_TinyInt int
  | V_SmallInt int
  | V_Int int
  | V_BigInt int
  | V_UTinyInt int
  | V_USmallInt int
  | V_UInt int
  | V_UBigInt int
  | V_HugeInt int
  | V_Float "string option"
  | V_Double "string option"
  | V_Decimal string
  | V_Text string
  | V_Enum string
  | V_Date32 int
  | V_Timestamp TimeUnit int
  | V_Time64 TimeUnit int
  | V_Interval int int int
  | V_Blob "8 word list"
  | V_List "duck list"
  | V_Array "duck list"
  | V_Struct "(string \<times> duck) list"
  | V_Map "(duck \<times> duck) list"
  | V_Union duck

definition hex_digit :: "nat \<Rightarrow> char" where
  "hex_digit n = ''0123456789abcdef'' ! n"

definition hex_byte :: "8 word \<Rightarrow> string" where
  "hex_byte b = [hex_digit (unat b div 16), hex_digit (unat b mod 16)]"

definition fits_i64 :: "int \<Rightarrow> bool" where
  "fits_i64 i \<longleftrightarrow> - (2 ^ 63) \<le> i \<and> i < 2 ^ 63"

definition json_float :: "string option \<Rightarrow> Value" where
  "json_float f = (case f of Some t \<Rightarrow> JNumber t | None \<Rightarrow> JNull)"

lemma size_in_list: "x \<in> set xs \<Longrightarrow> size x < size_list size xs"
  by (induction xs) auto

lemma size_in_pairs:
  "(k, v) \<in> set kvs \<Longrightarrow> size v < size_list (size_prod (\<lambda>_. 0) size) kvs"
  "(a, b) \<in> set es \<Longrightarrow> size a < size_list (size_prod size size) es"
  "(a, b) \<in> set es \<Longrightarrow> size b < size_list (size_prod size size) es"
  by (induction kvs; auto) (induction es; auto)+

function value_to_json :: "(Value \<Rightarrow> string) \<Rightarrow> duck \<Rightarrow> Value"
and map_key :: "(Value \<Rightarrow> string) \<Rightarrow> duck \<Rightarrow> string" where
  "value_to_json to_text V_Null = JNull"
| "value_to_json to_text (V_Boolean b) = JBool b"
| "value_to_json to_text (V_TinyInt i) = JNumber (show_int i)"
| "value_to_json to_text (V_SmallInt i) = JNumber (show_int i)"
| "value_to_json to_text (V_Int i) = JNumber (show_int i)"
| "value_to_json to_text (V_BigInt i) = JNumber (show_int i)"
| "value_to_json to_text (V_UTinyInt i) = JNumber (show_int i)"
| "value_to_json to_text (V_USmallInt i) = JNumber (show_int i)"
| "value_to_json to_text (V_UInt i) = JNumber (show_int i)"
| "value_to_json to_text (V_UBigInt i) = JNumber (show_int i)"
| "value_to_json to_text (V_HugeInt i) = (if fits_i64 i then JNumber (show_int i) else JString (show_int i))"
| "value_to_json to_text (V_Float f) = json_float f"
| "value_to_json to_text (V_Double f) = json_float f"
| "value_to_json to_text (V_Decimal d) = JString d"
| "value_to_json to_text (V_Text s) = JString s"
| "value_to_json to_text (V_Enum s) = JString s"
| "value_to_json to_text (V_Date32 days) = JString (date_text days)"
| "value_to_json to_text (V_Timestamp unit t) = JString (timestamp_text unit t)"
| "value_to_json to_text (V_Time64 unit t) = JString (time_text unit t)"
| "value_to_json to_text (V_Interval months days nanos) =
     json_object [(''months'', JNumber (show_int months)), (''days'', JNumber (show_int days)),
                  (''nanos'', JNumber (show_int nanos))]"
| "value_to_json to_text (V_Blob b) = JString (concat (map hex_byte b))"
| "value_to_json to_text (V_List items) = JArray (map (value_to_json to_text) items)"
| "value_to_json to_text (V_Array items) = JArray (map (value_to_json to_text) items)"
| "value_to_json to_text (V_Struct kvs) =
     json_object (map (\<lambda>(k, v). (k, value_to_json to_text v)) kvs)"
| "value_to_json to_text (V_Map entries) =
     json_object (map (\<lambda>(k, v). (map_key to_text k, value_to_json to_text v)) entries)"
| "value_to_json to_text (V_Union inner) = value_to_json to_text inner"
| "map_key to_text k = (case k of V_Text s \<Rightarrow> s | V_Enum s \<Rightarrow> s | other \<Rightarrow> to_text (value_to_json to_text other))"
  by pat_completeness auto

termination
proof (relation "measure (\<lambda>x. case x of Inl (_, v) \<Rightarrow> 2 * size v | Inr (_, k) \<Rightarrow> 2 * size k + 1)")
qed (auto dest: size_in_list size_in_pairs)

section \<open>The Gregorian calendar\<close>

definition leap_year :: "int \<Rightarrow> bool" where
  "leap_year y \<longleftrightarrow> 4 dvd y \<and> (\<not> 100 dvd y \<or> 400 dvd y)"

definition days_in_month :: "int \<Rightarrow> int \<Rightarrow> int" where
  "days_in_month y m = (if m = 2 then (if leap_year y then 29 else 28)
     else if m \<in> {4, 6, 9, 11} then 30 else 31)"

fun valid_date :: "int \<times> int \<times> int \<Rightarrow> bool" where
  "valid_date (y, m, d) \<longleftrightarrow> 1 \<le> m \<and> m \<le> 12 \<and> 1 \<le> d \<and> d \<le> days_in_month y m"

fun next_day :: "int \<times> int \<times> int \<Rightarrow> int \<times> int \<times> int" where
  "next_day (y, m, d) = (if d < days_in_month y m then (y, m, d + 1)
     else if m < 12 then (y, m + 1, 1) else (y + 1, 1, 1))"

text \<open>The computation splits a day number into an era of 400 years, a year of the era counted from
  March and a day of that year.\<close>

definition year_start :: "int \<Rightarrow> int" where
  "year_start y = 365 * y + y div 4 - y div 100"

definition year_last :: "int \<Rightarrow> int" where
  "year_last y = (if y = 399 then 146096 else year_start (y + 1) - 1)"

definition year_num :: "int \<Rightarrow> int" where
  "year_num d = d - d div 1460 + d div 36524 - d div 146096"

definition month_day :: "int \<Rightarrow> int \<times> int" where
  "month_day doy = (let mp = (5 * doy + 2) div 153
     in (if mp < 10 then mp + 3 else mp - 9, doy - (153 * mp + 2) div 5 + 1))"

lemma era_div: "(if z \<ge> 0 then z else z - 146096) sdiv 146097 = z div (146097::int)"
proof (cases "z \<ge> 0")
  case True
  then show ?thesis by (simp add: signed_divide_int_def sgn_if)
next
  case False
  define q where "q = (146096 - z) div 146097"
  have "146097 * q \<le> 146096 - z" "146096 - z < 146097 * q + 146097"
    using pos_mod_bound [of 146097 "146096 - z"] pos_mod_sign [of 146097 "146096 - z"]
      mult_div_mod_eq [of 146097 "146096 - z"] by (simp_all add: q_def)
  then have "z div 146097 = - q" by (intro int_div_pos_eq [where r = "z + 146097 * q"]) auto
  then show ?thesis using False by (simp add: signed_divide_int_def sgn_if q_def)
qed

lemma div_succ:
  assumes "0 < (c::int)"
  shows "(d + 1) div c = d div c + (if c dvd d + 1 then 1 else 0)"
proof (cases "c dvd d + 1")
  case True
  then obtain k where k: "d + 1 = c * k" by blast
  have "d div c = k - 1" using assms k by (intro int_div_pos_eq [where r = "c - 1"]) (auto simp: algebra_simps)
  then show ?thesis using True k assms by simp
next
  case False
  then have "0 < (d + 1) mod c" using assms by (simp add: dvd_eq_mod_eq_0 order_less_le)
  moreover have "(d + 1) mod c < c" "c * ((d + 1) div c) + (d + 1) mod c = d + 1" using assms by simp_all
  ultimately have "d div c = (d + 1) div c"
    by (intro int_div_pos_eq [where r = "(d + 1) mod c - 1"]) linarith+
  then show ?thesis using False by simp
qed

lemma div_succ_le:
  assumes "0 < (c::int)"
  shows "d div c \<le> (d + 1) div c" "(d + 1) div c \<le> d div c + 1"
  by (simp_all add: div_succ [OF assms])

lemma year_num_step:
  assumes "0 \<le> d" "d < 146096"
  shows "year_num d \<le> year_num (d + 1)"
proof (cases "d = 146095")
  case True
  then show ?thesis by (simp add: year_num_def)
next
  case False
  then have "\<not> 146096 dvd d + 1" using assms zdvd_imp_le [of 146096 "d + 1"] by auto
  then have c: "(d + 1) div 146096 = d div 146096" using div_succ [of 146096 d] by presburger
  have aux: "a' \<le> a + 1 \<Longrightarrow> b \<le> b' \<Longrightarrow> x - a + b - c \<le> x + 1 - a' + b' - c" for x a a' b b' c :: int by linarith
  show ?thesis unfolding year_num_def c by (rule aux; rule div_succ_le; simp)
qed

lemma year_num_mono:
  assumes "0 \<le> a" "a \<le> b" "b \<le> 146096"
  shows "year_num a \<le> year_num b"
  using assms(2,3)
proof (induction b rule: int_ge_induct)
  case (step b)
  then show ?case using year_num_step [of b] assms(1) by simp
qed simp

lemma year_split:
  obtains a b c :: int where "y = 100 * c + 4 * b + a" "0 \<le> a" "a \<le> 3" "0 \<le> b" "b \<le> 24"
    "c = y div 100" "y div 4 = 25 * c + b"
proof -
  define c r where "c = y div 100" and "r = y mod 100"
  have r: "0 \<le> r" "r < 100" "y = 100 * c + r" by (simp_all add: c_def r_def)
  define b a where "b = r div 4" and "a = r mod 4"
  have a: "0 \<le> a" "a \<le> 3" "r = 4 * b + a" by (auto simp: a_def b_def)
  have "y div 4 = 25 * c + b" using r a by (intro int_div_pos_eq [where r = a]) auto
  moreover have "y = 100 * c + 4 * b + a" "b \<le> 24" "0 \<le> b" using r a by auto
  ultimately show thesis using that [of c b a] a c_def by blast
qed

lemma year_start_num:
  assumes "0 \<le> y" "y < 400"
  shows "year_num (year_start y) = 365 * y" and "0 < y \<Longrightarrow> year_num (year_start y - 1) < 365 * y"
    and "0 \<le> year_start y" "year_start y < 146097"
proof -
  obtain a b c where y: "y = 100 * c + 4 * b + a" "0 \<le> a" "a \<le> 3" "0 \<le> b" "b \<le> 24" "c = y div 100" "y div 4 = 25 * c + b"
    by (rule year_split)
  have c: "0 \<le> c" "c \<le> 3" using assms y(1-5) by linarith+
  have s: "year_start y = 36524 * c + 1461 * b + 365 * a"
    unfolding year_start_def y(7) y(6) [symmetric] using y(1) by simp
  have "year_start y div 1460 = 25 * c + b"
    using s y(2-5) c by (intro int_div_pos_eq [where r = "24 * c + b + 365 * a"]) auto
  moreover have "year_start y div 36524 = c"
    using s y(2-5) c by (intro int_div_pos_eq [where r = "1461 * b + 365 * a"]) auto
  moreover have "year_start y div 146096 = 0"
    using s y(2-5) c by (intro div_pos_pos_trivial) auto
  ultimately show "year_num (year_start y) = 365 * y" using s y(1) by (simp add: year_num_def)
  show "0 \<le> year_start y" "year_start y < 146097" using s y(2-5) c by auto
  show "year_num (year_start y - 1) < 365 * y" if "0 < y"
  proof -
    have "0 < 24 * c + b + 365 * a" using that y(1-5) c by linarith
    then have "(year_start y - 1) div 1460 = 25 * c + b"
      using s y(2-5) c by (intro int_div_pos_eq [where r = "24 * c + b + 365 * a - 1"]) auto
    moreover have "(year_start y - 1) div 36524 \<le> year_start y div 36524" by (intro zdiv_mono1) auto
    moreover have "0 \<le> (year_start y - 1) div 146096"
      using s y(1-5) c that by (intro pos_imp_zdiv_nonneg_iff [THEN iffD2]) linarith+
    ultimately show ?thesis using s y(1) \<open>year_start y div 36524 = c\<close> by (simp add: year_num_def)
  qed
qed

lemma year_bounds:
  assumes "0 \<le> y" "y < 400"
  shows "365 * y \<le> year_num (year_start y)" "year_num (year_last y) < 365 * (y + 1)"
    "0 \<le> year_start y" "year_last y \<le> 146096"
proof -
  show "365 * y \<le> year_num (year_start y)" "0 \<le> year_start y" using year_start_num [OF assms] by simp_all
  show "year_num (year_last y) < 365 * (y + 1)"
  proof (cases "y = 399")
    case True
    then show ?thesis by (simp add: year_last_def year_num_def)
  next
    case False
    then show ?thesis using year_start_num(2) [of "y + 1"] assms by (simp add: year_last_def)
  qed
  show "year_last y \<le> 146096" using year_start_num(4) [of "y + 1"] assms by (auto simp: year_last_def)
qed

lemma year_length:
  assumes "0 \<le> y" "y < 400"
  shows "year_last y - year_start y = (if leap_year (y + 1) then 365 else 364)"
proof (cases "y = 399")
  case True
  then show ?thesis by (simp add: year_last_def year_start_def leap_year_def)
next
  case False
  then have "\<not> 400 dvd y + 1" using assms zdvd_imp_le [of 400 "y + 1"] by auto
  moreover have "(4::int) dvd 100" by simp
  then have "100 dvd y + 1 \<Longrightarrow> 4 dvd y + 1" using dvd_trans by blast
  ultimately show ?thesis using False div_succ [of 4 y] div_succ [of 100 y]
    by (auto simp: year_last_def year_start_def leap_year_def)
qed

lemma year_of_day:
  assumes "0 \<le> y" "y < 400" "year_start y \<le> d" "d \<le> year_last y"
  shows "year_num d div 365 = y"
proof -
  note b = year_bounds [OF assms(1,2)]
  have "365 * y \<le> year_num d" using b year_num_mono [of "year_start y" d] assms by linarith
  moreover have "year_num d < 365 * (y + 1)" using b year_num_mono [of d "year_last y"] assms by linarith
  ultimately show ?thesis by (intro int_div_pos_eq [where r = "year_num d - 365 * y"]) auto
qed

lemma year_exists:
  assumes "0 \<le> d" "d < 146097"
  obtains y where "0 \<le> y" "y < 400" "year_start y \<le> d" "d \<le> year_last y"
proof -
  have "(n = 400 \<or> d < year_start (int n)) \<Longrightarrow> n \<le> 400 \<Longrightarrow> \<exists>y. 0 \<le> y \<and> y < 400 \<and> year_start y \<le> d \<and> d \<le> year_last y" for n
  proof (induction n)
    case 0
    then show ?case using assms by (simp add: year_start_def)
  next
    case (Suc n)
    show ?case
    proof (cases "d < year_start (int n)")
      case False
      then have "d \<le> year_last (int n)" using Suc.prems assms by (auto simp: year_last_def algebra_simps)
      then show ?thesis using False Suc.prems by (intro exI [where x = "int n"]) auto
    qed (use Suc in auto)
  qed
  then show thesis using that assms by blast
qed

lemma month_table:
  "0 \<le> n \<Longrightarrow> n < 31 \<Longrightarrow> month_day n = (3, n + 1)"
  "31 \<le> n \<Longrightarrow> n < 61 \<Longrightarrow> month_day n = (4, n - 30)"
  "61 \<le> n \<Longrightarrow> n < 92 \<Longrightarrow> month_day n = (5, n - 60)"
  "92 \<le> n \<Longrightarrow> n < 122 \<Longrightarrow> month_day n = (6, n - 91)"
  "122 \<le> n \<Longrightarrow> n < 153 \<Longrightarrow> month_day n = (7, n - 121)"
  "153 \<le> n \<Longrightarrow> n < 184 \<Longrightarrow> month_day n = (8, n - 152)"
  "184 \<le> n \<Longrightarrow> n < 214 \<Longrightarrow> month_day n = (9, n - 183)"
  "214 \<le> n \<Longrightarrow> n < 245 \<Longrightarrow> month_day n = (10, n - 213)"
  "245 \<le> n \<Longrightarrow> n < 275 \<Longrightarrow> month_day n = (11, n - 244)"
  "275 \<le> n \<Longrightarrow> n < 306 \<Longrightarrow> month_day n = (12, n - 274)"
  "306 \<le> n \<Longrightarrow> n < 337 \<Longrightarrow> month_day n = (1, n - 305)"
  "337 \<le> n \<Longrightarrow> n < 366 \<Longrightarrow> month_day n = (2, n - 336)"
proof -
  have eq: "153 * k \<le> 5 * n + 2 \<Longrightarrow> 5 * n + 2 < 153 * k + 153 \<Longrightarrow> (5 * n + 2) div 153 = k" for k
    by (intro int_div_pos_eq [where r = "5 * n + 2 - 153 * k"]) auto
  show "month_day n = (3, n + 1)" if "0 \<le> n" "n < 31" using that eq [of 0] by (simp add: month_day_def)
  show "month_day n = (4, n - 30)" if "31 \<le> n" "n < 61" using that eq [of 1] by (simp add: month_day_def)
  show "month_day n = (5, n - 60)" if "61 \<le> n" "n < 92" using that eq [of 2] by (simp add: month_day_def)
  show "month_day n = (6, n - 91)" if "92 \<le> n" "n < 122" using that eq [of 3] by (simp add: month_day_def)
  show "month_day n = (7, n - 121)" if "122 \<le> n" "n < 153" using that eq [of 4] by (simp add: month_day_def)
  show "month_day n = (8, n - 152)" if "153 \<le> n" "n < 184" using that eq [of 5] by (simp add: month_day_def)
  show "month_day n = (9, n - 183)" if "184 \<le> n" "n < 214" using that eq [of 6] by (simp add: month_day_def)
  show "month_day n = (10, n - 213)" if "214 \<le> n" "n < 245" using that eq [of 7] by (simp add: month_day_def)
  show "month_day n = (11, n - 244)" if "245 \<le> n" "n < 275" using that eq [of 8] by (simp add: month_day_def)
  show "month_day n = (12, n - 274)" if "275 \<le> n" "n < 306" using that eq [of 9] by (simp add: month_day_def)
  show "month_day n = (1, n - 305)" if "306 \<le> n" "n < 337" using that eq [of 10] by (simp add: month_day_def)
  show "month_day n = (2, n - 336)" if "337 \<le> n" "n < 366" using that eq [of 11] by (simp add: month_day_def)
qed

lemma doy_range:
  assumes "0 \<le> n" "n \<le> (365::int)"
  obtains "0 \<le> n" "n < 31" | "31 \<le> n" "n < 61" | "61 \<le> n" "n < 92" | "92 \<le> n" "n < 122" | "122 \<le> n" "n < 153" | "153 \<le> n" "n < 184" | "184 \<le> n" "n < 214" | "214 \<le> n" "n < 245" | "245 \<le> n" "n < 275" | "275 \<le> n" "n < 306" | "306 \<le> n" "n < 337" | "337 \<le> n" "n < 366"
proof (cases "n < 153")
  case True
  then consider "0 \<le> n" "n < 31" | "31 \<le> n" "n < 61" | "61 \<le> n" "n < 92" | "92 \<le> n" "n < 122" | "122 \<le> n" "n < 153" using assms by linarith
  then show ?thesis by cases (fact that)+
next
  case False
  show ?thesis
  proof (cases "n < 275")
    case True
    with False consider "153 \<le> n" "n < 184" | "184 \<le> n" "n < 214" | "214 \<le> n" "n < 245" | "245 \<le> n" "n < 275" by linarith
    then show ?thesis by cases (fact that)+
  next
    case False
    then consider "275 \<le> n" "n < 306" | "306 \<le> n" "n < 337" | "337 \<le> n" "n < 366" using assms by linarith
    then show ?thesis by cases (fact that)+
  qed
qed

lemma month_day_range:
  assumes "0 \<le> n" "n \<le> 365" "month_day n = (m, d)"
  shows "1 \<le> m" "m \<le> 12" "1 \<le> d" "d \<le> days_in_month 4 m" "m \<le> 2 \<longleftrightarrow> 306 \<le> n" "m = 2 \<longleftrightarrow> 337 \<le> n" "m = 2 \<Longrightarrow> d = n - 336"
proof -
  from assms(1,2) have "1 \<le> m \<and> m \<le> 12 \<and> 1 \<le> d \<and> d \<le> days_in_month 4 m \<and> (m \<le> 2 \<longleftrightarrow> 306 \<le> n) \<and> (m = 2 \<longleftrightarrow> 337 \<le> n) \<and> (m = 2 \<longrightarrow> d = n - 336)"
    by (cases rule: doy_range [where n = n]) (use assms(3) in \<open>simp add: month_table days_in_month_def leap_year_def; linarith\<close>)+
  then show "1 \<le> m" "m \<le> 12" "1 \<le> d" "d \<le> days_in_month 4 m" "m \<le> 2 \<longleftrightarrow> 306 \<le> n" "m = 2 \<longleftrightarrow> 337 \<le> n" "m = 2 \<Longrightarrow> d = n - 336"
    by blast+
qed

lemma month_day_next:
  assumes "0 \<le> n" "n < 365" "month_day n = (m, d)"
  shows "month_day (n + 1) = (if d < days_in_month 4 m then (m, d + 1) else if m < 12 then (m + 1, 1) else (1, 1))"
proof -
  have "n \<le> 365" using assms(2) by simp
  with assms(1) show ?thesis
  proof (cases rule: doy_range)
    case 1
    then show ?thesis using assms(3) by (cases "n + 1 < 31") (simp_all add: month_table days_in_month_def leap_year_def)
  next
    case 2
    then show ?thesis using assms(3) by (cases "n + 1 < 61") (simp_all add: month_table days_in_month_def leap_year_def)
  next
    case 3
    then show ?thesis using assms(3) by (cases "n + 1 < 92") (simp_all add: month_table days_in_month_def leap_year_def)
  next
    case 4
    then show ?thesis using assms(3) by (cases "n + 1 < 122") (simp_all add: month_table days_in_month_def leap_year_def)
  next
    case 5
    then show ?thesis using assms(3) by (cases "n + 1 < 153") (simp_all add: month_table days_in_month_def leap_year_def)
  next
    case 6
    then show ?thesis using assms(3) by (cases "n + 1 < 184") (simp_all add: month_table days_in_month_def leap_year_def)
  next
    case 7
    then show ?thesis using assms(3) by (cases "n + 1 < 214") (simp_all add: month_table days_in_month_def leap_year_def)
  next
    case 8
    then show ?thesis using assms(3) by (cases "n + 1 < 245") (simp_all add: month_table days_in_month_def leap_year_def)
  next
    case 9
    then show ?thesis using assms(3) by (cases "n + 1 < 275") (simp_all add: month_table days_in_month_def leap_year_def)
  next
    case 10
    then show ?thesis using assms(3) by (cases "n + 1 < 306") (simp_all add: month_table days_in_month_def leap_year_def)
  next
    case 11
    then show ?thesis using assms(3) by (cases "n + 1 < 337") (simp_all add: month_table days_in_month_def leap_year_def)
  next
    case 12
    then show ?thesis using assms(2,3) by (simp add: month_table days_in_month_def leap_year_def)
  qed
qed

text \<open>What the computation does on a day given by its era, year and day of year.\<close>

lemma civil_of_parts:
  assumes "0 \<le> y" "y < 400" "0 \<le> n" "year_start y + n \<le> year_last y"
    and "z + 719468 = 146097 * e + year_start y + n" and "month_day n = (m, d)"
  shows "civil_from_days z = (y + 400 * e + (if m \<le> 2 then 1 else 0), m, d)"
proof -
  have b: "0 \<le> year_start y + n" "year_start y + n \<le> 146096"
    using year_bounds(3,4) [OF assms(1,2)] assms(3,4) by linarith+
  have era: "(z + 719468) div 146097 = e"
    by (rule int_div_pos_eq [where r = "year_start y + n"]) (use b assms(5) in auto)
  have doe: "z + 719468 - e * 146097 = year_start y + n" using assms(5) by simp
  have yoe: "year_num (year_start y + n) div 365 = y"
    using year_of_day [OF assms(1,2)] assms(3,4) by simp
  have doy: "year_start y + n - (365 * y + y div 4 - y div 100) = n" by (simp add: year_start_def)
  show ?thesis
    using assms(6) unfolding civil_from_days_def Let_def era_div era doe
      year_num_def [symmetric] yoe doy month_day_def by auto
qed

lemma leap_year_shift [simp]: "leap_year (y + 400 * e) = leap_year y"
proof -
  have "c dvd y + 400 * e \<longleftrightarrow> c dvd y" if "c dvd 400" for c :: int
    using that by (simp add: dvd_add_left_iff)
  then show ?thesis by (simp add: leap_year_def)
qed

lemma day_parts:
  obtains e y n where "0 \<le> y" "y < 400" "0 \<le> n" "year_start y + n \<le> year_last y"
    "z + 719468 = 146097 * e + year_start y + n"
proof -
  define e r where "e = (z + 719468) div 146097" and "r = (z + 719468) mod 146097"
  have r: "0 \<le> r" "r < 146097" "z + 719468 = 146097 * e + r" unfolding e_def r_def by simp_all
  obtain y where y: "0 \<le> y" "y < 400" "year_start y \<le> r" "r \<le> year_last y" by (rule year_exists [OF r(1,2)])
  show thesis by (rule that [of y "r - year_start y" e]) (use r y in auto)
qed

lemma days_in_month_4: "m \<noteq> 2 \<Longrightarrow> days_in_month 4 m = days_in_month y m"
  by (simp add: days_in_month_def)

lemma next_year_begins:
  assumes p: "0 \<le> y" "y < 400" "z + 719468 = 146097 * e + year_last y"
  shows "civil_from_days (z + 1) = (y + 1 + 400 * e, 3, 1)"
proof -
  have md: "month_day 0 = (3, 1)" by (simp add: month_day_def)
  show ?thesis
  proof (cases "y = 399")
    case True
    have "civil_from_days (z + 1) = (0 + 400 * (e + 1) + (if (3::int) \<le> 2 then 1 else 0), 3, 1)"
      by (rule civil_of_parts [where n = 0]) (use p True md in \<open>auto simp: year_last_def year_start_def\<close>)
    then show ?thesis using True by simp
  next
    case False
    have "0 \<le> year_last (y + 1) - year_start (y + 1)" using year_length [of "y + 1"] p(1,2) False by simp
    then have "civil_from_days (z + 1) = (y + 1 + 400 * e + (if (3::int) \<le> 2 then 1 else 0), 3, 1)"
      by (intro civil_of_parts [where n = 0]) (use p False md in \<open>auto simp: year_last_def [of y]\<close>)
    then show ?thesis by simp
  qed
qed

lemma civil_valid_and_next:
  "valid_date (civil_from_days z) \<and> civil_from_days (z + 1) = next_day (civil_from_days z)"
proof -
  obtain e y n where p: "0 \<le> y" "y < 400" "0 \<le> n" "year_start y + n \<le> year_last y"
    "z + 719468 = 146097 * e + year_start y + n" by (rule day_parts)
  obtain m d where md: "month_day n = (m, d)" by fastforce
  let ?Y = "y + 400 * e + (if m \<le> 2 then 1 else 0)"
  have c: "civil_from_days z = (?Y, m, d)" by (rule civil_of_parts [OF p md])
  have len: "year_last y - year_start y = (if leap_year (y + 1) then 365 else 364)" by (rule year_length [OF p(1,2)])
  have n: "n \<le> 365" using len p(4) by (simp split: if_splits)
  note r = month_day_range [OF p(3) n md]
  have leap: "m = 2 \<Longrightarrow> leap_year ?Y = leap_year (y + 1)" using leap_year_shift [of "y + 1" e] by (simp add: algebra_simps)
  have dim: "days_in_month ?Y m = (if m = 2 then (if leap_year (y + 1) then 29 else 28) else days_in_month 4 m)"
    using leap by (simp add: days_in_month_def)
  have d: "d \<le> days_in_month ?Y m" unfolding dim using r(4,7) len p(4) by (auto split: if_splits)
  have "civil_from_days (z + 1) = next_day (civil_from_days z)"
  proof (cases "year_start y + n < year_last y")
    case True
    then have n': "n < 365" using len by (simp split: if_splits)
    obtain m' d' where md': "month_day (n + 1) = (m', d')" by fastforce
    have "civil_from_days (z + 1) = (y + 400 * e + (if m' \<le> 2 then 1 else 0), m', d')"
      by (rule civil_of_parts [where n = "n + 1"]) (use p True md' in auto)
    moreover have "d < 29 \<and> d < days_in_month ?Y m" if "m = 2" using that r(7) True len n' dim by (auto split: if_splits)
    then have "(m', d') = (if d < days_in_month ?Y m then (m, d + 1) else if m < 12 then (m + 1, 1) else (1, 1))"
      using month_day_next [OF p(3) n' md] md' dim by (auto simp: days_in_month_def leap_year_def)
    moreover have "m' \<le> 2 \<longleftrightarrow> 306 \<le> n + 1" using month_day_range(5) [OF _ _ md'] p(3) n' by simp
    ultimately show ?thesis using c r(5) by (auto split: if_splits)
  next
    case False
    then have "n = (if leap_year (y + 1) then 365 else 364)" using p(4) len by simp
    then have "m = 2" "d = days_in_month ?Y m" using r(6,7) dim by (auto split: if_splits)
    moreover have "z + 719468 = 146097 * e + year_last y" using False p(4,5) by simp
    ultimately show ?thesis using c next_year_begins [OF p(1,2)] by simp
  qed
  then show ?thesis using c r(1-3) d by simp
qed

fun earlier :: "int \<times> int \<times> int \<Rightarrow> int \<times> int \<times> int \<Rightarrow> bool" where
  "earlier (y, m, d) (y', m', d') \<longleftrightarrow> y < y' \<or> y = y' \<and> (m < m' \<or> m = m' \<and> d < d')"

lemma civil_increasing:
  assumes "a < b"
  shows "earlier (civil_from_days a) (civil_from_days b)"
proof -
  have nx: "earlier p (next_day p)" for p by (cases p) simp
  have tr: "earlier p q \<Longrightarrow> earlier q r \<Longrightarrow> earlier p r" for p q r by (cases p; cases q; cases r) auto
  have "a + 1 \<le> b" using assms by simp
  then show ?thesis
  proof (induction b rule: int_ge_induct)
    case base
    then show ?case using nx civil_valid_and_next [of a] by metis
  next
    case (step b)
    then show ?case using nx tr civil_valid_and_next [of b] by metis
  qed
qed

lemma civil_inj [simp]: "civil_from_days a = civil_from_days b \<longleftrightarrow> a = b"
proof -
  have "\<not> earlier p p" for p by (cases p) simp
  then show ?thesis using civil_increasing [of a b] civil_increasing [of b a] by (metis linorder_neqE)
qed

section \<open>Texts determine values\<close>

definition digits_value :: "string \<Rightarrow> nat" where
  "digits_value s = foldl (\<lambda>a c. 10 * a + (code c - 48)) 0 s"

lemma digits_value_show_nat [simp]: "digits_value (replicate k (CHR ''0'') @ show_nat n) = n"
proof -
  have z: "foldl (\<lambda>a c. 10 * a + (code c - 48)) 0 (replicate k (CHR ''0'')) = 0" by (induction k) simp_all
  have "digits_value (show_nat n) = n"
  proof (induction n rule: show_nat.induct)
    case (1 n)
    then show ?case by (subst show_nat.simps) (simp add: digits_value_def code_char_of)
  qed
  then show ?thesis using z by (simp add: digits_value_def)
qed

lemma zero_pad_nonneg: "0 \<le> i \<Longrightarrow> zero_pad w i = replicate (w - length (show_nat (nat i))) (CHR ''0'') @ show_nat (nat i)"
  by (simp add: zero_pad_def Let_def)

lemma zero_pad_neg: "i < 0 \<Longrightarrow> zero_pad w i = CHR ''-'' # zero_pad (w - 1) (- i)"
  by (simp add: zero_pad_def Let_def)

lemma zero_pad_digits: "0 \<le> i \<Longrightarrow> c \<in> set (zero_pad w i) \<Longrightarrow> is_ascii_digit c"
  by (auto simp: zero_pad_nonneg dest: show_nat_digits) (simp add: is_ascii_digit_def)

lemma zero_pad_value [simp]: "0 \<le> i \<Longrightarrow> int (digits_value (zero_pad w i)) = i"
  by (simp add: zero_pad_nonneg)

lemma zero_pad_free:
  assumes "0 \<le> i" "\<And>c. p c \<Longrightarrow> \<not> is_ascii_digit c"
  shows "\<forall>c \<in> set (zero_pad w i). \<not> p c"
  using assms zero_pad_digits by blast

text \<open>Readers for the three texts.\<close>

definition read_date :: "string \<Rightarrow> int \<times> int \<times> int" where
  "read_date s = (case split_on (\<lambda>c. c = CHR ''-'') s of
     [y, m, d] \<Rightarrow> (int (digits_value y), int (digits_value m), int (digits_value d))
   | [_, y, m, d] \<Rightarrow> (- int (digits_value y), int (digits_value m), int (digits_value d))
   | _ \<Rightarrow> (0, 0, 0))"

definition read_clock :: "string \<Rightarrow> int \<times> int" where
  "read_clock s = (case split_on (\<lambda>c. c = CHR '':'' \<or> c = CHR ''.'') s of
     [h, m, s] \<Rightarrow> (3600 * int (digits_value h) + 60 * int (digits_value m) + int (digits_value s), 0)
   | [h, m, s, f] \<Rightarrow> (3600 * int (digits_value h) + 60 * int (digits_value m) + int (digits_value s), int (digits_value f))
   | _ \<Rightarrow> (0, 0))"

definition read_timestamp :: "string \<Rightarrow> (int \<times> int \<times> int) \<times> int \<times> int" where
  "read_timestamp s = (case split_on (\<lambda>c. c = CHR '' '') s of [d, c] \<Rightarrow> (read_date d, read_clock c) | _ \<Rightarrow> ((0, 0, 0), 0, 0))"

lemma not_digit_simps [simp]:
  "\<not> is_ascii_digit (CHR ''-'')" "\<not> is_ascii_digit (CHR '':'')" "\<not> is_ascii_digit (CHR ''.'')" "\<not> is_ascii_digit (CHR '' '')"
  by (simp_all add: is_ascii_digit_def)

lemma read_date_text: "read_date (date_text z) = civil_from_days z"
proof -
  obtain y m d where c: "civil_from_days z = (y, m, d)" by (cases "civil_from_days z")
  then have md: "0 \<le> m" "0 \<le> d" using civil_valid_and_next [of z] by auto
  have f: "0 \<le> i \<Longrightarrow> \<forall>c \<in> set (zero_pad w i). \<not> c = CHR ''-''" for w i using zero_pad_free [of i "\<lambda>c. c = CHR ''-''" w] by auto
  have t: "date_text z = zero_pad 4 y @ CHR ''-'' # zero_pad 2 m @ CHR ''-'' # zero_pad 2 d" by (simp add: date_text_def c)
  show ?thesis
  proof (cases "0 \<le> y")
    case True
    then show ?thesis using md f by (simp add: t read_date_def c split_on_append_sep split_on_no_sep)
  next
    case False
    then have y: "0 \<le> - y" by simp
    show ?thesis using md f f [OF y] False by (simp add: t read_date_def c split_on_append_sep split_on_no_sep zero_pad_neg)
  qed
qed

lemma sdiv_nonneg: "0 \<le> a \<Longrightarrow> 0 < b \<Longrightarrow> a sdiv b = a div (b::int)" "0 \<le> a \<Longrightarrow> 0 < b \<Longrightarrow> a smod b = a mod (b::int)"
  by (simp_all add: signed_divide_int_def signed_modulo_int_def sgn_if minus_mult_div_eq_mod mult.commute)

lemma read_clock_text:
  assumes "0 \<le> tod" "0 \<le> frac"
  shows "read_clock (clock_text tod frac) = (tod, frac)"
proof -
  let ?h = "tod div 3600" and ?m = "tod mod 3600 div 60" and ?s = "tod mod 60"
  have f: "0 \<le> i \<Longrightarrow> \<forall>c \<in> set (zero_pad w i). \<not> (c = CHR '':'' \<or> c = CHR ''.'')" for w i
    by (rule zero_pad_free) auto
  have n: "0 \<le> ?h" "0 \<le> ?m" "0 \<le> ?s" using assms by (simp_all add: pos_imp_zdiv_nonneg_iff)
  have t: "clock_text tod frac = zero_pad 2 ?h @ CHR '':'' # zero_pad 2 ?m @ CHR '':'' # zero_pad 2 ?s
     @ (if frac > 0 then CHR ''.'' # zero_pad 6 frac else [])"
    using assms by (simp add: clock_text_def sdiv_nonneg)
  have "tod mod 3600 mod 60 = tod mod 60" by (simp add: mod_mod_cancel)
  then have "60 * ?m + ?s = tod mod 3600" using mult_div_mod_eq [of 60 "tod mod 3600"] by (simp only:)
  then have e: "3600 * ?h + 60 * ?m + ?s = tod" by (simp only: add.assoc mult_div_mod_eq)
  have "read_clock (zero_pad 2 h @ CHR '':'' # zero_pad 2 m @ CHR '':'' # zero_pad 2 s
      @ (if frac > 0 then CHR ''.'' # zero_pad 6 frac else [])) = (3600 * h + 60 * m + s, frac)"
    if "0 \<le> h" "0 \<le> m" "0 \<le> s" for h m s
    using that f [OF that(1)] f [OF that(2)] f [OF that(3)] f [OF assms(2)] assms
    by (simp add: read_clock_def split_on_append_sep split_on_no_sep)
  from this [OF n] show ?thesis unfolding t e .
qed

lemma read_timestamp_text:
  assumes "split_unit_since_epoch u v = (secs, frac)"
  shows "read_timestamp (timestamp_text u v) = (civil_from_days (secs div 86400), secs mod 86400, frac)"
proof -
  have fr: "0 \<le> frac" using assms by (cases u) (auto simp: pos_imp_zdiv_nonneg_iff)
  have "is_ascii_digit c \<or> c = CHR ''-''" if "c \<in> set (date_text z)" for c z
  proof -
    obtain y m d where cv: "civil_from_days z = (y, m, d)" by (cases "civil_from_days z")
    then have md: "0 \<le> m" "0 \<le> d" using civil_valid_and_next [of z] by auto
    show ?thesis using that md by (cases "0 \<le> y") (auto simp: date_text_def cv zero_pad_neg dest!: zero_pad_digits [rotated])
  qed
  then have d: "\<forall>c \<in> set (date_text z). \<not> c = CHR '' ''" for z by force
  have c: "\<forall>c \<in> set (clock_text tod frac). \<not> c = CHR '' ''" if "0 \<le> tod" for tod
  proof -
    have z: "CHR '' '' \<notin> set (zero_pad w i)" if "0 \<le> i" for w i using zero_pad_digits [OF that, of "CHR '' ''" w] by auto
    have n: "0 \<le> tod div 3600" "0 \<le> tod mod 3600 div 60" "0 \<le> tod mod 60" using that by (simp_all add: pos_imp_zdiv_nonneg_iff)
    show ?thesis using that fr z [OF n(1)] z [OF n(2)] z [OF n(3)] z [OF fr] by (auto simp: clock_text_def sdiv_nonneg Let_def)
  qed
  show ?thesis using d fr c [of "secs mod 86400"]
    by (simp add: timestamp_text_def assms read_timestamp_def split_on_append_sep split_on_no_sep read_date_text read_clock_text)
qed

lemma hex_byte_inj: "hex_byte a = hex_byte b \<longleftrightarrow> a = b"
proof
  have lt: "unat w < 256" for w :: "8 word" using unsigned_less [of w] by simp
  have inj: "hex_digit i = hex_digit j \<Longrightarrow> i < 16 \<Longrightarrow> j < 16 \<Longrightarrow> i = j" for i j
    unfolding hex_digit_def by (subst (asm) nth_eq_iff_index_eq) simp_all
  assume "hex_byte a = hex_byte b"
  then have "hex_digit (unat a div 16) = hex_digit (unat b div 16)" "hex_digit (unat a mod 16) = hex_digit (unat b mod 16)"
    by (simp_all add: hex_byte_def)
  then have "unat a div 16 = unat b div 16" "unat a mod 16 = unat b mod 16" using inj lt [of a] lt [of b] by auto
  then have "unat a = unat b" by (metis div_mult_mod_eq)
  then show "a = b" by (rule unsigned_word_eqI)
qed simp

lemma hex_inj: "concat (map hex_byte xs) = concat (map hex_byte ys) \<longleftrightarrow> xs = ys"
proof
  have len: "length (hex_byte a) = length (hex_byte b)" for a b by (simp add: hex_byte_def)
  assume "concat (map hex_byte xs) = concat (map hex_byte ys)"
  then show "xs = ys"
  proof (induction xs arbitrary: ys)
    case Nil
    then show ?case by (cases ys) (simp_all add: hex_byte_def)
  next
    case (Cons x xs)
    then obtain y ys' where ys: "ys = y # ys'" by (cases ys) (simp_all add: hex_byte_def)
    have "hex_byte x = hex_byte y \<and> concat (map hex_byte xs) = concat (map hex_byte ys')"
      using Cons.prems ys len by (simp add: append_eq_append_conv)
    then show ?case using Cons.IH ys hex_byte_inj by blast
  qed
qed simp

lemma show_int_pad: "show_int i = zero_pad 0 i"
  by (simp add: show_int_def zero_pad_def Let_def)

lemma show_int_inj: "show_int a = show_int b \<longleftrightarrow> a = b"
proof -
  have neg: "zero_pad w i \<noteq> CHR ''-'' # t" if "0 \<le> i" for w i t
  proof
    assume "zero_pad w i = CHR ''-'' # t"
    then have "is_ascii_digit (CHR ''-'')" by (intro zero_pad_digits [OF that, of _ w]) simp
    then show False by simp
  qed
  have v: "i = j" if "zero_pad w i = zero_pad w j" "0 \<le> i" "0 \<le> j" for w i j
    by (rule trans [OF zero_pad_value [OF that(2), of w, symmetric]]) (subst that(1), rule zero_pad_value [OF that(3)])
  consider "0 \<le> a" "0 \<le> b" | "0 \<le> a" "b < 0" | "a < 0" "0 \<le> b" | "a < 0" "b < 0" by linarith
  then show ?thesis
  proof cases
    case 1
    then show ?thesis using v by (auto simp: show_int_pad)
  next
    case 2
    then show ?thesis using neg [of a] by (auto simp: show_int_pad zero_pad_neg)
  next
    case 3
    then show ?thesis using neg [of b] by (auto simp: show_int_pad zero_pad_neg dest: sym)
  next
    case 4
    then show ?thesis using v [of 0 "- a" "- b"] by (auto simp: show_int_pad zero_pad_neg)
  qed
qed

lemma split_unit_eq:
  "split_unit_since_epoch u v = split_unit_since_epoch u w \<longleftrightarrow> (if u = Nanosecond then v div 1000 = w div 1000 else v = w)"
proof -
  have dm: "v div c = w div c \<and> v mod c = w mod c \<longleftrightarrow> v = w" for c v w :: int by (metis div_mult_mod_eq)
  have big: "i div 1000000000 = i div 1000 div 1000000" "i mod 1000000000 div 1000 = i div 1000 mod 1000000" for i :: int
    using zdiv_zmult2_eq [of 1000000 i 1000] zmod_zmult2_eq [of 1000000 i 1000] by simp_all
  show ?thesis
  proof (cases u)
    case Nanosecond
    then show ?thesis using dm [of "v div 1000" 1000000 "w div 1000"] by (simp add: big)
  next
    case Millisecond
    then show ?thesis using dm [of v 1000 w] by simp
  next
    case Microsecond
    then show ?thesis using dm [of v 1000000 w] by simp
  qed simp
qed

lemma timestamp_text_eq:
  "timestamp_text u v = timestamp_text u w \<longleftrightarrow> split_unit_since_epoch u v = split_unit_since_epoch u w"
proof -
  obtain s f s' f' where sp: "split_unit_since_epoch u v = (s, f)" "split_unit_since_epoch u w = (s', f')" by fastforce
  have "s = s' \<and> f = f'" if "timestamp_text u v = timestamp_text u w"
  proof -
    have "civil_from_days (s div 86400) = civil_from_days (s' div 86400)" "s mod 86400 = s' mod 86400" "f = f'"
      using that read_timestamp_text [OF sp(1)] read_timestamp_text [OF sp(2)] by simp_all
    then show ?thesis by (metis civil_inj div_mult_mod_eq)
  qed
  then show ?thesis using sp by (auto simp: timestamp_text_def)
qed

section \<open>Properties\<close>

text \<open>A date shown to a caller is the right one: day 0 is the first of January 1970, every day
  number gives a date that exists in the Gregorian calendar, and the number after it gives the
  next day, over month ends, leap years and centuries and before 1970 as well.\<close>

lemma civil_calendar:
  "civil_from_days 0 = (1970, 1, 1) \<and> valid_date (civil_from_days z)
   \<and> civil_from_days (z + 1) = next_day (civil_from_days z)"
proof -
  have "civil_from_days 0 = (1970, 1, 1)" by code_simp
  then show ?thesis using civil_valid_and_next by blast
qed

text \<open>C35. A cell is told apart from every other cell of its type: large integers, blobs, dates and
  timestamps with equal JSON are equal, but for the nanoseconds below a microsecond.\<close>

theorem cells_keep_their_value:
  "(value_to_json to_text (V_HugeInt i) = value_to_json to_text (V_HugeInt j) \<longleftrightarrow> i = j)
   \<and> (value_to_json to_text (V_Blob xs) = value_to_json to_text (V_Blob ys) \<longleftrightarrow> xs = ys)
   \<and> (value_to_json to_text (V_Date32 a) = value_to_json to_text (V_Date32 b) \<longleftrightarrow> a = b)
   \<and> (value_to_json to_text (V_Timestamp u v) = value_to_json to_text (V_Timestamp u w)
        \<longleftrightarrow> (if u = Nanosecond then v div 1000 = w div 1000 else v = w))"
proof (intro conjI)
  have "date_text a = date_text b \<longleftrightarrow> a = b" by (metis read_date_text civil_inj)
  then show "value_to_json to_text (V_Date32 a) = value_to_json to_text (V_Date32 b) \<longleftrightarrow> a = b" by simp
qed (auto simp: show_int_inj hex_inj timestamp_text_eq split_unit_eq split: if_splits)

end
