(* ===== verification/Attachers.thy ===== *)
theory Attachers
  imports Error_Mapping Redact Registry
begin

text \<open>
  Mounting an external catalog for one pull (\<open>latiq-engine-duckdb/src/attachers.rs\<close>): the load,
  secret, attach and teardown statements built from a catalog's merged parameters, and the proof
  that they say what they were built to say. Statements are read back by a lexer that knows the
  engine's string literals and quoted identifiers, the two places where a value is inserted.
\<close>

section \<open>Model\<close>

record AttachPlan =
  ap_alias :: string
  ap_namespace :: string
  ap_load :: "(string \<times> string) list"
  ap_secrets :: "(string \<times> string) list"
  ap_attach :: string

text \<open>\<open>instance::quote_ident\<close> is the same function as the node's own.\<close>

definition engine_quote_ident :: "string \<Rightarrow> string" where
  "engine_quote_ident name = [dquote] @ replace_char dquote [dquote, dquote] name @ [dquote]"

definition plan_teardown :: "AttachPlan \<Rightarrow> string list" where
  "plan_teardown p =
     (''DETACH '' @ engine_quote_ident (ap_alias p))
       # map (\<lambda>(name, _). ''DROP SECRET IF EXISTS '' @ name) (ap_secrets p)"

definition esc :: "string \<Rightarrow> string" where
  "esc v = replace_char apos [apos, apos] v"

definition lit :: "string \<Rightarrow> string" where
  "lit v = [apos] @ esc v @ [apos]"

text \<open>\<open>params.get(key).filter(|s| !s.is_empty())\<close>.\<close>

definition param :: "params \<Rightarrow> string \<Rightarrow> string option" where
  "param ps k = (case map_of ps k of Some v \<Rightarrow> if v = [] then None else Some v | None \<Rightarrow> None)"

definition strip_prefix :: "string \<Rightarrow> string \<Rightarrow> string option" where
  "strip_prefix s p = (if starts_with s p then Some (drop (length p) s) else None)"

definition s3_host :: "string \<Rightarrow> string \<times> string" where
  "s3_host ep =
     (case strip_prefix ep ''http://'' of
        Some rest \<Rightarrow> (rest, ''false'')
      | None \<Rightarrow>
          (case strip_prefix ep ''https://'' of
             Some rest \<Rightarrow> (rest, ''true'')
           | None \<Rightarrow> (ep, ''true'')))"

definition s3_lines :: "string \<Rightarrow> string \<Rightarrow> params \<Rightarrow> string list" where
  "s3_lines k s ps =
     [''TYPE s3'', ''KEY_ID '' @ lit k, ''SECRET '' @ lit s, ''URL_STYLE '' @ lit ''path'']
     @ (case param ps ''s3_region'' of Some region \<Rightarrow> [''REGION '' @ lit region] | None \<Rightarrow> [])
     @ (case param ps ''s3_endpoint'' of
          Some ep \<Rightarrow> (let (host, ssl) = s3_host ep in [''ENDPOINT '' @ lit host, ''USE_SSL '' @ ssl])
        | None \<Rightarrow> [])"

definition s3_secret_line :: "string \<Rightarrow> params \<Rightarrow> (string \<times> string) option" where
  "s3_secret_line alias ps =
     (case (param ps ''s3_access_key'', param ps ''s3_secret_key'') of
        (Some k, Some s) \<Rightarrow>
          (let name = ''_latiq_'' @ alias @ ''_s3''
           in Some (name, ''CREATE OR REPLACE SECRET '' @ name @ '' ('' @ join '', '' (s3_lines k s ps) @ '')''))
      | _ \<Rightarrow> None)"

definition ducklake :: "string \<Rightarrow> params \<Rightarrow> (string \<times> string) list \<Rightarrow> (EngineError, AttachPlan) result" where
  "ducklake alias ps load =
     (case param ps ''metadata_path'' of
        None \<Rightarrow> Err (E_MissingParameter ''ducklake catalog requires --set metadata_path=<catalog-db>'')
      | Some metadata \<Rightarrow>
          (case param ps ''data_path'' of
             None \<Rightarrow> Err (E_MissingParameter ''ducklake catalog requires --set data_path=<data-dir-or-s3-uri>'')
           | Some data_path \<Rightarrow>
               Ok \<lparr>ap_alias = alias, ap_namespace = ''ducklake:'' @ metadata, ap_load = load,
                   ap_secrets = (case s3_secret_line alias ps of Some l \<Rightarrow> [l] | None \<Rightarrow> []),
                   ap_attach = ''ATTACH '' @ [apos] @ ''ducklake:'' @ esc metadata @ [apos] @ '' AS '' @ engine_quote_ident alias
                     @ '' (DATA_PATH '' @ lit data_path @ '', READ_ONLY)''\<rparr>))"

definition iceberg :: "string \<Rightarrow> params \<Rightarrow> (string \<times> string) list \<Rightarrow> (EngineError, AttachPlan) result" where
  "iceberg alias ps load =
     (case param ps ''endpoint'' of
        None \<Rightarrow> Err (E_MissingParameter ''iceberg catalog requires --set endpoint=<rest-url>'')
      | Some endpoint \<Rightarrow>
          (let warehouse = (case param ps ''warehouse'' of Some v \<Rightarrow> v | None \<Rightarrow> ''warehouse'');
               name = ''_latiq_'' @ alias @ ''_iceberg'';
               (token_secrets, clause) =
                 (case param ps ''token'' of
                    Some tok \<Rightarrow> ([(name, ''CREATE OR REPLACE SECRET '' @ name @ '' (TYPE iceberg, TOKEN '' @ lit tok @ '')'')],
                                '', SECRET '' @ name)
                  | None \<Rightarrow> ([], '', AUTHORIZATION_TYPE none''))
           in Ok \<lparr>ap_alias = alias,
                  ap_namespace = rev (dropWhile (\<lambda>c. c = CHR ''/'') (rev endpoint)) @ ''/'' @ warehouse, ap_load = load,
                  ap_secrets = token_secrets @ (case s3_secret_line alias ps of Some l \<Rightarrow> [l] | None \<Rightarrow> []),
                  ap_attach = ''ATTACH '' @ lit warehouse @ '' AS '' @ engine_quote_ident alias
                    @ '' (TYPE iceberg, ENDPOINT '' @ lit endpoint @ clause @ '')''\<rparr>))"

definition attach_plan :: "string \<Rightarrow> string \<Rightarrow> params \<Rightarrow> (EngineError, AttachPlan) result" where
  "attach_plan ty alias ps =
     (let load = (case catalog_lookup ty of
            Some s \<Rightarrow> map (\<lambda>e. (e, ''LOAD '' @ e @ '';'')) (required_extensions s)
          | None \<Rightarrow> [])
      in if ty = ''iceberg'' then iceberg alias ps load
         else if ty = ''ducklake'' then ducklake alias ps load
         else Err (E_UnsupportedParameter
           (''unsupported catalog type '' @ quoted ty @ '' (supported: iceberg, ducklake)'')))"

section \<open>Reading statements back\<close>

datatype token = Raw char | SLit string | SIdent string | Unterminated

lemma read_quoted_length: "read_quoted q s = Some (w, r) \<Longrightarrow> length r < length s"
  by (induction q s arbitrary: w rule: read_quoted.induct) (fastforce split: if_splits)+

function sql_lex :: "string \<Rightarrow> token list" where
  "sql_lex [] = []"
| "sql_lex (c # cs) =
     (if c = apos then (case read_quoted apos cs of Some (w, r) \<Rightarrow> SLit w # sql_lex r | None \<Rightarrow> [Unterminated])
      else if c = dquote then (case read_quoted dquote cs of Some (w, r) \<Rightarrow> SIdent w # sql_lex r | None \<Rightarrow> [Unterminated])
      else Raw c # sql_lex cs)"
  by pat_completeness auto
termination
  by (relation "measure length") (auto dest!: read_quoted_length)

text \<open>Text without quotes lexes to itself, an escaped value to one literal holding it.\<close>

definition quote_free :: "string \<Rightarrow> bool" where
  "quote_free s \<longleftrightarrow> apos \<notin> set s \<and> dquote \<notin> set s"

lemma sql_lex_raw: "quote_free s \<Longrightarrow> sql_lex (s @ rest) = map Raw s @ sql_lex rest"
  by (induction s) (auto simp: quote_free_def)

lemma sql_lex_raw_end: "quote_free s \<Longrightarrow> sql_lex s = map Raw s"
  using sql_lex_raw [of s "[]"] by simp

lemma sql_lex_lit: "\<not> starts_with rest [apos] \<Longrightarrow> sql_lex (lit v @ rest) = SLit v # sql_lex rest"
  by (simp add: lit_def esc_def read_quoted_replace)

lemma sql_lex_ident: "\<not> starts_with rest [dquote] \<Longrightarrow> sql_lex (engine_quote_ident v @ rest) = SIdent v # sql_lex rest"
  by (simp add: engine_quote_ident_def read_quoted_replace)

lemma ident_chars: "is_ident s \<Longrightarrow> c \<in> set s \<Longrightarrow> is_ascii_alphanumeric c \<or> c = CHR ''_''"
  by (cases s) (auto simp: is_ident_def is_ascii_alphanumeric_def)

lemma ident_plain: "is_ident s \<Longrightarrow> quote_free s" "is_ident s \<Longrightarrow> CHR '';'' \<notin> set s"
proof -
  have no: "c \<notin> set s" if "is_ident s" "\<not> is_ascii_alphanumeric c" "c \<noteq> CHR ''_''" for c
    using ident_chars [OF that(1)] that(2,3) by blast
  show "is_ident s \<Longrightarrow> quote_free s" "is_ident s \<Longrightarrow> CHR '';'' \<notin> set s"
    unfolding quote_free_def by (intro conjI no; simp add: char_class_defs)+
qed

lemma quote_free_simps [simp]:
  "quote_free []" "quote_free (c # s) \<longleftrightarrow> c \<noteq> apos \<and> c \<noteq> dquote \<and> quote_free s"
  "quote_free (s @ t) \<longleftrightarrow> quote_free s \<and> quote_free t"
  by (auto simp: quote_free_def)

text \<open>One statement: every quote is closed and a semicolon outside quotes only ends it.\<close>

definition one_statement :: "token list \<Rightarrow> bool" where
  "one_statement ts \<longleftrightarrow> Unterminated \<notin> set ts \<and> Raw (CHR '';'') \<notin> set (butlast ts)"

definition literals :: "token list \<Rightarrow> string set" where
  "literals ts = {v. SLit v \<in> set ts}"

definition identifiers :: "token list \<Rightarrow> string set" where
  "identifiers ts = {v. SIdent v \<in> set ts}"

text \<open>A fragment of a statement: whatever follows it, if not a quote, it lexes to tokens that stay
  within the given literals and identifiers.\<close>

definition starts_quote :: "string \<Rightarrow> bool" where
  "starts_quote s \<longleftrightarrow> starts_with s [apos] \<or> starts_with s [dquote]"

definition toks_ok :: "string set \<Rightarrow> string set \<Rightarrow> token list \<Rightarrow> bool" where
  "toks_ok V A ts \<longleftrightarrow> Unterminated \<notin> set ts \<and> Raw (CHR '';'') \<notin> set ts \<and> literals ts \<subseteq> V \<and> identifiers ts \<subseteq> A"

definition frag :: "string set \<Rightarrow> string set \<Rightarrow> string \<Rightarrow> bool" where
  "frag V A s \<longleftrightarrow> (\<exists>ts. (\<forall>rest. \<not> starts_quote rest \<longrightarrow> sql_lex (s @ rest) = ts @ sql_lex rest) \<and> toks_ok V A ts)"

lemma toks_ok_append: "toks_ok V A (ts @ us) \<longleftrightarrow> toks_ok V A ts \<and> toks_ok V A us"
  by (auto simp: toks_ok_def literals_def identifiers_def)

lemma starts_quote_append [simp]: "starts_quote (c # s) \<longleftrightarrow> c = apos \<or> c = dquote" "\<not> starts_quote []"
  by (auto simp: starts_quote_def starts_with_def)

lemma frag_raw:
  assumes "quote_free a" "CHR '';'' \<notin> set a" "frag V A b"
  shows "frag V A (a @ b)"
proof -
  obtain ts where "\<And>rest. \<not> starts_quote rest \<Longrightarrow> sql_lex (b @ rest) = ts @ sql_lex rest" "toks_ok V A ts"
    using assms(3) by (auto simp: frag_def)
  moreover have "toks_ok V A (map Raw a)" using assms(2) by (auto simp: toks_ok_def literals_def identifiers_def)
  ultimately show ?thesis unfolding frag_def
    by (intro exI [where x = "map Raw a @ ts"]) (simp add: sql_lex_raw [OF assms(1)] toks_ok_append)
qed

lemma frag_append:
  assumes "frag V A a" "frag V A b" "b \<noteq> []" "\<not> starts_quote b"
  shows "frag V A (a @ b)"
proof -
  obtain ts us where "\<And>rest. \<not> starts_quote rest \<Longrightarrow> sql_lex (a @ rest) = ts @ sql_lex rest" "toks_ok V A ts"
    "\<And>rest. \<not> starts_quote rest \<Longrightarrow> sql_lex (b @ rest) = us @ sql_lex rest" "toks_ok V A us"
    using assms(1,2) by (auto simp: frag_def)
  moreover have "\<not> starts_quote (b @ rest)" for rest using assms(3,4) by (cases b) auto
  ultimately show ?thesis unfolding frag_def
    by (intro exI [where x = "ts @ us"]) (simp add: toks_ok_append)
qed

lemma frag_Nil: "frag V A []"
  unfolding frag_def by (intro exI [where x = "[]"]) (simp add: toks_ok_def literals_def identifiers_def)

lemma frag_end: "quote_free a \<Longrightarrow> CHR '';'' \<notin> set a \<Longrightarrow> frag V A a"
  using frag_raw [of a V A "[]"] frag_Nil by simp

lemma frag_lit: "v \<in> V \<Longrightarrow> frag V A (lit v)"
  unfolding frag_def by (intro exI [where x = "[SLit v]"])
    (auto simp: sql_lex_lit starts_quote_def toks_ok_def literals_def identifiers_def)

lemma frag_ident: "v \<in> A \<Longrightarrow> frag V A (engine_quote_ident v)"
  unfolding frag_def by (intro exI [where x = "[SIdent v]"])
    (auto simp: sql_lex_ident starts_quote_def toks_ok_def literals_def identifiers_def)

lemma frag_join:
  assumes "\<forall>x \<in> set xs. frag V A x"
  shows "frag V A (join '', '' xs)"
  using assms
proof (induction "'', ''" xs rule: join.induct)
  case (3 x y xs)
  have "frag V A ('', '' @ join '', '' (y # xs))" using 3 by (intro frag_raw) auto
  then show ?case using 3(2) frag_append [of V A x "'', '' @ join '', '' (y # xs)"] by simp
qed (auto intro: frag_end)

lemma frag_lex:
  assumes "frag V A s"
  shows "one_statement (sql_lex s) \<and> literals (sql_lex s) \<subseteq> V \<and> identifiers (sql_lex s) \<subseteq> A"
proof -
  obtain ts where ts: "\<forall>rest. \<not> starts_quote rest \<longrightarrow> sql_lex (s @ rest) = ts @ sql_lex rest" "toks_ok V A ts"
    using assms unfolding frag_def by (elim exE conjE)
  have "sql_lex s = ts" using ts(1) [rule_format, of "[]"] by simp
  then show ?thesis using ts(2) by (auto simp: one_statement_def toks_ok_def dest: in_set_butlastD)
qed

section \<open>The statements of a plan\<close>

text \<open>The values a statement may hold: parameters, with the prefix of a DuckLake locator or without
  the scheme of an S3 endpoint, and two constants.\<close>

definition given :: "params \<Rightarrow> string set" where
  "given ps = {''path'', ''warehouse''}
     \<union> {v. \<exists>k x. map_of ps k = Some x \<and> (v = x \<or> v = ''ducklake:'' @ x \<or> v = fst (s3_host x))}"

lemma given_param: "param ps k = Some v \<Longrightarrow> v \<in> given ps \<and> ''ducklake:'' @ v \<in> given ps \<and> fst (s3_host v) \<in> given ps"
  by (auto simp: given_def param_def split: option.splits if_splits)

lemma given_consts [simp]: "''path'' \<in> given ps" "''warehouse'' \<in> given ps"
  by (simp_all add: given_def)

lemma lit_ne [simp]: "lit v \<noteq> []" "engine_quote_ident v \<noteq> []"
  by (simp_all add: lit_def engine_quote_ident_def)

lemma s3_ssl: "snd (s3_host ep) = ''true'' \<or> snd (s3_host ep) = ''false''"
  by (simp add: s3_host_def split: option.splits)

lemma frag_s3_lines:
  assumes "k \<in> given ps" "s \<in> given ps"
  shows "\<forall>x \<in> set (s3_lines k s ps). frag (given ps) A x"
proof -
  have kw: "quote_free a \<Longrightarrow> CHR '';'' \<notin> set a \<Longrightarrow> v \<in> given ps \<Longrightarrow> frag (given ps) A (a @ lit v)" for a v
    by (intro frag_raw frag_lit)
  have ssl: "frag (given ps) A (''USE_SSL '' @ snd (s3_host ep))" for ep
    using s3_ssl [of ep] by (elim disjE) (simp_all add: frag_end)
  have ssl': "s3_host ep = (h, b) \<Longrightarrow> frag (given ps) A (''USE_SSL '' @ b)" for ep h b using ssl [of ep] by simp
  have host: "param ps ''s3_endpoint'' = Some ep \<Longrightarrow> s3_host ep = (h, b) \<Longrightarrow> h \<in> given ps" for ep h b
    using given_param [of ps _ ep] by fastforce
  show ?thesis unfolding s3_lines_def set_append ball_Un
  proof (intro conjI)
    show "\<forall>x \<in> set [''TYPE s3'', ''KEY_ID '' @ lit k, ''SECRET '' @ lit s, ''URL_STYLE '' @ lit ''path'']. frag (given ps) A x"
      unfolding list.set ball_simps by (intro conjI kw assms given_consts TrueI; simp add: frag_end)
    show "\<forall>x \<in> set (case param ps ''s3_region'' of Some region \<Rightarrow> [''REGION '' @ lit region] | None \<Rightarrow> []). frag (given ps) A x"
      using kw [of "''REGION ''"] given_param [of ps "''s3_region''"] by (cases "param ps ''s3_region''") simp_all
    show "\<forall>x \<in> set (case param ps ''s3_endpoint'' of
        Some ep \<Rightarrow> (let (host, ssl) = s3_host ep in [''ENDPOINT '' @ lit host, ''USE_SSL '' @ ssl]) | None \<Rightarrow> []). frag (given ps) A x"
    proof (cases "param ps ''s3_endpoint''")
      case (Some ep)
      obtain h b where hb: "s3_host ep = (h, b)" by (cases "s3_host ep")
      show ?thesis using kw [of "''ENDPOINT ''" h] ssl' [OF hb] host [OF Some hb] Some hb by simp
    qed simp
  qed
qed

lemma frag_s3_secret:
  assumes "s3_secret_line alias ps = Some (n, s)" "is_ident alias"
  shows "frag (given ps) A s" and "n = ''_latiq_'' @ alias @ ''_s3''"
proof -
  obtain k sec where p: "param ps ''s3_access_key'' = Some k" "param ps ''s3_secret_key'' = Some sec"
    and n: "n = ''_latiq_'' @ alias @ ''_s3''"
    and s: "s = (''CREATE OR REPLACE SECRET '' @ n @ '' ('') @ join '', '' (s3_lines k sec ps) @ '')''"
    using assms(1) by (auto simp: s3_secret_line_def Let_def split: option.splits)
  have "frag (given ps) A (join '', '' (s3_lines k sec ps) @ '')'')"
    using given_param [OF p(1)] given_param [OF p(2)] by (intro frag_append frag_join frag_s3_lines frag_end) auto
  moreover have "quote_free (''CREATE OR REPLACE SECRET '' @ n @ '' ('')" "CHR '';'' \<notin> set (''CREATE OR REPLACE SECRET '' @ n @ '' ('')"
    using ident_plain [OF assms(2)] by (auto simp: n)
  ultimately show "frag (given ps) A s" unfolding s by (intro frag_raw [where b = "join '', '' (s3_lines k sec ps) @ '')''"])
  show "n = ''_latiq_'' @ alias @ ''_s3''" by (rule n)
qed

lemma frag_wrap:
  assumes "quote_free a" "CHR '';'' \<notin> set a" "frag V A b" "quote_free c" "CHR '';'' \<notin> set c" "c \<noteq> []"
  shows "frag V A (a @ b @ c)"
proof -
  have "\<not> starts_quote c" using assms(4) by (cases c) auto
  from frag_raw [OF assms(1,2) frag_append [OF assms(3) frag_end [OF assms(4,5)] assms(6) this]] show ?thesis .
qed

lemma plan_alias: "attach_plan ty alias ps = Ok p \<Longrightarrow> ap_alias p = alias"
  by (auto simp: attach_plan_def iceberg_def ducklake_def Let_def split: if_splits option.splits prod.splits)

lemma frag_secrets:
  assumes "attach_plan ty alias ps = Ok p" "is_ident alias" "(n, s) \<in> set (ap_secrets p)"
  shows "frag (given ps) A s" and "n = ''_latiq_'' @ alias @ ''_s3'' \<or> n = ''_latiq_'' @ alias @ ''_iceberg''"
proof -
  have tok: "frag (given ps) A (''CREATE OR REPLACE SECRET _latiq_'' @ alias @ ''_iceberg (TYPE iceberg, TOKEN '' @ lit tok @ '')'')"
    if "param ps ''token'' = Some tok" for tok
    using frag_wrap [of "''CREATE OR REPLACE SECRET _latiq_'' @ alias @ ''_iceberg (TYPE iceberg, TOKEN ''" "given ps" A "lit tok" "'')''"]
      ident_plain [OF assms(2)] given_param [OF that] by (simp add: frag_lit)
  have "(n, s) \<in> set (case s3_secret_line alias ps of Some l \<Rightarrow> [l] | None \<Rightarrow> []) \<or>
    (\<exists>tok. param ps ''token'' = Some tok \<and> n = ''_latiq_'' @ alias @ ''_iceberg'' \<and>
       s = ''CREATE OR REPLACE SECRET _latiq_'' @ alias @ ''_iceberg (TYPE iceberg, TOKEN '' @ lit tok @ '')'')"
    using assms(1,3)
    by (auto simp: attach_plan_def iceberg_def ducklake_def Let_def split: if_splits option.splits prod.splits)
  then have "frag (given ps) A s \<and> (n = ''_latiq_'' @ alias @ ''_s3'' \<or> n = ''_latiq_'' @ alias @ ''_iceberg'')"
    using tok frag_s3_secret [OF _ assms(2), of ps n s] by (cases "s3_secret_line alias ps") auto
  then show "frag (given ps) A s" "n = ''_latiq_'' @ alias @ ''_s3'' \<or> n = ''_latiq_'' @ alias @ ''_iceberg''" by blast+
qed

lemma frag_attach_shape:
  assumes "v \<in> V" "w \<in> V" "quote_free c" "CHR '';'' \<notin> set c" "quote_free b" "CHR '';'' \<notin> set b" "b \<noteq> []" "c \<noteq> []"
  shows "frag V {al} (''ATTACH '' @ lit v @ '' AS '' @ engine_quote_ident al @ b @ lit w @ c)"
proof -
  have 1: "frag V {al} (b @ lit w @ c)" using assms by (intro frag_wrap frag_lit)
  have nb: "\<not> starts_quote (b @ x)" for x using assms(5,7) by (cases b) auto
  have 2: "frag V {al} (engine_quote_ident al @ b @ lit w @ c)"
    using frag_append [OF frag_ident 1 _ nb] assms(7) by simp
  have 3: "frag V {al} ('' AS '' @ engine_quote_ident al @ b @ lit w @ c)" by (rule frag_raw [OF _ _ 2]) simp_all
  have 4: "frag V {al} (lit v @ '' AS '' @ engine_quote_ident al @ b @ lit w @ c)"
    using assms(1) by (intro frag_append [OF _ 3] frag_lit) simp_all
  show ?thesis by (rule frag_raw [OF _ _ 4]) simp_all
qed

lemma frag_attach:
  assumes "attach_plan ty alias ps = Ok p" "is_ident alias"
  shows "frag (given ps) {alias} (ap_attach p)"
proof -
  have d: "frag (given ps) {alias} (ap_attach q)" if dk: "ducklake alias ps load = Ok q" for q load
  proof -
    obtain m d where md: "param ps ''metadata_path'' = Some m" "param ps ''data_path'' = Some d"
      using dk by (cases "param ps ''metadata_path''"; cases "param ps ''data_path''") (auto simp: ducklake_def)
    have a: "ap_attach q = ''ATTACH '' @ lit (''ducklake:'' @ m) @ '' AS '' @ engine_quote_ident alias
         @ '' (DATA_PATH '' @ lit d @ '', READ_ONLY)''"
      using dk md by (auto simp: ducklake_def lit_def esc_def)
    show ?thesis unfolding a using given_param [OF md(1)] given_param [OF md(2)] by (intro frag_attach_shape) simp_all
  qed
  have i: "frag (given ps) {alias} (ap_attach q)" if ib: "iceberg alias ps load = Ok q" for q load
  proof -
    obtain e where e: "param ps ''endpoint'' = Some e" using ib by (auto simp: iceberg_def split: option.splits)
    define w c where "w = (case param ps ''warehouse'' of Some v \<Rightarrow> v | None \<Rightarrow> ''warehouse'')"
      and "c = (case param ps ''token'' of Some _ \<Rightarrow> '', SECRET _latiq_'' @ alias @ ''_iceberg'' | None \<Rightarrow> '', AUTHORIZATION_TYPE none'') @ '')''"
    have w: "w \<in> given ps" using given_param [of ps "''warehouse''"] by (auto simp: w_def split: option.splits)
    have c: "quote_free c" "CHR '';'' \<notin> set c" "c \<noteq> []" using ident_plain [OF assms(2)] by (auto simp: c_def split: option.splits)
    have "ap_attach q = ''ATTACH '' @ lit w @ '' AS '' @ engine_quote_ident alias @ '' (TYPE iceberg, ENDPOINT '' @ lit e @ c"
      using ib e by (auto simp: iceberg_def Let_def w_def c_def split: option.splits prod.splits)
    then show ?thesis using w c given_param [OF e] by (simp only:) (intro frag_attach_shape; simp)
  qed
  show ?thesis using assms(1) d i by (auto simp: attach_plan_def Let_def split: if_splits)
qed

lemma plan_loads:
  assumes "attach_plan ty alias ps = Ok p"
  shows "\<exists>spec. catalog_lookup ty = Some spec \<and> ap_load p = map (\<lambda>e. (e, ''LOAD '' @ e @ '';'')) (required_extensions spec)"
proof -
  have "ty = ''iceberg'' \<or> ty = ''ducklake''" using assms by (auto simp: attach_plan_def Let_def split: if_splits)
  then have "\<exists>spec. catalog_lookup ty = Some spec" by (auto simp: catalog_lookup_def catalog_TYPES_def)
  then show ?thesis using assms
    by (auto simp: attach_plan_def iceberg_def ducklake_def Let_def split: if_splits option.splits prod.splits)
qed

lemma load_one_statement:
  assumes "attach_plan ty alias ps = Ok p" "(e, s) \<in> set (ap_load p)"
  shows "one_statement (sql_lex s) \<and> literals (sql_lex s) = {} \<and> identifiers (sql_lex s) = {}"
proof -
  have "e \<in> {''iceberg'', ''httpfs'', ''ducklake''} \<and> s = ''LOAD '' @ e @ '';''"
    using plan_loads [OF assms(1)] assms(2) by (auto simp: catalog_lookup_def catalog_TYPES_def split: if_splits)
  then show ?thesis by (auto simp: one_statement_def literals_def identifiers_def)
qed

lemma frag_teardown:
  assumes "attach_plan ty alias ps = Ok p" "is_ident alias" "s \<in> set (plan_teardown p)"
  shows "frag (given ps) {alias} s"
proof -
  have det: "frag (given ps) {alias} (''DETACH '' @ engine_quote_ident alias)" by (intro frag_raw frag_ident) simp_all
  have drp: "frag (given ps) {alias} (''DROP SECRET IF EXISTS '' @ n)" if "(n, t) \<in> set (ap_secrets p)" for n t
    using frag_secrets(2) [OF assms(1,2) that] ident_plain [OF assms(2)] by (intro frag_end) auto
  show ?thesis using assms(3) det drp by (auto simp: plan_teardown_def plan_alias [OF assms(1)])
qed

section \<open>Properties\<close>

definition plan_statements :: "AttachPlan \<Rightarrow> string list" where
  "plan_statements p = map snd (ap_load p) @ map snd (ap_secrets p) @ ap_attach p # plan_teardown p"

text \<open>C38. No value a caller supplies for a catalog changes the statements that mount it: with a
  catalog name the registry accepts, each statement of the plan is one statement, its string
  literals are the parameters themselves and its quoted identifiers the catalog's name, whatever
  quotes and semicolons keys, tokens, paths and endpoints contain.\<close>

theorem attach_statements_are_injection_free:
  assumes "attach_plan ty alias ps = Ok p" "is_ident alias" "s \<in> set (plan_statements p)"
  shows "one_statement (sql_lex s) \<and> literals (sql_lex s) \<subseteq> given ps \<and> identifiers (sql_lex s) \<subseteq> {alias}"
proof -
  consider e where "(e, s) \<in> set (ap_load p)" | n where "(n, s) \<in> set (ap_secrets p)" | "s = ap_attach p" | "s \<in> set (plan_teardown p)"
    using assms(3) by (auto simp: plan_statements_def)
  then show ?thesis
  proof cases
    case 1
    then show ?thesis using load_one_statement [OF assms(1)] by blast
  next
    case 2
    then show ?thesis using frag_lex frag_secrets(1) [OF assms(1,2)] by blast
  next
    case 3
    then show ?thesis using frag_lex frag_attach [OF assms(1,2)] by blast
  next
    case 4
    then show ?thesis using frag_lex frag_teardown [OF assms(1,2)] by blast
  qed
qed

theorem attach_statements_are_injection_free_witness:
  "let ps = [(''endpoint'', ''https://x''), (''token'', [apos] @ ''); DROP'')] in
   \<exists>p s. attach_plan ''iceberg'' ''lake'' ps = Ok p \<and> is_ident ''lake'' \<and> s \<in> set (plan_statements p)
     \<and> one_statement (sql_lex s) \<and> s = ''CREATE OR REPLACE SECRET _latiq_lake_iceberg (TYPE iceberg, TOKEN '' @ [apos, apos, apos] @ ''); DROP'' @ [apos] @ '')''"
proof -
  let ?ps = "[(''endpoint'', ''https://x''), (''token'', [apos] @ ''); DROP'')]"
  let ?s = "''CREATE OR REPLACE SECRET _latiq_lake_iceberg (TYPE iceberg, TOKEN '' @ [apos, apos, apos] @ ''); DROP'' @ [apos] @ '')''"
  obtain p where p: "attach_plan ''iceberg'' ''lake'' ?ps = Ok p" "?s \<in> set (plan_statements p)"
    by (simp add: attach_plan_def iceberg_def param_def s3_secret_line_def plan_statements_def lit_def esc_def Let_def)
  have i: "is_ident ''lake''" by (simp add: is_ident_def char_class_defs)
  show ?thesis unfolding Let_def using p i attach_statements_are_injection_free [OF p(1) i p(2)] by blast
qed

text \<open>Which parameters a plan needs, and when credentials travel without encryption.\<close>

lemma plan_accepts:
  "is_ok (attach_plan ty alias ps) \<longleftrightarrow>
     ty = ''iceberg'' \<and> param ps ''endpoint'' \<noteq> None
   \<or> ty = ''ducklake'' \<and> param ps ''metadata_path'' \<noteq> None \<and> param ps ''data_path'' \<noteq> None"
  by (auto simp: attach_plan_def iceberg_def ducklake_def Let_def split: option.splits prod.splits)

lemma plaintext_only_when_asked: "snd (s3_host ep) = ''false'' \<longleftrightarrow> starts_with ep ''http://''"
  by (auto simp: s3_host_def strip_prefix_def split: option.splits)

end
