(* ===== verification/Pond_Instance.thy ===== *)
theory Pond_Instance
  imports Engine_Values Attachers Storage
begin

text \<open>
  The engine's connections (\<open>latiq-engine-duckdb/src/instance.rs\<close>): what opening a pond's database
  runs, the read connections cloned from it, and the extension cache that makes every load work
  without a download.

  The database is a parameter: a record of the calls the sources make on a connection, whose state
  is threaded through. \<open>d_exec\<close> is \<open>execute_batch\<close>, \<open>d_query\<close> prepares and runs a statement and
  gives the column names with the rows or the errors met while fetching them, \<open>d_int\<close> fetches
  one number that may be null, \<open>d_bound\<close> runs a query with one bound text and fetches one text.
\<close>

section \<open>The connection\<close>

type_synonym cells = "(string, duck) result list"

record 'c duckdb =
  d_exec :: "string \<Rightarrow> 'c \<Rightarrow> (string, unit) result \<times> 'c"
  d_query :: "string \<Rightarrow> 'c \<Rightarrow> (string, string list \<times> (string, cells) result list) result \<times> 'c"
  d_int :: "string \<Rightarrow> 'c \<Rightarrow> (string, int option) result \<times> 'c"
  d_bound :: "string \<Rightarrow> string \<Rightarrow> 'c \<Rightarrow> (string, string option) result \<times> 'c"

text \<open>A sequence of statements, each with what its failure becomes; the first failure ends it.\<close>

type_synonym step = "string \<times> (string \<Rightarrow> EngineError)"

fun run_steps :: "'c duckdb \<Rightarrow> step list \<Rightarrow> 'c \<Rightarrow> (EngineError, unit) result \<times> 'c" where
  "run_steps db [] c = (Ok (), c)"
| "run_steps db ((s, err) # steps) c =
     (case d_exec db s c of (Inl e, c') \<Rightarrow> (Err (err e), c') | (Inr _, c') \<Rightarrow> run_steps db steps c')"

section \<open>Extensions\<close>

definition STANDARD_LOAD :: "string list" where
  "STANDARD_LOAD = [''ducklake'', ''httpfs'', ''icu'']"

fun install_standard :: "'c duckdb \<Rightarrow> string list \<Rightarrow> 'c \<Rightarrow> (string, unit) result" where
  "install_standard db [] c = Ok ()"
| "install_standard db (ext # exts) c =
     (case d_exec db (''INSTALL '' @ ext @ ''; LOAD '' @ ext @ '';'') c of
        (Inl e, _) \<Rightarrow> Err (''required extension '' @ quoted ext @ '': '' @ e)
      | (Inr _, c') \<Rightarrow> install_standard db exts c')"

text \<open>The result is computed once and kept: \<open>memo\<close> is the cell it is kept in, \<open>opened\<close> what opening
  the connection gives.\<close>

definition ensure_standard_extensions ::
  "'c duckdb \<Rightarrow> (string, 'c) result \<Rightarrow> (string, unit) result option \<Rightarrow> (EngineError, unit) result \<times> (string, unit) result option" where
  "ensure_standard_extensions db opened memo =
     (let r = (case memo of
          Some r \<Rightarrow> r
        | None \<Rightarrow> (case opened of Inl e \<Rightarrow> Err e | Inr c \<Rightarrow> install_standard db STANDARD_LOAD c))
      in (map_err E_Engine r, Some r))"

definition warmable_extensions :: "string list" where
  "warmable_extensions = foldl push_new STANDARD_LOAD (OPTIONAL @ CATALOG_DRIVEN)"

record WarmReport =
  attempted :: "string list"
  failed :: "(string \<times> string) list"

definition is_complete :: "WarmReport \<Rightarrow> bool" where
  "is_complete r \<longleftrightarrow> attempted r \<noteq> [] \<and> failed r = []"

definition failure_summary :: "WarmReport \<Rightarrow> string" where
  "failure_summary r =
     (if attempted r = [] then
        ''warmed 0 extensions: there was nothing to warm, which cannot be right -- '' @
        ''a node with an empty extension cache cannot open a pond''
      else
        show_nat (length (failed r)) @ '' of '' @ show_nat (length (attempted r)) @
        '' DuckDB extensions are not usable offline on this node: '' @
        join ''; '' (map (\<lambda>(ext, why). ext @ '' ('' @ why @ '')'') (failed r)) @
        ''. Every LOAD site runs with autoinstall off, so these will fail the pond or the '' @
        ''catalog attach that needs them rather than downloading. Re-run '' @
        ''`latiq warm-extensions` with network access (the container image bakes the same '' @
        ''step in at build time).'')"

definition warm_open :: "'c duckdb \<Rightarrow> (string, 'c) result \<Rightarrow> string option \<Rightarrow> bool \<Rightarrow> (string, 'c) result" where
  "warm_open db opened dir autoinstall =
     (case opened of
        Inl e \<Rightarrow> Err e
      | Inr c \<Rightarrow>
          (case (case dir of None \<Rightarrow> (Ok (), c)
                 | Some d \<Rightarrow> d_exec db (''SET extension_directory='' @ lit d @ '';'') c) of
             (Inl e, _) \<Rightarrow> Err e
           | (Inr _, c1) \<Rightarrow>
               (if autoinstall then Ok c1
                else case d_exec db ''SET autoinstall_known_extensions=false;'' c1 of
                       (Inl e, _) \<Rightarrow> Err e | (Inr _, c2) \<Rightarrow> Ok c2)))"

text \<open>The two passes over the extensions; the second skips what the first could not install.\<close>

fun install_pass :: "'c duckdb \<Rightarrow> string list \<Rightarrow> 'c \<Rightarrow> (string \<times> string) list" where
  "install_pass db [] c = []"
| "install_pass db (ext # exts) c =
     (case d_exec db (''INSTALL '' @ ext @ '';'') c of
        (Inl e, c') \<Rightarrow> (ext, ''INSTALL failed: '' @ e) # install_pass db exts c'
      | (Inr _, c') \<Rightarrow> install_pass db exts c')"

fun verify_pass :: "'c duckdb \<Rightarrow> string list \<Rightarrow> (string \<times> string) list \<Rightarrow> 'c \<Rightarrow> (string \<times> string) list" where
  "verify_pass db [] bad c = bad"
| "verify_pass db (ext # exts) bad c =
     (if ext \<in> fst ` set bad then verify_pass db exts bad c
      else case d_exec db (''LOAD '' @ ext @ '';'') c of
             (Inl e, c') \<Rightarrow> verify_pass db exts (bad @ [(ext, ''installed, but will not LOAD offline: '' @ e)]) c'
           | (Inr _, c') \<Rightarrow> verify_pass db exts bad c')"

definition warm_extension_cache :: "'c duckdb \<Rightarrow> (string, 'c) result \<Rightarrow> (string, 'c) result \<Rightarrow> string option \<Rightarrow> WarmReport" where
  "warm_extension_cache db opened1 opened2 dir =
     (case warm_open db opened1 dir True of
        Inl e \<Rightarrow> \<lparr>attempted = warmable_extensions, failed = map (\<lambda>ext. (ext, e)) warmable_extensions\<rparr>
      | Inr c \<Rightarrow>
          (let bad = install_pass db warmable_extensions c
           in \<lparr>attempted = warmable_extensions,
               failed = (case warm_open db opened2 dir False of
                   Inr v \<Rightarrow> verify_pass db warmable_extensions bad v
                 | Inl e \<Rightarrow> bad @ [(''<verify>'', ''could not open a verify connection: '' @ e)])\<rparr>))"

definition extension_not_cached :: "string \<Rightarrow> string \<Rightarrow> string \<Rightarrow> EngineError" where
  "extension_not_cached ext ctxt err =
     E_CapabilityUnavailable
       (''The DuckDB extension '' @ quoted ext @ '' ('' @ ctxt @ '') is not cached on this node, and '' @
        ''nothing the caller sends changes this -- extension downloads are disabled while '' @
        ''serving requests. An operator restores it by running `latiq warm-extensions` on the '' @
        ''node with network access (the container image bakes the same step in at build time), '' @
        ''then restarting the node. Underlying error: '' @ err)
       ext"

section \<open>Opening a pond\<close>

definition cap_steps :: "ResourceLimits option \<Rightarrow> step list" where
  "cap_steps lim = (case lim of None \<Rightarrow> []
     | Some l \<Rightarrow> [(''SET memory_limit='' @ [apos] @ show_nat (unat (memory_bytes l) div (1024 * 1024)) @ ''MiB'' @ [apos] @
          ''; SET threads='' @ show_nat (max (unat (cores l)) 1) @ '';'',
          \<lambda>e. E_Engine (''set resource limits: '' @ e))])"

definition no_autoinstall :: step where
  "no_autoinstall = (''SET autoinstall_known_extensions=false;'', \<lambda>e. E_Engine (''disable extension autoinstall: '' @ e))"

definition load_step :: "string \<Rightarrow> string \<Rightarrow> step" where
  "load_step ctxt ext = (''LOAD '' @ ext @ '';'', extension_not_cached ext ctxt)"

definition attach_step :: "PondLocation \<Rightarrow> step" where
  "attach_step loc =
     (''ATTACH '' @ [apos] @ catalog_uri loc @ [apos] @ '' AS '' @ engine_quote_ident (catalog_name loc) @
      '' (DATA_PATH '' @ [apos] @ data_path loc @ [apos] @ '');'',
      \<lambda>e. E_Engine (''attach: '' @ e))"

definition open_before :: "PondLocation \<Rightarrow> step list" where
  "open_before loc = cap_steps (limits loc) @ [no_autoinstall]"

definition open_after :: "PondLocation \<Rightarrow> step list" where
  "open_after loc =
     map (load_step ''required by every pond on this node'') STANDARD_LOAD
     @ [(''SET TimeZone='' @ [apos] @ ''UTC'' @ [apos] @ '';'', \<lambda>e. E_Engine (''set timezone: '' @ e)),
        (''SET force_download=true;'', \<lambda>e. E_Engine (''set force_download: '' @ e))]
     @ map (load_step ''requested by this pond at allocation'') (loc_extensions loc)
     @ [attach_step loc]"

definition use_statement :: "string \<Rightarrow> string" where
  "use_statement alias = ''USE '' @ alias @ '';''"

text \<open>An open instance is its connection and the quoted alias. \<open>std\<close> is the outcome of
  \<open>ensure_standard_extensions\<close>.\<close>

definition instance_open :: "'c duckdb \<Rightarrow> (string, 'c) result \<Rightarrow> (EngineError, unit) result \<Rightarrow> PondLocation
    \<Rightarrow> (EngineError, 'c \<times> string) result" where
  "instance_open db opened std loc =
     (case opened of
        Inl e \<Rightarrow> Err (E_Engine e)
      | Inr c \<Rightarrow>
          (case run_steps db (open_before loc) c of
             (Inl e, _) \<Rightarrow> Err e
           | (Inr _, c1) \<Rightarrow>
               (case std of
                  Inl e \<Rightarrow> Err e
                | Inr _ \<Rightarrow>
                    (case run_steps db (open_after loc) c1 of
                       (Inl e, _) \<Rightarrow> Err e
                     | (Inr _, c2) \<Rightarrow>
                         (let alias = engine_quote_ident (catalog_name loc)
                          in Ok (snd (d_exec db (use_statement alias) c2), alias))))))"

definition clone_steps :: "string \<Rightarrow> step list" where
  "clone_steps alias =
     [(''SET TimeZone='' @ [apos] @ ''UTC'' @ [apos] @ ''; SET force_download=true;'', \<lambda>e. E_Engine (''read connection settings: '' @ e)),
      (use_statement alias, \<lambda>e. E_Engine (''read connection USE: '' @ e))]"

definition clone_for_read :: "'c duckdb \<Rightarrow> (string, 'c) result \<Rightarrow> string \<Rightarrow> (EngineError, 'c \<times> string) result" where
  "clone_for_read db cloned alias =
     (case cloned of
        Inl e \<Rightarrow> Err (E_Engine (''clone read connection: '' @ e))
      | Inr c \<Rightarrow> (case run_steps db (clone_steps alias) c of (Inl e, _) \<Rightarrow> Err e | (Inr _, c') \<Rightarrow> Ok (c', alias)))"

section \<open>Lemmas\<close>

lemma warmable_eq:
  "warmable_extensions = [''ducklake'', ''httpfs'', ''icu'', ''spatial'', ''fts'', ''inet'', ''iceberg'', ''avro'']"
  by (simp add: warmable_extensions_def STANDARD_LOAD_def OPTIONAL_eq CATALOG_DRIVEN_eq push_new_def)

lemma OPTIONAL_warm: "set OPTIONAL \<subseteq> set warmable_extensions"
  by (simp add: warmable_eq OPTIONAL_eq)

text \<open>Statements that all succeed, one after the other.\<close>

definition all_ok :: "'c duckdb \<Rightarrow> string list \<Rightarrow> 'c \<Rightarrow> bool" where
  "all_ok db ss c \<longleftrightarrow> is_ok (fst (run_steps db (map (\<lambda>s. (s, E_Engine)) ss) c))"

lemma all_ok_simps [simp]:
  "all_ok db [] c" "all_ok db (s # ss) c \<longleftrightarrow> is_ok (fst (d_exec db s c)) \<and> all_ok db ss (snd (d_exec db s c))"
  by (auto simp: all_ok_def split: prod.split sum.split)

lemma install_pass_Nil: "install_pass db exts c = [] \<longleftrightarrow> all_ok db (map (\<lambda>e. ''INSTALL '' @ e @ '';'') exts) c"
  by (induction exts arbitrary: c) (auto split: prod.split sum.split)

lemma verify_pass_keeps: "set bad \<subseteq> set (verify_pass db exts bad c)"
proof (induction exts arbitrary: bad c)
  case (Cons e exts)
  obtain r c' where x: "d_exec db (''LOAD '' @ e @ '';'') c = (r, c')" by (cases "d_exec db (''LOAD '' @ e @ '';'') c")
  show ?case
  proof (cases "e \<in> fst ` set bad")
    case True
    then show ?thesis using Cons [of bad c] by simp
  next
    case False
    show ?thesis
    proof (cases r)
      case (Inl err)
      then show ?thesis using False x Cons [of "bad @ [(e, ''installed, but will not LOAD offline: '' @ err)]" c'] by simp
    next
      case (Inr u)
      then show ?thesis using False x Cons [of bad c'] by simp
    qed
  qed
qed simp

lemma verify_pass_Nil: "verify_pass db exts [] c = [] \<longleftrightarrow> all_ok db (map (\<lambda>e. ''LOAD '' @ e @ '';'') exts) c"
proof (induction exts arbitrary: c)
  case (Cons e exts)
  obtain r c' where x: "d_exec db (''LOAD '' @ e @ '';'') c = (r, c')" by (cases "d_exec db (''LOAD '' @ e @ '';'') c")
  show ?case
  proof (cases r)
    case (Inl err)
    have "verify_pass db exts [(e, ''installed, but will not LOAD offline: '' @ err)] c' \<noteq> []"
      using verify_pass_keeps [of "[(e, ''installed, but will not LOAD offline: '' @ err)]" db exts c'] by auto
    then show ?thesis using x Inl by simp
  qed (use x Cons in simp)
qed simp

text \<open>A warm counts as complete exactly when everything was installed and loads back with
  downloads switched off.\<close>

lemma warm_complete_iff:
  "is_complete (warm_extension_cache db opened1 opened2 dir) \<longleftrightarrow>
     (\<exists>c v. warm_open db opened1 dir True = Ok c \<and> warm_open db opened2 dir False = Ok v
        \<and> all_ok db (map (\<lambda>e. ''INSTALL '' @ e @ '';'') warmable_extensions) c
        \<and> all_ok db (map (\<lambda>e. ''LOAD '' @ e @ '';'') warmable_extensions) v)"
proof (cases "warm_open db opened1 dir True")
  case (Inr c)
  let ?bad = "install_pass db warmable_extensions c"
  have ne: "warmable_extensions \<noteq> []" by (simp add: warmable_eq)
  have k: "?bad = []" if "verify_pass db warmable_extensions ?bad v = []" for v
    using verify_pass_keeps [of ?bad db warmable_extensions v] that by simp
  show ?thesis
  proof (cases "warm_open db opened2 dir False")
    case (Inl e)
    then show ?thesis using Inr by (simp add: warm_extension_cache_def is_complete_def Let_def)
  next
    case (Inr v)
    have "is_complete (warm_extension_cache db opened1 opened2 dir) \<longleftrightarrow> verify_pass db warmable_extensions ?bad v = []"
      using \<open>warm_open db opened1 dir True = Ok c\<close> Inr ne by (simp add: warm_extension_cache_def is_complete_def Let_def)
    also have "\<dots> \<longleftrightarrow> ?bad = [] \<and> verify_pass db warmable_extensions [] v = []" using k [of v] by auto
    finally show ?thesis using \<open>warm_open db opened1 dir True = Ok c\<close> Inr by (simp add: install_pass_Nil verify_pass_Nil)
  qed
next
  case (Inl e)
  then show ?thesis by (simp add: warm_extension_cache_def is_complete_def warmable_eq)
qed

lemma open_split:
  "map fst (open_before loc @ open_after loc) = map fst (cap_steps (limits loc)) @ fst no_autoinstall # map fst (open_after loc)"
  by (simp add: open_before_def)

lemma caps_no_load: "s \<in> set (map fst (cap_steps lim)) \<Longrightarrow> \<not> starts_with s ''LOAD '' \<and> \<not> starts_with s ''INSTALL ''"
  by (auto simp: cap_steps_def starts_with_def split: option.splits)

lemma after_loads:
  assumes "s \<in> set (map fst (open_after loc))"
  shows "\<not> starts_with s ''INSTALL '' \<and> (starts_with s ''LOAD '' \<longrightarrow> (\<exists>e \<in> set STANDARD_LOAD \<union> set (loc_extensions loc). s = ''LOAD '' @ e @ '';''))"
  using assms by (auto simp: open_after_def load_step_def attach_step_def starts_with_def)

lemma plan_loads_warm:
  assumes "attach_plan ty alias ps = Ok p"
  shows "fst ` set (ap_load p) \<subseteq> set warmable_extensions"
  using plan_loads [OF assms] by (auto simp: catalog_lookup_def catalog_TYPES_def warmable_eq split: if_splits)

text \<open>A statement that may fetch an extension: an installation, or the loading of one that is not warmed.\<close>

definition may_download :: "string \<Rightarrow> bool" where
  "may_download s \<longleftrightarrow> starts_with s ''INSTALL '' \<or> (starts_with s ''LOAD '' \<and> s \<notin> (\<lambda>e. ''LOAD '' @ e @ '';'') ` set warmable_extensions)"

lemma run_steps_cong: "\<forall>s \<in> set (map fst steps). d_exec db s = d_exec db' s \<Longrightarrow> run_steps db steps c = run_steps db' steps c"
  by (induction steps arbitrary: c) (auto split: prod.split sum.split)

lemma open_is_offline:
  assumes "ext_validate req = Ok (loc_extensions loc)" "s \<in> set (map fst (open_before loc @ open_after loc))"
  shows "\<not> may_download s"
proof -
  have ext: "set STANDARD_LOAD \<union> set (loc_extensions loc) \<subseteq> set warmable_extensions"
    using ext_validate_Ok [OF assms(1)] OPTIONAL_warm by (auto simp: warmable_eq STANDARD_LOAD_def)
  consider "s \<in> set (map fst (cap_steps (limits loc)))" | "s = fst no_autoinstall" | "s \<in> set (map fst (open_after loc))"
    using assms(2) unfolding open_split by auto
  then show ?thesis
  proof cases
    case 3
    then show ?thesis using after_loads [OF 3] ext unfolding may_download_def by blast
  qed (use caps_no_load in \<open>auto simp: may_download_def no_autoinstall_def starts_with_def\<close>)
qed

section \<open>Properties\<close>

text \<open>C39. Nothing is downloaded while a caller waits, on a node whose start-up check of the standard
  extensions has run and for a pond whose stored extensions passed validation: opening the pond
  switches automatic installation off before its first load, and no statement it sends, however the
  open ends, installs anything or loads an extension outside the set the node warms -- two databases
  that differ only on such statements cannot be told apart by it, the check of the standard extensions
  included; and mounting an external catalog loads only warmed extensions. (A name that was never
  validated is a statement of its own, and a process that skipped the start-up check runs it in its
  first open.)\<close>

theorem request_path_never_downloads:
  assumes "ext_validate req = Ok (loc_extensions loc)" and "attach_plan ty alias ps = Ok p"
    and "\<And>s. \<not> may_download s \<Longrightarrow> d_exec db s = d_exec db' s"
    and "ready = snd (ensure_standard_extensions db0 opened0 memo0)"
  shows "instance_open db opened (fst (ensure_standard_extensions db opened1 ready)) loc
       = instance_open db' opened (fst (ensure_standard_extensions db' opened2 ready)) loc
     \<and> (\<exists>pre. map fst (open_before loc @ open_after loc) = pre @ fst no_autoinstall # map fst (open_after loc)
            \<and> (\<forall>s \<in> set pre. \<not> starts_with s ''LOAD ''))
     \<and> (\<forall>s \<in> set (map fst (open_before loc @ open_after loc)). \<not> may_download s)
     \<and> (\<forall>(e, s) \<in> set (ap_load p). s = ''LOAD '' @ e @ '';'' \<and> \<not> may_download s)"
proof (intro conjI)
  have off: "\<forall>s \<in> set (map fst (open_before loc @ open_after loc)). \<not> may_download s" using open_is_offline [OF assms(1)] by blast
  have run: "run_steps db (open_before loc) c = run_steps db' (open_before loc) c" "run_steps db (open_after loc) c = run_steps db' (open_after loc) c" for c
    using off assms(3) by (auto intro!: run_steps_cong)
  have "\<not> may_download (use_statement a)" for a by (simp add: may_download_def use_statement_def starts_with_def)
  then have use: "d_exec db (use_statement a) = d_exec db' (use_statement a)" for a by (rule assms(3))
  have std: "ensure_standard_extensions db opened1 ready = ensure_standard_extensions db' opened2 ready"
    by (simp add: assms(4) ensure_standard_extensions_def Let_def)
  show "instance_open db opened (fst (ensure_standard_extensions db opened1 ready)) loc
      = instance_open db' opened (fst (ensure_standard_extensions db' opened2 ready)) loc"
    unfolding instance_open_def run use std ..
  show "\<exists>pre. map fst (open_before loc @ open_after loc) = pre @ fst no_autoinstall # map fst (open_after loc)
      \<and> (\<forall>s \<in> set pre. \<not> starts_with s ''LOAD '')"
    using open_split caps_no_load by blast
  show "\<forall>s \<in> set (map fst (open_before loc @ open_after loc)). \<not> may_download s" by (rule off)
  show "\<forall>(e, s) \<in> set (ap_load p). s = ''LOAD '' @ e @ '';'' \<and> \<not> may_download s"
    using plan_loads [OF assms(2)] plan_loads_warm [OF assms(2)] by (fastforce simp: may_download_def starts_with_def)
qed

text \<open>A database that takes every statement, and one that refuses whatever may download.\<close>

definition demo_online :: "string list duckdb" where
  "demo_online = \<lparr>d_exec = (\<lambda>s c. (Ok (), c @ [s])), d_query = (\<lambda>_ c. (Ok ([], []), c)), d_int = (\<lambda>_ c. (Ok None, c)), d_bound = (\<lambda>_ _ c. (Ok None, c))\<rparr>"

definition demo_offline :: "string list duckdb" where
  "demo_offline = demo_online\<lparr>d_exec := (\<lambda>s c. if may_download s then (Err ''no network'', c) else (Ok (), c @ [s]))\<rparr>"

theorem request_path_never_downloads_witness:
  "let loc = (location_for ''/d'' ''p'')\<lparr>loc_extensions := [''spatial'']\<rparr>;
       std = ensure_standard_extensions demo_online (Ok []) None in
   \<exists>log a. instance_open demo_offline (Ok []) (fst (ensure_standard_extensions demo_offline (Err ''gone'') (snd std))) loc = Ok (log, a)
     \<and> ''LOAD spatial;'' \<in> set log"
proof -
  let ?loc = "(location_for ''/d'' ''p'')\<lparr>loc_extensions := [''spatial'']\<rparr>"
  let ?ps = "[(''data_path'', ''/d''), (''metadata_path'', ''/m'')]"
  obtain p where p: "attach_plan ''ducklake'' ''lake'' ?ps = Ok p"
    using plan_accepts [of "''ducklake''" "''lake''" ?ps] by (cases "attach_plan ''ducklake'' ''lake'' ?ps") (auto simp: param_def)
  have v: "ext_validate ['' Spatial''] = Ok (loc_extensions ?loc)"
    by code_simp
  have agree: "d_exec demo_online s = d_exec demo_offline s" if "\<not> may_download s" for s
    using that by (simp add: demo_offline_def demo_online_def)
  have std: "ensure_standard_extensions demo_online (Ok []) None = (Ok (), Some (Ok ()))"
    by (simp add: ensure_standard_extensions_def STANDARD_LOAD_def demo_online_def Let_def)
  have on: "instance_open demo_online (Ok []) (Ok ()) ?loc = Ok (map fst (open_before ?loc @ open_after ?loc) @ [use_statement (engine_quote_ident (catalog_name ?loc))],
      engine_quote_ident (catalog_name ?loc))"
    by (simp add: instance_open_def demo_online_def open_before_def open_after_def cap_steps_def no_autoinstall_def load_step_def attach_step_def
        STANDARD_LOAD_def location_for_def Let_def)
  have "instance_open demo_online (Ok []) (fst (ensure_standard_extensions demo_online (Ok []) (Some (Ok ())))) ?loc
      = instance_open demo_offline (Ok []) (fst (ensure_standard_extensions demo_offline (Err ''gone'') (Some (Ok ())))) ?loc"
    using request_path_never_downloads [OF v p agree, of "snd (ensure_standard_extensions demo_online (Ok []) None)" demo_online "Ok []" None]
    unfolding std snd_conv by blast
  moreover have "fst (ensure_standard_extensions demo_online (Ok []) (Some (Ok ()))) = Ok ()" by (simp add: ensure_standard_extensions_def Let_def)
  ultimately have "instance_open demo_offline (Ok []) (fst (ensure_standard_extensions demo_offline (Err ''gone'') (Some (Ok ())))) ?loc
      = Ok (map fst (open_before ?loc @ open_after ?loc) @ [use_statement (engine_quote_ident (catalog_name ?loc))], engine_quote_ident (catalog_name ?loc))"
    using on by simp
  moreover have "''LOAD spatial;'' \<in> set (map fst (open_before ?loc @ open_after ?loc) @ [use_statement (engine_quote_ident (catalog_name ?loc))])"
    by (simp add: open_after_def load_step_def)
  ultimately show ?thesis unfolding Let_def std snd_conv by blast
qed

text \<open>An extension name that did not pass validation is a statement of its own.\<close>

lemma unvalidated_extension_is_sql:
  "fst (load_step ctxt ''icu; DROP TABLE t'') = ''LOAD icu; DROP TABLE t;''
   \<and> \<not> one_statement (sql_lex (fst (load_step ctxt ''icu; DROP TABLE t'')))"
  by (simp add: load_step_def one_statement_def)

end
