(* ===== verification/Engine_Plan.thy ===== *)
theory Engine_Plan
  imports Pond_Instance Agent_Types "HOL-Library.Product_Lexorder"
begin

text \<open>
  What a statement reads and writes, taken from the engine's bound plan
  (\<open>latiq-engine-duckdb/src/exec.rs\<close>, the provenance part), and the estimates read from an explain
  plan (\<open>explain.rs\<close>). Both walk JSON documents the engine prints; \<open>parse\<close> is \<open>serde_json::from_str\<close>.
\<close>

section \<open>Numbers in JSON\<close>

text \<open>\<open>as_i64\<close> and \<open>as_u64\<close>: a number printed without fraction or exponent that fits.\<close>

definition all_digits :: "string \<Rightarrow> bool" where
  "all_digits s \<longleftrightarrow> s \<noteq> [] \<and> list_all is_ascii_digit s"

definition read_int :: "string \<Rightarrow> int option" where
  "read_int s = (case s of
      c # ds \<Rightarrow> if c = CHR ''-'' then (if all_digits ds then Some (- int (digits_value ds)) else None)
                else if all_digits s then Some (int (digits_value s)) else None
    | [] \<Rightarrow> None)"

definition as_i64 :: "Value \<Rightarrow> int option" where
  "as_i64 v = (case v of JNumber s \<Rightarrow> (case read_int s of Some i \<Rightarrow> if fits_i64 i then Some i else None | None \<Rightarrow> None) | _ \<Rightarrow> None)"

definition as_u64 :: "Value \<Rightarrow> nat option" where
  "as_u64 v = (case v of JNumber s \<Rightarrow> (case read_int s of Some i \<Rightarrow> if 0 \<le> i \<and> i < 2 ^ 64 then Some (nat i) else None | None \<Rightarrow> None) | _ \<Rightarrow> None)"

text \<open>\<open>str::parse::<u64>\<close>: digits, possibly after a plus sign, without overflow.\<close>

definition parse_u64 :: "string \<Rightarrow> nat option" where
  "parse_u64 s =
     (let ds = (case s of c # cs \<Rightarrow> if c = CHR ''+'' then cs else s | [] \<Rightarrow> [])
      in if all_digits ds \<and> digits_value ds < 2 ^ 64 then Some (digits_value ds) else None)"

definition get_str :: "(string \<times> Value) list \<Rightarrow> string \<Rightarrow> string option" where
  "get_str m k = Option.bind (map_of m k) as_str"

section \<open>Provenance (exec.rs)\<close>

definition scan_datasets :: "(string \<times> Value) list \<Rightarrow> DatasetRef list" where
  "scan_datasets get =
     (case map_of get ''function_data'' of
        Some (JObject fd) \<Rightarrow>
          (case (get_str fd ''catalog_name'', get_str fd ''schema_name'', get_str fd ''table_name'') of
             (Some c, Some s, Some t) \<Rightarrow>
               [(dataset_table c s t)\<lparr>dr_version := Option.bind (Option.bind (map_of fd ''snapshot'') (\<lambda>s. json_get s ''snapshot_id'')) as_i64\<rparr>]
           | _ \<Rightarrow>
               (case (get_str fd ''catalog'', get_str fd ''schema'', get_str fd ''table'') of
                  (Some c, Some s, Some t) \<Rightarrow> [dataset_table c s t]
                | _ \<Rightarrow>
                    (case map_of fd ''files'' of
                       Some (JArray files) \<Rightarrow> map dataset_external (List.map_filter as_str files)
                     | _ \<Rightarrow> [])))
      | _ \<Rightarrow> [])"

definition entry_dataset :: "Value \<Rightarrow> DatasetRef option" where
  "entry_dataset entry =
     (case entry of
        JObject obj \<Rightarrow>
          (case (case get_str obj ''table'' of Some n \<Rightarrow> Some n
                 | None \<Rightarrow> (case get_str obj ''view_name'' of Some n \<Rightarrow> Some n | None \<Rightarrow> get_str obj ''name'')) of
             None \<Rightarrow> None
           | Some name \<Rightarrow>
               (case (get_str obj ''catalog'', get_str obj ''schema'') of
                  (Some c, Some s) \<Rightarrow> Some (dataset_table c s name)
                | _ \<Rightarrow> None))
      | _ \<Rightarrow> None)"

definition node_inputs :: "(string \<times> Value) list \<Rightarrow> DatasetRef list" where
  "node_inputs obj = (if get_str obj ''type'' = Some ''LOGICAL_GET'' then scan_datasets obj else [])"

definition opt_list :: "'a option \<Rightarrow> 'a list" where
  "opt_list x = (case x of Some v \<Rightarrow> [v] | None \<Rightarrow> [])"

definition node_outputs :: "(string \<times> Value) list \<Rightarrow> DatasetRef list" where
  "node_outputs obj =
     (case get_str obj ''type'' of
        Some ty \<Rightarrow>
          (if ty \<in> {''LOGICAL_INSERT'', ''LOGICAL_UPDATE'', ''LOGICAL_DELETE''} then
             opt_list (Option.bind (map_of obj ''table_info'') entry_dataset)
           else if ty \<in> {''LOGICAL_CREATE_TABLE'', ''LOGICAL_CREATE_VIEW'', ''LOGICAL_DROP''} then
             opt_list (Option.bind (map_of obj ''info'') entry_dataset)
           else if ty = ''LOGICAL_COPY_TO_FILE'' then
             opt_list (map_option dataset_external (get_str obj ''file_path''))
           else [])
      | None \<Rightarrow> [])"

lemma size_in_object: "(k, v) \<in> set kvs \<Longrightarrow> size v < size_list (size_prod (\<lambda>_. 0) size) kvs"
  by (rule size_in_pairs(1))

function walk_plan :: "Value \<Rightarrow> DatasetRef list \<times> DatasetRef list \<Rightarrow> DatasetRef list \<times> DatasetRef list" where
  "walk_plan (JObject obj) (ins, outs) =
     fold (\<lambda>(k, v). walk_plan v) obj (ins @ node_inputs obj, outs @ node_outputs obj)"
| "walk_plan (JArray items) acc = fold walk_plan items acc"
| "walk_plan JNull acc = acc"
| "walk_plan (JBool b) acc = acc"
| "walk_plan (JNumber n) acc = acc"
| "walk_plan (JString s) acc = acc"
  by pat_completeness auto
termination
  by (relation "measure (\<lambda>(v, _). size v)") (auto dest: size_in_object size_in_list)

text \<open>\<open>retain\<close> with a set of the keys seen; the version is part of the key.\<close>

definition dataset_key :: "DatasetRef \<Rightarrow> string option \<times> string \<times> int option" where
  "dataset_key d = (dr_namespace d, dr_name d, dr_version d)"

fun retain_unseen :: "(string option \<times> string \<times> int option) set \<Rightarrow> DatasetRef list \<Rightarrow> DatasetRef list" where
  "retain_unseen seen [] = []"
| "retain_unseen seen (d # ds) =
     (if dataset_key d \<in> seen then retain_unseen seen ds
      else d # retain_unseen (insert (dataset_key d) seen) ds)"

definition dedup_datasets :: "DatasetRef list \<Rightarrow> DatasetRef list" where
  "dedup_datasets ds = retain_unseen {} ds"

definition MAX_PLAN_JSON_BYTES :: nat where
  "MAX_PLAN_JSON_BYTES = 512 * 1024"

datatype PlanSkip = OverCap | NotPlanned string | PlanUnavailable | Unreadable

fun skip_reason :: "PlanSkip \<Rightarrow> string" where
  "skip_reason OverCap = ''plan larger than '' @ show_nat MAX_PLAN_JSON_BYTES @ '' bytes''"
| "skip_reason (NotPlanned k) = ''duckdb would not plan it ('' @ k @ '')''"
| "skip_reason PlanUnavailable = ''the extraction query did not run''"
| "skip_reason Unreadable = ''the plan was not JSON''"

definition plan_query :: string where
  "plan_query = ''SELECT CASE WHEN strlen(p) <= '' @ show_nat MAX_PLAN_JSON_BYTES @ '' THEN p END '' @
     ''FROM (SELECT json_serialize_plan(?::VARCHAR)::VARCHAR AS p)''"

definition serialized_plan :: "'c duckdb \<Rightarrow> (string \<Rightarrow> Value option) \<Rightarrow> string \<Rightarrow> 'c \<Rightarrow> (PlanSkip, Value) result \<times> 'c" where
  "serialized_plan db parse sql c =
     (case d_bound db plan_query sql c of
        (Inl _, c') \<Rightarrow> (Err PlanUnavailable, c')
      | (Inr None, c') \<Rightarrow> (Err OverCap, c')
      | (Inr (Some json), c') \<Rightarrow>
          (case parse json of
             None \<Rightarrow> (Err Unreadable, c')
           | Some v \<Rightarrow>
               (if json_get v ''error'' = Some (JBool True) then
                  (Err (NotPlanned (case Option.bind (json_get v ''error_type'') as_str of Some t \<Rightarrow> t | None \<Rightarrow> ''unknown'')), c')
                else (Ok v, c'))))"

definition referenced_tables :: "'c duckdb \<Rightarrow> (string \<Rightarrow> Value option) \<Rightarrow> string \<Rightarrow> 'c \<Rightarrow> (DatasetRef list \<times> DatasetRef list) \<times> 'c" where
  "referenced_tables db parse sql c =
     (case serialized_plan db parse sql c of (r, c') \<Rightarrow>
        (let (ins, outs) = (case r of Inr plan \<Rightarrow> walk_plan plan ([], []) | Inl _ \<Rightarrow> ([], []))
         in ((dedup_datasets ins, dedup_datasets outs), c')))"

section \<open>Columns of the pond's own datasets (exec.rs)\<close>

definition qualified_table :: "string \<Rightarrow> DatasetRef \<Rightarrow> (string \<times> string) option" where
  "qualified_table catalog d =
     (if dr_namespace d \<noteq> None then None
      else case Option.bind (strip_prefix (dr_name d) catalog) (\<lambda>r. strip_prefix r ''.'') of
        None \<Rightarrow> None
      | Some rest \<Rightarrow>
          (case split_once_str ''.'' rest of
             None \<Rightarrow> None
           | Some (schema, tbl) \<Rightarrow> if CHR ''.'' \<in> set tbl then None else Some (schema, tbl)))"

text \<open>The set of wanted tables is a \<open>BTreeSet\<close>, so its pairs are distinct and in order.\<close>

definition wanted_tables :: "string \<Rightarrow> DatasetRef list \<Rightarrow> (string \<times> string) list" where
  "wanted_tables catalog ds = sorted_list_of_set (set (List.map_filter (qualified_table catalog) ds))"

definition schema_query :: "string \<Rightarrow> (string \<times> string) list \<Rightarrow> string" where
  "schema_query catalog wanted =
     ''SELECT table_schema, table_name, column_name, data_type FROM information_schema.columns WHERE table_catalog = '' @
     lit catalog @ '' AND (table_schema, table_name) IN ('' @
     join '', '' (map (\<lambda>(s, t). ''('' @ lit s @ '', '' @ lit t @ '')'') wanted) @
     '') ORDER BY table_schema, table_name, ordinal_position''"

text \<open>Fetching one row as four texts; any other cell, or a failed fetch, is an error.\<close>

definition text_cell :: "cells \<Rightarrow> nat \<Rightarrow> string option" where
  "text_cell row i = (if i < length row then (case row ! i of Inr (V_Text s) \<Rightarrow> Some s | _ \<Rightarrow> None) else None)"

definition column_row :: "(string, cells) result \<Rightarrow> (string \<times> string \<times> string \<times> string) option" where
  "column_row r = (case r of Inl _ \<Rightarrow> None
     | Inr row \<Rightarrow>
         (case (text_cell row 0, text_cell row 1, text_cell row 2, text_cell row 3) of
            (Some a, Some b, Some c, Some d) \<Rightarrow> Some (a, b, c, d)
          | _ \<Rightarrow> None))"

definition fields_of :: "(string \<times> string \<times> string \<times> string) list \<Rightarrow> string \<times> string \<Rightarrow> DatasetField list" where
  "fields_of rows key =
     map (\<lambda>(_, _, col, ty). \<lparr>df_name = col, df_type_name = ty\<rparr>) (filter (\<lambda>(s, t, _, _). (s, t) = key) rows)"

definition annotate_one :: "string \<Rightarrow> (string \<times> string \<times> string \<times> string) list \<Rightarrow> DatasetRef \<Rightarrow> DatasetRef" where
  "annotate_one catalog rows d =
     (case qualified_table catalog d of
        None \<Rightarrow> d
      | Some key \<Rightarrow> if fields_of rows key = [] then d else d\<lparr>dr_fields := fields_of rows key\<rparr>)"

definition annotate_schemas :: "'c duckdb \<Rightarrow> string \<Rightarrow> DatasetRef list \<times> DatasetRef list \<Rightarrow> 'c
    \<Rightarrow> (DatasetRef list \<times> DatasetRef list) \<times> 'c" where
  "annotate_schemas db catalog dss c =
     (case dss of (ins, outs) \<Rightarrow>
        (let wanted = wanted_tables catalog (ins @ outs)
         in if wanted = [] then ((ins, outs), c)
            else case d_query db (schema_query catalog wanted) c of
              (Inl _, c') \<Rightarrow> ((ins, outs), c')
            | (Inr (_, rows), c') \<Rightarrow>
                (case those (map column_row rows) of
                   None \<Rightarrow> ((ins, outs), c')
                 | Some found \<Rightarrow> ((map (annotate_one catalog found) ins, map (annotate_one catalog found) outs), c'))))"

definition externalize :: "string \<Rightarrow> string \<Rightarrow> DatasetRef \<Rightarrow> DatasetRef" where
  "externalize alias namespace ds =
     (case strip_prefix (dr_name ds) (alias @ ''.'') of
        Some rest \<Rightarrow> ds\<lparr>dr_name := rest, dr_namespace := Some namespace\<rparr>
      | None \<Rightarrow> ds)"

section \<open>Lemmas\<close>

text \<open>Every object of a document, outermost first: the specification of the walk.\<close>

function plan_objects :: "Value \<Rightarrow> (string \<times> Value) list list" where
  "plan_objects (JObject obj) = obj # concat (map (\<lambda>(k, v). plan_objects v) obj)"
| "plan_objects (JArray items) = concat (map plan_objects items)"
| "plan_objects JNull = []"
| "plan_objects (JBool b) = []"
| "plan_objects (JNumber n) = []"
| "plan_objects (JString s) = []"
  by pat_completeness auto
termination
  by (relation "measure size") (auto dest: size_in_object size_in_list)

definition all_inputs :: "(string \<times> Value) list list \<Rightarrow> DatasetRef list" where
  "all_inputs os = concat (map node_inputs os)"

definition all_outputs :: "(string \<times> Value) list list \<Rightarrow> DatasetRef list" where
  "all_outputs os = concat (map node_outputs os)"

lemma all_append [simp]:
  "all_inputs (xs @ ys) = all_inputs xs @ all_inputs ys" "all_outputs (xs @ ys) = all_outputs xs @ all_outputs ys"
  "all_inputs [] = []" "all_outputs [] = []"
  "all_inputs (o1 # xs) = node_inputs o1 @ all_inputs xs" "all_outputs (o1 # xs) = node_outputs o1 @ all_outputs xs"
  by (simp_all add: all_inputs_def all_outputs_def)

lemma fold_walk:
  assumes "\<And>x ins outs. x \<in> set xs \<Longrightarrow> f x (ins, outs) = (ins @ all_inputs (g x), outs @ all_outputs (g x))"
  shows "fold f xs (ins, outs) = (ins @ all_inputs (concat (map g xs)), outs @ all_outputs (concat (map g xs)))"
  using assms by (induction xs arbitrary: ins outs) auto

lemma walk_plan_spec:
  "walk_plan v (ins, outs) = (ins @ all_inputs (plan_objects v), outs @ all_outputs (plan_objects v))"
proof (induction v arbitrary: ins outs rule: plan_objects.induct)
  case (1 obj)
  have "fold (\<lambda>(k, v). walk_plan v) obj (a, b)
      = (a @ all_inputs (concat (map (\<lambda>(k, v). plan_objects v) obj)), b @ all_outputs (concat (map (\<lambda>(k, v). plan_objects v) obj)))" for a b
    by (rule fold_walk) (use 1 in auto)
  then show ?case by simp
next
  case (2 items)
  show ?case unfolding walk_plan.simps plan_objects.simps by (rule fold_walk) (use 2 in auto)
qed simp_all

lemma retain_unseen_spec:
  "distinct (map dataset_key (retain_unseen seen ds))
   \<and> dataset_key ` set (retain_unseen seen ds) = dataset_key ` set ds - seen
   \<and> set (retain_unseen seen ds) \<subseteq> set ds"
proof (induction ds arbitrary: seen)
  case (Cons d ds)
  show ?case
  proof (cases "dataset_key d \<in> seen")
    case True
    then show ?thesis using Cons [of seen] by auto
  next
    case False
    then show ?thesis using Cons [of "insert (dataset_key d) seen"] by auto
  qed
qed simp

lemma dedup_datasets_spec:
  "distinct (map dataset_key (dedup_datasets ds))" "dataset_key ` set (dedup_datasets ds) = dataset_key ` set ds"
  "set (dedup_datasets ds) \<subseteq> set ds"
  using retain_unseen_spec [of "{}" ds] by (simp_all add: dedup_datasets_def)

lemma annotate_one_keeps:
  "(annotate_one catalog rows d)\<lparr>dr_fields := x\<rparr> = d\<lparr>dr_fields := x\<rparr>"
  "dr_namespace d \<noteq> None \<Longrightarrow> annotate_one catalog rows d = d"
  by (simp_all add: annotate_one_def qualified_table_def split: option.splits)

lemma schema_query_injection_free:
  "one_statement (sql_lex (schema_query catalog wanted))
   \<and> literals (sql_lex (schema_query catalog wanted)) \<subseteq> insert catalog (fst ` set wanted \<union> snd ` set wanted)"
proof -
  let ?V = "insert catalog (fst ` set wanted \<union> snd ` set wanted)"
  have pair: "frag ?V {} (''('' @ lit s @ '', '' @ lit t @ '')'')" if "(s, t) \<in> set wanted" for s t
  proof -
    have st: "s \<in> ?V" "t \<in> ?V" using that by force+
    have 1: "frag ?V {} ('', '' @ lit t @ '')'')" using st(2) by (intro frag_wrap frag_lit) simp_all
    have "frag ?V {} (lit s @ '', '' @ lit t @ '')'')" using st(1) by (intro frag_append [OF frag_lit 1]) simp_all
    then show ?thesis by (rule frag_raw [rotated 2]) simp_all
  qed
  have j: "frag ?V {} (join '', '' (map (\<lambda>(s, t). ''('' @ lit s @ '', '' @ lit t @ '')'') wanted))"
    by (rule frag_join) (use pair in auto)
  have "frag ?V {} ('' AND (table_schema, table_name) IN ('' @
      join '', '' (map (\<lambda>(s, t). ''('' @ lit s @ '', '' @ lit t @ '')'') wanted) @
      '') ORDER BY table_schema, table_name, ordinal_position'')"
    by (rule frag_wrap [OF _ _ j]) simp_all
  then have "frag ?V {} (lit catalog @ '' AND (table_schema, table_name) IN ('' @
      join '', '' (map (\<lambda>(s, t). ''('' @ lit s @ '', '' @ lit t @ '')'') wanted) @
      '') ORDER BY table_schema, table_name, ordinal_position'')"
    by (rule frag_append [OF frag_lit, rotated]) simp_all
  then have "frag ?V {} (schema_query catalog wanted)" unfolding schema_query_def by (rule frag_raw [rotated 2]) simp_all
  then show ?thesis using frag_lex by blast
qed

section \<open>Properties\<close>

text \<open>C34. Provenance misses no operator: whatever the shape of the bound plan, the inputs and outputs
  of a statement are the datasets of all scans and of all write targets anywhere in it, each once
  per version; and a plan that cannot be had or read gives none, never an error.\<close>

theorem provenance_is_complete:
  "case (serialized_plan db parse sql c, referenced_tables db parse sql c) of
     ((Inl _, c1), (dss, c2)) \<Rightarrow> dss = ([], []) \<and> c2 = c1
   | ((Inr plan, c1), ((ins, outs), c2)) \<Rightarrow>
       c2 = c1
     \<and> dataset_key ` set ins = dataset_key ` (\<Union>obj \<in> set (plan_objects plan). set (node_inputs obj))
     \<and> dataset_key ` set outs = dataset_key ` (\<Union>obj \<in> set (plan_objects plan). set (node_outputs obj))
     \<and> distinct (map dataset_key ins) \<and> distinct (map dataset_key outs)"
proof -
  obtain r c1 where sp: "serialized_plan db parse sql c = (r, c1)" by fastforce
  show ?thesis
  proof (cases r)
    case (Inl e)
    then show ?thesis using sp by (simp add: referenced_tables_def dedup_datasets_def)
  next
    case (Inr plan)
    have u: "set (all_inputs os) = (\<Union>obj \<in> set os. set (node_inputs obj))" "set (all_outputs os) = (\<Union>obj \<in> set os. set (node_outputs obj))" for os
      by (simp_all add: all_inputs_def all_outputs_def)
    show ?thesis using sp Inr by (simp add: referenced_tables_def walk_plan_spec dedup_datasets_spec u)
  qed
qed

end
