(* ===== verification/Error_Classes.thy ===== *)
theory Error_Classes
  imports Error_Mapping Agent_Types
begin

text \<open>
  How the text of an engine error becomes an error of the node's own taxonomy
  (\<open>latiq-engine-duckdb/src/errclass.rs\<close>). The engine prefixes each message with the name of its
  error class; the sources look for the first line that leads with a class they list.
\<close>

section \<open>Model\<close>

definition PARSER :: string where "PARSER = ''Parser Error''"
definition SYNTAX :: string where "SYNTAX = ''Syntax Error''"
definition CATALOG :: string where "CATALOG = ''Catalog Error''"
definition BINDER :: string where "BINDER = ''Binder Error''"
definition CONVERSION :: string where "CONVERSION = ''Conversion Error''"
definition CONSTRAINT :: string where "CONSTRAINT = ''Constraint Error''"
definition IO_ERR :: string where "IO_ERR = ''IO Error''"
definition HTTP :: string where "HTTP = ''HTTP Error''"
definition NOT_IMPLEMENTED :: string where "NOT_IMPLEMENTED = ''Not implemented Error''"
definition INVALID_INPUT :: string where "INVALID_INPUT = ''Invalid Input Error''"
definition OUT_OF_RANGE :: string where "OUT_OF_RANGE = ''Out of Range Error''"
definition TRANSACTION :: string where "TRANSACTION = ''TransactionContext Error''"

lemmas class_defs = PARSER_def SYNTAX_def CATALOG_def BINDER_def CONVERSION_def CONSTRAINT_def
  IO_ERR_def HTTP_def NOT_IMPLEMENTED_def INVALID_INPUT_def OUT_OF_RANGE_def TRANSACTION_def

definition classes :: "string list" where
  "classes = [PARSER, SYNTAX, CATALOG, BINDER, CONVERSION, CONSTRAINT, IO_ERR, HTTP, NOT_IMPLEMENTED,
     INVALID_INPUT, OUT_OF_RANGE, TRANSACTION]"

text \<open>\<open>str::is_char_boundary\<close>: the end, or a byte that does not continue a character.\<close>

definition is_char_boundary :: "string \<Rightarrow> nat \<Rightarrow> bool" where
  "is_char_boundary s i \<longleftrightarrow> i = length s \<or> (i < length s \<and> \<not> (128 \<le> code (s ! i) \<and> code (s ! i) < 192))"

definition is_class_prefix :: "string \<Rightarrow> string \<Rightarrow> bool" where
  "is_class_prefix msg cls \<longleftrightarrow>
     length msg > length cls \<and> is_char_boundary msg (length cls)
     \<and> eq_ignore_ascii_case (take (length cls) msg) cls \<and> starts_with (drop (length cls) msg) '':''"

definition class_of :: "string \<Rightarrow> string option" where
  "class_of msg = List.find (is_class_prefix msg) classes"

text \<open>\<open>str::lines\<close>: pieces between line feeds, without a final empty one and without a carriage
  return at the end of a piece.\<close>

definition strip_cr :: "string \<Rightarrow> string" where
  "strip_cr l = (if l \<noteq> [] \<and> last l = CHR 0x0D then butlast l else l)"

definition str_lines :: "string \<Rightarrow> string list" where
  "str_lines s = map strip_cr (let ps = split_on (\<lambda>c. c = newline) s in if last ps = [] then butlast ps else ps)"

text \<open>\<open>split_once(':')\<close>, and the closure \<open>trim\<close> of \<open>unsupported_feature\<close>.\<close>

definition after_colon :: "string \<Rightarrow> string" where
  "after_colon l = (case split_once_str '':'' l of Some (_, rest) \<Rightarrow> trim rest | None \<Rightarrow> l)"

definition trim_feature :: "string \<Rightarrow> string option" where
  "trim_feature s =
     (let t = trim (rev (dropWhile (\<lambda>c. c = CHR ''.'' \<or> c = CHR ''!'') (rev (trim s))))
      in if t = [] then None else Some t)"

definition unsupported_feature :: "string \<Rightarrow> string option" where
  "unsupported_feature l =
     (let detail = after_colon l in
      case split_once_str '' does not support '' detail of
        Some (_, feature) \<Rightarrow> trim_feature feature
      | None \<Rightarrow>
          (case split_once_str '' are not supported'' detail of
             Some (feature, _) \<Rightarrow> trim_feature feature
           | None \<Rightarrow>
               (case split_once_str '' is not supported'' detail of
                  Some (feature, _) \<Rightarrow> trim_feature feature
                | None \<Rightarrow> None)))"

text \<open>The line that decides, and the match on its class.\<close>

definition class_line :: "string \<Rightarrow> string" where
  "class_line m =
     (case List.find (\<lambda>l. class_of (trim l) \<noteq> None) (str_lines m) of Some l \<Rightarrow> trim l | None \<Rightarrow> m)"

definition class_error :: "string \<Rightarrow> string \<Rightarrow> string \<Rightarrow> EngineError" where
  "class_error c l m =
     (if c = PARSER \<or> c = SYNTAX then E_Parse m
      else if c = CATALOG \<or> c = BINDER then E_Catalog m
      else if c = CONVERSION then E_Conversion m
      else if c = CONSTRAINT then E_Constraint m
      else if c = IO_ERR \<or> c = HTTP then E_SourceIo m
      else if c = NOT_IMPLEMENTED then E_Unsupported m (unsupported_feature l)
      else if c = INVALID_INPUT \<or> c = OUT_OF_RANGE then E_InvalidInput m
      else if c = TRANSACTION then E_TransactionControl m
      else E_Engine m)"

definition classify_message :: "string \<Rightarrow> EngineError" where
  "classify_message msg =
     (let m = trim msg; l = class_line m
      in case class_of l of Some c \<Rightarrow> class_error c l m | None \<Rightarrow> E_Engine m)"

section \<open>Lemmas\<close>

fun carried :: "EngineError \<Rightarrow> string option" where
  "carried (E_Parse m) = Some m"
| "carried (E_Catalog m) = Some m"
| "carried (E_Conversion m) = Some m"
| "carried (E_Constraint m) = Some m"
| "carried (E_SourceIo m) = Some m"
| "carried (E_Unsupported m _) = Some m"
| "carried (E_InvalidInput m) = Some m"
| "carried (E_TransactionControl m) = Some m"
| "carried (E_Engine m) = Some m"
| "carried _ = None"

lemma class_of_in: "class_of l = Some c \<Longrightarrow> c \<in> set classes \<and> is_class_prefix l c"
  by (auto simp: class_of_def dest: find_Some_iff)

text \<open>The listed classes are told apart by what precedes the colon, so at most one of them leads a line.\<close>

lemma classes_colon_free: "c \<in> set classes \<Longrightarrow> CHR '':'' \<notin> set c"
  by (auto simp: classes_def class_defs)

lemma lower_char_fixed: "\<not> is_ascii_lower d \<Longrightarrow> lower_char c = d \<Longrightarrow> c = d"
  by (auto simp: lower_char_def is_ascii_upper_def is_ascii_lower_def split: if_splits)

lemma lower_member:
  assumes "to_lowercase w = to_lowercase c" "x \<in> set w" "\<not> is_ascii_lower x" "\<not> is_ascii_upper x"
  shows "x \<in> set c"
proof -
  have "lower_char x \<in> set (to_lowercase w)" unfolding to_lowercase_def using assms(2) by simp
  then have "lower_char x \<in> set (to_lowercase c)" by (simp only: assms(1))
  then have "lower_char x \<in> lower_char ` set c" by (simp only: to_lowercase_def set_map)
  then obtain y where y: "lower_char x = lower_char y" "y \<in> set c" by (rule imageE)
  have lx: "lower_char x = x" unfolding lower_char_def by (rule if_not_P [OF assms(4)])
  have "y = x" by (rule lower_char_fixed [OF assms(3) trans [OF y(1) [symmetric] lx]])
  then show ?thesis using y(2) by (rule subst)
qed

lemma class_prefix_parts:
  assumes "c \<in> set classes"
  shows "is_class_prefix l c \<longleftrightarrow> (\<exists>w r. l = w @ CHR '':'' # r \<and> to_lowercase w = to_lowercase c)"
proof
  assume p: "is_class_prefix l c"
  let ?w = "take (length c) l" and ?d = "drop (length c) l"
  have "starts_with ?d '':''" "to_lowercase ?w = to_lowercase c"
    using p by (auto simp: is_class_prefix_def eq_ignore_ascii_case_def)
  then obtain r where "?d = CHR '':'' # r" "to_lowercase ?w = to_lowercase c" by (auto simp: starts_with_iff)
  then show "\<exists>w r. l = w @ CHR '':'' # r \<and> to_lowercase w = to_lowercase c"
    using append_take_drop_id [of "length c" l] by metis
next
  assume "\<exists>w r. l = w @ CHR '':'' # r \<and> to_lowercase w = to_lowercase c"
  then obtain w r where l: "l = w @ CHR '':'' # r" "to_lowercase w = to_lowercase c" by blast
  then have "length w = length c" using to_lowercase_simps(3) by metis
  then show "is_class_prefix l c" using l
    by (simp add: is_class_prefix_def is_char_boundary_def eq_ignore_ascii_case_def starts_with_def nth_append)
qed

lemma classes_lower_distinct: "distinct (map to_lowercase classes)"
  by code_simp

lemma class_prefix_unique:
  assumes "is_class_prefix l c" "is_class_prefix l c'" "c \<in> set classes" "c' \<in> set classes"
  shows "c = c'"
proof -
  obtain w r w' r' where w: "l = w @ CHR '':'' # r" "to_lowercase w = to_lowercase c"
    "l = w' @ CHR '':'' # r'" "to_lowercase w' = to_lowercase c'"
    using assms class_prefix_parts by meson
  have free: "CHR '':'' \<notin> set v" if "to_lowercase v = to_lowercase d" "d \<in> set classes" for v d
  proof
    assume "CHR '':'' \<in> set v"
    then have "CHR '':'' \<in> set d" by (rule lower_member [OF that(1)]) (simp_all add: char_class_defs)
    then show False using classes_colon_free [OF that(2)] by contradiction
  qed
  have cut: "takeWhile (\<lambda>x. x \<noteq> CHR '':'') (v @ CHR '':'' # s) = v" if "CHR '':'' \<notin> set v" for v s
    using that by (induction v) auto
  have "w = w'" using cut [OF free [OF w(2) assms(3)], of r] cut [OF free [OF w(4) assms(4)], of r'] w(1,3) by metis
  then have "to_lowercase c = to_lowercase c'" using w by simp
  then show ?thesis using classes_lower_distinct assms(3,4) by (simp add: distinct_map inj_on_def)
qed

lemma class_of_unique:
  assumes "is_class_prefix l c" "c \<in> set classes"
  shows "class_of l = Some c"
proof (cases "class_of l")
  case None
  then show ?thesis using assms by (auto simp: class_of_def find_None_iff)
next
  case (Some d)
  then show ?thesis using class_of_in [OF Some] class_prefix_unique assms by blast
qed

text \<open>A message that leads with a class: its first line leads with that class too.\<close>

lemma hd_split_on: "hd (split_on p s) = takeWhile (\<lambda>c. \<not> p c) s"
  by (induction s) (auto split: list.splits)

lemma trim_end_keeps: "\<not> is_whitespace c \<Longrightarrow> trim_end (a @ c # r) = a @ c # trim_end r"
  by (cases "\<forall>x \<in> set (rev r). is_whitespace x") (auto simp: trim_end_def dropWhile_append)

lemma class_newline_free:
  assumes "to_lowercase w = to_lowercase c" "c \<in> set classes" "x \<in> set w"
  shows "x \<noteq> newline"
proof
  assume "x = newline"
  then have "newline \<in> set c" using assms(3) by (intro lower_member [OF assms(1)]) (simp_all add: char_class_defs)
  then show False using assms(2) by (auto simp: classes_def class_defs)
qed

lemma class_line_leads:
  assumes "is_class_prefix m c" "c \<in> set classes" "trim m = m"
  shows "class_of (class_line m) = Some c"
proof -
  obtain w r where m: "m = w @ CHR '':'' # r" "to_lowercase w = to_lowercase c"
    using assms class_prefix_parts by blast
  define r1 where "r1 = takeWhile (\<lambda>x. x \<noteq> newline) r"
  let ?ps = "split_on (\<lambda>c. c = newline) m"
  have h: "hd ?ps = w @ CHR '':'' # r1"
    using class_newline_free [OF m(2) assms(2)] by (simp add: hd_split_on m r1_def takeWhile_append)
  then obtain tl where ps: "?ps = (w @ CHR '':'' # r1) # tl" by (cases ?ps) auto
  have cr: "strip_cr (w @ CHR '':'' # r1) = w @ CHR '':'' # strip_cr r1" by (simp add: strip_cr_def butlast_append)
  have ls: "\<exists>ls. str_lines m = (w @ CHR '':'' # strip_cr r1) # ls"
    using ps cr by (cases tl) (auto simp: str_lines_def Let_def)
  have "\<not> is_whitespace (CHR '':'')" by (simp add: is_whitespace_def)
  moreover have "trim_start (w @ CHR '':'' # strip_cr r1) = w @ CHR '':'' # strip_cr r1"
  proof (rule trim_start_id)
    have "hd m = hd (w @ CHR '':'' # strip_cr r1)" by (cases w) (auto simp: m)
    moreover have "m \<noteq> []" by (simp add: m)
    then have "\<not> is_whitespace (hd m)"
      using assms(3) trim_start_hd [of m] trim_end_hd [of "trim_start m"] by (metis trim_def trim_end_prefix append_is_Nil_conv)
    ultimately show "w @ CHR '':'' # strip_cr r1 = [] \<or> \<not> is_whitespace (hd (w @ CHR '':'' # strip_cr r1))" by simp
  qed
  ultimately have t: "trim (w @ CHR '':'' # strip_cr r1) = w @ CHR '':'' # trim_end (strip_cr r1)"
    by (simp add: trim_def trim_end_keeps)
  then have "is_class_prefix (trim (w @ CHR '':'' # strip_cr r1)) c" using m(2) assms(2) class_prefix_parts by blast
  then have "class_of (trim (w @ CHR '':'' # strip_cr r1)) = Some c" using assms(2) by (rule class_of_unique)
  then show ?thesis using ls by (auto simp: class_line_def)
qed

lemma class_error_to_agent:
  assumes "c \<in> set classes"
  shows "audience (from_engine (class_error c l m)) = Agent \<and> message (from_engine (class_error c l m)) = m"
  using assms
  by (cases "unsupported_feature l")
     (auto simp: classes_def class_error_def class_defs envelope_defs with_facts_def)

section \<open>Properties\<close>

text \<open>A failure is filed by the class its message leads with, whatever the rest of the message
  quotes: a message that leads with a listed class gets that class's error, with the whole message,
  and is addressed to the agent that sent the statement, which can correct it.\<close>

lemma leading_class_decides:
  assumes "is_class_prefix (trim msg) c" "c \<in> set classes"
  shows "classify_message msg = class_error c (class_line (trim msg)) (trim msg)
    \<and> audience (from_engine (classify_message msg)) = Agent
    \<and> message (from_engine (classify_message msg)) = trim msg"
  using class_line_leads [OF assms] class_error_to_agent [OF assms(2)] by (simp add: classify_message_def Let_def)

lemma leading_class_decides_example:
  "let msg = '' Catalog Error: Table nope does not exist'' @ [newline] @ ''IO Error: quoted''
   in is_class_prefix (trim msg) CATALOG \<and> CATALOG \<in> set classes \<and> classify_message msg = E_Catalog (trim msg)"
proof -
  let ?msg = "'' Catalog Error: Table nope does not exist'' @ [newline] @ ''IO Error: quoted''"
  have "is_class_prefix (trim ?msg) CATALOG" by code_simp
  moreover have "CATALOG \<in> set classes" by (simp add: classes_def)
  ultimately show ?thesis using leading_class_decides [of ?msg CATALOG]
    by (simp add: Let_def class_error_def class_defs)
qed

text \<open>A message whose own class is not listed is filed by a later line that leads with one.\<close>

lemma later_line_reclassifies:
  "classify_message (''INTERRUPT Error: Interrupted!'' @ [newline] @ ''IO Error: x'')
     = E_SourceIo (''INTERRUPT Error: Interrupted!'' @ [newline] @ ''IO Error: x'')"
  by code_simp

end
