(* ===== verification/Engine_Explain.thy ===== *)
theory Engine_Explain
  imports Engine_Plan Error_Classes Sql_Shape
begin

text \<open>
  Explaining a statement: the operator tree of an explain plan and the estimates read from it
  (\<open>latiq-engine-duckdb/src/explain.rs\<close>), and the call that asks the engine for it
  (\<open>run_explain\<close> in \<open>exec.rs\<close>).
\<close>

section \<open>Estimates (explain.rs)\<close>

definition FULL_SCAN_WARN_ROWS :: nat where
  "FULL_SCAN_WARN_ROWS = 100000"

definition FULL_SCAN :: string where "FULL_SCAN = ''full_scan''"
definition FILTERED_SCAN :: string where "FILTERED_SCAN = ''filtered_scan''"

record Estimates =
  es_estimated_rows :: nat
  es_scan_operations :: "ScanOp list"
  es_warnings :: "string list"
  es_suggestions :: "string list"

definition estimates_default :: Estimates where
  "estimates_default = \<lparr>es_estimated_rows = 0, es_scan_operations = [], es_warnings = [], es_suggestions = []\<rparr>"

datatype PlanUnreadable = NotJson string | NotAPlanTree | NoOperatorName

definition node_name :: "Value \<Rightarrow> string option" where
  "node_name node = Option.bind (json_get node ''name'') as_str"

definition extra :: "Value \<Rightarrow> string \<Rightarrow> Value option" where
  "extra node key = Option.bind (json_get node ''extra_info'') (\<lambda>e. json_get e key)"

definition cardinality :: "Value \<Rightarrow> nat option" where
  "cardinality node =
     (case extra node ''Estimated Cardinality'' of
        None \<Rightarrow> None
      | Some v \<Rightarrow>
          (case as_u64 v of Some n \<Rightarrow> Some n
           | None \<Rightarrow> (case as_str v of Some s \<Rightarrow> parse_u64 (trim s) | None \<Rightarrow> None)))"

definition is_dynamic :: "string \<Rightarrow> bool" where
  "is_dynamic f \<longleftrightarrow> starts_with (trim_start f) ''optional:''"

definition filter_text :: "Value \<Rightarrow> string option" where
  "filter_text node =
     (case extra node ''Filters'' of
        None \<Rightarrow> None
      | Some v \<Rightarrow>
          (case (case v of
               JString s \<Rightarrow> Some s
             | JArray a \<Rightarrow> Some (join '' AND '' (filter (\<lambda>s. \<not> is_dynamic s) (List.map_filter as_str a)))
             | _ \<Rightarrow> None) of
             None \<Rightarrow> None
           | Some joined \<Rightarrow>
               (let j = trim joined in if j = [] \<or> is_dynamic j then None else Some j)))"

definition scan_op :: "Value \<Rightarrow> ScanOp option" where
  "scan_op node =
     (case Option.bind (extra node ''Table'') as_str of
        None \<Rightarrow> None
      | Some tbl \<Rightarrow>
          Some \<lparr>so_table = replace_char dquote [] tbl,
                scan_type = (if filter_text node \<noteq> None then FILTERED_SCAN else FULL_SCAN),
                estimated_rows_scanned = (case cardinality node of Some n \<Rightarrow> n | None \<Rightarrow> 0),
                so_source = (if node_name node = Some ''DUCKLAKE_SCAN'' then ''pond'' else ''attached'')\<rparr>)"

text \<open>The operators of a plan, parents before children.\<close>

function collect_nodes :: "Value \<Rightarrow> Value list" where
  "collect_nodes node =
     node # (case json_get node ''children'' of Some (JArray cs) \<Rightarrow> concat (map collect_nodes cs) | _ \<Rightarrow> [])"
  by pat_completeness auto
termination
proof (relation "measure size")
  fix node :: Value and x2 cs child
  assume a: "json_get node ''children'' = Some x2" "x2 = JArray cs" "child \<in> set cs"
  then obtain m where m: "node = JObject m" "map_of m ''children'' = Some (JArray cs)" by (cases node) auto
  have "size child < size_list size cs" using a(3) by (rule size_in_list)
  also have "\<dots> < size (JArray cs)" by simp
  also have "\<dots> < size_list (size_prod (\<lambda>_. 0) size) m" using size_in_object [OF map_of_SomeD [OF m(2)]] .
  finally show "(child, node) \<in> measure size" by (simp add: m(1))
qed simp

declare collect_nodes.simps [simp del]

definition scan_is_large :: "ScanOp \<Rightarrow> bool" where
  "scan_is_large s \<longleftrightarrow> scan_type s = FULL_SCAN \<and> estimated_rows_scanned s \<ge> FULL_SCAN_WARN_ROWS"

definition full_scan_warning :: "ScanOp \<Rightarrow> string" where
  "full_scan_warning s =
     ''full scan of `'' @ so_table s @ ''`: an estimated '' @ show_nat (estimated_rows_scanned s) @ '' rows are read with no filter''"

definition full_scan_suggestion :: "ScanOp \<Rightarrow> string" where
  "full_scan_suggestion s =
     ''add a WHERE on a selective column of `'' @ so_table s @ ''` (or a LIMIT, or aggregate with GROUP BY) '' @
     ''-- this scan reads ~'' @ show_nat (estimated_rows_scanned s) @ '' rows unfiltered''"

fun find_map :: "('a \<Rightarrow> 'b option) \<Rightarrow> 'a list \<Rightarrow> 'b option" where
  "find_map f [] = None"
| "find_map f (x # xs) = (case f x of Some y \<Rightarrow> Some y | None \<Rightarrow> find_map f xs)"

definition parse_estimates :: "(string \<Rightarrow> (string, Value) result) \<Rightarrow> string \<Rightarrow> (PlanUnreadable, Estimates) result" where
  "parse_estimates parse plan_json =
     (case parse plan_json of
        Inl e \<Rightarrow> Err (NotJson e)
      | Inr v \<Rightarrow>
          (case (case v of
               JArray a \<Rightarrow> (case a of [] \<Rightarrow> None | r # _ \<Rightarrow> Some r)
             | JObject _ \<Rightarrow> Some v
             | _ \<Rightarrow> None) of
             None \<Rightarrow> Err NotAPlanTree
           | Some root \<Rightarrow>
               (if node_name root = None then Err NoOperatorName
                else
                  (let nodes = collect_nodes root;
                       ops = List.map_filter scan_op nodes;
                       large = filter scan_is_large ops
                   in Ok \<lparr>es_estimated_rows = (case find_map cardinality nodes of Some n \<Rightarrow> n | None \<Rightarrow> 0),
                          es_scan_operations = ops,
                          es_warnings = map full_scan_warning large,
                          es_suggestions = map full_scan_suggestion large\<rparr>))))"

section \<open>Asking for the plan (exec.rs)\<close>

text \<open>The text cells of all rows in order; a cell that is not text or cannot be fetched is skipped, a
  row that cannot be fetched is an error.\<close>

definition row_texts :: "cells \<Rightarrow> string list" where
  "row_texts row = List.map_filter (\<lambda>x. case x of Inr (V_Text t) \<Rightarrow> Some t | _ \<Rightarrow> None) row"

fun collect_cells :: "(string, cells) result list \<Rightarrow> (EngineError, string list) result" where
  "collect_cells [] = Ok []"
| "collect_cells (Inl e # rows) = Err (classify_message e)"
| "collect_cells (Inr row # rows) = map_ok (\<lambda>cs. row_texts row @ cs) (collect_cells rows)"

definition explain_cells :: "'c duckdb \<Rightarrow> string \<Rightarrow> 'c \<Rightarrow> (EngineError, string list) result \<times> 'c" where
  "explain_cells db sql c =
     (case d_query db sql c of
        (Inl e, c') \<Rightarrow> (Err (classify_message e), c')
      | (Inr (_, rows), c') \<Rightarrow> (collect_cells rows, c'))"

definition explain_result :: "(string \<Rightarrow> (string, Value) result) \<Rightarrow> string list \<Rightarrow> bool \<Rightarrow> ExplainResult" where
  "explain_result parse cs is_json =
     (let es = (if cs \<noteq> [] \<and> is_json then
                  (case parse_estimates parse (last cs) of Inr e \<Rightarrow> e | Inl _ \<Rightarrow> estimates_default)
                else estimates_default)
      in \<lparr>estimated_rows = es_estimated_rows es, scan_operations = es_scan_operations es,
          er_warnings = es_warnings es, er_suggestions = es_suggestions es, raw_plan = join [newline] cs\<rparr>)"

definition run_explain :: "'c duckdb \<Rightarrow> (string \<Rightarrow> (string, Value) result) \<Rightarrow> string \<Rightarrow> 'c \<Rightarrow> (EngineError, ExplainResult) result \<times> 'c" where
  "run_explain db parse sql c =
     (if starts_with (to_lowercase (trim_start sql)) ''analyze'' then
        (Err (E_Parse ''EXPLAIN ANALYZE executes the statement; use read_query/write_query to run it''), c)
      else
        (case explain_cells db (''EXPLAIN (FORMAT JSON) '' @ sql) c of
           (Inr cs, c1) \<Rightarrow> (Ok (explain_result parse cs True), c1)
         | (Inl _, c1) \<Rightarrow>
             (case explain_cells db (''EXPLAIN '' @ sql) c1 of
                (Inl e, c2) \<Rightarrow> (Err e, c2)
              | (Inr cs, c2) \<Rightarrow> (Ok (explain_result parse cs False), c2))))"

section \<open>Lemmas\<close>

lemma find_map_None: "find_map f xs = None \<longleftrightarrow> (\<forall>x \<in> set xs. f x = None)"
  by (induction xs) (auto split: option.splits)

lemma find_map_first: "\<forall>z \<in> set a. f z = None \<Longrightarrow> f x = Some y \<Longrightarrow> find_map f (a @ x # b) = Some y"
  by (induction a) auto

lemma collect_nodes_root: "\<exists>rest. collect_nodes root = root # rest"
  by (subst collect_nodes.simps) blast

text \<open>The estimate shown is the root's own where it has one, and a guess of zero rows is made only
  when no operator of the plan carries an estimate.\<close>

lemma estimate_of_the_root:
  assumes "parse text = Ok (JArray (root # rest))" "parse_estimates parse text = Ok es"
  shows "cardinality root = Some n \<Longrightarrow> es_estimated_rows es = n"
    and "\<forall>n \<in> set (collect_nodes root). cardinality n = None \<Longrightarrow> es_estimated_rows es = 0"
    and "length (es_warnings es) = length (filter scan_is_large (List.map_filter scan_op (collect_nodes root)))"
proof -
  have es: "es = \<lparr>es_estimated_rows = (case find_map cardinality (collect_nodes root) of Some n \<Rightarrow> n | None \<Rightarrow> 0),
      es_scan_operations = List.map_filter scan_op (collect_nodes root),
      es_warnings = map full_scan_warning (filter scan_is_large (List.map_filter scan_op (collect_nodes root))),
      es_suggestions = map full_scan_suggestion (filter scan_is_large (List.map_filter scan_op (collect_nodes root)))\<rparr>"
    using assms by (simp add: parse_estimates_def Let_def split: if_splits)
  obtain rs where rs: "collect_nodes root = root # rs" using collect_nodes_root by blast
  show "es_estimated_rows es = n" if "cardinality root = Some n" using that by (simp add: es rs)
  show "es_estimated_rows es = 0" if "\<forall>n \<in> set (collect_nodes root). cardinality n = None"
    using that find_map_None [of cardinality "collect_nodes root"] by (simp add: es)
  show "length (es_warnings es) = length (filter scan_is_large (List.map_filter scan_op (collect_nodes root)))" by (simp add: es)
qed

text \<open>A plan always comes back: when the engine answers in either form the call succeeds with the
  engine's own text, whether or not it can be read.\<close>

lemma explain_keeps_the_plan:
  assumes "\<not> starts_with (to_lowercase (trim_start sql)) ''analyze''"
  shows "explain_cells db (''EXPLAIN (FORMAT JSON) '' @ sql) c = (Ok cs, c1) \<Longrightarrow>
      \<exists>r. run_explain db parse sql c = (Ok r, c1) \<and> raw_plan r = join [newline] cs"
    and "explain_cells db (''EXPLAIN (FORMAT JSON) '' @ sql) c = (Err e, c1) \<Longrightarrow> explain_cells db (''EXPLAIN '' @ sql) c1 = (Ok cs, c2) \<Longrightarrow>
      \<exists>r. run_explain db parse sql c = (Ok r, c2) \<and> raw_plan r = join [newline] cs"
  using assms by (simp_all add: run_explain_def explain_result_def Let_def)

text \<open>The guard looks only at the first word. With the option in parentheses it does not see it, the
  JSON form is refused by the engine, and the text form sent next runs the statement.\<close>

lemma explain_analyze_slips_through:
  assumes "explain_cells db ''EXPLAIN (FORMAT JSON) (ANALYZE) DELETE FROM t'' c = (Err e, c1)"
  shows "snd (run_explain db parse ''(ANALYZE) DELETE FROM t'' c) = snd (explain_cells db ''EXPLAIN (ANALYZE) DELETE FROM t'' c1)"
proof -
  have g: "\<not> starts_with (to_lowercase (trim_start ''(ANALYZE) DELETE FROM t'')) ''analyze''" by code_simp
  show ?thesis using assms g by (simp add: run_explain_def split: prod.split sum.split)
qed

end
