(* ===== verification/Engine_Txn.thy ===== *)
theory Engine_Txn
  imports Engine_Explain Lineage_Events
begin

text \<open>
  Running statements on a pond (\<open>latiq-engine-duckdb/src/exec.rs\<close> and \<open>duck_engine.rs\<close>): the
  read-only bracket, the one bracket through which everything that writes goes, and the engine's
  operations built on them. A connection's state is threaded through the calls of \<open>duckdb\<close>; the
  elapsed milliseconds of a statement are the argument \<open>ms\<close>, \<open>to_text\<close> prints JSON.
\<close>

section \<open>Fetching rows\<close>

fun fetch_cells :: "(Value \<Rightarrow> string) \<Rightarrow> cells \<Rightarrow> (EngineError, Value list) result" where
  "fetch_cells to_text [] = Ok []"
| "fetch_cells to_text (Inl e # cs) = Err (classify_message e)"
| "fetch_cells to_text (Inr v # cs) = map_ok (\<lambda>vs. value_to_json to_text v # vs) (fetch_cells to_text cs)"

fun fetch_rows :: "(Value \<Rightarrow> string) \<Rightarrow> (string, cells) result list \<Rightarrow> (EngineError, Value list list) result" where
  "fetch_rows to_text [] = Ok []"
| "fetch_rows to_text (Inl e # rows) = Err (classify_message e)"
| "fetch_rows to_text (Inr row # rows) =
     (case fetch_cells to_text row of
        Inl e \<Rightarrow> Err e
      | Inr vs \<Rightarrow> map_ok (\<lambda>rest. vs # rest) (fetch_rows to_text rows))"

definition materialize :: "'c duckdb \<Rightarrow> (Value \<Rightarrow> string) \<Rightarrow> string \<Rightarrow> 'c \<Rightarrow> (EngineError, string list \<times> Value list list) result \<times> 'c" where
  "materialize db to_text sql c =
     (if trim sql = [] then (Err (E_Parse ''The statement is empty -- there is nothing to run.''), c)
      else case d_query db sql c of
        (Inl e, c') \<Rightarrow> (Err (classify_message e), c')
      | (Inr (columns, rows), c') \<Rightarrow> (map_ok (\<lambda>rs. (columns, rs)) (fetch_rows to_text rows), c'))"

definition run_read :: "'c duckdb \<Rightarrow> (Value \<Rightarrow> string) \<Rightarrow> nat \<Rightarrow> string \<Rightarrow> 'c \<Rightarrow> (EngineError, QueryResult) result \<times> 'c" where
  "run_read db to_text ms sql c =
     (if classify sql = Write then (Err E_ReadOnlyViolation, c)
      else case materialize db to_text sql c of
        (Inl e, c') \<Rightarrow> (Err e, c')
      | (Inr (columns, rows), c') \<Rightarrow>
          (Ok \<lparr>qr_columns = columns, qr_rows = rows, qr_meta = meta_default\<lparr>qm_rows := length rows, qm_duration_ms := ms\<rparr>\<rparr>, c'))"

section \<open>The read-only bracket\<close>

definition rollback :: "'c duckdb \<Rightarrow> 'c \<Rightarrow> 'c" where
  "rollback db c = snd (d_exec db ''ROLLBACK'' c)"

definition in_read_txn :: "'c duckdb \<Rightarrow> ('c \<Rightarrow> (EngineError, 'a) result \<times> 'c) \<Rightarrow> 'c \<Rightarrow> (EngineError, 'a) result \<times> 'c" where
  "in_read_txn db f c =
     (case d_exec db ''BEGIN TRANSACTION READ ONLY'' c of
        (Inl e, c1) \<Rightarrow> (Err (E_Engine e), c1)
      | (Inr _, c1) \<Rightarrow>
          (case f c1 of
             (Inl e, c2) \<Rightarrow> (Err e, rollback db c2)
           | (Inr v, c2) \<Rightarrow>
               (case d_exec db ''COMMIT'' c2 of
                  (Inl e, c3) \<Rightarrow> (Err (E_Engine e), rollback db c3)
                | (Inr _, c3) \<Rightarrow> (Ok v, c3))))"

section \<open>The attribution bracket\<close>

definition snapshot_query :: "string \<Rightarrow> string" where
  "snapshot_query cat = ''SELECT max(snapshot_id) FROM '' @ engine_quote_ident cat @ ''.snapshots()''"

definition max_snapshot :: "'c duckdb \<Rightarrow> string \<Rightarrow> 'c \<Rightarrow> int option \<times> 'c" where
  "max_snapshot db cat c =
     (case d_int db (snapshot_query cat) c of (Inr n, c') \<Rightarrow> (n, c') | (Inl _, c') \<Rightarrow> (None, c'))"

definition author_of :: "Identity \<Rightarrow> string" where
  "author_of ident = (if verified ident then subject ident else agent_id ident)"

definition extra_info :: "Identity \<Rightarrow> string option \<Rightarrow> Value" where
  "extra_info ident tid =
     json_object ([(''agent_id'', JString (agent_id ident)), (''issuer'', JString (issuer ident)),
                   (''verified'', JBool (verified ident))]
                  @ (case tid of Some t \<Rightarrow> [(''trace_id'', JString t)] | None \<Rightarrow> []))"

definition commit_call :: "string \<Rightarrow> string \<Rightarrow> string \<Rightarrow> string \<Rightarrow> string" where
  "commit_call cat author op xtra =
     ''CALL '' @ engine_quote_ident cat @ ''.set_commit_message('' @ lit author @ '', '' @ lit op @
     '', extra_info => '' @ lit xtra @ '')''"

text \<open>The order on \<open>Option\<close>: \<open>None\<close> is below everything.\<close>

definition newer :: "int option \<Rightarrow> int option \<Rightarrow> bool" where
  "newer after bef = (case (after, bef) of
      (None, _) \<Rightarrow> False | (Some _, None) \<Rightarrow> True | (Some a, Some b) \<Rightarrow> b < a)"

text \<open>The end of the bracket: the commit message last, then the commit, then the question whether the
  newest snapshot moved.\<close>

definition finish_write :: "'c duckdb \<Rightarrow> string \<Rightarrow> string \<Rightarrow> int option \<Rightarrow> 'a \<Rightarrow> 'c \<Rightarrow> (EngineError, 'a \<times> int option) result \<times> 'c" where
  "finish_write db cat call bef v c2 =
     (case d_exec db call c2 of
        (Inl e, c3) \<Rightarrow> (Err (E_Engine e), rollback db c3)
      | (Inr _, c3) \<Rightarrow>
          (case d_exec db ''COMMIT'' c3 of
             (Inl e, c4) \<Rightarrow> (Err (E_Engine e), rollback db c4)
           | (Inr _, c4) \<Rightarrow>
               (case max_snapshot db cat c4 of (after, c5) \<Rightarrow>
                  (Ok (v, if newer after bef then after else None), c5))))"

definition in_write_txn :: "'c duckdb \<Rightarrow> (Value \<Rightarrow> string) \<Rightarrow> Identity \<Rightarrow> string option \<Rightarrow> string \<Rightarrow> string
    \<Rightarrow> ('c \<Rightarrow> (EngineError, 'a) result \<times> 'c) \<Rightarrow> 'c \<Rightarrow> (EngineError, 'a \<times> int option) result \<times> 'c" where
  "in_write_txn db to_text ident tid cat op body c =
     (case max_snapshot db cat c of (bef, c0) \<Rightarrow>
      (case d_exec db ''BEGIN'' c0 of
         (Inl e, c1) \<Rightarrow> (Err (E_Engine e), c1)
       | (Inr _, c1) \<Rightarrow>
           (case body c1 of
              (Inl e, c2) \<Rightarrow> (Err e, rollback db c2)
            | (Inr v, c2) \<Rightarrow>
                finish_write db cat (commit_call cat (author_of ident) op (to_text (extra_info ident tid))) bef v c2)))"

definition run_write :: "'c duckdb \<Rightarrow> (Value \<Rightarrow> string) \<Rightarrow> nat \<Rightarrow> string \<Rightarrow> Identity \<Rightarrow> string option \<Rightarrow> string \<Rightarrow> 'c
    \<Rightarrow> (EngineError, QueryResult) result \<times> 'c" where
  "run_write db to_text ms sql ident tid cat c =
     (case in_write_txn db to_text ident tid cat ''write_query'' (materialize db to_text sql) c of
        (Inl e, c') \<Rightarrow> (Err e, c')
      | (Inr ((columns, rows), snap), c') \<Rightarrow>
          (Ok (if snap \<noteq> None
               then \<lparr>qr_columns = [], qr_rows = [], qr_meta = meta_default\<lparr>snapshot_id := snap, qm_duration_ms := ms\<rparr>\<rparr>
               else \<lparr>qr_columns = columns, qr_rows = rows, qr_meta = meta_default\<lparr>qm_rows := length rows, qm_duration_ms := ms\<rparr>\<rparr>), c'))"

section \<open>The engine's operations (duck\_engine.rs)\<close>

type_synonym PlanDatasets = "(DatasetRef list \<times> DatasetRef list) option"

definition duck_plan_datasets :: "'c duckdb \<Rightarrow> (string \<Rightarrow> Value option) \<Rightarrow> PondLocation \<Rightarrow> string \<Rightarrow> 'c \<Rightarrow> PlanDatasets \<times> 'c" where
  "duck_plan_datasets db parse loc sql c =
     (if loc_lineage loc then (case referenced_tables db parse sql c of (dss, c') \<Rightarrow> (Some dss, c')) else (None, c))"

definition annotate :: "'c duckdb \<Rightarrow> PondLocation \<Rightarrow> PlanDatasets \<Rightarrow> 'c \<Rightarrow> PlanDatasets \<times> 'c" where
  "annotate db loc dss c =
     (case dss of None \<Rightarrow> (None, c)
      | Some x \<Rightarrow> (case annotate_schemas db (catalog_name loc) x c of (y, c') \<Rightarrow> (Some y, c')))"

definition apply_datasets :: "PlanDatasets \<Rightarrow> QueryMeta \<Rightarrow> QueryMeta" where
  "apply_datasets dss m = (case dss of None \<Rightarrow> m | Some (ins, outs) \<Rightarrow> set_datasets ins outs m)"

definition upper_char :: "char \<Rightarrow> char" where
  "upper_char ch = (if is_ascii_lower ch then char_of (code ch - 32) else ch)"

text \<open>The result of an operation under the abort watcher: an interrupted statement is a cancelled one.\<close>

definition normalize_abort :: "(EngineError, 'a) result \<Rightarrow> (EngineError, 'a) result" where
  "normalize_abort r = (case r of
      Inl (E_Engine m) \<Rightarrow> (if contains_str (map upper_char m) ''INTERRUPT'' then Err E_Cancelled else r)
    | _ \<Rightarrow> r)"

definition run_with_abort :: "('c \<Rightarrow> (EngineError, 'a) result \<times> 'c) \<Rightarrow> 'c \<Rightarrow> (EngineError, 'a) result \<times> 'c" where
  "run_with_abort f c = (case f c of (r, c') \<Rightarrow> (normalize_abort r, c'))"

text \<open>The wait for the writer: at each poll the lock is free or not and the token cancelled or not;
  no answer while it waits.\<close>

fun lock_writer :: "(bool \<times> bool) list \<Rightarrow> (EngineError, unit) result option" where
  "lock_writer [] = None"
| "lock_writer ((free, cancelled) # polls) =
     (if free then Some (Ok ()) else if cancelled then Some (Err E_Cancelled) else lock_writer polls)"

text \<open>A read on a pooled connection: its result, and whether the connection may be reused.\<close>

definition with_read :: "('c \<Rightarrow> (EngineError, 'a) result \<times> 'c) \<Rightarrow> 'c \<Rightarrow> (EngineError, 'a) result \<times> bool \<times> 'c" where
  "with_read f c = (case f c of (out, c') \<Rightarrow> (out, is_ok out, c'))"

definition duck_read_query :: "'c duckdb \<Rightarrow> (string \<Rightarrow> Value option) \<Rightarrow> (Value \<Rightarrow> string) \<Rightarrow> nat \<Rightarrow> PondLocation \<Rightarrow> string \<Rightarrow> 'c
    \<Rightarrow> (EngineError, QueryResult) result \<times> bool \<times> 'c" where
  "duck_read_query db parse to_text ms loc sql c =
     (if classify sql = Write then (Err E_ReadOnlyViolation, True, c)
      else with_read (run_with_abort (in_read_txn db (\<lambda>c1.
        (case duck_plan_datasets db parse loc sql c1 of (dss, c2) \<Rightarrow>
         (case annotate db loc dss c2 of (dss', c3) \<Rightarrow>
          (case run_read db to_text ms sql c3 of
             (Inl e, c4) \<Rightarrow> (Err e, c4)
           | (Inr res, c4) \<Rightarrow> (Ok (res\<lparr>qr_meta := apply_datasets dss' (qr_meta res)\<rparr>), c4))))))) c)"

text \<open>A write. \<open>armed\<close> is the connection while the abort watcher may interrupt its statements, \<open>db\<close>
  the same connection once the watcher has been joined.\<close>

definition duck_write_query :: "'c duckdb \<Rightarrow> 'c duckdb \<Rightarrow> (string \<Rightarrow> Value option) \<Rightarrow> (Value \<Rightarrow> string) \<Rightarrow> nat \<Rightarrow> PondLocation
    \<Rightarrow> string \<Rightarrow> Identity \<Rightarrow> string option \<Rightarrow> 'c \<Rightarrow> (EngineError, QueryResult) result \<times> 'c" where
  "duck_write_query db armed parse to_text ms loc sql ident tid c =
     (case run_with_abort (\<lambda>c1.
         (case duck_plan_datasets armed parse loc sql c1 of (dss, c2) \<Rightarrow>
          (case run_write armed to_text ms sql ident tid (catalog_name loc) c2 of
             (Inl e, c3) \<Rightarrow> (Err e, c3)
           | (Inr res, c3) \<Rightarrow>
               (case annotate armed loc dss c3 of (dss', c4) \<Rightarrow>
                  (Ok (res\<lparr>qr_meta := apply_datasets dss' (qr_meta res)\<rparr>), c4))))) c of
        (out, c') \<Rightarrow> (out, if is_err out then rollback db c' else c'))"

definition plan_meta :: "'c duckdb \<Rightarrow> (string \<Rightarrow> Value option) \<Rightarrow> PondLocation \<Rightarrow> string \<Rightarrow> 'c \<Rightarrow> QueryMeta option \<times> bool \<times> 'c" where
  "plan_meta db parse loc sql c =
     (if \<not> loc_lineage loc then (None, True, c)
      else case with_read (\<lambda>c1. case referenced_tables db parse sql c1 of (dss, c2) \<Rightarrow> (Ok dss, c2)) c of
        (Inl _, reusable, c') \<Rightarrow> (None, reusable, c')
      | (Inr (ins, outs), reusable, c') \<Rightarrow>
          (if ins = [] \<and> outs = [] then None else Some (set_datasets ins outs meta_default), reusable, c'))"

text \<open>Mounting and unmounting an external catalog.\<close>

definition attach_steps :: "AttachPlan \<Rightarrow> step list" where
  "attach_steps p =
     [no_autoinstall]
     @ map (\<lambda>(ext, s). (s, extension_not_cached ext ''required by this catalog type, for the transient attach behind pull_catalog'')) (ap_load p)
     @ map (\<lambda>(_, s). (s, classify_message)) (ap_secrets p)
     @ [(ap_attach p, classify_message)]"

definition teardown_catalog :: "'c duckdb \<Rightarrow> AttachPlan \<Rightarrow> 'c \<Rightarrow> 'c" where
  "teardown_catalog db p c = fold (\<lambda>s c. snd (d_exec db s c)) (plan_teardown p) c"

definition attach_catalog :: "'c duckdb \<Rightarrow> AttachPlan \<Rightarrow> 'c \<Rightarrow> (EngineError, unit) result \<times> 'c" where
  "attach_catalog db p c =
     (case run_steps db (attach_steps p) c of
        (Inr u, c') \<Rightarrow> (Ok u, c')
      | (Inl e, c') \<Rightarrow> (Err e, teardown_catalog db p c'))"

definition pull_meta :: "AttachPlan \<Rightarrow> int option \<Rightarrow> PlanDatasets \<Rightarrow> QueryMeta" where
  "pull_meta p snap dss =
     apply_datasets
       (map_option (\<lambda>(ins, outs). (map (externalize (ap_alias p) (ap_namespace p)) ins, map (externalize (ap_alias p) (ap_namespace p)) outs)) dss)
       (meta_default\<lparr>snapshot_id := snap\<rparr>)"

definition duck_pull_catalog :: "'c duckdb \<Rightarrow> (string \<Rightarrow> Value option) \<Rightarrow> (Value \<Rightarrow> string) \<Rightarrow> PondLocation \<Rightarrow> string \<Rightarrow> string \<Rightarrow> params
    \<Rightarrow> string \<Rightarrow> Identity \<Rightarrow> string option \<Rightarrow> 'c \<Rightarrow> (EngineError, QueryMeta) result \<times> 'c" where
  "duck_pull_catalog db parse to_text loc ty alias ps query ident tid c =
     (case attach_plan ty alias ps of
        Inl e \<Rightarrow> (Err e, c)
      | Inr p \<Rightarrow>
          (case attach_catalog db p c of
             (Inl e, c1) \<Rightarrow> (Err e, c1)
           | (Inr _, c1) \<Rightarrow>
               (case duck_plan_datasets db parse loc query c1 of (dss, c2) \<Rightarrow>
                (case in_write_txn db to_text ident tid (catalog_name loc) ''pull_catalog''
                        (\<lambda>c. case d_exec db query c of (r, c') \<Rightarrow> (map_err classify_message r, c')) c2 of
                   (outcome_, c3) \<Rightarrow>
                     (let c4 = teardown_catalog db p c3 in
                      case outcome_ of
                        Inl e \<Rightarrow> (Err e, c4)
                      | Inr (_, snap) \<Rightarrow>
                          (case annotate db loc dss c4 of (dss', c5) \<Rightarrow> (Ok (pull_meta p snap dss'), c5)))))))"

definition tables_query :: "string \<Rightarrow> string" where
  "tables_query alias = ''SELECT table_schema, table_name FROM information_schema.tables WHERE table_catalog = '' @ lit alias @
     '' ORDER BY table_schema, table_name''"

definition cell_text :: "Value list \<Rightarrow> nat \<Rightarrow> string" where
  "cell_text row i = (if i < length row then (case as_str (row ! i) of Some s \<Rightarrow> s | None \<Rightarrow> []) else [])"

definition duck_describe_catalog :: "'c duckdb \<Rightarrow> (Value \<Rightarrow> string) \<Rightarrow> nat \<Rightarrow> string \<Rightarrow> string \<Rightarrow> params \<Rightarrow> 'c
    \<Rightarrow> (EngineError, (string \<times> string) list) result \<times> 'c" where
  "duck_describe_catalog db to_text ms ty alias ps c =
     (case attach_plan ty alias ps of
        Inl e \<Rightarrow> (Err e, c)
      | Inr p \<Rightarrow>
          (case attach_catalog db p c of
             (Inl e, c1) \<Rightarrow> (Err e, c1)
           | (Inr _, c1) \<Rightarrow>
               (case run_read db to_text ms (tables_query alias) c1 of (listed, c2) \<Rightarrow>
                  (map_ok (\<lambda>res. map (\<lambda>r. (cell_text r 0, cell_text r 1)) (qr_rows res)) listed, teardown_catalog db p c2))))"

text \<open>The tables of a pond: columns are grouped by the table's name, and taken by the first table of
  that name.\<close>

definition by_table :: "Value list list \<Rightarrow> string \<Rightarrow> (string \<times> string) list" where
  "by_table cols name = map (\<lambda>r. (cell_text r 1, cell_text r 2)) (filter (\<lambda>r. cell_text r 0 = name) cols)"

fun describe_tables :: "Value list list \<Rightarrow> string set \<Rightarrow> Value list list \<Rightarrow> SchemaSummary" where
  "describe_tables cols taken [] = []"
| "describe_tables cols taken (r # rs) =
     \<lparr>ti_name = cell_text r 0,
      ti_columns = (if cell_text r 0 \<in> taken then [] else by_table cols (cell_text r 0)),
      row_count_estimate = (if 1 < length r then (case as_u64 (r ! 1) of Some n \<Rightarrow> n | None \<Rightarrow> 0) else 0),
      ti_comment = (if 2 < length r then as_str (r ! 2) else None)\<rparr>
     # describe_tables cols (insert (cell_text r 0) taken) rs"

definition duck_describe_schema :: "'c duckdb \<Rightarrow> (Value \<Rightarrow> string) \<Rightarrow> nat \<Rightarrow> PondLocation \<Rightarrow> 'c \<Rightarrow> (EngineError, SchemaSummary) result \<times> bool \<times> 'c" where
  "duck_describe_schema db to_text ms loc c =
     (let cat = lit (catalog_name loc) in
      case with_read (\<lambda>c1.
        (case run_read db to_text ms (''SELECT table_name AS name, estimated_size AS row_count, comment FROM duckdb_tables() WHERE database_name = '' @ cat) c1 of
           (Inl e, c2) \<Rightarrow> (Err e, c2)
         | (Inr tables, c2) \<Rightarrow>
             (case run_read db to_text ms (''SELECT table_name, column_name, data_type FROM duckdb_columns() WHERE database_name = '' @ cat @ '' ORDER BY table_name, column_index'') c2 of
                (Inl e, c3) \<Rightarrow> (Err e, c3)
              | (Inr cols, c3) \<Rightarrow> (Ok (tables, cols), c3)))) c of
        (r, reusable, c') \<Rightarrow> (map_ok (\<lambda>(tables, cols). describe_tables (qr_rows cols) {} (qr_rows tables)) r, reusable, c'))"

text \<open>The cache of open ponds, by catalog: an instance opened under other limits is replaced.\<close>

record 'p cached =
  cp_limits :: "ResourceLimits option"
  cp_pond :: 'p

definition engine_pond :: "(PondLocation \<Rightarrow> (EngineError, 'p) result) \<Rightarrow> PondLocation \<Rightarrow> (string \<rightharpoonup> 'p cached)
    \<Rightarrow> (EngineError, 'p) result \<times> (string \<rightharpoonup> 'p cached)" where
  "engine_pond opn loc m =
     (let reopen = (\<lambda>m'. case opn loc of
            Inl e \<Rightarrow> (Err e, m')
          | Inr p \<Rightarrow> (Ok p, m'(catalog_uri loc \<mapsto> \<lparr>cp_limits = limits loc, cp_pond = p\<rparr>)))
      in case m (catalog_uri loc) of
           Some p \<Rightarrow> (if cp_limits p = limits loc then (Ok (cp_pond p), m) else reopen (m(catalog_uri loc := None)))
         | None \<Rightarrow> reopen m)"

definition engine_forget_pond :: "PondLocation \<Rightarrow> (string \<rightharpoonup> 'p cached) \<Rightarrow> (string \<rightharpoonup> 'p cached)" where
  "engine_forget_pond loc m = m(catalog_uri loc := None)"

definition open_pond_count :: "(string \<rightharpoonup> 'p cached) \<Rightarrow> nat" where
  "open_pond_count m = card (dom m)"

text \<open>Opening a pond's resources: the writer and a clone of it from which readers are made; \<open>try_clone\<close>
  is what cloning the connection gives.\<close>

definition pond_resources :: "'c duckdb \<Rightarrow> (string, 'c) result \<Rightarrow> ('c \<Rightarrow> (string, 'c) result) \<Rightarrow> (EngineError, unit) result \<Rightarrow> PondLocation
    \<Rightarrow> (EngineError, 'c \<times> 'c) result" where
  "pond_resources db opened try_clone std loc =
     (case instance_open db opened std loc of
        Inl e \<Rightarrow> Err e
      | Inr (writer, alias) \<Rightarrow>
          (case clone_for_read db (try_clone writer) alias of Inl e \<Rightarrow> Err e | Inr (source, _) \<Rightarrow> Ok (writer, source)))"

definition engine_init_pond :: "(PondLocation \<Rightarrow> (EngineError, 'p) result) \<Rightarrow> PondLocation \<Rightarrow> (string \<rightharpoonup> 'p cached)
    \<Rightarrow> (EngineError, unit) result \<times> (string \<rightharpoonup> 'p cached)" where
  "engine_init_pond opn loc m = (case engine_pond opn loc m of (r, m') \<Rightarrow> (map_ok (\<lambda>_. ()) r, m'))"

definition duck_explain_query :: "'c duckdb \<Rightarrow> (string \<Rightarrow> (string, Value) result) \<Rightarrow> string \<Rightarrow> 'c \<Rightarrow> (EngineError, ExplainResult) result \<times> bool \<times> 'c" where
  "duck_explain_query db parse sql c = with_read (run_explain db parse sql) c"

end
