(* ===== verification/Engine_Txn_Facts.thy ===== *)
theory Engine_Txn_Facts
  imports Engine_Txn
begin

text \<open>
  What the brackets of \<open>Engine_Txn\<close> guarantee. The engine is a parameter; what is relied on of it is
  stated as laws about a view of a connection: the published snapshots of the pond's catalog with
  their attribution, whether a transaction is open, the commit message set in it, and the secrets
  that exist. The laws are the documented behaviour of transactions: only a commit publishes, a
  rollback that succeeds ends the transaction, a query for the newest snapshot only reads.
\<close>

section \<open>The view and its laws\<close>

record commit =
  cm_snapshot :: int
  cm_note :: "(string \<times> string \<times> string) option"

record 'c view =
  v_hist :: "'c \<Rightarrow> commit list"
  v_open :: "'c \<Rightarrow> bool"
  v_note :: "'c \<Rightarrow> (string \<times> string \<times> string) option"
  v_secrets :: "'c \<Rightarrow> string set"
  v_attached :: "'c \<Rightarrow> string set"

definition latest :: "commit list \<Rightarrow> int option" where
  "latest h = (if h = [] then None else Some (cm_snapshot (last h)))"

definition begins :: "'c duckdb \<Rightarrow> 'c view \<Rightarrow> bool" where
  "begins db vw \<longleftrightarrow> (\<forall>s c. s \<in> {''BEGIN'', ''BEGIN TRANSACTION READ ONLY''} \<longrightarrow> \<not> v_open vw c \<longrightarrow>
     (case d_exec db s c of (r, c') \<Rightarrow> v_hist vw c' = v_hist vw c \<and> v_open vw c' = is_ok r))"

definition sets_note :: "'c duckdb \<Rightarrow> string \<Rightarrow> 'c view \<Rightarrow> bool" where
  "sets_note db cat vw \<longleftrightarrow> (\<forall>c a o' x. v_open vw c \<longrightarrow>
     (case d_exec db (commit_call cat a o' x) c of (r, c') \<Rightarrow>
        v_hist vw c' = v_hist vw c \<and> v_open vw c' \<and> (is_ok r \<longrightarrow> v_note vw c' = Some (a, o', x))))"

definition commits :: "'c duckdb \<Rightarrow> 'c view \<Rightarrow> bool" where
  "commits db vw \<longleftrightarrow> (\<forall>c. v_open vw c \<longrightarrow>
     (case d_exec db ''COMMIT'' c of
        (Inl _, c') \<Rightarrow> v_hist vw c' = v_hist vw c
      | (Inr _, c') \<Rightarrow> \<not> v_open vw c' \<and>
          (v_hist vw c' = v_hist vw c
           \<or> (\<exists>n. (\<forall>m \<in> set (v_hist vw c). cm_snapshot m < n)
                \<and> v_hist vw c' = v_hist vw c @ [\<lparr>cm_snapshot = n, cm_note = v_note vw c\<rparr>]))))"

definition rolls_back :: "'c duckdb \<Rightarrow> 'c view \<Rightarrow> bool" where
  "rolls_back db vw \<longleftrightarrow> (\<forall>c. case d_exec db ''ROLLBACK'' c of (r, c') \<Rightarrow>
     v_hist vw c' = v_hist vw c \<and> (is_ok r \<longrightarrow> \<not> v_open vw c'))"

text \<open>A call that changes nothing the view shows of transactions.\<close>

definition quiet :: "'c view \<Rightarrow> 'c \<Rightarrow> 'c \<Rightarrow> bool" where
  "quiet vw c c' \<longleftrightarrow> v_hist vw c' = v_hist vw c \<and> v_open vw c' = v_open vw c"

definition tells_latest :: "'c duckdb \<Rightarrow> string \<Rightarrow> 'c view \<Rightarrow> bool" where
  "tells_latest db cat vw \<longleftrightarrow> (\<forall>c. case d_int db (snapshot_query cat) c of (r, c') \<Rightarrow>
     quiet vw c c' \<and> r = Ok (latest (v_hist vw c)))"

definition txn_laws :: "'c duckdb \<Rightarrow> string \<Rightarrow> 'c view \<Rightarrow> bool" where
  "txn_laws db cat vw \<longleftrightarrow> begins db vw \<and> sets_note db cat vw \<and> commits db vw \<and> rolls_back db vw \<and> tells_latest db cat vw"

text \<open>Work that stays inside its transaction: no statement of it publishes or ends it. This is what
  a statement without transaction control does.\<close>

definition stays_inside :: "'c view \<Rightarrow> ('c \<Rightarrow> (EngineError, 'a) result \<times> 'c) \<Rightarrow> bool" where
  "stays_inside vw body \<longleftrightarrow> (\<forall>c. v_open vw c \<longrightarrow> quiet vw c (snd (body c)))"

text \<open>The lookups made for lineage read only.\<close>

definition lookups_quiet :: "'c duckdb \<Rightarrow> string \<Rightarrow> 'c view \<Rightarrow> bool" where
  "lookups_quiet db cat vw \<longleftrightarrow> (\<forall>q s c. quiet vw c (snd (d_bound db q s c))) \<and> (\<forall>w c. quiet vw c (snd (d_query db (schema_query cat w) c)))"

text \<open>A rollback nobody interrupts leaves no transaction open.\<close>

definition recovers :: "'c duckdb \<Rightarrow> 'c view \<Rightarrow> bool" where
  "recovers db vw \<longleftrightarrow> rolls_back db vw \<and> (\<forall>c. \<not> v_open vw (snd (d_exec db ''ROLLBACK'' c)))"

text \<open>Dropping a secret removes it and detaching a catalog removes it, when the engine accepts the
  statement; a statement it refuses changes neither, and the lookup for columns touches neither.\<close>

definition unmounts :: "'c duckdb \<Rightarrow> string \<Rightarrow> 'c view \<Rightarrow> bool" where
  "unmounts db cat vw \<longleftrightarrow>
     (\<forall>n c. case d_exec db (''DROP SECRET IF EXISTS '' @ n) c of (r, c') \<Rightarrow>
        v_secrets vw c' = (if is_ok r then v_secrets vw c - {n} else v_secrets vw c) \<and> v_attached vw c' = v_attached vw c)
   \<and> (\<forall>a c. case d_exec db (''DETACH '' @ engine_quote_ident a) c of (r, c') \<Rightarrow>
        v_secrets vw c' = v_secrets vw c \<and> v_attached vw c' = (if is_ok r then v_attached vw c - {a} else v_attached vw c))
   \<and> (\<forall>w c. let c' = snd (d_query db (schema_query cat w) c) in
        v_secrets vw c' = v_secrets vw c \<and> v_attached vw c' = v_attached vw c)"

text \<open>The statements of a list the engine refuses when they are run one after the other, whatever the
  earlier ones gave.\<close>

fun refused_statements :: "'c duckdb \<Rightarrow> string list \<Rightarrow> 'c \<Rightarrow> string set" where
  "refused_statements db [] c = {}"
| "refused_statements db (s # ss) c =
     (if is_ok (fst (d_exec db s c)) then {} else {s}) \<union> refused_statements db ss (snd (d_exec db s c))"

section \<open>Lemmas\<close>

lemma beginsD:
  assumes "begins db vw" "\<not> v_open vw c" "d_exec db s c = (r, c')" "s \<in> {''BEGIN'', ''BEGIN TRANSACTION READ ONLY''}"
  shows "v_hist vw c' = v_hist vw c" "v_open vw c' = is_ok r"
  using assms(1) [unfolded begins_def, rule_format, OF assms(4,2)] assms(3) by simp_all

lemma sets_noteD:
  assumes "sets_note db cat vw" "v_open vw c" "d_exec db (commit_call cat a o' x) c = (r, c')"
  shows "v_hist vw c' = v_hist vw c" "v_open vw c'" "is_ok r \<Longrightarrow> v_note vw c' = Some (a, o', x)"
  using assms(1) [unfolded sets_note_def, rule_format, OF assms(2), of a o' x] assms(3) by simp_all

lemma commitsD:
  assumes "commits db vw" "v_open vw c" "d_exec db ''COMMIT'' c = (r, c')"
  obtains (failed) e where "r = Inl e" "v_hist vw c' = v_hist vw c"
  | (nothing) "r = Inr ()" "\<not> v_open vw c'" "v_hist vw c' = v_hist vw c"
  | (published) n where "r = Inr ()" "\<not> v_open vw c'" "\<forall>m \<in> set (v_hist vw c). cm_snapshot m < n"
      "v_hist vw c' = v_hist vw c @ [\<lparr>cm_snapshot = n, cm_note = v_note vw c\<rparr>]"
  using assms(1) [unfolded commits_def, rule_format, OF assms(2)] assms(3) by (cases r) auto

lemma rolls_backD:
  assumes "rolls_back db vw" "d_exec db ''ROLLBACK'' c = (r, c')"
  shows "v_hist vw c' = v_hist vw c" "is_ok r \<Longrightarrow> \<not> v_open vw c'"
  using assms(1) [unfolded rolls_back_def, rule_format, of c] assms(2) by simp_all

lemma rollback_hist: "rolls_back db vw \<Longrightarrow> v_hist vw (rollback db c) = v_hist vw c"
  using rolls_backD(1) [of db vw c] by (cases "d_exec db ''ROLLBACK'' c") (simp add: rollback_def)

lemma max_snapshot_latest:
  assumes "tells_latest db cat vw" "max_snapshot db cat c = (n, c')"
  shows "n = latest (v_hist vw c)" "v_hist vw c' = v_hist vw c" "v_open vw c' = v_open vw c"
  using assms(1) [unfolded tells_latest_def, rule_format, of c] assms(2)
  by (auto simp: max_snapshot_def quiet_def split: prod.splits)

lemma newer_latest:
  "newer (latest h) (latest h) = False"
  "\<forall>m \<in> set h. cm_snapshot m < cm_snapshot x \<Longrightarrow> newer (latest (h @ [x])) (latest h)"
  by (auto simp: newer_def latest_def)

text \<open>What a run of the bracket left, by outcome; \<open>h\<close> is the history before it.\<close>

definition write_outcome :: "'c view \<Rightarrow> (string \<times> string \<times> string) \<Rightarrow> commit list \<Rightarrow> (EngineError, 'a \<times> int option) result \<times> 'c \<Rightarrow> bool" where
  "write_outcome vw note h out \<longleftrightarrow> (case out of
      (Inl _, c') \<Rightarrow> v_hist vw c' = h
    | (Inr (_, None), c') \<Rightarrow> v_hist vw c' = h \<and> \<not> v_open vw c'
    | (Inr (_, Some n), c') \<Rightarrow> v_hist vw c' = h @ [\<lparr>cm_snapshot = n, cm_note = Some note\<rparr>] \<and> \<not> v_open vw c')"

lemma write_outcome_Err [simp]: "write_outcome vw note h (Err e, c') \<longleftrightarrow> v_hist vw c' = h"
  by (simp add: write_outcome_def)

lemma finish_write_outcome:
  assumes laws: "txn_laws db cat vw" and opn: "v_open vw c" and bef: "bef = latest (v_hist vw c)"
  shows "write_outcome vw (a, o', x) (v_hist vw c) (finish_write db cat (commit_call cat a o' x) bef v c)"
proof -
  note L = laws [unfolded txn_laws_def]
  obtain r3 c3 where s3: "d_exec db (commit_call cat a o' x) c = (r3, c3)" by fastforce
  have L3: "sets_note db cat vw" "commits db vw" "rolls_back db vw" "tells_latest db cat vw" using L by simp_all
  note q3 = sets_noteD [OF L3(1) opn s3]
  show ?thesis
  proof (cases r3)
    case (Inl e)
    then show ?thesis using s3 q3 rollback_hist [OF L3(3)] by (simp add: finish_write_def)
  next
    case r3: (Inr u)
    obtain r4 c4 where s4: "d_exec db ''COMMIT'' c3 = (r4, c4)" by fastforce
    obtain after c5 where s5: "max_snapshot db cat c4 = (after, c5)" by fastforce
    note q5 = max_snapshot_latest [OF L3(4) s5]
    have run: "r4 = Inr w \<Longrightarrow> finish_write db cat (commit_call cat a o' x) bef v c = (Ok (v, if newer after bef then after else None), c5)" for w
      using s3 s4 s5 r3 by (simp add: finish_write_def)
    from L3(2) q3(2) s4 show ?thesis
    proof (cases rule: commitsD)
      case (failed e)
      then show ?thesis using s3 s4 r3 q3(1) rollback_hist [OF L3(3), of c4] by (simp add: finish_write_def)
    next
      case nothing
      then show ?thesis using run q3(1) q5 by (simp add: write_outcome_def bef newer_latest(1))
    next
      case (published n)
      have "newer after bef" "after = Some n"
        using published newer_latest(2) [of "v_hist vw c" "\<lparr>cm_snapshot = n, cm_note = v_note vw c3\<rparr>"] q3(1) q5(1)
        by (simp_all add: bef latest_def)
      then show ?thesis using run published q3 q5 r3 by (simp add: write_outcome_def)
    qed
  qed
qed

lemma in_write_txn_outcome:
  assumes laws: "txn_laws db cat vw" and body: "stays_inside vw body" and idle: "\<not> v_open vw c"
  shows "write_outcome vw (author_of ident, op, to_text (extra_info ident tid)) (v_hist vw c)
           (in_write_txn db to_text ident tid cat op body c)"
proof -
  have L: "begins db vw" "rolls_back db vw" "tells_latest db cat vw" using laws by (simp_all add: txn_laws_def)
  obtain bef c0 where s0: "max_snapshot db cat c = (bef, c0)" by fastforce
  note q0 = max_snapshot_latest [OF L(3) s0]
  obtain r1 c1 where s1: "d_exec db ''BEGIN'' c0 = (r1, c1)" by fastforce
  have i0: "\<not> v_open vw c0" using q0 idle by simp
  note q1 = beginsD [OF L(1) i0 s1]
  show ?thesis
  proof (cases r1)
    case (Inl e)
    then show ?thesis using s0 s1 q0 q1 by (simp add: in_write_txn_def)
  next
    case r1: (Inr u)
    obtain r2 c2 where s2: "body c1 = (r2, c2)" by fastforce
    have o1: "v_open vw c1" using q1 r1 by simp
    have q2: "v_hist vw c2 = v_hist vw c" "v_open vw c2"
      using body [unfolded stays_inside_def, rule_format, OF o1] s2 q0 q1 o1 by (simp_all add: quiet_def)
    show ?thesis
    proof (cases r2)
      case (Inl e)
      then show ?thesis using s0 s1 s2 r1 q2 rollback_hist [OF L(2)] by (simp add: in_write_txn_def)
    next
      case (Inr v)
      then show ?thesis using s0 s1 s2 r1 q0(1) q2 finish_write_outcome [OF laws q2(2)] by (simp add: in_write_txn_def)
    qed
  qed
qed

lemma quiet_refl [simp]: "quiet vw c c"
  by (simp add: quiet_def)

lemma plan_datasets_quiet:
  assumes "lookups_quiet db cat vw" "duck_plan_datasets db parse loc sql c = (dss, c')"
  shows "quiet vw c c'"
proof -
  have q: "quiet vw c (snd (d_bound db plan_query sql c))" using assms(1) by (simp add: lookups_quiet_def)
  show ?thesis using assms(2) q
    by (auto simp: duck_plan_datasets_def referenced_tables_def serialized_plan_def Let_def
        split: if_splits prod.splits sum.splits option.splits)
qed

lemma annotate_quiet:
  assumes "lookups_quiet db (catalog_name loc) vw" "annotate db loc dss c = (dss', c')"
  shows "quiet vw c c'"
proof -
  have q: "quiet vw c (snd (d_query db (schema_query (catalog_name loc) w) c))" for w using assms(1) by (simp add: lookups_quiet_def)
  show ?thesis using assms(2) q
    by (auto simp: annotate_def annotate_schemas_def Let_def split: if_splits prod.splits sum.splits option.splits)
       (metis snd_conv)+
qed

lemma materialize_inside:
  assumes "\<And>c. v_open vw c \<Longrightarrow> quiet vw c (snd (d_query db sql c))"
  shows "stays_inside vw (materialize db to_text sql)"
  using assms by (auto simp: stays_inside_def materialize_def split: prod.splits sum.splits) (metis snd_conv)+

lemma apply_datasets_snapshot [simp]: "snapshot_id (apply_datasets dss m) = snapshot_id m"
  by (simp add: apply_datasets_def set_datasets_def split: option.splits prod.splits)

text \<open>What a write left, by its answer.\<close>

definition write_answer :: "'c view \<Rightarrow> (string \<times> string \<times> string) \<Rightarrow> commit list \<Rightarrow> (EngineError, QueryResult) result \<times> 'c \<Rightarrow> bool" where
  "write_answer vw note h out \<longleftrightarrow> (case out of
      (Inl _, c') \<Rightarrow> v_hist vw c' = h
    | (Inr res, c') \<Rightarrow> \<not> v_open vw c' \<and>
        (case snapshot_id (qr_meta res) of
           None \<Rightarrow> v_hist vw c' = h
         | Some n \<Rightarrow> v_hist vw c' = h @ [\<lparr>cm_snapshot = n, cm_note = Some note\<rparr>] \<and> qr_rows res = []))"

lemma run_write_answer:
  assumes "txn_laws db cat vw" "stays_inside vw (materialize db to_text sql)" "\<not> v_open vw c"
  shows "write_answer vw (author_of ident, ''write_query'', to_text (extra_info ident tid)) (v_hist vw c)
           (run_write db to_text ms sql ident tid cat c)"
  using in_write_txn_outcome [OF assms, of ident "''write_query''" to_text tid]
  by (auto simp: run_write_def write_outcome_def write_answer_def meta_default_def split: prod.splits sum.splits option.splits)

lemma commit_call_lex:
  "sql_lex (commit_call cat a o' x) =
     map Raw ''CALL '' @ [SIdent cat] @ map Raw ''.set_commit_message('' @ [SLit a] @ map Raw '', '' @ [SLit o']
     @ map Raw '', extra_info => '' @ [SLit x] @ map Raw '')''"
  by (simp add: commit_call_def sql_lex_lit sql_lex_ident starts_with_def)

section \<open>Properties\<close>

text \<open>C6. A write is all or nothing and signed, under two conditions: the statement holds no transaction
  control of its own (an embedded \<open>COMMIT\<close> lands without an author), and the engine answers the query
  for the newest snapshot (when it does not, a statement may be taken for a write it was not). Then a
  failed write leaves the pond's snapshots as they were and its connection outside any
  transaction, although the abort may have interrupted the first rollback; a successful one
  publishes at most one snapshot, the one it reports, carrying the verified subject or else the
  claimed name, the operation and the caller's identity, and reports none exactly when it
  published none.\<close>

theorem write_is_atomic_and_attributed:
  assumes laws: "txn_laws armed (catalog_name loc) vw" "lookups_quiet armed (catalog_name loc) vw" "recovers db vw"
    and inside: "\<And>c. v_open vw c \<Longrightarrow> quiet vw c (snd (d_query armed sql c))"
    and idle: "\<not> v_open vw c"
  shows "write_answer vw (if verified ident then subject ident else agent_id ident, ''write_query'', to_text (extra_info ident tid)) (v_hist vw c)
           (duck_write_query db armed parse to_text ms loc sql ident tid c)
    \<and> \<not> v_open vw (snd (duck_write_query db armed parse to_text ms loc sql ident tid c))"
proof -
  obtain dss c2 where p: "duck_plan_datasets armed parse loc sql c = (dss, c2)" by fastforce
  have q2: "v_hist vw c2 = v_hist vw c" "\<not> v_open vw c2" using plan_datasets_quiet [OF laws(2) p] idle by (simp_all add: quiet_def)
  obtain r c3 where w: "run_write armed to_text ms sql ident tid (catalog_name loc) c2 = (r, c3)" by fastforce
  have a: "write_answer vw (author_of ident, ''write_query'', to_text (extra_info ident tid)) (v_hist vw c) (r, c3)"
    using run_write_answer [OF laws(1) materialize_inside [OF inside] q2(2), of ident to_text tid ms] w q2(1) by simp
  have rb: "v_hist vw (rollback db c') = v_hist vw c'" "\<not> v_open vw (rollback db c')" for c'
    using laws(3) rollback_hist by (auto simp: recovers_def rollback_def)
  show ?thesis
  proof (cases r)
    case (Inl e)
    then have "\<exists>e'. duck_write_query db armed parse to_text ms loc sql ident tid c = (Err e', rollback db c3)"
      using p w by (auto simp: duck_write_query_def run_with_abort_def normalize_abort_def split: EngineError.split)
    then show ?thesis using a Inl rb by (auto simp: write_answer_def)
  next
    case (Inr res)
    obtain dss' c4 where an: "annotate armed loc dss c3 = (dss', c4)" by fastforce
    have "quiet vw c3 c4" by (rule annotate_quiet [OF laws(2) an])
    moreover have "duck_write_query db armed parse to_text ms loc sql ident tid c
        = (Ok (res\<lparr>qr_meta := apply_datasets dss' (qr_meta res)\<rparr>), c4)"
      using p w Inr an by (simp add: duck_write_query_def run_with_abort_def normalize_abort_def)
    ultimately show ?thesis using a Inr by (simp add: write_answer_def quiet_def author_of_def split: option.splits)
  qed
qed

text \<open>A connection on which the laws hold: its state is the history, whether a transaction is open, the
  message set and whether anything changed; every statement but a select changes something.\<close>

record demo_conn =
  dc_hist :: "commit list"
  dc_open :: bool
  dc_note :: "(string \<times> string \<times> string) option"
  dc_dirty :: bool
  dc_secrets :: "string set"
  dc_attached :: "string set"

definition demo_view :: "demo_conn view" where
  "demo_view = \<lparr>v_hist = dc_hist, v_open = dc_open, v_note = dc_note, v_secrets = dc_secrets, v_attached = dc_attached\<rparr>"

definition next_id :: "commit list \<Rightarrow> int" where
  "next_id h = 1 + foldr max (map cm_snapshot h) 0"

definition demo_note :: "string \<Rightarrow> (string \<times> string \<times> string) option" where
  "demo_note s = (case List.map_filter (\<lambda>t. case t of SLit v \<Rightarrow> Some v | _ \<Rightarrow> None) (sql_lex s) of
     [a, o', x] \<Rightarrow> Some (a, o', x) | _ \<Rightarrow> None)"

definition demo_exec :: "string \<Rightarrow> demo_conn \<Rightarrow> (string, unit) result \<times> demo_conn" where
  "demo_exec s c =
     (if s = ''BEGIN'' \<or> s = ''BEGIN TRANSACTION READ ONLY'' then (Ok (), c\<lparr>dc_open := True\<rparr>)
      else if s = ''COMMIT'' then
        (Ok (), c\<lparr>dc_open := False, dc_dirty := False,
                 dc_hist := (if dc_dirty c then dc_hist c @ [\<lparr>cm_snapshot = next_id (dc_hist c), cm_note = dc_note c\<rparr>] else dc_hist c)\<rparr>)
      else if s = ''ROLLBACK'' then (Ok (), c\<lparr>dc_open := False, dc_dirty := False\<rparr>)
      else if starts_with s ''CALL '' then (Ok (), c\<lparr>dc_note := demo_note s\<rparr>)
      else if starts_with s ''DROP SECRET IF EXISTS '' then (Ok (), c\<lparr>dc_secrets := dc_secrets c - {drop 22 s}\<rparr>)
      else if starts_with s ''DETACH '' then
        (Ok (), c\<lparr>dc_attached := dc_attached c - {a. \<exists>r. sql_lex (drop 7 s) = SIdent a # r}\<rparr>)
      else (Ok (), c))"

definition demo_db :: "demo_conn duckdb" where
  "demo_db = \<lparr>d_exec = demo_exec,
     d_query = (\<lambda>s c. (Ok ([], []), if starts_with s ''SELECT'' then c else c\<lparr>dc_dirty := True\<rparr>)),
     d_int = (\<lambda>s c. (Ok (latest (dc_hist c)), c)), d_bound = (\<lambda>s p c. (Ok None, c))\<rparr>"

lemma next_id_above: "m \<in> set h \<Longrightarrow> cm_snapshot m < next_id h"
  unfolding next_id_def by (induction h) auto

lemma demo_note_call: "demo_note (commit_call cat a o' x) = Some (a, o', x)"
  unfolding demo_note_def commit_call_lex by (simp add: List.map_filter_def)

lemma schema_query_select: "starts_with (schema_query cat w) ''SELECT''"
  by (simp add: schema_query_def starts_with_def)

lemma demo_exec_call: "demo_exec (commit_call cat a o' x) c = (Ok (), c\<lparr>dc_note := Some (a, o', x)\<rparr>)"
proof -
  have "demo_exec (commit_call cat a o' x) c = (Ok (), c\<lparr>dc_note := demo_note (commit_call cat a o' x)\<rparr>)"
    by (simp add: demo_exec_def commit_call_def starts_with_def)
  then show ?thesis by (simp add: demo_note_call)
qed

lemma demo_sel:
  "d_exec demo_db = demo_exec" "d_int demo_db q c = (Ok (latest (dc_hist c)), c)"
  "d_query demo_db q c = (Ok ([], []), if starts_with q ''SELECT'' then c else c\<lparr>dc_dirty := True\<rparr>)"
  by (simp_all add: demo_db_def)

lemma demo_exec_txn:
  "demo_exec ''BEGIN'' c = (Ok (), c\<lparr>dc_open := True\<rparr>)"
  "demo_exec ''COMMIT'' c = (Ok (), c\<lparr>dc_open := False, dc_dirty := False,
     dc_hist := (if dc_dirty c then dc_hist c @ [\<lparr>cm_snapshot = next_id (dc_hist c), cm_note = dc_note c\<rparr>] else dc_hist c)\<rparr>)"
  by (simp_all add: demo_exec_def)

lemma demo_laws:
  "txn_laws demo_db cat demo_view" "lookups_quiet demo_db cat demo_view" "recovers demo_db demo_view"
proof -
  have "begins demo_db demo_view" by (auto simp: begins_def demo_db_def demo_view_def demo_exec_def)
  moreover have "sets_note demo_db cat demo_view" by (simp add: sets_note_def demo_db_def demo_view_def demo_exec_call)
  moreover have "commits demo_db demo_view"
    using next_id_above by (auto simp: commits_def demo_db_def demo_view_def demo_exec_def)
  moreover have rb: "rolls_back demo_db demo_view" by (simp add: rolls_back_def demo_db_def demo_view_def demo_exec_def)
  moreover have "tells_latest demo_db cat demo_view" by (simp add: tells_latest_def demo_db_def demo_view_def quiet_def)
  ultimately show "txn_laws demo_db cat demo_view" by (simp add: txn_laws_def)
  show "lookups_quiet demo_db cat demo_view"
    by (simp add: lookups_quiet_def demo_db_def demo_view_def quiet_def schema_query_select)
  show "recovers demo_db demo_view" using rb by (simp add: recovers_def demo_db_def demo_view_def demo_exec_def)
qed

lemma demo_unmounts: "unmounts demo_db cat demo_view"
proof -
  have "sql_lex (engine_quote_ident a) = [SIdent a]" for a using sql_lex_ident [of "[]" a] by (simp add: starts_with_def)
  then show ?thesis
    by (simp add: unmounts_def demo_db_def demo_view_def demo_exec_def schema_query_select starts_with_def Let_def)
qed

definition demo_idle :: demo_conn where
  "demo_idle = \<lparr>dc_hist = [], dc_open = False, dc_note = None, dc_dirty = False, dc_secrets = {}, dc_attached = {}\<rparr>"

definition demo_who :: Identity where
  "demo_who = \<lparr>agent_id = ''ann'', subject = ''sub'', issuer = ''iss'', verified = True\<rparr>"

theorem write_is_atomic_and_attributed_witness:
  "let loc = location_for ''/d'' ''p''; sql = ''INSERT INTO t VALUES (1)'';
       out = duck_write_query demo_db demo_db (\<lambda>_. None) (\<lambda>_. ''{}'') 0 loc sql demo_who None demo_idle
   in write_answer demo_view (''sub'', ''write_query'', ''{}'') [] out \<and> \<not> v_open demo_view (snd out)
    \<and> v_hist demo_view (snd out) = [\<lparr>cm_snapshot = 1, cm_note = Some (''sub'', ''write_query'', ''{}'')\<rparr>]"
proof -
  let ?loc = "location_for ''/d'' ''p''" and ?sql = "''INSERT INTO t VALUES (1)''"
  let ?out = "duck_write_query demo_db demo_db (\<lambda>_. None) (\<lambda>_. ''{}'') 0 ?loc ?sql demo_who None demo_idle"
  have "trim ?sql \<noteq> []" by code_simp
  then have m: "materialize demo_db tt ?sql c = (Ok ([], []), c\<lparr>dc_dirty := True\<rparr>)" for tt c
    by (simp add: materialize_def demo_sel starts_with_def)
  have w: "\<exists>res. run_write demo_db (\<lambda>_. ''{}'') 0 ?sql demo_who None (catalog_name ?loc) demo_idle
      = (Ok res, demo_idle\<lparr>dc_note := Some (''sub'', ''write_query'', ''{}''),
           dc_hist := [\<lparr>cm_snapshot = 1, cm_note = Some (''sub'', ''write_query'', ''{}'')\<rparr>]\<rparr>)"
    by (simp add: run_write_def in_write_txn_def finish_write_def max_snapshot_def demo_sel m demo_exec_txn demo_exec_call
        author_of_def demo_who_def demo_idle_def next_id_def)
  then have "v_hist demo_view (snd ?out) = [\<lparr>cm_snapshot = 1, cm_note = Some (''sub'', ''write_query'', ''{}'')\<rparr>]"
    by (elim exE) (simp add: duck_write_query_def duck_plan_datasets_def run_with_abort_def normalize_abort_def annotate_def
        demo_view_def location_for_def)
  moreover have "write_answer demo_view (if verified demo_who then subject demo_who else agent_id demo_who, ''write_query'', (\<lambda>_. ''{}'') (extra_info demo_who None)) (v_hist demo_view demo_idle) ?out
      \<and> \<not> v_open demo_view (snd ?out)"
    by (rule write_is_atomic_and_attributed [OF demo_laws(1) demo_laws(2) demo_laws(3)])
       (simp_all add: demo_db_def demo_view_def quiet_def demo_idle_def)
  ultimately show ?thesis by (simp add: Let_def demo_who_def demo_view_def demo_idle_def)
qed

text \<open>Unmounting: the detach, then one drop per secret.\<close>

text \<open>What a connection still holds of a plan, as the statement that would remove it.\<close>

definition left_over :: "'c view \<Rightarrow> AttachPlan \<Rightarrow> 'c \<Rightarrow> string set" where
  "left_over vw p c = {''DROP SECRET IF EXISTS '' @ n | n. n \<in> v_secrets vw c \<and> n \<in> fst ` set (ap_secrets p)}
     \<union> (if ap_alias p \<in> v_attached vw c then {''DETACH '' @ engine_quote_ident (ap_alias p)} else {})"

lemma unmountsD:
  assumes "unmounts db cat vw"
  shows "d_exec db (''DROP SECRET IF EXISTS '' @ n) c = (r, c') \<Longrightarrow> v_secrets vw c' = (if is_ok r then v_secrets vw c - {n} else v_secrets vw c)"
    and "d_exec db (''DROP SECRET IF EXISTS '' @ n) c = (r, c') \<Longrightarrow> v_attached vw c' = v_attached vw c"
    and "d_exec db (''DETACH '' @ engine_quote_ident a) c = (r, c') \<Longrightarrow> v_secrets vw c' = v_secrets vw c"
    and "d_exec db (''DETACH '' @ engine_quote_ident a) c = (r, c') \<Longrightarrow> v_attached vw c' = (if is_ok r then v_attached vw c - {a} else v_attached vw c)"
proof -
  have d: "case d_exec db (''DROP SECRET IF EXISTS '' @ n) c of (r, c') \<Rightarrow>
        v_secrets vw c' = (if is_ok r then v_secrets vw c - {n} else v_secrets vw c) \<and> v_attached vw c' = v_attached vw c"
    using assms unfolding unmounts_def by (elim conjE allE)
  have t: "case d_exec db (''DETACH '' @ engine_quote_ident a) c of (r, c') \<Rightarrow>
        v_secrets vw c' = v_secrets vw c \<and> v_attached vw c' = (if is_ok r then v_attached vw c - {a} else v_attached vw c)"
    using assms unfolding unmounts_def by (elim conjE allE)
  show "d_exec db (''DROP SECRET IF EXISTS '' @ n) c = (r, c') \<Longrightarrow> v_secrets vw c' = (if is_ok r then v_secrets vw c - {n} else v_secrets vw c)"
    and "d_exec db (''DROP SECRET IF EXISTS '' @ n) c = (r, c') \<Longrightarrow> v_attached vw c' = v_attached vw c" using d by (simp_all only: prod.case)
  show "d_exec db (''DETACH '' @ engine_quote_ident a) c = (r, c') \<Longrightarrow> v_secrets vw c' = v_secrets vw c"
    and "d_exec db (''DETACH '' @ engine_quote_ident a) c = (r, c') \<Longrightarrow> v_attached vw c' = (if is_ok r then v_attached vw c - {a} else v_attached vw c)"
    using t by (simp_all only: prod.case)
qed

lemma drops_unmount:
  assumes "unmounts db cat vw"
  shows "v_attached vw (fold (\<lambda>s c. snd (d_exec db s c)) (map (\<lambda>(n, _). ''DROP SECRET IF EXISTS '' @ n) ss) c) = v_attached vw c
    \<and> v_secrets vw (fold (\<lambda>s c. snd (d_exec db s c)) (map (\<lambda>(n, _). ''DROP SECRET IF EXISTS '' @ n) ss) c) \<subseteq> v_secrets vw c
    \<and> (\<forall>n \<in> fst ` set ss. n \<in> v_secrets vw (fold (\<lambda>s c. snd (d_exec db s c)) (map (\<lambda>(n, _). ''DROP SECRET IF EXISTS '' @ n) ss) c) \<longrightarrow>
        ''DROP SECRET IF EXISTS '' @ n \<in> refused_statements db (map (\<lambda>(n, _). ''DROP SECRET IF EXISTS '' @ n) ss) c)"
proof (induction ss arbitrary: c)
  case (Cons x ss)
  obtain n t where x: "x = (n, t)" by (cases x)
  obtain r c' where e: "d_exec db (''DROP SECRET IF EXISTS '' @ n) c = (r, c')" by fastforce
  have l: "v_secrets vw c' = (if is_ok r then v_secrets vw c - {n} else v_secrets vw c)" "v_attached vw c' = v_attached vw c"
    using unmountsD(1,2) [OF assms e] .
  note IH = Cons [of c']
  show ?case using IH l e x by (auto split: if_splits)
qed simp

lemma teardown_unmounts:
  assumes "unmounts db cat vw"
  shows "left_over vw p (teardown_catalog db p c) \<subseteq> refused_statements db (plan_teardown p) c"
proof -
  let ?det = "''DETACH '' @ engine_quote_ident (ap_alias p)" and ?drops = "map (\<lambda>(n, _). ''DROP SECRET IF EXISTS '' @ n) (ap_secrets p)"
  obtain r c' where e: "d_exec db ?det c = (r, c')" by fastforce
  have l: "v_secrets vw c' = v_secrets vw c" "v_attached vw c' = (if is_ok r then v_attached vw c - {ap_alias p} else v_attached vw c)"
    using unmountsD(3,4) [OF assms e] .
  have td: "teardown_catalog db p c = fold (\<lambda>s c. snd (d_exec db s c)) ?drops c'"
    unfolding teardown_catalog_def plan_teardown_def fold_simps using e by simp
  have rf: "refused_statements db (plan_teardown p) c = (if is_ok r then {} else {?det}) \<union> refused_statements db ?drops c'"
    unfolding plan_teardown_def using e by simp
  show ?thesis unfolding left_over_def td rf using drops_unmount [OF assms, of "ap_secrets p" c'] l by (auto split: if_splits)
qed

text \<open>A connection after the teardown of a plan that began at \<open>c0\<close>: nothing is left but what the engine
  refused to remove.\<close>

definition torn_down :: "'c duckdb \<Rightarrow> 'c view \<Rightarrow> AttachPlan \<Rightarrow> 'c \<Rightarrow> 'c \<Rightarrow> bool" where
  "torn_down db vw p c0 c \<longleftrightarrow>
     v_secrets vw c = v_secrets vw (teardown_catalog db p c0) \<and> v_attached vw c = v_attached vw (teardown_catalog db p c0)
   \<and> left_over vw p c \<subseteq> refused_statements db (plan_teardown p) c0"

lemma torn_down_teardown: "unmounts db cat vw \<Longrightarrow> torn_down db vw p c0 (teardown_catalog db p c0)"
  unfolding torn_down_def by (intro conjI refl teardown_unmounts)

lemma left_over_none:
  assumes "left_over vw p c = {}"
  shows "v_secrets vw c \<inter> fst ` set (ap_secrets p) = {}" "ap_alias p \<notin> v_attached vw c"
proof -
  show "v_secrets vw c \<inter> fst ` set (ap_secrets p) = {}" using assms unfolding left_over_def by blast
  show "ap_alias p \<notin> v_attached vw c"
  proof
    assume "ap_alias p \<in> v_attached vw c"
    then have "''DETACH '' @ engine_quote_ident (ap_alias p) \<in> left_over vw p c" unfolding left_over_def by (simp only: if_True insert_iff Un_iff simp_thms)
    then show False using assms by blast
  qed
qed

lemma annotate_torn_down:
  assumes "unmounts db (catalog_name loc) vw" "torn_down db vw p c0 c" "annotate db loc dss c = (dss', c')"
  shows "torn_down db vw p c0 c'"
proof -
  have "v_secrets vw (snd (d_query db (schema_query (catalog_name loc) w) c)) = v_secrets vw c"
    "v_attached vw (snd (d_query db (schema_query (catalog_name loc) w) c)) = v_attached vw c" for w
    using assms(1) by (simp_all add: unmounts_def Let_def)
  note same = this
  have "torn_down db vw p c0 (snd (d_query db (schema_query (catalog_name loc) w) c))" for w
    using assms(2) unfolding torn_down_def left_over_def same .
  then show ?thesis using assms(2,3)
    by (auto simp: annotate_def annotate_schemas_def Let_def split: if_splits prod.splits sum.splits option.splits)
       (metis snd_conv)+
qed

text \<open>C8. No credential outlives the call that brought it unless the engine refuses to remove it: however
  a pull or the listing of an external catalog ends -- a failed load, a bad endpoint, a refused query,
  a rolled-back pull or success -- the whole teardown of its plan was run last, every statement of it
  whatever the ones before it gave, and the pond's connection still holds a secret or the mount of the
  call only where the engine refused the very statement that removes it; with none refused it holds
  nothing of the call.\<close>

theorem no_credential_outlives_the_call:
  assumes "unmounts db (catalog_name loc) vw" "attach_plan ty alias ps = Ok p"
    and "c' \<in> {snd (duck_pull_catalog db parse to_text loc ty alias ps query ident tid c), snd (duck_describe_catalog db to_text ms ty alias ps c)}"
  shows "\<exists>c0. v_secrets vw c' = v_secrets vw (teardown_catalog db p c0) \<and> v_attached vw c' = v_attached vw (teardown_catalog db p c0)
    \<and> left_over vw p c' \<subseteq> refused_statements db (plan_teardown p) c0
    \<and> (refused_statements db (plan_teardown p) c0 = {} \<longrightarrow> v_secrets vw c' \<inter> fst ` set (ap_secrets p) = {} \<and> ap_alias p \<notin> v_attached vw c')"
proof -
  note td = torn_down_teardown [OF assms(1)]
  obtain r c1 where at: "attach_catalog db p c = (r, c1)" by fastforce
  have "\<exists>c0. torn_down db vw p c0 c'"
  proof (cases r)
    case (Inl e)
    then have "\<exists>c0. torn_down db vw p c0 c1" using at td by (auto simp: attach_catalog_def split: prod.splits sum.splits)
    then show ?thesis using at Inl assms(2,3) by (auto simp: duck_pull_catalog_def duck_describe_catalog_def)
  next
    case (Inr u)
    obtain dss c2 where pl: "duck_plan_datasets db parse loc query c1 = (dss, c2)" by fastforce
    obtain out c3 where w: "in_write_txn db to_text ident tid (catalog_name loc) ''pull_catalog''
        (\<lambda>c. case d_exec db query c of (r, c') \<Rightarrow> (map_err classify_message r, c')) c2 = (out, c3)" by fastforce
    obtain dss' c5 where an: "annotate db loc dss (teardown_catalog db p c3) = (dss', c5)" by fastforce
    have "torn_down db vw p c3 c5" by (rule annotate_torn_down [OF assms(1) td an])
    then have "torn_down db vw p c3 (snd (duck_pull_catalog db parse to_text loc ty alias ps query ident tid c))"
      using at Inr assms(2) pl w an td [of p c3] by (cases out) (auto simp: duck_pull_catalog_def Let_def)
    moreover have "\<exists>c0. torn_down db vw p c0 (snd (duck_describe_catalog db to_text ms ty alias ps c))"
      using at Inr assms(2) td by (auto simp: duck_describe_catalog_def split: prod.split)
    ultimately show ?thesis using assms(3) by auto
  qed
  then obtain c0 where t: "torn_down db vw p c0 c'" ..
  then have "refused_statements db (plan_teardown p) c0 = {} \<Longrightarrow> left_over vw p c' = {}" unfolding torn_down_def by blast
  then show ?thesis using t left_over_none [of vw p c'] unfolding torn_down_def by (intro exI [of _ c0] conjI impI) blast+
qed

theorem no_credential_outlives_the_call_witness:
  "let ps = [(''data_path'', ''d''), (''metadata_path'', ''m''), (''s3_access_key'', ''k''), (''s3_secret_key'', ''s'')];
       loc = location_for ''/d'' ''p'';
       c' = snd (duck_pull_catalog demo_db (\<lambda>_. None) (\<lambda>_. ''{}'') loc ''ducklake'' ''lake'' ps ''CREATE TABLE t AS FROM lake.x'' demo_who None
           (demo_idle\<lparr>dc_secrets := {''_latiq_lake_s3''}, dc_attached := {''lake''}\<rparr>))
   in ''_latiq_lake_s3'' \<notin> dc_secrets c' \<and> ''lake'' \<notin> dc_attached c'"
proof -
  let ?ps = "[(''data_path'', ''d''), (''metadata_path'', ''m''), (''s3_access_key'', ''k''), (''s3_secret_key'', ''s'')]"
  let ?c' = "snd (duck_pull_catalog demo_db (\<lambda>_. None) (\<lambda>_. ''{}'') (location_for ''/d'' ''p'') ''ducklake'' ''lake'' ?ps ''CREATE TABLE t AS FROM lake.x'' demo_who None
           (demo_idle\<lparr>dc_secrets := {''_latiq_lake_s3''}, dc_attached := {''lake''}\<rparr>))"
  obtain p where p: "attach_plan ''ducklake'' ''lake'' ?ps = Ok p" "map fst (ap_secrets p) = [''_latiq_lake_s3'']" "ap_alias p = ''lake''"
    by (simp add: attach_plan_def ducklake_def param_def s3_secret_line_def Let_def)
  have "plan_teardown p = [''DETACH '' @ engine_quote_ident ''lake'', ''DROP SECRET IF EXISTS _latiq_lake_s3'']"
    using p(2,3) by (cases "ap_secrets p") (auto simp: plan_teardown_def split_beta)
  then have "refused_statements demo_db (plan_teardown p) c0 = {}" for c0
    by (simp add: demo_db_def demo_exec_def starts_with_def is_ok_def)
  moreover have "fst ` set (ap_secrets p) = {''_latiq_lake_s3''}" using p(2) by (metis list.set_map list.simps(15) list.set(1))
  ultimately show ?thesis
    using no_credential_outlives_the_call [OF demo_unmounts p(1), where loc = "location_for ''/d'' ''p''" and c' = ?c' and parse = "\<lambda>_. None" and to_text = "\<lambda>_. ''{}''" and query = "''CREATE TABLE t AS FROM lake.x''" and ident = demo_who and tid = None
        and c = "demo_idle\<lparr>dc_secrets := {''_latiq_lake_s3''}, dc_attached := {''lake''}\<rparr>"] p(3)
    by (auto simp: Let_def demo_view_def)
qed

text \<open>A read connection goes back to the pool only when it is fit for the next reader: a read that
  succeeded has ended its transaction, and one that failed or was cancelled has its connection
  thrown away.\<close>

lemma reused_connection_is_idle:
  assumes "\<And>c. is_ok (fst (d_exec db ''COMMIT'' c)) \<Longrightarrow> \<not> v_open vw (snd (d_exec db ''COMMIT'' c))" and "\<not> v_open vw c"
    and "duck_read_query db parse to_text ms loc sql c = (out, reusable, c')"
  shows "(reusable \<longrightarrow> \<not> v_open vw c') \<and> (classify sql \<noteq> Write \<longrightarrow> reusable = is_ok out)"
proof (cases "classify sql = Write")
  case True
  then show ?thesis using assms(2,3) by (simp add: duck_read_query_def)
next
  case False
  define f where "f = (\<lambda>c1.
        (case duck_plan_datasets db parse loc sql c1 of (dss, c2) \<Rightarrow>
         (case annotate db loc dss c2 of (dss', c3) \<Rightarrow>
          (case run_read db to_text ms sql c3 of
             (Inl e, c4) \<Rightarrow> (Err e, c4)
           | (Inr res, c4) \<Rightarrow> (Ok (res\<lparr>qr_meta := apply_datasets dss' (qr_meta res)\<rparr>), c4)))))"
  obtain r c2 where t: "in_read_txn db f c = (r, c2)" by fastforce
  have q: "out = normalize_abort r" "reusable = is_ok out" "c' = c2"
    using assms(3) False t by (auto simp: duck_read_query_def with_read_def run_with_abort_def f_def)
  have "is_ok r" if "is_ok out" using that q(1) by (cases r) (auto simp: normalize_abort_def split: EngineError.splits if_splits)
  moreover have "\<not> v_open vw c2" if "is_ok r"
    using t that assms(1) by (auto simp: in_read_txn_def is_ok_iff split: prod.splits sum.splits) (metis fst_conv snd_conv)
  ultimately show ?thesis using q by blast
qed

lemma reused_connection_is_idle_example:
  "let out = duck_read_query demo_db (\<lambda>_. None) (\<lambda>_. ''{}'') 0 (location_for ''/d'' ''p'') ''SELECT 1'' demo_idle
   in (fst (snd out) \<longrightarrow> \<not> v_open demo_view (snd (snd out))) \<and> \<not> v_open demo_view demo_idle"
proof -
  obtain out reusable c' where q: "duck_read_query demo_db (\<lambda>_. None) (\<lambda>_. ''{}'') 0 (location_for ''/d'' ''p'') ''SELECT 1'' demo_idle = (out, reusable, c')"
    by (metis prod_cases3)
  have c: "is_ok (fst (d_exec demo_db ''COMMIT'' c)) \<Longrightarrow> \<not> v_open demo_view (snd (d_exec demo_db ''COMMIT'' c))" for c
    by (simp add: demo_sel demo_exec_txn demo_view_def)
  have i: "\<not> v_open demo_view demo_idle" by (simp add: demo_view_def demo_idle_def)
  show ?thesis unfolding Let_def q using reused_connection_is_idle [OF c i q] i by simp
qed

section \<open>Further lemmas\<close>

text \<open>The cache keeps one instance per catalog, opened under the limits in force, and touches no other.\<close>

lemma engine_pond_cached:
  assumes "engine_pond opn loc m = (Ok p, m')"
  shows "m' (catalog_uri loc) = Some \<lparr>cp_limits = limits loc, cp_pond = p\<rparr>"
    and "uri \<noteq> catalog_uri loc \<Longrightarrow> m' uri = m uri"
    and "engine_pond opn' loc m' = (Ok p, m')"
  using assms by (auto simp: engine_pond_def Let_def split: option.splits if_splits sum.splits)

text \<open>When the newest snapshot could not be asked for before the statement, whatever is newest after it
  is taken for the statement's own: a statement that only read is answered as a write, without its
  rows.\<close>

lemma failed_snapshot_query_hides_rows:
  assumes "max_snapshot db cat c = (None, c0)" "d_exec db ''BEGIN'' c0 = (Ok (), c1)"
    and "materialize db to_text sql c1 = (Ok (columns, rows), c2)"
    and "d_exec db (commit_call cat (author_of ident) ''write_query'' (to_text (extra_info ident tid))) c2 = (Ok (), c3)"
    and "d_exec db ''COMMIT'' c3 = (Ok (), c4)" "max_snapshot db cat c4 = (Some n, c5)"
  shows "\<exists>res. run_write db to_text ms sql ident tid cat c = (Ok res, c5) \<and> qr_rows res = [] \<and> snapshot_id (qr_meta res) = Some n"
  using assms by (simp add: run_write_def in_write_txn_def finish_write_def newer_def)

text \<open>Two tables of one name in different schemas: the first is described with the columns of both, the
  second with none.\<close>

lemma same_named_tables_mix_columns:
  "map ti_columns (describe_tables
     [[JString ''t'', JString ''a'', JString ''INTEGER''], [JString ''t'', JString ''b'', JString ''VARCHAR'']] {}
     [[JString ''t'', JNumber ''1'', JNull], [JString ''t'', JNumber ''2'', JNull]])
   = [[(''a'', ''INTEGER''), (''b'', ''VARCHAR'')], []]"
  by (simp add: by_table_def cell_text_def)

text \<open>A writer that waits is answered as soon as the lock is free or its token is cancelled, whichever is
  seen first, and never runs after a cancel it saw.\<close>

lemma lock_writer_answer:
  "lock_writer (replicate k (False, False) @ (f, x) # polls) = (if f then Some (Ok ()) else if x then Some (Err E_Cancelled) else lock_writer polls)"
  "lock_writer (replicate k (False, False)) = None"
  by (induction k) simp_all

end
