(* ===== verification/Jwks.thy ===== *)
theory Jwks
  imports Prelude "HOL-Library.Word"
begin

text \<open>
  The cache of an issuer's signing keys (\<open>latiq-auth/src/jwks.rs\<close>): fetching and importing a key
  set, and the lookup of a key by any number of concurrent requests.

  A request is a machine whose steps are the stretches of \<open>key_for\<close> between two accesses to shared
  state; requests, the passing of time (in milliseconds) and callers that hang up interleave freely.
  The HTTP client's answers, the JSON parser and the import of a single key are parameters.
\<close>

section \<open>Keys\<close>

datatype Algorithm = HS256 | HS384 | HS512 | ES256 | ES384 | RS256 | RS384 | RS512 | PS256 | PS384 | PS512 | EdDSA

text \<open>The algorithms a published key may declare; \<open>K_Other\<close> stands for those that are not for signing.\<close>

datatype KeyAlgorithm = K_HS256 | K_HS384 | K_HS512 | K_ES256 | K_ES384 | K_RS256 | K_RS384 | K_RS512
  | K_PS256 | K_PS384 | K_PS512 | K_EdDSA | K_Other

datatype PublicKeyUse = Signature | Encryption | OtherUse string

datatype AuthError = A_Missing | A_Malformed string | A_UnknownKid string | A_Invalid string | A_Jwks string

record 'k SigningKey =
  sk_key :: 'k
  sk_alg :: "Algorithm option"

record 'j jwk =
  jwk_kid :: "string option"
  jwk_use :: "PublicKeyUse option"
  jwk_alg :: "KeyAlgorithm option"
  jwk_body :: 'j

fun as_signing_alg :: "KeyAlgorithm \<Rightarrow> Algorithm option" where
  "as_signing_alg K_HS256 = Some HS256"
| "as_signing_alg K_HS384 = Some HS384"
| "as_signing_alg K_HS512 = Some HS512"
| "as_signing_alg K_ES256 = Some ES256"
| "as_signing_alg K_ES384 = Some ES384"
| "as_signing_alg K_RS256 = Some RS256"
| "as_signing_alg K_RS384 = Some RS384"
| "as_signing_alg K_RS512 = Some RS512"
| "as_signing_alg K_PS256 = Some PS256"
| "as_signing_alg K_PS384 = Some PS384"
| "as_signing_alg K_PS512 = Some PS512"
| "as_signing_alg K_EdDSA = Some EdDSA"
| "as_signing_alg K_Other = None"

definition is_control :: "char \<Rightarrow> bool" where
  "is_control ch \<longleftrightarrow> code ch < 32 \<or> code ch = 127"

definition sanitize_kid :: "string \<Rightarrow> string" where
  "sanitize_kid kid = take 64 (filter (\<lambda>ch. \<not> is_control ch) kid)"

definition discover_uri :: "string \<Rightarrow> string" where
  "discover_uri iss = rev (dropWhile (\<lambda>ch. ch = CHR ''/'') (rev iss)) @ ''/protocol/openid-connect/certs''"

section \<open>Fetching\<close>

definition MAX_JWKS_BYTES :: nat where
  "MAX_JWKS_BYTES = 256 * 1024"

definition IDP_UNAVAILABLE :: string where
  "IDP_UNAVAILABLE = ''identity provider JWKS endpoint unavailable''"

text \<open>What the client sees of a request: no answer, or a status, the advertised length and the chunks
  of the body up to a failed read.\<close>

datatype response = Unreachable | Response nat "nat option" "(string, string) result list"

fun read_body :: "string \<Rightarrow> (string, string) result list \<Rightarrow> (AuthError, string) result" where
  "read_body body [] = Ok body"
| "read_body body (Inl e # chunks) = Err (A_Jwks IDP_UNAVAILABLE)"
| "read_body body (Inr chunk # chunks) =
     (if MAX_JWKS_BYTES < length body + length chunk then Err (A_Jwks ''jwks document too large'')
      else read_body (body @ chunk) chunks)"

fun jwks_fetch :: "(string \<Rightarrow> 'j jwk list option) \<Rightarrow> response \<Rightarrow> (AuthError, 'j jwk list) result" where
  "jwks_fetch parse Unreachable = Err (A_Jwks IDP_UNAVAILABLE)"
| "jwks_fetch parse (Response status len chunks) =
     (if \<not> (200 \<le> status \<and> status < 300) then Err (A_Jwks IDP_UNAVAILABLE)
      else if (case len of Some n \<Rightarrow> MAX_JWKS_BYTES < n | None \<Rightarrow> False) then Err (A_Jwks ''jwks document too large'')
      else case read_body [] chunks of
        Inl e \<Rightarrow> Err e
      | Inr body \<Rightarrow> (case parse body of None \<Rightarrow> Err (A_Jwks IDP_UNAVAILABLE) | Some ks \<Rightarrow> Ok ks))"

definition import_key :: "('j jwk \<Rightarrow> (string, 'k) result) \<Rightarrow> 'j jwk \<Rightarrow> (string \<rightharpoonup> 'k SigningKey) \<Rightarrow> (string \<rightharpoonup> 'k SigningKey)" where
  "import_key from_jwk j fresh =
     (case jwk_kid j of
        None \<Rightarrow> fresh
      | Some kid \<Rightarrow>
          (if jwk_use j = Some Encryption then fresh
           else if (case jwk_alg j of Some a \<Rightarrow> as_signing_alg a = None | None \<Rightarrow> False) then fresh
           else case from_jwk j of
             Inl e \<Rightarrow> fresh
           | Inr key \<Rightarrow> fresh(kid \<mapsto> \<lparr>sk_key = key, sk_alg = Option.bind (jwk_alg j) as_signing_alg\<rparr>)))"

definition import_keys :: "('j jwk \<Rightarrow> (string, 'k) result) \<Rightarrow> 'j jwk list \<Rightarrow> (string \<rightharpoonup> 'k SigningKey)" where
  "import_keys from_jwk ks = fold (import_key from_jwk) ks Map.empty"

section \<open>The cache and its requests\<close>

text \<open>Where a request of \<open>key_for\<close> is: about to look, having missed, past the first look at the floor,
  queued with the generation it saw, holding the guard, fetching, about to record the outcome, about
  to release the guard, about to look again, about to ask why the key is missing, answered, or
  abandoned by its caller.\<close>

datatype 'k request =
    Looks string
  | Missed string
  | Snapshots string
  | Queued string nat
  | Decides string nat
  | Fetching string
  | Stamping string "(AuthError, unit) result"
  | Bumping string "(AuthError, unit) result"
  | Rereads string
  | Unsure string
  | Answered string "(AuthError, 'k SigningKey) result"
  | Gone

record 'k JwksCache =
  jc_keys :: "string \<rightharpoonup> 'k SigningKey"
  jc_fetches :: nat
  jc_completed :: nat
  jc_flight :: "nat option"
  completed_at :: "nat option"
  consecutive_failures :: nat
  min_refresh_interval :: nat
  failure_backoff_base :: nat
  jc_now :: nat
  jc_requests :: "'k request list"

definition DEFAULT_MIN_REFRESH_INTERVAL :: nat where
  "DEFAULT_MIN_REFRESH_INTERVAL = 60000"

definition DEFAULT_FAILURE_BACKOFF_BASE :: nat where
  "DEFAULT_FAILURE_BACKOFF_BASE = 1000"

definition jwks_new :: "'k JwksCache" where
  "jwks_new = \<lparr>jc_keys = Map.empty, jc_fetches = 0, jc_completed = 0, jc_flight = None, completed_at = None,
     consecutive_failures = 0, min_refresh_interval = DEFAULT_MIN_REFRESH_INTERVAL,
     failure_backoff_base = DEFAULT_FAILURE_BACKOFF_BASE, jc_now = 0, jc_requests = []\<rparr>"

definition refresh_floor :: "'k JwksCache \<Rightarrow> nat" where
  "refresh_floor s =
     (if consecutive_failures s = 0 then min_refresh_interval s
      else min (failure_backoff_base s * 2 ^ min (consecutive_failures s - 1) 16) (min_refresh_interval s))"

definition too_soon :: "'k JwksCache \<Rightarrow> bool" where
  "too_soon s = (case completed_at s of None \<Rightarrow> False | Some at \<Rightarrow> jc_now s - at < refresh_floor s)"

definition set_request :: "nat \<Rightarrow> 'k request \<Rightarrow> 'k JwksCache \<Rightarrow> 'k JwksCache" where
  "set_request i q s = s\<lparr>jc_requests := (jc_requests s)[i := q]\<rparr>"

text \<open>\<open>refresh\<close> records the outcome and the time on completion; the count of failures saturates.\<close>

definition stamp_refresh :: "bool \<Rightarrow> 'k JwksCache \<Rightarrow> 'k JwksCache" where
  "stamp_refresh good s = s\<lparr>completed_at := Some (jc_now s),
     consecutive_failures := (if good then 0 else min (consecutive_failures s + 1) (2 ^ 32 - 1))\<rparr>"

definition request_step :: "('j jwk \<Rightarrow> (string, 'k) result) \<Rightarrow> (string \<Rightarrow> 'j jwk list option) \<Rightarrow> response \<Rightarrow> nat \<Rightarrow> 'k JwksCache \<Rightarrow> 'k JwksCache" where
  "request_step from_jwk parse resp i s = (case jc_requests s ! i of
      Looks kid \<Rightarrow> set_request i (case jc_keys s kid of Some k \<Rightarrow> Answered kid (Ok k) | None \<Rightarrow> Missed kid) s
    | Missed kid \<Rightarrow> set_request i (if too_soon s then Rereads kid else Snapshots kid) s
    | Snapshots kid \<Rightarrow> set_request i (Queued kid (jc_completed s)) s
    | Queued kid gen \<Rightarrow> (if jc_flight s = None then set_request i (Decides kid gen) (s\<lparr>jc_flight := Some i\<rparr>) else s)
    | Decides kid gen \<Rightarrow>
        (if jc_completed s \<noteq> gen \<or> too_soon s then set_request i (Rereads kid) (s\<lparr>jc_flight := None\<rparr>)
         else set_request i (Fetching kid) (s\<lparr>jc_fetches := jc_fetches s + 1\<rparr>))
    | Fetching kid \<Rightarrow>
        (case jwks_fetch parse resp of
           Inl e \<Rightarrow> set_request i (Stamping kid (Err e)) s
         | Inr ks \<Rightarrow> set_request i (Stamping kid (Ok ())) (s\<lparr>jc_keys := import_keys from_jwk ks\<rparr>))
    | Stamping kid r \<Rightarrow> set_request i (Bumping kid r) (stamp_refresh (is_ok r) s)
    | Bumping kid r \<Rightarrow>
        set_request i (case r of Inl e \<Rightarrow> Answered kid (Err e) | Inr _ \<Rightarrow> Rereads kid)
          (s\<lparr>jc_completed := jc_completed s + 1, jc_flight := None\<rparr>)
    | Rereads kid \<Rightarrow> set_request i (case jc_keys s kid of Some k \<Rightarrow> Answered kid (Ok k) | None \<Rightarrow> Unsure kid) s
    | Unsure kid \<Rightarrow> set_request i (Answered kid (Err (if 0 < consecutive_failures s then A_Jwks IDP_UNAVAILABLE
        else A_UnknownKid (sanitize_kid kid)))) s
    | Answered kid a \<Rightarrow> s
    | Gone \<Rightarrow> s)"

text \<open>A caller that hangs up drops the future where it waits; a guard it holds is released.\<close>

definition request_dropped :: "nat \<Rightarrow> 'k JwksCache \<Rightarrow> 'k JwksCache" where
  "request_dropped i s = (case jc_requests s ! i of
      Looks kid \<Rightarrow> set_request i Gone s
    | Queued kid gen \<Rightarrow> set_request i Gone s
    | Fetching kid \<Rightarrow> set_request i Gone (s\<lparr>jc_flight := None\<rparr>)
    | Rereads kid \<Rightarrow> set_request i Gone s
    | _ \<Rightarrow> s)"

datatype jwks_event = Arrives string | Moves nat response | Drops nat | Passes nat

fun jwks_step :: "('j jwk \<Rightarrow> (string, 'k) result) \<Rightarrow> (string \<Rightarrow> 'j jwk list option) \<Rightarrow> jwks_event \<Rightarrow> 'k JwksCache \<Rightarrow> 'k JwksCache" where
  "jwks_step from_jwk parse (Arrives kid) s = s\<lparr>jc_requests := jc_requests s @ [Looks kid]\<rparr>"
| "jwks_step from_jwk parse (Moves i resp) s = (if i < length (jc_requests s) then request_step from_jwk parse resp i s else s)"
| "jwks_step from_jwk parse (Drops i) s = (if i < length (jc_requests s) then request_dropped i s else s)"
| "jwks_step from_jwk parse (Passes t) s = s\<lparr>jc_now := jc_now s + t\<rparr>"

definition jwks_run :: "('j jwk \<Rightarrow> (string, 'k) result) \<Rightarrow> (string \<Rightarrow> 'j jwk list option) \<Rightarrow> jwks_event list \<Rightarrow> 'k JwksCache" where
  "jwks_run from_jwk parse evs = fold (jwks_step from_jwk parse) evs jwks_new"

section \<open>How often the provider is asked\<close>

text \<open>What a state with \<open>f\<close> failures in a row may still cost beyond the time that has passed, in
  milliseconds when a fetch counts for fifteen seconds.\<close>

definition allowance :: "nat \<Rightarrow> nat" where
  "allowance f = (if f < 7 then [60000, 15000, 29000, 42000, 53000, 60000, 59000] ! f else 42000)"

definition floor_after :: "nat \<Rightarrow> nat" where
  "floor_after f = (if f = 0 then 60000 else min (1000 * 2 ^ min (f - 1) 16) 60000)"

lemma allowance_bounds: "15000 \<le> allowance f" "allowance f \<le> 60000"
proof -
  have "f < 7 \<Longrightarrow> f = 0 \<or> f = 1 \<or> f = 2 \<or> f = 3 \<or> f = 4 \<or> f = 5 \<or> f = 6" by linarith
  then show "15000 \<le> allowance f" "allowance f \<le> 60000" by (auto simp: allowance_def nth_Cons')
qed

lemma floor_after_long:
  assumes "7 \<le> f"
  shows "floor_after f = 60000"
proof -
  have "(2::nat) ^ 6 \<le> 2 ^ min (f - 1) 16" using assms by (intro power_increasing) auto
  then show ?thesis using assms by (simp add: floor_after_def)
qed

lemma allowance_step:
  assumes "f' = 0 \<or> f' = min (f + 1) (2 ^ 32 - 1)"
  shows "allowance f + 15000 \<le> floor_after f + allowance f'"
proof (cases "f < 7")
  case True
  then have "f = 0 \<or> f = 1 \<or> f = 2 \<or> f = 3 \<or> f = 4 \<or> f = 5 \<or> f = 6" by linarith
  then show ?thesis using assms by (auto simp: allowance_def floor_after_def nth_Cons')
next
  case False
  then show ?thesis using floor_after_long [of f] allowance_bounds(1) [of f'] by (simp add: allowance_def [of f])
qed

text \<open>The guard has one holder, and what was fetched is paid for by time passed, by requests dropped and
  by the one fetch in flight.\<close>

fun holds_guard :: "'k request \<Rightarrow> bool" where
  "holds_guard (Decides _ _) = True"
| "holds_guard (Fetching _) = True"
| "holds_guard (Stamping _ _) = True"
| "holds_guard (Bumping _ _) = True"
| "holds_guard _ = False"

fun in_flight :: "'k request \<Rightarrow> bool" where
  "in_flight (Fetching _) = True"
| "in_flight (Stamping _ _) = True"
| "in_flight _ = False"

definition busy :: "'k JwksCache \<Rightarrow> bool" where
  "busy s = (case jc_flight s of None \<Rightarrow> False | Some i \<Rightarrow> i < length (jc_requests s) \<and> in_flight (jc_requests s ! i))"

definition one_holder :: "'k JwksCache \<Rightarrow> bool" where
  "one_holder s \<longleftrightarrow> (\<forall>i < length (jc_requests s). holds_guard (jc_requests s ! i) \<longrightarrow> jc_flight s = Some i)"

definition default_times :: "'k JwksCache \<Rightarrow> bool" where
  "default_times s \<longleftrightarrow> min_refresh_interval s = 60000 \<and> failure_backoff_base s = 1000"

definition paid_for :: "nat \<Rightarrow> 'k JwksCache \<Rightarrow> bool" where
  "paid_for d s = (case completed_at s of
      None \<Rightarrow> jc_fetches s \<le> d + of_bool (busy s)
    | Some t \<Rightarrow> t \<le> jc_now s \<and> 15000 * jc_fetches s \<le> t + allowance (consecutive_failures s) + 15000 * (d + of_bool (busy s))
        \<and> (busy s \<longrightarrow> t + floor_after (consecutive_failures s) \<le> jc_now s))"

lemma floor_default: "default_times s \<Longrightarrow> refresh_floor s = floor_after (consecutive_failures s)"
  by (simp add: default_times_def refresh_floor_def floor_after_def)

lemma too_soon_default:
  "default_times s \<Longrightarrow> \<not> too_soon s \<Longrightarrow> completed_at s = Some t \<Longrightarrow> t \<le> jc_now s \<Longrightarrow> t + floor_after (consecutive_failures s) \<le> jc_now s"
  by (auto simp: too_soon_def floor_default)

lemma set_request_sel [simp]:
  "jc_keys (set_request i q s) = jc_keys s" "jc_fetches (set_request i q s) = jc_fetches s"
  "jc_completed (set_request i q s) = jc_completed s" "jc_flight (set_request i q s) = jc_flight s"
  "completed_at (set_request i q s) = completed_at s" "consecutive_failures (set_request i q s) = consecutive_failures s"
  "jc_now (set_request i q s) = jc_now s" "jc_requests (set_request i q s) = (jc_requests s)[i := q]"
  "default_times (set_request i q s) = default_times s"
  by (simp_all add: set_request_def default_times_def)

lemma default_times_step: "default_times s \<Longrightarrow> default_times (jwks_step fj p ev s)"
  by (cases ev) (auto simp: request_step_def request_dropped_def stamp_refresh_def default_times_def set_request_def
      split: request.splits option.splits sum.splits)

lemma one_holder_step:
  assumes "one_holder s"
  shows "one_holder (jwks_step fj p ev s)"
proof (cases ev)
  case (Arrives kid)
  then show ?thesis using assms by (auto simp: one_holder_def nth_append less_Suc_eq)
next
  case (Moves i resp)
  have "j = i" if "i < length (jc_requests s)" "holds_guard (jc_requests s ! i)" "j < length (jc_requests s)" "holds_guard (jc_requests s ! j)" for j
    using assms that unfolding one_holder_def by (metis option.inject)
  then show ?thesis using Moves assms
    by (cases "jc_requests s ! i")
       (auto simp: one_holder_def request_step_def stamp_refresh_def nth_list_update split: option.splits sum.splits)
next
  case (Drops i)
  have "j = i" if "i < length (jc_requests s)" "holds_guard (jc_requests s ! i)" "j < length (jc_requests s)" "holds_guard (jc_requests s ! j)" for j
    using assms that unfolding one_holder_def by (metis option.inject)
  then show ?thesis using Drops assms
    by (cases "jc_requests s ! i") (auto simp: one_holder_def request_dropped_def nth_list_update)
next
  case (Passes t)
  then show ?thesis using assms by (simp add: one_holder_def)
qed

text \<open>A step that leaves the counters, the time and the guard's business alone keeps the account.\<close>

lemma paid_for_cong:
  assumes "paid_for d s" "jc_fetches s' = jc_fetches s" "completed_at s' = completed_at s"
    "consecutive_failures s' = consecutive_failures s" "jc_now s' = jc_now s" "busy s' = busy s"
  shows "paid_for d s'"
  using assms by (cases "busy s") (simp_all add: paid_for_def split: option.splits)

lemma paid_for_released:
  assumes "paid_for d s" "jc_fetches s' = jc_fetches s" "completed_at s' = completed_at s"
    "consecutive_failures s' = consecutive_failures s" "jc_now s' = jc_now s" "\<not> busy s'"
  shows "paid_for (Suc d) s'"
  using assms by (cases "busy s") (auto simp: paid_for_def split: option.splits)

lemma busy_holder: "one_holder s \<Longrightarrow> i < length (jc_requests s) \<Longrightarrow> holds_guard (jc_requests s ! i) \<Longrightarrow> busy s = in_flight (jc_requests s ! i)"
  by (simp add: one_holder_def busy_def)

lemma busy_other: "one_holder s \<Longrightarrow> i < length (jc_requests s) \<Longrightarrow> \<not> in_flight (jc_requests s ! i) \<Longrightarrow> \<not> in_flight q \<Longrightarrow> busy (set_request i q s) = busy s"
  by (auto simp: busy_def nth_list_update split: option.splits)

lemma paid_for_stamp:
  assumes "paid_for d s" "busy s" "s' = set_request i q (stamp_refresh good s)" "\<not> busy s'"
  shows "paid_for d s'"
proof -
  let ?f' = "consecutive_failures s'"
  have f: "?f' = 0 \<or> ?f' = min (consecutive_failures s + 1) (2 ^ 32 - 1)" using assms(3) by (simp add: stamp_refresh_def)
  have sel: "completed_at s' = Some (jc_now s)" "jc_fetches s' = jc_fetches s" "jc_now s' = jc_now s"
    using assms(3) by (simp_all add: stamp_refresh_def)
  show ?thesis
  proof (cases "completed_at s")
    case None
    then have "15000 * jc_fetches s \<le> 15000 * (d + 1)" using assms(1,2) by (simp add: paid_for_def)
    then show ?thesis using sel assms(4) allowance_bounds(1) [of ?f'] by (simp add: paid_for_def)
  next
    case (Some t)
    then show ?thesis using assms(1,2,4) sel allowance_step [OF f] by (simp add: paid_for_def)
  qed
qed

lemma paid_for_start:
  assumes "paid_for d s" "\<not> busy s" "\<not> too_soon s" "default_times s" "busy s'"
    "jc_fetches s' = jc_fetches s + 1" "completed_at s' = completed_at s"
    "consecutive_failures s' = consecutive_failures s" "jc_now s' = jc_now s"
  shows "paid_for d s'"
  using assms too_soon_default [OF assms(4,3)] by (auto simp: paid_for_def split: option.splits)

lemma paid_for_moves:
  assumes "paid_for d s" "one_holder s" "default_times s" "i < length (jc_requests s)"
  shows "paid_for d (request_step fj p resp i s)"
proof (cases "jc_requests s ! i")
  case (Queued kid gen)
  have "busy (set_request i (Decides kid gen) (s\<lparr>jc_flight := Some i\<rparr>)) = busy s" if "jc_flight s = None"
    using that assms(4) by (simp add: busy_def)
  then show ?thesis using Queued assms(1) by (auto simp: request_step_def intro!: paid_for_cong [OF assms(1)])
next
  case (Decides kid gen)
  have b: "\<not> busy s" using Decides busy_holder [OF assms(2,4)] by simp
  have fl: "jc_flight s = Some i" using Decides assms(2,4) by (simp add: one_holder_def)
  have "busy (set_request i (Fetching kid) (s\<lparr>jc_fetches := jc_fetches s + 1\<rparr>))" using fl assms(4) by (simp add: busy_def)
  then have go: "paid_for d (set_request i (Fetching kid) (s\<lparr>jc_fetches := jc_fetches s + 1\<rparr>))" if "\<not> too_soon s"
    using that assms(3) b by (intro paid_for_start [OF assms(1)]) auto
  have "\<not> busy (set_request i (Rereads kid) (s\<lparr>jc_flight := None\<rparr>))" by (simp add: busy_def)
  then have "paid_for d (set_request i (Rereads kid) (s\<lparr>jc_flight := None\<rparr>))" using b by (intro paid_for_cong [OF assms(1)]) auto
  then show ?thesis using go Decides by (auto simp: request_step_def)
next
  case (Fetching kid)
  have fl: "jc_flight s = Some i" "busy s" using Fetching assms(2,4) busy_holder [OF assms(2,4)] by (simp_all add: one_holder_def)
  then have "busy (set_request i (Stamping kid r) (s\<lparr>jc_keys := ks\<rparr>))" "busy (set_request i (Stamping kid r) s)" for r ks
    using assms(4) by (simp_all add: busy_def)
  then show ?thesis using Fetching fl by (auto simp: request_step_def split: sum.splits intro!: paid_for_cong [OF assms(1)])
next
  case (Stamping kid r)
  have fl: "jc_flight s = Some i" "busy s" using Stamping assms(2,4) busy_holder [OF assms(2,4)] by (simp_all add: one_holder_def)
  have "\<not> busy (set_request i (Bumping kid r) (stamp_refresh (is_ok r) s))"
    using fl assms(4) by (simp add: busy_def stamp_refresh_def)
  then show ?thesis using Stamping fl paid_for_stamp [OF assms(1) fl(2) refl] by (simp add: request_step_def)
next
  case (Bumping kid r)
  have b: "\<not> busy s" using Bumping busy_holder [OF assms(2,4)] by simp
  have "\<not> busy (set_request i q (s\<lparr>jc_completed := n, jc_flight := None\<rparr>))" for q n by (simp add: busy_def)
  then show ?thesis using Bumping b by (auto simp: request_step_def intro!: paid_for_cong [OF assms(1)])
qed (use assms in \<open>auto simp: request_step_def busy_other split: option.splits intro!: paid_for_cong [OF assms(1)]\<close>)

lemma paid_for_more: "paid_for d s \<Longrightarrow> paid_for (Suc d) s"
  by (cases "busy s") (auto simp: paid_for_def split: option.splits)

lemma paid_for_drops:
  assumes "paid_for d s" "one_holder s" "i < length (jc_requests s)"
  shows "paid_for (Suc d) (request_dropped i s)"
proof (cases "jc_requests s ! i")
  case (Fetching kid)
  have "\<not> busy (set_request i Gone (s\<lparr>jc_flight := None\<rparr>))" by (simp add: busy_def)
  then show ?thesis using Fetching by (auto simp: request_dropped_def intro!: paid_for_released [OF assms(1)])
qed (use assms in \<open>auto simp: request_dropped_def busy_other intro!: paid_for_more paid_for_cong [OF assms(1)]\<close>)

fun drops :: "jwks_event \<Rightarrow> nat" where
  "drops (Drops _) = 1"
| "drops _ = 0"

lemma paid_for_step:
  assumes "paid_for d s" "one_holder s" "default_times s"
  shows "paid_for (d + drops ev) (jwks_step fj p ev s)"
proof (cases ev)
  case (Arrives kid)
  have "busy (s\<lparr>jc_requests := jc_requests s @ [Looks kid]\<rparr>) = busy s"
    by (auto simp: busy_def nth_append less_Suc_eq split: option.splits)
  then show ?thesis using Arrives by (auto intro!: paid_for_cong [OF assms(1)])
next
  case (Passes t)
  have "busy (s\<lparr>jc_now := jc_now s + t\<rparr>) = busy s" by (simp add: busy_def split: option.split)
  then show ?thesis using Passes assms(1) by (cases "busy s") (auto simp: paid_for_def split: option.splits)
qed (use assms paid_for_moves paid_for_drops paid_for_more in auto)

lemma jwks_run_inv:
  "default_times (jwks_run fj p evs) \<and> one_holder (jwks_run fj p evs) \<and> paid_for (sum_list (map drops evs)) (jwks_run fj p evs)"
proof (induction evs rule: rev_induct)
  case Nil
  then show ?case by (simp add: jwks_run_def jwks_new_def default_times_def one_holder_def paid_for_def
      DEFAULT_MIN_REFRESH_INTERVAL_def DEFAULT_FAILURE_BACKOFF_BASE_def)
next
  case (snoc ev evs)
  then show ?case using default_times_step one_holder_step paid_for_step by (simp add: jwks_run_def) blast
qed

section \<open>What an answer rests on\<close>

definition published :: "('j jwk \<Rightarrow> (string, 'k) result) \<Rightarrow> 'j jwk list \<Rightarrow> string \<Rightarrow> 'k SigningKey \<Rightarrow> bool" where
  "published from_jwk ks kid k \<longleftrightarrow> (\<exists>j \<in> set ks. jwk_kid j = Some kid \<and> jwk_use j \<noteq> Some Encryption
     \<and> (case jwk_alg j of None \<Rightarrow> sk_alg k = None | Some a \<Rightarrow> sk_alg k = as_signing_alg a \<and> sk_alg k \<noteq> None)
     \<and> from_jwk j = Ok (sk_key k))"

lemma import_key_published:
  "import_key fj j m kid = Some k \<Longrightarrow> m kid = Some k \<or> published fj [j] kid k"
  by (cases "jwk_alg j") (auto simp: import_key_def published_def split: option.splits if_splits sum.splits)

lemma import_keys_published:
  assumes "import_keys fj ks kid = Some k"
  shows "published fj ks kid k"
  using assms
proof (induction ks rule: rev_induct)
  case (snoc j ks)
  then have "import_keys fj ks kid = Some k \<or> published fj [j] kid k"
    using import_key_published [of fj j "import_keys fj ks" kid k] by (simp add: import_keys_def)
  then show ?case using snoc.IH by (auto simp: published_def)
qed (simp add: import_keys_def)

definition fetched :: "(string \<Rightarrow> 'j jwk list option) \<Rightarrow> response set \<Rightarrow> bool" where
  "fetched p W \<longleftrightarrow> (\<exists>r \<in> W. is_ok (jwks_fetch p r))"

definition not_fetched :: "(string \<Rightarrow> 'j jwk list option) \<Rightarrow> response set \<Rightarrow> bool" where
  "not_fetched p W \<longleftrightarrow> (\<exists>r \<in> W. \<not> is_ok (jwks_fetch p r))"

fun grounded :: "('j jwk \<Rightarrow> (string, 'k) result) \<Rightarrow> (string \<Rightarrow> 'j jwk list option) \<Rightarrow> response set \<Rightarrow> string \<Rightarrow> (AuthError, 'k SigningKey) result \<Rightarrow> bool" where
  "grounded fj p W kid (Inr k) = (\<exists>r \<in> W. \<exists>ks. jwks_fetch p r = Ok ks \<and> published fj ks kid k)"
| "grounded fj p W kid (Inl (A_UnknownKid x)) = (x = sanitize_kid kid \<and> fetched p W)"
| "grounded fj p W kid (Inl (A_Jwks m)) = not_fetched p W"
| "grounded fj p W kid (Inl _) = False"

fun request_ok :: "('j jwk \<Rightarrow> (string, 'k) result) \<Rightarrow> (string \<Rightarrow> 'j jwk list option) \<Rightarrow> response set \<Rightarrow> 'k JwksCache \<Rightarrow> 'k request \<Rightarrow> bool" where
  "request_ok fj p W s (Queued kid g) = (g \<le> jc_completed s)"
| "request_ok fj p W s (Decides kid g) = (g \<le> jc_completed s)"
| "request_ok fj p W s (Stamping kid r) = (case r of Inl e \<Rightarrow> not_fetched p W \<and> (\<exists>m. e = A_Jwks m) | Inr _ \<Rightarrow> fetched p W)"
| "request_ok fj p W s (Bumping kid r) = (completed_at s \<noteq> None \<and> (case r of Inl e \<Rightarrow> not_fetched p W \<and> (\<exists>m. e = A_Jwks m) | Inr _ \<Rightarrow> True))"
| "request_ok fj p W s (Rereads kid) = (completed_at s \<noteq> None)"
| "request_ok fj p W s (Unsure kid) = (completed_at s \<noteq> None)"
| "request_ok fj p W s (Answered kid a) = grounded fj p W kid a"
| "request_ok fj p W s _ = True"

definition cache_ok :: "('j jwk \<Rightarrow> (string, 'k) result) \<Rightarrow> (string \<Rightarrow> 'j jwk list option) \<Rightarrow> response set \<Rightarrow> 'k JwksCache \<Rightarrow> bool" where
  "cache_ok fj p W s \<longleftrightarrow> (\<forall>kid k. jc_keys s kid = Some k \<longrightarrow> grounded fj p W kid (Ok k))
     \<and> (0 < jc_completed s \<longrightarrow> completed_at s \<noteq> None)
     \<and> (completed_at s \<noteq> None \<longrightarrow> (if consecutive_failures s = 0 then fetched p W else not_fetched p W))"

definition well_grounded :: "('j jwk \<Rightarrow> (string, 'k) result) \<Rightarrow> (string \<Rightarrow> 'j jwk list option) \<Rightarrow> response set \<Rightarrow> 'k JwksCache \<Rightarrow> bool" where
  "well_grounded fj p W s \<longleftrightarrow> cache_ok fj p W s \<and> (\<forall>q \<in> set (jc_requests s). request_ok fj p W s q)"

lemma grounded_mono: "grounded fj p W kid a \<Longrightarrow> W \<subseteq> W' \<Longrightarrow> grounded fj p W' kid a"
  by (cases "(fj, p, W, kid, a)" rule: grounded.cases) (auto simp: fetched_def not_fetched_def)

lemma request_ok_mono:
  assumes "request_ok fj p W s q" "W \<subseteq> W'" "jc_completed s \<le> jc_completed s'" "completed_at s \<noteq> None \<Longrightarrow> completed_at s' \<noteq> None"
  shows "request_ok fj p W' s' q"
  using assms by (cases q) (auto simp: fetched_def not_fetched_def grounded_mono split: sum.splits)

lemma cache_ok_mono:
  assumes "cache_ok fj p W s" "W \<subseteq> W'"
  shows "cache_ok fj p W' s"
proof -
  have "fetched p W \<Longrightarrow> fetched p W'" "not_fetched p W \<Longrightarrow> not_fetched p W'" using assms(2) by (auto simp: fetched_def not_fetched_def)
  moreover have "grounded fj p W kid a \<Longrightarrow> grounded fj p W' kid a" for kid a using grounded_mono assms(2) by blast
  ultimately show ?thesis using assms(1) unfolding cache_ok_def by (metis (full_types))
qed

lemma well_grounded_update:
  assumes "well_grounded fj p W s" "cache_ok fj p W s'" "jc_completed s \<le> jc_completed s'" "completed_at s \<noteq> None \<Longrightarrow> completed_at s' \<noteq> None"
    "jc_requests s' = (jc_requests s)[i := q]" "request_ok fj p W s' q"
  shows "well_grounded fj p W s'"
proof -
  have "request_ok fj p W s' q'" if "q' \<in> set (jc_requests s')" for q'
  proof (cases "q' = q")
    case False
    then have "q' \<in> set (jc_requests s)" using that assms(5) set_update_subset_insert [of "jc_requests s" i q] by auto
    then show ?thesis using assms(1,3,4) request_ok_mono [of fj p W s q' W s'] by (simp add: well_grounded_def)
  qed (use assms(6) in simp)
  then show ?thesis using assms(2) by (simp add: well_grounded_def)
qed

lemma jwks_fetch_error: "jwks_fetch p r = Inl e \<Longrightarrow> \<exists>m. e = A_Jwks m"
proof -
  have "read_body b cs = Inl e' \<Longrightarrow> \<exists>m. e' = A_Jwks m" for b cs e' by (induction b cs rule: read_body.induct) (auto split: if_splits)
  then show "jwks_fetch p r = Inl e \<Longrightarrow> \<exists>m. e = A_Jwks m" by (cases r) (auto split: if_splits option.splits sum.splits)
qed

lemma cache_ok_cong:
  assumes "cache_ok fj p W s" "jc_keys s' = jc_keys s" "jc_completed s' = jc_completed s" "completed_at s' = completed_at s"
    "consecutive_failures s' = consecutive_failures s"
  shows "cache_ok fj p W s'"
  using assms by (simp add: cache_ok_def)

lemma well_grounded_move:
  assumes "well_grounded fj p W s" "i < length (jc_requests s)" "resp \<in> W"
  shows "well_grounded fj p W (request_step fj p resp i s)"
proof -
  have c: "cache_ok fj p W s" and q: "request_ok fj p W s (jc_requests s ! i)"
    using assms(1,2) by (simp_all add: well_grounded_def)
  note upd = well_grounded_update [OF assms(1), where i = i]
  note same = cache_ok_cong [OF c]
  show ?thesis
  proof (cases "jc_requests s ! i")
    case (Looks kid)
    then show ?thesis using c by (auto simp: request_step_def cache_ok_def split: option.splits intro!: upd same)
  next
    case (Missed kid)
    then show ?thesis by (auto simp: request_step_def too_soon_def split: option.splits intro!: upd same)
  next
    case (Decides kid g)
    then show ?thesis using q c by (auto simp: request_step_def too_soon_def cache_ok_def split: option.splits intro!: upd same)
  next
    case (Fetching kid)
    show ?thesis
    proof (cases "jwks_fetch p resp")
      case (Inl e)
      have "not_fetched p W" using Inl assms(3) unfolding not_fetched_def by (intro bexI [of _ resp]) simp
      then show ?thesis using Fetching Inl jwks_fetch_error [OF Inl] by (auto simp: request_step_def intro!: upd same)
    next
      case (Inr ks)
      have "cache_ok fj p W (set_request i (Stamping kid (Ok ())) (s\<lparr>jc_keys := import_keys fj ks\<rparr>))"
        using c Inr assms(3) import_keys_published [of fj ks] by (auto simp: cache_ok_def)
      moreover have "fetched p W" using Inr assms(3) unfolding fetched_def by (intro bexI [of _ resp]) simp
      ultimately show ?thesis using Fetching Inr by (auto simp: request_step_def intro!: upd)
    qed
  next
    case (Stamping kid r)
    have "cache_ok fj p W (set_request i (Bumping kid r) (stamp_refresh (is_ok r) s))"
      using c q Stamping by (cases r) (auto simp: cache_ok_def stamp_refresh_def)
    then show ?thesis using q Stamping by (cases r) (auto simp: request_step_def stamp_refresh_def intro!: upd)
  next
    case (Bumping kid r)
    then show ?thesis using q c by (cases r) (auto simp: request_step_def cache_ok_def intro!: upd)
  next
    case (Rereads kid)
    then show ?thesis using q c by (auto simp: request_step_def cache_ok_def split: option.splits intro!: upd same)
  next
    case (Unsure kid)
    then show ?thesis using q c by (auto simp: request_step_def cache_ok_def split: if_splits intro!: upd same)
  qed (use assms(1) q in \<open>auto simp: request_step_def intro!: upd same\<close>)
qed

lemma well_grounded_mono: "well_grounded fj p W s \<Longrightarrow> W \<subseteq> W' \<Longrightarrow> well_grounded fj p W' s"
  using request_ok_mono [of fj p W s _ W' s] cache_ok_mono by (auto simp: well_grounded_def)

definition responses :: "jwks_event list \<Rightarrow> response set" where
  "responses evs = {r. \<exists>i. Moves i r \<in> set evs}"

lemma well_grounded_step:
  assumes "well_grounded fj p W s" "responses [ev] \<subseteq> W"
  shows "well_grounded fj p W (jwks_step fj p ev s)"
proof -
  have c: "cache_ok fj p W s" and q: "\<And>q. q \<in> set (jc_requests s) \<Longrightarrow> request_ok fj p W s q"
    using assms(1) by (simp_all add: well_grounded_def)
  show ?thesis
  proof (cases ev)
    case (Arrives kid)
    have "cache_ok fj p W (jwks_step fj p ev s)" using Arrives by (intro cache_ok_cong [OF c]) simp_all
    moreover have "request_ok fj p W (jwks_step fj p ev s) q" if "q \<in> set (jc_requests s)" for q
      by (rule request_ok_mono [OF q [OF that] subset_refl]) (simp_all add: Arrives)
    ultimately show ?thesis using Arrives by (auto simp: well_grounded_def)
  next
    case (Moves i resp)
    then show ?thesis using assms well_grounded_move [of fj p W s i resp] by (auto simp: responses_def)
  next
    case (Drops i)
    have "well_grounded fj p W (set_request i Gone s)"
      by (rule well_grounded_update [OF assms(1) cache_ok_cong [OF c], where i = i and q = Gone]) simp_all
    moreover have "well_grounded fj p W (set_request i Gone (s\<lparr>jc_flight := None\<rparr>))"
      by (rule well_grounded_update [OF assms(1) cache_ok_cong [OF c], where i = i and q = Gone]) simp_all
    ultimately show ?thesis using Drops assms(1) by (cases "jc_requests s ! i") (simp_all add: request_dropped_def)
  next
    case (Passes t)
    have "cache_ok fj p W (jwks_step fj p ev s)" using Passes by (intro cache_ok_cong [OF c]) simp_all
    moreover have "request_ok fj p W (jwks_step fj p ev s) q" if "q \<in> set (jc_requests s)" for q
      by (rule request_ok_mono [OF q [OF that] subset_refl]) (simp_all add: Passes)
    ultimately show ?thesis using Passes by (auto simp: well_grounded_def)
  qed
qed

lemma jwks_run_ok: "well_grounded fj p (responses evs) (jwks_run fj p evs)"
proof (induction evs rule: rev_induct)
  case Nil
  then show ?case by (simp add: jwks_run_def jwks_new_def well_grounded_def cache_ok_def)
next
  case (snoc ev evs)
  have "well_grounded fj p (responses (evs @ [ev])) (jwks_run fj p evs)"
    by (rule well_grounded_mono [OF snoc.IH]) (auto simp: responses_def)
  moreover have "responses [ev] \<subseteq> responses (evs @ [ev])" by (auto simp: responses_def)
  ultimately show ?case using well_grounded_step by (simp add: jwks_run_def)
qed

section \<open>Properties\<close>

text \<open>C19. A flood of tokens cannot be turned into traffic against the identity provider: whatever keys are
  asked for, by however many requests at once, in whatever order they move and however the
  provider answers or fails, the keys are fetched at most five times and once more per fifteen
  seconds of time passed, not counting one fetch for each request whose caller hung up.\<close>

theorem key_fetches_are_bounded:
  "let s = jwks_run fj p evs in
     15000 * jc_fetches s \<le> jc_now s + 75000 + 15000 * sum_list (map drops evs)"
proof -
  let ?s = "jwks_run fj p evs" and ?d = "sum_list (map drops evs)"
  have p: "paid_for ?d ?s" using jwks_run_inv by blast
  show ?thesis
  proof (cases "completed_at ?s")
    case None
    then have "jc_fetches ?s \<le> ?d + 1" using p by (cases "busy ?s") (simp_all add: paid_for_def)
    then show ?thesis by (simp add: Let_def)
  next
    case (Some t)
    then show ?thesis using p allowance_bounds(2) [of "consecutive_failures ?s"]
      by (cases "busy ?s") (simp_all add: paid_for_def Let_def)
  qed
qed

definition demo_doc :: "string \<Rightarrow> unit jwk list option" where
  "demo_doc _ = Some [\<lparr>jwk_kid = Some ''e'', jwk_use = Some Encryption, jwk_alg = None, jwk_body = ()\<rparr>,
     \<lparr>jwk_kid = Some ''k'', jwk_use = None, jwk_alg = Some K_RS256, jwk_body = ()\<rparr>]"

definition demo_evs :: "jwks_event list" where
  "demo_evs = (let m = Moves 0 (Response 200 None [Inr ''{}'']) in [Arrives ''k'', m, m, m, m, m, m, m, m, m])"

lemma demo_answer:
  "Answered ''k'' (Ok \<lparr>sk_key = x, sk_alg = Some RS256\<rparr>) \<in> set (jc_requests (jwks_run (\<lambda>_. Ok x) demo_doc demo_evs))"
  by (simp add: demo_evs_def jwks_run_def jwks_new_def request_step_def set_request_def too_soon_def stamp_refresh_def
      demo_doc_def import_keys_def import_key_def MAX_JWKS_BYTES_def Let_def)

text \<open>C29. Every answer of the key cache has a ground in what the provider sent: a key is handed out only
  for the name it was published under, never one published for encryption or under an algorithm
  that does not sign, and bound to the algorithm its issuer declared; a key is called unknown only
  when some key set was fetched, with the name cut to a harmless length; and the provider is called
  unavailable only when a fetch failed.\<close>

theorem key_answers_are_grounded:
  assumes "Answered kid a \<in> set (jc_requests (jwks_run fj p evs))"
  shows "case a of
      Inr k \<Rightarrow> \<exists>r \<in> responses evs. \<exists>ks. jwks_fetch p r = Ok ks \<and> published fj ks kid k
    | Inl (A_UnknownKid x) \<Rightarrow> x = sanitize_kid kid \<and> (\<exists>r \<in> responses evs. is_ok (jwks_fetch p r))
    | Inl e \<Rightarrow> (\<exists>m. e = A_Jwks m) \<and> (\<exists>r \<in> responses evs. \<not> is_ok (jwks_fetch p r))"
proof -
  have "grounded fj p (responses evs) kid a" using assms jwks_run_ok [of fj p evs] by (auto simp: well_grounded_def)
  then show ?thesis by (cases "(fj, p, responses evs, kid, a)" rule: grounded.cases) (auto simp: fetched_def not_fetched_def)
qed

theorem key_answers_are_grounded_witness:
  "let k = \<lparr>sk_key = (), sk_alg = Some RS256\<rparr>
   in Answered ''k'' (Ok k) \<in> set (jc_requests (jwks_run (\<lambda>_. Ok ()) demo_doc demo_evs))
      \<and> (\<exists>r \<in> responses demo_evs. \<exists>ks. jwks_fetch demo_doc r = Ok ks \<and> published (\<lambda>_. Ok ()) ks ''k'' k)"
  unfolding Let_def using key_answers_are_grounded [OF demo_answer [of "()"]] demo_answer [of "()"] by simp

text \<open>A caller that hangs up during its fetch leaves no trace of it: the floor does not start, and the
  next caller fetches again at once, as often as one likes without any time passing.\<close>

lemma abandoned_fetches_are_not_counted:
  "let s = jwks_run fj p (concat (map (\<lambda>i. Arrives kid # replicate 5 (Moves i Unreachable) @ [Drops i]) [0..<n]))
   in jc_fetches s = n \<and> jc_now s = 0"
proof -
  have "jwks_run fj p (concat (map (\<lambda>i. Arrives kid # replicate 5 (Moves i Unreachable) @ [Drops i]) [0..<n]))
      = jwks_new\<lparr>jc_fetches := n, jc_requests := replicate n Gone\<rparr>"
  proof (induction n)
    case (Suc n)
    have [simp]: "(replicate n Gone @ [x])[n := y] = replicate n Gone @ [y]" for x y :: "'c request"
      using list_update_length [of "replicate n Gone" x "[]" y] by simp
    have [simp]: "(replicate n Gone @ [x]) ! n = x" for x :: "'c request"
      using nth_append_length [of "replicate n Gone" x "[]"] by simp
    show ?case using Suc
      by (simp add: jwks_run_def jwks_new_def request_step_def request_dropped_def set_request_def too_soon_def numeral_eq_Suc replicate_append_same)
  qed (simp add: jwks_run_def jwks_new_def)
  then show ?thesis by (simp add: jwks_new_def)
qed

end
