(* ===== verification/Token_Verify.thy ===== *)
theory Token_Verify
  imports Jwks Admin_Service
begin

text \<open>
  Token verification (\<open>latiq-auth/src/verify.rs\<close>) and the protected-resource metadata
  (\<open>latiq-auth/src/metadata.rs\<close>).

  Parameters: the token library (\<open>decode_header\<close>, \<open>decode\<close>), base64 and JSON, the URL parser, and the
  answers of each issuer's key cache (\<open>key_for\<close>, the machine of \<open>Jwks\<close>).
\<close>

section \<open>Configuration\<close>

definition ALLOWED_ALGS :: "Algorithm list" where
  "ALLOWED_ALGS = [RS256, RS384, RS512, PS256, PS384, PS512, ES256, ES384, EdDSA]"

definition MAX_TOKEN_BYTES :: nat where
  "MAX_TOKEN_BYTES = 8 * 1024"

definition CLOCK_SKEW_LEEWAY_SECS :: nat where
  "CLOCK_SKEW_LEEWAY_SECS = 30"

record IssuerConfig =
  ic_issuer :: string
  ic_jwks_uri :: "string option"

record AuthConfig =
  ac_audience :: string
  ac_issuers :: "IssuerConfig list"
  allow_insecure_jwks :: bool

text \<open>The verifier keeps the normalised configuration; the caches are given by issuer and address.\<close>

record Verifier =
  vf_cfg :: AuthConfig
  vf_caches :: "(string \<times> string) list"

datatype Host = Domain string | Ipv4 "32 word" | Ipv6 "128 word"

record Url =
  url_scheme :: string
  url_host :: "Host option"
  url_text :: string

definition ipv4_is_loopback :: "32 word \<Rightarrow> bool" where
  "ipv4_is_loopback ip \<longleftrightarrow> drop_bit 24 ip = 127"

definition to_ipv4_mapped :: "128 word \<Rightarrow> 32 word option" where
  "to_ipv4_mapped ip = (if drop_bit 32 ip = 65535 then Some (ucast ip) else None)"

definition url_is_loopback :: "Url \<Rightarrow> bool" where
  "url_is_loopback u = (case url_host u of
      Some (Domain name) \<Rightarrow> eq_ignore_ascii_case name ''localhost''
    | Some (Ipv4 ip) \<Rightarrow> ipv4_is_loopback ip
    | Some (Ipv6 ip) \<Rightarrow> ip = 1 \<or> (case to_ipv4_mapped ip of Some v4 \<Rightarrow> ipv4_is_loopback v4 | None \<Rightarrow> False)
    | None \<Rightarrow> False)"

text \<open>The guard on the raw text: something after the first colon that is not \<open>//host\<close>.\<close>

definition no_host :: "string \<Rightarrow> bool" where
  "no_host uri = (case split_once CHR '':'' uri of
      None \<Rightarrow> False
    | Some (_, rest) \<Rightarrow> \<not> starts_with rest ''//'' \<or> starts_with (drop 2 rest) ''/'')"

definition checked_jwks_uri :: "(string \<Rightarrow> (string, Url) result) \<Rightarrow> string \<Rightarrow> bool \<Rightarrow> (AuthError, string) result" where
  "checked_jwks_uri parse_url uri allow_insecure =
     (if no_host uri then Err (A_Invalid (''jwks uri '' @ quoted uri @ '' has no host; expected scheme://host/path''))
      else case parse_url uri of
        Inl e \<Rightarrow> Err (A_Invalid (''jwks uri '' @ quoted uri @ '' is not a valid URL: '' @ e))
      | Inr u \<Rightarrow>
          (if url_scheme u = ''https'' then Ok (url_text u)
           else if url_scheme u = ''http'' then
             (if url_is_loopback u \<or> allow_insecure then Ok (url_text u)
              else Err (A_Invalid (''jwks uri '' @ quoted uri @ '' is plaintext http to a non-loopback host: signing keys must be fetched over https'')))
           else Err (A_Invalid (''jwks uri scheme '' @ quoted (url_scheme u) @ '' is not supported; use https''))))"

definition jwks_uri_of :: "string \<Rightarrow> IssuerConfig \<Rightarrow> string" where
  "jwks_uri_of name ic = (case ic_jwks_uri ic of
      Some u \<Rightarrow> (if trim u \<noteq> [] then trim u else discover_uri name)
    | None \<Rightarrow> discover_uri name)"

fun new_caches :: "(string \<Rightarrow> (string, Url) result) \<Rightarrow> bool \<Rightarrow> (string \<times> string) list \<Rightarrow> IssuerConfig list \<Rightarrow> (AuthError, (string \<times> string) list) result" where
  "new_caches parse_url insecure caches [] = Ok caches"
| "new_caches parse_url insecure caches (ic # ics) =
     (let name = trim (ic_issuer ic) in
      if name = [] then Err (A_Invalid ''issuer identifier must not be empty'')
      else if name \<in> set (map fst caches) then Err (A_Invalid (''issuer '' @ quoted name @ '' is configured more than once''))
      else case checked_jwks_uri parse_url (jwks_uri_of name ic) insecure of
        Inl e \<Rightarrow> Err e
      | Inr uri \<Rightarrow> new_caches parse_url insecure (caches @ [(name, uri)]) ics)"

definition verifier_new :: "(string \<Rightarrow> (string, Url) result) \<Rightarrow> AuthConfig \<Rightarrow> (AuthError, Verifier) result" where
  "verifier_new parse_url cfg =
     (if trim (ac_audience cfg) = [] then
        Err (A_Invalid ''auth audience must not be empty: without it any token minted for any service would be accepted'')
      else if ac_issuers cfg = [] then Err (A_Invalid ''auth requires at least one configured issuer'')
      else case new_caches parse_url (allow_insecure_jwks cfg) [] (ac_issuers cfg) of
        Inl e \<Rightarrow> Err e
      | Inr caches \<Rightarrow>
          Ok \<lparr>vf_cfg = \<lparr>ac_audience = trim (ac_audience cfg),
                ac_issuers = map (\<lambda>(name, uri). \<lparr>ic_issuer = name, ic_jwks_uri = Some uri\<rparr>) caches,
                allow_insecure_jwks = allow_insecure_jwks cfg\<rparr>,
              vf_caches = caches\<rparr>)"

section \<open>Verification\<close>

record jwt_header =
  jh_alg :: Algorithm
  jh_kid :: "string option"

record Validation =
  va_alg :: Algorithm
  va_leeway :: nat
  va_nbf :: bool
  va_aud :: "string list"
  va_iss :: "string list"
  va_required :: "string list"

text \<open>The token library: reading the header, base64, the issuer of the unverified claims, and the checked
  decoding, which gives the subject.\<close>

record 'k jwt_lib =
  decode_header :: "string \<Rightarrow> (string, jwt_header) result"
  decode_b64 :: "string \<Rightarrow> (string, string) result"
  claimed_iss :: "string \<Rightarrow> (string, string option) result"
  jwt_decode :: "string \<Rightarrow> 'k \<Rightarrow> Validation \<Rightarrow> (string, string option) result"

definition unverified_issuer :: "'k jwt_lib \<Rightarrow> string \<Rightarrow> (AuthError, string) result" where
  "unverified_issuer lib tok = (case split_on (\<lambda>ch. ch = CHR ''.'') tok of
      [_, payload, _] \<Rightarrow>
        (case decode_b64 lib payload of
           Inl e \<Rightarrow> Err (A_Malformed (''token payload is not base64url: '' @ e))
         | Inr bytes \<Rightarrow>
             (case claimed_iss lib bytes of
                Inl e \<Rightarrow> Err (A_Malformed (''token payload is not JSON claims: '' @ e))
              | Inr None \<Rightarrow> Err (A_Malformed (''token has no '' @ quoted ''iss'' @ '' claim, so no key set can be chosen''))
              | Inr (Some iss) \<Rightarrow> Ok iss))
    | _ \<Rightarrow> Err (A_Malformed ''token is not a three-segment JWS''))"

fun show_alg :: "Algorithm \<Rightarrow> string" where
  "show_alg HS256 = ''HS256''" | "show_alg HS384 = ''HS384''" | "show_alg HS512 = ''HS512''"
| "show_alg ES256 = ''ES256''" | "show_alg ES384 = ''ES384''" | "show_alg RS256 = ''RS256''"
| "show_alg RS384 = ''RS384''" | "show_alg RS512 = ''RS512''" | "show_alg PS256 = ''PS256''"
| "show_alg PS384 = ''PS384''" | "show_alg PS512 = ''PS512''" | "show_alg EdDSA = ''EdDSA''"

definition validation_for :: "string \<Rightarrow> string \<Rightarrow> Algorithm \<Rightarrow> Validation" where
  "validation_for aud iss alg =
     \<lparr>va_alg = alg, va_leeway = CLOCK_SKEW_LEEWAY_SECS, va_nbf = True, va_aud = [aud], va_iss = [iss],
      va_required = [''exp'', ''aud'', ''iss'', ''sub'']\<rparr>"

text \<open>The last part of \<open>verify\<close>, once a key is known.\<close>

definition verify_with_key :: "'k jwt_lib \<Rightarrow> string \<Rightarrow> string \<Rightarrow> Algorithm \<Rightarrow> 'k SigningKey \<Rightarrow> string \<Rightarrow> string option \<Rightarrow> (AuthError, Identity) result" where
  "verify_with_key lib aud iss alg key tok claimed =
     (if (case sk_alg key of Some declared \<Rightarrow> declared \<noteq> alg | None \<Rightarrow> False) then
        Err (A_Invalid (''token algorithm '' @ show_alg alg @ '' does not match the '' @
          (case sk_alg key of Some declared \<Rightarrow> show_alg declared | None \<Rightarrow> []) @ '' declared by signing key''))
      else case jwt_decode lib tok (sk_key key) (validation_for aud iss alg) of
        Inl e \<Rightarrow> Err (A_Invalid e)
      | Inr sub \<Rightarrow>
          (let subject = trim (case sub of Some x \<Rightarrow> x | None \<Rightarrow> []) in
           if subject = [] then Err (A_Invalid (''token '' @ quoted ''sub'' @ '' is empty, so the caller has no identity to attribute''))
           else Ok (identity_verified subject iss claimed)))"

definition verify :: "'k jwt_lib \<Rightarrow> (string \<Rightarrow> string \<Rightarrow> (AuthError, 'k SigningKey) result) \<Rightarrow> Verifier \<Rightarrow> string \<Rightarrow> string option \<Rightarrow> (AuthError, Identity) result" where
  "verify lib key_for v raw claimed =
     (let tok = trim raw in
      if tok = [] then Err A_Missing
      else if MAX_TOKEN_BYTES < length tok then
        Err (A_Malformed (''token is '' @ show_nat (length tok) @ '' bytes, over the '' @ show_nat MAX_TOKEN_BYTES @ ''-byte limit''))
      else case decode_header lib tok of
        Inl e \<Rightarrow> Err (A_Malformed (''unreadable token header: '' @ e))
      | Inr h \<Rightarrow>
          (if jh_alg h \<notin> set ALLOWED_ALGS then Err (A_Invalid (''token algorithm '' @ show_alg (jh_alg h) @ '' is not accepted''))
           else case jh_kid h of
             None \<Rightarrow> Err (A_Malformed (''token header has no '' @ quoted ''kid'' @ '', so no signing key can be pinned''))
           | Some kid \<Rightarrow>
               (case unverified_issuer lib tok of
                  Inl e \<Rightarrow> Err e
                | Inr claimed_issuer \<Rightarrow>
                    (if claimed_issuer \<notin> set (map fst (vf_caches v)) then
                       Err (A_Invalid ''token issuer is not configured for this deployment'')
                     else case key_for claimed_issuer kid of
                       Inl e \<Rightarrow> Err e
                     | Inr key \<Rightarrow> verify_with_key lib (ac_audience (vf_cfg v)) claimed_issuer (jh_alg h) key tok claimed))))"

section \<open>Metadata\<close>

record ProtectedResourceMetadata =
  pr_resource :: string
  authorization_servers :: "string list"
  bearer_methods_supported :: "string list"

definition metadata_new :: "string \<Rightarrow> string list \<Rightarrow> ProtectedResourceMetadata" where
  "metadata_new resource servers =
     \<lparr>pr_resource = resource, authorization_servers = servers, bearer_methods_supported = [''header'']\<rparr>"

abbreviation backslash :: char where
  "backslash \<equiv> CHR 0x5C"

definition upper_hex :: "nat \<Rightarrow> char" where
  "upper_hex n = ''0123456789ABCDEF'' ! n"

definition encode_byte :: "char \<Rightarrow> string" where
  "encode_byte ch =
     (if 33 \<le> code ch \<and> code ch \<le> 126 \<and> ch \<noteq> dquote \<and> ch \<noteq> backslash then [ch]
      else [CHR ''%'', upper_hex (code ch div 16), upper_hex (code ch mod 16)])"

definition encode_quoted :: "string \<Rightarrow> string" where
  "encode_quoted url = concat (map encode_byte url)"

definition challenge_header :: "string \<Rightarrow> string" where
  "challenge_header url = ''Bearer resource_metadata='' @ [dquote] @ encode_quoted url @ [dquote]"

section \<open>The token library\<close>

text \<open>What a token says, and what its library promises of a successful decoding: the signature fits the
  key under the pinned algorithm and the claims asked for are there and right.\<close>

record token_claims =
  tc_exp :: "nat option"
  tc_nbf :: "nat option"
  tc_aud :: "string list"
  tc_iss :: "string option"
  tc_sub :: "string option"

definition decode_checks :: "'k jwt_lib \<Rightarrow> (string \<Rightarrow> 'k \<Rightarrow> Algorithm \<Rightarrow> bool) \<Rightarrow> (string \<Rightarrow> token_claims) \<Rightarrow> nat \<Rightarrow> bool" where
  "decode_checks lib sig_ok says now \<longleftrightarrow> (\<forall>tok key v sub. jwt_decode lib tok key v = Ok sub \<longrightarrow>
     sig_ok tok key (va_alg v) \<and> sub = tc_sub (says tok)
   \<and> (''exp'' \<in> set (va_required v) \<longrightarrow> (\<exists>e. tc_exp (says tok) = Some e \<and> now \<le> e + va_leeway v))
   \<and> (va_nbf v \<longrightarrow> (\<forall>n. tc_nbf (says tok) = Some n \<longrightarrow> n \<le> now + va_leeway v))
   \<and> (''aud'' \<in> set (va_required v) \<longrightarrow> set (tc_aud (says tok)) \<inter> set (va_aud v) \<noteq> {})
   \<and> (''iss'' \<in> set (va_required v) \<longrightarrow> (\<exists>i \<in> set (va_iss v). tc_iss (says tok) = Some i)))"

section \<open>Lemmas\<close>

lemma new_caches_ok:
  assumes "new_caches pu insecure caches ics = Ok res" "distinct (map fst caches)"
  shows "distinct (map fst res) \<and> map fst res = map fst caches @ map (\<lambda>ic. trim (ic_issuer ic)) ics
    \<and> (\<forall>(name, uri) \<in> set res. (name, uri) \<in> set caches \<or> name \<noteq> [] \<and> (\<exists>ic \<in> set ics. name = trim (ic_issuer ic)
         \<and> checked_jwks_uri pu (jwks_uri_of name ic) insecure = Ok uri))"
  using assms
proof (induction ics arbitrary: caches)
  case (Cons ic ics)
  let ?name = "trim (ic_issuer ic)"
  obtain uri where u: "checked_jwks_uri pu (jwks_uri_of ?name ic) insecure = Ok uri" "?name \<noteq> []" "?name \<notin> set (map fst caches)"
    "new_caches pu insecure (caches @ [(?name, uri)]) ics = Ok res"
    using Cons.prems(1) by (auto simp: Let_def split: if_splits sum.splits)
  have "distinct (map fst (caches @ [(?name, uri)]))" using Cons.prems(2) u(3) by simp
  from Cons.IH [OF u(4) this] show ?case using u by fastforce
qed auto

lemma checked_uri_ok:
  assumes "checked_jwks_uri pu uri insecure = Ok res"
  shows "\<exists>u. pu uri = Ok u \<and> res = url_text u
    \<and> (url_scheme u = ''https'' \<or> url_scheme u = ''http'' \<and> (url_is_loopback u \<or> insecure))"
  using assms by (auto simp: checked_jwks_uri_def split: if_splits sum.splits)

lemma verifier_new_ok:
  assumes "verifier_new pu cfg = Ok v"
  shows "new_caches pu (allow_insecure_jwks cfg) [] (ac_issuers cfg) = Ok (vf_caches v)"
    "ac_audience (vf_cfg v) = trim (ac_audience cfg)" "trim (ac_audience cfg) \<noteq> []" "ac_issuers cfg \<noteq> []"
    "map ic_issuer (ac_issuers (vf_cfg v)) = map fst (vf_caches v)"
  using assms by (auto simp: verifier_new_def split: if_splits sum.splits)

lemma issuer_trimmed:
  assumes "verifier_new pu cfg = Ok v" "iss \<in> set (map fst (vf_caches v))"
  shows "trim iss = iss" "iss \<in> (\<lambda>ic. trim (ic_issuer ic)) ` set (ac_issuers cfg)"
proof -
  have "map fst (vf_caches v) = map (\<lambda>ic. trim (ic_issuer ic)) (ac_issuers cfg)"
    using new_caches_ok [OF verifier_new_ok(1) [OF assms(1)]] by simp
  then show "iss \<in> (\<lambda>ic. trim (ic_issuer ic)) ` set (ac_issuers cfg)" using assms(2) by auto
  then show "trim iss = iss" by auto
qed

lemma verify_ok:
  assumes "verify lib key_for v raw claimed = Ok ident"
  obtains h kid iss key sub where "length (trim raw) \<le> MAX_TOKEN_BYTES" "decode_header lib (trim raw) = Ok h" "jh_kid h = Some kid"
    "jh_alg h \<in> set ALLOWED_ALGS" "iss \<in> set (map fst (vf_caches v))" "key_for iss kid = Ok key"
    "sk_alg key = None \<or> sk_alg key = Some (jh_alg h)"
    "jwt_decode lib (trim raw) (sk_key key) (validation_for (ac_audience (vf_cfg v)) iss (jh_alg h)) = Ok sub"
    "trim (case sub of Some x \<Rightarrow> x | None \<Rightarrow> []) \<noteq> []"
    "ident = identity_verified (trim (case sub of Some x \<Rightarrow> x | None \<Rightarrow> [])) iss claimed"
  using assms
  by (auto simp: verify_def verify_with_key_def Let_def split: if_splits sum.splits option.splits)

lemma verify_sound:
  assumes "verifier_new pu cfg = Ok v" "decode_checks lib sig_ok says now" "verify lib key_for v raw claimed = Ok ident"
  obtains alg kid key sub e where "length (trim raw) \<le> 8192" "decode_header lib (trim raw) = Ok \<lparr>jh_alg = alg, jh_kid = Some kid\<rparr>"
    "alg \<notin> {HS256, HS384, HS512}" "issuer ident \<in> (\<lambda>ic. trim (ic_issuer ic)) ` set (ac_issuers cfg)"
    "key_for (issuer ident) kid = Ok key" "sk_alg key = None \<or> sk_alg key = Some alg" "sig_ok (trim raw) (sk_key key) alg"
    "trim (ac_audience cfg) \<in> set (tc_aud (says (trim raw)))" "tc_iss (says (trim raw)) = Some (issuer ident)"
    "tc_exp (says (trim raw)) = Some e" "now \<le> e + 30" "\<forall>n. tc_nbf (says (trim raw)) = Some n \<longrightarrow> n \<le> now + 30"
    "tc_sub (says (trim raw)) = Some sub" "subject ident = trim sub" "trim sub \<noteq> []" "verified ident"
proof -
  obtain h kid iss key sub where o: "length (trim raw) \<le> MAX_TOKEN_BYTES" "decode_header lib (trim raw) = Ok h" "jh_kid h = Some kid"
    "jh_alg h \<in> set ALLOWED_ALGS" "iss \<in> set (map fst (vf_caches v))" "key_for iss kid = Ok key"
    "sk_alg key = None \<or> sk_alg key = Some (jh_alg h)"
    "jwt_decode lib (trim raw) (sk_key key) (validation_for (ac_audience (vf_cfg v)) iss (jh_alg h)) = Ok sub"
    "trim (case sub of Some x \<Rightarrow> x | None \<Rightarrow> []) \<noteq> []"
    "ident = identity_verified (trim (case sub of Some x \<Rightarrow> x | None \<Rightarrow> [])) iss claimed"
    using verify_ok [OF assms(3)] by blast
  obtain s where s: "sub = Some s" "trim s \<noteq> []" using o(9) by (cases sub) (auto simp: trim_def trim_start_def trim_end_def)
  have h: "h = \<lparr>jh_alg = jh_alg h, jh_kid = Some kid\<rparr>" using o(3) by simp
  have i: "trim iss = iss" "iss \<in> (\<lambda>ic. trim (ic_issuer ic)) ` set (ac_issuers cfg)" by (rule issuer_trimmed [OF assms(1) o(5)])+
  have id: "issuer ident = iss" "subject ident = trim s" "verified ident" using o(10) s i(1) by (simp_all add: identity_verified_def trim_idem)
  have a: "jh_alg h \<notin> {HS256, HS384, HS512}" using o(4) by (auto simp: ALLOWED_ALGS_def)
  note d = assms(2) [unfolded decode_checks_def, rule_format, OF o(8)]
  obtain e where e: "tc_exp (says (trim raw)) = Some e" "now \<le> e + 30" using d by (auto simp: validation_for_def CLOCK_SKEW_LEEWAY_SECS_def)
  have aud: "trim (ac_audience cfg) \<in> set (tc_aud (says (trim raw)))" "tc_iss (says (trim raw)) = Some iss"
    using d verifier_new_ok(2) [OF assms(1)] by (auto simp: validation_for_def)
  have nbf: "\<forall>n. tc_nbf (says (trim raw)) = Some n \<longrightarrow> n \<le> now + 30" and sg: "sig_ok (trim raw) (sk_key key) (jh_alg h)"
    and sb: "tc_sub (says (trim raw)) = Some s"
    using d s by (auto simp: validation_for_def CLOCK_SKEW_LEEWAY_SECS_def)
  have n: "length (trim raw) \<le> 8192" using o(1) by (simp add: MAX_TOKEN_BYTES_def)
  have dh: "decode_header lib (trim raw) = Ok \<lparr>jh_alg = jh_alg h, jh_kid = Some kid\<rparr>" using o(2) h by simp
  show ?thesis
    by (rule that [of "jh_alg h" kid key e s]) (use o(6,7) dh a i(2) e aud nbf sg sb s(2) id n in simp_all)
qed

lemma cached_key_published:
  assumes "Answered kid (Ok k) \<in> set (jc_requests (jwks_run fj p evs))"
  shows "\<exists>r ks. jwks_fetch p r = Ok ks \<and> published fj ks kid k"
  using assms jwks_run_ok [of fj p evs] by (force simp: well_grounded_def)

lemma identity_of_verified:
  assumes "verifier svc = Some f" "fst (identity_of svc u md op) = Ok (ident, trace)"
  obtains hdr tok where "md ''authorization'' = Some hdr" "bearer hdr = Some tok" "f tok (md ''latiq-agent-id'') = Ok ident"
  using assms by (auto simp: identity_of_def Let_def bind_eq_Some_conv split: option.splits sum.splits)

section \<open>Properties\<close>

text \<open>C4. Nobody gets a verified identity without a token for it: a caller is accepted only when its token,
  of bounded size, was signed with an asymmetric algorithm by a key that the cache of an issuer the
  deployment trusts gave for the named key, under the algorithm declared for that key if any,
  names that issuer, this deployment's audience and a subject, and is inside its validity period
  up to thirty seconds of clock skew; and the identity given is the token's subject and issuer.\<close>

theorem verified_identity_was_signed_for:
  assumes "verifier_new pu cfg = Ok v" "decode_checks lib sig_ok says now" "verify lib key_for v raw claimed = Ok ident"
  shows "\<exists>alg kid key sub e. let tok = trim raw; iss = issuer ident in
       length tok \<le> 8192 \<and> decode_header lib tok = Ok \<lparr>jh_alg = alg, jh_kid = Some kid\<rparr>
     \<and> alg \<notin> {HS256, HS384, HS512} \<and> iss \<in> (\<lambda>ic. trim (ic_issuer ic)) ` set (ac_issuers cfg)
     \<and> key_for iss kid = Ok key \<and> (sk_alg key = None \<or> sk_alg key = Some alg) \<and> sig_ok tok (sk_key key) alg
     \<and> trim (ac_audience cfg) \<in> set (tc_aud (says tok)) \<and> tc_iss (says tok) = Some iss
     \<and> tc_exp (says tok) = Some e \<and> now \<le> e + 30 \<and> (\<forall>n. tc_nbf (says tok) = Some n \<longrightarrow> n \<le> now + 30)
     \<and> tc_sub (says tok) = Some sub \<and> subject ident = trim sub \<and> trim sub \<noteq> [] \<and> verified ident"
  using verify_sound [OF assms] unfolding Let_def by metis

text \<open>A deployment that starts with token verification is not open by mistake: its audience and its list
  of issuers are not empty, no issuer is configured twice, what it publishes is what it enforces, and
  every address keys are fetched from is https, or plain http to the loopback address the URL parser
  found, or the operator asked for plain http.\<close>

lemma verifier_config_is_closed:
  assumes "verifier_new pu cfg = Ok v"
  shows "ac_audience (vf_cfg v) \<noteq> [] \<and> vf_caches v \<noteq> [] \<and> distinct (map fst (vf_caches v))
     \<and> map ic_issuer (ac_issuers (vf_cfg v)) = map fst (vf_caches v)
     \<and> (\<forall>(name, uri) \<in> set (vf_caches v). name \<noteq> [] \<and> (\<exists>raw u. pu raw = Ok u \<and> uri = url_text u
          \<and> (url_scheme u = ''https'' \<or> url_scheme u = ''http'' \<and> (url_is_loopback u \<or> allow_insecure_jwks cfg))))"
proof -
  note n = verifier_new_ok [OF assms]
  note c = new_caches_ok [OF n(1)]
  have "length (vf_caches v) = length (ac_issuers cfg)" using c by (metis append_Nil distinct.simps(1) length_map list.simps(8))
  then have "vf_caches v \<noteq> []" using n(4) by auto
  then show ?thesis using n c checked_uri_ok by fastforce
qed

definition demo_lib :: "nat jwt_lib" where
  "demo_lib = \<lparr>decode_header = (\<lambda>_. Ok \<lparr>jh_alg = RS256, jh_kid = Some ''k''\<rparr>), decode_b64 = (\<lambda>s. Ok s),
     claimed_iss = (\<lambda>_. Ok (Some ''https://idp'')),
     jwt_decode = (\<lambda>_ key v. if key = 7 \<and> ''https://idp'' \<in> set (va_iss v) \<and> ''pond'' \<in> set (va_aud v) then Ok (Some ''ann'') else Err ''bad'')\<rparr>"

definition demo_says :: "string \<Rightarrow> token_claims" where
  "demo_says _ = \<lparr>tc_exp = Some 100, tc_nbf = None, tc_aud = [''pond''], tc_iss = Some ''https://idp'', tc_sub = Some ''ann''\<rparr>"

definition demo_url :: "string \<Rightarrow> (string, Url) result" where
  "demo_url s = Ok \<lparr>url_scheme = ''https'', url_host = Some (Domain ''idp''), url_text = s\<rparr>"

definition demo_auth :: AuthConfig where
  "demo_auth = \<lparr>ac_audience = ''pond'', ac_issuers = [\<lparr>ic_issuer = ''https://idp'', ic_jwks_uri = None\<rparr>], allow_insecure_jwks = False\<rparr>"

definition demo_verifier :: Verifier where
  "demo_verifier = \<lparr>vf_cfg = \<lparr>ac_audience = ''pond'', ac_issuers = [\<lparr>ic_issuer = ''https://idp'', ic_jwks_uri = Some ''https://idp/protocol/openid-connect/certs''\<rparr>],
     allow_insecure_jwks = False\<rparr>, vf_caches = [(''https://idp'', ''https://idp/protocol/openid-connect/certs'')]\<rparr>"

lemma demo_verifier_new: "verifier_new demo_url demo_auth = Ok demo_verifier"
  by code_simp

lemma verifier_config_is_closed_example:
  "verifier_new demo_url demo_auth = Ok demo_verifier \<and> ac_audience (vf_cfg demo_verifier) \<noteq> [] \<and> distinct (map fst (vf_caches demo_verifier))"
  using verifier_config_is_closed [OF demo_verifier_new] demo_verifier_new by blast

lemma demo_decode_checks: "decode_checks demo_lib (\<lambda>_ key _. key = 7) demo_says 90"
  unfolding decode_checks_def
proof (intro allI impI)
  fix tok key v sub
  assume "jwt_decode demo_lib tok key v = Ok sub"
  then have k: "key = 7" "''https://idp'' \<in> set (va_iss v)" "''pond'' \<in> set (va_aud v)" "sub = Some ''ann''"
    by (simp_all add: demo_lib_def split: if_splits)
  show "key = 7 \<and> sub = tc_sub (demo_says tok)
     \<and> (''exp'' \<in> set (va_required v) \<longrightarrow> (\<exists>e. tc_exp (demo_says tok) = Some e \<and> 90 \<le> e + va_leeway v))
     \<and> (va_nbf v \<longrightarrow> (\<forall>n. tc_nbf (demo_says tok) = Some n \<longrightarrow> n \<le> 90 + va_leeway v))
     \<and> (''aud'' \<in> set (va_required v) \<longrightarrow> set (tc_aud (demo_says tok)) \<inter> set (va_aud v) \<noteq> {})
     \<and> (''iss'' \<in> set (va_required v) \<longrightarrow> (\<exists>i \<in> set (va_iss v). tc_iss (demo_says tok) = Some i))"
    using k by (simp add: demo_says_def)
qed

definition demo_key_for :: "string \<Rightarrow> string \<Rightarrow> (AuthError, nat SigningKey) result" where
  "demo_key_for iss kid = (if kid = ''k'' then Ok \<lparr>sk_key = 7, sk_alg = Some RS256\<rparr> else Err (A_UnknownKid kid))"

definition demo_ident :: Identity where
  "demo_ident = \<lparr>agent_id = ''bot'', subject = ''ann'', issuer = ''https://idp'', verified = True\<rparr>"

lemma demo_verify: "verify demo_lib demo_key_for demo_verifier ''h.p.s'' (Some ''bot'') = Ok demo_ident"
  by code_simp

theorem verified_identity_was_signed_for_witness:
  "verifier_new demo_url demo_auth = Ok demo_verifier \<and> decode_checks demo_lib (\<lambda>_ key _. key = 7) demo_says 90
    \<and> verify demo_lib demo_key_for demo_verifier ''h.p.s'' (Some ''bot'') = Ok demo_ident
    \<and> (\<exists>kid key. demo_key_for (issuer demo_ident) kid = Ok key \<and> sk_key key = 7)"
  using demo_verifier_new demo_decode_checks demo_verify
    verified_identity_was_signed_for [OF demo_verifier_new demo_decode_checks demo_verify] by (auto simp: Let_def)

text \<open>A reader of quoted strings as the header's grammar has it: a quote ends the string, a backslash
  takes the next character as it is.\<close>

fun qs_read :: "string \<Rightarrow> (string \<times> string) option" where
  "qs_read [] = None"
| "qs_read (c # cs) =
     (if c = dquote then Some ([], cs)
      else if c = backslash then (case cs of [] \<Rightarrow> None | d # ds \<Rightarrow> map_option (\<lambda>(a, b). (d # a, b)) (qs_read ds))
      else map_option (\<lambda>(a, b). (c # a, b)) (qs_read cs))"

definition plain_byte :: "char \<Rightarrow> bool" where
  "plain_byte ch \<longleftrightarrow> 33 \<le> code ch \<and> code ch \<le> 126 \<and> ch \<noteq> dquote \<and> ch \<noteq> backslash"

lemma qs_read_plain: "list_all plain_byte s \<Longrightarrow> qs_read (s @ dquote # rest) = Some (s, rest)"
  by (induction s) (auto simp: plain_byte_def)

lemma upper_hex_plain: "n < 16 \<Longrightarrow> plain_byte (upper_hex n)"
proof -
  assume "n < 16"
  then have "n \<in> set [0..<16]" by simp
  moreover have "list_all (\<lambda>n. plain_byte (upper_hex n)) [0..<16]" by code_simp
  ultimately show ?thesis by (simp add: list_all_iff)
qed

lemma encode_byte_plain: "list_all plain_byte (encode_byte ch)"
proof -
  have "code ch mod 256 = code ch" by (rule of_char_mod_256)
  moreover have "code ch mod 256 < 256" by (rule mod_less_divisor) simp
  ultimately have "code ch < 16 * 16" by simp
  then have "code ch div 16 < 16" by (rule less_mult_imp_div_less)
  then show ?thesis using upper_hex_plain [of "code ch div 16"] upper_hex_plain [of "code ch mod 16"]
    by (auto simp: encode_byte_def) (simp_all add: plain_byte_def)
qed

lemma encode_quoted_plain: "list_all plain_byte (encode_quoted url)"
  using encode_byte_plain by (induction url) (simp_all add: encode_quoted_def)

lemma encode_plain_id: "list_all plain_byte url \<Longrightarrow> encode_quoted url = url"
  by (induction url) (simp_all add: encode_quoted_def encode_byte_def plain_byte_def)

text \<open>The challenge sent with a refusal is one parameter, whatever address it carries: a reader of the
  header finds the encoded address as a single quoted string with nothing behind it, made of
  visible characters without quotes, backslashes or controls; encoding twice changes nothing, and an
  ordinary address is left as it is.\<close>

lemma challenge_is_one_parameter:
  "\<exists>rest. challenge_header url = ''Bearer resource_metadata='' @ dquote # rest
     \<and> qs_read rest = Some (encode_quoted url, []) \<and> list_all plain_byte (encode_quoted url)
     \<and> encode_quoted (encode_quoted url) = encode_quoted url
     \<and> (list_all plain_byte url \<longrightarrow> encode_quoted url = url)"
  using qs_read_plain [OF encode_quoted_plain, of url "[]"] encode_quoted_plain [of url] encode_plain_id
  by (simp add: challenge_header_def)

lemma challenge_is_one_parameter_example:
  "encode_quoted [CHR ''a'', dquote, newline, backslash] = ''a%22%0A%5C'' \<and> list_all plain_byte ''https://node/x'' \<and> encode_quoted ''https://node/x'' = ''https://node/x''"
proof -
  have p: "list_all plain_byte ''https://node/x''" by code_simp
  moreover have "encode_quoted [CHR ''a'', dquote, newline, backslash] = ''a%22%0A%5C''" by code_simp
  ultimately show ?thesis using challenge_is_one_parameter [of "''https://node/x''"] by blast
qed

end
