(* ===== verification/Node_Wire.thy ===== *)
theory Node_Wire
  imports Engine_Txn
begin

text \<open>
  The JSON that crosses a node-to-node hop: the encoder and decoder of query results
  (\<open>latiq-pond-node/src/wire.rs\<close>) with the shapes serde derives for the types in them
  (\<open>latiq-common/src/meta.rs\<close>, \<open>latiq-engine/src/result.rs\<close>, \<open>latiq-agent-core/src/types.rs\<close>): a
  field marked \<open>skip_serializing_if\<close> is left out, one marked \<open>default\<close> or optional may be missing,
  one marked \<open>skip\<close> is not carried.
\<close>

section \<open>Encoding\<close>

definition json_nat :: "nat \<Rightarrow> Value" where
  "json_nat n = JNumber (show_nat n)"

definition json_strings :: "string list \<Rightarrow> Value" where
  "json_strings ss = JArray (map JString ss)"

text \<open>The entry of a field that is left out when it has its empty value.\<close>

definition entry_unless :: "bool \<Rightarrow> string \<Rightarrow> Value \<Rightarrow> (string \<times> Value) list" where
  "entry_unless skip k v = (if skip then [] else [(k, v)])"

definition entry_opt :: "string \<Rightarrow> ('a \<Rightarrow> Value) \<Rightarrow> 'a option \<Rightarrow> (string \<times> Value) list" where
  "entry_opt k f x = (case x of None \<Rightarrow> [] | Some a \<Rightarrow> [(k, f a)])"

definition dataset_ref_json :: "DatasetRef \<Rightarrow> Value" where
  "dataset_ref_json d = json_object
     (entry_opt ''namespace'' JString (dr_namespace d) @ [(''name'', JString (dr_name d))]
      @ entry_opt ''version'' (\<lambda>i. JNumber (show_int i)) (dr_version d))"

fun warning_kind_name :: "WarningKind \<Rightarrow> string" where
  "warning_kind_name Performance = ''performance''"
| "warning_kind_name Portability = ''portability''"
| "warning_kind_name SchemaHygiene = ''schema_hygiene''"
| "warning_kind_name ResultHygiene = ''result_hygiene''"

definition warning_json :: "Warning \<Rightarrow> Value" where
  "warning_json w = json_object [(''kind'', JString (warning_kind_name (w_kind w))), (''message'', JString (w_message w))]"

definition meta_entries :: "QueryMeta \<Rightarrow> (string \<times> Value) list" where
  "meta_entries m =
     [(''rows'', json_nat (qm_rows m)), (''rows_affected'', json_nat (rows_affected m))]
     @ entry_opt ''snapshot_id'' (\<lambda>i. JNumber (show_int i)) (snapshot_id m)
     @ [(''duration_ms'', json_nat (qm_duration_ms m))]
     @ entry_unless (timeout_ms m = 0) ''timeout_ms'' (json_nat (unat (timeout_ms m)))
     @ [(''bytes_scanned'', json_nat (bytes_scanned m))]
     @ entry_unless (tables_touched m = []) ''tables_touched'' (json_strings (tables_touched m))
     @ entry_unless (inputs m = []) ''inputs'' (JArray (map dataset_ref_json (inputs m)))
     @ entry_unless (outputs m = []) ''outputs'' (JArray (map dataset_ref_json (outputs m)))
     @ entry_unless (qm_warnings m = []) ''warnings'' (JArray (map warning_json (qm_warnings m)))
     @ entry_opt ''hint'' JString (qm_hint m)
     @ entry_unless (served_by m = []) ''served_by'' (JString (served_by m))
     @ entry_unless (qm_trace_id m = []) ''trace_id'' (JString (qm_trace_id m))
     @ entry_unless (qm_traceparent m = []) ''traceparent'' (JString (qm_traceparent m))"

definition query_value :: "QueryResult \<Rightarrow> Value" where
  "query_value qr = json_object
     [(''columns'', json_strings (qr_columns qr)),
      (''rows'', JArray (map JArray (qr_rows qr))),
      (''statement'', JString (if snapshot_id (qr_meta qr) \<noteq> None then ''write_query'' else ''read_query'')),
      (''status'', JString ''ok''),
      (''_meta'', json_object (meta_entries (qr_meta qr)))]"

definition scan_op_json :: "ScanOp \<Rightarrow> Value" where
  "scan_op_json s = json_object [(''table'', JString (so_table s)), (''scan_type'', JString (scan_type s)),
     (''estimated_rows_scanned'', json_nat (estimated_rows_scanned s)), (''source'', JString (so_source s))]"

definition explain_json :: "ExplainResult \<Rightarrow> Value" where
  "explain_json e = json_object [(''estimated_rows'', json_nat (estimated_rows e)),
     (''scan_operations'', JArray (map scan_op_json (scan_operations e))), (''warnings'', json_strings (er_warnings e)),
     (''suggestions'', json_strings (er_suggestions e)), (''raw_plan'', JString (raw_plan e))]"

definition lineage_page_json :: "LineagePage \<Rightarrow> Value" where
  "lineage_page_json p = json_object [(''pond_id'', JString (lp_pond_id p)), (''pond_name'', JString (lp_pond_name p)),
     (''lineage_dir'', JString (lp_lineage_dir p)), (''events'', JArray (lp_events p)),
     (''limit_applied'', json_nat (limit_applied p)), (''truncated'', JBool (lp_truncated p)),
     (''malformed_lines'', json_nat (lp_malformed_lines p)), (''unreadable_files'', json_nat (lp_unreadable_files p))]"

definition pull_json :: "PullResult \<Rightarrow> Value" where
  "pull_json p = json_object [(''catalog'', JString (pr_catalog p)), (''query'', JString (pr_query p))]"

definition load_json :: "LoadDatasetResult \<Rightarrow> Value" where
  "load_json r = json_object [(''dataset'', JString (ld_dataset r)), (''schema'', JString (ld_schema r)),
     (''tables'', json_strings (ld_tables r))]"

section \<open>Decoding\<close>

definition as_array :: "Value \<Rightarrow> Value list option" where
  "as_array v = (case v of JArray xs \<Rightarrow> Some xs | _ \<Rightarrow> None)"

definition as_bool :: "Value \<Rightarrow> bool option" where
  "as_bool v = (case v of JBool b \<Rightarrow> Some b | _ \<Rightarrow> None)"

definition dec_list :: "(Value \<Rightarrow> 'a option) \<Rightarrow> Value \<Rightarrow> 'a list option" where
  "dec_list f v = Option.bind (as_array v) (\<lambda>xs. those (map f xs))"

definition dec_opt :: "(Value \<Rightarrow> 'a option) \<Rightarrow> Value \<Rightarrow> 'a option option" where
  "dec_opt f v = (if v = JNull then Some None else map_option Some (f v))"

definition need :: "Value \<Rightarrow> string \<Rightarrow> (Value \<Rightarrow> 'a option) \<Rightarrow> 'a option" where
  "need v k f = Option.bind (json_get v k) f"

definition may :: "Value \<Rightarrow> string \<Rightarrow> (Value \<Rightarrow> 'a option) \<Rightarrow> 'a \<Rightarrow> 'a option" where
  "may v k f d = (case json_get v k of None \<Rightarrow> Some d | Some x \<Rightarrow> f x)"

definition dataset_from :: "Value \<Rightarrow> DatasetRef option" where
  "dataset_from v =
     Option.bind (may v ''namespace'' (dec_opt as_str) None) (\<lambda>ns.
     Option.bind (need v ''name'' as_str) (\<lambda>name.
     Option.bind (may v ''version'' (dec_opt as_i64) None) (\<lambda>ver.
     Some \<lparr>dr_namespace = ns, dr_name = name, dr_version = ver, dr_fields = []\<rparr>)))"

definition warning_kind_from :: "Value \<Rightarrow> WarningKind option" where
  "warning_kind_from v = Option.bind (as_str v) (\<lambda>s. List.find (\<lambda>k. warning_kind_name k = s) [Performance, Portability, SchemaHygiene, ResultHygiene])"

definition warning_from :: "Value \<Rightarrow> Warning option" where
  "warning_from v =
     Option.bind (need v ''kind'' warning_kind_from) (\<lambda>k.
     Option.bind (need v ''message'' as_str) (\<lambda>msg. Some \<lparr>w_kind = k, w_message = msg\<rparr>))"

definition meta_from :: "Value \<Rightarrow> QueryMeta option" where
  "meta_from v =
     Option.bind (need v ''rows'' as_u64) (\<lambda>rows.
     Option.bind (need v ''rows_affected'' as_u64) (\<lambda>affected.
     Option.bind (may v ''snapshot_id'' (dec_opt as_i64) None) (\<lambda>snap.
     Option.bind (need v ''duration_ms'' as_u64) (\<lambda>dur.
     Option.bind (may v ''timeout_ms'' as_u64 0) (\<lambda>tmo.
     Option.bind (need v ''bytes_scanned'' as_u64) (\<lambda>scanned.
     Option.bind (may v ''tables_touched'' (dec_list as_str) []) (\<lambda>touched.
     Option.bind (may v ''inputs'' (dec_list dataset_from) []) (\<lambda>ins.
     Option.bind (may v ''outputs'' (dec_list dataset_from) []) (\<lambda>outs.
     Option.bind (may v ''warnings'' (dec_list warning_from) []) (\<lambda>warns.
     Option.bind (may v ''hint'' (dec_opt as_str) None) (\<lambda>hint.
     Option.bind (may v ''served_by'' as_str []) (\<lambda>by.
     Option.bind (may v ''trace_id'' as_str []) (\<lambda>tid.
     Option.bind (may v ''traceparent'' as_str []) (\<lambda>tp.
     Some \<lparr>qm_rows = rows, rows_affected = affected, snapshot_id = snap, qm_duration_ms = dur, timeout_ms = of_nat tmo,
       bytes_scanned = scanned, tables_touched = touched, inputs = ins, outputs = outs, qm_warnings = warns,
       qm_hint = hint, served_by = by, qm_trace_id = tid, qm_traceparent = tp\<rparr>))))))))))))))"

text \<open>\<open>why\<close> is the text of the decoder's error.\<close>

definition query_result_from_json :: "string \<Rightarrow> Value \<Rightarrow> (AgentError, QueryResult) result" where
  "query_result_from_json why v =
     (let got = (\<lambda>k. case json_get v k of Some x \<Rightarrow> x | None \<Rightarrow> JNull);
          bad = (\<lambda>k. Err (internal_error (''forward decode '' @ k @ '': '' @ why)))
      in case dec_list as_str (got ''columns'') of
           None \<Rightarrow> bad ''columns''
         | Some cols \<Rightarrow>
             (case dec_list as_array (got ''rows'') of
                None \<Rightarrow> bad ''rows''
              | Some rows \<Rightarrow>
                  (case meta_from (got ''_meta'') of
                     None \<Rightarrow> bad ''_meta''
                   | Some m \<Rightarrow> Ok \<lparr>qr_columns = cols, qr_rows = rows, qr_meta = m\<rparr>)))"

definition scan_op_from :: "Value \<Rightarrow> ScanOp option" where
  "scan_op_from v =
     Option.bind (need v ''table'' as_str) (\<lambda>tbl.
     Option.bind (need v ''scan_type'' as_str) (\<lambda>ty.
     Option.bind (need v ''estimated_rows_scanned'' as_u64) (\<lambda>n.
     Option.bind (need v ''source'' as_str) (\<lambda>src.
     Some \<lparr>so_table = tbl, scan_type = ty, estimated_rows_scanned = n, so_source = src\<rparr>))))"

definition explain_from :: "Value \<Rightarrow> ExplainResult option" where
  "explain_from v =
     Option.bind (need v ''estimated_rows'' as_u64) (\<lambda>n.
     Option.bind (may v ''scan_operations'' (dec_list scan_op_from) []) (\<lambda>ops.
     Option.bind (may v ''warnings'' (dec_list as_str) []) (\<lambda>ws.
     Option.bind (may v ''suggestions'' (dec_list as_str) []) (\<lambda>ss.
     Option.bind (need v ''raw_plan'' as_str) (\<lambda>raw.
     Some \<lparr>estimated_rows = n, scan_operations = ops, er_warnings = ws, er_suggestions = ss, raw_plan = raw\<rparr>)))))"

definition lineage_page_from :: "Value \<Rightarrow> LineagePage option" where
  "lineage_page_from v =
     Option.bind (need v ''pond_id'' as_str) (\<lambda>i.
     Option.bind (need v ''pond_name'' as_str) (\<lambda>n.
     Option.bind (need v ''lineage_dir'' as_str) (\<lambda>d.
     Option.bind (need v ''events'' as_array) (\<lambda>evs.
     Option.bind (may v ''limit_applied'' as_u64 0) (\<lambda>lim.
     Option.bind (need v ''truncated'' as_bool) (\<lambda>tr.
     Option.bind (need v ''malformed_lines'' as_u64) (\<lambda>bad.
     Option.bind (may v ''unreadable_files'' as_u64 0) (\<lambda>un.
     Some \<lparr>lp_pond_id = i, lp_pond_name = n, lp_lineage_dir = d, lp_events = evs, limit_applied = lim,
       lp_truncated = tr, lp_malformed_lines = bad, lp_unreadable_files = un\<rparr>))))))))"

definition pull_from :: "Value \<Rightarrow> PullResult option" where
  "pull_from v =
     Option.bind (need v ''catalog'' as_str) (\<lambda>c.
     Option.bind (need v ''query'' as_str) (\<lambda>q. Some \<lparr>pr_catalog = c, pr_query = q\<rparr>))"

section \<open>Lemmas\<close>

lemma show_nat_nonempty: "show_nat n \<noteq> []"
  by (subst show_nat.simps) simp

lemma read_int_nat: "read_int (show_nat n) = Some (int n)"
proof -
  obtain c cs where s: "show_nat n = c # cs" using show_nat_nonempty by (cases "show_nat n") auto
  have "is_ascii_digit c" using show_nat_digits [of c n] s by simp
  then have "c \<noteq> CHR ''-''" by (auto simp: is_ascii_digit_def)
  moreover have "all_digits (show_nat n)" using show_nat_digits show_nat_nonempty by (simp add: all_digits_def list_all_iff)
  ultimately show ?thesis using s digits_value_show_nat [of 0 n] by (simp add: read_int_def)
qed

lemma as_u64_nat: "n < 2 ^ 64 \<Longrightarrow> as_u64 (json_nat n) = Some n"
  by (simp add: as_u64_def json_nat_def read_int_nat)

lemma as_i64_int:
  assumes "fits_i64 i"
  shows "as_i64 (JNumber (show_int i)) = Some i"
proof (cases "i < 0")
  case True
  have "all_digits (show_nat n)" for n using show_nat_digits show_nat_nonempty by (simp add: all_digits_def list_all_iff)
  then have "read_int (show_int i) = Some i" using True digits_value_show_nat [of 0 "nat (- i)"] by (simp add: show_int_def read_int_def)
  then show ?thesis using assms by (simp add: as_i64_def)
next
  case False
  then show ?thesis using assms by (simp add: as_i64_def show_int_def read_int_nat)
qed

lemma dec_scalars [simp]:
  "as_array (JArray xs) = Some xs" "as_bool (JBool b) = Some b"
  "dec_opt as_str (JString s) = Some (Some s)"
  by (simp_all add: as_array_def as_bool_def dec_opt_def)

lemma dec_list_map:
  assumes "\<And>x. x \<in> set xs \<Longrightarrow> f (g x) = Some (h x)"
  shows "dec_list f (JArray (map g xs)) = Some (map h xs)"
  using assms by (induction xs) (auto simp: dec_list_def)

lemma dec_strings [simp]: "dec_list as_str (json_strings ss) = Some ss"
  using dec_list_map [of ss as_str JString "\<lambda>x. x"] by (simp add: json_strings_def)

lemma entry_simps [simp]:
  "map_of (entry_unless b k v) k' = (if \<not> b \<and> k' = k then Some v else None)"
  "map_of (entry_opt k f x) k' = (if k' = k then map_option f x else None)"
  "fst ` set (entry_unless b k v) = (if b then {} else {k})"
  "fst ` set (entry_opt k f x) = (if x = None then {} else {k})"
  "distinct (map fst (entry_unless b k v))" "distinct (map fst (entry_opt k f x))"
  by (auto simp: entry_unless_def entry_opt_def split: option.splits)

lemma need_obj: "distinct (map fst kvs) \<Longrightarrow> need (json_object kvs) k f = Option.bind (map_of kvs k) f"
  by (simp add: need_def json_get_object)

lemma may_obj: "distinct (map fst kvs) \<Longrightarrow> may (json_object kvs) k f d = (case map_of kvs k of None \<Rightarrow> Some d | Some x \<Rightarrow> f x)"
  by (simp add: may_def json_get_object)

text \<open>What crosses the hop: the columns of datasets are not carried.\<close>

definition forget_fields :: "DatasetRef \<Rightarrow> DatasetRef" where
  "forget_fields d = d\<lparr>dr_fields := []\<rparr>"

definition wire_meta :: "QueryMeta \<Rightarrow> QueryMeta" where
  "wire_meta m = m\<lparr>inputs := map forget_fields (inputs m), outputs := map forget_fields (outputs m)\<rparr>"

definition version_fits :: "int option \<Rightarrow> bool" where
  "version_fits v = (case v of None \<Rightarrow> True | Some i \<Rightarrow> fits_i64 i)"

text \<open>The bounds of the counters' types.\<close>

definition meta_fits :: "QueryMeta \<Rightarrow> bool" where
  "meta_fits m \<longleftrightarrow> qm_rows m < 2 ^ 64 \<and> rows_affected m < 2 ^ 64 \<and> qm_duration_ms m < 2 ^ 64 \<and> bytes_scanned m < 2 ^ 64
     \<and> version_fits (snapshot_id m) \<and> (\<forall>d \<in> set (inputs m) \<union> set (outputs m). version_fits (dr_version d))"

lemma dec_version: "version_fits v \<Longrightarrow> (case map_option (\<lambda>i. JNumber (show_int i)) v of None \<Rightarrow> Some None | Some x \<Rightarrow> dec_opt as_i64 x) = Some v"
  by (cases v) (simp_all add: version_fits_def dec_opt_def as_i64_int)

lemma dec_text: "(case map_option JString v of None \<Rightarrow> Some None | Some x \<Rightarrow> dec_opt as_str x) = Some v"
  by (cases v) simp_all

lemma dataset_roundtrip:
  assumes "version_fits (dr_version d)"
  shows "dataset_from (dataset_ref_json d) = Some (forget_fields d)"
proof -
  let ?kvs = "entry_opt ''namespace'' JString (dr_namespace d) @ [(''name'', JString (dr_name d))]
      @ entry_opt ''version'' (\<lambda>i. JNumber (show_int i)) (dr_version d)"
  have u: "distinct (map fst ?kvs)" by (simp split: if_splits)
  have l: "map_of ?kvs ''namespace'' = map_option JString (dr_namespace d)" "map_of ?kvs ''name'' = Some (JString (dr_name d))"
    "map_of ?kvs ''version'' = map_option (\<lambda>i. JNumber (show_int i)) (dr_version d)"
    by (simp_all add: map_add_def split: option.split)
  show ?thesis unfolding dataset_from_def dataset_ref_json_def need_obj [OF u] may_obj [OF u] l dec_version [OF assms] dec_text
    by (simp add: forget_fields_def)
qed

lemma warning_roundtrip: "warning_from (warning_json w) = Some w"
proof -
  have "warning_kind_from (JString (warning_kind_name k)) = Some k" for k by (cases k) (simp_all add: warning_kind_from_def)
  then show ?thesis by (simp add: warning_from_def warning_json_def need_obj)
qed

lemma meta_entries_distinct: "distinct (map fst (meta_entries m))"
  unfolding meta_entries_def by simp

lemma meta_lookups:
  "map_of (meta_entries m) ''rows'' = Some (json_nat (qm_rows m))"
  "map_of (meta_entries m) ''rows_affected'' = Some (json_nat (rows_affected m))"
  "map_of (meta_entries m) ''snapshot_id'' = map_option (\<lambda>i. JNumber (show_int i)) (snapshot_id m)"
  "map_of (meta_entries m) ''duration_ms'' = Some (json_nat (qm_duration_ms m))"
  "map_of (meta_entries m) ''timeout_ms'' = (if timeout_ms m = 0 then None else Some (json_nat (unat (timeout_ms m))))"
  "map_of (meta_entries m) ''bytes_scanned'' = Some (json_nat (bytes_scanned m))"
  "map_of (meta_entries m) ''tables_touched'' = (if tables_touched m = [] then None else Some (json_strings (tables_touched m)))"
  "map_of (meta_entries m) ''inputs'' = (if inputs m = [] then None else Some (JArray (map dataset_ref_json (inputs m))))"
  "map_of (meta_entries m) ''outputs'' = (if outputs m = [] then None else Some (JArray (map dataset_ref_json (outputs m))))"
  "map_of (meta_entries m) ''warnings'' = (if qm_warnings m = [] then None else Some (JArray (map warning_json (qm_warnings m))))"
  "map_of (meta_entries m) ''hint'' = map_option JString (qm_hint m)"
  "map_of (meta_entries m) ''served_by'' = (if served_by m = [] then None else Some (JString (served_by m)))"
  "map_of (meta_entries m) ''trace_id'' = (if qm_trace_id m = [] then None else Some (JString (qm_trace_id m)))"
  "map_of (meta_entries m) ''traceparent'' = (if qm_traceparent m = [] then None else Some (JString (qm_traceparent m)))"
  unfolding meta_entries_def by (simp_all add: map_add_def split: option.split)

lemma skipped:
  "(b \<Longrightarrow> d = y) \<Longrightarrow> (\<not> b \<Longrightarrow> f x = Some y) \<Longrightarrow> (case (if b then None else Some x) of None \<Rightarrow> Some d | Some v \<Rightarrow> f v) = Some y"
  by simp

lemma meta_roundtrip:
  assumes "meta_fits m"
  shows "meta_from (json_object (meta_entries m)) = Some (wire_meta m)"
proof -
  have d: "dec_list dataset_from (JArray (map dataset_ref_json (inputs m))) = Some (map forget_fields (inputs m))"
    "dec_list dataset_from (JArray (map dataset_ref_json (outputs m))) = Some (map forget_fields (outputs m))"
    using assms by (auto simp: meta_fits_def dataset_roundtrip intro!: dec_list_map)
  have w: "dec_list warning_from (JArray (map warning_json (qm_warnings m))) = Some (qm_warnings m)"
    using dec_list_map [of "qm_warnings m" warning_from warning_json "\<lambda>x. x"] warning_roundtrip by simp
  have t64: "unat (timeout_ms m) < 2 ^ 64" using unsigned_less [of "timeout_ms m"] by simp
  have n: "as_u64 (json_nat (qm_rows m)) = Some (qm_rows m)" "as_u64 (json_nat (rows_affected m)) = Some (rows_affected m)"
    "as_u64 (json_nat (qm_duration_ms m)) = Some (qm_duration_ms m)" "as_u64 (json_nat (bytes_scanned m)) = Some (bytes_scanned m)"
    "as_u64 (json_nat (unat (timeout_ms m))) = Some (unat (timeout_ms m))"
    using assms t64 by (simp_all add: meta_fits_def as_u64_nat)
  have v: "version_fits (snapshot_id m)" using assms by (simp add: meta_fits_def)
  note s1 = skipped [of "timeout_ms m = 0" "0::nat" "unat (timeout_ms m)" as_u64]
    and s2 = skipped [of "tables_touched m = []" "[]" "tables_touched m" "dec_list as_str"]
    and s3 = skipped [of "inputs m = []" "[]" "map forget_fields (inputs m)" "dec_list dataset_from"]
    and s4 = skipped [of "outputs m = []" "[]" "map forget_fields (outputs m)" "dec_list dataset_from"]
    and s5 = skipped [of "qm_warnings m = []" "[]" "qm_warnings m" "dec_list warning_from"]
    and s6 = skipped [of "served_by m = []" "[]" "served_by m" as_str]
    and s7 = skipped [of "qm_trace_id m = []" "[]" "qm_trace_id m" as_str]
    and s8 = skipped [of "qm_traceparent m = []" "[]" "qm_traceparent m" as_str]
  show ?thesis
    unfolding meta_from_def need_obj [OF meta_entries_distinct] may_obj [OF meta_entries_distinct] meta_lookups
      dec_version [OF v] dec_text
    by (simp add: n d w s1 s2 s3 s4 s5 s6 s7 s8 wire_meta_def)
qed

lemma explain_roundtrip:
  assumes "estimated_rows e < 2 ^ 64" "\<forall>s \<in> set (scan_operations e). estimated_rows_scanned s < 2 ^ 64"
  shows "explain_from (explain_json e) = Some e"
proof -
  have "scan_op_from (scan_op_json s) = Some s" if "estimated_rows_scanned s < 2 ^ 64" for s
    using that by (simp add: scan_op_from_def scan_op_json_def need_obj as_u64_nat)
  then have "dec_list scan_op_from (JArray (map scan_op_json (scan_operations e))) = Some (scan_operations e)"
    using dec_list_map [of "scan_operations e" scan_op_from scan_op_json "\<lambda>x. x"] assms(2) by simp
  then show ?thesis using assms(1) by (simp add: explain_from_def explain_json_def need_obj may_obj as_u64_nat)
qed

lemma lineage_page_roundtrip:
  assumes "limit_applied p < 2 ^ 64" "lp_malformed_lines p < 2 ^ 64" "lp_unreadable_files p < 2 ^ 64"
  shows "lineage_page_from (lineage_page_json p) = Some p"
  using assms by (simp add: lineage_page_from_def lineage_page_json_def need_obj may_obj as_u64_nat)

lemma pull_roundtrip: "pull_from (pull_json p) = Some p"
  by (simp add: pull_from_def pull_json_def need_obj)

text \<open>A query result survives the hop: what the owner encodes is what the greeter decodes, row by row and
  figure by figure, with only the column lists of its datasets left behind; and a read is never
  labelled a write.\<close>

lemma query_result_survives_the_hop:
  assumes "meta_fits (qr_meta qr)"
  shows "query_result_from_json why (query_value qr) = Ok (qr\<lparr>qr_meta := wire_meta (qr_meta qr)\<rparr>)"
proof -
  have "dec_list as_array (JArray (map JArray (qr_rows qr))) = Some (qr_rows qr)"
    using dec_list_map [of "qr_rows qr" as_array JArray "\<lambda>x. x"] by simp
  then show ?thesis using meta_roundtrip [OF assms]
    by (simp add: query_result_from_json_def query_value_def json_get_object Let_def)
qed

section \<open>Error envelopes\<close>

definition location_json :: "Location \<Rightarrow> Value" where
  "location_json l = json_object [(''line'', json_nat (unat (line l))), (''column'', json_nat (unat (column l))), (''byte'', json_nat (unat (byte l)))]"

text \<open>\<open>Fact\<close> is untagged: a value is read as the first variant it fits.\<close>

fun fact_json :: "Fact \<Rightarrow> Value" where
  "fact_json (Number n) = json_nat (unat n)"
| "fact_json (Text s) = JString s"
| "fact_json (Flag b) = JBool b"

definition fact_from :: "Value \<Rightarrow> Fact option" where
  "fact_from v = (case as_u64 v of Some n \<Rightarrow> Some (Number (of_nat n))
     | None \<Rightarrow> (case as_str v of Some s \<Rightarrow> Some (Text s) | None \<Rightarrow> map_option Flag (as_bool v)))"

definition facts_json :: "Facts \<Rightarrow> Value" where
  "facts_json fs = json_object (map (\<lambda>(k, f). (k, fact_json f)) fs)"

definition facts_from :: "Value \<Rightarrow> Facts option" where
  "facts_from v = (case v of
      JObject m \<Rightarrow> map_option (bt_extend []) (those (map (\<lambda>(k, x). map_option (Pair k) (fact_from x)) m))
    | _ \<Rightarrow> None)"

definition envelope_json :: "ErrorEnvelope \<Rightarrow> Value" where
  "envelope_json e = json_object
     ([(''kind'', JString (kind_as_str (kind e))), (''message'', JString (message e))]
      @ entry_opt ''location'' location_json (location e)
      @ [(''suggest'', JString (suggest e)), (''see'', JString (see e)),
         (''audience'', JString (audience_as_str (audience e))), (''retryable'', JString (retryable_as_str (retryable e)))]
      @ entry_unless (env_facts e = []) ''facts'' (facts_json (env_facts e))
      @ entry_opt ''trace_id'' JString (env_trace_id e)
      @ entry_opt ''traceparent'' JString (env_traceparent e))"

text \<open>A variant's wire name back to the variant.\<close>

definition named :: "('a \<Rightarrow> string) \<Rightarrow> 'a list \<Rightarrow> Value \<Rightarrow> 'a option" where
  "named as all v = Option.bind (as_str v) (\<lambda>s. List.find (\<lambda>x. as x = s) all)"

definition as_u32 :: "Value \<Rightarrow> 32 word option" where
  "as_u32 v = Option.bind (as_u64 v) (\<lambda>n. if n < 2 ^ 32 then Some (of_nat n) else None)"

definition location_from :: "Value \<Rightarrow> Location option" where
  "location_from v =
     Option.bind (need v ''line'' as_u32) (\<lambda>l.
     Option.bind (need v ''column'' as_u32) (\<lambda>c.
     Option.bind (need v ''byte'' as_u32) (\<lambda>b. Some \<lparr>line = l, column = c, byte = b\<rparr>)))"

definition envelope_from :: "Value \<Rightarrow> ErrorEnvelope option" where
  "envelope_from v =
     Option.bind (need v ''kind'' (named kind_as_str ErrorKind_ALL)) (\<lambda>k.
     Option.bind (need v ''message'' as_str) (\<lambda>msg.
     Option.bind (may v ''location'' (dec_opt location_from) None) (\<lambda>loc.
     Option.bind (need v ''suggest'' as_str) (\<lambda>sg.
     Option.bind (need v ''see'' as_str) (\<lambda>se.
     Option.bind (need v ''audience'' (named audience_as_str Audience_ALL)) (\<lambda>au.
     Option.bind (need v ''retryable'' (named retryable_as_str Retryable_ALL)) (\<lambda>re.
     Option.bind (may v ''facts'' facts_from []) (\<lambda>fs.
     Option.bind (may v ''trace_id'' (dec_opt as_str) None) (\<lambda>tid.
     Option.bind (may v ''traceparent'' (dec_opt as_str) None) (\<lambda>tp.
     Some \<lparr>kind = k, message = msg, location = loc, suggest = sg, see = se, audience = au, retryable = re,
       env_facts = fs, env_trace_id = tid, env_traceparent = tp\<rparr>))))))))))"

lemma as_u64_word: "LENGTH('a::len) \<le> 64 \<Longrightarrow> as_u64 (json_nat (unat (x :: 'a word))) = Some (unat x)"
  using unsigned_less [of x, where 'a = nat] power_increasing [of "LENGTH('a)" 64 "2::nat"] by (intro as_u64_nat) linarith

lemma fact_roundtrip: "fact_from (fact_json f) = Some f"
proof (cases f)
  case (Number n)
  then show ?thesis by (simp add: fact_from_def as_u64_word)
qed (simp_all add: fact_from_def as_u64_def as_str_def)

lemma bt_extend_wf: "bt_wf m \<Longrightarrow> bt_extend [] m = m"
  by (rule bt_eqI) (auto simp: bt_wf_extend map_of_bt_extend bt_wf_distinct split: option.split)

lemma facts_roundtrip:
  assumes "bt_wf fs"
  shows "facts_from (facts_json fs) = Some fs"
proof -
  let ?m = "map (\<lambda>(k, f). (k, fact_json f)) fs"
  have "bt_wf ?m" using assms by (simp add: bt_wf_def split_beta comp_def)
  then have j: "facts_json fs = JObject ?m" by (simp add: facts_json_def json_object_def bt_extend_wf)
  have "those (map (\<lambda>(k, x). map_option (Pair k) (fact_from x)) ?m) = Some fs"
    by (induction fs) (auto simp: fact_roundtrip)
  then show ?thesis by (simp add: facts_from_def j bt_extend_wf [OF assms])
qed

lemma variant_names [simp]:
  "named kind_as_str ErrorKind_ALL (JString (kind_as_str k)) = Some k"
  "named audience_as_str Audience_ALL (JString (audience_as_str a)) = Some a"
  "named retryable_as_str Retryable_ALL (JString (retryable_as_str r)) = Some r"
proof -
  show "named kind_as_str ErrorKind_ALL (JString (kind_as_str k)) = Some k"
    by (cases k) (simp_all add: named_def ErrorKind_ALL_def)
  show "named audience_as_str Audience_ALL (JString (audience_as_str a)) = Some a"
    by (cases a) (simp_all add: named_def Audience_ALL_def)
  show "named retryable_as_str Retryable_ALL (JString (retryable_as_str r)) = Some r"
    by (cases r) (simp_all add: named_def Retryable_ALL_def)
qed

lemma location_roundtrip: "location_from (location_json l) = Some l"
proof -
  have "as_u32 (json_nat (unat x)) = Some x" for x :: "32 word"
    using unsigned_less [of x] by (simp add: as_u32_def as_u64_word)
  then show ?thesis by (simp add: location_from_def location_json_def need_obj)
qed

lemma location_not_null: "location_json l \<noteq> JNull"
  by (simp add: location_json_def json_object_def)

text \<open>An error envelope survives the hop: every field, facts, trace id and span included.\<close>

lemma envelope_roundtrip:
  assumes "bt_wf (env_facts e)"
  shows "envelope_from (envelope_json e) = Some e"
proof -
  let ?kvs = "[(''kind'', JString (kind_as_str (kind e))), (''message'', JString (message e))]
      @ entry_opt ''location'' location_json (location e)
      @ [(''suggest'', JString (suggest e)), (''see'', JString (see e)),
         (''audience'', JString (audience_as_str (audience e))), (''retryable'', JString (retryable_as_str (retryable e)))]
      @ entry_unless (env_facts e = []) ''facts'' (facts_json (env_facts e))
      @ entry_opt ''trace_id'' JString (env_trace_id e)
      @ entry_opt ''traceparent'' JString (env_traceparent e)"
  have u: "distinct (map fst ?kvs)" by simp
  have l: "map_of ?kvs ''kind'' = Some (JString (kind_as_str (kind e)))" "map_of ?kvs ''message'' = Some (JString (message e))"
    "map_of ?kvs ''location'' = map_option location_json (location e)"
    "map_of ?kvs ''suggest'' = Some (JString (suggest e))" "map_of ?kvs ''see'' = Some (JString (see e))"
    "map_of ?kvs ''audience'' = Some (JString (audience_as_str (audience e)))"
    "map_of ?kvs ''retryable'' = Some (JString (retryable_as_str (retryable e)))"
    "map_of ?kvs ''facts'' = (if env_facts e = [] then None else Some (facts_json (env_facts e)))"
    "map_of ?kvs ''trace_id'' = map_option JString (env_trace_id e)"
    "map_of ?kvs ''traceparent'' = map_option JString (env_traceparent e)"
    by (simp_all add: map_add_def split: option.split)
  have loc: "(case map_option location_json (location e) of None \<Rightarrow> Some None | Some x \<Rightarrow> dec_opt location_from x) = Some (location e)"
    by (cases "location e") (simp_all add: dec_opt_def location_roundtrip location_not_null)
  note fs = skipped [of "env_facts e = []" "[]" "env_facts e" facts_from, OF _ facts_roundtrip [OF assms]]
  show ?thesis unfolding envelope_from_def envelope_json_def need_obj [OF u] may_obj [OF u] l loc dec_text
    by (simp add: fs)
qed

section \<open>Descriptions\<close>

text \<open>The registry's creation time is a number of this model; on the wire it is text, by \<open>stamp_text\<close>.\<close>

definition pond_info_json :: "(int \<Rightarrow> string) \<Rightarrow> PondInfo \<Rightarrow> Value" where
  "pond_info_json stamp_text p = json_object
     [(''pond_id'', JString (pi_pond_id p)), (''name'', JString (pi_name p)), (''owner'', JString (pi_owner p)),
      (''created_at'', JString (stamp_text (pi_created_at p))), (''policy_json'', JString (pi_policy_json p)),
      (''node_id'', json_opt (pi_node_id p)), (''node_endpoint'', json_opt (pi_node_endpoint p)), (''tier'', JString (pi_tier p)),
      (''extensions'', json_strings (pi_extensions p)), (''description'', JString (pi_description p)), (''lineage'', JBool (pi_lineage p))]"

definition pond_info_from :: "(string \<Rightarrow> int option) \<Rightarrow> Value \<Rightarrow> PondInfo option" where
  "pond_info_from stamp_of v =
     Option.bind (need v ''pond_id'' as_str) (\<lambda>i.
     Option.bind (need v ''name'' as_str) (\<lambda>n.
     Option.bind (need v ''owner'' as_str) (\<lambda>ow.
     Option.bind (need v ''created_at'' (\<lambda>x. Option.bind (as_str x) stamp_of)) (\<lambda>t.
     Option.bind (need v ''policy_json'' as_str) (\<lambda>pj.
     Option.bind (may v ''node_id'' (dec_opt as_str) None) (\<lambda>nid.
     Option.bind (may v ''node_endpoint'' (dec_opt as_str) None) (\<lambda>ne.
     Option.bind (may v ''tier'' as_str []) (\<lambda>ti.
     Option.bind (may v ''extensions'' (dec_list as_str) []) (\<lambda>ex.
     Option.bind (may v ''description'' as_str []) (\<lambda>de.
     Option.bind (may v ''lineage'' as_bool False) (\<lambda>li.
     Some \<lparr>pi_pond_id = i, pi_name = n, pi_owner = ow, pi_created_at = t, pi_policy_json = pj, pi_node_id = nid,
       pi_node_endpoint = ne, pi_tier = ti, pi_extensions = ex, pi_description = de, pi_lineage = li\<rparr>)))))))))))"

definition column_from :: "Value \<Rightarrow> (string \<times> string) option" where
  "column_from v = (case v of JArray [a, b] \<Rightarrow> Option.bind (as_str a) (\<lambda>n. map_option (Pair n) (as_str b)) | _ \<Rightarrow> None)"

definition table_json :: "TableInfo \<Rightarrow> Value" where
  "table_json t = json_object
     ([(''name'', JString (ti_name t)), (''columns'', JArray (map (\<lambda>(n, ty). JArray [JString n, JString ty]) (ti_columns t))),
       (''row_count_estimate'', json_nat (row_count_estimate t))] @ entry_opt ''comment'' JString (ti_comment t))"

definition table_from :: "Value \<Rightarrow> TableInfo option" where
  "table_from v =
     Option.bind (need v ''name'' as_str) (\<lambda>n.
     Option.bind (need v ''columns'' (dec_list column_from)) (\<lambda>cs.
     Option.bind (need v ''row_count_estimate'' as_u64) (\<lambda>rc.
     Option.bind (may v ''comment'' (dec_opt as_str) None) (\<lambda>cm.
     Some \<lparr>ti_name = n, ti_columns = cs, row_count_estimate = rc, ti_comment = cm\<rparr>))))"

definition describe_json :: "(int \<Rightarrow> string) \<Rightarrow> DescribeResult \<Rightarrow> Value" where
  "describe_json stamp_text d = json_object
     [(''pond'', pond_info_json stamp_text (de_pond d)),
      (''schema'', json_object [(''tables'', JArray (map table_json (de_schema d)))])]"

definition describe_from :: "(string \<Rightarrow> int option) \<Rightarrow> Value \<Rightarrow> DescribeResult option" where
  "describe_from stamp_of v =
     Option.bind (need v ''pond'' (pond_info_from stamp_of)) (\<lambda>p.
     Option.bind (need v ''schema'' (\<lambda>s. need s ''tables'' (dec_list table_from))) (\<lambda>ts.
     Some \<lparr>de_pond = p, de_schema = ts\<rparr>))"

lemma table_roundtrip:
  assumes "row_count_estimate t < 2 ^ 64"
  shows "table_from (table_json t) = Some t"
proof -
  let ?kvs = "[(''name'', JString (ti_name t)), (''columns'', JArray (map (\<lambda>(n, ty). JArray [JString n, JString ty]) (ti_columns t))),
       (''row_count_estimate'', json_nat (row_count_estimate t))] @ entry_opt ''comment'' JString (ti_comment t)"
  have u: "distinct (map fst ?kvs)" by simp
  have l: "map_of ?kvs ''name'' = Some (JString (ti_name t))"
    "map_of ?kvs ''columns'' = Some (JArray (map (\<lambda>(n, ty). JArray [JString n, JString ty]) (ti_columns t)))"
    "map_of ?kvs ''row_count_estimate'' = Some (json_nat (row_count_estimate t))" "map_of ?kvs ''comment'' = map_option JString (ti_comment t)"
    by simp_all
  have "dec_list column_from (JArray (map (\<lambda>(n, ty). JArray [JString n, JString ty]) (ti_columns t))) = Some (ti_columns t)"
    using dec_list_map [of "ti_columns t" column_from "\<lambda>(n, ty). JArray [JString n, JString ty]" "\<lambda>x. x"]
    by (simp add: column_from_def split_beta)
  then show ?thesis unfolding table_from_def table_json_def need_obj [OF u] may_obj [OF u] l dec_text
    using assms by (simp add: as_u64_nat)
qed

lemma dec_json_opt [simp]: "dec_opt as_str (json_opt x) = Some x"
  by (cases x) (simp_all add: json_opt_def dec_opt_def)

lemma describe_roundtrip:
  assumes "\<forall>t \<in> set (de_schema d). row_count_estimate t < 2 ^ 64" "stamp_of (stamp_text (pi_created_at (de_pond d))) = Some (pi_created_at (de_pond d))"
  shows "describe_from stamp_of (describe_json stamp_text d) = Some d"
proof -
  have "dec_list table_from (JArray (map table_json (de_schema d))) = Some (de_schema d)"
    using dec_list_map [of "de_schema d" table_from table_json "\<lambda>x. x"] assms(1) table_roundtrip by simp
  moreover have "pond_info_from stamp_of (pond_info_json stamp_text (de_pond d)) = Some (de_pond d)"
    using assms(2) by (simp add: pond_info_from_def pond_info_json_def need_obj may_obj)
  ultimately show ?thesis by (simp add: describe_from_def describe_json_def need_obj)
qed

end
