(* ===== verification/Node_Rpc.thy ===== *)
theory Node_Rpc
  imports Node_Wire Token_Verify Agent_Facts
begin

text \<open>
  What the Data and Stream services of a pond node share (\<open>latiq-pond-node/src/data_service.rs\<close>),
  and the client that relays an operation to another node's Data service
  (\<open>latiq-pond-node/src/forward_client.rs\<close>).

  The transport and the text codec of \<open>serde_json\<close> are not of this program: \<open>rpc_lib\<close> holds them.
  Metadata is a function from header names to the values the other side can read; \<open>carried\<close> says
  of a text whether it gets across as one. The peer of a relayed call is the record of the calls it
  answers, and \<open>connect\<close> is the network.
\<close>

section \<open>Statuses\<close>

datatype grpc_code = GC_Cancelled | GC_Unknown | GC_InvalidArgument | GC_DeadlineExceeded | GC_NotFound | GC_AlreadyExists
  | GC_FailedPrecondition | GC_Internal | GC_Unavailable | GC_Unauthenticated

record GrpcStatus =
  gs_code :: grpc_code
  gs_message :: string
  gs_details :: string
  gs_challenge :: "string option"

record rpc_lib =
  to_text :: "Value \<Rightarrow> string"
  from_text :: "string \<Rightarrow> (string, Value) result"
  shape_error :: "Value \<Rightarrow> string"
  stamp_text :: "int \<Rightarrow> string"
  stamp_of :: "string \<Rightarrow> int option"
  carried :: "string \<Rightarrow> bool"

definition carry :: "rpc_lib \<Rightarrow> string \<Rightarrow> string option" where
  "carry lib s = (if carried lib s then Some s else None)"

fun kind_code :: "ErrorKind \<Rightarrow> grpc_code" where
  "kind_code PondNotFound = GC_NotFound"
| "kind_code NameConflict = GC_AlreadyExists"
| "kind_code QueryTimeout = GC_DeadlineExceeded"
| "kind_code QueryCancelled = GC_Cancelled"
| "kind_code Unauthenticated = GC_Unauthenticated"
| "kind_code PondUnavailable = GC_FailedPrecondition"
| "kind_code CapabilityUnavailable = GC_FailedPrecondition"
| "kind_code CatalogError = GC_InvalidArgument"
| "kind_code SourceUnavailable = GC_FailedPrecondition"
| "kind_code Storage = GC_Internal"
| "kind_code Internal = GC_Internal"
| "kind_code _ = GC_InvalidArgument"

definition data_to_status :: "rpc_lib \<Rightarrow> world \<Rightarrow> AgentError \<Rightarrow> GrpcStatus" where
  "data_to_status lib w e =
     (let env = with_traceparent (with_trace_id e (w_trace_id w)) (w_traceparent w)
      in \<lparr>gs_code = kind_code (kind env), gs_message = message env, gs_details = to_text lib (envelope_json env),
          gs_challenge = None\<rparr>)"

section \<open>Who is calling\<close>

definition challenge_of :: "string option \<Rightarrow> string option" where
  "challenge_of url = map_option challenge_header url"

definition rpc_unauthenticated :: "rpc_lib \<Rightarrow> string \<Rightarrow> string option \<Rightarrow> GrpcStatus" where
  "rpc_unauthenticated lib msg ch = \<lparr>gs_code = GC_Unauthenticated, gs_message = msg, gs_details = [],
     gs_challenge = Option.bind ch (carry lib)\<rparr>"

definition bearer_of :: "metadata \<Rightarrow> string option" where
  "bearer_of md = Option.bind (md ''authorization'') bearer"

definition record_rejection :: "world \<Rightarrow> string option \<Rightarrow> string \<Rightarrow> string \<Rightarrow> node_event list" where
  "record_rejection w claimed op summary = [Accessed (access_record w (identity_claimed claimed) op None (Some summary) 0 ''error'')]"

type_synonym token_check = "string \<Rightarrow> string option \<Rightarrow> (AuthError, Identity) result"

definition node_identity_of :: "rpc_lib \<Rightarrow> world \<Rightarrow> token_check option \<Rightarrow> string option \<Rightarrow> metadata \<Rightarrow> string
    \<Rightarrow> (GrpcStatus, Identity \<times> string option) result \<times> node_event list" where
  "node_identity_of lib w ver ch md op =
     (let claimed = md ''latiq-agent-id'' in
      case ver of
        None \<Rightarrow> (Ok (identity_claimed claimed, None), [])
      | Some check \<Rightarrow>
          (case bearer_of md of
             None \<Rightarrow> (Err (rpc_unauthenticated lib ''a bearer token is required'' ch),
                      record_rejection w claimed op ''rejected: no bearer token'')
           | Some tok \<Rightarrow>
               (case check tok claimed of
                  Inl e \<Rightarrow> (Err (rpc_unauthenticated lib ''the bearer token was rejected'' ch),
                             record_rejection w claimed op ''rejected: invalid token'')
                | Inr ident \<Rightarrow> (Ok (ident, Some tok), []))))"

definition controls_of :: "64 word \<Rightarrow> QueryControls" where
  "controls_of t = \<lparr>qc_timeout_ms = Some t, qc_cancel = False\<rparr>"

definition request_trace :: "string \<Rightarrow> string \<Rightarrow> metadata \<Rightarrow> TraceContext" where
  "request_trace u1 u2 md = trace_inbound u1 u2 (md ''traceparent'')"

section \<open>Messages\<close>

record AllocatePondRequest =
  ap_name :: string
  ap_policy_json :: string
  ap_tier :: string
  ap_lineage :: bool

record QueryRequest =
  q_pond :: string
  q_sql :: string
  q_timeout_ms :: "64 word"

record GetLineageRequest =
  gl_pond :: string
  gl_limit :: "32 word"
  gl_since :: string
  gl_before :: string

record CatalogPullRequest =
  cq_pond :: string
  cq_catalog :: string
  cq_query :: string
  cq_params :: "(string \<times> string) list"

record CatalogDescribeRequest =
  cd_pond :: string
  cd_catalog :: string
  cd_params :: "(string \<times> string) list"

record ArrowChunk =
  ck_ipc :: string
  ck_served_by :: string
  ck_traceparent :: string

type_synonym chunks = "(GrpcStatus, ArrowChunk) result list"

record node_rpc =
  on_read_query :: "metadata \<Rightarrow> QueryRequest \<Rightarrow> (GrpcStatus, string) result"
  on_write_query :: "metadata \<Rightarrow> QueryRequest \<Rightarrow> (GrpcStatus, string) result"
  on_explain_query :: "metadata \<Rightarrow> QueryRequest \<Rightarrow> (GrpcStatus, string) result"
  on_describe_pond :: "metadata \<Rightarrow> string \<Rightarrow> (GrpcStatus, string) result"
  on_drop_pond :: "metadata \<Rightarrow> string \<Rightarrow> bool \<Rightarrow> (GrpcStatus, unit) result"
  on_materialize_pond :: "metadata \<Rightarrow> string \<Rightarrow> (GrpcStatus, unit) result"
  on_get_lineage :: "metadata \<Rightarrow> GetLineageRequest \<Rightarrow> (GrpcStatus, string) result"
  on_catalog_pull :: "metadata \<Rightarrow> CatalogPullRequest \<Rightarrow> (GrpcStatus, string) result"
  on_catalog_describe :: "metadata \<Rightarrow> CatalogDescribeRequest \<Rightarrow> (GrpcStatus, string) result"
  on_read_arrow :: "metadata \<Rightarrow> QueryRequest \<Rightarrow> (GrpcStatus, chunks) result"

section \<open>The forwarder\<close>

type_synonym clients = "string \<rightharpoonup> node_rpc"

record GrpcForwarder =
  gf_clients :: clients
  gf_stream_clients :: clients

definition forwarder_new :: GrpcForwarder where
  "forwarder_new = \<lparr>gf_clients = Map.empty, gf_stream_clients = Map.empty\<rparr>"

definition unreachable_owner :: "Peer \<Rightarrow> string \<Rightarrow> string \<Rightarrow> AgentError" where
  \<open>unreachable_owner peer pond detail =
     rendered PondUnavailable
       (''Pond '{pond}' is owned by node '{node_id}', which is not answering at {node_endpoint} '' @
        ''({detail}). The pond's data is on that node; no other node can serve it.'')
       (facts [(''pond'', Text pond), (''node_id'', Text (peer_node_id peer)), (''node_endpoint'', Text (peer_endpoint peer)),
               (''detail'', Text (trim detail))])\<close>

type_synonym network = "string \<Rightarrow> (string, node_rpc) result"

definition fwd_client :: "network \<Rightarrow> clients \<Rightarrow> Peer \<Rightarrow> string \<Rightarrow> (AgentError, node_rpc) result \<times> clients" where
  "fwd_client connect cs peer pond =
     (case cs (peer_endpoint peer) of
        Some c \<Rightarrow> (Ok c, cs)
      | None \<Rightarrow>
          (case connect (peer_endpoint peer) of
             Inl e \<Rightarrow> (Err (unreachable_owner peer pond e), cs)
           | Inr c \<Rightarrow> (Ok c, cs(peer_endpoint peer \<mapsto> c))))"

text \<open>What a request's task carries for the calls it makes: the caller's token, if this node
  verified it, and the current span.\<close>

record scope =
  sc_bearer :: "string option"
  sc_traceparent :: "string option"

definition with_identity :: "rpc_lib \<Rightarrow> scope \<Rightarrow> Identity \<Rightarrow> metadata" where
  "with_identity lib sc ident = (\<lambda>k.
     if k = ''latiq-agent-id'' then carry lib (agent_id ident)
     else if k = ''authorization'' then Option.bind (sc_bearer sc) (\<lambda>t. carry lib (''Bearer '' @ t))
     else if k = ''traceparent'' then Option.bind (sc_traceparent sc) (carry lib)
     else None)"

definition envelope_of_details :: "rpc_lib \<Rightarrow> string \<Rightarrow> ErrorEnvelope option" where
  "envelope_of_details lib d = (case from_text lib d of Inl _ \<Rightarrow> None | Inr v \<Rightarrow> envelope_from v)"

definition status_to_error :: "rpc_lib \<Rightarrow> Peer \<Rightarrow> string \<Rightarrow> GrpcStatus \<Rightarrow> AgentError" where
  "status_to_error lib peer pond s =
     (case (if gs_details s = [] then None else envelope_of_details lib (gs_details s)) of
        Some env \<Rightarrow> env
      | None \<Rightarrow>
          (case gs_code s of
             GC_NotFound \<Rightarrow> pond_not_found (gs_message s)
           | GC_AlreadyExists \<Rightarrow> name_conflict (gs_message s)
           | GC_Unauthenticated \<Rightarrow> for_kind Unauthenticated (gs_message s)
           | GC_Unavailable \<Rightarrow> unreachable_owner peer pond (gs_message s)
           | _ \<Rightarrow> internal_error (gs_message s)))"

definition parse_json :: "rpc_lib \<Rightarrow> string \<Rightarrow> (AgentError, Value) result" where
  "parse_json lib json = map_err (\<lambda>e. internal_error (''forward decode json: '' @ e)) (from_text lib json)"

definition query_request :: "string \<Rightarrow> string \<Rightarrow> 64 word option \<Rightarrow> QueryRequest" where
  "query_request pond sql t = \<lparr>q_pond = pond, q_sql = sql, q_timeout_ms = (case t of None \<Rightarrow> 0 | Some ms \<Rightarrow> ms)\<rparr>"

text \<open>One call of the peer's Data service: the client, the call, and what is made of the answer.\<close>

definition unary :: "rpc_lib \<Rightarrow> network \<Rightarrow> GrpcForwarder \<Rightarrow> Peer \<Rightarrow> string \<Rightarrow> (node_rpc \<Rightarrow> (GrpcStatus, 'r) result)
    \<Rightarrow> ('r \<Rightarrow> (AgentError, 'a) result) \<Rightarrow> (AgentError, 'a) result \<times> GrpcForwarder" where
  "unary lib connect gf peer pond call k =
     (case fwd_client connect (gf_clients gf) peer pond of
        (Inl e, cs) \<Rightarrow> (Err e, gf\<lparr>gf_clients := cs\<rparr>)
      | (Inr c, cs) \<Rightarrow>
          ((case call c of Inl s \<Rightarrow> Err (status_to_error lib peer pond s) | Inr resp \<Rightarrow> k resp), gf\<lparr>gf_clients := cs\<rparr>))"

definition decoded :: "rpc_lib \<Rightarrow> string \<Rightarrow> (Value \<Rightarrow> 'a option) \<Rightarrow> string \<Rightarrow> (AgentError, 'a) result" where
  "decoded lib op f json =
     (case parse_json lib json of
        Inl e \<Rightarrow> Err e
      | Inr v \<Rightarrow> (case f v of None \<Rightarrow> Err (internal_error (''forward decode '' @ op @ '': '' @ shape_error lib v)) | Some x \<Rightarrow> Ok x))"

definition decoded_query :: "rpc_lib \<Rightarrow> string \<Rightarrow> (AgentError, QueryResult) result" where
  "decoded_query lib json = (case parse_json lib json of Inl e \<Rightarrow> Err e | Inr v \<Rightarrow> query_result_from_json (shape_error lib v) v)"

definition forward_read :: "rpc_lib \<Rightarrow> network \<Rightarrow> scope \<Rightarrow> GrpcForwarder \<Rightarrow> Peer \<Rightarrow> Identity \<Rightarrow> string \<Rightarrow> string \<Rightarrow> 64 word option
    \<Rightarrow> (AgentError, QueryResult) result \<times> GrpcForwarder" where
  "forward_read lib connect sc gf peer ident pond sql t =
     unary lib connect gf peer pond (\<lambda>c. on_read_query c (with_identity lib sc ident) (query_request pond sql t)) (decoded_query lib)"

definition forward_write :: "rpc_lib \<Rightarrow> network \<Rightarrow> scope \<Rightarrow> GrpcForwarder \<Rightarrow> Peer \<Rightarrow> Identity \<Rightarrow> string \<Rightarrow> string \<Rightarrow> 64 word option
    \<Rightarrow> (AgentError, QueryResult) result \<times> GrpcForwarder" where
  "forward_write lib connect sc gf peer ident pond sql t =
     unary lib connect gf peer pond (\<lambda>c. on_write_query c (with_identity lib sc ident) (query_request pond sql t)) (decoded_query lib)"

definition forward_explain :: "rpc_lib \<Rightarrow> network \<Rightarrow> scope \<Rightarrow> GrpcForwarder \<Rightarrow> Peer \<Rightarrow> Identity \<Rightarrow> string \<Rightarrow> string
    \<Rightarrow> (AgentError, ExplainResult) result \<times> GrpcForwarder" where
  "forward_explain lib connect sc gf peer ident pond sql =
     unary lib connect gf peer pond (\<lambda>c. on_explain_query c (with_identity lib sc ident) (query_request pond sql None))
       (decoded lib ''explain'' explain_from)"

definition forward_describe :: "rpc_lib \<Rightarrow> network \<Rightarrow> scope \<Rightarrow> GrpcForwarder \<Rightarrow> Peer \<Rightarrow> Identity \<Rightarrow> string
    \<Rightarrow> (AgentError, DescribeResult) result \<times> GrpcForwarder" where
  "forward_describe lib connect sc gf peer ident pond =
     unary lib connect gf peer pond (\<lambda>c. on_describe_pond c (with_identity lib sc ident) pond)
       (decoded lib ''describe'' (describe_from (stamp_of lib)))"

definition forward_drop :: "rpc_lib \<Rightarrow> network \<Rightarrow> scope \<Rightarrow> GrpcForwarder \<Rightarrow> Peer \<Rightarrow> Identity \<Rightarrow> string \<Rightarrow> bool
    \<Rightarrow> (AgentError, unit) result \<times> GrpcForwarder" where
  "forward_drop lib connect sc gf peer ident pond confirm =
     unary lib connect gf peer pond (\<lambda>c. on_drop_pond c (with_identity lib sc ident) pond confirm) (\<lambda>_. Ok ())"

definition forward_materialize :: "rpc_lib \<Rightarrow> network \<Rightarrow> scope \<Rightarrow> GrpcForwarder \<Rightarrow> Peer \<Rightarrow> Identity \<Rightarrow> string
    \<Rightarrow> (AgentError, unit) result \<times> GrpcForwarder" where
  "forward_materialize lib connect sc gf peer ident pond =
     unary lib connect gf peer pond (\<lambda>c. on_materialize_pond c (with_identity lib sc ident) pond) (\<lambda>_. Ok ())"

definition lineage_request :: "string \<Rightarrow> nat \<Rightarrow> string option \<Rightarrow> string option \<Rightarrow> GetLineageRequest" where
  "lineage_request pond lim lo hi = \<lparr>gl_pond = pond, gl_limit = of_nat (min lim (2 ^ 32 - 1)),
     gl_since = (case lo of None \<Rightarrow> [] | Some t \<Rightarrow> t), gl_before = (case hi of None \<Rightarrow> [] | Some t \<Rightarrow> t)\<rparr>"

definition forward_get_lineage :: "rpc_lib \<Rightarrow> network \<Rightarrow> scope \<Rightarrow> GrpcForwarder \<Rightarrow> Peer \<Rightarrow> Identity \<Rightarrow> string \<Rightarrow> nat \<Rightarrow> string option \<Rightarrow> string option
    \<Rightarrow> (AgentError, LineagePage) result \<times> GrpcForwarder" where
  "forward_get_lineage lib connect sc gf peer ident pond lim lo hi =
     unary lib connect gf peer pond (\<lambda>c. on_get_lineage c (with_identity lib sc ident) (lineage_request pond lim lo hi))
       (decoded lib ''get_lineage'' lineage_page_from)"

definition forward_catalog_pull :: "rpc_lib \<Rightarrow> network \<Rightarrow> scope \<Rightarrow> GrpcForwarder \<Rightarrow> Peer \<Rightarrow> Identity \<Rightarrow> string \<Rightarrow> string \<Rightarrow> string \<Rightarrow> params
    \<Rightarrow> (AgentError, PullResult) result \<times> GrpcForwarder" where
  "forward_catalog_pull lib connect sc gf peer ident pond catalog query ps =
     unary lib connect gf peer pond
       (\<lambda>c. on_catalog_pull c (with_identity lib sc ident) \<lparr>cq_pond = pond, cq_catalog = catalog, cq_query = query, cq_params = ps\<rparr>)
       (decoded lib ''catalog_pull'' pull_from)"

definition table_pair :: "Value \<Rightarrow> (string \<times> string) option" where
  "table_pair t =
     Option.bind (Option.bind (json_get t ''schema'') as_str) (\<lambda>s.
     Option.bind (Option.bind (json_get t ''table'') as_str) (\<lambda>n. Some (s, n)))"

definition decoded_tables :: "rpc_lib \<Rightarrow> string \<Rightarrow> (AgentError, (string \<times> string) list) result" where
  "decoded_tables lib json =
     (case parse_json lib json of
        Inl e \<Rightarrow> Err e
      | Inr v \<Rightarrow>
          (case Option.bind (json_get v ''tables'') as_array of
             None \<Rightarrow> Err (internal_error ''forward decode catalog_describe: no tables'')
           | Some ts \<Rightarrow> Ok (List.map_filter table_pair ts)))"

definition forward_catalog_describe :: "rpc_lib \<Rightarrow> network \<Rightarrow> scope \<Rightarrow> GrpcForwarder \<Rightarrow> Peer \<Rightarrow> Identity \<Rightarrow> string \<Rightarrow> string \<Rightarrow> params
    \<Rightarrow> (AgentError, (string \<times> string) list) result \<times> GrpcForwarder" where
  "forward_catalog_describe lib connect sc gf peer ident pond catalog ps =
     unary lib connect gf peer pond
       (\<lambda>c. on_catalog_describe c (with_identity lib sc ident) \<lparr>cd_pond = pond, cd_catalog = catalog, cd_params = ps\<rparr>)
       (decoded_tables lib)"

end
