(* ===== verification/Data_Service.thy ===== *)
theory Data_Service
  imports Node_Rpc
begin

text \<open>
  A read streamed between nodes, and the handlers of the two services
  (\<open>latiq-pond-node/src/stream_service.rs\<close>, \<open>data_service.rs\<close>).

  Arrow's IPC writer and decoder are not of this program. \<open>ipc_lib\<close> holds them: the writer's
  output for the schema, for a batch after those written before, and for the end of the stream;
  the decoder's batches and error for a chunk after the bytes received before, and the schema it
  knows. The receiving end of a channel is taken to stay: when it leaves, sending stops.
\<close>

record ipc_lib =
  ipc_open :: "string list \<Rightarrow> (string, string) result"
  ipc_write :: "string list \<Rightarrow> RecordBatch list \<Rightarrow> RecordBatch \<Rightarrow> (string, string) result"
  ipc_finish :: "string list \<Rightarrow> RecordBatch list \<Rightarrow> string option"
  ipc_feed :: "string \<Rightarrow> string \<Rightarrow> RecordBatch list \<times> string option"
  ipc_known :: "string \<Rightarrow> string list option"

section \<open>Sending (stream\_service.rs)\<close>

definition ipc_status :: "string \<Rightarrow> GrpcStatus" where
  "ipc_status e = \<lparr>gs_code = GC_Internal, gs_message = ''arrow ipc encode: '' @ e, gs_details = [], gs_challenge = None\<rparr>"

definition batch_chunk :: "string \<Rightarrow> ArrowChunk" where
  "batch_chunk bytes = \<lparr>ck_ipc = bytes, ck_served_by = [], ck_traceparent = []\<rparr>"

fun encode_batches :: "rpc_lib \<Rightarrow> ipc_lib \<Rightarrow> world \<Rightarrow> string list \<Rightarrow> RecordBatch list \<Rightarrow> (AgentError, RecordBatch) result list \<Rightarrow> chunks" where
  "encode_batches lib ipc w sch sent [] =
     (case ipc_finish ipc sch sent of
        None \<Rightarrow> []
      | Some tail \<Rightarrow> if tail = [] then [] else [Ok (batch_chunk tail)])"
| "encode_batches lib ipc w sch sent (Inr b # bs) =
     (case ipc_write ipc sch sent b of
        Inl e \<Rightarrow> [Err (ipc_status e)]
      | Inr bytes \<Rightarrow> Ok (batch_chunk bytes) # encode_batches lib ipc w sch (sent @ [b]) bs)"
| "encode_batches lib ipc w sch sent (Inl ae # bs) = [Err (data_to_status lib w ae)]"

definition encode_to_chunks :: "rpc_lib \<Rightarrow> ipc_lib \<Rightarrow> world \<Rightarrow> ArrowReadStream \<Rightarrow> chunks" where
  "encode_to_chunks lib ipc w r =
     (case ipc_open ipc (as_schema r) of
        Inl e \<Rightarrow> [Err (ipc_status e)]
      | Inr bytes \<Rightarrow>
          Ok \<lparr>ck_ipc = bytes, ck_served_by = as_served_by r, ck_traceparent = as_traceparent r\<rparr>
          # encode_batches lib ipc w (as_schema r) [] (as_batches r))"

section \<open>Receiving (forward\_client.rs)\<close>

record Served =
  sv_schema :: "string list"
  sv_served_by :: string
  sv_traceparent :: string

type_synonym schema_slot = "(AgentError, Served) result option"

definition deliver_schema :: "schema_slot \<Rightarrow> string list option \<Rightarrow> string \<Rightarrow> string \<Rightarrow> schema_slot" where
  "deliver_schema slot known by tp =
     (case slot of
        Some r \<Rightarrow> Some r
      | None \<Rightarrow> map_option (\<lambda>sc. Ok \<lparr>sv_schema = sc, sv_served_by = by, sv_traceparent = tp\<rparr>) known)"

text \<open>An error goes where the consumer still waits: the schema's channel, else the batches'.\<close>

definition report_error :: "schema_slot \<Rightarrow> AgentError \<Rightarrow> schema_slot \<times> (AgentError, RecordBatch) result list" where
  "report_error slot ae = (case slot of None \<Rightarrow> (Some (Err ae), []) | Some r \<Rightarrow> (Some r, [Err ae]))"

definition latest :: "string \<Rightarrow> string \<Rightarrow> string" where
  "latest kept sent = (if sent = [] then kept else sent)"

fun decode_chunks :: "rpc_lib \<Rightarrow> ipc_lib \<Rightarrow> Peer \<Rightarrow> string \<Rightarrow> string \<Rightarrow> string \<Rightarrow> string \<Rightarrow> schema_slot \<Rightarrow> chunks
    \<Rightarrow> schema_slot \<times> (AgentError, RecordBatch) result list" where
  "decode_chunks lib ipc peer pond by tp bytes slot [] =
     (case slot of
        Some r \<Rightarrow> (Some r, [])
      | None \<Rightarrow> (case ipc_known ipc bytes of
            Some sc \<Rightarrow> (Some (Ok \<lparr>sv_schema = sc, sv_served_by = by, sv_traceparent = tp\<rparr>), [])
          | None \<Rightarrow> (Some (Err (internal_error ''forward arrow: no schema'')), [])))"
| "decode_chunks lib ipc peer pond by tp bytes slot (Inl s # ms) = report_error slot (status_to_error lib peer pond s)"
| "decode_chunks lib ipc peer pond by tp bytes slot (Inr c # ms) =
     (let by' = latest by (ck_served_by c); tp' = latest tp (ck_traceparent c);
          (batches, failed) = ipc_feed ipc bytes (ck_ipc c);
          known = ipc_known ipc (bytes @ ck_ipc c);
          slot' = (if batches = [] then slot else deliver_schema slot known by' tp')
      in case failed of
           Some e \<Rightarrow>
             (let (s, errs) = report_error slot' (internal_error (''forward arrow decode: '' @ e)) in (s, map Ok batches @ errs))
         | None \<Rightarrow>
             (let (s, rest) = decode_chunks lib ipc peer pond by' tp' (bytes @ ck_ipc c) (deliver_schema slot' known by' tp') ms
              in (s, map Ok batches @ rest)))"

definition decode_arrow_stream :: "rpc_lib \<Rightarrow> ipc_lib \<Rightarrow> Peer \<Rightarrow> string \<Rightarrow> chunks \<Rightarrow> schema_slot \<times> (AgentError, RecordBatch) result list" where
  "decode_arrow_stream lib ipc peer pond ms = decode_chunks lib ipc peer pond [] [] [] None ms"

definition received_stream :: "schema_slot \<times> (AgentError, RecordBatch) result list \<Rightarrow> (AgentError, ArrowReadStream) result" where
  "received_stream parts =
     (case fst parts of
        None \<Rightarrow> Err (internal_error ''forward arrow: stream closed before schema'')
      | Some (Inl e) \<Rightarrow> Err e
      | Some (Inr s) \<Rightarrow> Ok \<lparr>as_schema = sv_schema s, as_batches = snd parts, as_meta = None, as_served_by = sv_served_by s,
          as_traceparent = sv_traceparent s\<rparr>)"

definition forward_read_arrow :: "rpc_lib \<Rightarrow> ipc_lib \<Rightarrow> network \<Rightarrow> scope \<Rightarrow> GrpcForwarder \<Rightarrow> Peer \<Rightarrow> Identity \<Rightarrow> string \<Rightarrow> string \<Rightarrow> 64 word option
    \<Rightarrow> (AgentError, ArrowReadStream) result \<times> GrpcForwarder" where
  "forward_read_arrow lib ipc connect sc gf peer ident pond sql t =
     (case fwd_client connect (gf_stream_clients gf) peer pond of
        (Inl e, cs) \<Rightarrow> (Err e, gf\<lparr>gf_stream_clients := cs\<rparr>)
      | (Inr c, cs) \<Rightarrow>
          ((case on_read_arrow c (with_identity lib sc ident) (query_request pond sql t) of
              Inl s \<Rightarrow> Err (status_to_error lib peer pond s)
            | Inr ms \<Rightarrow> received_stream (decode_arrow_stream lib ipc peer pond ms)), gf\<lparr>gf_stream_clients := cs\<rparr>))"

section \<open>The services\<close>

text \<open>Both services hold the same three things.\<close>

record DataService =
  ds_ops :: AgentOps
  ds_verifier :: "token_check option"
  ds_challenge :: "string option"

definition data_service_new :: "AgentOps \<Rightarrow> DataService" where
  "data_service_new ops = \<lparr>ds_ops = ops, ds_verifier = None, ds_challenge = None\<rparr>"

definition with_verifier :: "DataService \<Rightarrow> token_check option \<Rightarrow> DataService" where
  "with_verifier s v = s\<lparr>ds_verifier := v\<rparr>"

definition with_metadata_url :: "DataService \<Rightarrow> string option \<Rightarrow> DataService" where
  "with_metadata_url s url = s\<lparr>ds_challenge := challenge_of url\<rparr>"

text \<open>What surrounds a call: the libraries, the network, the forwarder, the world outside any
  request's scope and the UUIDs a trace context is minted from.\<close>

record node_env =
  ne_lib :: rpc_lib
  ne_ipc :: ipc_lib
  ne_connect :: network
  ne_forwarder :: GrpcForwarder
  ne_world :: world
  ne_uuid1 :: string
  ne_uuid2 :: string

definition hop_scope :: "TraceContext \<Rightarrow> string option \<Rightarrow> scope" where
  "hop_scope ctx tok = \<lparr>sc_bearer = tok, sc_traceparent = Some (traceparent ctx)\<rparr>"

text \<open>The world inside the scope of a request: its trace is current, and what is relayed carries
  its token.\<close>

definition in_scope :: "node_env \<Rightarrow> TraceContext \<Rightarrow> string option \<Rightarrow> world" where
  "in_scope ne ctx tok =
     (let lib = ne_lib ne; net = ne_connect ne; gf = ne_forwarder ne; sc = hop_scope ctx tok in
      (ne_world ne)\<lparr>w_trace_id := Some (trace_id ctx), w_traceparent := Some (traceparent ctx),
        w_fwd_read := (\<lambda>p i pond sql t. fst (forward_read lib net sc gf p i pond sql t)),
        w_fwd_write := (\<lambda>p i pond sql t. fst (forward_write lib net sc gf p i pond sql t)),
        w_fwd_read_arrow := (\<lambda>p i pond sql t. fst (forward_read_arrow lib (ne_ipc ne) net sc gf p i pond sql t)),
        w_fwd_explain := (\<lambda>p i pond sql. fst (forward_explain lib net sc gf p i pond sql)),
        w_fwd_describe := (\<lambda>p i pond. fst (forward_describe lib net sc gf p i pond)),
        w_fwd_lineage := (\<lambda>p i pond n lo hi. fst (forward_get_lineage lib net sc gf p i pond n lo hi)),
        w_fwd_drop := (\<lambda>p i pond confirm. fst (forward_drop lib net sc gf p i pond confirm)),
        w_fwd_materialize := (\<lambda>p i pond. fst (forward_materialize lib net sc gf p i pond)),
        w_fwd_pull := (\<lambda>p i pond c q ps. fst (forward_catalog_pull lib net sc gf p i pond c q ps)),
        w_fwd_describe_catalog := (\<lambda>p i pond c ps. fst (forward_catalog_describe lib net sc gf p i pond c ps))\<rparr>)"

type_synonym 'a served = "(GrpcStatus, 'a) result \<times> node_event list"

text \<open>Every handler: the identity, then the body under the request's trace and token, its error
  made a status inside that scope.\<close>

definition traced :: "DataService \<Rightarrow> node_env \<Rightarrow> metadata \<Rightarrow> string \<Rightarrow> (world \<Rightarrow> Identity \<Rightarrow> 'a act) \<Rightarrow> (world \<Rightarrow> 'a \<Rightarrow> 'b) \<Rightarrow> 'b served" where
  "traced svc ne md op body k =
     (case node_identity_of (ne_lib ne) (ne_world ne) (ds_verifier svc) (ds_challenge svc) md op of
        (Inl s, evs) \<Rightarrow> (Err s, evs)
      | (Inr (ident, tok), evs) \<Rightarrow>
          (let w = in_scope ne (request_trace (ne_uuid1 ne) (ne_uuid2 ne) md) tok; m = body w ident
           in (map_err (data_to_status (ne_lib ne) w) (map_ok (k w) (fst m)), evs @ snd m)))"

definition json_resp :: "node_env \<Rightarrow> ('a \<Rightarrow> Value) \<Rightarrow> world \<Rightarrow> 'a \<Rightarrow> string" where
  "json_resp ne enc = (\<lambda>w x. to_text (ne_lib ne) (enc x))"

definition rpc_allocate_pond :: "DataService \<Rightarrow> node_env \<Rightarrow> metadata \<Rightarrow> AllocatePondRequest \<Rightarrow> (string \<times> string) served" where
  "rpc_allocate_pond svc ne md r = traced svc ne md ''allocate_pond''
     (\<lambda>w ident. allocate_pond w ident (if ap_name r = [] then None else Some (ap_name r))
        (if ap_policy_json r = [] then ''{}'' else ap_policy_json r) (if ap_tier r = [] then ''medium'' else ap_tier r)
        [] (ap_lineage r))
     (\<lambda>_ res. (al_pond_id res, al_pond_name res))"

definition rpc_materialize_pond :: "DataService \<Rightarrow> node_env \<Rightarrow> metadata \<Rightarrow> string \<Rightarrow> unit served" where
  "rpc_materialize_pond svc ne md pond = traced svc ne md ''materialize_pond'' (\<lambda>w ident. materialize_pond w (ds_ops svc) ident pond) (\<lambda>_ x. x)"

definition rpc_drop_pond :: "DataService \<Rightarrow> node_env \<Rightarrow> metadata \<Rightarrow> string \<Rightarrow> bool \<Rightarrow> unit served" where
  "rpc_drop_pond svc ne md pond confirm = traced svc ne md ''drop_pond'' (\<lambda>w ident. drop_pond_op w (ds_ops svc) ident pond confirm) (\<lambda>_ x. x)"

definition rpc_describe_pond :: "DataService \<Rightarrow> node_env \<Rightarrow> metadata \<Rightarrow> string \<Rightarrow> string served" where
  "rpc_describe_pond svc ne md pond = traced svc ne md ''describe_pond'' (\<lambda>w ident. describe_pond w (ds_ops svc) ident pond)
     (json_resp ne (describe_json (stamp_text (ne_lib ne))))"

definition rpc_read_query :: "DataService \<Rightarrow> node_env \<Rightarrow> metadata \<Rightarrow> QueryRequest \<Rightarrow> string served" where
  "rpc_read_query svc ne md r = traced svc ne md ''read_query''
     (\<lambda>w ident. read_collected w (ds_ops svc) ident (q_pond r) (q_sql r) (controls_of (q_timeout_ms r))) (json_resp ne query_value)"

definition rpc_write_query :: "DataService \<Rightarrow> node_env \<Rightarrow> metadata \<Rightarrow> QueryRequest \<Rightarrow> string served" where
  "rpc_write_query svc ne md r = traced svc ne md ''write_query''
     (\<lambda>w ident. run_query w (ds_ops svc) (q_pond r) (q_sql r) ident True (controls_of (q_timeout_ms r))) (json_resp ne query_value)"

definition rpc_explain_query :: "DataService \<Rightarrow> node_env \<Rightarrow> metadata \<Rightarrow> QueryRequest \<Rightarrow> string served" where
  "rpc_explain_query svc ne md r = traced svc ne md ''explain_query''
     (\<lambda>w ident. explain_query w (ds_ops svc) ident (q_pond r) (q_sql r)) (json_resp ne explain_json)"

definition rpc_load_dataset :: "DataService \<Rightarrow> node_env \<Rightarrow> metadata \<Rightarrow> string \<Rightarrow> string \<Rightarrow> string served" where
  "rpc_load_dataset svc ne md pond dataset = traced svc ne md ''load_dataset''
     (\<lambda>w ident. load_dataset w (ds_ops svc) ident pond dataset) (json_resp ne load_json)"

definition rpc_catalog_pull :: "DataService \<Rightarrow> node_env \<Rightarrow> metadata \<Rightarrow> CatalogPullRequest \<Rightarrow> string served" where
  "rpc_catalog_pull svc ne md r = traced svc ne md ''catalog_pull''
     (\<lambda>w ident. catalog_pull w (ds_ops svc) ident (cq_pond r) (cq_catalog r) (cq_query r) (bt_extend [] (cq_params r)))
     (json_resp ne pull_json)"

definition rpc_get_lineage :: "DataService \<Rightarrow> node_env \<Rightarrow> metadata \<Rightarrow> GetLineageRequest \<Rightarrow> string served" where
  "rpc_get_lineage svc ne md r = traced svc ne md ''get_lineage''
     (\<lambda>w ident. get_lineage w (ds_ops svc) ident (gl_pond r) (unat (gl_limit r)) (non_empty (gl_since r)) (non_empty (gl_before r)))
     (json_resp ne lineage_page_json)"

definition catalog_tables_json :: "string \<Rightarrow> (string \<times> string) list \<Rightarrow> Value" where
  "catalog_tables_json catalog ts = json_object [(''catalog'', JString catalog),
     (''tables'', JArray (map (\<lambda>(s, t). json_object [(''schema'', JString s), (''table'', JString t)]) ts))]"

definition rpc_catalog_describe :: "DataService \<Rightarrow> node_env \<Rightarrow> metadata \<Rightarrow> CatalogDescribeRequest \<Rightarrow> string served" where
  "rpc_catalog_describe svc ne md r = traced svc ne md ''catalog_describe''
     (\<lambda>w ident. catalog_describe w (ds_ops svc) ident (cd_pond r) (cd_catalog r) (bt_extend [] (cd_params r)))
     (json_resp ne (catalog_tables_json (cd_catalog r)))"

definition rpc_read_arrow :: "DataService \<Rightarrow> node_env \<Rightarrow> metadata \<Rightarrow> QueryRequest \<Rightarrow> chunks served" where
  "rpc_read_arrow svc ne md r = traced svc ne md ''read_arrow''
     (\<lambda>w ident. read_arrow w (ds_ops svc) ident (q_pond r) (q_sql r) (controls_of (q_timeout_ms r)))
     (encode_to_chunks (ne_lib ne) (ne_ipc ne))"

text \<open>The node as a peer dials it.\<close>

definition node_at :: "DataService \<Rightarrow> node_env \<Rightarrow> node_rpc" where
  "node_at svc ne = \<lparr>on_read_query = (\<lambda>md r. fst (rpc_read_query svc ne md r)), on_write_query = (\<lambda>md r. fst (rpc_write_query svc ne md r)),
     on_explain_query = (\<lambda>md r. fst (rpc_explain_query svc ne md r)), on_describe_pond = (\<lambda>md p. fst (rpc_describe_pond svc ne md p)),
     on_drop_pond = (\<lambda>md p c. fst (rpc_drop_pond svc ne md p c)), on_materialize_pond = (\<lambda>md p. fst (rpc_materialize_pond svc ne md p)),
     on_get_lineage = (\<lambda>md r. fst (rpc_get_lineage svc ne md r)), on_catalog_pull = (\<lambda>md r. fst (rpc_catalog_pull svc ne md r)),
     on_catalog_describe = (\<lambda>md r. fst (rpc_catalog_describe svc ne md r)), on_read_arrow = (\<lambda>md r. fst (rpc_read_arrow svc ne md r))\<rparr>"

end
