(* ===== verification/Mcp_Encode.thy ===== *)
theory Mcp_Encode
  imports Data_Service
begin

text \<open>
  What the MCP surface sends: tool results (\<open>latiq-mcp/src/encode.rs\<close>) with the shapes it wraps
  (\<open>response.rs\<close>), and the output schemas it declares for them (\<open>schema.rs\<close>). The schema
  \<open>schemars\<close> derives for a type is not of this program; it is the argument of \<open>build_schema\<close>.
\<close>

section \<open>Tool results (encode.rs)\<close>

text \<open>One text block, the same value as structured content, the error flag, the protocol's \<open>_meta\<close>.\<close>

record CallToolResult =
  ct_text :: string
  ct_structured :: Value
  ct_is_error :: bool
  ct_meta :: "(string \<times> Value) list option"

definition TRACEPARENT_META :: string where
  "TRACEPARENT_META = ''traceparent''"

definition BODY_META :: string where
  "BODY_META = ''_meta''"

definition trace_meta :: "world \<Rightarrow> (string \<times> Value) list option" where
  "trace_meta w = map_option (\<lambda>tp. [(TRACEPARENT_META, JString tp)]) (w_traceparent w)"

definition with_body_traceparent :: "world \<Rightarrow> Value \<Rightarrow> Value" where
  "with_body_traceparent w v =
     (case w_traceparent w of
        None \<Rightarrow> v
      | Some tp \<Rightarrow>
          (case v of
             JObject m \<Rightarrow>
               (case map_of m BODY_META of
                  Some (JObject meta) \<Rightarrow>
                    JObject (bt_insert BODY_META
                      (JObject (if map_of meta TRACEPARENT_META = None then bt_insert TRACEPARENT_META (JString tp) meta else meta)) m)
                | Some _ \<Rightarrow> v
                | None \<Rightarrow> JObject (bt_insert BODY_META (JObject [(TRACEPARENT_META, JString tp)]) m))
           | _ \<Rightarrow> v))"

definition dual :: "rpc_lib \<Rightarrow> world \<Rightarrow> Value \<Rightarrow> bool \<Rightarrow> CallToolResult" where
  "dual lib w v is_error =
     (let body = (if is_error then v else with_body_traceparent w v)
      in \<lparr>ct_text = to_text lib body, ct_structured = body, ct_is_error = is_error, ct_meta = trace_meta w\<rparr>)"

definition tool_ok :: "rpc_lib \<Rightarrow> world \<Rightarrow> Value \<Rightarrow> CallToolResult" where
  "tool_ok lib w v = dual lib w v False"

definition err_envelope :: "rpc_lib \<Rightarrow> world \<Rightarrow> AgentError \<Rightarrow> CallToolResult" where
  "err_envelope lib w env =
     dual lib w (envelope_json (with_traceparent (with_trace_id env (w_trace_id w)) (w_traceparent w))) True"

definition query_response_json :: "string \<Rightarrow> QueryResult \<Rightarrow> Value" where
  "query_response_json statement qr = json_object
     [(''columns'', json_strings (qr_columns qr)), (''rows'', JArray (map JArray (qr_rows qr))),
      (''statement'', JString statement), (''status'', JString ''ok''), (''_meta'', json_object (meta_entries (qr_meta qr)))]"

definition ok_query :: "rpc_lib \<Rightarrow> world \<Rightarrow> string \<Rightarrow> QueryResult \<Rightarrow> CallToolResult" where
  "ok_query lib w statement qr = tool_ok lib w (query_response_json statement qr)"

definition ok_explain :: "rpc_lib \<Rightarrow> world \<Rightarrow> ExplainResult \<Rightarrow> CallToolResult" where
  "ok_explain lib w er = tool_ok lib w (explain_json er)"

section \<open>Response shapes (response.rs, types.rs)\<close>

definition allocate_json :: "AllocateResult \<Rightarrow> Value" where
  "allocate_json a = json_object [(''pond_id'', JString (al_pond_id a)), (''pond_name'', JString (al_pond_name a))]"

definition list_ponds_json :: "(int \<Rightarrow> string) \<Rightarrow> PondInfo list \<Rightarrow> Value" where
  "list_ponds_json date ps = json_object [(''ponds'', JArray (map (pond_info_json date) ps))]"

definition drop_pond_json :: "string \<Rightarrow> string \<Rightarrow> Value" where
  "drop_pond_json status pond = json_object [(''status'', JString status), (''pond'', JString pond)]"

definition dataset_table_json :: "DatasetTableRow \<Rightarrow> Value" where
  "dataset_table_json t = json_object
     [(''table_name'', JString (table_name t)), (''source_uri'', JString (source_uri t)), (''format'', JString (format t))]"

definition dataset_info_json :: "(int \<Rightarrow> string) \<Rightarrow> DatasetInfo \<Rightarrow> Value" where
  "dataset_info_json date d = json_object
     [(''name'', JString (ds_name d)), (''description'', JString (ds_description d)), (''tags'', json_strings (ds_tags d)),
      (''tables'', JArray (map dataset_table_json (ds_tables d))), (''created_by'', JString (ds_created_by d)),
      (''created_at'', JString (date (ds_created_at d)))]"

definition list_datasets_json :: "(int \<Rightarrow> string) \<Rightarrow> DatasetInfo list \<Rightarrow> Value" where
  "list_datasets_json date ds = json_object [(''datasets'', JArray (map (dataset_info_json date) ds))]"

definition catalog_info_json :: "(int \<Rightarrow> string) \<Rightarrow> CatalogInfo \<Rightarrow> Value" where
  "catalog_info_json date c = json_object
     [(''name'', JString (ca_name c)), (''type'', JString (ca_type c)),
      (''params'', JObject (map (\<lambda>(k, v). (k, JString v)) (ca_params c))), (''description'', JString (ca_description c)),
      (''tags'', json_strings (ca_tags c)), (''created_by'', JString (ca_created_by c)),
      (''created_at'', JString (date (ca_created_at c)))]"

definition list_catalogs_json :: "(int \<Rightarrow> string) \<Rightarrow> CatalogInfo list \<Rightarrow> Value" where
  "list_catalogs_json date cs = json_object [(''catalogs'', JArray (map (catalog_info_json date) cs))]"

section \<open>Output schemas (schema.rs)\<close>

text \<open>How a keyword's value is read: as a schema, as a map or a list of schemas, or not at all.\<close>

datatype position = ASchema | SchemaMap | SchemaList | Opaque

definition SCHEMA_MAPS :: "string list" where
  "SCHEMA_MAPS = [''properties'', ''patternProperties'', ''dependentSchemas'', ''$defs'', ''definitions'']"

definition SUBSCHEMAS :: "string list" where
  "SUBSCHEMAS = [''items'', ''additionalItems'', ''additionalProperties'', ''propertyNames'', ''contains'', ''not'', ''if'', ''then'', ''else'']"

definition SCHEMA_LISTS :: "string list" where
  "SCHEMA_LISTS = [''allOf'', ''anyOf'', ''oneOf'', ''prefixItems'']"

definition keyword_position :: "string \<Rightarrow> position" where
  "keyword_position k =
     (if k \<in> set SCHEMA_MAPS then SchemaMap else if k \<in> set SUBSCHEMAS then ASchema
      else if k \<in> set SCHEMA_LISTS then SchemaList else Opaque)"

lemma size_entry: "(k, v) \<in> set m \<Longrightarrow> size (v :: Value) < size_list (size_prod (\<lambda>_. 0) size) m"
  by (induction m) auto

lemma size_elem: "v \<in> set xs \<Longrightarrow> size (v :: Value) < size_list size xs"
  by (induction xs) auto

function strip_at :: "position \<Rightarrow> Value \<Rightarrow> Value" where
  "strip_at ASchema (JObject m) =
     JObject (map (\<lambda>(k, v). (k, strip_at (keyword_position k) v)) (filter (\<lambda>(k, _). k \<noteq> ''description'') m))"
| "strip_at SchemaMap (JObject m) = JObject (map (\<lambda>(k, v). (k, strip_at ASchema v)) m)"
| "strip_at SchemaList (JArray xs) = JArray (map (strip_at ASchema) xs)"
| "strip_at Opaque v = v"
| "strip_at ASchema JNull = JNull" | "strip_at ASchema (JBool b) = JBool b" | "strip_at ASchema (JNumber n) = JNumber n"
| "strip_at ASchema (JString s) = JString s" | "strip_at ASchema (JArray xs) = JArray xs"
| "strip_at SchemaMap JNull = JNull" | "strip_at SchemaMap (JBool b) = JBool b" | "strip_at SchemaMap (JNumber n) = JNumber n"
| "strip_at SchemaMap (JString s) = JString s" | "strip_at SchemaMap (JArray xs) = JArray xs"
| "strip_at SchemaList JNull = JNull" | "strip_at SchemaList (JBool b) = JBool b" | "strip_at SchemaList (JNumber n) = JNumber n"
| "strip_at SchemaList (JString s) = JString s" | "strip_at SchemaList (JObject m) = JObject m"
  by pat_completeness auto
termination
  by (relation "measure (\<lambda>(_, v). size v)") (auto dest!: size_entry size_elem)

definition strip_descriptions :: "(string \<times> Value) list \<Rightarrow> (string \<times> Value) list" where
  "strip_descriptions m = (case strip_at ASchema (JObject m) of JObject m' \<Rightarrow> m' | _ \<Rightarrow> m)"

definition declare_body_meta :: "(string \<times> Value) list \<Rightarrow> (string \<times> Value) list" where
  "declare_body_meta m =
     (case map_of m ''properties'' of
        Some (JObject props) \<Rightarrow>
          if map_of props BODY_META \<noteq> None then m
          else bt_insert ''properties'' (JObject (bt_insert BODY_META (json_object
                 [(''type'', JString ''object''),
                  (''properties'', json_object [(''traceparent'', json_object [(''type'', JString ''string'')])])]) props)) m
      | _ \<Rightarrow> m)"

text \<open>\<open>None\<close> where the code panics: the root is no object, or not of type \<open>object\<close>.\<close>

definition build_schema :: "Value \<Rightarrow> (string \<times> Value) list option" where
  "build_schema root =
     (case root of
        JObject m \<Rightarrow>
          (let s = declare_body_meta (strip_descriptions m)
           in if Option.bind (map_of s ''type'') as_str = Some ''object'' then Some s else None)
      | _ \<Rightarrow> None)"

section \<open>Lemmas\<close>

subsection \<open>Results\<close>

lemma json_object_wf: "\<exists>m. json_object kvs = JObject m \<and> bt_wf m"
  by (simp add: json_object_def bt_wf_extend)

text \<open>The span a body names: its \<open>_meta.traceparent\<close>.\<close>

definition body_span :: "Value \<Rightarrow> string option" where
  "body_span v = Option.bind (json_get v BODY_META) (\<lambda>m. Option.bind (json_get m TRACEPARENT_META) as_str)"

lemma with_body_traceparent_fresh:
  assumes "w_traceparent w = Some tp" "v = JObject m" "bt_wf m" "map_of m BODY_META = None"
  shows "body_span (with_body_traceparent w v) = Some tp"
    and "k \<noteq> BODY_META \<Longrightarrow> json_get (with_body_traceparent w v) k = json_get v k"
  using assms by (simp_all add: with_body_traceparent_def body_span_def map_of_bt_insert)

lemma with_body_traceparent_meta:
  assumes "w_traceparent w = Some tp" "v = JObject m" "bt_wf m" "map_of m BODY_META = Some (JObject meta)" "bt_wf meta"
  shows "json_get (with_body_traceparent w v) BODY_META
      = Some (JObject (if map_of meta TRACEPARENT_META = None then bt_insert TRACEPARENT_META (JString tp) meta else meta))"
    and "k \<noteq> BODY_META \<Longrightarrow> json_get (with_body_traceparent w v) k = json_get v k"
  using assms by (simp_all add: with_body_traceparent_def map_of_bt_insert)

lemma query_response_get:
  "json_get (query_response_json st qr) ''_meta'' = Some (json_object (meta_entries (qr_meta qr)))"
  by (simp add: query_response_json_def json_get_object)

text \<open>A query's body keeps the span it already reports, and gets the request's when it reports none.\<close>

lemma query_body_span:
  assumes "w_traceparent w = Some tp"
  shows "body_span (with_body_traceparent w (query_response_json st qr))
      = Some (if qm_traceparent (qr_meta qr) = [] then tp else qm_traceparent (qr_meta qr))"
proof -
  obtain m where m: "query_response_json st qr = JObject m" "bt_wf m"
    using json_object_wf unfolding query_response_json_def by blast
  obtain meta where meta: "json_object (meta_entries (qr_meta qr)) = JObject meta" "bt_wf meta" using json_object_wf by blast
  have b: "map_of m BODY_META = Some (JObject meta)" using query_response_get [of st qr] m(1) meta(1) by (simp add: BODY_META_def)
  have t: "map_of meta TRACEPARENT_META = (if qm_traceparent (qr_meta qr) = [] then None else Some (JString (qm_traceparent (qr_meta qr))))"
    using json_get_object [OF meta_entries_distinct, of "qr_meta qr" "''traceparent''"] meta(1)
    by (simp add: meta_lookups TRACEPARENT_META_def)
  show ?thesis using with_body_traceparent_meta(1) [OF assms m(1,2) b meta(2)] meta(2) t
    by (simp add: body_span_def map_of_bt_insert)
qed

lemma dual_simps [simp]:
  "ct_is_error (dual lib w v e) = e" "ct_meta (dual lib w v e) = trace_meta w"
  "ct_text (dual lib w v e) = to_text lib (ct_structured (dual lib w v e))"
  "ct_structured (dual lib w v False) = with_body_traceparent w v" "ct_structured (dual lib w v True) = v"
  by (simp_all add: dual_def Let_def)

subsection \<open>Schemas\<close>

text \<open>The schemas inside a schema: those its keywords hold, as a value, in a map or in a list.\<close>

inductive schema_in :: "position \<Rightarrow> Value \<Rightarrow> (string \<times> Value) list \<Rightarrow> bool" where
  here: "schema_in ASchema (JObject m) m"
| keyword: "(k, v) \<in> set m \<Longrightarrow> schema_in (keyword_position k) v s \<Longrightarrow> schema_in ASchema (JObject m) s"
| entry: "(n, v) \<in> set m \<Longrightarrow> schema_in ASchema v s \<Longrightarrow> schema_in SchemaMap (JObject m) s"
| elem: "v \<in> set xs \<Longrightarrow> schema_in ASchema v s \<Longrightarrow> schema_in SchemaList (JArray xs) s"

inductive_cases schema_inE: "schema_in ASchema (JObject m) s" "schema_in SchemaMap (JObject m) s" "schema_in SchemaList (JArray xs) s"
  "schema_in Opaque v s"

lemma strip_at_clean: "schema_in p (strip_at p v) s \<Longrightarrow> ''description'' \<notin> fst ` set s"
proof (induction p v arbitrary: s rule: strip_at.induct)
  case (1 m)
  let ?f = "filter (\<lambda>(k, _). k \<noteq> ''description'') m"
  have ih: "''description'' \<notin> fst ` set s" if "(k, v) \<in> set ?f" "schema_in (keyword_position k) (strip_at (keyword_position k) v) s" for k v s
    using 1(1) [OF that(1) refl that(2)] .
  show ?case using 1(2) unfolding strip_at.simps
  proof (rule schema_inE(1))
    fix k x assume "(k, x) \<in> set (map (\<lambda>(k, v). (k, strip_at (keyword_position k) v)) ?f)" "schema_in (keyword_position k) x s"
    then show ?thesis using ih by (auto simp del: set_filter)
  qed auto
next
  case (2 m)
  have ih: "''description'' \<notin> fst ` set s" if "(n, v) \<in> set m" "schema_in ASchema (strip_at ASchema v) s" for n v s
    using 2(1) [OF that(1) refl that(2)] .
  show ?case using 2(2) unfolding strip_at.simps by (rule schema_inE(2)) (use ih in auto)
next
  case (3 xs)
  from 3(2) show ?case unfolding strip_at.simps by (elim schema_inE) (use 3(1) in auto)
qed (auto elim: schema_in.cases)

text \<open>Every schema is still there, with its other keywords in their order.\<close>

lemma strip_at_keeps:
  "schema_in p v s \<Longrightarrow> \<exists>s'. schema_in p (strip_at p v) s' \<and> map fst s' = filter (\<lambda>k. k \<noteq> ''description'') (map fst s)"
proof (induction rule: schema_in.induct)
  case (here m)
  show ?case unfolding strip_at.simps
    by (rule exI, rule conjI, rule schema_in.here) (simp add: comp_def split_beta' filter_map)
next
  case (keyword k v m s)
  then obtain s' where s': "schema_in (keyword_position k) (strip_at (keyword_position k) v) s'"
    "map fst s' = filter (\<lambda>k. k \<noteq> ''description'') (map fst s)" by blast
  have "k \<noteq> ''description''" using keyword(2) by (auto simp: keyword_position_def SCHEMA_MAPS_def SUBSCHEMAS_def SCHEMA_LISTS_def elim: schema_inE)
  then have "(k, strip_at (keyword_position k) v) \<in> set (map (\<lambda>(k, v). (k, strip_at (keyword_position k) v)) (filter (\<lambda>(k, _). k \<noteq> ''description'') m))"
    using keyword(1) by force
  then show ?case using s' unfolding strip_at.simps by (blast intro: schema_in.keyword)
next
  case (entry n v m s)
  then obtain s' where s': "schema_in ASchema (strip_at ASchema v) s'" "map fst s' = filter (\<lambda>k. k \<noteq> ''description'') (map fst s)" by blast
  have "(n, strip_at ASchema v) \<in> set (map (\<lambda>(k, v). (k, strip_at ASchema v)) m)" using entry(1) by force
  then show ?case using s' unfolding strip_at.simps by (blast intro: schema_in.entry)
next
  case (elem v xs s)
  then show ?case unfolding strip_at.simps by (force intro: schema_in.elem)
qed

lemma strip_descriptions_eq: "JObject (strip_descriptions m) = strip_at ASchema (JObject m)"
  by (simp add: strip_descriptions_def)

end
