(* ===== verification/Mcp_Server.thy ===== *)
theory Mcp_Server
  imports Mcp_Encode
begin

text \<open>
  The MCP surface (\<open>latiq-mcp/src/server.rs\<close>): the arguments of the tools, who is calling, the
  layer that verifies every request, the thirteen tools over the node's operations and the
  addresses the surface publishes.

  The transport and the JSON-RPC dispatch are \<open>rmcp\<close>'s and \<open>axum\<close>'s; \<open>url_lib\<close> is the URL parser.
  An argument object is refused by \<open>serde\<close> when it holds a key the type does not have.
\<close>

section \<open>Arguments\<close>

definition known_only :: "string list \<Rightarrow> Value \<Rightarrow> bool" where
  "known_only ks v = (case v of JObject m \<Rightarrow> set (map fst m) \<subseteq> set ks | _ \<Rightarrow> False)"

definition closed_args :: "string list \<Rightarrow> (Value \<Rightarrow> 'a option) \<Rightarrow> Value \<Rightarrow> 'a option" where
  "closed_args ks dec v = (if known_only ks v then dec v else None)"

definition arg_opt :: "Value \<Rightarrow> string \<Rightarrow> (Value \<Rightarrow> 'a option) \<Rightarrow> 'a option option" where
  "arg_opt v k f = may v k (dec_opt f) None"

definition dec_string_map :: "Value \<Rightarrow> (string \<times> string) list option" where
  "dec_string_map v = (case v of JObject m \<Rightarrow> those (map (\<lambda>(k, x). map_option (Pair k) (as_str x)) m) | _ \<Rightarrow> None)"

definition dec_u64 :: "Value \<Rightarrow> 64 word option" where
  "dec_u64 v = map_option of_nat (as_u64 v)"

record AllocateArgs =
  aa_name :: "string option"
  aa_tier :: "string option"
  aa_extensions :: "string list option"
  aa_lineage :: "bool option"

definition allocate_args_from :: "Value \<Rightarrow> AllocateArgs option" where
  "allocate_args_from = closed_args [''name'', ''tier'', ''extensions'', ''lineage''] (\<lambda>v.
     Option.bind (arg_opt v ''name'' as_str) (\<lambda>n.
     Option.bind (arg_opt v ''tier'' as_str) (\<lambda>t.
     Option.bind (arg_opt v ''extensions'' (dec_list as_str)) (\<lambda>e.
     Option.bind (arg_opt v ''lineage'' as_bool) (\<lambda>l.
     Some \<lparr>aa_name = n, aa_tier = t, aa_extensions = e, aa_lineage = l\<rparr>)))))"

definition pond_ref_args_from :: "Value \<Rightarrow> string option" where
  "pond_ref_args_from = closed_args [''pond''] (\<lambda>v. need v ''pond'' as_str)"

record DropArgs =
  da_pond :: string
  da_confirm :: "bool option"

definition drop_args_from :: "Value \<Rightarrow> DropArgs option" where
  "drop_args_from = closed_args [''pond'', ''confirm''] (\<lambda>v.
     Option.bind (need v ''pond'' as_str) (\<lambda>p.
     Option.bind (arg_opt v ''confirm'' as_bool) (\<lambda>c. Some \<lparr>da_pond = p, da_confirm = c\<rparr>)))"

record QueryArgs =
  qa_pond :: string
  qa_sql :: string
  qa_timeout_ms :: "64 word option"

definition query_args_from :: "Value \<Rightarrow> QueryArgs option" where
  "query_args_from = closed_args [''pond'', ''sql'', ''timeout_ms''] (\<lambda>v.
     Option.bind (need v ''pond'' as_str) (\<lambda>p.
     Option.bind (need v ''sql'' as_str) (\<lambda>s.
     Option.bind (arg_opt v ''timeout_ms'' dec_u64) (\<lambda>t.
     Some \<lparr>qa_pond = p, qa_sql = s, qa_timeout_ms = t\<rparr>))))"

definition explain_args_from :: "Value \<Rightarrow> (string \<times> string) option" where
  "explain_args_from = closed_args [''pond'', ''sql''] (\<lambda>v.
     Option.bind (need v ''pond'' as_str) (\<lambda>p. Option.bind (need v ''sql'' as_str) (\<lambda>s. Some (p, s))))"

definition search_args_from :: "Value \<Rightarrow> string option option" where
  "search_args_from = closed_args [''query''] (\<lambda>v. arg_opt v ''query'' as_str)"

definition load_args_from :: "Value \<Rightarrow> (string \<times> string) option" where
  "load_args_from = closed_args [''pond'', ''dataset''] (\<lambda>v.
     Option.bind (need v ''pond'' as_str) (\<lambda>p. Option.bind (need v ''dataset'' as_str) (\<lambda>d. Some (p, d))))"

record CatalogDescribeArgs =
  cda_pond :: string
  cda_catalog :: string
  cda_set :: "(string \<times> string) list option"

definition catalog_describe_args_from :: "Value \<Rightarrow> CatalogDescribeArgs option" where
  "catalog_describe_args_from = closed_args [''pond'', ''catalog'', ''set''] (\<lambda>v.
     Option.bind (need v ''pond'' as_str) (\<lambda>p.
     Option.bind (need v ''catalog'' as_str) (\<lambda>c.
     Option.bind (arg_opt v ''set'' dec_string_map) (\<lambda>s. Some \<lparr>cda_pond = p, cda_catalog = c, cda_set = s\<rparr>))))"

record CatalogPullArgs =
  cpa_pond :: string
  cpa_catalog :: string
  cpa_query :: string
  cpa_set :: "(string \<times> string) list option"

definition catalog_pull_args_from :: "Value \<Rightarrow> CatalogPullArgs option" where
  "catalog_pull_args_from = closed_args [''pond'', ''catalog'', ''query'', ''set''] (\<lambda>v.
     Option.bind (need v ''pond'' as_str) (\<lambda>p.
     Option.bind (need v ''catalog'' as_str) (\<lambda>c.
     Option.bind (need v ''query'' as_str) (\<lambda>q.
     Option.bind (arg_opt v ''set'' dec_string_map) (\<lambda>s.
     Some \<lparr>cpa_pond = p, cpa_catalog = c, cpa_query = q, cpa_set = s\<rparr>)))))"

record LineageArgs =
  la_pond :: string
  la_limit :: "32 word option"
  la_since :: "string option"
  la_before :: "string option"

definition lineage_args_from :: "Value \<Rightarrow> LineageArgs option" where
  "lineage_args_from = closed_args [''pond'', ''limit'', ''since'', ''before''] (\<lambda>v.
     Option.bind (need v ''pond'' as_str) (\<lambda>p.
     Option.bind (arg_opt v ''limit'' as_u32) (\<lambda>l.
     Option.bind (arg_opt v ''since'' as_str) (\<lambda>s.
     Option.bind (arg_opt v ''before'' as_str) (\<lambda>b.
     Some \<lparr>la_pond = p, la_limit = l, la_since = s, la_before = b\<rparr>)))))"

definition query_controls :: "QueryArgs \<Rightarrow> QueryControls" where
  "query_controls a = \<lparr>qc_timeout_ms = qa_timeout_ms a, qc_cancel = True\<rparr>"

definition reject_zero :: "string \<Rightarrow> 64 word option \<Rightarrow> AgentError option" where
  \<open>reject_zero field v =
     (if v = Some 0
      then Some (rendered_with InvalidValue ''`{field}` must be at least 1.'' (facts [(''field'', Text field)])
             ''Omit `{field}` to use the node's default; `0` is not 'unlimited'.'' ''latiq://guidance'')
      else None)\<close>

section \<open>Who is calling\<close>

definition AGENT_ID_HEADER :: string where
  "AGENT_ID_HEADER = ''latiq-agent-id''"

definition TRACEPARENT_HEADER :: string where
  "TRACEPARENT_HEADER = ''traceparent''"

definition PROTECTED_RESOURCE_PATH :: string where
  "PROTECTED_RESOURCE_PATH = ''/.well-known/oauth-protected-resource''"

record VerifiedCaller =
  vc_identity :: Identity
  vc_token :: string

text \<open>A request: its path, the headers that are readable text, and what the layer left for the
  handler. \<open>cx_parts\<close> is absent on the event stream.\<close>

record http_parts =
  hp_path :: string
  hp_headers :: metadata
  hp_caller :: "VerifiedCaller option"

record RequestContext =
  cx_parts :: "http_parts option"

record LatiqServer =
  ls_ops :: AgentOps
  ls_verifier :: "token_check option"

definition latiq_server_new :: "AgentOps \<Rightarrow> LatiqServer" where
  "latiq_server_new ops = \<lparr>ls_ops = ops, ls_verifier = None\<rparr>"

definition server_with_verifier :: "LatiqServer \<Rightarrow> token_check option \<Rightarrow> LatiqServer" where
  "server_with_verifier srv v = srv\<lparr>ls_verifier := v\<rparr>"

datatype McpError = InvalidRequest string | InvalidParams string | ResourceNotFound string

definition cx_header :: "RequestContext \<Rightarrow> string \<Rightarrow> string option" where
  "cx_header cx k = Option.bind (cx_parts cx) (\<lambda>p. hp_headers p k)"

definition mcp_identity :: "LatiqServer \<Rightarrow> RequestContext \<Rightarrow> (McpError, Identity \<times> string option) result" where
  "mcp_identity srv cx =
     (case ls_verifier srv of
        None \<Rightarrow> Ok (identity_claimed (cx_header cx AGENT_ID_HEADER), None)
      | Some _ \<Rightarrow>
          (case Option.bind (cx_parts cx) hp_caller of
             Some c \<Rightarrow> Ok (vc_identity c, Some (vc_token c))
           | None \<Rightarrow> Err (InvalidRequest ''a bearer token is required'')))"

definition mcp_trace_of :: "node_env \<Rightarrow> RequestContext \<Rightarrow> TraceContext" where
  "mcp_trace_of ne cx = trace_inbound (ne_uuid1 ne) (ne_uuid2 ne) (cx_header cx TRACEPARENT_HEADER)"

datatype 'r http_answer = Unauthorized "string option" | Document ProtectedResourceMetadata | Service 'r | NotRouted

definition http_unauthorized :: "rpc_lib \<Rightarrow> string \<Rightarrow> 'r http_answer" where
  "http_unauthorized lib chal = Unauthorized (carry lib chal)"

definition verify_bearer :: "rpc_lib \<Rightarrow> token_check \<Rightarrow> string \<Rightarrow> http_parts \<Rightarrow> (http_parts \<Rightarrow> 'r http_answer) \<Rightarrow> 'r http_answer" where
  "verify_bearer lib check chal req next =
     (if hp_path req = PROTECTED_RESOURCE_PATH then next req
      else (let claimed = hp_headers req AGENT_ID_HEADER
            in case Option.bind (hp_headers req ''authorization'') bearer of
                 None \<Rightarrow> http_unauthorized lib chal
               | Some tok \<Rightarrow>
                   (case check tok claimed of
                      Inr ident \<Rightarrow> next (req\<lparr>hp_caller := Some \<lparr>vc_identity = ident, vc_token = tok\<rparr>\<rparr>)
                    | Inl e \<Rightarrow> http_unauthorized lib chal)))"

section \<open>The tools\<close>

type_synonym tool_answer = "(McpError, CallToolResult) result \<times> node_event list"

text \<open>Every tool: the identity, then the body under the request's trace and token.\<close>

definition mcp_traced :: "LatiqServer \<Rightarrow> node_env \<Rightarrow> RequestContext \<Rightarrow> (world \<Rightarrow> Identity \<Rightarrow> CallToolResult \<times> node_event list) \<Rightarrow> tool_answer" where
  "mcp_traced srv ne cx body =
     (case mcp_identity srv cx of
        Inl e \<Rightarrow> (Err e, [])
      | Inr (ident, tok) \<Rightarrow>
          (let r = body (in_scope ne (mcp_trace_of ne cx) tok) ident in (Ok (fst r), snd r)))"

text \<open>\<open>match op { Ok(r) => ok(...), Err(e) => err_envelope(e.envelope()) }\<close>.\<close>

definition answered :: "node_env \<Rightarrow> world \<Rightarrow> ('a \<Rightarrow> CallToolResult) \<Rightarrow> 'a act \<Rightarrow> CallToolResult \<times> node_event list" where
  "answered ne w k m = ((case fst m of Inr x \<Rightarrow> k x | Inl e \<Rightarrow> err_envelope (ne_lib ne) w e), snd m)"

definition tool_body :: "node_env \<Rightarrow> world \<Rightarrow> ('a \<Rightarrow> Value) \<Rightarrow> 'a act \<Rightarrow> CallToolResult \<times> node_event list" where
  "tool_body ne w enc m = answered ne w (\<lambda>x. tool_ok (ne_lib ne) w (enc x)) m"

definition mcp_allocate_pond :: "LatiqServer \<Rightarrow> node_env \<Rightarrow> RequestContext \<Rightarrow> AllocateArgs \<Rightarrow> tool_answer" where
  \<open>mcp_allocate_pond srv ne cx a = mcp_traced srv ne cx (\<lambda>w ident.
     let tr = (case aa_tier a of Some t \<Rightarrow> t | None \<Rightarrow> ''medium'') in
     case (case aa_name a of None \<Rightarrow> Ok () | Some n \<Rightarrow> pond_name_validate n) of
       Inl bad \<Rightarrow> (err_envelope (ne_lib ne) w (envelope_new InvalidValue (reason_text bad)
           (''Retry with a name of letters, digits, `_` or `-`, or omit `name` and use the one Latiq generates.'')
           ''latiq://guidance''), [])
     | Inr _ \<Rightarrow>
         (case ext_validate (case aa_extensions a of Some es \<Rightarrow> es | None \<Rightarrow> []) of
            Inl bad \<Rightarrow> (err_envelope (ne_lib ne) w (unsupported_extension (reason_text bad)), [])
          | Inr exts \<Rightarrow> tool_body ne w allocate_json
              (allocate_pond w ident (aa_name a) ''{}'' tr exts (case aa_lineage a of Some l \<Rightarrow> l | None \<Rightarrow> False))))\<close>

definition mcp_describe_pond :: "LatiqServer \<Rightarrow> node_env \<Rightarrow> RequestContext \<Rightarrow> string \<Rightarrow> tool_answer" where
  "mcp_describe_pond srv ne cx pond = mcp_traced srv ne cx (\<lambda>w ident.
     tool_body ne w (describe_json (stamp_text (ne_lib ne))) (describe_pond w (ls_ops srv) ident pond))"

definition mcp_list_ponds :: "LatiqServer \<Rightarrow> node_env \<Rightarrow> RequestContext \<Rightarrow> tool_answer" where
  "mcp_list_ponds srv ne cx = mcp_traced srv ne cx (\<lambda>w ident.
     tool_body ne w (list_ponds_json (stamp_text (ne_lib ne))) (list_ponds_op w ident))"

definition mcp_drop_pond :: "LatiqServer \<Rightarrow> node_env \<Rightarrow> RequestContext \<Rightarrow> DropArgs \<Rightarrow> tool_answer" where
  "mcp_drop_pond srv ne cx a = mcp_traced srv ne cx (\<lambda>w ident.
     tool_body ne w (\<lambda>_. drop_pond_json ''dropped'' (da_pond a))
       (drop_pond_op w (ls_ops srv) ident (da_pond a) (case da_confirm a of Some c \<Rightarrow> c | None \<Rightarrow> False)))"

text \<open>The two statements: a zero timeout is refused inside the scope, before the operation.\<close>

definition mcp_statement :: "LatiqServer \<Rightarrow> node_env \<Rightarrow> RequestContext \<Rightarrow> string \<Rightarrow> QueryArgs
    \<Rightarrow> (world \<Rightarrow> Identity \<Rightarrow> QueryResult act) \<Rightarrow> tool_answer" where
  "mcp_statement srv ne cx name a run = mcp_traced srv ne cx (\<lambda>w ident.
     case reject_zero ''timeout_ms'' (qa_timeout_ms a) of
       Some refusal \<Rightarrow> (err_envelope (ne_lib ne) w refusal, [])
     | None \<Rightarrow> answered ne w (ok_query (ne_lib ne) w name) (run w ident))"

definition mcp_read_query :: "LatiqServer \<Rightarrow> node_env \<Rightarrow> RequestContext \<Rightarrow> QueryArgs \<Rightarrow> tool_answer" where
  "mcp_read_query srv ne cx a = mcp_statement srv ne cx ''read_query'' a
     (\<lambda>w ident. read_collected w (ls_ops srv) ident (qa_pond a) (qa_sql a) (query_controls a))"

definition mcp_write_query :: "LatiqServer \<Rightarrow> node_env \<Rightarrow> RequestContext \<Rightarrow> QueryArgs \<Rightarrow> tool_answer" where
  "mcp_write_query srv ne cx a = mcp_statement srv ne cx ''write_query'' a
     (\<lambda>w ident. run_query w (ls_ops srv) (qa_pond a) (qa_sql a) ident True (query_controls a))"

definition mcp_explain_query :: "LatiqServer \<Rightarrow> node_env \<Rightarrow> RequestContext \<Rightarrow> string \<times> string \<Rightarrow> tool_answer" where
  "mcp_explain_query srv ne cx a = mcp_traced srv ne cx (\<lambda>w ident.
     answered ne w (ok_explain (ne_lib ne) w) (explain_query w (ls_ops srv) ident (fst a) (snd a)))"

definition mcp_list_datasets :: "LatiqServer \<Rightarrow> node_env \<Rightarrow> RequestContext \<Rightarrow> string option \<Rightarrow> tool_answer" where
  "mcp_list_datasets srv ne cx q = mcp_traced srv ne cx (\<lambda>w ident.
     tool_body ne w (list_datasets_json (stamp_text (ne_lib ne))) (list_datasets_op w (case q of Some s \<Rightarrow> s | None \<Rightarrow> [])))"

definition mcp_load_dataset :: "LatiqServer \<Rightarrow> node_env \<Rightarrow> RequestContext \<Rightarrow> string \<times> string \<Rightarrow> tool_answer" where
  "mcp_load_dataset srv ne cx a = mcp_traced srv ne cx (\<lambda>w ident.
     tool_body ne w load_json (load_dataset w (ls_ops srv) ident (fst a) (snd a)))"

definition mcp_list_catalogs :: "LatiqServer \<Rightarrow> node_env \<Rightarrow> RequestContext \<Rightarrow> string option \<Rightarrow> tool_answer" where
  "mcp_list_catalogs srv ne cx q = mcp_traced srv ne cx (\<lambda>w ident.
     tool_body ne w (list_catalogs_json (stamp_text (ne_lib ne))) (list_catalogs_op w (case q of Some s \<Rightarrow> s | None \<Rightarrow> [])))"

definition set_params :: "(string \<times> string) list option \<Rightarrow> params" where
  "set_params s = bt_extend [] (case s of Some kvs \<Rightarrow> kvs | None \<Rightarrow> [])"

definition mcp_describe_catalog :: "LatiqServer \<Rightarrow> node_env \<Rightarrow> RequestContext \<Rightarrow> CatalogDescribeArgs \<Rightarrow> tool_answer" where
  "mcp_describe_catalog srv ne cx a = mcp_traced srv ne cx (\<lambda>w ident.
     tool_body ne w (catalog_tables_json (cda_catalog a))
       (catalog_describe w (ls_ops srv) ident (cda_pond a) (cda_catalog a) (set_params (cda_set a))))"

definition mcp_pull_catalog :: "LatiqServer \<Rightarrow> node_env \<Rightarrow> RequestContext \<Rightarrow> CatalogPullArgs \<Rightarrow> tool_answer" where
  "mcp_pull_catalog srv ne cx a = mcp_traced srv ne cx (\<lambda>w ident.
     tool_body ne w pull_json
       (catalog_pull w (ls_ops srv) ident (cpa_pond a) (cpa_catalog a) (cpa_query a) (set_params (cpa_set a))))"

definition DEFAULT_LINEAGE_LIMIT :: "32 word" where
  "DEFAULT_LINEAGE_LIMIT = 50"

definition mcp_get_lineage :: "LatiqServer \<Rightarrow> node_env \<Rightarrow> RequestContext \<Rightarrow> LineageArgs \<Rightarrow> tool_answer" where
  "mcp_get_lineage srv ne cx a = mcp_traced srv ne cx (\<lambda>w ident.
     tool_body ne w lineage_page_json
       (get_lineage w (ls_ops srv) ident (la_pond a) (unat (case la_limit a of Some n \<Rightarrow> n | None \<Rightarrow> DEFAULT_LINEAGE_LIMIT))
          (la_since a) (la_before a)))"

text \<open>The router: a call by name, its arguments decoded first.\<close>

definition with_args :: "node_env \<Rightarrow> (Value \<Rightarrow> 'a option) \<Rightarrow> Value \<Rightarrow> ('a \<Rightarrow> tool_answer) \<Rightarrow> tool_answer" where
  "with_args ne dec args k = (case dec args of Some a \<Rightarrow> k a | None \<Rightarrow> (Err (InvalidParams (shape_error (ne_lib ne) args)), []))"

definition call_tool :: "LatiqServer \<Rightarrow> node_env \<Rightarrow> RequestContext \<Rightarrow> string \<Rightarrow> Value \<Rightarrow> tool_answer" where
  "call_tool srv ne cx name args =
     (if name = ''allocate_pond'' then with_args ne allocate_args_from args (mcp_allocate_pond srv ne cx)
      else if name = ''describe_pond'' then with_args ne pond_ref_args_from args (mcp_describe_pond srv ne cx)
      else if name = ''list_ponds'' then mcp_list_ponds srv ne cx
      else if name = ''drop_pond'' then with_args ne drop_args_from args (mcp_drop_pond srv ne cx)
      else if name = ''read_query'' then with_args ne query_args_from args (mcp_read_query srv ne cx)
      else if name = ''write_query'' then with_args ne query_args_from args (mcp_write_query srv ne cx)
      else if name = ''explain_query'' then with_args ne explain_args_from args (mcp_explain_query srv ne cx)
      else if name = ''list_datasets'' then with_args ne search_args_from args (mcp_list_datasets srv ne cx)
      else if name = ''load_dataset'' then with_args ne load_args_from args (mcp_load_dataset srv ne cx)
      else if name = ''list_catalogs'' then with_args ne search_args_from args (mcp_list_catalogs srv ne cx)
      else if name = ''describe_catalog'' then with_args ne catalog_describe_args_from args (mcp_describe_catalog srv ne cx)
      else if name = ''pull_catalog'' then with_args ne catalog_pull_args_from args (mcp_pull_catalog srv ne cx)
      else if name = ''get_lineage'' then with_args ne lineage_args_from args (mcp_get_lineage srv ne cx)
      else (Err (InvalidParams ''tool not found''), []))"

text \<open>The tools behind a request, with the server the surface hands each session.\<close>

definition tool_service :: "LatiqServer \<Rightarrow> token_check option \<Rightarrow> node_env \<Rightarrow> string \<Rightarrow> Value \<Rightarrow> http_parts \<Rightarrow> tool_answer" where
  "tool_service srv ver ne name args p = call_tool (server_with_verifier srv ver) ne \<lparr>cx_parts = Some p\<rparr> name args"

section \<open>Addresses\<close>

record 'u url_lib =
  ul_parse :: "string \<Rightarrow> (string, 'u) result"
  ul_host :: "'u \<Rightarrow> string option"
  ul_set_port :: "'u \<Rightarrow> 16 word \<Rightarrow> 'u option"
  ul_set_path :: "'u \<Rightarrow> string \<Rightarrow> 'u"
  ul_text :: "'u \<Rightarrow> string"

text \<open>A bound socket: its printed form and its port.\<close>

record SocketAddr =
  sa_text :: string
  sa_port :: "16 word"

definition advertised_mcp_url :: "'u url_lib \<Rightarrow> string \<Rightarrow> SocketAddr \<Rightarrow> string option" where
  "advertised_mcp_url ul endpoint addr =
     (case ul_parse ul endpoint of
        Inl _ \<Rightarrow> None
      | Inr u \<Rightarrow> map_option (\<lambda>v. ul_text ul (ul_set_path ul v ''/mcp'')) (ul_set_port ul u (sa_port addr)))"

text \<open>The refusals of a configured address, with the address they quote.\<close>

datatype public_url_error = NotAbsolute string string | NoHost string

definition resolve_public_mcp_url :: "'u url_lib \<Rightarrow> string option \<Rightarrow> string \<Rightarrow> SocketAddr \<Rightarrow> (public_url_error, string) result" where
  "resolve_public_mcp_url ul public endpoint addr =
     (case public of
        Some configured \<Rightarrow>
          (case ul_parse ul configured of
             Inl e \<Rightarrow> Err (NotAbsolute configured e)
           | Inr u \<Rightarrow> if ul_host ul u = None then Err (NoHost configured) else Ok configured)
      | None \<Rightarrow>
          Ok (case advertised_mcp_url ul endpoint addr of Some u \<Rightarrow> u | None \<Rightarrow> ''http://'' @ sa_text addr @ ''/mcp''))"

definition public_url_host :: "'u url_lib \<Rightarrow> string \<Rightarrow> string option" where
  "public_url_host ul url = (case ul_parse ul url of Inl _ \<Rightarrow> None | Inr u \<Rightarrow> ul_host ul u)"

definition mcp_allowed_hosts :: "'u url_lib \<Rightarrow> string option \<Rightarrow> string list" where
  "mcp_allowed_hosts ul url =
     (let hosts = [''localhost'', ''127.0.0.1'', ''::1'']
      in case Option.bind url (public_url_host ul) of
           None \<Rightarrow> hosts
         | Some h \<Rightarrow> if h \<in> set hosts then hosts else hosts @ [h])"

definition strip_suffix :: "string \<Rightarrow> string \<Rightarrow> string option" where
  "strip_suffix s p = (if ends_with s p then Some (take (length s - length p) s) else None)"

definition protected_resource_metadata_url :: "string \<Rightarrow> string" where
  "protected_resource_metadata_url resource =
     (case strip_suffix resource ''/mcp'' of Some r \<Rightarrow> r | None \<Rightarrow> resource) @ PROTECTED_RESOURCE_PATH"

section \<open>The surface\<close>

text \<open>The routes \<open>axum\<close> is given: the service nested at \<open>/mcp\<close>, and with a verifier the metadata
  document, every request passing through the layer first.\<close>

definition under_mcp :: "string \<Rightarrow> bool" where
  "under_mcp path \<longleftrightarrow> path = ''/mcp'' \<or> starts_with path ''/mcp/''"

definition mcp_routes :: "ProtectedResourceMetadata option \<Rightarrow> (http_parts \<Rightarrow> 'r) \<Rightarrow> http_parts \<Rightarrow> 'r http_answer" where
  "mcp_routes doc service req =
     (if under_mcp (hp_path req) then Service (service req)
      else if hp_path req = PROTECTED_RESOURCE_PATH then (case doc of Some d \<Rightarrow> Document d | None \<Rightarrow> NotRouted)
      else NotRouted)"

definition mcp_resource :: "SocketAddr \<Rightarrow> string option \<Rightarrow> string" where
  "mcp_resource local public = (case public of Some u \<Rightarrow> u | None \<Rightarrow> ''http://'' @ sa_text local @ ''/mcp'')"

definition mcp_challenge :: "SocketAddr \<Rightarrow> string option \<Rightarrow> string" where
  "mcp_challenge local public = challenge_header (protected_resource_metadata_url (mcp_resource local public))"

definition serve_mcp :: "rpc_lib \<Rightarrow> SocketAddr \<Rightarrow> (token_check \<times> AuthConfig) option \<Rightarrow> string option \<Rightarrow> (http_parts \<Rightarrow> 'r)
    \<Rightarrow> http_parts \<Rightarrow> 'r http_answer" where
  "serve_mcp lib local ver public service req =
     (case ver of
        None \<Rightarrow> mcp_routes None service req
      | Some (check, cfg) \<Rightarrow>
          verify_bearer lib check (mcp_challenge local public) req
            (mcp_routes (Some (metadata_new (mcp_resource local public) (map ic_issuer (ac_issuers cfg)))) service))"

end
