(* ===== verification/Mcp_Docs.thy ===== *)
theory Mcp_Docs
  imports Mcp_Server
begin

text \<open>
  What the MCP surface tells an agent (\<open>latiq-mcp/src/resources.rs\<close>): its pages, the section of the
  dialect page generated from the extension table, and the prompts. The bodies of the other pages
  are prose; a page is known here by its address. As in the other texts of this development an em
  dash is written \<open>--\<close>, an arrow \<open>->\<close> and an ellipsis \<open>...\<close>.
\<close>

section \<open>Pages\<close>

record Res =
  res_uri :: string
  res_name :: string
  res_desc :: string

definition RESOURCES :: "Res list" where
  \<open>RESOURCES =
     [\<lparr>res_uri = ''latiq://guidance'', res_name = ''Latiq guidance'', res_desc = ''Top-level guidance for working in a pond''\<rparr>,
      \<lparr>res_uri = ''latiq://dialect'', res_name = ''SQL dialect'', res_desc = ''What a pond can read and reach, and the SQL contract Latiq exposes''\<rparr>,
      \<lparr>res_uri = ''latiq://recipes/schema-design'', res_name = ''Recipe: schema design'', res_desc = ''Authoring tables other agents can collaborate on''\<rparr>,
      \<lparr>res_uri = ''latiq://recipes/large-results'', res_name = ''Recipe: large results'', res_desc = ''Handling results larger than the inline cap''\<rparr>,
      \<lparr>res_uri = ''latiq://recipes/data-ingestion-m1'', res_name = ''Recipe: data ingestion'', res_desc = ''Loading data into a pond with SQL''\<rparr>,
      \<lparr>res_uri = ''latiq://recipes/external-data'', res_name = ''Recipe: external data (datasets & catalogs)'', res_desc = ''Bring outside data into a pond -- curated files or external catalogs''\<rparr>,
      \<lparr>res_uri = ''latiq://recipes/attribution-lookup'', res_name = ''Recipe: attribution lookup'', res_desc = ''Who wrote what in a pond''\<rparr>,
      \<lparr>res_uri = ''latiq://recipes/lineage'', res_name = ''Recipe: lineage lookup'', res_desc = ''Where a table came from -- the pond's OpenLineage trail''\<rparr>,
      \<lparr>res_uri = ''latiq://datasets'', res_name = ''Datasets'', res_desc = ''The curated public files this deployment can load into a pond''\<rparr>,
      \<lparr>res_uri = ''latiq://troubleshooting'', res_name = ''Troubleshooting index'', res_desc = ''Problem-keyed recovery guides''\<rparr>,
      \<lparr>res_uri = ''latiq://troubleshooting/catalog-error'', res_name = ''Troubleshooting: catalog error'', res_desc = ''A name in your SQL doesn't resolve -- or already exists''\<rparr>,
      \<lparr>res_uri = ''latiq://troubleshooting/source-unavailable'', res_name = ''Troubleshooting: source unavailable'', res_desc = ''A URL or path in your SQL could not be read''\<rparr>,
      \<lparr>res_uri = ''latiq://troubleshooting/pond-not-found'', res_name = ''Troubleshooting: pond not found'', res_desc = ''Recover from a missing pond''\<rparr>,
      \<lparr>res_uri = ''latiq://troubleshooting/pond-unavailable'', res_name = ''Troubleshooting: pond unavailable'', res_desc = ''The pond exists but no node is serving it''\<rparr>,
      \<lparr>res_uri = ''latiq://troubleshooting/large-results'', res_name = ''Troubleshooting: large results'', res_desc = ''Results exceeded the inline cap''\<rparr>,
      \<lparr>res_uri = ''latiq://troubleshooting/timeouts'', res_name = ''Troubleshooting: timeouts'', res_desc = ''Break up slow queries''\<rparr>,
      \<lparr>res_uri = ''latiq://troubleshooting/conflicts'', res_name = ''Troubleshooting: write conflicts'', res_desc = ''Concurrent writes that conflict''\<rparr>,
      \<lparr>res_uri = ''latiq://troubleshooting/unauthenticated'', res_name = ''Troubleshooting: unauthenticated'', res_desc = ''Your token was missing, expired or rejected''\<rparr>,
      \<lparr>res_uri = ''latiq://troubleshooting/capability-unavailable'', res_name = ''Troubleshooting: capability unavailable'', res_desc = ''Your call was correct; this deployment is missing something it needs''\<rparr>,
      \<lparr>res_uri = ''latiq://troubleshooting/internal'', res_name = ''Troubleshooting: internal / storage failure'', res_desc = ''Latiq itself failed -- what is and isn't yours to fix''\<rparr>,
      \<lparr>res_uri = ''latiq://troubleshooting/read-only-violation'', res_name = ''Troubleshooting: read-only violation'', res_desc = ''A write was sent to read_query''\<rparr>]\<close>

definition read_resource :: "string \<Rightarrow> Res option" where
  "read_resource uri = List.find (\<lambda>r. res_uri r = uri) RESOURCES"

definition read_resource_rpc :: "string \<Rightarrow> (McpError, Res) result" where
  "read_resource_rpc uri = (case read_resource uri of Some r \<Rightarrow> Ok r | None \<Rightarrow> Err (ResourceNotFound (''unknown resource: '' @ uri)))"

section \<open>The dialect page's generated section\<close>

fun bucket_title :: "Bucket \<Rightarrow> string" where
  "bucket_title BCatalog = ''Catalogs it can reach''"
| "bucket_title BTransport = ''Where the bytes can live''"
| "bucket_title BFormat = ''Formats it can read''"
| "bucket_title BEngine = ''What the engine can compute''"

text \<open>The column \<open>what\<close> of the extension table, by extension.\<close>

definition ext_what :: "(string \<times> string) list" where
  \<open>ext_what =
     [(''ducklake'', ''the pond's own storage format, and other DuckLake catalogs''),
      (''iceberg'', ''Apache Iceberg tables via a REST catalog (pull_catalog)''),
      (''httpfs'', ''http(s):// URLs and s3:// object storage, read straight from SQL''),
      (''parquet'', ''Parquet files (statically linked; always present)''),
      (''json'', ''JSON and newline-delimited JSON (statically linked)''),
      (''spatial'', ''geospatial: GeoJSON/Shapefile/GeoPackage and the ST_* functions''),
      (''icu'', ''time zones (TIMESTAMPTZ arithmetic) and Unicode collations''),
      (''fts'', ''full-text search: BM25 ranking over a text column''),
      (''inet'', ''the INET type: IP addresses and CIDR containment'')]\<close>

text \<open>How an agent gets an extension.\<close>

datatype availability = AskAtAllocation | ViaPullCatalog | AlwaysLoaded

definition ext_availability :: "Ext \<Rightarrow> availability" where
  "ext_availability e =
     (if ext_name e \<in> set OPTIONAL then AskAtAllocation
      else if ext_name e \<in> set CATALOG_DRIVEN then ViaPullCatalog
      else AlwaysLoaded)"

definition availability_text :: "Ext \<Rightarrow> string" where
  \<open>availability_text e =
     (case ext_availability e of
        AskAtAllocation \<Rightarrow> '' *(ask at allocation: `extensions: ["'' @ ext_name e @ ''"]`)*''
      | ViaPullCatalog \<Rightarrow> '' *(via list_catalogs -> describe_catalog -> pull_catalog)*''
      | AlwaysLoaded \<Rightarrow> '' *(always loaded)*'')\<close>

definition ext_line :: "Ext \<Rightarrow> string" where
  "ext_line e = ''- `'' @ ext_name e @ ''` -- '' @ (case map_of ext_what (ext_name e) of Some t \<Rightarrow> t | None \<Rightarrow> [])
     @ availability_text e @ [newline]"

definition bucket_section :: "Bucket \<Rightarrow> string" where
  "bucket_section b = ''**'' @ bucket_title b @ ''**'' @ [newline] @ concat (map ext_line (in_bucket b)) @ [newline]"

definition capabilities :: string where
  \<open>capabilities =
     ''## What this pond can already read and reach'' @ [newline, newline] @
     ''No operator step and no install: this is what a Latiq deployment ships with. '' @
     ''**CSV** is DuckDB's own core reader (`read_csv`) and is always available -- everything '' @
     ''below is an extension we ship. Three states, and the difference is what YOU have to do: '' @
     ''*always loaded* is simply there; *ask at allocation* has to be requested in '' @
     ''`allocate_pond { extensions: [...] }` and **cannot be added to a pond that already '' @
     ''exists**, so decide before you allocate; *via `pull_catalog`* is reached through the '' @
     ''catalog tools, not by requesting an extension.'' @ [newline, newline] @
     concat (map bucket_section Bucket_ALL) @
     ''Read a remote file straight from SQL -- `SELECT * FROM '' @
     ''read_csv('https://.../x.csv')`, `... FROM 's3://bucket/x.parquet'` -- or bring it in with '' @
     ''load_dataset / pull_catalog. See latiq://recipes/data-ingestion-m1 and '' @
     ''latiq://recipes/external-data.'' @ [newline, newline]\<close>

section \<open>Prompts\<close>

text \<open>A prompt with its arguments: name, description, required.\<close>

record PromptDef =
  prompt_name :: string
  prompt_desc :: string
  prompt_args :: "(string \<times> string \<times> bool) list"

definition PROMPTS :: "PromptDef list" where
  \<open>PROMPTS =
     [\<lparr>prompt_name = ''setup_multi_agent_pond'',
       prompt_desc = ''Workflow to set up a pond for several agents to collaborate in'',
       prompt_args = [(''pond_name'', ''Name for the new pond, e.g. 'incident-7'.'', True),
         (''domain'', ''What the pond is for, e.g. 'incident triage'. Defaults to 'the task'.'', False)]\<rparr>,
      \<lparr>prompt_name = ''discover_existing_pond'',
       prompt_desc = ''Workflow to find and join an existing pond'',
       prompt_args = [(''search_term'', ''What the pond would be about -- matched against pond names, e.g. 'incident'.'', True),
         (''intent'', [apos] @ ''read' to consume what is there, 'extend' to add tables. Defaults to 'read'.'', False)]\<rparr>,
      \<lparr>prompt_name = ''design_collaborative_schema'',
       prompt_desc = ''Workflow to design tables other agents can read and extend'',
       prompt_args = [(''domain'', ''What the tables describe, e.g. 'security incidents'.'', True)]\<rparr>,
      \<lparr>prompt_name = ''recover_from_conflict'',
       prompt_desc = ''Workflow to re-plan a write after another agent's write landed first'',
       prompt_args = [(''pond_name'', ''The pond you were writing to. Its NAME, not its id: the DuckLake catalog is '' @
         ''attached under the pond name, so that is what ducklake_snapshots() takes.'', True)]\<rparr>]\<close>

datatype PromptError = UnknownPrompt | MissingPromptArgument string string

type_synonym arg_map = "(string, Value) btree"

definition given :: "arg_map \<Rightarrow> string \<Rightarrow> string option" where
  "given args k = Option.bind (map_option trim (Option.bind (map_of args k) as_str)) non_empty"

definition prompt_arg :: "arg_map \<Rightarrow> string \<Rightarrow> string \<Rightarrow> string" where
  "prompt_arg args k d = (case given args k of Some v \<Rightarrow> v | None \<Rightarrow> d)"

definition required_arg :: "PromptDef \<Rightarrow> arg_map \<Rightarrow> string \<Rightarrow> (PromptError, string) result" where
  "required_arg def args k =
     (case given args k of Some v \<Rightarrow> Ok v | None \<Rightarrow> Err (MissingPromptArgument (prompt_name def) k))"

text \<open>The four texts; \<open>format!\<close> with named places is the renderer of templates.\<close>

definition setup_template :: string where
  \<open>setup_template = join [newline]
     [''Set up a pond named '{pond}' for {domain} where several agents will collaborate:'',
       ''1. allocate_pond with name='{pond}'.'',
       ''2. Design a self-describing schema: CREATE TABLE, then `COMMENT ON TABLE`/`COMMENT ON COLUMN` for '' @
        ''each one -- a `--` comment in the DDL is discarded and stores nothing. See '' @
        ''latiq://recipes/schema-design.'',
       ''3. Establish an attribution-lookup habit: agents read `ducklake_snapshots('{pond}')` to see who '' @
        ''wrote what -- and none of them wrap SQL in BEGIN/COMMIT/ROLLBACK, which ends Latiq's own transaction '' @
        ''early and leaves the write with no author.'',
       ''4. Coordinate writes; conflicts auto-retry (latiq://troubleshooting/conflicts).'']\<close>

definition discover_template :: string where
  \<open>discover_template = join [newline]
     [''Find an existing pond related to '{term}' (intent: {intent}):'',
       ''1. list_ponds and scan names/owners.'',
       ''2. describe_pond on candidates to inspect tables.'',
       ''3. read_query `SHOW TABLES` and `DESCRIBE <table>` for the shape, and `SELECT column_name, comment '' @
        ''FROM duckdb_columns() WHERE table_name='<table>'` for what the author meant by each column.'',
       ''4. For intent=extend: add new tables without colliding with existing ones, and COMMENT ON them as '' @
        ''you go.'']\<close>

definition design_template :: string where
  \<open>design_template = join [newline]
     [''Design a schema for {domain} that other agents can read and extend:'',
       ''- Use clear, ANSI types; name tables/columns for cross-agent legibility.'',
       ''- Document every table and column with a `COMMENT ON TABLE`/`COMMENT ON COLUMN` statement after the '' @
        ''CREATE. Those are stored and readable (`SELECT column_name, comment FROM duckdb_columns()`); a `--` '' @
        ''comment inside the CREATE is not stored at all.'',
       ''- Prefer additive evolution; don't rename columns others may depend on.'',
       ''See latiq://recipes/schema-design.'']\<close>

definition recover_template :: string where
  \<open>recover_template = join [newline]
     [''Re-plan a write in pond '{pond}' after another agent's write landed first.'',
       [],
       ''WHEN THIS APPLIES: there is no `write_conflict` error kind and nothing routes you here -- Latiq '' @
        ''retries conflicting writes for you against the latest snapshot. Use this when a write SUCCEEDED but '' @
        ''not against the state you assumed: your UPDATE matched no rows, an INSERT hit a duplicate key, or a '' @
        ''table changed shape under you. If you are holding a structured error instead, follow its `see` '' @
        ''link; this is not that.'',
       [],
       ''1. Re-read the current state: `SELECT max(snapshot_id) FROM ducklake_snapshots('{pond}')`.'',
       ''2. Identify who wrote last: `SELECT snapshot_id, author, commit_message FROM '' @
        ''ducklake_snapshots('{pond}') ORDER BY snapshot_id DESC LIMIT 5`.'',
       ''3. Re-read the rows you were changing, re-plan against what is actually there, and retry as plain '' @
        ''statements -- a hand-rolled BEGIN/COMMIT does not help and costs you the author on the write.'',
       ''See latiq://troubleshooting/conflicts.'']\<close>

definition fill :: "string \<Rightarrow> (string \<times> string) list \<Rightarrow> string" where
  "fill template kvs = render_facts template (facts (map (\<lambda>(k, v). (k, Text v)) kvs))"

definition prompt_text :: "PromptDef \<Rightarrow> string \<Rightarrow> arg_map \<Rightarrow> (PromptError, string) result" where
  "prompt_text def name args =
     (if name = ''setup_multi_agent_pond'' then
        map_ok (\<lambda>pond. fill setup_template [(''pond'', pond), (''domain'', prompt_arg args ''domain'' ''the task'')]) (required_arg def args ''pond_name'')
      else if name = ''discover_existing_pond'' then
        map_ok (\<lambda>trm. fill discover_template [(''term'', trm), (''intent'', prompt_arg args ''intent'' ''read'')]) (required_arg def args ''search_term'')
      else if name = ''design_collaborative_schema'' then
        map_ok (\<lambda>d. fill design_template [(''domain'', d)]) (required_arg def args ''domain'')
      else if name = ''recover_from_conflict'' then
        map_ok (\<lambda>pond. fill recover_template [(''pond'', pond)]) (required_arg def args ''pond_name'')
      else Err UnknownPrompt)"

definition get_prompt :: "string \<Rightarrow> arg_map \<Rightarrow> (PromptError, string) result" where
  "get_prompt name args =
     (case List.find (\<lambda>p. prompt_name p = name) PROMPTS of
        None \<Rightarrow> Err UnknownPrompt
      | Some def \<Rightarrow> prompt_text def name args)"

definition get_prompt_rpc :: "string \<Rightarrow> arg_map option \<Rightarrow> (McpError, string) result" where
  \<open>get_prompt_rpc name args =
     map_err (\<lambda>e. case e of
         UnknownPrompt \<Rightarrow> InvalidParams (''unknown prompt: '' @ name)
       | MissingPromptArgument p a \<Rightarrow> InvalidParams (''prompt '' @ p @ '' requires the argument '' @ [apos] @ a @ [apos] @
           '' -- it is declared as required in prompts/list; pass it a non-empty value''))
       (get_prompt name (case args of Some m \<Rightarrow> m | None \<Rightarrow> []))\<close>

end

