(* ===== verification/Node_Hop.thy ===== *)
theory Node_Hop
  imports Data_Service
begin

text \<open>
  What becomes of a call that is relayed: the caller's identity, the owner's error and its answer
  as the greeting node hands them on (\<open>forward_client.rs\<close>, \<open>data_service.rs\<close>, \<open>stream_service.rs\<close>).
\<close>

section \<open>The caller across a hop\<close>

lemma bearer_split: "split_once CHR '' '' (''Bearer '' @ t) = Some (''Bearer'', t)"
  by simp

lemma bearer_again:
  assumes "bearer h = Some t"
  shows "bearer (''Bearer '' @ t) = Some t"
proof -
  have "trim t = t" "t \<noteq> []" using assms by (auto simp: bearer_def split: option.splits prod.splits if_splits)
  moreover have "eq_ignore_ascii_case ''Bearer'' ''bearer''" by code_simp
  ultimately show ?thesis unfolding bearer_def bearer_split by simp
qed

lemma claimed_again: "identity_claimed (Some (agent_id (identity_claimed h))) = identity_claimed h"
  by (auto simp: identity_claimed_def claimed_leaf_def trim_id char_class_defs split: option.splits)

lemma verified_again:
  assumes "trim sub \<noteq> []"
  shows "identity_verified sub iss (Some (agent_id (identity_verified sub iss h))) = identity_verified sub iss h"
  using assms by (auto simp: identity_verified_def claimed_leaf_def split: option.splits)

lemma verify_with_key_again:
  assumes "verify_with_key lib aud iss alg key tok claimed = Ok ident"
  shows "verify_with_key lib aud iss alg key tok (Some (agent_id ident)) = Ok ident"
proof -
  obtain sub where "jwt_decode lib tok (sk_key key) (validation_for aud iss alg) = Ok sub"
    and "\<not> (case sk_alg key of Some declared \<Rightarrow> declared \<noteq> alg | None \<Rightarrow> False)" "trim (case sub of Some x \<Rightarrow> x | None \<Rightarrow> []) \<noteq> []"
    and "ident = identity_verified (trim (case sub of Some x \<Rightarrow> x | None \<Rightarrow> [])) iss claimed"
    using assms unfolding verify_with_key_def Let_def by (auto split: if_splits sum.splits)
  then show ?thesis using verified_again unfolding verify_with_key_def Let_def by simp
qed

lemma verify_via_key:
  assumes "verify lib key_for v raw claimed = Ok ident"
  obtains aud iss alg key where "verify lib key_for v raw = verify_with_key lib aud iss alg key (trim raw)"
proof -
  obtain h kid iss key where "trim raw \<noteq> []" "\<not> MAX_TOKEN_BYTES < length (trim raw)" "decode_header lib (trim raw) = Ok h"
    "jh_alg h \<in> set ALLOWED_ALGS" "jh_kid h = Some kid" "unverified_issuer lib (trim raw) = Ok iss" "iss \<in> set (map fst (vf_caches v))"
    "key_for iss kid = Ok key"
    using assms by (auto simp: verify_def Let_def split: if_splits sum.splits option.splits)
  then have "verify lib key_for v raw = verify_with_key lib (ac_audience (vf_cfg v)) iss (jh_alg h) key (trim raw)"
    by (intro ext) (simp add: verify_def Let_def)
  then show ?thesis by (rule that)
qed

lemma verify_again:
  assumes "verify lib key_for v tok claimed = Ok ident"
  shows "verify lib key_for v tok (Some (agent_id ident)) = Ok ident"
  using verify_via_key [OF assms] verify_with_key_again assms by metis

text \<open>A verifier on every node of the cluster: none, or one for the same issuers and keys.\<close>

definition same_trust :: "'k jwt_lib \<Rightarrow> (string \<Rightarrow> string \<Rightarrow> (AuthError, 'k SigningKey) result) \<Rightarrow> Verifier option \<Rightarrow> token_check option" where
  "same_trust jwt key_for v = map_option (verify jwt key_for) v"

lemma node_identity_again:
  assumes "fst (node_identity_of lib w (same_trust jwt key_for v) ch md op) = Ok (ident, tok)"
    and "carried lib (agent_id ident)" and "\<forall>t. tok = Some t \<longrightarrow> carried lib (''Bearer '' @ t)" and "sc_bearer sc = tok"
  shows "node_identity_of lib w2 (same_trust jwt key_for v) ch2 (with_identity lib sc ident) op2 = (Ok (ident, tok), [])"
proof (cases v)
  case None
  then show ?thesis using assms
    by (auto simp: node_identity_of_def same_trust_def with_identity_def carry_def claimed_again)
next
  case (Some vf)
  obtain t where t: "bearer_of md = Some t" "tok = Some t" "verify jwt key_for vf t (md ''latiq-agent-id'') = Ok ident"
    using assms(1) Some by (auto simp: node_identity_of_def same_trust_def Let_def split: option.splits sum.splits)
  have "bearer (''Bearer '' @ t) = Some t" using t(1) bearer_again by (auto simp: bearer_of_def bind_eq_Some_conv)
  then show ?thesis using assms t(2) verify_again [OF t(3)] Some
    by (simp add: node_identity_of_def same_trust_def with_identity_def bearer_of_def carry_def)
qed

section \<open>An error across a hop\<close>

text \<open>What \<open>serde_json\<close> promises: it reads back the value it printed.\<close>

definition text_keeps :: "rpc_lib \<Rightarrow> Value \<Rightarrow> bool" where
  "text_keeps lib v \<longleftrightarrow> from_text lib (to_text lib v) = Ok v \<and> to_text lib v \<noteq> []"

definition stamped_env :: "world \<Rightarrow> AgentError \<Rightarrow> AgentError" where
  "stamped_env w e = with_traceparent (with_trace_id e (w_trace_id w)) (w_traceparent w)"

definition error_keeps :: "rpc_lib \<Rightarrow> world \<Rightarrow> AgentError \<Rightarrow> bool" where
  "error_keeps lib w e \<longleftrightarrow> bt_wf (env_facts e) \<and> text_keeps lib (envelope_json (stamped_env w e))"

lemma status_of_error_back:
  assumes "error_keeps lib w e"
  shows "status_to_error lib peer pond (data_to_status lib w e) = stamped_env w e"
proof -
  have "bt_wf (env_facts (stamped_env w e))"
    using assms by (simp add: error_keeps_def stamped_env_def with_traceparent_def with_trace_id_def)
  from envelope_roundtrip [OF this] assms show ?thesis
    by (simp add: status_to_error_def data_to_status_def error_keeps_def text_keeps_def stamped_env_def envelope_of_details_def Let_def)
qed

section \<open>A stream across a hop\<close>

text \<open>The bytes a writer has produced for a schema and some batches.\<close>

inductive ipc_sent :: "ipc_lib \<Rightarrow> string list \<Rightarrow> RecordBatch list \<Rightarrow> string \<Rightarrow> bool" for ipc sch where
  opened: "ipc_open ipc sch = Ok bytes \<Longrightarrow> ipc_sent ipc sch [] bytes"
| wrote: "ipc_sent ipc sch sent bytes \<Longrightarrow> ipc_write ipc sch sent b = Ok x \<Longrightarrow> ipc_sent ipc sch (sent @ [b]) (bytes @ x)"

text \<open>What the Arrow library promises of them: the schema is known once its message has arrived, a
  batch comes out whole when its message has, and the end adds nothing.\<close>

definition ipc_faithful :: "ipc_lib \<Rightarrow> bool" where
  "ipc_faithful ipc \<longleftrightarrow>
     (\<forall>sch x. ipc_open ipc sch = Ok x \<longrightarrow> ipc_feed ipc [] x = ([], None))
   \<and> (\<forall>sch sent bytes. ipc_sent ipc sch sent bytes \<longrightarrow>
        ipc_known ipc bytes = Some sch
      \<and> (\<forall>b x. ipc_write ipc sch sent b = Ok x \<longrightarrow> ipc_feed ipc bytes x = ([b], None))
      \<and> (\<forall>x. ipc_finish ipc sch sent = Some x \<longrightarrow> ipc_feed ipc bytes x = ([], None)))"

fun until_error :: "('e, 'a) result list \<Rightarrow> ('e, 'a) result list" where
  "until_error [] = []"
| "until_error (Inr x # rs) = Inr x # until_error rs"
| "until_error (Inl e # rs) = [Inl e]"

lemma latest_nil [simp]: "latest x [] = x"
  by (simp add: latest_def)

lemma deliver_again [simp]: "deliver_schema (Some r) known by tp = Some r"
  by (simp add: deliver_schema_def)

lemma decode_encoded_batches:
  assumes "ipc_faithful ipc" "ipc_sent ipc sch sent bytes"
    and "\<forall>b \<in> {b. Inr b \<in> set rs}. \<forall>s. \<exists>x. ipc_write ipc sch s b = Ok x" and "\<forall>e \<in> {e. Inl e \<in> set rs}. error_keeps lib w e"
  shows "decode_chunks lib ipc peer pond by tp bytes (Some r) (encode_batches lib ipc w sch sent rs)
    = (Some r, until_error (map (map_err (stamped_env w)) rs))"
  using assms(2-)
proof (induction rs arbitrary: sent bytes rule: until_error.induct)
  case 1
  then have "\<And>x. ipc_finish ipc sch sent = Some x \<Longrightarrow> ipc_feed ipc bytes x = ([], None)"
    using assms(1) by (auto simp: ipc_faithful_def)
  then show ?case by (simp add: batch_chunk_def split: option.split)
next
  case (2 b rs)
  have "\<exists>x. ipc_write ipc sch sent b = Ok x" using "2.prems"(2) by simp
  then obtain x where x: "ipc_write ipc sch sent b = Ok x" ..
  have "ipc_feed ipc bytes x = ([b], None)" using assms(1) "2.prems"(1) x by (auto simp: ipc_faithful_def)
  with "2.IH" [OF wrote [OF "2.prems"(1) x]] "2.prems"(2,3) x show ?case by (simp add: batch_chunk_def)
next
  case (3 e rs)
  then show ?case by (simp add: report_error_def status_of_error_back)
qed

lemma stream_received:
  assumes "ipc_faithful ipc" "is_ok (ipc_open ipc (as_schema r))"
    and "\<forall>b \<in> {b. Inr b \<in> set (as_batches r)}. \<forall>s. \<exists>x. ipc_write ipc (as_schema r) s b = Ok x"
    and "\<forall>e \<in> {e. Inl e \<in> set (as_batches r)}. error_keeps lib w e"
  shows "received_stream (decode_arrow_stream lib ipc peer pond (encode_to_chunks lib ipc w r)) =
    Ok (r\<lparr>as_batches := until_error (map (map_err (stamped_env w)) (as_batches r)), as_meta := None\<rparr>)"
proof -
  obtain x where x: "ipc_open ipc (as_schema r) = Ok x" using assms(2) by (cases "ipc_open ipc (as_schema r)") auto
  have s: "ipc_sent ipc (as_schema r) [] x" using x by (rule opened)
  have "ipc_feed ipc [] x = ([], None)" "ipc_known ipc x = Some (as_schema r)"
    using assms(1) x s by (auto simp: ipc_faithful_def)
  then show ?thesis using decode_encoded_batches [OF assms(1) s assms(3,4)] x
    by (simp add: decode_arrow_stream_def encode_to_chunks_def latest_def deliver_schema_def received_stream_def)
qed

section \<open>A relayed call\<close>

lemma in_scope_sel [simp]:
  "w_pond_info (in_scope ne ctx tok) = w_pond_info (ne_world ne)"
  "w_trace_id (in_scope ne ctx tok) = Some (trace_id ctx)" "w_traceparent (in_scope ne ctx tok) = Some (traceparent ctx)"
  by (simp_all add: in_scope_def Let_def)

lemma data_to_status_cong: "stamped_env w e = stamped_env w' e' \<Longrightarrow> data_to_status lib w e = data_to_status lib w' e'"
  by (simp add: data_to_status_def stamped_env_def Let_def)

lemma stamped_again:
  assumes "w_trace_id w = w_trace_id w'" "w_traceparent w' \<noteq> None"
  shows "stamped_env w (stamped_env w' e) = stamped_env w' e"
  using assms by (auto simp: stamped_env_def with_traceparent_def with_trace_id_def)

lemma traced_eq:
  assumes "fst (node_identity_of (ne_lib ne) (ne_world ne) (ds_verifier svc) (ds_challenge svc) md op) = Ok (i, tok)"
  shows "fst (traced svc ne md op body k) =
    (let w = in_scope ne (request_trace (ne_uuid1 ne) (ne_uuid2 ne) md) tok
     in map_err (data_to_status (ne_lib ne) w) (map_ok (k w) (fst (body w i))))"
  using assms by (cases "node_identity_of (ne_lib ne) (ne_world ne) (ds_verifier svc) (ds_challenge svc) md op")
    (simp add: traced_def Let_def)

lemma unary_eq:
  assumes "fst (fwd_client connect (gf_clients gf) peer pond) = Ok c"
  shows "fst (unary lib connect gf peer pond call k) = (case call c of Inl s \<Rightarrow> Err (status_to_error lib peer pond s) | Inr resp \<Rightarrow> k resp)"
  using assms by (cases "fwd_client connect (gf_clients gf) peer pond") (simp add: unary_def)

text \<open>The metadata a call is relayed with, and the scope the peer runs it in.\<close>

definition relay_metadata :: "node_env \<Rightarrow> metadata \<Rightarrow> Identity \<Rightarrow> string option \<Rightarrow> metadata" where
  "relay_metadata ne md i tok = with_identity (ne_lib ne) (hop_scope (request_trace (ne_uuid1 ne) (ne_uuid2 ne) md) tok) i"

definition rpc_scope :: "node_env \<Rightarrow> metadata \<Rightarrow> string option \<Rightarrow> world" where
  "rpc_scope ne md tok = in_scope ne (request_trace (ne_uuid1 ne) (ne_uuid2 ne) md) tok"

lemma same_trace:
  assumes "trace_ok (request_trace (ne_uuid1 ne) (ne_uuid2 ne) md)"
    and "carried (ne_lib ne) (traceparent (request_trace (ne_uuid1 ne) (ne_uuid2 ne) md))"
  shows "w_trace_id (rpc_scope ne2 (relay_metadata ne md i tok) tok2) = w_trace_id (rpc_scope ne md tok)"
  using assms trace_parse_traceparent [OF assms(1), of "ne_uuid1 ne2"]
  by (simp add: rpc_scope_def relay_metadata_def with_identity_def hop_scope_def carry_def request_trace_def trace_inbound_def)

definition answer_keeps :: "('a \<Rightarrow> bool) \<Rightarrow> rpc_lib \<Rightarrow> world \<Rightarrow> 'a act \<Rightarrow> bool" where
  "answer_keeps fits lib w m \<longleftrightarrow> (case fst m of Inr x \<Rightarrow> fits x | Inl e \<Rightarrow> error_keeps lib w e)"

text \<open>
  A call that a node may relay: its handler wraps an operation of the node, the forwarder sends an
  equivalent request to the same handler of the owner, and its decoder undoes the handler's encoder
  on every answer that \<open>fits\<close>.
\<close>

locale relayed_rpc =
  fixes op :: string
    and pond :: "'q \<Rightarrow> string"
    and eligible :: "'q \<Rightarrow> bool"
    and run :: "world \<Rightarrow> AgentOps \<Rightarrow> Identity \<Rightarrow> 'q \<Rightarrow> 'a act"
    and handle :: "DataService \<Rightarrow> node_env \<Rightarrow> metadata \<Rightarrow> 'q \<Rightarrow> 'b served"
    and enc :: "rpc_lib \<Rightarrow> 'q \<Rightarrow> 'a \<Rightarrow> 'b"
    and call :: "node_rpc \<Rightarrow> metadata \<Rightarrow> 'q \<Rightarrow> (GrpcStatus, 'b) result"
    and dec :: "rpc_lib \<Rightarrow> 'b \<Rightarrow> (AgentError, 'a) result"
    and fits :: "rpc_lib \<Rightarrow> 'q \<Rightarrow> 'a \<Rightarrow> bool"
    and again :: "'q \<Rightarrow> 'q"
  assumes handle_eq: "handle svc ne md q = traced svc ne md op (\<lambda>w i. run w (ds_ops svc) i q) (\<lambda>_. enc (ne_lib ne) q)"
    and call_eq: "call (node_at svc ne) md q = fst (handle svc ne md q)"
    and again_eq: "eligible q \<Longrightarrow> handle svc ne md (again q) = handle svc ne md q"
    and relay_eq: "w_pond_info (ne_world ne) (pond q) = Ok info \<Longrightarrow> placement ag info = Forward p \<Longrightarrow> eligible q \<Longrightarrow>
      fst (run (in_scope ne ctx tok) ag i q) =
      fst (unary (ne_lib ne) (ne_connect ne) (ne_forwarder ne) p (pond q)
        (\<lambda>c. call c (with_identity (ne_lib ne) (hop_scope ctx tok) i) (again q)) (dec (ne_lib ne)))"
    and dec_enc: "fits lib q x \<Longrightarrow> \<exists>y. dec lib (enc lib q x) = Ok y \<and> enc lib q y = enc lib q x"
begin

lemma transparent:
  assumes greeter: "fst (node_identity_of (ne_lib ne) (ne_world ne) (ds_verifier svc) (ds_challenge svc) md op) = Ok (i, tok)"
    and placed: "w_pond_info (ne_world ne) (pond q) = Ok info" "placement (ds_ops svc) info = Forward p" "eligible q"
    and reached: "fst (fwd_client (ne_connect ne) (gf_clients (ne_forwarder ne)) p (pond q)) = Ok (node_at svc2 ne2)"
    and lib: "ne_lib ne2 = ne_lib ne"
    and trace: "trace_ok (request_trace (ne_uuid1 ne) (ne_uuid2 ne) md)"
      "carried (ne_lib ne) (traceparent (request_trace (ne_uuid1 ne) (ne_uuid2 ne) md))"
    and owner: "fst (node_identity_of (ne_lib ne2) (ne_world ne2) (ds_verifier svc2) (ds_challenge svc2) (relay_metadata ne md i tok) op) = Ok (i2, tok2)"
    and keeps: "answer_keeps (fits (ne_lib ne) q) (ne_lib ne) (rpc_scope ne2 (relay_metadata ne md i tok) tok2)
      (run (rpc_scope ne2 (relay_metadata ne md i tok) tok2) (ds_ops svc2) i2 q)"
  shows "fst (handle svc ne md q) = fst (handle svc2 ne2 (relay_metadata ne md i tok) q)"
proof -
  let ?md2 = "relay_metadata ne md i tok" and ?w = "rpc_scope ne md tok"
  let ?w2 = "rpc_scope ne2 ?md2 tok2"
  have own: "fst (handle svc2 ne2 ?md2 q) = map_err (data_to_status (ne_lib ne) ?w2) (map_ok (enc (ne_lib ne) q) (fst (run ?w2 (ds_ops svc2) i2 q)))"
    unfolding handle_eq traced_eq [OF owner] by (simp add: Let_def rpc_scope_def lib)
  have greet: "fst (handle svc ne md q) = map_err (data_to_status (ne_lib ne) ?w) (map_ok (enc (ne_lib ne) q) (fst (run ?w (ds_ops svc) i q)))"
    unfolding handle_eq traced_eq [OF greeter] by (simp add: Let_def rpc_scope_def)
  have hop: "fst (run ?w (ds_ops svc) i q) =
      (case fst (handle svc2 ne2 ?md2 q) of Inl s \<Rightarrow> Err (status_to_error (ne_lib ne) p (pond q) s) | Inr resp \<Rightarrow> dec (ne_lib ne) resp)"
    unfolding rpc_scope_def relay_eq [OF placed] unary_eq [OF reached] call_eq again_eq [OF placed(3)] relay_metadata_def ..
  show ?thesis
  proof (cases "fst (run ?w2 (ds_ops svc2) i2 q)")
    case (Inr x)
    with keeps have "fits (ne_lib ne) q x" by (simp add: answer_keeps_def)
    from dec_enc [OF this] show ?thesis using Inr own greet hop by auto
  next
    case (Inl e)
    with keeps have k: "error_keeps (ne_lib ne) ?w2 e" by (simp add: answer_keeps_def)
    have "w_traceparent ?w2 \<noteq> None" by (simp add: rpc_scope_def)
    then have "stamped_env ?w (stamped_env ?w2 e) = stamped_env ?w2 e"
      using same_trace [OF trace, of ne2 i tok tok2] by (intro stamped_again) simp_all
    then show ?thesis using Inl own greet hop status_of_error_back [OF k] data_to_status_cong [of ?w "stamped_env ?w2 e" ?w2 e] by simp
  qed
qed

end

section \<open>The calls that are relayed\<close>

lemma relayed_run:
  assumes "w_pond_info w ref = Ok info" "placement ag info = Forward p"
  shows "fst (run_query w ag ref sql i True c) = w_fwd_write w p i ref sql (qc_timeout_ms c)"
    "fst (explain_query w ag i ref sql) = w_fwd_explain w p i ref sql"
    "fst (describe_pond w ag i ref) = w_fwd_describe w p i ref"
    "fst (drop_pond_op w ag i ref True) = w_fwd_drop w p i ref True"
    "fst (materialize_pond w ag i ref) = w_fwd_materialize w p i ref"
    "n \<noteq> 0 \<Longrightarrow> fst (get_lineage w ag i ref n lo hi) = w_fwd_lineage w p i ref (min n MAX_LIMIT) lo hi"
    "fst (catalog_pull w ag i ref cat q ps) = w_fwd_pull w p i ref cat q ps"
    "fst (catalog_describe w ag i ref cat ps) = w_fwd_describe_catalog w p i ref cat ps"
  using assms
  by (simp_all add: run_query_def explain_query_def describe_pond_def drop_pond_op_def materialize_pond_def get_lineage_def
      catalog_pull_def catalog_describe_def pond_info_audited_def route_def act_simps Let_def)

lemma parse_kept: "text_keeps lib v \<Longrightarrow> parse_json lib (to_text lib v) = Ok v"
  by (simp add: text_keeps_def parse_json_def)

lemma decoded_kept:
  "text_keeps lib v \<Longrightarrow> decoded lib what f (to_text lib v) =
     (case f v of None \<Rightarrow> Err (internal_error (''forward decode '' @ what @ '': '' @ shape_error lib v)) | Some x \<Rightarrow> Ok x)"
  by (simp add: decoded_def parse_kept)

lemma query_request_same: "query_request (q_pond q) (q_sql q) (Some (q_timeout_ms q)) = q"
  by (simp add: query_request_def)

definition query_fits :: "rpc_lib \<Rightarrow> QueryResult \<Rightarrow> bool" where
  "query_fits lib qr \<longleftrightarrow> meta_fits (qr_meta qr) \<and> text_keeps lib (query_value qr)"

lemma query_value_wire: "query_value (qr\<lparr>qr_meta := wire_meta (qr_meta qr)\<rparr>) = query_value qr"
proof -
  have "dataset_ref_json (forget_fields d) = dataset_ref_json d" for d by (simp add: dataset_ref_json_def forget_fields_def)
  then show ?thesis by (simp add: query_value_def wire_meta_def meta_entries_def comp_def)
qed

interpretation rel_write: relayed_rpc "''write_query''" q_pond "\<lambda>_. True"
  "\<lambda>w ag i r. run_query w ag (q_pond r) (q_sql r) i True (controls_of (q_timeout_ms r))" rpc_write_query
  "\<lambda>lib _ qr. to_text lib (query_value qr)" on_write_query decoded_query "\<lambda>lib _. query_fits lib" "\<lambda>r. r"
proof unfold_locales
  fix lib and x :: QueryResult
  assume "query_fits lib x"
  then have "decoded_query lib (to_text lib (query_value x)) = Ok (x\<lparr>qr_meta := wire_meta (qr_meta x)\<rparr>)"
    by (simp add: query_fits_def decoded_query_def parse_kept query_result_survives_the_hop)
  then show "\<exists>y. decoded_query lib (to_text lib (query_value x)) = Ok y \<and> to_text lib (query_value y) = to_text lib (query_value x)"
    using query_value_wire by auto
qed (simp_all add: rpc_write_query_def json_resp_def node_at_def relayed_run in_scope_def forward_write_def controls_of_def
    query_request_same Let_def)

definition explain_fits :: "rpc_lib \<Rightarrow> ExplainResult \<Rightarrow> bool" where
  "explain_fits lib e \<longleftrightarrow> estimated_rows e < 2 ^ 64 \<and> (\<forall>s \<in> set (scan_operations e). estimated_rows_scanned s < 2 ^ 64)
     \<and> text_keeps lib (explain_json e)"

definition describe_fits :: "rpc_lib \<Rightarrow> DescribeResult \<Rightarrow> bool" where
  "describe_fits lib d \<longleftrightarrow> (\<forall>t \<in> set (de_schema d). row_count_estimate t < 2 ^ 64)
     \<and> stamp_of lib (stamp_text lib (pi_created_at (de_pond d))) = Some (pi_created_at (de_pond d))
     \<and> text_keeps lib (describe_json (stamp_text lib) d)"

definition page_fits :: "rpc_lib \<Rightarrow> LineagePage \<Rightarrow> bool" where
  "page_fits lib p \<longleftrightarrow> limit_applied p < 2 ^ 64 \<and> lp_malformed_lines p < 2 ^ 64 \<and> lp_unreadable_files p < 2 ^ 64
     \<and> text_keeps lib (lineage_page_json p)"

lemmas relay_defs = json_resp_def node_at_def in_scope_def Let_def

interpretation rel_explain: relayed_rpc "''explain_query''" q_pond "\<lambda>_. True"
  "\<lambda>w ag i r. explain_query w ag i (q_pond r) (q_sql r)" rpc_explain_query
  "\<lambda>lib _ e. to_text lib (explain_json e)" on_explain_query "\<lambda>lib. decoded lib ''explain'' explain_from" "\<lambda>lib _. explain_fits lib"
  "\<lambda>r. query_request (q_pond r) (q_sql r) None"
proof unfold_locales
  fix lib and x :: ExplainResult
  assume "explain_fits lib x"
  then show "\<exists>y. decoded lib ''explain'' explain_from (to_text lib (explain_json x)) = Ok y
      \<and> to_text lib (explain_json y) = to_text lib (explain_json x)"
    by (simp add: explain_fits_def decoded_kept explain_roundtrip)
qed (simp_all add: rpc_explain_query_def relayed_run forward_explain_def query_request_def relay_defs)

interpretation rel_describe: relayed_rpc "''describe_pond''" "\<lambda>r. r" "\<lambda>_. True" describe_pond rpc_describe_pond
  "\<lambda>lib _ d. to_text lib (describe_json (stamp_text lib) d)" on_describe_pond
  "\<lambda>lib. decoded lib ''describe'' (describe_from (stamp_of lib))" "\<lambda>lib _. describe_fits lib" "\<lambda>r. r"
proof unfold_locales
  fix lib and x :: DescribeResult
  assume "describe_fits lib x"
  then show "\<exists>y. decoded lib ''describe'' (describe_from (stamp_of lib)) (to_text lib (describe_json (stamp_text lib) x)) = Ok y
      \<and> to_text lib (describe_json (stamp_text lib) y) = to_text lib (describe_json (stamp_text lib) x)"
    by (simp add: describe_fits_def decoded_kept describe_roundtrip)
qed (simp_all add: rpc_describe_pond_def relayed_run forward_describe_def relay_defs)

interpretation rel_drop: relayed_rpc "''drop_pond''" fst snd "\<lambda>w ag i r. drop_pond_op w ag i (fst r) (snd r)"
  "\<lambda>svc ne md r. rpc_drop_pond svc ne md (fst r) (snd r)" "\<lambda>_ _ x. x" "\<lambda>c md r. on_drop_pond c md (fst r) (snd r)" "\<lambda>_ _. Ok ()"
  "\<lambda>_ _ _. True" "\<lambda>r. r"
  by unfold_locales (simp_all add: rpc_drop_pond_def relayed_run forward_drop_def relay_defs)

interpretation rel_materialize: relayed_rpc "''materialize_pond''" "\<lambda>r. r" "\<lambda>_. True" materialize_pond rpc_materialize_pond
  "\<lambda>_ _ x. x" on_materialize_pond "\<lambda>_ _. Ok ()" "\<lambda>_ _ _. True" "\<lambda>r. r"
  by unfold_locales (simp_all add: rpc_materialize_pond_def relayed_run forward_materialize_def relay_defs)

definition clamped_page :: "GetLineageRequest \<Rightarrow> GetLineageRequest" where
  "clamped_page r = lineage_request (gl_pond r) (min (unat (gl_limit r)) MAX_LIMIT) (non_empty (gl_since r)) (non_empty (gl_before r))"

lemma clamped_page_same:
  "gl_pond (clamped_page r) = gl_pond r" "unat (gl_limit (clamped_page r)) = min (unat (gl_limit r)) MAX_LIMIT"
  "non_empty (gl_since (clamped_page r)) = non_empty (gl_since r)" "non_empty (gl_before (clamped_page r)) = non_empty (gl_before r)"
proof -
  have "min (unat (gl_limit r)) MAX_LIMIT < 2 ^ 32" using unsigned_less [of "gl_limit r", where 'a = nat] by simp
  then show "unat (gl_limit (clamped_page r)) = min (unat (gl_limit r)) MAX_LIMIT"
    by (simp add: clamped_page_def lineage_request_def take_bit_nat_eq_self unsigned_of_nat)
qed (simp_all add: clamped_page_def lineage_request_def non_empty_def split: option.split)

lemma get_lineage_clamped:
  assumes "n \<noteq> 0"
  shows "get_lineage w ag i ref (min n MAX_LIMIT) lo hi = get_lineage w ag i ref n lo hi"
proof -
  have m: "min n MAX_LIMIT \<noteq> 0" using assms by (simp add: MAX_LIMIT_def)
  have mm: "min (min n MAX_LIMIT) MAX_LIMIT = min n MAX_LIMIT" by simp
  show ?thesis unfolding get_lineage_def mm using m assms by (simp only: if_False)
qed

interpretation rel_lineage: relayed_rpc "''get_lineage''" gl_pond "\<lambda>r. gl_limit r \<noteq> 0"
  "\<lambda>w ag i r. get_lineage w ag i (gl_pond r) (unat (gl_limit r)) (non_empty (gl_since r)) (non_empty (gl_before r))" rpc_get_lineage
  "\<lambda>lib _ p. to_text lib (lineage_page_json p)" on_get_lineage "\<lambda>lib. decoded lib ''get_lineage'' lineage_page_from" "\<lambda>lib _. page_fits lib"
  clamped_page
proof unfold_locales
  fix lib and x :: LineagePage
  assume "page_fits lib x"
  then show "\<exists>y. decoded lib ''get_lineage'' lineage_page_from (to_text lib (lineage_page_json x)) = Ok y
      \<and> to_text lib (lineage_page_json y) = to_text lib (lineage_page_json x)"
    by (simp add: page_fits_def decoded_kept lineage_page_roundtrip)
qed (simp_all add: rpc_get_lineage_def relayed_run forward_get_lineage_def clamped_page_same get_lineage_clamped unat_eq_0 relay_defs
    flip: clamped_page_def)

interpretation rel_pull: relayed_rpc "''catalog_pull''" cq_pond "\<lambda>_. True"
  "\<lambda>w ag i r. catalog_pull w ag i (cq_pond r) (cq_catalog r) (cq_query r) (bt_extend [] (cq_params r))" rpc_catalog_pull
  "\<lambda>lib _ p. to_text lib (pull_json p)" on_catalog_pull "\<lambda>lib. decoded lib ''catalog_pull'' pull_from" "\<lambda>lib _ p. text_keeps lib (pull_json p)"
  "\<lambda>r. \<lparr>cq_pond = cq_pond r, cq_catalog = cq_catalog r, cq_query = cq_query r, cq_params = bt_extend [] (cq_params r)\<rparr>"
proof unfold_locales
  fix lib and x :: PullResult
  assume "text_keeps lib (pull_json x)"
  then show "\<exists>y. decoded lib ''catalog_pull'' pull_from (to_text lib (pull_json x)) = Ok y
      \<and> to_text lib (pull_json y) = to_text lib (pull_json x)"
    by (simp add: decoded_kept pull_roundtrip)
qed (simp_all add: rpc_catalog_pull_def relayed_run forward_catalog_pull_def bt_extend_wf bt_wf_extend relay_defs)

lemma decoded_tables_kept:
  assumes "text_keeps lib (catalog_tables_json c ts)"
  shows "decoded_tables lib (to_text lib (catalog_tables_json c ts)) = Ok ts"
proof -
  have "json_get (catalog_tables_json c ts) ''tables''
      = Some (JArray (map (\<lambda>(s, t). json_object [(''schema'', JString s), (''table'', JString t)]) ts))"
    by (simp add: catalog_tables_json_def json_get_object)
  moreover have "List.map_filter table_pair (map (\<lambda>(s, t). json_object [(''schema'', JString s), (''table'', JString t)]) ts) = ts"
    by (induction ts) (auto simp: table_pair_def json_get_object List.map_filter_simps)
  ultimately show ?thesis using parse_kept [OF assms] by (simp add: decoded_tables_def)
qed

interpretation rel_tables: relayed_rpc "''catalog_describe''" cd_pond "\<lambda>_. True"
  "\<lambda>w ag i r. catalog_describe w ag i (cd_pond r) (cd_catalog r) (bt_extend [] (cd_params r))" rpc_catalog_describe
  "\<lambda>lib r ts. to_text lib (catalog_tables_json (cd_catalog r) ts)" on_catalog_describe decoded_tables
  "\<lambda>lib r ts. text_keeps lib (catalog_tables_json (cd_catalog r) ts)" "\<lambda>r. \<lparr>cd_pond = cd_pond r, cd_catalog = cd_catalog r, cd_params = bt_extend [] (cd_params r)\<rparr>"
  by unfold_locales (simp_all add: decoded_tables_kept rpc_catalog_describe_def relayed_run forward_catalog_describe_def bt_extend_wf
      bt_wf_extend relay_defs)

end
