(* ===== verification/Node_Relay.thy ===== *)
theory Node_Relay
  imports Node_Hop
begin

text \<open>
  What a caller may rely on when a call reaches a pond node's gRPC services, directly or through
  another node: the identity, the rejections, the answers and the streams that cross the hop.
\<close>

section \<open>Properties: callers\<close>

text \<open>C11. A call relayed between nodes that trust the same issuers arrives as the same caller: the owner
  derives, from the headers the greeting node sends, exactly the identity the greeting node had
  derived, verified on the owner's own authority from the replayed token, and nothing is recorded
  as rejected. A node without a verifier passes the claim on and never a token.\<close>

theorem hop_keeps_the_identity:
  assumes "fst (node_identity_of lib w (same_trust jwt key_for v) ch md op) = Ok (ident, tok)"
    and "carried lib (agent_id ident)" and "\<forall>t. tok = Some t \<longrightarrow> carried lib (''Bearer '' @ t)"
  shows "node_identity_of lib w2 (same_trust jwt key_for v) ch2 (with_identity lib (hop_scope ctx tok) ident) op2 = (Ok (ident, tok), [])
    \<and> (v = None \<longrightarrow> tok = None \<and> with_identity lib (hop_scope ctx tok) ident ''authorization'' = None)
    \<and> (v \<noteq> None \<longrightarrow> tok = bearer_of md \<and> verified ident)"
proof -
  have "node_identity_of lib w2 (same_trust jwt key_for v) ch2 (with_identity lib (hop_scope ctx tok) ident) op2 = (Ok (ident, tok), [])"
    using node_identity_again [OF assms] by (simp add: hop_scope_def)
  moreover have "v = None \<Longrightarrow> tok = None" using assms(1) by (simp add: node_identity_of_def same_trust_def Let_def)
  moreover have "tok = bearer_of md \<and> verified ident" if "v \<noteq> None"
  proof -
    from that obtain vf where v: "v = Some vf" by blast
    obtain t where t: "bearer_of md = Some t" "tok = Some t" "verify jwt key_for vf t (md ''latiq-agent-id'') = Ok ident"
      using assms(1) v by (auto simp: node_identity_of_def same_trust_def Let_def split: option.splits sum.splits)
    then show ?thesis using verify_ok [OF t(3)] by (metis identity_verified_def Identity.select_convs(4))
  qed
  ultimately show ?thesis by (auto simp: with_identity_def hop_scope_def)
qed

definition demo_codec :: rpc_lib where
  "demo_codec = \<lparr>to_text = (\<lambda>_. ''t''), from_text = (\<lambda>_. Err ''?''), shape_error = (\<lambda>_. ''?''), stamp_text = (\<lambda>_. []),
     stamp_of = (\<lambda>_. None), carried = (\<lambda>_. True)\<rparr>"

definition demo_headers :: metadata where
  "demo_headers k = (if k = ''authorization'' then Some ''bearer  h.p.s'' else if k = ''latiq-agent-id'' then Some ''bot'' else None)"

lemma demo_bearer: "bearer_of demo_headers = Some ''h.p.s''"
  unfolding bearer_of_def demo_headers_def by code_simp

theorem hop_keeps_the_identity_witness:
  "node_identity_of demo_codec (demo_world None None) (same_trust demo_lib demo_key_for (Some demo_verifier)) None
     (with_identity demo_codec (hop_scope (trace_new ''u'' ''u'') (Some ''h.p.s'')) demo_ident) ''write_query'' = (Ok (demo_ident, Some ''h.p.s''), [])"
proof -
  have "fst (node_identity_of demo_codec (demo_world None None) (same_trust demo_lib demo_key_for (Some demo_verifier)) None demo_headers ''write_query'')
      = Ok (demo_ident, Some ''h.p.s'')"
    using demo_bearer demo_verify by (simp add: node_identity_of_def same_trust_def demo_headers_def)
  from hop_keeps_the_identity [OF this, of "demo_world None None" None "trace_new ''u'' ''u''" "''write_query''"]
  show ?thesis by (simp only: demo_codec_def rpc_lib.simps simp_thms)
qed

text \<open>C13. A node with a verifier runs nothing for a caller it could not verify: whatever the call, its
  answer is \<open>Unauthenticated\<close> with a fixed message and no details, and its only effect is one
  access record, named after the call, under the unverified claim and with the outcome \<open>error\<close>.\<close>

theorem unverified_calls_run_nothing:
  assumes "ds_verifier svc = Some check" and "\<forall>t. bearer_of md = Some t \<longrightarrow> \<not> is_ok (check t (md ''latiq-agent-id''))"
  shows "\<exists>st a. traced svc ne md op body k = (Err st, [Accessed a])
    \<and> gs_code st = GC_Unauthenticated \<and> gs_details st = [] \<and> gs_message st \<in> {''a bearer token is required'', ''the bearer token was rejected''}
    \<and> acc_op a = op \<and> acc_identity a = identity_claimed (md ''latiq-agent-id'') \<and> \<not> verified (acc_identity a) \<and> acc_outcome a = ''error''"
proof (cases "bearer_of md")
  case None
  then show ?thesis using assms(1)
    by (simp add: traced_def node_identity_of_def record_rejection_def rpc_unauthenticated_def access_record_def identity_claimed_def)
next
  case (Some t)
  then obtain e where "check t (md ''latiq-agent-id'') = Inl e" using assms(2) by (cases "check t (md ''latiq-agent-id'')") auto
  then show ?thesis using assms(1) Some
    by (simp add: traced_def node_identity_of_def record_rejection_def rpc_unauthenticated_def access_record_def identity_claimed_def)
qed

definition demo_ipc :: ipc_lib where
  "demo_ipc = \<lparr>ipc_open = (\<lambda>sch. if sch = [''x''] then Ok ''S'' else Err ''no''),
     ipc_write = (\<lambda>_ _ b. if b = Ok [] then Ok ''B'' else Err ''no''), ipc_finish = (\<lambda>_ _. Some ''E''),
     ipc_feed = (\<lambda>_ x. if x = ''B'' then ([Ok []], None) else ([], None)), ipc_known = (\<lambda>_. Some [''x''])\<rparr>"

definition demo_node :: "string \<Rightarrow> rpc_lib \<Rightarrow> network \<Rightarrow> node_env" where
  "demo_node owner lib connect = \<lparr>ne_lib = lib, ne_ipc = demo_ipc, ne_connect = connect, ne_forwarder = forwarder_new,
     ne_world = demo_world (Some owner) (Some (''http://'' @ owner)), ne_uuid1 = ''00000000-0000-4000-8000-000000000002'',
     ne_uuid2 = ''00000000-0000-4000-8000-000000000003''\<rparr>"

definition demo_service :: "string \<Rightarrow> token_check option \<Rightarrow> DataService" where
  "demo_service me v = with_verifier (data_service_new (with_forwarding demo_agent me (''http://'' @ me))) v"

theorem unverified_calls_run_nothing_witness:
  "\<exists>st a. rpc_drop_pond (demo_service ''n1'' (Some (\<lambda>_ _. Err A_Missing))) (demo_node ''n1'' demo_codec (\<lambda>_. Err ''down'')) demo_headers ''pond'' True
      = (Err st, [Accessed a]) \<and> gs_code st = GC_Unauthenticated"
  unfolding rpc_drop_pond_def
  using unverified_calls_run_nothing [of "demo_service ''n1'' (Some (\<lambda>_ _. Err A_Missing))" "\<lambda>_ _. Err A_Missing" demo_headers]
  by (fastforce simp: demo_service_def with_verifier_def is_ok_def)

text \<open>The record of a rejected call is written before the request's trace is in scope: it carries no
  trace id even when the caller sent one, unlike the record of a rejected admin call.\<close>

lemma rejection_record_has_no_trace:
  assumes "ds_verifier svc = Some check" "bearer_of md = None" "w_trace_id (ne_world ne) = None"
  shows "\<exists>st a. traced svc ne md op body k = (Err st, [Accessed a]) \<and> acc_trace_id a = ''-''"
  using assms by (simp add: traced_def node_identity_of_def record_rejection_def access_record_def)

section \<open>Properties: relays\<close>

datatype relayable =
    RlWrite QueryRequest
  | RlExplain QueryRequest
  | RlDescribe string
  | RlDrop string
  | RlMaterialize string
  | RlLineage GetLineageRequest
  | RlPull CatalogPullRequest
  | RlTables CatalogDescribeRequest

fun relay_op :: "relayable \<Rightarrow> string" where
  "relay_op (RlWrite _) = ''write_query''"
| "relay_op (RlExplain _) = ''explain_query''"
| "relay_op (RlDescribe _) = ''describe_pond''"
| "relay_op (RlDrop _) = ''drop_pond''"
| "relay_op (RlMaterialize _) = ''materialize_pond''"
| "relay_op (RlLineage _) = ''get_lineage''"
| "relay_op (RlPull _) = ''catalog_pull''"
| "relay_op (RlTables _) = ''catalog_describe''"

fun relay_pond :: "relayable \<Rightarrow> string" where
  "relay_pond (RlWrite r) = q_pond r"
| "relay_pond (RlExplain r) = q_pond r"
| "relay_pond (RlDescribe r) = r"
| "relay_pond (RlDrop r) = r"
| "relay_pond (RlMaterialize r) = r"
| "relay_pond (RlLineage r) = gl_pond r"
| "relay_pond (RlPull r) = cq_pond r"
| "relay_pond (RlTables r) = cd_pond r"

text \<open>What the caller of a node's Data service receives; an empty message is the empty text.\<close>

fun call_node :: "DataService \<Rightarrow> node_env \<Rightarrow> metadata \<Rightarrow> relayable \<Rightarrow> (GrpcStatus, string) result" where
  "call_node svc ne md (RlWrite r) = fst (rpc_write_query svc ne md r)"
| "call_node svc ne md (RlExplain r) = fst (rpc_explain_query svc ne md r)"
| "call_node svc ne md (RlDescribe r) = fst (rpc_describe_pond svc ne md r)"
| "call_node svc ne md (RlDrop r) = map_ok (\<lambda>_. []) (fst (rpc_drop_pond svc ne md r True))"
| "call_node svc ne md (RlMaterialize r) = map_ok (\<lambda>_. []) (fst (rpc_materialize_pond svc ne md r))"
| "call_node svc ne md (RlLineage r) = fst (rpc_get_lineage svc ne md r)"
| "call_node svc ne md (RlPull r) = fst (rpc_catalog_pull svc ne md r)"
| "call_node svc ne md (RlTables r) = fst (rpc_catalog_describe svc ne md r)"

text \<open>The answer, or the error, that the operation gives in a world is one the codec carries.\<close>

fun relay_keeps :: "rpc_lib \<Rightarrow> world \<Rightarrow> AgentOps \<Rightarrow> Identity \<Rightarrow> relayable \<Rightarrow> bool" where
  "relay_keeps lib w ag i (RlWrite r) =
     answer_keeps (query_fits lib) lib w (run_query w ag (q_pond r) (q_sql r) i True (controls_of (q_timeout_ms r)))"
| "relay_keeps lib w ag i (RlExplain r) = answer_keeps (explain_fits lib) lib w (explain_query w ag i (q_pond r) (q_sql r))"
| "relay_keeps lib w ag i (RlDescribe r) = answer_keeps (describe_fits lib) lib w (describe_pond w ag i r)"
| "relay_keeps lib w ag i (RlDrop r) = answer_keeps (\<lambda>_. True) lib w (drop_pond_op w ag i r True)"
| "relay_keeps lib w ag i (RlMaterialize r) = answer_keeps (\<lambda>_. True) lib w (materialize_pond w ag i r)"
| "relay_keeps lib w ag i (RlLineage r) = (gl_limit r \<noteq> 0
     \<and> answer_keeps (page_fits lib) lib w (get_lineage w ag i (gl_pond r) (unat (gl_limit r)) (non_empty (gl_since r)) (non_empty (gl_before r))))"
| "relay_keeps lib w ag i (RlPull r) =
     answer_keeps (\<lambda>p. text_keeps lib (pull_json p)) lib w (catalog_pull w ag i (cq_pond r) (cq_catalog r) (cq_query r) (bt_extend [] (cq_params r)))"
| "relay_keeps lib w ag i (RlTables r) =
     answer_keeps (\<lambda>ts. text_keeps lib (catalog_tables_json (cd_catalog r) ts)) lib w
       (catalog_describe w ag i (cd_pond r) (cd_catalog r) (bt_extend [] (cd_params r)))"

text \<open>A hop from a node to another for a pond: the control plane places the pond there, the node is
  reached at its address, both nodes use the same libraries and trust the same issuers, and the
  headers get across.\<close>

definition good_hop :: "DataService \<Rightarrow> node_env \<Rightarrow> metadata \<Rightarrow> Identity \<Rightarrow> string option \<Rightarrow> string \<Rightarrow> DataService \<Rightarrow> node_env \<Rightarrow> bool" where
  "good_hop svc ne md i tok pond svc2 ne2 \<longleftrightarrow>
     (\<exists>info p. w_pond_info (ne_world ne) pond = Ok info \<and> placement (ds_ops svc) info = Forward p
        \<and> fst (fwd_client (ne_connect ne) (gf_clients (ne_forwarder ne)) p pond) = Ok (node_at svc2 ne2))
   \<and> ne_lib ne2 = ne_lib ne \<and> is_uuid_v4 (ne_uuid1 ne) \<and> is_uuid_v4 (ne_uuid2 ne)
   \<and> carried (ne_lib ne) (traceparent (request_trace (ne_uuid1 ne) (ne_uuid2 ne) md))
   \<and> carried (ne_lib ne) (agent_id i) \<and> (\<forall>t. tok = Some t \<longrightarrow> carried (ne_lib ne) (''Bearer '' @ t))"

text \<open>C10. Eight of the ten relayed calls are transparent -- \<open>write_query\<close>, \<open>explain_query\<close>, \<open>describe_pond\<close>,
  \<open>drop_pond\<close>, \<open>materialize_pond\<close>, \<open>get_lineage\<close>, \<open>catalog_pull\<close> and \<open>catalog_describe\<close> -- between nodes that
  trust the same issuers, over a hop that reaches the owner and values the JSON codec gives back (a
  relayed \<open>read_query\<close> is not: it loses the owner's figures, and \<open>read_arrow\<close> is a stream): what the caller of the greeting node receives -- the answer to
  the last character, or the status with its code, its message and the whole error envelope --
  is what the owner gives to the same caller asking it directly, under the same trace.\<close>

theorem relayed_calls_are_transparent:
  assumes "ds_verifier svc = same_trust jwt key_for v" and "ds_verifier svc2 = same_trust jwt key_for v"
    and "fst (node_identity_of (ne_lib ne) (ne_world ne) (ds_verifier svc) (ds_challenge svc) md (relay_op rq)) = Ok (i, tok)"
    and "good_hop svc ne md i tok (relay_pond rq) svc2 ne2"
    and "relay_keeps (ne_lib ne) (rpc_scope ne2 (relay_metadata ne md i tok) tok) (ds_ops svc2) i rq"
  shows "call_node svc ne md rq = call_node svc2 ne2 (relay_metadata ne md i tok) rq"
proof -
  note hop = assms(4) [unfolded good_hop_def]
  obtain info p where p: "w_pond_info (ne_world ne) (relay_pond rq) = Ok info" "placement (ds_ops svc) info = Forward p"
    "fst (fwd_client (ne_connect ne) (gf_clients (ne_forwarder ne)) p (relay_pond rq)) = Ok (node_at svc2 ne2)"
    using hop by blast
  have lib: "ne_lib ne2 = ne_lib ne" using hop by blast
  have tr: "trace_ok (request_trace (ne_uuid1 ne) (ne_uuid2 ne) md)" using hop trace_inbound_ok by (simp add: request_trace_def)
  have ca: "carried (ne_lib ne) (traceparent (request_trace (ne_uuid1 ne) (ne_uuid2 ne) md))" using hop by blast
  have own: "fst (node_identity_of (ne_lib ne2) (ne_world ne2) (ds_verifier svc2) (ds_challenge svc2) (relay_metadata ne md i tok) (relay_op rq)) = Ok (i, tok)"
    unfolding relay_metadata_def assms(2) lib
    using node_identity_again [OF assms(3) [unfolded assms(1)], of "hop_scope (request_trace (ne_uuid1 ne) (ne_uuid2 ne) md) tok"] hop
    by (simp add: hop_scope_def)
  note facts = lib tr ca
  show ?thesis
  proof (cases rq)
    case (RlWrite r)
    with rel_write.transparent [where q = r and i = i and tok = tok, OF _ _ p(2) _ _ facts] assms(3,5) p own show ?thesis by simp
  next
    case (RlExplain r)
    with rel_explain.transparent [where q = r and i = i and tok = tok, OF _ _ p(2) _ _ facts] assms(3,5) p own show ?thesis by simp
  next
    case (RlDescribe r)
    with rel_describe.transparent [where q = r and i = i and tok = tok, OF _ _ p(2) _ _ facts] assms(3,5) p own show ?thesis by simp
  next
    case (RlDrop r)
    with rel_drop.transparent [where q = "(r, True)" and i = i and tok = tok, OF _ _ p(2) _ _ facts] assms(3,5) p own show ?thesis by simp
  next
    case (RlMaterialize r)
    with rel_materialize.transparent [where q = r and i = i and tok = tok, OF _ _ p(2) _ _ facts] assms(3,5) p own show ?thesis by simp
  next
    case (RlLineage r)
    with rel_lineage.transparent [where q = r and i = i and tok = tok, OF _ _ p(2) _ _ facts] assms(3,5) p own show ?thesis by simp
  next
    case (RlPull r)
    with rel_pull.transparent [where q = r and i = i and tok = tok, OF _ _ p(2) _ _ facts] assms(3,5) p own show ?thesis by simp
  next
    case (RlTables r)
    with rel_tables.transparent [where q = r and i = i and tok = tok, OF _ _ p(2) _ _ facts] assms(3,5) p own show ?thesis by simp
  qed
qed

definition demo_gone :: AgentError where
  "demo_gone = (join_err ''gone'')\<lparr>env_trace_id := Some ''00000000000040008000000000000002'',
     env_traceparent := Some ''00-00000000000040008000000000000002-0000000000004000-01''\<rparr>"

definition demo_wire :: rpc_lib where
  "demo_wire = demo_codec\<lparr>from_text := (\<lambda>_. Ok (envelope_json demo_gone))\<rparr>"

definition demo_query :: QueryRequest where
  "demo_query = \<lparr>q_pond = ''pond'', q_sql = ''SELECT 1'', q_timeout_ms = 5\<rparr>"

definition demo_caller :: metadata where
  "demo_caller k = (if k = ''latiq-agent-id'' then Some ''bot'' else None)"

lemma demo_uuids: "is_uuid_v4 ''00000000-0000-4000-8000-000000000002''" "is_uuid_v4 ''00000000-0000-4000-8000-000000000003''"
  by code_simp+

lemma demo_owner_scope:
  "w_trace_id (rpc_scope (demo_node ''n2'' demo_wire net2) (relay_metadata (demo_node ''n2'' demo_wire net) demo_caller i tok) tok) = env_trace_id demo_gone
   \<and> w_traceparent (rpc_scope (demo_node ''n2'' demo_wire net2) (relay_metadata (demo_node ''n2'' demo_wire net) demo_caller i tok) tok) = env_traceparent demo_gone"
proof -
  let ?c = "request_trace ''00000000-0000-4000-8000-000000000002'' ''00000000-0000-4000-8000-000000000003'' demo_caller"
  have c: "?c = \<lparr>trace_id = ''00000000000040008000000000000002'', span_id = ''0000000000004000'', sampled = True\<rparr>"
    by (simp add: request_trace_def demo_caller_def trace_inbound_def trace_new_def hex32_def)
  have ok: "trace_ok ?c" unfolding request_trace_def using demo_uuids by (rule trace_inbound_ok)
  have "relay_metadata (demo_node ''n2'' demo_wire net) demo_caller i tok ''traceparent'' = Some (traceparent ?c)"
    by (simp add: relay_metadata_def with_identity_def hop_scope_def carry_def demo_node_def demo_wire_def demo_codec_def)
  then have "request_trace ''00000000-0000-4000-8000-000000000002'' ''00000000-0000-4000-8000-000000000003''
      (relay_metadata (demo_node ''n2'' demo_wire net) demo_caller i tok) = ?c"
    using trace_parse_traceparent [OF ok, of "''00000000-0000-4000-8000-000000000002''"] c
    by (simp add: request_trace_def trace_inbound_def hex32_def)
  then show ?thesis using c by (simp add: rpc_scope_def demo_node_def demo_gone_def traceparent_def)
qed

theorem relayed_calls_are_transparent_witness:
  "let owner = demo_service ''n2'' None; oe = demo_node ''n2'' demo_wire (\<lambda>_. Err ''down'');
       greeter = demo_service ''n1'' None; ge = demo_node ''n2'' demo_wire (\<lambda>_. Ok (node_at owner oe))
   in call_node greeter ge demo_caller (RlExplain demo_query)
      = call_node owner oe (relay_metadata ge demo_caller (identity_claimed (Some ''bot'')) None) (RlExplain demo_query)"
proof -
  let ?o = "demo_service ''n2'' None" and ?oe = "demo_node ''n2'' demo_wire (\<lambda>_. Err ''down'')"
  let ?g = "demo_service ''n1'' None" and ?ge = "demo_node ''n2'' demo_wire (\<lambda>_. Ok (node_at ?o ?oe))"
  let ?i = "identity_claimed (Some ''bot'')"
  let ?w = "rpc_scope ?oe (relay_metadata ?ge demo_caller ?i None) None"
  have v: "ds_verifier (demo_service n None) = same_trust demo_lib demo_key_for None" for n
    by (simp add: demo_service_def with_verifier_def same_trust_def)
  have id: "fst (node_identity_of (ne_lib ?ge) (ne_world ?ge) (ds_verifier ?g) (ds_challenge ?g) demo_caller (relay_op (RlExplain demo_query))) = Ok (?i, None)"
    by (simp add: v same_trust_def node_identity_of_def demo_caller_def)
  have hop: "good_hop ?g ?ge demo_caller ?i None (relay_pond (RlExplain demo_query)) ?o ?oe"
    by (simp add: good_hop_def demo_node_def demo_wire_def demo_codec_def demo_uuids demo_service_def with_verifier_def data_service_new_def
        with_forwarding_def placement_def non_empty_def fwd_client_def forwarder_new_def)
  have run: "fst (explain_query ?w (ds_ops ?o) ?i (q_pond demo_query) (q_sql demo_query)) = Err (join_err ''gone'')"
    by (simp add: rpc_scope_def explain_query_def explain_query_local_def pond_info_audited_def route_def placement_def non_empty_def
        demo_service_def with_verifier_def data_service_new_def with_forwarding_def in_scope_def demo_node_def demo_world_def
        ensure_local_def run_engine_def joined_result_def parse_id_def act_simps Let_def)
  have st: "stamped_env ?w (join_err ''gone'') = demo_gone"
    using demo_owner_scope by (simp add: stamped_env_def with_traceparent_def with_trace_id_def demo_gone_def join_err_def internal_error_def envelope_defs)
  have "relay_keeps (ne_lib ?ge) ?w (ds_ops ?o) ?i (RlExplain demo_query)"
    using run st by (simp add: answer_keeps_def error_keeps_def text_keeps_def demo_node_def demo_wire_def demo_codec_def
        join_err_def internal_error_def envelope_defs)
  from relayed_calls_are_transparent [OF v v id hop this] show ?thesis by (simp add: Let_def)
qed

text \<open>C12. A read streamed through another node arrives as the owner sent it: the same columns and the
  same batches in the same order, up to the first error, which arrives in its place with the whole
  envelope and the owner's trace; and the stream still names the owner and its span as its source.
  Only the owner's figures stay behind.\<close>

theorem streamed_read_survives_the_hop:
  assumes "ipc_faithful (ne_ipc ne)"
    and "fst (fwd_client connect (gf_stream_clients gf) p pond) = Ok (node_at svc ne)"
    and "fst (node_identity_of (ne_lib ne) (ne_world ne) (ds_verifier svc) (ds_challenge svc) (with_identity (ne_lib ne) sc i) ''read_arrow'') = Ok (i2, tok2)"
    and "w = rpc_scope ne (with_identity (ne_lib ne) sc i) tok2"
    and "fst (read_arrow w (ds_ops svc) i2 pond sql (controls_of (case t of None \<Rightarrow> 0 | Some ms \<Rightarrow> ms))) = Ok r"
    and "is_ok (ipc_open (ne_ipc ne) (as_schema r))"
    and "\<forall>b \<in> {b. Inr b \<in> set (as_batches r)}. \<forall>s. \<exists>x. ipc_write (ne_ipc ne) (as_schema r) s b = Ok x"
    and "\<forall>e \<in> {e. Inl e \<in> set (as_batches r)}. error_keeps (ne_lib ne) w e"
  shows "fst (forward_read_arrow (ne_lib ne) (ne_ipc ne) connect sc gf p i pond sql t) =
    Ok (r\<lparr>as_batches := until_error (map (map_err (stamped_env w)) (as_batches r)), as_meta := None\<rparr>)"
proof -
  have "fst (rpc_read_arrow svc ne (with_identity (ne_lib ne) sc i) (query_request pond sql t)) = Ok (encode_to_chunks (ne_lib ne) (ne_ipc ne) w r)"
    unfolding rpc_read_arrow_def traced_eq [OF assms(3)]
    using assms(4,5) by (simp add: Let_def rpc_scope_def query_request_def)
  then show ?thesis
    using assms(2) stream_received [OF assms(1,6,7,8)]
    by (cases "fwd_client connect (gf_stream_clients gf) p pond") (simp add: forward_read_arrow_def node_at_def)
qed

lemma demo_ipc_faithful: "ipc_faithful demo_ipc"
proof -
  have "sch = [''x'']" if "ipc_sent demo_ipc sch sent bytes" for sch sent bytes
    using that by (induction rule: ipc_sent.induct) (auto simp: demo_ipc_def split: if_splits)
  then show ?thesis by (auto simp: ipc_faithful_def demo_ipc_def split: if_splits)
qed

lemma read_arrow_serves:
  assumes "w_pond_info w ref = Ok info" "placement ag info = Local" "w_parse_id w (pi_pond_id info) = Ok pid"
    "w_ensure w pid (pi_lineage info) = Ok loc" "producer_schema (final_deadline w ag c) (w_read_arrow w (dressed info loc) sql) = Ok cols"
  shows "fst (read_arrow w ag i ref sql c) = Ok \<lparr>as_schema = cols,
    as_batches = producer_batches (final_deadline w ag c) (w_read_arrow w (dressed info loc) sql),
    as_meta = Some (producer_meta (final_deadline w ag c) (w_read_arrow w (dressed info loc) sql)),
    as_served_by = serving_name ag, as_traceparent = (case w_traceparent w of Some t \<Rightarrow> t | None \<Rightarrow> [])\<rparr>"
proof -
  have "fst (read_arrow_local w ag info sql c) = Ok \<lparr>as_schema = cols,
    as_batches = producer_batches (final_deadline w ag c) (w_read_arrow w (dressed info loc) sql),
    as_meta = Some (producer_meta (final_deadline w ag c) (w_read_arrow w (dressed info loc) sql)),
    as_served_by = serving_name ag, as_traceparent = (case w_traceparent w of Some t \<Rightarrow> t | None \<Rightarrow> [])\<rparr>"
    using assms by (simp add: read_arrow_local_def ensure_local_def parse_id_def establish_def act_simps Let_def)
  then show ?thesis using assms(1,2)
    by (simp add: read_arrow_def pond_info_audited_def route_def emit_lineage_def act_simps)
qed

text \<open>A pond whose read gives one empty batch.\<close>

definition demo_reader :: node_env where
  "demo_reader = (demo_node ''n2'' demo_codec (\<lambda>_. Err ''down''))
     \<lparr>ne_world := (demo_world (Some ''n2'') (Some ''http://n2''))\<lparr>w_read_arrow := (\<lambda>_ _. \<lparr>aw_schema = Some [''x''], aw_batches = [Ok []],
        aw_result = Some (Ok meta_default), aw_room = True\<rparr>)\<rparr>\<rparr>"

theorem streamed_read_survives_the_hop_witness:
  "\<exists>r. fst (forward_read_arrow demo_codec demo_ipc (\<lambda>_. Ok (node_at (demo_service ''n2'' None) demo_reader)) (hop_scope (trace_new ''u'' ''u'') None)
      forwarder_new \<lparr>peer_node_id = ''n2'', peer_endpoint = ''http://n2''\<rparr> demo_identity ''pond'' ''SELECT 1'' None) = Ok r
    \<and> as_schema r = [''x''] \<and> as_batches r = [Ok (Ok [])] \<and> as_served_by r = ''http://n2''"
proof -
  let ?svc = "demo_service ''n2'' None" and ?sc = "hop_scope (trace_new ''u'' ''u'') None" and ?p = "\<lparr>peer_node_id = ''n2'', peer_endpoint = ''http://n2''\<rparr>"
  let ?md = "with_identity (ne_lib demo_reader) ?sc demo_identity"
  let ?w = "rpc_scope demo_reader ?md None"
  have ok: "ipc_faithful (ne_ipc demo_reader)" using demo_ipc_faithful by (simp add: demo_reader_def demo_node_def)
  have cl: "fst (fwd_client (\<lambda>_. Ok (node_at ?svc demo_reader)) (gf_stream_clients forwarder_new) ?p ''pond'') = Ok (node_at ?svc demo_reader)"
    by (simp add: fwd_client_def forwarder_new_def)
  have id: "fst (node_identity_of (ne_lib demo_reader) (ne_world demo_reader) (ds_verifier ?svc) (ds_challenge ?svc) ?md ''read_arrow'')
      = Ok (identity_claimed (?md ''latiq-agent-id''), None)"
    by (simp add: node_identity_of_def demo_service_def with_verifier_def)
  have w: "w_pond_info ?w ''pond'' = Ok (demo_info (Some ''n2'') (Some ''http://n2''))" "w_parse_id ?w s = Ok s" "w_ensure ?w s b = Ok demo_location"
    "w_read_arrow ?w l q = \<lparr>aw_schema = Some [''x''], aw_batches = [Ok []], aw_result = Some (Ok meta_default), aw_room = True\<rparr>" for s b l q
    by (simp_all add: rpc_scope_def in_scope_def demo_reader_def demo_node_def Let_def)
  have pl: "placement (ds_ops ?svc) (demo_info (Some ''n2'') (Some ''http://n2'')) = Local" "serving_name (ds_ops ?svc) = ''http://n2''"
    by (simp_all add: placement_def serving_name_def non_empty_def demo_service_def with_verifier_def data_service_new_def with_forwarding_def)
  have run: "\<exists>r. fst (read_arrow ?w (ds_ops ?svc) i ''pond'' ''SELECT 1'' c) = Ok r \<and> as_schema r = [''x''] \<and> as_batches r = [Ok (Ok [])]
      \<and> as_served_by r = ''http://n2''" for i c
    by (subst read_arrow_serves [OF w(1) pl(1) w(2,3)]) (simp_all add: w(4) pl(2) producer_schema_def producer_batches_def)
  obtain r where r: "fst (read_arrow ?w (ds_ops ?svc) (identity_claimed (?md ''latiq-agent-id'')) ''pond'' ''SELECT 1'' (controls_of 0)) = Ok r"
    "as_schema r = [''x'']" "as_batches r = [Ok (Ok [])]" "as_served_by r = ''http://n2''" using run by blast
  have "fst (forward_read_arrow (ne_lib demo_reader) (ne_ipc demo_reader) (\<lambda>_. Ok (node_at ?svc demo_reader)) ?sc forwarder_new ?p demo_identity ''pond'' ''SELECT 1'' None)
      = Ok (r\<lparr>as_batches := until_error (map (map_err (stamped_env ?w)) (as_batches r)), as_meta := None\<rparr>)"
    by (rule streamed_read_survives_the_hop [OF ok cl id refl]) (use r in \<open>simp_all add: demo_reader_def demo_node_def demo_ipc_def is_ok_def\<close>)
  then show ?thesis using r by (simp add: demo_reader_def demo_node_def)
qed

text \<open>A read that was relayed is answered without the owner's figures: no timeout, no duration, no tables.\<close>

lemma relayed_read_has_no_figures:
  assumes "collect_stream w ag (st\<lparr>as_meta := None\<rparr>) = Ok qr"
  shows "timeout_ms (qr_meta qr) = 0 \<and> qm_duration_ms (qr_meta qr) = 0 \<and> tables_touched (qr_meta qr) = []"
  using assms by (auto simp: collect_stream_def meta_default_def Let_def split: sum.splits)

end
