(* ===== verification/Mcp_Facts.thy ===== *)
theory Mcp_Facts
  imports Mcp_Docs Node_Relay
begin

text \<open>
  What an agent may rely on at the MCP surface: who its calls run as, the trace every answer
  carries, the refusals that run nothing, the agreement with the Data service of the same node,
  and the declared schemas.
\<close>

section \<open>Shared facts\<close>

text \<open>A result that names the request's trace: on the protocol's \<open>_meta\<close>, and, as the node's own span, in the
  body of a success; an error is an envelope made in the request's scope. What a success must say in
  its body is a parameter, since a statement's body keeps the span its result reports.\<close>

definition carries_trace :: "node_env \<Rightarrow> RequestContext \<Rightarrow> (CallToolResult \<Rightarrow> bool) \<Rightarrow> CallToolResult \<Rightarrow> bool" where
  "carries_trace ne cx success r \<longleftrightarrow>
     ct_meta r = Some [(TRACEPARENT_META, JString (traceparent (mcp_trace_of ne cx)))]
   \<and> ct_text r = to_text (ne_lib ne) (ct_structured r)
   \<and> (if ct_is_error r
      then \<exists>e. ct_structured r = envelope_json (e\<lparr>env_trace_id := Some (trace_id (mcp_trace_of ne cx)),
          env_traceparent := Some (case env_traceparent e of Some span \<Rightarrow> span | None \<Rightarrow> traceparent (mcp_trace_of ne cx))\<rparr>)
      else success r)"

definition own_span :: "node_env \<Rightarrow> RequestContext \<Rightarrow> CallToolResult \<Rightarrow> bool" where
  "own_span ne cx r \<longleftrightarrow> body_span (ct_structured r) = Some (traceparent (mcp_trace_of ne cx))"

text \<open>The success of a statement: the answer made of the operation's result, whose span it reports.\<close>

definition statement_span :: "node_env \<Rightarrow> RequestContext \<Rightarrow> string \<Rightarrow> (world \<Rightarrow> Identity \<Rightarrow> QueryResult act) \<Rightarrow> LatiqServer \<Rightarrow> CallToolResult \<Rightarrow> bool" where
  "statement_span ne cx st run srv r \<longleftrightarrow> (\<exists>ident tok qr.
     mcp_identity srv cx = Ok (ident, tok) \<and> fst (run (in_scope ne (mcp_trace_of ne cx) tok) ident) = Ok qr
   \<and> body_span (ct_structured r) = Some (if qm_traceparent (qr_meta qr) = [] then traceparent (mcp_trace_of ne cx) else qm_traceparent (qr_meta qr)))"

lemma in_scope_trace [simp]:
  "w_traceparent (in_scope ne ctx tok) = Some (traceparent ctx)" "w_trace_id (in_scope ne ctx tok) = Some (trace_id ctx)"
  by (simp_all add: in_scope_def Let_def)

lemma err_envelope_traced: "carries_trace ne cx ok (err_envelope (ne_lib ne) (in_scope ne (mcp_trace_of ne cx) tok) e)"
proof -
  have "with_traceparent (with_trace_id e (Some (trace_id (mcp_trace_of ne cx)))) (Some (traceparent (mcp_trace_of ne cx)))
      = e\<lparr>env_trace_id := Some (trace_id (mcp_trace_of ne cx)),
          env_traceparent := Some (case env_traceparent e of Some span \<Rightarrow> span | None \<Rightarrow> traceparent (mcp_trace_of ne cx))\<rparr>"
    by (cases e) (auto simp: with_trace_id_def with_traceparent_def)
  then show ?thesis by (auto simp: carries_trace_def err_envelope_def trace_meta_def)
qed

text \<open>A body of one of the declared shapes: an object without a \<open>_meta\<close> of its own.\<close>

definition plain_body :: "Value \<Rightarrow> bool" where
  "plain_body v \<longleftrightarrow> (\<exists>m. v = JObject m \<and> bt_wf m \<and> map_of m BODY_META = None)"

lemma plain_object: "BODY_META \<notin> fst ` set kvs \<Longrightarrow> plain_body (json_object kvs)"
  using keys_bt_extend [of kvs] by (auto simp: plain_body_def json_object_def bt_wf_extend map_of_eq_None_iff)

lemma plain_bodies [simp]:
  "plain_body (allocate_json a)" "plain_body (list_ponds_json f ps)" "plain_body (drop_pond_json s p)"
  "plain_body (list_datasets_json f ds)" "plain_body (list_catalogs_json f cs)" "plain_body (describe_json f d)"
  "plain_body (load_json l)" "plain_body (pull_json pu)" "plain_body (lineage_page_json g)" "plain_body (explain_json e)"
  "plain_body (catalog_tables_json c ts)"
  unfolding allocate_json_def list_ponds_json_def drop_pond_json_def list_datasets_json_def list_catalogs_json_def
    describe_json_def load_json_def pull_json_def lineage_page_json_def explain_json_def catalog_tables_json_def
  by (rule plain_object, simp add: BODY_META_def)+

lemma plain_span:
  assumes "plain_body v"
  shows "body_span (with_body_traceparent (in_scope ne ctx tok) v) = Some (traceparent ctx)"
  using assms with_body_traceparent_fresh(1) by (fastforce simp: plain_body_def)

lemma tool_ok_traced: "plain_body v \<Longrightarrow> carries_trace ne cx (own_span ne cx) (tool_ok (ne_lib ne) (in_scope ne (mcp_trace_of ne cx) tok) v)"
  by (simp add: carries_trace_def own_span_def tool_ok_def plain_span trace_meta_def)

lemma answered_traced:
  assumes "answered ne (in_scope ne (mcp_trace_of ne cx) tok) k m = (r, evs)" "\<And>x. fst m = Ok x \<Longrightarrow> carries_trace ne cx ok (k x)"
  shows "carries_trace ne cx ok r"
  using assms by (auto simp: answered_def err_envelope_traced split: sum.splits)

lemma tool_body_traced:
  assumes "tool_body ne (in_scope ne (mcp_trace_of ne cx) tok) enc m = (r, evs)" "\<And>x. plain_body (enc x)"
  shows "carries_trace ne cx (own_span ne cx) r"
  using assms(1) unfolding tool_body_def by (rule answered_traced) (simp add: tool_ok_traced assms(2))

lemma mcp_traced_ok:
  assumes "mcp_traced srv ne cx body = (Inr r, evs)"
  obtains ident tok where "mcp_identity srv cx = Ok (ident, tok)" "body (in_scope ne (mcp_trace_of ne cx) tok) ident = (r, evs)"
  using assms by (auto simp: mcp_traced_def Let_def prod_eq_iff split: sum.splits prod.splits)

lemma with_args_ok:
  assumes "with_args ne dec args k = (Inr r, evs)"
  obtains a where "dec args = Some a" "k a = (Inr r, evs)"
  using assms by (auto simp: with_args_def split: option.splits)

lemma mcp_allocate_traced: "mcp_allocate_pond srv ne cx a = (Inr r, evs) \<Longrightarrow> carries_trace ne cx (own_span ne cx) r"
  unfolding mcp_allocate_pond_def
  by (erule mcp_traced_ok) (auto simp: Let_def err_envelope_traced tool_body_traced split: sum.splits)

lemma mcp_statement_traced:
  assumes "mcp_statement srv ne cx name a run = (Inr r, evs)"
  shows "carries_trace ne cx (statement_span ne cx name run srv) r"
proof -
  obtain ident tok where i: "mcp_identity srv cx = Ok (ident, tok)" and
    r: "(case reject_zero ''timeout_ms'' (qa_timeout_ms a) of
       Some refusal \<Rightarrow> (err_envelope (ne_lib ne) (in_scope ne (mcp_trace_of ne cx) tok) refusal, [])
     | None \<Rightarrow> answered ne (in_scope ne (mcp_trace_of ne cx) tok) (ok_query (ne_lib ne) (in_scope ne (mcp_trace_of ne cx) tok) name)
          (run (in_scope ne (mcp_trace_of ne cx) tok) ident)) = (r, evs)"
    using assms unfolding mcp_statement_def by (rule mcp_traced_ok)
  have "carries_trace ne cx (statement_span ne cx name run srv) (ok_query (ne_lib ne) (in_scope ne (mcp_trace_of ne cx) tok) name qr)"
    if "fst (run (in_scope ne (mcp_trace_of ne cx) tok) ident) = Ok qr" for qr
    using that i by (auto simp: carries_trace_def statement_span_def ok_query_def tool_ok_def query_body_span [OF in_scope_trace(1)] trace_meta_def)
  then show ?thesis using r by (auto simp: err_envelope_traced split: option.splits intro: answered_traced)
qed

lemma mcp_body_traced:
  assumes "mcp_traced srv ne cx (\<lambda>w ident. tool_body ne w enc (m w ident)) = (Inr r, evs)" "\<And>x. plain_body (enc x)"
  shows "carries_trace ne cx (own_span ne cx) r"
  using assms(1) by (rule mcp_traced_ok) (rule tool_body_traced [OF _ assms(2)])

lemma mcp_tools_traced:
  "mcp_describe_pond srv ne cx p = (Inr r, evs) \<Longrightarrow> carries_trace ne cx (own_span ne cx) r"
  "mcp_list_ponds srv ne cx = (Inr r, evs) \<Longrightarrow> carries_trace ne cx (own_span ne cx) r"
  "mcp_drop_pond srv ne cx da = (Inr r, evs) \<Longrightarrow> carries_trace ne cx (own_span ne cx) r"
  "mcp_list_datasets srv ne cx q = (Inr r, evs) \<Longrightarrow> carries_trace ne cx (own_span ne cx) r"
  "mcp_load_dataset srv ne cx pd = (Inr r, evs) \<Longrightarrow> carries_trace ne cx (own_span ne cx) r"
  "mcp_list_catalogs srv ne cx q = (Inr r, evs) \<Longrightarrow> carries_trace ne cx (own_span ne cx) r"
  "mcp_describe_catalog srv ne cx dc = (Inr r, evs) \<Longrightarrow> carries_trace ne cx (own_span ne cx) r"
  "mcp_pull_catalog srv ne cx pc = (Inr r, evs) \<Longrightarrow> carries_trace ne cx (own_span ne cx) r"
  "mcp_get_lineage srv ne cx la = (Inr r, evs) \<Longrightarrow> carries_trace ne cx (own_span ne cx) r"
  unfolding mcp_describe_pond_def mcp_list_ponds_def mcp_drop_pond_def mcp_list_datasets_def mcp_load_dataset_def
    mcp_list_catalogs_def mcp_describe_catalog_def mcp_pull_catalog_def mcp_get_lineage_def
  by (erule mcp_body_traced, simp)+

lemma mcp_explain_traced: "mcp_explain_query srv ne cx a = (Inr r, evs) \<Longrightarrow> carries_trace ne cx (own_span ne cx) r"
  unfolding mcp_explain_query_def ok_explain_def by (erule mcp_traced_ok) (erule answered_traced, simp add: tool_ok_traced)

text \<open>The operation behind a statement tool.\<close>

definition statement_run :: "LatiqServer \<Rightarrow> string \<Rightarrow> QueryArgs \<Rightarrow> world \<Rightarrow> Identity \<Rightarrow> QueryResult act" where
  "statement_run srv name a w ident =
     (if name = ''read_query'' then read_collected w (ls_ops srv) ident (qa_pond a) (qa_sql a) (query_controls a)
      else run_query w (ls_ops srv) (qa_pond a) (qa_sql a) ident True (query_controls a))"

lemma call_tool_traced:
  assumes "call_tool srv ne cx name args = (Inr r, evs)"
  shows "carries_trace ne cx (\<lambda>r. if name \<in> {''read_query'', ''write_query''}
      then \<exists>a. query_args_from args = Some a \<and> statement_span ne cx name (statement_run srv name a) srv r else own_span ne cx r) r"
proof (cases "name \<in> {''read_query'', ''write_query''}")
  case True
  then obtain a where a: "query_args_from args = Some a" "mcp_statement srv ne cx name a (statement_run srv name a) = (Inr r, evs)"
    using assms by (auto simp: call_tool_def mcp_read_query_def mcp_write_query_def statement_run_def [abs_def] elim!: with_args_ok)
  then show ?thesis using mcp_statement_traced [OF a(2)] True by (auto simp: carries_trace_def)
next
  case False
  have "carries_trace ne cx (own_span ne cx) r"
    using assms False unfolding call_tool_def
    by (auto split: if_splits elim!: with_args_ok dest: mcp_allocate_traced mcp_tools_traced mcp_explain_traced)
  then show ?thesis using False by (simp add: carries_trace_def)
qed

section \<open>Properties\<close>


text \<open>C15. The door of the MCP surface is the door of the Data service: with the same verifier and the
  same headers a request for \<open>/mcp\<close> gets the 401 with the challenge exactly when the service would
  answer \<open>Unauthenticated\<close>, and otherwise reaches the tools as the very identity and token the
  service derives. Nothing else but the metadata document is answered without a token, and it names
  the verifier's issuers.\<close>

theorem mcp_door_is_the_service_door:
  assumes "under_mcp (hp_path req)"
  shows "(case fst (node_identity_of lib w (Some check) ch (hp_headers req) op) of
      Inl _ \<Rightarrow> serve_mcp lib addr (Some (check, cfg)) public (tool_service srv (Some check) ne name args) req
          = Unauthorized (carry lib (mcp_challenge addr public))
    | Inr (ident, tok) \<Rightarrow> \<exists>cx. serve_mcp lib addr (Some (check, cfg)) public (tool_service srv (Some check) ne name args) req
          = Service (call_tool (server_with_verifier srv (Some check)) ne cx name args)
          \<and> mcp_identity (server_with_verifier srv (Some check)) cx = Ok (ident, tok) \<and> tok = bearer_of (hp_headers req)
          \<and> cx_header cx = hp_headers req)
    \<and> (\<forall>other. (hp_path other = PROTECTED_RESOURCE_PATH \<longrightarrow>
          serve_mcp lib addr (Some (check, cfg)) public (tool_service srv (Some check) ne name args) other
          = Document (metadata_new (mcp_resource addr public) (map ic_issuer (ac_issuers cfg))))
      \<and> (hp_path other \<noteq> PROTECTED_RESOURCE_PATH \<and> bearer_of (hp_headers other) = None \<longrightarrow>
          serve_mcp lib addr (Some (check, cfg)) public (tool_service srv (Some check) ne name args) other
          = Unauthorized (carry lib (mcp_challenge addr public))))"
proof -
  have path: "hp_path req \<noteq> PROTECTED_RESOURCE_PATH" using assms(1) by (auto simp: under_mcp_def PROTECTED_RESOURCE_PATH_def starts_with_def)
  have prp: "\<not> under_mcp PROTECTED_RESOURCE_PATH" by (simp add: under_mcp_def PROTECTED_RESOURCE_PATH_def starts_with_def)
  have "case fst (node_identity_of lib w (Some check) ch (hp_headers req) op) of
      Inl _ \<Rightarrow> serve_mcp lib addr (Some (check, cfg)) public (tool_service srv (Some check) ne name args) req
          = Unauthorized (carry lib (mcp_challenge addr public))
    | Inr (ident, tok) \<Rightarrow> \<exists>cx. serve_mcp lib addr (Some (check, cfg)) public (tool_service srv (Some check) ne name args) req
          = Service (call_tool (server_with_verifier srv (Some check)) ne cx name args)
          \<and> mcp_identity (server_with_verifier srv (Some check)) cx = Ok (ident, tok) \<and> tok = bearer_of (hp_headers req)
          \<and> cx_header cx = hp_headers req"
    using path assms(1)
    by (auto simp: node_identity_of_def serve_mcp_def verify_bearer_def bearer_of_def http_unauthorized_def AGENT_ID_HEADER_def
        mcp_routes_def mcp_identity_def server_with_verifier_def Let_def cx_header_def tool_service_def
        split: option.split sum.split intro!: exI)
  moreover have "(hp_path other = PROTECTED_RESOURCE_PATH \<longrightarrow>
          serve_mcp lib addr (Some (check, cfg)) public (tool_service srv (Some check) ne name args) other
          = Document (metadata_new (mcp_resource addr public) (map ic_issuer (ac_issuers cfg))))
      \<and> (hp_path other \<noteq> PROTECTED_RESOURCE_PATH \<and> bearer_of (hp_headers other) = None \<longrightarrow>
          serve_mcp lib addr (Some (check, cfg)) public (tool_service srv (Some check) ne name args) other
          = Unauthorized (carry lib (mcp_challenge addr public)))" for other
    using prp by (simp add: serve_mcp_def verify_bearer_def mcp_routes_def bearer_of_def http_unauthorized_def)
  ultimately show ?thesis by blast
qed

definition demo_request :: http_parts where
  "demo_request = \<lparr>hp_path = ''/mcp'', hp_headers = demo_headers, hp_caller = None\<rparr>"

definition demo_addr :: SocketAddr where
  "demo_addr = \<lparr>sa_text = ''10.0.0.1:51402'', sa_port = 51402\<rparr>"

theorem mcp_door_is_the_service_door_witness:
  "\<exists>cx. serve_mcp demo_codec demo_addr (Some (\<lambda>_ _. Ok demo_ident, demo_auth)) None
        (tool_service (latiq_server_new demo_agent) (Some (\<lambda>_ _. Ok demo_ident)) (demo_node ''n1'' demo_codec (\<lambda>_. Err ''down'')) ''list_ponds'' JNull) demo_request
      = Service (call_tool (server_with_verifier (latiq_server_new demo_agent) (Some (\<lambda>_ _. Ok demo_ident)))
          (demo_node ''n1'' demo_codec (\<lambda>_. Err ''down'')) cx ''list_ponds'' JNull)
    \<and> mcp_identity (server_with_verifier (latiq_server_new demo_agent) (Some (\<lambda>_ _. Ok demo_ident))) cx = Ok (demo_ident, Some ''h.p.s'')"
proof -
  have "under_mcp (hp_path demo_request)" by (simp add: demo_request_def under_mcp_def)
  note d = mcp_door_is_the_service_door [OF this, where lib = demo_codec and w = "demo_world None None"
      and check = "\<lambda>_ _. Ok demo_ident" and ch = None and op = "''list_ponds''" and addr = demo_addr and cfg = demo_auth and public = None
      and srv = "latiq_server_new demo_agent" and ne = "demo_node ''n1'' demo_codec (\<lambda>_. Err ''down'')" and name = "''list_ponds''" and args = JNull]
  have "fst (node_identity_of demo_codec (demo_world None None) (Some (\<lambda>_ _. Ok demo_ident)) None (hp_headers demo_request) ''list_ponds'')
      = Ok (demo_ident, Some ''h.p.s'')"
    using demo_bearer by (simp add: node_identity_of_def demo_request_def)
  then show ?thesis using d [THEN conjunct1] by auto
qed

definition tool_arguments :: "(string \<times> string list) list" where
  "tool_arguments =
     [(''allocate_pond'', [''name'', ''tier'', ''extensions'', ''lineage'']), (''describe_pond'', [''pond'']),
      (''drop_pond'', [''pond'', ''confirm'']), (''read_query'', [''pond'', ''sql'', ''timeout_ms'']),
      (''write_query'', [''pond'', ''sql'', ''timeout_ms'']), (''explain_query'', [''pond'', ''sql'']), (''list_datasets'', [''query'']),
      (''load_dataset'', [''pond'', ''dataset'']), (''list_catalogs'', [''query'']), (''describe_catalog'', [''pond'', ''catalog'', ''set'']),
      (''pull_catalog'', [''pond'', ''catalog'', ''query'', ''set'']), (''get_lineage'', [''pond'', ''limit'', ''since'', ''before''])]"

definition refused_value :: "string \<Rightarrow> Value \<Rightarrow> bool" where
  "refused_value name args \<longleftrightarrow>
     name \<in> {''read_query'', ''write_query''} \<and> (\<exists>a. query_args_from args = Some a \<and> qa_timeout_ms a = Some 0)
   \<or> name = ''allocate_pond'' \<and> (\<exists>a. allocate_args_from args = Some a \<and>
       ((\<exists>n. aa_name a = Some n \<and> \<not> is_ok (pond_name_validate n)) \<or> (\<exists>es. aa_extensions a = Some es \<and> \<not> is_ok (ext_validate es))))"

lemmas arg_decoders = allocate_args_from_def pond_ref_args_from_def drop_args_from_def query_args_from_def explain_args_from_def
  search_args_from_def load_args_from_def catalog_describe_args_from_def catalog_pull_args_from_def lineage_args_from_def

lemma closed_args_unknown: "\<not> known_only ks v \<Longrightarrow> closed_args ks dec v = None"
  by (simp add: closed_args_def)

lemma unknown_argument_refused:
  assumes "(name, ks) \<in> set tool_arguments" "\<not> known_only ks args"
  shows "call_tool srv ne cx name args = (Err (InvalidParams (shape_error (ne_lib ne) args)), [])"
  using assms(1) unfolding tool_arguments_def list.set insert_iff empty_iff prod.inject
  by (elim disjE conjE FalseE; hypsubst)
     (use assms(2) in \<open>simp_all only: call_tool_def with_args_def arg_decoders closed_args_unknown option.case simp_thms if_True if_False
        list.inject char.inject list.distinct\<close>)

definition refusal :: "CallToolResult \<Rightarrow> bool" where
  "refusal r \<longleftrightarrow> ct_is_error r \<and> (\<exists>env. ct_structured r = envelope_json env \<and> kind env = InvalidValue \<and> retryable env = AfterChange)"

lemma err_envelope_refusal: "kind e = InvalidValue \<Longrightarrow> retryable e = AfterChange \<Longrightarrow> refusal (err_envelope lib w e)"
  by (auto simp: refusal_def err_envelope_def with_trace_id_def with_traceparent_def intro!: exI)

lemma zero_timeout_refused:
  assumes "qa_timeout_ms a = Some 0" "mcp_identity srv cx = Ok who"
  shows "\<exists>r. mcp_statement srv ne cx name a run = (Ok r, []) \<and> refusal r"
  using assms by (cases who) (auto simp: mcp_statement_def mcp_traced_def reject_zero_def rendered_with_def Let_def intro!: err_envelope_refusal)

lemma bad_allocation_refused:
  assumes "(\<exists>n. aa_name a = Some n \<and> \<not> is_ok (pond_name_validate n)) \<or> (\<exists>es. aa_extensions a = Some es \<and> \<not> is_ok (ext_validate es))"
    and "mcp_identity srv cx = Ok who"
  shows "\<exists>r. mcp_allocate_pond srv ne cx a = (Ok r, []) \<and> refusal r"
proof -
  have r: "refusal (err_envelope lib w (envelope_new InvalidValue m s l))" "refusal (err_envelope lib w (unsupported_extension m))" for lib w m s l
    by (simp_all add: err_envelope_refusal envelope_new_def unsupported_extension_def)
  show ?thesis
  proof (cases "\<exists>n. aa_name a = Some n \<and> \<not> is_ok (pond_name_validate n)")
    case True
    then obtain n where n: "aa_name a = Some n" "\<not> is_ok (pond_name_validate n)" by blast
    then obtain e where "pond_name_validate n = Inl e" by (cases "pond_name_validate n") (simp_all add: is_ok_def)
    note this n(1)
    then show ?thesis using assms(2) r(1) by (cases who) (simp add: mcp_allocate_pond_def mcp_traced_def Let_def)
  next
    case False
    then obtain es where es: "aa_extensions a = Some es" "\<not> is_ok (ext_validate es)" using assms(1) by blast
    then obtain e where "ext_validate es = Inl e" by (cases "ext_validate es") (simp_all add: is_ok_def)
    note e = es(1) this
    have "\<exists>x. (case aa_name a of None \<Rightarrow> Ok () | Some n \<Rightarrow> pond_name_validate n) = Inr x"
    proof (cases "aa_name a")
      case (Some n)
      then show ?thesis using False by (cases "pond_name_validate n") (simp_all add: is_ok_def)
    qed simp
    then show ?thesis using assms(2) r(2) e by (cases who) (auto simp: mcp_allocate_pond_def mcp_traced_def Let_def)
  qed
qed

lemma refused_value_answer:
  assumes "refused_value name args" "mcp_identity srv cx = Ok who"
  shows "\<exists>r. call_tool srv ne cx name args = (Ok r, []) \<and> refusal r"
  using assms(1) zero_timeout_refused [OF _ assms(2)] bad_allocation_refused [OF _ assms(2)] unfolding refused_value_def
  by (elim disjE conjE exE insertE emptyE) (simp_all add: call_tool_def with_args_def mcp_read_query_def mcp_write_query_def)

text \<open>C18. A call this surface refuses has done nothing: an argument that one of the twelve tools with
  arguments does not have, a zero timeout, a pond name or an extension outside the rules. The first
  is a protocol error, the others are answered with an \<open>invalid_value\<close> envelope that says the call may
  be sent again after a change, and names the trace of its request. The thirteenth tool, \<open>list_ponds\<close>,
  takes no arguments and ignores whatever it is sent.\<close>

theorem refused_calls_run_nothing:
  assumes "mcp_identity srv cx = Ok who"
  shows "(\<forall>ks. (name, ks) \<in> set tool_arguments \<and> \<not> known_only ks args \<longrightarrow>
        call_tool srv ne cx name args = (Err (InvalidParams (shape_error (ne_lib ne) args)), []))
    \<and> (refused_value name args \<longrightarrow> (\<exists>r env. call_tool srv ne cx name args = (Ok r, []) \<and> ct_is_error r \<and> ct_structured r = envelope_json env
        \<and> kind env = InvalidValue \<and> retryable env = AfterChange \<and> ct_meta r = Some [(''traceparent'', JString (traceparent (mcp_trace_of ne cx)))]))
    \<and> call_tool srv ne cx ''list_ponds'' args = call_tool srv ne cx ''list_ponds'' args'"
proof -
  have "\<exists>r env. call_tool srv ne cx name args = (Ok r, []) \<and> ct_is_error r \<and> ct_structured r = envelope_json env
      \<and> kind env = InvalidValue \<and> retryable env = AfterChange \<and> ct_meta r = Some [(''traceparent'', JString (traceparent (mcp_trace_of ne cx)))]"
    if v: "refused_value name args"
  proof -
    obtain r where r: "call_tool srv ne cx name args = (Ok r, [])" "refusal r" using refused_value_answer [OF v assms] by blast
    then show ?thesis using call_tool_traced [OF r(1)] by (auto simp: refusal_def carries_trace_def TRACEPARENT_META_def)
  qed
  moreover have "call_tool srv ne cx ''list_ponds'' args = call_tool srv ne cx ''list_ponds'' args'" by (simp add: call_tool_def)
  ultimately show ?thesis using unknown_argument_refused by blast
qed

definition demo_context :: RequestContext where
  "demo_context = \<lparr>cx_parts = Some demo_request\<rparr>"

theorem refused_calls_run_nothing_witness:
  "\<exists>r. call_tool (latiq_server_new demo_agent) (demo_node ''n1'' demo_codec (\<lambda>_. Err ''down'')) demo_context ''allocate_pond''
      (JObject [(''name'', JString [])]) = (Ok r, []) \<and> ct_is_error r"
proof -
  have i: "mcp_identity (latiq_server_new demo_agent) demo_context = Ok (identity_claimed (Some ''bot''), None)"
    by (simp add: mcp_identity_def latiq_server_new_def cx_header_def demo_context_def demo_request_def AGENT_ID_HEADER_def demo_headers_def)
  have "refused_value ''allocate_pond'' (JObject [(''name'', JString [])])"
    by (simp add: refused_value_def allocate_args_from_def closed_args_def known_only_def arg_opt_def may_def dec_opt_def
        pond_name_validate_def is_ok_def)
  then show ?thesis
    using refused_calls_run_nothing [OF i, of "''allocate_pond''" "JObject [(''name'', JString [])]" "demo_node ''n1'' demo_codec (\<lambda>_. Err ''down'')"]
    by blast
qed


definition same_answer :: "rpc_lib \<Rightarrow> world \<Rightarrow> string served \<Rightarrow> tool_answer \<Rightarrow> bool" where
  "same_answer lib w sv tool \<longleftrightarrow>
     snd sv = snd tool
   \<and> (\<exists>r. fst tool = Ok r \<and>
        (case fst sv of
           Inl s \<Rightarrow> ct_is_error r \<and> gs_details s = to_text lib (ct_structured r)
         | Inr body \<Rightarrow> \<not> ct_is_error r \<and> (\<exists>v. body = to_text lib v \<and> ct_structured r = with_body_traceparent w v)))"

lemma node_identity_any_op:
  assumes "fst (node_identity_of lib w ver ch md op) = Ok x"
  shows "node_identity_of lib w ver ch md op2 = (Ok x, [])"
  using assms by (auto simp: node_identity_of_def Let_def split: option.splits sum.splits)

lemma same_scope:
  assumes "cx_header cx = md"
  shows "in_scope ne (request_trace (ne_uuid1 ne) (ne_uuid2 ne) md) tok = in_scope ne (mcp_trace_of ne cx) tok"
  using assms by (simp add: request_trace_def mcp_trace_of_def TRACEPARENT_HEADER_def)

lemma same_answerI:
  assumes "fst (node_identity_of (ne_lib ne) (ne_world ne) (ds_verifier svc) (ds_challenge svc) md op) = Ok (ident, tok)"
    and "mcp_identity srv cx = Ok (ident, tok)" and "cx_header cx = md"
  shows "same_answer (ne_lib ne) (in_scope ne (mcp_trace_of ne cx) tok)
     (traced svc ne md op2 body (json_resp ne enc)) (mcp_traced srv ne cx (\<lambda>w i. tool_body ne w enc (body w i)))"
  using node_identity_any_op [OF assms(1)] assms(2)
  by (auto simp: same_answer_def traced_def mcp_traced_def tool_body_def answered_def Let_def same_scope [OF assms(3)] json_resp_def
      data_to_status_def err_envelope_def tool_ok_def split: sum.split)

text \<open>The same for a call whose two answers are made of one result by different encoders.\<close>

definition same_call :: "rpc_lib \<Rightarrow> ('b \<Rightarrow> Value \<Rightarrow> bool) \<Rightarrow> 'b served \<Rightarrow> tool_answer \<Rightarrow> bool" where
  "same_call lib rel sv tool \<longleftrightarrow>
     snd sv = snd tool
   \<and> (\<exists>r. fst tool = Ok r \<and>
        (case fst sv of
           Inl s \<Rightarrow> ct_is_error r \<and> gs_details s = to_text lib (ct_structured r)
         | Inr x \<Rightarrow> \<not> ct_is_error r \<and> rel x (ct_structured r)))"

lemma same_callI:
  assumes "fst (node_identity_of (ne_lib ne) (ne_world ne) (ds_verifier svc) (ds_challenge svc) md op) = Ok (ident, tok)"
    and "mcp_identity srv cx = Ok (ident, tok)" and "cx_header cx = md"
    and "\<And>x. rel (k (in_scope ne (mcp_trace_of ne cx) tok) x) (with_body_traceparent (in_scope ne (mcp_trace_of ne cx) tok) (enc x))"
  shows "same_call (ne_lib ne) rel (traced svc ne md op2 body k) (mcp_traced srv ne cx (\<lambda>w i. tool_body ne w enc (body w i)))"
  using node_identity_any_op [OF assms(1)] assms(2,4)
  by (auto simp: same_call_def traced_def mcp_traced_def tool_body_def answered_def Let_def same_scope [OF assms(3)]
      data_to_status_def err_envelope_def tool_ok_def split: sum.split)

lemma mcp_allocate_valid:
  assumes "nm = [] \<or> pond_name_validate nm = Ok ()"
  shows "mcp_allocate_pond srv ne cx \<lparr>aa_name = non_empty nm, aa_tier = non_empty tr, aa_extensions = None, aa_lineage = Some lin\<rparr>
    = mcp_traced srv ne cx (\<lambda>w i. tool_body ne w allocate_json
        (allocate_pond w i (if nm = [] then None else Some nm) (if [] = ([] :: string) then ''{}'' else []) (if tr = [] then ''medium'' else tr) [] lin))"
proof -
  have "ext_validate [] = Ok []" by code_simp
  then show ?thesis using assms by (auto simp: mcp_allocate_pond_def non_empty_def Let_def)
qed

text \<open>C16. The tools and the Data service of one node are the same operations, for eight of the tools: for a
  call that both admit as the same caller, on the same headers, the node does exactly the same things
  in the same order, the call succeeds on both or on neither, and the error envelope is the same. A
  success of \<open>describe_pond\<close>, \<open>explain_query\<close>, \<open>load_dataset\<close>, \<open>pull_catalog\<close>, \<open>describe_catalog\<close> and
  \<open>get_lineage\<close> is the same value, to which the tool adds only the trace; of \<open>drop_pond\<close> the tool says
  which pond was dropped where the service says nothing; and \<open>allocate_pond\<close>, which only the tool may
  give extensions, names the same pond when it is given none and a valid name. The two statements are
  not among them: their tools can be cancelled by the client and their bodies differ in shape.\<close>

theorem tools_agree_with_the_service:
  assumes "fst (node_identity_of (ne_lib ne) (ne_world ne) (ds_verifier svc) (ds_challenge svc) md op) = Ok (ident, tok)"
    and "mcp_identity srv cx = Ok (ident, tok)" and "cx_header cx = md" and "ls_ops srv = ds_ops svc"
  shows "same_answer (ne_lib ne) (in_scope ne (mcp_trace_of ne cx) tok) (rpc_describe_pond svc ne md pond) (mcp_describe_pond srv ne cx pond)
    \<and> same_answer (ne_lib ne) (in_scope ne (mcp_trace_of ne cx) tok)
        (rpc_explain_query svc ne md \<lparr>q_pond = pond, q_sql = sql, q_timeout_ms = t\<rparr>) (mcp_explain_query srv ne cx (pond, sql))
    \<and> same_answer (ne_lib ne) (in_scope ne (mcp_trace_of ne cx) tok) (rpc_load_dataset svc ne md pond d) (mcp_load_dataset srv ne cx (pond, d))
    \<and> same_answer (ne_lib ne) (in_scope ne (mcp_trace_of ne cx) tok)
        (rpc_catalog_pull svc ne md \<lparr>cq_pond = pond, cq_catalog = c, cq_query = sql, cq_params = kvs\<rparr>)
        (mcp_pull_catalog srv ne cx \<lparr>cpa_pond = pond, cpa_catalog = c, cpa_query = sql, cpa_set = Some kvs\<rparr>)
    \<and> same_answer (ne_lib ne) (in_scope ne (mcp_trace_of ne cx) tok)
        (rpc_catalog_describe svc ne md \<lparr>cd_pond = pond, cd_catalog = c, cd_params = kvs\<rparr>)
        (mcp_describe_catalog srv ne cx \<lparr>cda_pond = pond, cda_catalog = c, cda_set = Some kvs\<rparr>)
    \<and> same_answer (ne_lib ne) (in_scope ne (mcp_trace_of ne cx) tok)
        (rpc_get_lineage svc ne md \<lparr>gl_pond = pond, gl_limit = n, gl_since = lo, gl_before = hi\<rparr>)
        (mcp_get_lineage srv ne cx \<lparr>la_pond = pond, la_limit = Some n, la_since = non_empty lo, la_before = non_empty hi\<rparr>)
    \<and> same_call (ne_lib ne) (\<lambda>_ v. v = with_body_traceparent (in_scope ne (mcp_trace_of ne cx) tok) (drop_pond_json ''dropped'' pond))
        (rpc_drop_pond svc ne md pond b) (mcp_drop_pond srv ne cx \<lparr>da_pond = pond, da_confirm = Some b\<rparr>)
    \<and> (nm = [] \<or> pond_name_validate nm = Ok () \<longrightarrow>
        same_call (ne_lib ne) (\<lambda>(pid, pname) v. v = with_body_traceparent (in_scope ne (mcp_trace_of ne cx) tok)
            (json_object [(''pond_id'', JString pid), (''pond_name'', JString pname)]))
          (rpc_allocate_pond svc ne md \<lparr>ap_name = nm, ap_policy_json = [], ap_tier = tr, ap_lineage = lin\<rparr>)
          (mcp_allocate_pond srv ne cx \<lparr>aa_name = non_empty nm, aa_tier = non_empty tr, aa_extensions = None, aa_lineage = Some lin\<rparr>))"
proof -
  note s = same_answerI [OF assms(1,2,3)] and c = same_callI [OF assms(1,2,3)]
  note d = rpc_describe_pond_def mcp_describe_pond_def rpc_explain_query_def mcp_explain_query_def ok_explain_def
    rpc_load_dataset_def mcp_load_dataset_def rpc_catalog_pull_def mcp_pull_catalog_def rpc_catalog_describe_def mcp_describe_catalog_def
    rpc_get_lineage_def mcp_get_lineage_def set_params_def
  have "same_call (ne_lib ne) (\<lambda>_ v. v = with_body_traceparent (in_scope ne (mcp_trace_of ne cx) tok) (drop_pond_json ''dropped'' pond))
      (rpc_drop_pond svc ne md pond b) (mcp_drop_pond srv ne cx \<lparr>da_pond = pond, da_confirm = Some b\<rparr>)"
    unfolding rpc_drop_pond_def mcp_drop_pond_def assms(4) by (simp only: DropArgs.simps option.case) (rule c, rule refl)
  moreover have "same_call (ne_lib ne) (\<lambda>(pid, pname) v. v = with_body_traceparent (in_scope ne (mcp_trace_of ne cx) tok)
            (json_object [(''pond_id'', JString pid), (''pond_name'', JString pname)]))
          (rpc_allocate_pond svc ne md \<lparr>ap_name = nm, ap_policy_json = [], ap_tier = tr, ap_lineage = lin\<rparr>)
          (mcp_allocate_pond srv ne cx \<lparr>aa_name = non_empty nm, aa_tier = non_empty tr, aa_extensions = None, aa_lineage = Some lin\<rparr>)"
    if "nm = [] \<or> pond_name_validate nm = Ok ()"
    unfolding rpc_allocate_pond_def mcp_allocate_valid [OF that] AllocatePondRequest.simps by (rule c) (simp add: allocate_json_def)
  ultimately show ?thesis
    by (intro conjI impI) (unfold d assms(4), simp_all add: tool_body_def [symmetric], (rule s)+)
qed

theorem tools_agree_with_the_service_witness:
  "same_answer demo_codec (in_scope (demo_node ''n1'' demo_codec (\<lambda>_. Err ''down'')) (mcp_trace_of (demo_node ''n1'' demo_codec (\<lambda>_. Err ''down'')) demo_context) None)
     (rpc_describe_pond (demo_service ''n1'' None) (demo_node ''n1'' demo_codec (\<lambda>_. Err ''down'')) demo_headers ''pond'')
     (mcp_describe_pond (latiq_server_new (ds_ops (demo_service ''n1'' None))) (demo_node ''n1'' demo_codec (\<lambda>_. Err ''down'')) demo_context ''pond'')"
proof -
  let ?ne = "demo_node ''n1'' demo_codec (\<lambda>_. Err ''down'')"
  have "fst (node_identity_of (ne_lib ?ne) (ne_world ?ne) (ds_verifier (demo_service ''n1'' None)) (ds_challenge (demo_service ''n1'' None))
      demo_headers ''describe_pond'') = Ok (identity_claimed (Some ''bot''), None)"
    by (simp add: node_identity_of_def demo_service_def with_verifier_def demo_headers_def Let_def)
  moreover have "mcp_identity (latiq_server_new (ds_ops (demo_service ''n1'' None))) demo_context = Ok (identity_claimed (Some ''bot''), None)"
    by (simp add: mcp_identity_def latiq_server_new_def cx_header_def demo_context_def demo_request_def AGENT_ID_HEADER_def demo_headers_def)
  moreover have "cx_header demo_context = demo_headers" by (rule ext) (simp add: cx_header_def demo_context_def demo_request_def)
  moreover have "ls_ops (latiq_server_new (ds_ops (demo_service ''n1'' None))) = ds_ops (demo_service ''n1'' None)" by (simp add: latiq_server_new_def)
  moreover have "ne_lib ?ne = demo_codec" by (simp add: demo_node_def)
  ultimately show ?thesis using tools_agree_with_the_service by metis
qed

section \<open>Pages, prompts and schemas\<close>

lemma read_resource_served: "read_resource uri \<noteq> None \<longleftrightarrow> uri \<in> set (map res_uri RESOURCES)"
  by (auto simp: read_resource_def find_None_iff)

lemma every_kind_is_listed: "k \<in> set ErrorKind_ALL"
  by (cases k) (simp_all add: ErrorKind_ALL_def)

lemma every_see_is_served: "list_all (\<lambda>k. List.member (map res_uri RESOURCES) (default_see k)) ErrorKind_ALL"
  by code_simp

lemma required_arg_ok: "is_ok (required_arg def args k) \<longleftrightarrow> given args k \<noteq> None"
  by (simp add: required_arg_def is_ok_def split: option.split)

lemma find_by_name: "distinct (map f xs) \<Longrightarrow> x \<in> set xs \<Longrightarrow> List.find (\<lambda>y. f y = f x) xs = Some x"
  by (induction xs) auto

definition prompt_shape :: "PromptDef \<Rightarrow> string \<times> (string \<times> bool) list" where
  "prompt_shape def = (prompt_name def, map (\<lambda>(k, _, req). (k, req)) (prompt_args def))"

lemma prompt_shapes:
  "map prompt_shape PROMPTS =
     [(''setup_multi_agent_pond'', [(''pond_name'', True), (''domain'', False)]), (''discover_existing_pond'', [(''search_term'', True), (''intent'', False)]),
      (''design_collaborative_schema'', [(''domain'', True)]), (''recover_from_conflict'', [(''pond_name'', True)])]"
  by code_simp

lemma prompt_names_distinct: "distinct (map prompt_name PROMPTS)"
proof -
  have "map prompt_name PROMPTS = map fst (map prompt_shape PROMPTS)" by (simp add: prompt_shape_def)
  then show ?thesis unfolding prompt_shapes by simp
qed

lemma is_ok_map_ok [simp]: "is_ok (map_ok f r) \<longleftrightarrow> is_ok r"
  by (cases r) (simp_all add: is_ok_def)

lemma prompt_text_each:
  "is_ok (prompt_text def ''setup_multi_agent_pond'' args) \<longleftrightarrow> given args ''pond_name'' \<noteq> None"
  "is_ok (prompt_text def ''discover_existing_pond'' args) \<longleftrightarrow> given args ''search_term'' \<noteq> None"
  "is_ok (prompt_text def ''design_collaborative_schema'' args) \<longleftrightarrow> given args ''domain'' \<noteq> None"
  "is_ok (prompt_text def ''recover_from_conflict'' args) \<longleftrightarrow> given args ''pond_name'' \<noteq> None"
  by (simp_all only: prompt_text_def is_ok_map_ok required_arg_ok list.inject char.inject list.distinct simp_thms if_True if_False)

lemma prompt_text_ok:
  assumes "(name, ks) \<in> set (map prompt_shape PROMPTS)"
  shows "is_ok (prompt_text def name args) \<longleftrightarrow> (\<forall>(k, req) \<in> set ks. req \<longrightarrow> given args k \<noteq> None)"
  using assms unfolding prompt_shapes list.set insert_iff empty_iff prod.inject
  by (elim disjE conjE FalseE; hypsubst) (simp_all only: prompt_text_each list.set ball_simps prod.case simp_thms)

lemma get_prompt_ok:
  assumes "def \<in> set PROMPTS"
  shows "is_ok (get_prompt (prompt_name def) args) \<longleftrightarrow> (\<forall>(k, _, req) \<in> set (prompt_args def). req \<longrightarrow> given args k \<noteq> None)"
proof -
  have "prompt_shape def \<in> set (map prompt_shape PROMPTS)" using assms by simp
  then have "(prompt_name def, map (\<lambda>(k, _, req). (k, req)) (prompt_args def)) \<in> set (map prompt_shape PROMPTS)" unfolding prompt_shape_def .
  from prompt_text_ok [OF this] show ?thesis
    by (simp add: get_prompt_def find_by_name [OF prompt_names_distinct assms] split_beta)
qed

text \<open>What the surface tells an agent is what the code does: a request for an extension the dialect page
  offers at allocation is accepted and gives it, one for an extension it calls always loaded is
  accepted and changes nothing, and one for an extension reached through a catalog is refused; the
  page every kind of error points to is one this server serves; and a prompt is refused for a missing
  argument exactly when one it declares as required is absent or blank.\<close>

lemma advertised_is_enforced:
  "(\<forall>e \<in> set EXTENSIONS. case ext_availability e of
      AskAtAllocation \<Rightarrow> ext_validate [ext_name e] = Ok [ext_name e]
    | AlwaysLoaded \<Rightarrow> ext_validate [ext_name e] = Ok []
    | ViaPullCatalog \<Rightarrow> ext_validate [ext_name e] = Err (ExtensionUnsupported (ext_name e)))
   \<and> (\<forall>k. read_resource (default_see k) \<noteq> None)
   \<and> (\<forall>def \<in> set PROMPTS. is_ok (get_prompt (prompt_name def) args) \<longleftrightarrow>
        (\<forall>(k, _, req) \<in> set (prompt_args def). req \<longrightarrow> given args k \<noteq> None))"
proof -
  have "\<forall>e \<in> set EXTENSIONS. case ext_availability e of
      AskAtAllocation \<Rightarrow> ext_validate [ext_name e] = Ok [ext_name e]
    | AlwaysLoaded \<Rightarrow> ext_validate [ext_name e] = Ok []
    | ViaPullCatalog \<Rightarrow> ext_validate [ext_name e] = Err (ExtensionUnsupported (ext_name e))"
    by code_simp
  moreover have "read_resource (default_see k) \<noteq> None" for k
    unfolding read_resource_served using every_see_is_served every_kind_is_listed [of k] by (simp add: list_all_iff)
  moreover have "is_ok (get_prompt (prompt_name def) args) \<longleftrightarrow> (\<forall>(k, _, req) \<in> set (prompt_args def). req \<longrightarrow> given args k \<noteq> None)"
    if "def \<in> set PROMPTS" for def
    by (rule get_prompt_ok [OF that])
  ultimately show ?thesis by blast
qed

lemma advertised_is_enforced_example:
  "\<not> is_ok (get_prompt ''design_collaborative_schema'' [])
   \<and> is_ok (get_prompt ''design_collaborative_schema'' [(''domain'', JString ''sales'')])"
proof -
  let ?d = "PROMPTS ! 2"
  have d: "?d \<in> set PROMPTS" "prompt_name ?d = ''design_collaborative_schema''" "map (\<lambda>(k, _, req). (k, req)) (prompt_args ?d) = [(''domain'', True)]"
    by (simp_all add: PROMPTS_def)
  then obtain t where "prompt_args ?d = [(''domain'', t, True)]" by (cases "prompt_args ?d") (auto split: prod.splits)
  then have "is_ok (get_prompt ''design_collaborative_schema'' args) \<longleftrightarrow> given args ''domain'' \<noteq> None" for args
    using advertised_is_enforced [THEN conjunct2, THEN conjunct2, THEN bspec, OF d(1), of args] d(2) by simp
  moreover have "given [] ''domain'' = None" "given [(''domain'', JString ''sales'')] ''domain'' = Some ''sales''" by code_simp+
  ultimately show ?thesis by simp
qed

text \<open>A published schema has no prose in any of its schemas, and declares the \<open>_meta\<close> every success
  body carries.\<close>

definition clean_schema :: "Value \<Rightarrow> bool" where
  "clean_schema v \<longleftrightarrow> (\<forall>t. schema_in ASchema v t \<longrightarrow> ''description'' \<notin> fst ` set t)"

lemma clean_entries:
  assumes "''description'' \<notin> fst ` set m" "\<And>k v t. (k, v) \<in> set m \<Longrightarrow> schema_in (keyword_position k) v t \<Longrightarrow> ''description'' \<notin> fst ` set t"
  shows "clean_schema (JObject m)"
  unfolding clean_schema_def
proof (intro allI impI)
  fix t assume "schema_in ASchema (JObject m) t"
  then show "''description'' \<notin> fst ` set t" by (rule schema_inE(1)) (use assms in blast)+
qed

lemma map_of_bt_insert_same: "map_of (bt_insert k v m) k = Some v"
  by (induction k v m rule: bt_insert.induct) auto

lemma stub_clean:
  "clean_schema (json_object [(''type'', JString ''object''),
     (''properties'', json_object [(''traceparent'', json_object [(''type'', JString ''string'')])])])"
  unfolding clean_schema_def json_object_def bt_extend_def
  by (auto elim!: schema_inE simp: keyword_position_def SCHEMA_MAPS_def SUBSCHEMAS_def SCHEMA_LISTS_def)

lemma published_schema_is_clean:
  assumes "build_schema root = Some s"
  shows "clean_schema (JObject s) \<and> (\<forall>props. map_of s ''properties'' = Some (JObject props) \<longrightarrow> map_of props BODY_META \<noteq> None)"
proof -
  obtain m where m: "root = JObject m" "s = declare_body_meta (strip_descriptions m)"
    using assms by (auto simp: build_schema_def Let_def split: Value.splits if_splits)
  have c: "''description'' \<notin> fst ` set t" if "schema_in ASchema (JObject (strip_descriptions m)) t" for t
    using that unfolding strip_descriptions_eq by (rule strip_at_clean)
  let ?d = "strip_descriptions m"
  show ?thesis
  proof (cases "\<exists>props. map_of ?d ''properties'' = Some (JObject props) \<and> map_of props BODY_META = None")
    case False
    then have "s = ?d" using m(2) by (auto simp: declare_body_meta_def split: option.splits Value.splits)
    then show ?thesis using c False by (auto simp: clean_schema_def)
  next
    case True
    then obtain props where p: "map_of ?d ''properties'' = Some (JObject props)" "map_of props BODY_META = None" by blast
    define stub where "stub = json_object [(''type'', JString ''object''), (''properties'', json_object [(''traceparent'', json_object [(''type'', JString ''string'')])])]"
    have s: "s = bt_insert ''properties'' (JObject (bt_insert BODY_META stub props)) ?d" using m(2) p unfolding stub_def by (simp add: declare_body_meta_def)
    have "clean_schema (JObject s)"
    proof (rule clean_entries)
      show "''description'' \<notin> fst ` set s" using c [OF schema_in.here] unfolding s by (simp add: fst_set_bt_insert)
      fix k v t assume kv: "(k, v) \<in> set s" "schema_in (keyword_position k) v t"
      then consider (new) "k = ''properties''" "v = JObject (bt_insert BODY_META stub props)" | (old) "(k, v) \<in> set ?d"
        using subsetD [OF set_bt_insert kv(1) [unfolded s]] by auto
      then show "''description'' \<notin> fst ` set t"
      proof cases
        case old
        then show ?thesis using c schema_in.keyword kv(2) by blast
      next
        case new
        have kp: "keyword_position ''properties'' = SchemaMap" by (simp add: keyword_position_def SCHEMA_MAPS_def)
        then have "schema_in SchemaMap (JObject (bt_insert BODY_META stub props)) t" using kv(2) new by simp
        then obtain n x where x: "(n, x) \<in> set (bt_insert BODY_META stub props)" "schema_in ASchema x t" by (rule schema_inE(2))
        then consider "x = stub" | "(n, x) \<in> set props" using subsetD [OF set_bt_insert x(1)] by auto
        then show ?thesis
        proof cases
          case 1
          then show ?thesis using stub_clean x(2) unfolding clean_schema_def stub_def by blast
        next
          case 2
          have "schema_in ASchema (JObject ?d) t"
            using schema_in.keyword [OF map_of_SomeD [OF p(1)]] schema_in.entry [OF 2 x(2)] kp by simp
          then show ?thesis by (rule c)
        qed
      qed
    qed
    then show ?thesis using s by (simp add: map_of_bt_insert_same)
  qed
qed

text \<open>The document's address is derived by cutting the suffix \<open>/mcp\<close>: a public address written with a
  trailing slash, which is accepted, publishes one that is not the document's but another request
  to the tools, answered with the same challenge.\<close>

lemma trailing_slash_hides_the_document:
  "protected_resource_metadata_url ''https://h/mcp'' = ''https://h/.well-known/oauth-protected-resource''"
  "protected_resource_metadata_url ''https://h/mcp/'' = ''https://h/mcp//.well-known/oauth-protected-resource''"
  "under_mcp ''/mcp//.well-known/oauth-protected-resource''"
  by code_simp+

end
