(* ===== verification/Grpc_Control.thy ===== *)
theory Grpc_Control
  imports Node_Hop
begin

text \<open>
  The control plane as a pond node reaches it over the wire
  (\<open>latiq-pond-node/src/grpc_control.rs\<close>), and its agreement with the control plane in the same
  process (\<open>registry_control.rs\<close>, in \<open>Agent_Types\<close>).

  \<open>control_rpc\<close> is the Control service as its client sees it; a call that changes the registry
  takes and returns its state.
\<close>

section \<open>The client\<close>

record 's control_rpc =
  on_create_pond_assignment :: "metadata \<Rightarrow> CreatePondAssignmentRequest \<Rightarrow> 's \<Rightarrow> (GrpcStatus, string \<times> string) result \<times> 's"
  on_get_pond_location :: "string \<Rightarrow> 's \<Rightarrow> (GrpcStatus, string \<times> string) result"
  on_get_pond_info :: "string \<Rightarrow> 's \<Rightarrow> (GrpcStatus, PondInfoMsg option) result"
  on_list_ponds :: "'s \<Rightarrow> (GrpcStatus, PondInfoMsg list) result"
  on_drop_pond_assignment :: "string \<Rightarrow> 's \<Rightarrow> (GrpcStatus, unit) result \<times> 's"
  on_list_datasets :: "string \<Rightarrow> 's \<Rightarrow> (GrpcStatus, DatasetRow list) result"
  on_get_dataset :: "string \<Rightarrow> 's \<Rightarrow> (GrpcStatus, DatasetRow option) result"
  on_list_catalogs :: "string \<Rightarrow> 's \<Rightarrow> (GrpcStatus, CatalogRow list) result"
  on_get_catalog :: "string \<Rightarrow> 's \<Rightarrow> (GrpcStatus, CatalogRow option) result"

definition with_caller :: "rpc_lib \<Rightarrow> scope \<Rightarrow> string \<Rightarrow> metadata" where
  "with_caller lib sc agent = (\<lambda>k.
     if k = ''latiq-agent-id'' then carry lib agent
     else if k = ''authorization'' then Option.bind (sc_bearer sc) (\<lambda>t. carry lib (''Bearer '' @ t))
     else if k = ''traceparent'' then Option.bind (sc_traceparent sc) (carry lib)
     else None)"

definition status_err :: "rpc_lib \<Rightarrow> GrpcStatus \<Rightarrow> AgentError" where
  "status_err lib s =
     (case envelope_of_details lib (gs_details s) of
        Some env \<Rightarrow> env
      | None \<Rightarrow>
          (case gs_code s of
             GC_NotFound \<Rightarrow> pond_not_found (gs_message s)
           | GC_AlreadyExists \<Rightarrow> name_conflict (gs_message s)
           | GC_FailedPrecondition \<Rightarrow> internal_error (''no pond node available: '' @ gs_message s)
           | _ \<Rightarrow> internal_error (gs_message s)))"

definition info_of_msg :: "PondInfoMsg \<Rightarrow> PondInfo" where
  "info_of_msg m =
     \<lparr>pi_pond_id = pm_pond_id m, pi_name = pm_name m, pi_owner = pm_owner m, pi_created_at = pm_created_at m,
      pi_policy_json = pm_policy_json m, pi_node_id = non_empty (pm_node_id m), pi_node_endpoint = non_empty (pm_node_endpoint m),
      pi_tier = pm_tier m, pi_extensions = pm_extensions m, pi_description = pm_description m, pi_lineage = pm_lineage m\<rparr>"

text \<open>The messages of datasets and catalogs have the fields of the rows they stand for; the
  parameters of a catalog travel as an unordered map.\<close>

definition dataset_to_info :: "DatasetRow \<Rightarrow> DatasetInfo" where
  "dataset_to_info m = \<lparr>ds_name = ds_name m, ds_description = ds_description m, ds_tags = ds_tags m, ds_tables = ds_tables m,
     ds_created_by = ds_created_by m, ds_created_at = ds_created_at m\<rparr>"



definition gc_create_pond :: "rpc_lib \<Rightarrow> scope \<Rightarrow> 's control_rpc \<Rightarrow> string option \<Rightarrow> string \<Rightarrow> string \<Rightarrow> string \<Rightarrow> string list \<Rightarrow> bool \<Rightarrow> 's
    \<Rightarrow> (AgentError, PondInfo) result \<times> 's" where
  "gc_create_pond lib sc c name owner pol t exts lin s =
     (case on_create_pond_assignment c (with_caller lib sc owner)
         \<lparr>rq_name = (case name of None \<Rightarrow> [] | Some n \<Rightarrow> n), rq_owner_identity = owner, rq_policy_json = pol, rq_tier = t,
          rq_extensions = exts, rq_description = [], rq_lineage = lin\<rparr> s of
        (Inl st, s') \<Rightarrow> (Err (status_err lib st), s')
      | (Inr (pid, endpoint), s') \<Rightarrow>
          ((case on_get_pond_info c pid s' of
              Inl st \<Rightarrow> Err (status_err lib st)
            | Inr None \<Rightarrow> Err (internal_error ''control plane returned no pond info'')
            | Inr (Some m) \<Rightarrow> Ok (info_of_msg m)), s'))"

definition gc_resolve_pond :: "rpc_lib \<Rightarrow> 's control_rpc \<Rightarrow> 's \<Rightarrow> string \<Rightarrow> (AgentError, string) result" where
  "gc_resolve_pond lib c s ref = map_err (status_err lib) (map_ok fst (on_get_pond_location c ref s))"







section \<open>The service at the other end\<close>

fun wire_code :: "Code \<Rightarrow> grpc_code" where
  "wire_code AlreadyExists = GC_AlreadyExists"
| "wire_code NotFound = GC_NotFound"
| "wire_code FailedPrecondition = GC_FailedPrecondition"
| "wire_code InvalidArgument = GC_InvalidArgument"
| "wire_code CodeInternal = GC_Internal"

definition wire_status :: "rpc_lib \<Rightarrow> Status \<Rightarrow> GrpcStatus" where
  "wire_status lib st = \<lparr>gs_code = wire_code (st_code st), gs_message = st_message st, gs_details = to_text lib (envelope_json (st_details st)),
     gs_challenge = None\<rparr>"

text \<open>The Control service over a registry. The failures that strike a call's statements are those of
  \<open>control_faults\<close>; the saga's own surroundings are \<open>e\<close>.\<close>

record control_faults =
  cf_one :: fault
  cf_each :: "nat \<Rightarrow> fault"
  cf_seen :: "nat \<Rightarrow> fault \<times> registry"

definition control_at :: "rpc_lib \<Rightarrow> (string \<Rightarrow> params option) \<Rightarrow> ControlService \<Rightarrow> saga_env \<Rightarrow> control_faults \<Rightarrow> registry control_rpc" where
  "control_at lib from_json svc e cf =
     \<lparr>on_create_pond_assignment = (\<lambda>md rq r. (case create_pond_assignment svc e md rq r of (x, r') \<Rightarrow> (map_err (wire_status lib) x, r'))),
      on_get_pond_location = (\<lambda>ref r. map_err (wire_status lib) (fst (get_pond_location_rpc (cf_one cf) ref r))),
      on_get_pond_info = (\<lambda>ref r. map_err (wire_status lib) (map_ok Some (get_pond_info_rpc (cf_one cf) ref r))),
      on_list_ponds = (\<lambda>r. map_err (wire_status lib) (list_ponds_rpc (cf_one cf) (cf_seen cf) r)),
      on_drop_pond_assignment = (\<lambda>pid r. (case drop_pond_assignment (cf_one cf) pid r of (x, r') \<Rightarrow> (map_err (wire_status lib) x, r'))),
      on_list_datasets = (\<lambda>q r. map_err (wire_status lib) (list_datasets_rpc (cf_one cf) (cf_each cf) q r)),
      on_get_dataset = (\<lambda>n r. map_err (wire_status lib) (map_ok Some (get_dataset_rpc (cf_one cf) n r))),
      on_list_catalogs = (\<lambda>q r. map_err (wire_status lib) (list_catalogs_rpc from_json (cf_one cf) (cf_each cf) q r)),
      on_get_catalog = (\<lambda>n r. map_err (wire_status lib) (map_ok Some (get_catalog_rpc from_json (cf_one cf) n r)))\<rparr>"

section \<open>Lemmas\<close>

definition error_kept :: "rpc_lib \<Rightarrow> (ControlPlaneError, 'a) result \<Rightarrow> bool" where
  "error_kept lib x \<longleftrightarrow> (case x of Inl e \<Rightarrow> text_keeps lib (envelope_json (cp_envelope e)) | Inr _ \<Rightarrow> True)"


lemma control_facts_wf [simp]: "bt_wf (facts kvs)"
  by (simp add: facts_def bt.invar_fold)

lemma cp_envelope_wf: "bt_wf (env_facts (cp_envelope e)) \<and> env_trace_id (cp_envelope e) = None"
  by (cases e rule: cp_envelope.cases) (simp_all add: envelope_defs)

lemma to_status_details: "st_details (to_status e) = cp_envelope e"
  using cp_envelope_wf [of e] by (simp add: to_status_def to_status_traced_def with_trace_id_def Let_def)

lemma status_err_back:
  assumes "text_keeps lib (envelope_json (cp_envelope e))"
  shows "status_err lib (wire_status lib (to_status e)) = cp_err e"
proof -
  have "envelope_of_details lib (gs_details (wire_status lib (to_status e))) = Some (cp_envelope e)"
    using assms envelope_roundtrip [of "cp_envelope e"] cp_envelope_wf [of e]
    unfolding wire_status_def envelope_of_details_def text_keeps_def by (simp add: to_status_details)
  then show ?thesis by (simp add: status_err_def cp_err_def)
qed





lemma dataset_to_info_id [simp]: "dataset_to_info = (\<lambda>x. x)"
  by (intro ext) (simp add: dataset_to_info_def)





section \<open>Properties\<close>




text \<open>An empty name is refused by the registry in the same process; over the wire it is no name, and
  one is generated.\<close>

lemma empty_name_differs:
  "gc_create_pond lib sc c (Some []) owner pol t exts lin s = gc_create_pond lib sc c None owner pol t exts lin s"
  "tier_parse_for_create t' = Ok tt \<Longrightarrow> \<not> is_ok (fst (rc_create_pond f g now uuid rnd (Some []) owner pol t' exts lin r))"
proof -
  show "gc_create_pond lib sc c (Some []) owner pol t exts lin s = gc_create_pond lib sc c None owner pol t exts lin s"
    by (simp add: gc_create_pond_def)
  assume "tier_parse_for_create t' = Ok tt"
  moreover have "\<not> is_ok (pond_name_validate [])" by code_simp
  ultimately show "\<not> is_ok (fst (rc_create_pond f g now uuid rnd (Some []) owner pol t' exts lin r))"
    by (auto simp: rc_create_pond_def create_pond_def is_ok_def split: sum.splits prod.splits)
qed

text \<open>A pond whose node is gone from the registry resolves in the same process and not over the wire.\<close>

lemma resolve_differs:
  assumes "error_kept lib (fst (get_pond_location (cf_one cf) ref r))" "cf_one cf 0 = None"
    "List.find (refers ref) (ponds r) = Some p" "\<forall>p' \<in> set (ponds r). node_of r p' = None"
  shows "gc_resolve_pond lib (control_at lib from_json svc e cf) r ref = Err (pond_not_found ref)
    \<and> rc_resolve_pond (cf_one cf) r ref = Ok (p_id p)"
proof -
  have "List.find (\<lambda>p. refers ref p \<and> node_of r p \<noteq> None) (ponds r) = None" using assms(4) by (auto simp: find_None_iff)
  then have "fst (get_pond_location (cf_one cf) ref r) = Err (CP_PondNotFound ref)" using assms(2) by (simp add: get_pond_location_def)
  then show ?thesis using assms
    by (simp add: gc_resolve_pond_def rc_resolve_pond_def control_at_def get_pond_location_rpc_def rpc_def error_kept_def status_err_back
        pond_info_def row_of_def cp_err_def pond_not_found_def)
qed

end
