(* ===== verification/Sdk_Client.thy ===== *)
theory Sdk_Client
  imports Grpc_Control
begin

text \<open>
  The client library (\<open>latiq-sdk/src/lib.rs\<close>): how it picks its token and addresses, the identity it
  puts on every call, and its calls on the control plane and on the front door. The services are the
  records of the calls they answer, a failed connection being their answer; the embedded cluster's
  processes are not modelled, only the addresses it gives.
\<close>

section \<open>Connecting\<close>

definition resolve_token :: "string option \<Rightarrow> string option \<Rightarrow> string option" where
  "resolve_token explicit from_env =
     Option.bind (map_option trim (case explicit of Some t \<Rightarrow> Some t | None \<Rightarrow> from_env)) non_empty"

definition normalize_endpoint :: "string \<Rightarrow> string" where
  "normalize_endpoint server =
     (let s = trim server in
      if starts_with s ''grpc://'' then ''http://'' @ drop 7 s
      else if starts_with s ''http://'' \<or> starts_with s ''https://'' then s
      else ''http://'' @ s)"

record BearerAuth =
  ba_identity :: string
  ba_token :: "string option"

definition DEFAULT_IDENTITY :: string where
  "DEFAULT_IDENTITY = ''sdk''"

record Latiq =
  lq_control_endpoint :: string
  lq_data_endpoint :: string
  lq_identity :: string
  lq_token :: "string option"
  lq_local :: bool

text \<open>A call fails with a text of the client's own or with the status it got.\<close>

datatype sdk_error = Said string | OfStatus GrpcStatus

type_synonym 'a sdk = "(sdk_error, 'a) result"

text \<open>\<open>connects n\<close> is the outcome of the n-th attempt to connect, \<open>listed n\<close> the states of the nodes the
  n-th listing of the registry gives, if it gives any.\<close>

definition wait_connectable :: "(nat \<Rightarrow> bool) \<Rightarrow> string \<Rightarrow> unit sdk" where
  "wait_connectable connects endpoint =
     (if list_ex connects [0..<200] then Ok () else Err (Said (''endpoint never became connectable: '' @ endpoint)))"

definition wait_for_active_node :: "(nat \<Rightarrow> string list option) \<Rightarrow> unit sdk" where
  "wait_for_active_node listed =
     (if list_ex (\<lambda>n. case listed n of None \<Rightarrow> False | Some states \<Rightarrow> ''active'' \<in> set states) [0..<400] then Ok ()
      else Err (Said ''local pond node did not register in time''))"

definition lazy_channel :: "(string \<Rightarrow> bool) \<Rightarrow> string \<Rightarrow> unit sdk" where
  "lazy_channel parses endpoint = (if parses endpoint then Ok () else Err (Said (''invalid endpoint '' @ endpoint)))"

text \<open>\<open>start\<close> is the embedded cluster's start: its two addresses. An error given a context reads as the
  context.\<close>

definition connect_with_token :: "(sdk_error, string \<times> string) result \<Rightarrow> (string \<Rightarrow> nat \<Rightarrow> bool) \<Rightarrow> (string \<Rightarrow> bool)
    \<Rightarrow> string option \<Rightarrow> string \<Rightarrow> string option \<Rightarrow> string option \<Rightarrow> Latiq sdk" where
  "connect_with_token start connects parses env server gateway tok =
     (let t = resolve_token tok env;
          bound = (\<lambda>c d l. case (lazy_channel parses c, lazy_channel parses d) of
             (Inl e, _) \<Rightarrow> Err e
           | (Inr _, Inl e) \<Rightarrow> Err e
           | (Inr _, Inr _) \<Rightarrow> Ok \<lparr>lq_control_endpoint = c, lq_data_endpoint = d, lq_identity = DEFAULT_IDENTITY, lq_token = t, lq_local = l\<rparr>)
      in if server = ''local'' then (case start of Inl e \<Rightarrow> Err e | Inr (c, d) \<Rightarrow> bound c d True)
         else
           (let c = normalize_endpoint server;
                d = (case gateway of Some g \<Rightarrow> normalize_endpoint g | None \<Rightarrow> c)
            in case wait_connectable (connects c) c of
                 Inl _ \<Rightarrow> Err (Said (''connecting to control plane at '' @ server))
               | Inr _ \<Rightarrow> bound c d False))"

definition sdk_with_identity :: "Latiq \<Rightarrow> string \<Rightarrow> Latiq" where
  "sdk_with_identity lq i = lq\<lparr>lq_identity := i\<rparr>"

definition sdk_auth :: "Latiq \<Rightarrow> BearerAuth" where
  "sdk_auth lq = \<lparr>ba_identity = lq_identity lq, ba_token = lq_token lq\<rparr>"

definition auth_call :: "rpc_lib \<Rightarrow> BearerAuth \<Rightarrow> metadata" where
  "auth_call lib ba = (\<lambda>k.
     if k = ''latiq-agent-id'' then carry lib (ba_identity ba)
     else if k = ''authorization'' then Option.bind (ba_token ba) (\<lambda>t. carry lib (''Bearer '' @ t))
     else None)"

definition sdk_md :: "rpc_lib \<Rightarrow> Latiq \<Rightarrow> metadata" where
  "sdk_md lib lq = auth_call lib (sdk_auth lq)"

section \<open>The services it calls\<close>

record front_door =
  fd_node :: node_rpc
  fd_load_dataset :: "metadata \<Rightarrow> string \<Rightarrow> string \<Rightarrow> (GrpcStatus, string) result"

definition front_door_at :: "DataService \<Rightarrow> node_env \<Rightarrow> front_door" where
  "front_door_at svc ne = \<lparr>fd_node = node_at svc ne, fd_load_dataset = (\<lambda>md p d. fst (rpc_load_dataset svc ne md p d))\<rparr>"

definition named_error :: "string \<Rightarrow> GrpcStatus \<Rightarrow> sdk_error" where
  "named_error what st = Said (what @ gs_message st)"

definition sdk_parse_json :: "rpc_lib \<Rightarrow> string \<Rightarrow> Value sdk" where
  "sdk_parse_json lib s = map_err (\<lambda>e. Said (''decode response: '' @ e)) (from_text lib s)"

definition then_json :: "rpc_lib \<Rightarrow> (GrpcStatus \<Rightarrow> sdk_error) \<Rightarrow> (GrpcStatus, string) result \<Rightarrow> Value sdk" where
  "then_json lib err r = (case r of Inl st \<Rightarrow> Err (err st) | Inr s \<Rightarrow> sdk_parse_json lib s)"

section \<open>Ponds\<close>

record SdkPond =
  sp_pond_id :: string
  sp_name :: string
  sp_node_id :: string
  sp_tier :: string
  sp_description :: string
  sp_lineage :: bool

definition info_from_msg :: "PondInfoMsg option \<Rightarrow> string \<Rightarrow> SdkPond sdk" where
  "info_from_msg msg fallback_id =
     (case msg of
        None \<Rightarrow> Err (Said ''pond not found'')
      | Some m \<Rightarrow> Ok \<lparr>sp_pond_id = (if pm_pond_id m = [] then fallback_id else pm_pond_id m), sp_name = pm_name m,
          sp_node_id = pm_node_id m, sp_tier = pm_tier m, sp_description = pm_description m, sp_lineage = pm_lineage m\<rparr>)"

definition sdk_create_pond :: "rpc_lib \<Rightarrow> Latiq \<Rightarrow> 's control_rpc \<Rightarrow> string option \<Rightarrow> string \<Rightarrow> string \<Rightarrow> bool \<Rightarrow> 's
    \<Rightarrow> SdkPond sdk \<times> 's" where
  "sdk_create_pond lib lq c name tr desc lin s =
     (case on_create_pond_assignment c (sdk_md lib lq)
         \<lparr>rq_name = (case name of None \<Rightarrow> [] | Some n \<Rightarrow> n), rq_owner_identity = lq_identity lq, rq_policy_json = ''{}'', rq_tier = tr,
          rq_extensions = [], rq_description = desc, rq_lineage = lin\<rparr> s of
        (Inl st, s') \<Rightarrow> (Err (OfStatus st), s')
      | (Inr (pid, _), s') \<Rightarrow>
          ((case on_get_pond_info c pid s' of
              Inl st \<Rightarrow> Err (OfStatus st)
            | Inr msg \<Rightarrow> info_from_msg msg pid), s'))"

definition sdk_get_pond :: "'s control_rpc \<Rightarrow> string \<Rightarrow> 's \<Rightarrow> SdkPond sdk" where
  \<open>sdk_get_pond c pond s =
     (case on_get_pond_info c pond s of
        Inl st \<Rightarrow> Err (Said (''pond '' @ [apos] @ pond @ [apos] @ '': '' @ gs_message st))
      | Inr msg \<Rightarrow> info_from_msg msg pond)\<close>

definition sdk_list_ponds :: "(GrpcStatus, PondSummary list) result \<Rightarrow> (string, SdkPond) btree sdk" where
  "sdk_list_ponds answer =
     (case answer of
        Inl st \<Rightarrow> Err (OfStatus st)
      | Inr ps \<Rightarrow> Ok (bt_extend [] (map (\<lambda>p. (ps_name p, \<lparr>sp_pond_id = ps_pond_id p, sp_name = ps_name p, sp_node_id = ps_node_id p,
          sp_tier = ps_tier p, sp_description = ps_description p, sp_lineage = ps_lineage p\<rparr>)) ps)))"

definition sdk_describe_pond :: "rpc_lib \<Rightarrow> Latiq \<Rightarrow> front_door \<Rightarrow> string \<Rightarrow> Value sdk" where
  "sdk_describe_pond lib lq fd pond = then_json lib OfStatus (on_describe_pond (fd_node fd) (sdk_md lib lq) pond)"

definition sdk_drop_pond :: "rpc_lib \<Rightarrow> Latiq \<Rightarrow> front_door \<Rightarrow> string \<Rightarrow> bool \<Rightarrow> unit sdk" where
  "sdk_drop_pond lib lq fd pond confirm = map_err OfStatus (on_drop_pond (fd_node fd) (sdk_md lib lq) pond confirm)"

section \<open>Statements\<close>

text \<open>The loop over the chunks of a stream: the bytes so far, or the first error.\<close>

fun stream_bytes :: "string \<Rightarrow> chunks \<Rightarrow> string sdk" where
  "stream_bytes out [] = Ok out"
| "stream_bytes out (Inr c # ms) = stream_bytes (out @ ck_ipc c) ms"
| "stream_bytes out (Inl st # ms) = Err (OfStatus st)"

definition sdk_request :: "string \<Rightarrow> string \<Rightarrow> QueryRequest" where
  "sdk_request pond sql = \<lparr>q_pond = pond, q_sql = sql, q_timeout_ms = 0\<rparr>"

definition query_ipc :: "rpc_lib \<Rightarrow> Latiq \<Rightarrow> front_door \<Rightarrow> string \<Rightarrow> string \<Rightarrow> string sdk" where
  "query_ipc lib lq fd pond sql =
     (if \<not> is_read_only sql then
        (case on_write_query (fd_node fd) (sdk_md lib lq) (sdk_request pond sql) of
           Inl st \<Rightarrow> Err (named_error ''write: '' st)
         | Inr _ \<Rightarrow> Ok [])
      else
        (case on_read_arrow (fd_node fd) (sdk_md lib lq) (sdk_request pond sql) of
           Inl st \<Rightarrow> Err (named_error ''read: '' st)
         | Inr ms \<Rightarrow> stream_bytes [] ms))"

definition decode_ipc :: "ipc_lib \<Rightarrow> string \<Rightarrow> RecordBatch list sdk" where
  "decode_ipc ipc bytes =
     (if bytes = [] then Ok []
      else (case ipc_feed ipc [] bytes of
              (bs, None) \<Rightarrow> Ok bs
            | (_, Some e) \<Rightarrow> Err (Said (''arrow ipc: '' @ e))))"

definition sdk_query :: "rpc_lib \<Rightarrow> ipc_lib \<Rightarrow> Latiq \<Rightarrow> front_door \<Rightarrow> string \<Rightarrow> string \<Rightarrow> RecordBatch list sdk" where
  "sdk_query lib ipc lq fd pond sql = (case query_ipc lib lq fd pond sql of Inl e \<Rightarrow> Err e | Inr bytes \<Rightarrow> decode_ipc ipc bytes)"

definition sdk_explain :: "rpc_lib \<Rightarrow> Latiq \<Rightarrow> front_door \<Rightarrow> string \<Rightarrow> string \<Rightarrow> Value sdk" where
  "sdk_explain lib lq fd pond sql =
     then_json lib (named_error ''explain: '') (on_explain_query (fd_node fd) (sdk_md lib lq) (sdk_request pond sql))"

definition snapshots_ipc :: "rpc_lib \<Rightarrow> Latiq \<Rightarrow> front_door \<Rightarrow> string \<Rightarrow> string sdk" where
  "snapshots_ipc lib lq fd pond =
     query_ipc lib lq fd pond (''SELECT * FROM '' @ quote_ident pond @ ''.snapshots() ORDER BY snapshot_id'')"

section \<open>Datasets and catalogs\<close>

definition sdk_dataset_entry :: "(int \<Rightarrow> string) \<Rightarrow> DatasetRow \<Rightarrow> string \<times> Value" where
  "sdk_dataset_entry date d = (ds_name d, json_object
     [(''description'', JString (ds_description d)), (''tags'', json_strings (ds_tags d)),
      (''tables'', JArray (map (\<lambda>t. json_object [(''table_name'', JString (table_name t)), (''source_uri'', JString (source_uri t)),
          (''format'', JString (format t))]) (ds_tables d))),
      (''created_by'', JString (ds_created_by d)), (''created_at'', JString (date (ds_created_at d)))])"

definition sdk_list_datasets :: "(int \<Rightarrow> string) \<Rightarrow> 's control_rpc \<Rightarrow> string \<Rightarrow> 's \<Rightarrow> Value sdk" where
  "sdk_list_datasets date c q s = map_err OfStatus (map_ok (\<lambda>ds. json_object (map (sdk_dataset_entry date) ds)) (on_list_datasets c q s))"

definition sdk_catalog_entry :: "(int \<Rightarrow> string) \<Rightarrow> CatalogRow \<Rightarrow> string \<times> Value" where
  "sdk_catalog_entry date c = (ca_name c, json_object
     [(''type'', JString (ca_type c)), (''params'', json_object (map (\<lambda>(k, v). (k, JString v)) (ca_params c))),
      (''description'', JString (ca_description c)), (''tags'', json_strings (ca_tags c)),
      (''created_by'', JString (ca_created_by c)), (''created_at'', JString (date (ca_created_at c)))])"

definition sdk_list_catalogs :: "(int \<Rightarrow> string) \<Rightarrow> 's control_rpc \<Rightarrow> string \<Rightarrow> 's \<Rightarrow> Value sdk" where
  "sdk_list_catalogs date c q s = map_err OfStatus (map_ok (\<lambda>cs. json_object (map (sdk_catalog_entry date) cs)) (on_list_catalogs c q s))"

definition sdk_load_dataset :: "rpc_lib \<Rightarrow> Latiq \<Rightarrow> front_door \<Rightarrow> string \<Rightarrow> string \<Rightarrow> Value sdk" where
  "sdk_load_dataset lib lq fd pond d = then_json lib (named_error ''load_dataset: '') (fd_load_dataset fd (sdk_md lib lq) pond d)"

definition sdk_describe_catalog :: "rpc_lib \<Rightarrow> Latiq \<Rightarrow> front_door \<Rightarrow> string \<Rightarrow> string \<Rightarrow> (string \<times> string) list \<Rightarrow> Value sdk" where
  "sdk_describe_catalog lib lq fd pond cat kvs = then_json lib (named_error ''describe_catalog: '')
     (on_catalog_describe (fd_node fd) (sdk_md lib lq) \<lparr>cd_pond = pond, cd_catalog = cat, cd_params = kvs\<rparr>)"

definition sdk_pull_catalog :: "rpc_lib \<Rightarrow> Latiq \<Rightarrow> front_door \<Rightarrow> string \<Rightarrow> string \<Rightarrow> string \<Rightarrow> (string \<times> string) list \<Rightarrow> Value sdk" where
  "sdk_pull_catalog lib lq fd pond cat sql kvs = then_json lib (named_error ''pull_catalog: '')
     (on_catalog_pull (fd_node fd) (sdk_md lib lq) \<lparr>cq_pond = pond, cq_catalog = cat, cq_query = sql, cq_params = kvs\<rparr>)"

text \<open>The calls of a pond's handle go by its name.\<close>

definition pond_query :: "rpc_lib \<Rightarrow> ipc_lib \<Rightarrow> Latiq \<Rightarrow> front_door \<Rightarrow> SdkPond \<Rightarrow> string \<Rightarrow> RecordBatch list sdk" where
  "pond_query lib ipc lq fd p sql = sdk_query lib ipc lq fd (sp_name p) sql"

end
