(* ===== verification/Sdk_Facts.thy ===== *)
theory Sdk_Facts
  imports Sdk_Client Node_Relay
begin

text \<open>
  What a program that uses the client library may rely on: the credential it presents is the one it
  was given, and a read is the stream's batches or an error, never a part of them.
\<close>

section \<open>Credentials\<close>

lemma bearer_of_trimmed:
  assumes "trim t = t" "t \<noteq> []"
  shows "bearer (''Bearer '' @ t) = Some t"
proof -
  have "bearer (''Bearer '' @ t) = Some (trim t) \<or> trim t = []"
    unfolding bearer_def bearer_split by (simp, code_simp)
  then show ?thesis using assms by simp
qed

lemma resolve_token_trimmed: "resolve_token tok env = Some t \<Longrightarrow> trim t = t \<and> t \<noteq> []"
  by (auto simp: resolve_token_def non_empty_def bind_eq_Some_conv split: if_splits)

text \<open>The client presents exactly the token it was given: on every call the service reads from the
  headers the token that was resolved, trimmed, and finds no credential at all when none was; a token
  given as blank means none, whatever the environment holds; and the service then takes the caller
  for the client's identity, verified when it has a verifier and the token passes it.\<close>

lemma client_presents_its_token:
  assumes "lq_token lq = resolve_token tok env" "carried lib (lq_identity lq)" "\<forall>t. carried lib (''Bearer '' @ t)"
  shows "bearer_of (sdk_md lib lq) = resolve_token tok env
    \<and> (resolve_token tok env = None \<longrightarrow> sdk_md lib lq ''authorization'' = None)
    \<and> (\<forall>t. tok = Some t \<longrightarrow> resolve_token tok env = non_empty (trim t))
    \<and> fst (node_identity_of lib w ver ch (sdk_md lib lq) op) =
        (case ver of
           None \<Rightarrow> Ok (identity_claimed (Some (lq_identity lq)), None)
         | Some check \<Rightarrow>
             (case resolve_token tok env of
                None \<Rightarrow> Err (rpc_unauthenticated lib ''a bearer token is required'' ch)
              | Some t \<Rightarrow>
                  (case check t (Some (lq_identity lq)) of
                     Inl _ \<Rightarrow> Err (rpc_unauthenticated lib ''the bearer token was rejected'' ch)
                   | Inr ident \<Rightarrow> Ok (ident, Some t))))"
proof -
  have md: "sdk_md lib lq ''latiq-agent-id'' = Some (lq_identity lq)"
    "sdk_md lib lq ''authorization'' = map_option (\<lambda>t. ''Bearer '' @ t) (resolve_token tok env)"
    using assms by (auto simp: sdk_md_def auth_call_def sdk_auth_def carry_def map_option_case split: option.split)
  have b: "bearer_of (sdk_md lib lq) = resolve_token tok env"
    using bearer_of_trimmed resolve_token_trimmed by (cases "resolve_token tok env") (auto simp: bearer_of_def md(2))
  moreover have "\<forall>t. tok = Some t \<longrightarrow> resolve_token tok env = non_empty (trim t)" by (simp add: resolve_token_def)
  ultimately show ?thesis using md
    by (auto simp: node_identity_of_def Let_def split: option.split sum.split)
qed

definition demo_client :: Latiq where
  "demo_client = \<lparr>lq_control_endpoint = ''http://c'', lq_data_endpoint = ''http://d'', lq_identity = ''bot'', lq_token = Some ''h.p.s'', lq_local = False\<rparr>"

lemma client_presents_its_token_example:
  "bearer_of (sdk_md demo_codec demo_client) = Some ''h.p.s''
   \<and> fst (node_identity_of demo_codec (demo_world None None) (Some (\<lambda>_ _. Ok demo_identity)) None (sdk_md demo_codec demo_client) ''op'')
     = Ok (demo_identity, Some ''h.p.s'')"
proof -
  have t: "resolve_token (Some '' h.p.s '') (Some ''other'') = Some ''h.p.s''" by code_simp
  have lq: "lq_token demo_client = resolve_token (Some '' h.p.s '') (Some ''other'')" "carried demo_codec (lq_identity demo_client)"
    "\<forall>t. carried demo_codec (''Bearer '' @ t)"
    unfolding t by (simp_all add: demo_client_def demo_codec_def)
  from client_presents_its_token [OF lq, of "demo_world None None" "Some (\<lambda>_ _. Ok demo_identity)" None "''op''"]
  show ?thesis unfolding t by simp
qed

section \<open>Reads\<close>

text \<open>What the Arrow library promises of feeding bytes in pieces or at once.\<close>

definition ipc_incremental :: "ipc_lib \<Rightarrow> bool" where
  "ipc_incremental ipc \<longleftrightarrow>
     (\<forall>before bs x y. ipc_feed ipc before x = (bs, None) \<longrightarrow>
        ipc_feed ipc before (x @ y) = (bs @ fst (ipc_feed ipc (before @ x) y), snd (ipc_feed ipc (before @ x) y)))
   \<and> (\<forall>sch x. ipc_open ipc sch = Ok x \<longrightarrow> x \<noteq> [])"

fun gathered :: "('e, 'a) result list \<Rightarrow> ('e, 'a list) result" where
  "gathered [] = Ok []"
| "gathered (Inr b # rs) = map_ok ((#) b) (gathered rs)"
| "gathered (Inl e # rs) = Err e"

lemma sent_decodes:
  assumes "ipc_faithful ipc" "ipc_incremental ipc" "ipc_sent ipc sch sent bytes"
  shows "ipc_feed ipc [] bytes = (sent, None) \<and> bytes \<noteq> []"
  using assms(3)
proof (induction rule: ipc_sent.induct)
  case (opened bytes)
  then show ?case using assms(1,2) by (auto simp: ipc_faithful_def ipc_incremental_def)
next
  case (wrote sent bytes b x)
  have "ipc_feed ipc bytes x = ([b], None)" using assms(1) wrote.hyps by (auto simp: ipc_faithful_def)
  then show ?case using assms(2) wrote.IH by (auto simp: ipc_incremental_def)
qed

lemma batches_decoded:
  assumes "ipc_faithful ipc" "ipc_incremental ipc" "ipc_sent ipc sch sent bytes"
    and "\<forall>b \<in> {b. Inr b \<in> set rs}. \<forall>s. \<exists>x. ipc_write ipc sch s b = Ok x"
  shows "(case stream_bytes bytes (encode_batches lib ipc w sch sent rs) of Inl e \<Rightarrow> Err e | Inr all \<Rightarrow> decode_ipc ipc all)
    = map_err (\<lambda>e. OfStatus (data_to_status lib w e)) (map_ok ((@) sent) (gathered rs))"
  using assms(3-)
proof (induction rs arbitrary: sent bytes rule: gathered.induct)
  case 1
  have d: "ipc_feed ipc [] bytes = (sent, None)" "bytes \<noteq> []" using sent_decodes [OF assms(1,2) 1(1)] by auto
  show ?case
  proof (cases "ipc_finish ipc sch sent")
    case None
    then show ?thesis using d by (simp add: decode_ipc_def)
  next
    case (Some x)
    have "ipc_feed ipc bytes x = ([], None)" using assms(1) 1(1) Some by (auto simp: ipc_faithful_def)
    then have "ipc_feed ipc [] (bytes @ x) = (sent, None)" using assms(2) d(1) by (auto simp: ipc_incremental_def)
    then show ?thesis using d Some by (simp add: decode_ipc_def batch_chunk_def)
  qed
next
  case (2 b rs)
  have "\<exists>x. ipc_write ipc sch sent b = Ok x" using "2.prems"(2) by simp
  then obtain x where x: "ipc_write ipc sch sent b = Ok x" ..
  have "map_ok (\<lambda>a. sent @ b # a) (gathered rs) = map_ok ((@) sent) (map_ok ((#) b) (gathered rs))" by (cases "gathered rs") simp_all
  with "2.IH" [OF wrote [OF "2.prems"(1) x]] "2.prems"(2) x show ?case by (simp add: batch_chunk_def)
next
  case (3 e rs)
  then show ?case by simp
qed

text \<open>C32. A read through the client library is all or nothing, for a statement the node's own classifier
  calls a read. When the node answers with a stream, the client returns exactly the batches the
  stream holds, in order, when all of them came, and otherwise the stream's first error as the node's
  status, envelope included, never the batches before it. When the node refuses before a stream
  exists -- an unknown pond, a statement that does not parse -- the client returns nothing but the
  text of the refusal behind \<open>read: \<close>; its envelope is not kept.\<close>

theorem client_read_is_all_or_nothing:
  assumes "ipc_faithful (ne_ipc ne)" "ipc_incremental (ne_ipc ne)" "is_read_only sql"
    and "fst (node_identity_of (ne_lib ne) (ne_world ne) (ds_verifier svc) (ds_challenge svc) (sdk_md (ne_lib ne) lq) ''read_arrow'') = Ok (ident, tok)"
    and "w = rpc_scope ne (sdk_md (ne_lib ne) lq) tok"
    and "\<And>r. fst (read_arrow w (ds_ops svc) ident pond sql (controls_of 0)) = Ok r \<Longrightarrow>
      is_ok (ipc_open (ne_ipc ne) (as_schema r)) \<and> (\<forall>b. Inr b \<in> set (as_batches r) \<longrightarrow> (\<forall>s. \<exists>x. ipc_write (ne_ipc ne) (as_schema r) s b = Ok x))"
  shows "sdk_query (ne_lib ne) (ne_ipc ne) lq (front_door_at svc ne) pond sql =
    (case fst (read_arrow w (ds_ops svc) ident pond sql (controls_of 0)) of
       Inl e \<Rightarrow> Err (Said (''read: '' @ gs_message (data_to_status (ne_lib ne) w e)))
     | Inr r \<Rightarrow> map_err (\<lambda>e. OfStatus (data_to_status (ne_lib ne) w e)) (gathered (as_batches r)))"
proof (cases "fst (read_arrow w (ds_ops svc) ident pond sql (controls_of 0))")
  case (Inl e)
  then have "fst (rpc_read_arrow svc ne (sdk_md (ne_lib ne) lq) (sdk_request pond sql)) = Err (data_to_status (ne_lib ne) w e)"
    unfolding rpc_read_arrow_def traced_eq [OF assms(4)]
    using assms(5) by (simp add: Let_def rpc_scope_def sdk_request_def)
  then show ?thesis using Inl assms(3) by (simp add: sdk_query_def query_ipc_def front_door_at_def node_at_def named_error_def)
next
  case (Inr r)
  note enc = assms(6) [OF Inr]
  have "fst (rpc_read_arrow svc ne (sdk_md (ne_lib ne) lq) (sdk_request pond sql)) = Ok (encode_to_chunks (ne_lib ne) (ne_ipc ne) w r)"
    unfolding rpc_read_arrow_def traced_eq [OF assms(4)]
    using assms(5) Inr by (simp add: Let_def rpc_scope_def sdk_request_def)
  moreover obtain x where x: "ipc_open (ne_ipc ne) (as_schema r) = Ok x" using enc by (cases "ipc_open (ne_ipc ne) (as_schema r)") auto
  note s = ipc_sent.opened [OF x]
  have all: "\<forall>b \<in> {b. Inr b \<in> set (as_batches r)}. \<forall>s. \<exists>x. ipc_write (ne_ipc ne) (as_schema r) s b = Ok x" using enc by blast
  have "map_ok ((@) []) g = g" for g :: "(AgentError, RecordBatch list) result" by (cases g) simp_all
  ultimately show ?thesis using batches_decoded [OF assms(1,2) s all, of "ne_lib ne" w] x assms(3) Inr
    by (simp add: sdk_query_def query_ipc_def front_door_at_def node_at_def encode_to_chunks_def)
qed

definition demo_arrow :: ipc_lib where
  "demo_arrow = demo_ipc\<lparr>ipc_feed := (\<lambda>_ x. (map (\<lambda>_. Ok []) (filter ((=) (CHR ''B'')) x), None))\<rparr>"

lemma demo_arrow_laws: "ipc_faithful demo_arrow" "ipc_incremental demo_arrow"
proof -
  have "sch = [''x'']" if "ipc_sent demo_arrow sch sent bytes" for sch sent bytes
    using that by (induction rule: ipc_sent.induct) (auto simp: demo_arrow_def demo_ipc_def split: if_splits)
  then show "ipc_faithful demo_arrow" by (auto simp: ipc_faithful_def demo_arrow_def demo_ipc_def split: if_splits)
  show "ipc_incremental demo_arrow" by (auto simp: ipc_incremental_def demo_arrow_def demo_ipc_def split: if_splits)
qed

theorem client_read_is_all_or_nothing_witness:
  "sdk_query demo_codec demo_arrow demo_client (front_door_at (demo_service ''n2'' None) (demo_reader\<lparr>ne_ipc := demo_arrow\<rparr>)) ''pond'' ''SELECT 1''
    = Ok [Ok []]"
proof -
  let ?ne = "demo_reader\<lparr>ne_ipc := demo_arrow\<rparr>" and ?svc = "demo_service ''n2'' None"
  define md where "md = sdk_md demo_codec demo_client"
  have lib: "ne_lib ?ne = demo_codec" by (simp add: demo_reader_def demo_node_def)
  have id: "fst (node_identity_of (ne_lib ?ne) (ne_world ?ne) (ds_verifier ?svc) (ds_challenge ?svc) md ''read_arrow'')
      = Ok (identity_claimed (md ''latiq-agent-id''), None)"
    by (simp add: node_identity_of_def demo_service_def with_verifier_def)
  define w where "w = rpc_scope ?ne md None"
  have here: "w_pond_info w ''pond'' = Ok (demo_info (Some ''n2'') (Some ''http://n2''))" "w_parse_id w s = Ok s" "w_ensure w s b = Ok demo_location"
    "w_read_arrow w l q = \<lparr>aw_schema = Some [''x''], aw_batches = [Ok []], aw_result = Some (Ok meta_default), aw_room = True\<rparr>" for s b l q
    by (simp_all add: w_def rpc_scope_def in_scope_def demo_reader_def demo_node_def Let_def)
  have pl: "placement (ds_ops ?svc) (demo_info (Some ''n2'') (Some ''http://n2'')) = Local"
    by (simp add: placement_def non_empty_def demo_service_def with_verifier_def data_service_new_def with_forwarding_def)
  have "\<exists>r. fst (read_arrow w (ds_ops ?svc) i ''pond'' ''SELECT 1'' c) = Ok r \<and> as_schema r = [''x''] \<and> as_batches r = [Ok (Ok [])]" for i c
    by (subst read_arrow_serves [OF here(1) pl here(2,3)]) (simp_all add: here(4) producer_schema_def producer_batches_def)
  then obtain r where r: "fst (read_arrow w (ds_ops ?svc) (identity_claimed (md ''latiq-agent-id'')) ''pond'' ''SELECT 1'' (controls_of 0)) = Ok r"
    "as_schema r = [''x'']" "as_batches r = [Ok (Ok [])]" by blast
  have ipc: "ipc_faithful (ne_ipc ?ne)" "ipc_incremental (ne_ipc ?ne)" by (simp_all add: demo_arrow_laws)
  have ro: "is_read_only ''SELECT 1''" by code_simp
  note rr = r(1) [unfolded md_def, folded lib]
  have "sdk_query (ne_lib ?ne) (ne_ipc ?ne) demo_client (front_door_at ?svc ?ne) ''pond'' ''SELECT 1''
      = map_err (\<lambda>e. OfStatus (data_to_status (ne_lib ?ne) w e)) (gathered (as_batches r))"
    by (subst client_read_is_all_or_nothing [OF ipc ro id [unfolded md_def, folded lib] w_def [unfolded md_def, folded lib]])
      (use r(2,3) in \<open>simp_all add: rr [simplified] demo_arrow_def demo_ipc_def is_ok_def\<close>)
  then show ?thesis using r(3) by (simp add: lib)
qed

text \<open>A pond whose record cannot be read back right after its creation exists, but the caller gets an
  error and its name is taken.\<close>

lemma created_pond_without_handle:
  assumes "on_create_pond_assignment c (sdk_md lib lq) \<lparr>rq_name = nm, rq_owner_identity = lq_identity lq, rq_policy_json = ''{}'', rq_tier = tr,
      rq_extensions = [], rq_description = d, rq_lineage = lin\<rparr> s = (Ok (pid, ep), s')"
    and "on_get_pond_info c pid s' = Err st" "nm \<noteq> []"
  shows "sdk_create_pond lib lq c (Some nm) tr d lin s = (Err (OfStatus st), s')"
  using assms by (simp add: sdk_create_pond_def)

end
