(* ===== verification/Startup.thy ===== *)
theory Startup
  imports Mcp_Server
begin

text \<open>
  Coming up and going down: what the binary makes of its flags (\<open>latiq/src/lib.rs\<close>), the served control
  plane (\<open>latiq-control-plane/src/lib.rs\<close>), the pond node (\<open>latiq-pond-node/src/lib.rs\<close>) and what reaches
  them. A start is its result and the list of what it did, in order. Binding sockets, creating
  directories, connecting and waiting are the fields of \<open>start_env\<close>.
\<close>

section \<open>Flags\<close>

definition non_blank :: "string option \<Rightarrow> string option" where
  "non_blank v = Option.bind (map_option trim v) non_empty"

datatype config_error =
    NotABoolean string string
  | AudienceMissing
  | JwksForManyIssuers nat
  | BadTimeouts timeout_error
  | BadRoot string
  | BadAddress string

definition dangerous_flag :: "string option \<Rightarrow> string \<Rightarrow> (config_error, bool) result" where
  "dangerous_flag v name =
     (case map_option to_lowercase (non_blank v) of
        None \<Rightarrow> Ok False
      | Some t \<Rightarrow>
          (if t \<in> {''false'', ''0'', ''no''} then Ok False
           else if t \<in> {''true'', ''1'', ''yes''} then Ok True
           else Err (NotABoolean name t)))"

record auth_flags =
  af_issuer :: "string list"
  af_audience :: "string option"
  af_jwks_uri :: "string option"
  af_allow_insecure :: "string option"

definition auth_config :: "auth_flags \<Rightarrow> (config_error, AuthConfig option) result" where
  "auth_config a =
     (let issuers = List.map_filter (\<lambda>i. non_blank (Some i)) (af_issuer a)
      in if issuers = [] then Ok None
         else (case non_blank (af_audience a) of
            None \<Rightarrow> Err AudienceMissing
          | Some aud \<Rightarrow>
              (let jwks = non_blank (af_jwks_uri a)
               in if jwks \<noteq> None \<and> length issuers > 1 then Err (JwksForManyIssuers (length issuers))
                  else map_ok (\<lambda>insecure. Some \<lparr>ac_audience = aud, ac_issuers = map (\<lambda>i. \<lparr>ic_issuer = i, ic_jwks_uri = jwks\<rparr>) issuers,
                         allow_insecure_jwks = insecure\<rparr>)
                       (dangerous_flag (af_allow_insecure a) ''--auth-allow-insecure-jwks / LATIQ_AUTH_ALLOW_INSECURE_JWKS''))))"

definition show_port :: "16 word \<Rightarrow> string" where
  "show_port p = show_nat (unat p)"

definition advertise_endpoint :: "string option \<Rightarrow> 16 word \<Rightarrow> string" where
  "advertise_endpoint advertise_addr port =
     (let raw = (case advertise_addr of
          Some a \<Rightarrow> if CHR '':'' \<in> set a then a else a @ '':'' @ show_port port
        | None \<Rightarrow> ''127.0.0.1:'' @ show_port port)
      in if starts_with raw ''http://'' \<or> starts_with raw ''https://'' then raw else ''http://'' @ raw)"

definition saturating_add :: "16 word \<Rightarrow> 16 word \<Rightarrow> 16 word" where
  "saturating_add a b = (if unat a + unat b < 2 ^ 16 then a + b else -1)"

section \<open>Control plane\<close>

definition NODE_TTL_SECS :: "32 word" where
  "NODE_TTL_SECS = 30"

definition REAP_INTERVAL_SECS :: nat where
  "REAP_INTERVAL_SECS = 10"

definition protected_resource_url :: "string \<Rightarrow> string" where
  "protected_resource_url addr = ''http://'' @ addr @ PROTECTED_RESOURCE_PATH"

definition build_verifier :: "(string \<Rightarrow> (string, Url) result) \<Rightarrow> AuthConfig option \<Rightarrow> (AuthError, Verifier option) result" where
  "build_verifier pu auth = (case auth of None \<Rightarrow> Ok None | Some cfg \<Rightarrow> map_ok Some (verifier_new pu cfg))"

text \<open>The services a control plane serves on its address. A verifier is kept as what it was built
  from; \<open>check_of\<close> turns it into the check the services hold.\<close>

record 'm served_control =
  sv_materializer :: "'m option"
  sv_replay_bearer :: bool

record served_admin =
  sa_verifier :: "Verifier option"
  sa_challenge :: "string option"

definition control_server :: "'m \<Rightarrow> bool \<Rightarrow> 'm served_control" where
  "control_server node_client authenticated = \<lparr>sv_materializer = Some node_client, sv_replay_bearer = authenticated\<rparr>"

definition admin_server :: "Verifier option \<Rightarrow> string option \<Rightarrow> served_admin" where
  "admin_server v url = \<lparr>sa_verifier = v, sa_challenge = map_option challenge_header url\<rparr>"

datatype 'm cp_event =
    MetricsUp string
  | CollectorStarted
  | ReaperStarted nat "32 word"
  | ServingControl string "'m served_control"
  | ServingAdmin string served_admin

definition serve_control_plane :: "(string \<Rightarrow> (string, Url) result) \<Rightarrow> 'm \<Rightarrow> string \<Rightarrow> AuthConfig option
    \<Rightarrow> (AuthError, unit) result \<times> 'm cp_event list" where
  "serve_control_plane pu node_client addr auth =
     (case build_verifier pu auth of
        Inl e \<Rightarrow> (Err e, [])
      | Inr v \<Rightarrow>
          (Ok (), [ReaperStarted REAP_INTERVAL_SECS NODE_TTL_SECS,
             ServingControl addr (control_server node_client (auth \<noteq> None)),
             ServingAdmin addr (admin_server v (map_option (\<lambda>_. protected_resource_url addr) v))]))"

definition serve_control :: "'m \<Rightarrow> string \<Rightarrow> 'm cp_event list" where
  "serve_control node_client addr = [ServingControl addr (control_server node_client False)]"

definition serve_admin :: "(string \<Rightarrow> (string, Url) result) \<Rightarrow> string \<Rightarrow> AuthConfig option \<Rightarrow> (AuthError, unit) result \<times> 'm cp_event list" where
  "serve_admin pu addr auth =
     (case build_verifier pu auth of
        Inl e \<Rightarrow> (Err e, [])
      | Inr v \<Rightarrow> (Ok (), [ServingAdmin addr (admin_server v (map_option (\<lambda>_. protected_resource_url addr) v))]))"

record ServeArgs =
  s_port :: "16 word"
  s_bind :: string
  s_root :: "string option"
  s_metrics_port :: "16 word option"
  s_auth :: auth_flags

datatype serve_error = ServeConfig config_error | ServeAuth AuthError | ServeRegistry string

definition metrics_address :: "string \<Rightarrow> 16 word \<Rightarrow> 16 word option \<Rightarrow> string" where
  "metrics_address bind main_port metrics_port =
     bind @ '':'' @ show_port (case metrics_port of Some p \<Rightarrow> p | None \<Rightarrow> saturating_add main_port 1000)"

text \<open>\<open>prepare\<close> creates the root and resolves it, \<open>opened\<close> is the outcome of opening the registry there,
  \<open>parses\<close> whether a text is a socket address.\<close>

definition run_serve :: "(string \<Rightarrow> (string, Url) result) \<Rightarrow> (string option \<Rightarrow> (string, string) result) \<Rightarrow> (string \<Rightarrow> (string, unit) result)
    \<Rightarrow> (string \<Rightarrow> bool) \<Rightarrow> 'm \<Rightarrow> ServeArgs \<Rightarrow> (serve_error, unit) result \<times> 'm cp_event list" where
  "run_serve pu prepare opened parses node_client a =
     (case auth_config (s_auth a) of
        Inl e \<Rightarrow> (Err (ServeConfig e), [])
      | Inr auth \<Rightarrow>
          (case prepare (s_root a) of
             Inl e \<Rightarrow> (Err (ServeConfig (BadRoot e)), [])
           | Inr root \<Rightarrow>
               (case opened (root @ ''/registry.duckdb'') of
                  Inl e \<Rightarrow> (Err (ServeRegistry e), [])
                | Inr _ \<Rightarrow>
                    (let addr = s_bind a @ '':'' @ show_port (s_port a); maddr = metrics_address (s_bind a) (s_port a) (s_metrics_port a)
                     in if \<not> parses addr then (Err (ServeConfig (BadAddress addr)), [])
                        else if \<not> parses maddr then (Err (ServeConfig (BadAddress maddr)), [])
                        else (case serve_control_plane pu node_client addr auth of
                                (r, evs) \<Rightarrow> (map_err ServeAuth r, [MetricsUp maddr, CollectorStarted] @ evs))))))"

section \<open>Pond node\<close>

record PondNodeConfig =
  pn_node_id :: string
  pn_mcp_addr :: SocketAddr
  pn_data_addr :: SocketAddr
  pn_internal_endpoint :: string
  pn_public_mcp_url :: "string option"
  pn_control_endpoint :: string
  pn_data_dir :: string
  pn_metrics_addr :: "SocketAddr option"
  pn_auth :: "AuthConfig option"
  pn_lineage_backend_url :: "string option"
  pn_timeouts :: QueryTimeouts

record NodeAddArgs =
  na_node_id :: string
  na_port :: "16 word"
  na_bind :: string
  na_advertise_addr :: "string option"
  na_public_mcp_url :: "string option"
  na_root :: "string option"
  na_metrics_port :: "16 word option"
  na_auth :: auth_flags
  na_lineage_backend_url :: "string option"
  na_query_timeout_ms :: "64 word"
  na_query_timeout_max_ms :: "64 word"

definition socket_addr :: "(string \<Rightarrow> SocketAddr option) \<Rightarrow> string \<Rightarrow> (config_error, SocketAddr) result" where
  "socket_addr parse s = (case parse s of None \<Rightarrow> Err (BadAddress s) | Some a \<Rightarrow> Ok a)"

text \<open>What \<open>run_node_add\<close> makes of its flags before it starts the node. The port of the MCP surface is the
  successor of the data port in sixteen bits.\<close>

definition node_config :: "(string \<Rightarrow> SocketAddr option) \<Rightarrow> (string option \<Rightarrow> (string, string) result) \<Rightarrow> string \<Rightarrow> NodeAddArgs
    \<Rightarrow> (config_error, PondNodeConfig) result" where
  "node_config parse prepare control a =
     (case auth_config (na_auth a) of
        Inl e \<Rightarrow> Err e
      | Inr auth \<Rightarrow>
          (case timeouts_new (na_query_timeout_ms a) (na_query_timeout_max_ms a) of
             Inl e \<Rightarrow> Err (BadTimeouts e)
           | Inr t \<Rightarrow>
               (case prepare (na_root a) of
                  Inl e \<Rightarrow> Err (BadRoot e)
                | Inr root \<Rightarrow>
                    (let at = (\<lambda>p. socket_addr parse (na_bind a @ '':'' @ show_port p))
                     in case socket_addr parse (metrics_address (na_bind a) (na_port a) (na_metrics_port a)) of
                          Inl e \<Rightarrow> Err e
                        | Inr metrics \<Rightarrow>
                            (case at (na_port a + 1) of
                               Inl e \<Rightarrow> Err e
                             | Inr mcp \<Rightarrow>
                                 map_ok (\<lambda>data. \<lparr>pn_node_id = na_node_id a, pn_mcp_addr = mcp, pn_data_addr = data,
                                     pn_internal_endpoint = advertise_endpoint (na_advertise_addr a) (na_port a),
                                     pn_public_mcp_url = non_blank (na_public_mcp_url a), pn_control_endpoint = control,
                                     pn_data_dir = root @ ''/ponds'', pn_metrics_addr = Some metrics, pn_auth = auth,
                                     pn_lineage_backend_url = non_blank (na_lineage_backend_url a), pn_timeouts = t\<rparr>)
                                   (at (na_port a)))))))"

datatype start_error =
    StartConfig config_error
  | ExtensionsMissing EngineError
  | VerifierRefused AuthError
  | BadPublicUrl public_url_error
  | BadBackend string
  | ControlUnreachable string
  | RegisterRefused GrpcStatus
  | McpEnded string

datatype start_event =
    ExtensionsLoaded
  | Registered string string string "32 word"
  | OpsBuilt AgentOps bool
  | WarmingCache
  | ServingMetrics SocketAddr
  | Beating string string
  | ServingData SocketAddr "Verifier option" "string option"
  | ServingStream SocketAddr "Verifier option" "string option"
  | ServingMcp SocketAddr "Verifier option" string
  | FlushedLineage
  | FlushTimedOut
  | DrainedSink nat

text \<open>\<open>se_connect\<close> answers the n-th connection, \<open>se_lasts\<close> says how the MCP server ends, a shutdown request being an end without an error;
  \<open>se_flush_ms\<close> how long flushing the lineage files takes.\<close>

record 'u start_env =
  se_extensions :: "(EngineError, unit) result"
  se_url :: "string \<Rightarrow> (string, Url) result"
  se_urls :: "'u url_lib"
  se_sink :: "string \<Rightarrow> (string, unit) result"
  se_connect :: "nat \<Rightarrow> string \<Rightarrow> (string, unit) result"
  se_register :: "string \<Rightarrow> (GrpcStatus, unit) result"
  se_version :: string
  se_lasts :: "(string, unit) result"
  se_flush_ms :: nat

definition SHUTDOWN_BUDGET_MS :: nat where
  "SHUTDOWN_BUDGET_MS = 15000"

definition shutdown_lineage :: "nat \<Rightarrow> bool \<Rightarrow> start_event list" where
  "shutdown_lineage flush_ms has_backend =
     (if flush_ms > SHUTDOWN_BUDGET_MS then [FlushTimedOut]
      else FlushedLineage # (if has_backend then [DrainedSink (SHUTDOWN_BUDGET_MS - flush_ms)] else []))"

definition build_ops :: "'u start_env \<Rightarrow> PondNodeConfig \<Rightarrow> string \<Rightarrow> bool \<Rightarrow> (start_error, AgentOps) result \<times> start_event list" where
  "build_ops se cfg mcp_ep has_sink =
     (case se_connect se 0 (pn_control_endpoint cfg) of
        Inl e \<Rightarrow> (Err (ControlUnreachable e), [])
      | Inr _ \<Rightarrow>
          (case se_register se (pn_node_id cfg) of
             Inl st \<Rightarrow> (Err (RegisterRefused st), [])
           | Inr _ \<Rightarrow>
               (let reg = [Registered (pn_node_id cfg) mcp_ep (pn_internal_endpoint cfg) 100];
                    ops = with_forwarding (agent_new (agent_config_default\<lparr>timeouts := pn_timeouts cfg\<rparr>) (se_version se))
                            (pn_node_id cfg) (pn_internal_endpoint cfg)
                in case se_connect se 1 (pn_control_endpoint cfg) of
                     Inl e \<Rightarrow> (Err (ControlUnreachable e), reg)
                   | Inr _ \<Rightarrow> (Ok ops, reg @ [OpsBuilt ops has_sink]))))"

definition serve_data :: "SocketAddr \<Rightarrow> Verifier option \<Rightarrow> string option \<Rightarrow> start_event list" where
  "serve_data addr v url = [ServingData addr v url, ServingStream addr v url]"

definition run_pond_node_until :: "'u start_env \<Rightarrow> PondNodeConfig \<Rightarrow> (start_error, unit) result \<times> start_event list" where
  "run_pond_node_until se cfg =
     (case se_extensions se of
        Inl e \<Rightarrow> (Err (ExtensionsMissing e), [])
      | Inr _ \<Rightarrow>
          (case build_verifier (se_url se) (pn_auth cfg) of
             Inl e \<Rightarrow> (Err (VerifierRefused e), [ExtensionsLoaded])
           | Inr v \<Rightarrow>
               (case resolve_public_mcp_url (se_urls se) (pn_public_mcp_url cfg) (pn_internal_endpoint cfg) (pn_mcp_addr cfg) of
                  Inl e \<Rightarrow> (Err (BadPublicUrl e), [ExtensionsLoaded])
                | Inr public \<Rightarrow>
                    (case (case pn_lineage_backend_url cfg of None \<Rightarrow> Ok () | Some u \<Rightarrow> se_sink se u) of
                       Inl e \<Rightarrow> (Err (BadBackend e), [ExtensionsLoaded])
                     | Inr _ \<Rightarrow>
                         (let backend = (pn_lineage_backend_url cfg \<noteq> None)
                          in case build_ops se cfg (''http://'' @ sa_text (pn_mcp_addr cfg) @ ''/mcp'') backend of
                            (Inl e, evs) \<Rightarrow> (Err e, ExtensionsLoaded # evs)
                          | (Inr ops, evs) \<Rightarrow>
                              (map_err McpEnded (se_lasts se),
                               ExtensionsLoaded # evs @ [WarmingCache]
                               @ (case pn_metrics_addr cfg of None \<Rightarrow> [] | Some m \<Rightarrow> [ServingMetrics m])
                               @ [Beating (pn_control_endpoint cfg) (pn_node_id cfg)]
                               @ serve_data (pn_data_addr cfg) v (map_option (\<lambda>_. protected_resource_metadata_url public) v)
                               @ [ServingMcp (pn_mcp_addr cfg) v public]
                               @ shutdown_lineage (se_flush_ms se) backend))))))"

definition run_node_add :: "'u start_env \<Rightarrow> (string \<Rightarrow> SocketAddr option) \<Rightarrow> (string option \<Rightarrow> (string, string) result) \<Rightarrow> string \<Rightarrow> NodeAddArgs
    \<Rightarrow> (start_error, unit) result \<times> start_event list" where
  "run_node_add se parse prepare control a =
     (case node_config parse prepare control a of
        Inl e \<Rightarrow> (Err (StartConfig e), [])
      | Inr cfg \<Rightarrow> run_pond_node_until se cfg)"

text \<open>One turn of the heartbeat loop: whether there is a client afterwards, and whether a beat was sent
  and accepted. \<open>connects\<close> and \<open>accepted\<close> are the control plane's part in it.\<close>

definition beat_tick :: "bool \<Rightarrow> bool \<Rightarrow> bool \<Rightarrow> bool \<times> bool" where
  "beat_tick connects accepted client =
     (let c = client \<or> connects in if c then (accepted, accepted) else (False, False))"

end
