(* ===== verification/Spec2Isabelle.thy ===== *)
theory Spec2Isabelle
  imports Extensions Error_Mapping Trace Sql_Shape Redact Catalog_Facts Control_Service
    Admin_Service Inflight Lineage_Roundtrip Lineage_Events Storage
    Agent_Contracts Cluster Arrow_Stream Read_Pool Abort_Watcher Engine_Txn_Facts
    Token_Verify Mcp_Facts Grpc_Control Sdk_Facts Startup_Facts
begin

text \<open>
  \<^bold>\<open>latiq\<close> gives software agents their own databases, called ponds. A control plane keeps the
  registry: nodes with heartbeats, ponds placed on nodes, datasets, catalogs, a policy. Pond nodes
  hold the ponds' files and run statements on an embedded engine; any node accepts a request and
  relays it to the pond's owner. This development models the Rust crates under \<open>src/crates\<close>.

  \<^bold>\<open>Conventions.\<close> A fallible call is a \<open>result\<close> (\<open>Ok\<close>/\<open>Err\<close>), machine integers whose width matters
  are words, ordered maps are sorted association lists (\<open>Ordered_Map\<close>), strings are char lists and
  the dash of the source's messages is written \<open>--\<close>. Code outside the repository (SQLite beyond
  the statements used, DuckDB, the token verifier, clocks, UUIDs, JSON and time parsing, the file
  system's failures) appears as arguments. The definitions keep the source's names, with a suffix
  where a name was taken.

  \<^bold>\<open>Shared types.\<close>
  \<^item> \<open>Prelude\<close>, \<open>Ordered_Map\<close>, \<open>Json\<close>: results, strings, the map interface (locale \<open>kv_map\<close>), JSON values.
  \<^item> \<open>Policy\<close> (\<open>latiq-common\<close> tier, pond\_name, id, timeout), \<open>Extensions\<close> (catalog, extensions),
    \<open>Errors\<close> (error), \<open>Error_Mapping\<close> (the errors of engine, agent and control plane and their
    envelopes), \<open>Trace\<close> (W3C trace context), \<open>Agent_Types\<close> (meta, result, types, registry\_control).

  \<^bold>\<open>Control plane\<close> (\<open>latiq-control-plane\<close>).
  \<^item> \<open>Registry\<close>: the tables and every method, statement by statement; a \<open>fault\<close> may strike any
    statement and a transaction rolls back. \<open>Registry_Facts\<close>: the invariant of all reachable
    registries, creation, placement, dropping. \<open>Catalog_Facts\<close>: datasets, catalogs, searches.
  \<^item> \<open>Control_Service\<close>: the RPC handlers and the create saga with its compensation; what other
    handlers do to the registry during the node call is arbitrary. \<open>Admin_Service\<close>: the admin
    handlers with identity and access trail.

  \<^bold>\<open>Pond node\<close> (\<open>latiq-agent-core\<close>, \<open>latiq-storage\<close>, parts of \<open>latiq-engine\<close>).
  \<^item> \<open>Sql_Shape\<close>: the read/write classifier. \<open>Redact\<close>: redaction and the generated SQL.
  \<^item> \<open>Inflight\<close>: in-flight operations, tombstones and deadlines, as whole calls and as interleaved
    locked sections. \<open>Storage\<close>: pond directories under failing file operations.
  \<^item> \<open>Agent_Node\<close>, \<open>Agent_Ops\<close>: \<open>AgentOps\<close>. An operation is an \<open>act\<close>, its result and the list of what
    it did (access records, relays, storage and engine calls, registry and gauge changes, lineage);
    the trait objects it calls are the fields of a \<open>world\<close>. \<open>Agent_Facts\<close>: the locale
    \<open>pond_operation\<close> is the contract of a routed operation, interpreted by all ten of them; one
    access record where an operation ran, work only at the owner. \<open>Agent_Contracts\<close>: the order of a
    drop, the answer to a statement, what it leaves behind, collected rows, dataset loads.
  \<^item> \<open>Cluster\<close>: a request through several nodes; \<open>visit n\<close> gives up after \<open>n\<close> relays, and in a sound
    cluster one relay is enough. \<open>at_owner\<close> is what a relayed request asks of the node it reaches.
  \<^item> \<open>Arrow_Stream\<close>: a streamed read between engine and consumer, over all interleavings; three
    moves of the producer suffice to end a cancelled stream.

  \<^bold>\<open>DuckDB adapter\<close> (\<open>latiq-engine-duckdb\<close>). DuckDB is a record of the calls made on a connection
  (\<open>duckdb\<close> in \<open>Pond_Instance\<close>); what the theorems need of it are named hypotheses.
  \<^item> \<open>Engine_Values\<close> (cells to JSON, the calendar), \<open>Error_Classes\<close> (errclass), \<open>Attachers\<close> (attach plans;
    no parameter escapes its literal), \<open>Pond_Instance\<close> (opening, cloning, extension warm-up).
  \<^item> \<open>Engine_Plan\<close> (datasets of a bound plan), \<open>Engine_Explain\<close> (estimates of an EXPLAIN).
  \<^item> \<open>Engine_Txn\<close>: reads and writes in their transactions, attribution, pulls, the cache of ponds.
    \<open>Engine_Txn_Facts\<close>: writes are atomic and signed, a pull leaves only credentials the engine
    refused to remove, pooled connections are idle.
  \<^item> \<open>Read_Pool\<close>: the pool of read connections refines a counting semaphore under all interleavings.
    \<open>Abort_Watcher\<close>: the interrupting thread; three of its moves stop a cancelled statement.

  \<^bold>\<open>Tokens\<close> (\<open>latiq-auth\<close>). \<open>Jwks\<close>: the key cache as a machine over requests, time and callers that hang
  up; how often it fetches and what its answers rest on. \<open>Token_Verify\<close>: configuration, verification,
  metadata and challenge; the token library's promise is the hypothesis \<open>decode_checks\<close>.

  \<^bold>\<open>Lineage\<close> (\<open>latiq-lineage\<close>).
  \<^item> \<open>Lineage_Events\<close>: events, facets, the emitter. \<open>Lineage_Writer\<close>: the buffered writer and the HTTP
    mirror's queue; conservation of events, a poisoned lock included. \<open>Lineage_Roundtrip\<close>: what is
    flushed is read back. \<open>Lineage_Reader\<close>, \<open>Lineage_Paging\<close>: bounded reading
    against the plain specification (the newest events first, cut at the limits), and the walk
    backwards through the pages. The bounds are the source's: 500 events, 256 KiB, 500 files.

  \<^bold>\<open>Node services\<close> (\<open>latiq-pond-node\<close>). The transport, \<open>serde_json\<close>'s text codec and Arrow's IPC codec are
  the records \<open>rpc_lib\<close> and \<open>ipc_lib\<close>; their round trips are hypotheses on the values at hand.
  \<^item> \<open>Node_Wire\<close>: the JSON of results, descriptions, pages and error envelopes, and its decoders.
  \<^item> \<open>Node_Rpc\<close>: identity at the door, statuses, the forwarder. \<open>Data_Service\<close>: streams and all handlers.
  \<^item> \<open>Node_Hop\<close>: what survives a hop; the locale \<open>relayed_rpc\<close> is the contract of a relayed call, interpreted
    by eight of them. \<open>Node_Relay\<close>: the caller, the answer, the error and the stream arrive unchanged.
  \<^item> \<open>Grpc_Control\<close>: the control plane over the wire agrees with the one in the same process.

  \<^bold>\<open>Agents' surface\<close> (\<open>latiq-mcp\<close>). The MCP and HTTP libraries dispatch to these definitions.
  \<^item> \<open>Mcp_Encode\<close>: tool results and the schemas declared for them. \<open>Mcp_Server\<close>: arguments, the layer that
    verifies every request, the thirteen tools, published addresses. \<open>Mcp_Docs\<close>: pages and prompts.
  \<^item> \<open>Mcp_Facts\<close>: the door and the tools agree with the Data service; every answer is traced; refused
    calls run nothing; what is advertised is what is enforced.

  \<^bold>\<open>Start-up\<close> (\<open>latiq\<close>, the \<open>lib.rs\<close> of \<open>latiq-control-plane\<close> and \<open>latiq-pond-node\<close>). \<open>Startup\<close>: what the
  server roles make of their flags, the order in which a control plane and a node come up, heartbeat
  and shutdown; a start is its result and the list of what it did. \<open>Startup_Facts\<close>: every surface
  verifies callers as the flags say, or nothing is served.

  \<^bold>\<open>Clients.\<close> \<open>Sdk_Client\<close> (\<open>latiq-sdk\<close>): tokens, addresses, identity headers, the calls. \<open>Sdk_Facts\<close>: the
  token presented, reads that are whole or an error.

  \<^bold>\<open>Assumptions worth knowing.\<close> Whole method calls on the registry are atomic, as its mutex makes
  them; interleaving is modelled where the code releases a lock or awaits (the saga, the in-flight
  sections, list-then-detail reads, the stream). The world of one agent operation is fixed while
  it runs. The effects of the blocking producer of a streamed read are listed where it is started.

  \<^bold>\<open>Not modelled.\<close> The prose of the MCP pages, the embedded cluster, the test client, the operator commands, metrics export.
\<close>

section \<open>Properties across components\<close>

text \<open>C22. An admin caller with an identity was vouched for end to end: with a verifier built from a
  configuration and key caches that ran in any way, an answered call carried a bearer token for this
  deployment's audience whose signature fits a key, and that key was published by the configured
  issuer the identity names, under the name and for the use it was taken for.\<close>

theorem admin_identity_traces_to_a_published_key:
  assumes "verifier_new pu cfg = Ok v" "decode_checks lib sig_ok says now"
    and caches: "\<forall>iss kid key. key_for iss kid = Ok key \<longrightarrow> (\<exists>evs. Answered kid (Ok key) \<in> set (jc_requests (jwks_run fj (doc iss) evs)))"
    and svc: "verifier svc = Some (\<lambda>t c. map_err shown (verify lib key_for v t c))"
    and "fst (identity_of svc u md op) = Ok (ident, trace)"
  shows "\<exists>hdr tok alg kid key r ks. md ''authorization'' = Some hdr \<and> bearer hdr = Some tok
     \<and> issuer ident \<in> (\<lambda>ic. trim (ic_issuer ic)) ` set (ac_issuers cfg)
     \<and> jwks_fetch (doc (issuer ident)) r = Ok ks \<and> published fj ks kid key
     \<and> sig_ok (trim tok) (sk_key key) alg \<and> alg \<notin> {HS256, HS384, HS512}
     \<and> tc_iss (says (trim tok)) = Some (issuer ident) \<and> trim (ac_audience cfg) \<in> set (tc_aud (says (trim tok)))
     \<and> map_option trim (tc_sub (says (trim tok))) = Some (subject ident)"
proof -
  obtain hdr tok where h: "md ''authorization'' = Some hdr" "bearer hdr = Some tok"
      "map_err shown (verify lib key_for v tok (md ''latiq-agent-id'')) = Ok ident"
    using identity_of_verified [OF svc assms(5)] by blast
  have ok: "verify lib key_for v tok (md ''latiq-agent-id'') = Ok ident" using h(3) by (simp add: map_err_eq_Inr)
  obtain alg kid key sub where s: "alg \<notin> {HS256, HS384, HS512}" "issuer ident \<in> (\<lambda>ic. trim (ic_issuer ic)) ` set (ac_issuers cfg)"
      "key_for (issuer ident) kid = Ok key" "sig_ok (trim tok) (sk_key key) alg"
      "trim (ac_audience cfg) \<in> set (tc_aud (says (trim tok)))" "tc_iss (says (trim tok)) = Some (issuer ident)"
      "tc_sub (says (trim tok)) = Some sub" "subject ident = trim sub"
    using verify_sound [OF assms(1,2) ok] by metis
  obtain r ks where "jwks_fetch (doc (issuer ident)) r = Ok ks" "published fj ks kid key"
    using caches s(3) cached_key_published by blast
  then show ?thesis using h(1,2) s by (intro exI [of _ hdr] exI [of _ tok] exI [of _ alg] exI [of _ kid] exI [of _ key] exI [of _ r] exI [of _ ks]) simp
qed

theorem admin_identity_traces_to_a_published_key_witness:
  "let svc = \<lparr>verifier = Some (\<lambda>t c. map_err (\<lambda>_. ''rejected'') (verify demo_lib demo_key_for demo_verifier t c)), challenge = None\<rparr>;
       md = (\<lambda>k. if k = ''authorization'' then Some ''Bearer h.p.s'' else if k = ''latiq-agent-id'' then Some ''bot'' else None) :: metadata
   in fst (identity_of svc demo_id md ''pond_list'') = Ok (demo_ident, trace_id_of demo_id md)
    \<and> (\<exists>r ks kid key. jwks_fetch demo_doc r = Ok ks \<and> published (\<lambda>_. Ok 7) ks kid (key :: nat SigningKey) \<and> sk_key key = 7)"
proof -
  let ?f = "\<lambda>t c. map_err (\<lambda>_. ''rejected'') (verify demo_lib demo_key_for demo_verifier t c)"
  let ?svc = "\<lparr>verifier = Some ?f, challenge = None\<rparr>"
  let ?md = "(\<lambda>k. if k = ''authorization'' then Some ''Bearer h.p.s'' else if k = ''latiq-agent-id'' then Some ''bot'' else None) :: metadata"
  have b: "bearer ''Bearer h.p.s'' = Some ''h.p.s''" by code_simp
  have i: "fst (identity_of ?svc demo_id ?md ''pond_list'') = Ok (demo_ident, trace_id_of demo_id ?md)"
    using b demo_verify by (simp add: identity_of_def Let_def)
  have c: "\<forall>iss kid key. demo_key_for iss kid = Ok key \<longrightarrow> (\<exists>evs. Answered kid (Ok key) \<in> set (jc_requests (jwks_run (\<lambda>_. Ok 7) demo_doc evs)))"
    using demo_answer [of 7] by (auto simp: demo_key_for_def split: if_splits)
  have s: "verifier ?svc = Some ?f" by simp
  note w = admin_identity_traces_to_a_published_key [where doc = "\<lambda>_. demo_doc" and key_for = demo_key_for,
      OF demo_verifier_new demo_decode_checks c s i]
  show ?thesis unfolding Let_def using i w by blast
qed

end
